(* ===== verification/Prelude.thy ===== *)
theory Prelude
  imports Complex_Main
begin

text \<open>
  Shared vocabulary of the development: exceptions, the row operations the services use on
  database tables, decimal rounding, and the string operations of the JavaScript code.

  A table is the list of its rows in insertion order. \<open>List.find\<close> is Prisma's
  \<open>findFirst\<close>/\<open>findUnique\<close> (the first row that satisfies the filter),
  \<open>update_where\<close> is \<open>update\<close>/\<open>updateMany\<close>, \<open>count_where\<close> is
  \<open>count\<close> and the \<open>count\<close> field of \<open>updateMany\<close>, and \<open>first_desc\<close> is
  \<open>findFirst\<close> with \<open>orderBy: \<dots> 'desc'\<close>. Decimals are exact rationals;
  \<open>dec2\<close> is decimal.js' \<open>toDecimalPlaces(2)\<close> and \<open>js_round\<close> is
  \<open>Math.round\<close>. Strings are ASCII character lists.
\<close>

named_theorems row_simps \<open>equations of the row operations\<close>
named_theorems row_dest \<open>destruction facts of the row operations\<close>
named_theorems js_simps \<open>evaluation of the JavaScript string operations\<close>

section \<open>Exceptions and handler results\<close>

text \<open>
  The exception classes the services throw. Only the class and a short message are kept;
  \<open>IssueFailed code ref\<close> is the structured 422 of the charge service, and
  \<open>Internal\<close> is any exception that is not an HTTP exception (it becomes a 500).
\<close>

datatype http_error =
    BadRequest string
  | Unauthorized string
  | Forbidden string
  | NotFound string
  | Conflict string
  | Gone string
  | Unprocessable string
  | PayloadTooLarge string
  | TooManyRequests string
  | BadGateway string
  | ServiceUnavailable string
  | IssueFailed string string
  | Internal string

text \<open>
  A handler returns its value or exception together with the database it leaves: what was
  written before an exception stays written.
\<close>

type_synonym ('s, 'a) outcome = "(http_error + 'a) \<times> 's"

definition is_ok :: "('s, 'a) outcome \<Rightarrow> bool" where
  "is_ok r \<longleftrightarrow> (case fst r of Inl _ \<Rightarrow> False | Inr _ \<Rightarrow> True)"

definition or_else :: "'a option \<Rightarrow> 'a \<Rightarrow> 'a" where
  \<comment> \<open>the operator \<open>??\<close> with a non-null right-hand side\<close>
  "or_else x d = (case x of None \<Rightarrow> d | Some v \<Rightarrow> v)"

definition or_opt :: "'a option \<Rightarrow> 'a option \<Rightarrow> 'a option" where
  \<comment> \<open>the operator \<open>??\<close> with a nullable right-hand side\<close>
  "or_opt x y = (case x of None \<Rightarrow> y | Some v \<Rightarrow> Some v)"

lemma or_else_simps [simp]: "or_else None d = d" "or_else (Some v) d = v"
  by (simp_all add: or_else_def)

lemma or_opt_simps [simp]: "or_opt None y = y" "or_opt (Some v) y = Some v"
  by (simp_all add: or_opt_def)

section \<open>Row operations\<close>

definition update_where :: "('r \<Rightarrow> bool) \<Rightarrow> ('r \<Rightarrow> 'r) \<Rightarrow> 'r list \<Rightarrow> 'r list" where
  "update_where P f xs = map (\<lambda>x. if P x then f x else x) xs"

definition count_where :: "('r \<Rightarrow> bool) \<Rightarrow> 'r list \<Rightarrow> nat" where
  "count_where P xs = length (filter P xs)"

definition first_desc :: "('r \<Rightarrow> int) \<Rightarrow> ('r \<Rightarrow> bool) \<Rightarrow> 'r list \<Rightarrow> 'r option" where
  "first_desc key P xs =
     (case sort_key (\<lambda>x. - key x) (filter P xs) of [] \<Rightarrow> None | x # _ \<Rightarrow> Some x)"

lemma update_where_Nil [row_simps, simp]: "update_where P f [] = []"
  by (simp add: update_where_def)

lemma update_where_Cons [row_simps, simp]:
  "update_where P f (x # xs) = (if P x then f x else x) # update_where P f xs"
  by (simp add: update_where_def)

lemma update_where_append [row_simps]:
  "update_where P f (xs @ ys) = update_where P f xs @ update_where P f ys"
  by (simp add: update_where_def)

lemma length_update_where [row_simps, simp]: "length (update_where P f xs) = length xs"
  by (simp add: update_where_def)

lemma update_where_none: "(\<And>x. x \<in> set xs \<Longrightarrow> \<not> P x) \<Longrightarrow> update_where P f xs = xs"
  by (induction xs) auto

lemma update_where_id: "(\<And>x. x \<in> set xs \<Longrightarrow> P x \<Longrightarrow> f x = x) \<Longrightarrow> update_where P f xs = xs"
  by (induction xs) auto

lemma map_update_where [row_simps]:
  "(\<And>x. g (f x) = g x) \<Longrightarrow> map g (update_where P f xs) = map g xs"
  by (induction xs) auto

lemma in_update_where: "y \<in> set (update_where P f xs) \<longleftrightarrow>
    (\<exists>x \<in> set xs. (P x \<and> y = f x) \<or> (\<not> P x \<and> y = x))"
  by (auto simp: update_where_def)

lemma filter_update_where:
  "(\<And>x. Q (f x) = Q x) \<Longrightarrow> filter Q (update_where P f xs) = update_where P f (filter Q xs)"
  by (induction xs) auto

lemma find_SomeD [row_dest]: "List.find P xs = Some x \<Longrightarrow> x \<in> set xs \<and> P x"
  by (auto simp: find_Some_iff)

lemma find_NoneD [row_dest]: "List.find P xs = None \<Longrightarrow> x \<in> set xs \<Longrightarrow> \<not> P x"
  by (auto simp: find_None_iff)

lemma find_append: "List.find P (xs @ ys) = or_opt (List.find P xs) (List.find P ys)"
  by (induction xs) auto

lemma find_ex: "x \<in> set xs \<Longrightarrow> P x \<Longrightarrow> \<exists>y. List.find P xs = Some y"
  by (induction xs) auto

lemma find_cong_rows: "(\<And>x. x \<in> set xs \<Longrightarrow> P x = Q x) \<Longrightarrow> List.find P xs = List.find Q xs"
  by (induction xs) auto

lemma find_update_where:
  assumes "\<And>x. P (f x) = P x"
  shows "List.find P (update_where Q f xs) =
    map_option (\<lambda>x. if Q x then f x else x) (List.find P xs)"
  using assms by (induction xs) auto

lemma find_key_append:
  "key y = k \<Longrightarrow> k \<notin> key ` set xs \<Longrightarrow> List.find (\<lambda>x. key x = k) (xs @ [y]) = Some y"
  by (induction xs) auto

lemma find_key_unique:
  assumes "distinct (map key xs)" and "x \<in> set xs"
  shows "List.find (\<lambda>y. key y = key x) xs = Some x"
  using assms by (induction xs) (auto dest: imageI)

lemma first_desc_SomeD [row_dest]: "first_desc k P xs = Some x \<Longrightarrow> x \<in> set xs \<and> P x"
proof -
  assume "first_desc k P xs = Some x"
  then obtain ys where ys: "sort_key (\<lambda>x. - k x) (filter P xs) = x # ys"
    by (auto simp: first_desc_def split: list.splits)
  have "set (sort_key (\<lambda>x. - k x) (filter P xs)) = set (filter P xs)"
    by simp
  with ys show ?thesis by auto
qed

lemma first_desc_None: "first_desc k P xs = None \<longleftrightarrow> (\<forall>x \<in> set xs. \<not> P x)"
proof -
  have "set (sort_key (\<lambda>x. - k x) (filter P xs)) = set (filter P xs)"
    by simp
  then have "sort_key (\<lambda>x. - k x) (filter P xs) = [] \<longleftrightarrow> filter P xs = []"
    by (metis set_empty)
  then show ?thesis
    by (auto simp: first_desc_def filter_empty_conv split: list.splits)
qed

lemma first_desc_greatest:
  assumes "first_desc k P xs = Some x" and "y \<in> set xs" and "P y"
  shows "k y \<le> k x"
proof -
  obtain ys where ys: "sort_key (\<lambda>x. - k x) (filter P xs) = x # ys"
    using assms(1) by (auto simp: first_desc_def split: list.splits)
  have "sorted (map (\<lambda>x. - k x) (x # ys))"
    using sorted_sort_key [of "\<lambda>x. - k x" "filter P xs"] ys by simp
  moreover have "y \<in> set (x # ys)"
  proof -
    have "set (x # ys) = set (filter P xs)"
      unfolding ys [symmetric] by simp
    then show ?thesis using assms(2,3) by simp
  qed
  ultimately show ?thesis by auto
qed

text \<open>The pages of a list, one after the other.\<close>

lemma concat_pages: "concat (map (\<lambda>p. take l (drop (p * l) xs)) [0..<n]) = take (n * l) xs"
proof (induction n)
  case (Suc n)
  have "take (n * l + l) xs = take (n * l) xs @ take l (drop (n * l) xs)"
    by (rule take_add)
  with Suc show ?case by (simp add: add.commute)
qed simp

lemma pages_enough: "0 < l \<Longrightarrow> n \<le> ((n + l - 1) div l) * (l :: nat)"
proof -
  assume "0 < l"
  then have "(n + l - 1) mod l < l" by simp
  moreover have "(n + l - 1) div l * l + (n + l - 1) mod l = n + l - 1" by (rule div_mult_mod_eq)
  ultimately show ?thesis by linarith
qed

section \<open>Decimals\<close>

definition js_round :: "rat \<Rightarrow> int" where
  "js_round x = \<lfloor>x + 1/2\<rfloor>"

definition js_round2 :: "rat \<Rightarrow> rat" where
  \<comment> \<open>the idiom \<open>Math.round(x * 100) / 100\<close>\<close>
  "js_round2 x = of_int (js_round (x * 100)) / 100"

definition dec2 :: "rat \<Rightarrow> rat" where
  \<comment> \<open>\<open>toDecimalPlaces(2)\<close>, half away from zero\<close>
  "dec2 x = sgn x * (of_int \<lfloor>\<bar>x\<bar> * 100 + 1/2\<rfloor> / 100)"

lemma js_round_mono: "x \<le> y \<Longrightarrow> js_round x \<le> js_round y"
  by (simp add: js_round_def floor_mono)

lemma js_round_of_int [simp]: "js_round (of_int k) = k"
  by (simp add: js_round_def floor_unique)

lemma js_round2_mono: "x \<le> y \<Longrightarrow> js_round2 x \<le> js_round2 y"
  by (simp add: js_round2_def js_round_mono divide_right_mono)

lemma js_round2_zero [simp]: "js_round2 0 = 0"
  using js_round_of_int [of 0] by (simp add: js_round2_def)

lemma js_round2_cents: "js_round2 (of_int k / 100) = of_int k / 100"
  by (simp add: js_round2_def)

lemma js_round2_bounds: "0 \<le> x \<Longrightarrow> x \<le> of_int k / 100 \<Longrightarrow> 0 \<le> js_round2 x \<and> js_round2 x \<le> of_int k / 100"
  using js_round2_mono [of 0 x] js_round2_mono [of x "of_int k / 100"]
  by (simp add: js_round2_cents)

lemma js_round2_error: "\<bar>js_round2 x - x\<bar> \<le> 1 / 200"
proof -
  define k :: rat where "k = of_int \<lfloor>x * 100 + 1/2\<rfloor>"
  have "k \<le> x * 100 + 1/2" "x * 100 + 1/2 < k + 1"
    using floor_correct [of "x * 100 + 1/2"] by (simp_all add: k_def)
  then have "\<bar>k / 100 - x\<bar> \<le> 1 / 200"
    by (intro abs_leI) linarith+
  then show ?thesis
    by (simp add: js_round2_def js_round_def k_def)
qed

lemma floor_half_rat [simp]: "\<lfloor>1/2 :: rat\<rfloor> = 0"
  by (simp add: floor_unique)

lemma dec2_nonneg: "0 \<le> x \<Longrightarrow> dec2 x = js_round2 x"
  by (cases "x = 0") (simp_all add: dec2_def js_round2_def js_round_def)

lemma dec2_zero [simp]: "dec2 0 = 0"
  by (simp add: dec2_def)

lemma dec2_bounds: "0 \<le> x \<Longrightarrow> x \<le> of_int k / 100 \<Longrightarrow> 0 \<le> dec2 x \<and> dec2 x \<le> of_int k / 100"
  unfolding dec2_nonneg by (rule js_round2_bounds)

section \<open>Strings\<close>

definition code :: "char \<Rightarrow> nat" where
  "code c = of_char c"

definition is_digit :: "char \<Rightarrow> bool" where
  "is_digit c \<longleftrightarrow> 48 \<le> code c \<and> code c \<le> 57"

definition is_upper :: "char \<Rightarrow> bool" where
  "is_upper c \<longleftrightarrow> 65 \<le> code c \<and> code c \<le> 90"

definition is_lower :: "char \<Rightarrow> bool" where
  "is_lower c \<longleftrightarrow> 97 \<le> code c \<and> code c \<le> 122"

definition is_space :: "char \<Rightarrow> bool" where
  "is_space c \<longleftrightarrow> code c = 32 \<or> (9 \<le> code c \<and> code c \<le> 13)"

definition upper_char :: "char \<Rightarrow> char" where
  "upper_char c = (if is_lower c then char_of (code c - 32) else c)"

definition lower_char :: "char \<Rightarrow> char" where
  "lower_char c = (if is_upper c then char_of (code c + 32) else c)"

definition to_upper :: "string \<Rightarrow> string" where
  "to_upper = map upper_char"

definition to_lower :: "string \<Rightarrow> string" where
  "to_lower = map lower_char"

definition trim :: "string \<Rightarrow> string" where
  "trim s = rev (dropWhile is_space (rev (dropWhile is_space s)))"

definition digits_only :: "string \<Rightarrow> string" where
  \<comment> \<open>\<open>s.replace(/\D/g, '')\<close>\<close>
  "digits_only = filter is_digit"

definition digit_val :: "char \<Rightarrow> nat" where
  "digit_val c = code c - 48"

lemmas char_class_defs = code_def is_digit_def is_upper_def is_lower_def is_space_def

lemmas string_defs = char_class_defs upper_char_def lower_char_def to_upper_def to_lower_def
  trim_def digits_only_def digit_val_def

lemma digits_only_all: "\<forall>c \<in> set (digits_only s). is_digit c"
  by (simp add: digits_only_def)

lemma digits_only_idem [simp]: "digits_only (digits_only s) = digits_only s"
  by (simp add: digits_only_def)

lemma dropWhile_space_fixed: "s = [] \<or> \<not> is_space (hd s) \<Longrightarrow> dropWhile is_space s = s"
  by (cases s) auto

lemma hd_dropWhile_space: "dropWhile is_space s = [] \<or> \<not> is_space (hd (dropWhile is_space s))"
  by (induction s) auto

lemma last_dropWhile: "dropWhile P s \<noteq> [] \<Longrightarrow> last (dropWhile P s) = last s"
  by (induction s) auto

lemma dropWhile_eq_Nil_rev: "dropWhile P (rev s) = [] \<longleftrightarrow> dropWhile P s = []"
  by (simp add: dropWhile_eq_Nil_conv)

lemma trim_ends: "trim s = [] \<or> (\<not> is_space (hd (trim s)) \<and> \<not> is_space (last (trim s)))"
proof -
  define t where "t = dropWhile is_space s"
  define u where "u = dropWhile is_space (rev t)"
  have t: "trim s = rev u"
    by (simp add: trim_def t_def u_def)
  show ?thesis
  proof (cases "u = []")
    case False
    then have "t \<noteq> []" by (auto simp: u_def)
    then have "\<not> is_space (hd t)"
      using hd_dropWhile_space [of s] unfolding t_def by blast
    moreover have "last u = last (rev t)"
      using False unfolding u_def by (rule last_dropWhile)
    moreover have "\<not> is_space (hd u)"
      using False hd_dropWhile_space [of "rev t"] unfolding u_def by blast
    ultimately show ?thesis
      using False \<open>t \<noteq> []\<close> by (simp add: t hd_rev last_rev)
  qed (simp add: t)
qed

lemma trim_idem [simp]: "trim (trim s) = trim s"
proof (cases "trim s = []")
  case True
  then show ?thesis by (simp only: True) (simp add: trim_def)
next
  case False
  then have e: "\<not> is_space (hd (trim s))" "\<not> is_space (last (trim s))"
    using trim_ends [of s] by auto
  have "dropWhile is_space (trim s) = trim s"
    by (rule dropWhile_space_fixed) (simp add: e)
  moreover have "dropWhile is_space (rev (trim s)) = rev (trim s)"
    by (rule dropWhile_space_fixed) (simp add: e hd_rev False)
  ultimately show ?thesis
    by (subst trim_def) simp
qed

lemma code_bound: "code c < 256"
  by (simp add: code_def)

lemma lower_char_idem [simp]: "lower_char (lower_char c) = lower_char c"
  by (auto simp: lower_char_def is_upper_def code_def)

lemma to_lower_idem [simp]: "to_lower (to_lower s) = to_lower s"
  by (simp add: to_lower_def)

lemma is_space_lower [simp]: "is_space (lower_char c) = is_space c"
  by (auto simp: lower_char_def is_upper_def is_space_def code_def)

lemma dropWhile_space_lower:
  "dropWhile is_space (map lower_char s) = map lower_char (dropWhile is_space s)"
  by (induction s) auto

lemma trim_lower: "trim (to_lower s) = to_lower (trim s)"
  by (simp add: trim_def to_lower_def dropWhile_space_lower rev_map)

section \<open>Numbers as text\<close>

definition digit_char :: "nat \<Rightarrow> char" where
  "digit_char n = char_of (48 + n)"

fun show_nat :: "nat \<Rightarrow> string" where
  "show_nat n = (if n < 10 then [digit_char n] else show_nat (n div 10) @ [digit_char (n mod 10)])"

declare show_nat.simps [simp del]

definition to_fixed2 :: "rat \<Rightarrow> string" where
  \<comment> \<open>\<open>Number.prototype.toFixed(2)\<close>\<close>
  "to_fixed2 x =
     (let c = nat \<lfloor>\<bar>x\<bar> * 100 + 1/2\<rfloor>
      in (if x < 0 then ''-'' else '''') @ show_nat (c div 100) @ ''.''
           @ [digit_char (c mod 100 div 10), digit_char (c mod 10)])"

fun read_digits :: "nat \<Rightarrow> string \<Rightarrow> nat" where
  "read_digits acc [] = acc"
| "read_digits acc (c # cs) = read_digits (acc * 10 + digit_val c) cs"

definition split_sign :: "string \<Rightarrow> bool \<times> string" where
  "split_sign s =
     (case s of
        [] \<Rightarrow> (False, [])
      | c # cs \<Rightarrow>
          if c = CHR ''-'' then (True, cs) else if c = CHR ''+'' then (False, cs) else (False, s))"

definition number_string :: "string \<Rightarrow> rat option" where
  \<comment> \<open>class-validator's \<open>IsNumberString\<close>, the pattern \<open>[+-]?([0-9]*[.])?[0-9]+\<close>, with its value\<close>
  "number_string s =
     (let t = snd (split_sign s);
          sign = (if fst (split_sign s) then - 1 else 1);
          whole = takeWhile is_digit t;
          rest = dropWhile is_digit t
      in case rest of
           [] \<Rightarrow> if whole = [] then None else Some (sign * of_nat (read_digits 0 whole))
         | c # fs \<Rightarrow>
             if c = CHR ''.'' \<and> fs \<noteq> [] \<and> list_all is_digit fs
             then Some (sign * of_nat (read_digits 0 (whole @ fs)) / 10 ^ length fs)
             else None)"

definition parse_int :: "string \<Rightarrow> int option" where
  \<comment> \<open>\<open>parseInt(s, 10)\<close>, \<open>None\<close> for NaN\<close>
  "parse_int s =
     (let u = split_sign (dropWhile is_space s);
          ds = takeWhile is_digit (snd u)
      in if ds = [] then None
         else Some ((if fst u then - 1 else 1) * int (read_digits 0 ds)))"

lemma digit_char_values [js_simps]:
  "digit_char 0 = CHR ''0''" "digit_char 1 = CHR ''1''" "digit_char 2 = CHR ''2''"
  "digit_char 3 = CHR ''3''" "digit_char 4 = CHR ''4''" "digit_char 5 = CHR ''5''"
  "digit_char 6 = CHR ''6''" "digit_char 7 = CHR ''7''" "digit_char 8 = CHR ''8''"
  "digit_char 9 = CHR ''9''" "digit_char (Suc 0) = CHR ''1''"
  by code_simp+

lemma digit_char_digit: "n < 10 \<Longrightarrow> is_digit (digit_char n)"
  by (simp add: digit_char_def is_digit_def code_def)

lemma digit_val_char [simp]: "n < 10 \<Longrightarrow> digit_val (digit_char n) = n"
  by (simp add: digit_char_def digit_val_def code_def)

lemma show_nat_digits: "c \<in> set (show_nat n) \<Longrightarrow> is_digit c"
proof (induction n rule: show_nat.induct)
  case (1 n)
  from 1(2) show ?case
    unfolding show_nat.simps [of n]
    using 1(1) by (auto simp: digit_char_digit split: if_splits)
qed

lemma read_digits_append: "read_digits a (s @ t) = read_digits (read_digits a s) t"
  by (induction s arbitrary: a) auto

lemma read_show_nat [simp]: "read_digits 0 (show_nat n) = n"
proof (induction n rule: show_nat.induct)
  case (1 n)
  then show ?case
    by (subst show_nat.simps) (simp add: read_digits_append)
qed

lemma show_nat_nonempty [simp]: "show_nat n \<noteq> []"
  by (subst show_nat.simps) simp

definition starts_with :: "string \<Rightarrow> string \<Rightarrow> bool" where
  "starts_with p s \<longleftrightarrow> take (length p) s = p"

fun has_infix :: "string \<Rightarrow> string \<Rightarrow> bool" where
  "has_infix p s = (starts_with p s \<or> (case s of [] \<Rightarrow> False | _ # cs \<Rightarrow> has_infix p cs))"

declare has_infix.simps [simp del]

end
