(* ===== verification/Store.thy ===== *)
theory Store
  imports Prelude
begin

text \<open>
  The data model: the enumerations of \<open>payments/enums.ts\<close> and of the Prisma schema, one record
  per table the modelled services read or write, and the database they share.

  A column that may be null has an option type. Timestamps and dates are milliseconds since the
  epoch, as \<open>Date.getTime\<close> gives them, and \<open>numeric(15,2)\<close> columns are rationals. The
  columns of a contract are grouped as the code treats them: the debtor's contact data, the
  commercial offer snapshot and the projection of the current agreement. Columns no modelled
  operation looks at (display texts, audit rows) are left out.

  Primary keys are drawn from a counter of the database by a generator the environment supplies;
  a theorem that needs them fresh assumes that the generator is injective.
\<close>

section \<open>Enumerations\<close>

datatype provider_type = BANCO_DO_BRASIL

datatype payment_method = BOLETO | PIX | BOLEPIX

datatype gateway_environment = SANDBOX | PRODUCTION

datatype charge_status =
  CH_PENDING | CH_ISSUED | CH_PAID | CH_CANCELLED | CH_EXPIRED | CH_FAILED

datatype charge_channel = COBCOM | LANDING_PAGE | WHATSAPP | CHATBOT

datatype event_source = EV_WEBHOOK | EV_SYNC | EV_JOB | EV_MANUAL

datatype settlement_source = SRC_PIX | SRC_SERASA | SRC_MANUAL

datatype settlement_status = ST_CONFIRMED | ST_REVERSED

datatype contract_status = CT_ACTIVE | CT_SUSPENDED | CT_CANCELLED

datatype payment_status =
  PS_OPEN | PS_IN_AGREEMENT | PS_INSTALLMENT | PS_AGREEMENT_BREACHED | PS_PAID

datatype serasa_status =
    SE_NOT_ENABLED | SE_PENDING | SE_SENT | SE_REGISTERED | SE_UPDATED | SE_FAILED
  | SE_REMOVING | SE_REMOVED

datatype debt_type =
    COMMERCIAL | BANKING | SERVICES | UTILITIES | TELECOM | EDUCATION | HEALTH | CONDOMINIAL
  | OTHER

datatype cancellation_reason =
  CREDITOR_REQUEST | CONTESTATION | PROCON | RECLAME_AQUI | EMAIL_REQUEST

datatype operation_action = CREATE_OR_UPDATE | REMOVE

datatype operation_status =
    OP_PENDING | OP_PROCESSING | OP_COMPLETED | OP_PARTIALLY_FAILED | OP_FAILED | OP_CANCELLED

datatype interaction_status =
    IA_QUEUED | IA_SENT | IA_DELIVERED | IA_READ | IA_ANSWERED | IA_COMPLETED | IA_FAILED | IA_NO_ANSWER | IA_REJECTED

datatype webhook_status = WH_RECEIVED | WH_PROCESSED | WH_UNMATCHED

datatype provider_env = PV_HOMOLOGATION | PV_PRODUCTION

datatype role = ADMIN | OPERATIONAL | VIEWER

datatype item_status =
    IT_PENDING | IT_WAITING_PROVIDER_EVENT | IT_REGISTERED | IT_UPDATED | IT_REMOVED | IT_FAILED

text \<open>Unstructured JSON columns and provider bodies.\<close>

datatype json =
    JNull
  | JBool bool
  | JNum rat
  | JStr string
  | JArr "json list"
  | JObj "(string \<times> json) list"

definition jopt :: "('a \<Rightarrow> json) \<Rightarrow> 'a option \<Rightarrow> json" where
  \<comment> \<open>the idiom \<open>x ?? null\<close> inside a JSON literal\<close>
  "jopt f x = (case x of None \<Rightarrow> JNull | Some v \<Rightarrow> f v)"

fun jget :: "string \<Rightarrow> json \<Rightarrow> json option" where
  \<comment> \<open>property access on an object; \<open>None\<close> is \<open>undefined\<close>\<close>
  "jget k (JObj kvs) = map_of kvs k"
| "jget k _ = None"

section \<open>Rows\<close>

record wallet_band =
  wb_minAgingDays :: int
  wb_maxAgingDays :: "int option"
  wb_cashDiscountPercent :: rat
  wb_installmentDiscountPercent :: rat
  wb_cashStrategyDiscountPercent :: "rat option"
  wb_installmentStrategyDiscountPercent :: "rat option"

record creditor_band =
  cb_minAgingDays :: int
  cb_maxAgingDays :: "int option"
  cb_cashDiscountPercent :: rat
  cb_installmentDiscountPercent :: rat

record wallet =
  wl_id :: string
  wl_accountId :: string
  wl_creditorId :: string
  wl_name :: string
  wl_serasaWalletExternalId :: "string option"
  wl_cobcomDiscountPercent :: rat
  wl_offerFirstInstallmentDays :: int
  wl_offerMinInstallmentValue :: rat
  wl_offerMaxInstallments :: int
  wl_commissionPercent :: rat
  wl_defaultDebtType :: debt_type
  wl_smsTemplate :: "string option"
  wl_discountBands :: "wallet_band list"
  wl_active :: bool
  wl_deletedAt :: "int option"

record creditor =
  cr_id :: string
  cr_accountId :: string
  cr_name :: string
  cr_tradeName :: "string option"
  cr_cnpj :: "string option"
  cr_commissionPercent :: rat
  cr_discountBands :: "creditor_band list"
  cr_deletedAt :: "int option"

record debtor_contact =
  db_birthDate :: "int option"
  db_email :: "string option"
  db_phone :: "string option"
  db_street :: "string option"
  db_addressNumber :: "string option"
  db_addressComplement :: "string option"
  db_neighborhood :: "string option"
  db_city :: "string option"
  db_state :: "string option"
  db_zipCode :: "string option"

record product_info =
  pr_name :: "string option"
  pr_adhesionDate :: "int option"
  pr_debtOrigin :: "string option"
  pr_debtOriginDocHash :: "string option"
  pr_offer :: json

record offer_snapshot =
  of_value :: "rat option"
  of_discountPercent :: "rat option"
  of_firstInstallmentDays :: "int option"
  of_maxInstallments :: "int option"
  of_maximumDiscountPercent :: "rat option"
  of_repasseValue :: "rat option"
  of_commissionPercent :: "rat option"
  of_commissionValue :: "rat option"

record agreement =
  ag_reference :: "string option"
  ag_totalAmount :: "rat option"
  ag_createdAt :: "int option"
  ag_installments :: json
  ag_dueAt :: "int option"
  ag_totalInstallments :: "int option"
  ag_paidInstallments :: int

record contract =
  ct_id :: string
  ct_accountId :: string
  ct_walletId :: string
  ct_debtorDocument :: string
  ct_debtorDocumentHash :: string
  ct_debtorName :: string
  ct_debtor :: debtor_contact
  ct_contractNumber :: string
  ct_debtType :: debt_type
  ct_occurrenceDate :: int
  ct_agingDays :: int
  ct_dueDate :: "int option"
  ct_originalValue :: rat
  ct_updatedValue :: rat
  ct_product :: product_info
  ct_isNegativated :: bool
  ct_cancelledAt :: "int option"
  ct_cancellationReason :: "cancellation_reason option"
  ct_offer :: offer_snapshot
  ct_deduplicationKey :: string
  ct_serasaStatus :: serasa_status
  ct_paymentStatus :: payment_status
  ct_status :: contract_status
  ct_debtId :: "string option"
  ct_agreement :: agreement
  ct_totalPaidAmount :: rat
  ct_lastPaymentAt :: "int option"
  ct_acceptedDiscountPercent :: "rat option"
  ct_agreedPaymentAmount :: "rat option"
  ct_deletedAt :: "int option"
  ct_createdAt :: int

record payment_gateway =
  gw_id :: string
  gw_accountId :: string
  gw_name :: string
  gw_providerType :: provider_type
  gw_environment :: gateway_environment
  gw_enabled :: bool
  gw_supportedMethods :: "payment_method list"
  gw_pixKey :: "string option"
  gw_encryptedCredentials :: string
  gw_timeoutMs :: int
  gw_maxRetries :: nat
  gw_createdAt :: int

record payment_charge =
  ch_id :: string
  ch_accountId :: string
  ch_contractId :: string
  ch_paymentGatewayId :: string
  ch_method :: payment_method
  ch_status :: charge_status
  ch_amount :: rat
  ch_baseAmount :: "rat option"
  ch_discountPercent :: rat
  ch_dueDate :: int
  ch_idempotencyKey :: string
  ch_externalId :: "string option"
  ch_externalStatus :: "string option"
  ch_ourNumber :: "string option"
  ch_txid :: "string option"
  ch_digitableLine :: "string option"
  ch_barcode :: "string option"
  ch_pixCopyPaste :: "string option"
  ch_qrCodeUrl :: "string option"
  ch_documentUrl :: "string option"
  ch_providerPayload :: json
  ch_failureCode :: "string option"
  ch_failureMessage :: "string option"
  ch_issuedAt :: "int option"
  ch_paidAt :: "int option"
  ch_expiresAt :: "int option"
  ch_attributedChannel :: "charge_channel option"
  ch_version :: int
  ch_createdAt :: int

record payment_event =
  ev_id :: string
  ev_paymentChargeId :: string
  ev_fromStatus :: "charge_status option"
  ev_toStatus :: charge_status
  ev_source :: event_source
  ev_metadata :: json

record payment_settlement =
  st_id :: string
  st_accountId :: string
  st_contractId :: string
  st_paymentChargeId :: "string option"
  st_agreementReference :: "string option"
  st_installmentNumber :: "int option"
  st_source :: settlement_source
  st_status :: settlement_status
  st_amount :: rat
  st_paidAt :: int
  st_externalPaymentId :: string
  st_channelEventId :: "string option"
  st_debtReference :: "string option"
  st_metadata :: json
  st_providerPayload :: json

record interaction =
  ia_id :: string
  ia_contractId :: string
  ia_accountId :: string
  ia_walletId :: string
  ia_channel :: string
  ia_status :: interaction_status
  ia_provider :: "string option"
  ia_externalId :: "string option"
  ia_payload :: json
  ia_occurredAt :: int

record contract_tag =
  tg_id :: string
  tg_contractId :: string
  tg_tag :: string

record provider_operation =
  op_id :: string
  op_accountId :: string
  op_providerId :: string
  op_walletId :: string
  op_userId :: string
  op_action :: operation_action
  op_status :: operation_status
  op_totalItems :: nat
  op_createdAt :: int

record operation_item =
  it_id :: string
  it_operationId :: string
  it_contractId :: string
  it_batchIndex :: nat
  it_status :: item_status
  it_transactionId :: "string option"
  it_debtId :: "string option"
  it_errorCode :: "string option"
  it_errorMessage :: "string option"
  it_attempts :: nat
  it_lastAttemptAt :: "int option"
  it_createdAt :: int

record user =
  us_id :: string
  us_accountId :: string
  us_creditorId :: "string option"
  us_email :: string
  us_name :: "string option"
  us_passwordHash :: "string option"
  us_role :: role
  us_isActive :: bool
  us_mustResetPassword :: bool
  us_createdAt :: int

record provider =
  pv_id :: string
  pv_accountId :: string
  pv_environment :: provider_env
  pv_credentials :: string

record operation_job =
  oj_operationId :: string
  oj_batchIndex :: nat
  oj_providerId :: string
  oj_action :: operation_action

record webhook_event =
  wh_id :: string
  wh_eventType :: string
  wh_transactionId :: "string option"
  wh_payload :: json
  wh_status :: webhook_status

record database =
  wallets :: "wallet list"
  creditors :: "creditor list"
  contracts :: "contract list"
  gateways :: "payment_gateway list"
  charges :: "payment_charge list"
  events :: "payment_event list"
  settlements :: "payment_settlement list"
  interactions :: "interaction list"
  tags :: "contract_tag list"
  operations :: "provider_operation list"
  items :: "operation_item list"
  users :: "user list"
  providers :: "provider list"
  queue :: "operation_job list"
  webhooks :: "webhook_event list"
  nextId :: nat

section \<open>Tables with a unique index\<close>

text \<open>
  What the services rely on when they create a row in a table with a unique index: the insertion
  fails on a key that is taken, and otherwise appends the row. The key of the stored row is the
  key of the row that was asked for, although its identifier and its rounded amounts are new.
\<close>

locale unique_table =
  fixes rows :: "'d \<Rightarrow> 'r list"
    and key :: "'r \<Rightarrow> 'k"
    and insert_row :: "'r \<Rightarrow> 'd \<Rightarrow> ('r \<times> 'd) option"
  assumes insert_taken: "key r \<in> key ` set (rows d) \<Longrightarrow> insert_row r d = None"
    and insert_free: "key r \<notin> key ` set (rows d) \<Longrightarrow>
      \<exists>r' d'. insert_row r d = Some (r', d') \<and> key r' = key r \<and> rows d' = rows d @ [r']"
begin

lemma insert_None: "insert_row r d = None \<longleftrightarrow> key r \<in> key ` set (rows d)"
  using insert_taken [of r d] insert_free [of r d] by fastforce

lemma insert_SomeD:
  assumes "insert_row r d = Some (r', d')"
  shows "key r \<notin> key ` set (rows d)" and "key r' = key r" and "rows d' = rows d @ [r']"
  using assms insert_taken [of r d] insert_free [of r d] by fastforce+

lemma insert_unique:
  assumes "insert_row r d = Some (r', d')" and "distinct (map key (rows d))"
  shows "distinct (map key (rows d'))"
  using insert_SomeD [OF assms(1)] assms(2) by auto

lemma insert_lookup:
  assumes "insert_row r d = Some (r', d')"
  shows "List.find (\<lambda>x. key x = key r) (rows d') = Some r'"
proof -
  have "List.find (\<lambda>x. key x = key r) (rows d) = None"
    using insert_SomeD(1) [OF assms] by (force simp: find_None_iff image_iff)
  then show ?thesis
    using insert_SomeD [OF assms] by (simp add: find_append)
qed

lemma insert_twice:
  assumes "insert_row r d = Some (r', d')" and "key s = key r"
  shows "insert_row s d' = None"
  using insert_SomeD [OF assms(1)] assms(2) by (simp add: insert_None)

lemma insert_prefix:
  "insert_row r d = Some (r', d') \<Longrightarrow> \<exists>new. rows d' = rows d @ new"
  using insert_SomeD(3) by blast

end

section \<open>Creating rows\<close>

text \<open>
  \<open>prisma.<table>.create\<close>: the identifier comes from the generator, decimal columns are rounded
  by the column type, and a violated unique index (Prisma error P2002) is \<open>None\<close>.
\<close>

definition charge_key :: "payment_charge \<Rightarrow> string \<times> string" where
  \<comment> \<open>\<open>@@unique([idempotencyKey, paymentGatewayId])\<close>\<close>
  "charge_key c = (ch_idempotencyKey c, ch_paymentGatewayId c)"

definition settlement_key :: "payment_settlement \<Rightarrow> settlement_source \<times> string" where
  \<comment> \<open>\<open>@@unique([source, externalPaymentId])\<close>\<close>
  "settlement_key s = (st_source s, st_externalPaymentId s)"

definition new_charge_row :: "(nat \<Rightarrow> string) \<Rightarrow> payment_charge \<Rightarrow> database \<Rightarrow> payment_charge" where
  "new_charge_row gen c d =
     c\<lparr>ch_id := gen (nextId d),
       ch_amount := dec2 (ch_amount c),
       ch_baseAmount := map_option dec2 (ch_baseAmount c),
       ch_discountPercent := dec2 (ch_discountPercent c)\<rparr>"

definition create_charge ::
  "(nat \<Rightarrow> string) \<Rightarrow> payment_charge \<Rightarrow> database \<Rightarrow> (payment_charge \<times> database) option" where
  "create_charge gen c d =
     (if charge_key c \<in> charge_key ` set (charges d) then None
      else let c' = new_charge_row gen c d
           in Some (c', d\<lparr>charges := charges d @ [c'], nextId := Suc (nextId d)\<rparr>))"

definition create_settlement ::
  "(nat \<Rightarrow> string) \<Rightarrow> payment_settlement \<Rightarrow> database \<Rightarrow> (payment_settlement \<times> database) option" where
  "create_settlement gen s d =
     (if settlement_key s \<in> settlement_key ` set (settlements d) then None
      else let s' = s\<lparr>st_id := gen (nextId d), st_amount := dec2 (st_amount s)\<rparr>
           in Some (s', d\<lparr>settlements := settlements d @ [s'], nextId := Suc (nextId d)\<rparr>))"

definition create_event :: "(nat \<Rightarrow> string) \<Rightarrow> payment_event \<Rightarrow> database \<Rightarrow> database" where
  "create_event gen v d =
     d\<lparr>events := events d @ [v\<lparr>ev_id := gen (nextId d)\<rparr>], nextId := Suc (nextId d)\<rparr>"

definition create_interaction :: "(nat \<Rightarrow> string) \<Rightarrow> interaction \<Rightarrow> database \<Rightarrow> database" where
  "create_interaction gen i d =
     d\<lparr>interactions := interactions d @ [i\<lparr>ia_id := gen (nextId d)\<rparr>], nextId := Suc (nextId d)\<rparr>"

definition update_contract :: "string \<Rightarrow> (contract \<Rightarrow> contract) \<Rightarrow> database \<Rightarrow> database" where
  "update_contract i f d = d\<lparr>contracts := update_where (\<lambda>c. ct_id c = i) f (contracts d)\<rparr>"

definition update_charge :: "string \<Rightarrow> (payment_charge \<Rightarrow> payment_charge) \<Rightarrow> database \<Rightarrow> database" where
  "update_charge i f d = d\<lparr>charges := update_where (\<lambda>c. ch_id c = i) f (charges d)\<rparr>"

lemmas table_defs = new_charge_row_def create_charge_def create_settlement_def create_event_def
  create_interaction_def update_contract_def update_charge_def

lemma charge_key_new [simp]: "charge_key (new_charge_row gen c d) = charge_key c"
  by (simp add: charge_key_def new_charge_row_def)

lemma settlement_key_new [simp]:
  "settlement_key (s\<lparr>st_id := i, st_amount := a\<rparr>) = settlement_key s"
  by (simp add: settlement_key_def)

interpretation charge_table: unique_table charges charge_key "create_charge gen" for gen
  by unfold_locales (auto simp: create_charge_def Let_def)

interpretation settlement_table: unique_table settlements settlement_key "create_settlement gen" for gen
  by unfold_locales (auto simp: create_settlement_def Let_def)

text \<open>Frame facts: what each operation leaves alone.\<close>

lemma create_charge_frame [row_dest]:
  assumes "create_charge gen c d = Some (c', d')"
  shows "contracts d' = contracts d" and "settlements d' = settlements d" and "events d' = events d"
    and "gateways d' = gateways d" and "wallets d' = wallets d" and "creditors d' = creditors d"
    and "interactions d' = interactions d" and "charges d' = charges d @ [c']"
    and "c' = new_charge_row gen c d" and "nextId d' = Suc (nextId d)"
    and "operations d' = operations d" and "items d' = items d" and "tags d' = tags d"
    and "users d' = users d" and "providers d' = providers d" and "queue d' = queue d"
    and "webhooks d' = webhooks d"
  using assms by (auto simp: create_charge_def Let_def split: if_splits)

lemma create_settlement_frame [row_dest]:
  assumes "create_settlement gen s d = Some (s', d')"
  shows "contracts d' = contracts d" and "charges d' = charges d" and "events d' = events d"
    and "gateways d' = gateways d" and "wallets d' = wallets d" and "creditors d' = creditors d"
    and "interactions d' = interactions d" and "settlements d' = settlements d @ [s']"
    and "s' = s\<lparr>st_id := gen (nextId d), st_amount := dec2 (st_amount s)\<rparr>"
    and "nextId d' = Suc (nextId d)"
    and "operations d' = operations d" and "items d' = items d" and "tags d' = tags d"
    and "users d' = users d" and "providers d' = providers d" and "queue d' = queue d"
    and "webhooks d' = webhooks d"
  using assms by (auto simp: create_settlement_def Let_def split: if_splits)

lemma create_event_frame [row_simps, simp]:
  "contracts (create_event gen v d) = contracts d"
  "charges (create_event gen v d) = charges d"
  "settlements (create_event gen v d) = settlements d"
  "gateways (create_event gen v d) = gateways d"
  "wallets (create_event gen v d) = wallets d"
  "creditors (create_event gen v d) = creditors d"
  "interactions (create_event gen v d) = interactions d"
  "operations (create_event gen v d) = operations d"
  "items (create_event gen v d) = items d"
  "tags (create_event gen v d) = tags d"
  "users (create_event gen v d) = users d"
  "providers (create_event gen v d) = providers d"
  "queue (create_event gen v d) = queue d"
  "webhooks (create_event gen v d) = webhooks d"
  "events (create_event gen v d) = events d @ [v\<lparr>ev_id := gen (nextId d)\<rparr>]"
  "nextId (create_event gen v d) = Suc (nextId d)"
  by (simp_all add: create_event_def)

lemma create_interaction_frame [row_simps, simp]:
  "contracts (create_interaction gen v d) = contracts d"
  "charges (create_interaction gen v d) = charges d"
  "settlements (create_interaction gen v d) = settlements d"
  "gateways (create_interaction gen v d) = gateways d"
  "wallets (create_interaction gen v d) = wallets d"
  "creditors (create_interaction gen v d) = creditors d"
  "events (create_interaction gen v d) = events d"
  "operations (create_interaction gen v d) = operations d"
  "items (create_interaction gen v d) = items d"
  "tags (create_interaction gen v d) = tags d"
  "users (create_interaction gen v d) = users d"
  "providers (create_interaction gen v d) = providers d"
  "queue (create_interaction gen v d) = queue d"
  "webhooks (create_interaction gen v d) = webhooks d"
  "interactions (create_interaction gen v d) = interactions d @ [v\<lparr>ia_id := gen (nextId d)\<rparr>]"
  "nextId (create_interaction gen v d) = Suc (nextId d)"
  by (simp_all add: create_interaction_def)

lemma update_contract_frame [row_simps, simp]:
  "charges (update_contract i f d) = charges d"
  "settlements (update_contract i f d) = settlements d"
  "events (update_contract i f d) = events d"
  "gateways (update_contract i f d) = gateways d"
  "wallets (update_contract i f d) = wallets d"
  "creditors (update_contract i f d) = creditors d"
  "interactions (update_contract i f d) = interactions d"
  "operations (update_contract i f d) = operations d"
  "items (update_contract i f d) = items d"
  "tags (update_contract i f d) = tags d"
  "users (update_contract i f d) = users d"
  "providers (update_contract i f d) = providers d"
  "queue (update_contract i f d) = queue d"
  "webhooks (update_contract i f d) = webhooks d"
  "nextId (update_contract i f d) = nextId d"
  "contracts (update_contract i f d) = update_where (\<lambda>c. ct_id c = i) f (contracts d)"
  by (simp_all add: update_contract_def)

lemma update_charge_frame [row_simps, simp]:
  "contracts (update_charge i f d) = contracts d"
  "settlements (update_charge i f d) = settlements d"
  "events (update_charge i f d) = events d"
  "gateways (update_charge i f d) = gateways d"
  "wallets (update_charge i f d) = wallets d"
  "creditors (update_charge i f d) = creditors d"
  "interactions (update_charge i f d) = interactions d"
  "operations (update_charge i f d) = operations d"
  "items (update_charge i f d) = items d"
  "tags (update_charge i f d) = tags d"
  "users (update_charge i f d) = users d"
  "providers (update_charge i f d) = providers d"
  "queue (update_charge i f d) = queue d"
  "webhooks (update_charge i f d) = webhooks d"
  "nextId (update_charge i f d) = nextId d"
  "charges (update_charge i f d) = update_where (\<lambda>c. ch_id c = i) f (charges d)"
  by (simp_all add: update_charge_def)

section \<open>Well-formed databases\<close>

text \<open>
  The uniqueness the schema promises on the payment tables, and the freshness of the counter.
\<close>

definition unique_keys :: "database \<Rightarrow> bool" where
  "unique_keys d \<longleftrightarrow>
     distinct (map charge_key (charges d)) \<and> distinct (map settlement_key (settlements d))"

definition fresh_ids :: "(nat \<Rightarrow> string) \<Rightarrow> database \<Rightarrow> bool" where
  "fresh_ids gen d \<longleftrightarrow>
     distinct (map ch_id (charges d)) \<and> set (map ch_id (charges d)) \<subseteq> gen ` {..<nextId d}"

definition payments_ok :: "(nat \<Rightarrow> string) \<Rightarrow> database \<Rightarrow> bool" where
  "payments_ok gen d \<longleftrightarrow> unique_keys d \<and> fresh_ids gen d"

definition confirmed_total :: "string \<Rightarrow> payment_settlement list \<Rightarrow> rat" where
  "confirmed_total i ss =
     sum_list (map st_amount (filter (\<lambda>s. st_contractId s = i \<and> st_status s = ST_CONFIRMED) ss))"

lemma confirmed_total_Nil [simp]: "confirmed_total i [] = 0"
  by (simp add: confirmed_total_def)

lemma confirmed_total_append [simp]:
  "confirmed_total i (xs @ ys) = confirmed_total i xs + confirmed_total i ys"
  by (simp add: confirmed_total_def)

lemma confirmed_total_Cons [simp]:
  "confirmed_total i (s # ss) =
     (if st_contractId s = i \<and> st_status s = ST_CONFIRMED then st_amount s else 0)
       + confirmed_total i ss"
  by (simp add: confirmed_total_def)

lemma create_charge_unique_keys:
  "create_charge gen c d = Some (c', d') \<Longrightarrow> unique_keys d \<Longrightarrow> unique_keys d'"
  using charge_table.insert_unique [of gen c d c' d']
  by (auto simp: unique_keys_def create_charge_frame)

lemma create_settlement_unique_keys:
  "create_settlement gen s d = Some (s', d') \<Longrightarrow> unique_keys d \<Longrightarrow> unique_keys d'"
  using settlement_table.insert_unique [of gen s d s' d']
  by (auto simp: unique_keys_def create_settlement_frame)

lemma create_charge_fresh_ids:
  assumes "inj gen" and "create_charge gen c d = Some (c', d')" and "fresh_ids gen d"
  shows "fresh_ids gen d'"
proof -
  have c': "ch_id c' = gen (nextId d)"
    using create_charge_frame(9) [OF assms(2)] by (simp add: new_charge_row_def)
  have "gen (nextId d) \<notin> gen ` {..<nextId d}"
    using assms(1) by (auto dest: injD)
  then have "gen (nextId d) \<notin> set (map ch_id (charges d))"
    using assms(3) unfolding fresh_ids_def by blast
  with c' assms(3) create_charge_frame [OF assms(2)] show ?thesis
    by (auto simp: fresh_ids_def lessThan_Suc)
qed

lemma fresh_ids_mono:
  assumes "fresh_ids gen d" and "charges d' = charges d" and "nextId d \<le> nextId d'"
  shows "fresh_ids gen d'"
proof -
  have "gen ` {..<nextId d} \<subseteq> gen ` {..<nextId d'}"
    using assms(3) by (intro image_mono) auto
  with assms(1) have "set (map ch_id (charges d)) \<subseteq> gen ` {..<nextId d'}"
    unfolding fresh_ids_def by (blast intro: order_trans)
  then show ?thesis
    using assms(1) unfolding fresh_ids_def assms(2) by simp
qed

lemma payments_ok_frame:
  assumes "payments_ok gen d" and "charges d' = charges d" and "settlements d' = settlements d"
    and "nextId d \<le> nextId d'"
  shows "payments_ok gen d'"
  using assms fresh_ids_mono [of gen d d'] unfolding payments_ok_def unique_keys_def by simp

lemma payments_ok_create_charge:
  assumes "payments_ok gen d" and "inj gen" and "create_charge gen c d = Some (c', d')"
  shows "payments_ok gen d'"
  using assms create_charge_unique_keys [OF assms(3)] create_charge_fresh_ids [OF assms(2,3)]
  unfolding payments_ok_def by blast

lemma payments_ok_create_settlement:
  assumes "payments_ok gen d" and "create_settlement gen s d = Some (s', d')"
  shows "payments_ok gen d'"
  using assms(1) create_settlement_unique_keys [OF assms(2)] fresh_ids_mono [of gen d d']
    create_settlement_frame(2,10) [OF assms(2)]
  unfolding payments_ok_def by simp

lemma payments_ok_update_charge:
  assumes "payments_ok gen d" and "\<And>c. charge_key (f c) = charge_key c" and "\<And>c. ch_id (f c) = ch_id c"
  shows "payments_ok gen (update_charge i f d)"
proof -
  have "map charge_key (update_where P f xs) = map charge_key xs"
    "map ch_id (update_where P f xs) = map ch_id xs" for P xs
    using assms(2,3) by (simp_all add: map_update_where)
  then show ?thesis
    using assms(1) unfolding payments_ok_def unique_keys_def fresh_ids_def update_charge_frame
    by (simp only:)
qed

section \<open>Steps outside the payment tables\<close>

definition pay_frame :: "database \<Rightarrow> database \<Rightarrow> bool" where
  \<comment> \<open>the payment tables and the registers of the account stay as they are\<close>
  "pay_frame d d' \<longleftrightarrow>
     charges d' = charges d \<and> settlements d' = settlements d \<and> events d' = events d \<and>
     gateways d' = gateways d \<and> wallets d' = wallets d \<and> creditors d' = creditors d \<and>
     users d' = users d \<and> providers d' = providers d \<and> nextId d \<le> nextId d'"

lemma pay_frame_refl [simp, intro]: "pay_frame d d"
  by (simp add: pay_frame_def)

lemma pay_frame_trans [trans]: "pay_frame d d1 \<Longrightarrow> pay_frame d1 d2 \<Longrightarrow> pay_frame d d2"
  by (simp add: pay_frame_def)

lemma pay_frame_rows [simp]:
  "pay_frame d (update_contract i f d1) = pay_frame d d1"
  "pay_frame d (d1\<lparr>contracts := cs\<rparr>) = pay_frame d d1"
  "pay_frame d (d1\<lparr>items := its\<rparr>) = pay_frame d d1"
  "pay_frame d (d1\<lparr>operations := ops\<rparr>) = pay_frame d d1"
  "pay_frame d (d1\<lparr>queue := q\<rparr>) = pay_frame d d1"
  "pay_frame d (d1\<lparr>webhooks := ws\<rparr>) = pay_frame d d1"
  by (simp_all add: pay_frame_def)

lemma pay_frame_interaction: "pay_frame d d1 \<Longrightarrow> pay_frame d (create_interaction gen i d1)"
  by (simp add: pay_frame_def)

lemma pay_frame_ok: "pay_frame d d' \<Longrightarrow> payments_ok gen d \<Longrightarrow> payments_ok gen d'"
  by (auto simp: pay_frame_def intro: payments_ok_frame)

end
