(* ===== verification/Provider.thy ===== *)
theory Provider
  imports Store
begin

text \<open>
  Payment providers: the adapter interface and factory (\<open>payments/adapters\<close>), the decryption of a
  gateway's configuration, the Banco do Brasil adapter, its HTTP client with retries, and its
  OAuth token cache.

  An adapter is a record of the functions of \<open>PaymentProviderAdapter\<close>; an exception an adapter
  throws is a value of \<open>adapter_error\<close>. The Banco do Brasil adapter is written over the result
  of its HTTP client, and the client over a transport \<open>send\<close> (axios) and a source of random
  numbers, which are parameters. The amounts the code passes as decimal strings are rationals, and
  \<open>to_fixed2\<close> is the formatting the provider receives.
\<close>

section \<open>The adapter interface\<close>

record capability =
  cap_method :: payment_method
  cap_supported :: bool
  cap_features :: "string list"

record missing_field =
  mf_field :: string
  mf_reason :: string

record address =
  ad_street :: string
  ad_number :: string
  ad_complement :: "string option"
  ad_neighborhood :: string
  ad_city :: string
  ad_state :: string
  ad_zipCode :: string

record issue_input =
  in_contractId :: string
  in_method :: payment_method
  in_amount :: rat
  in_dueDate :: int
  in_idempotencyKey :: string
  in_txid :: "string option"
  in_expiresAt :: "int option"
  in_creditorName :: string
  in_creditorCnpj :: "string option"
  in_debtorName :: string
  in_debtorDocument :: string
  in_debtorEmail :: "string option"
  in_debtorPhone :: "string option"
  in_debtorAddress :: "address option"

record gateway_config =
  cfg_clientId :: "string option"
  cfg_clientSecret :: "string option"
  cfg_developerKey :: "string option"
  cfg_certificateBase64 :: "string option"
  cfg_certificatePassword :: "string option"
  cfg_pixKey :: "string option"
  cfg_environment :: gateway_environment
  cfg_timeoutMs :: int
  cfg_maxRetries :: nat

record issued_charge =
  is_externalId :: "string option"
  is_externalStatus :: "string option"
  is_ourNumber :: "string option"
  is_txid :: "string option"
  is_digitableLine :: "string option"
  is_barcode :: "string option"
  is_pixCopyPaste :: "string option"
  is_qrCodeUrl :: "string option"
  is_documentUrl :: "string option"
  is_issuedAt :: "int option"
  is_expiresAt :: "int option"
  is_providerPayload :: json

record charge_update =
  up_status :: charge_status
  up_externalStatus :: "string option"
  up_paidAt :: "int option"
  up_failureCode :: "string option"
  up_failureMessage :: "string option"
  up_providerPayload :: json

text \<open>\<open>BbTimeoutError\<close>, \<open>BbRateLimitedError\<close>, \<open>BbProviderError\<close>, and any other exception.\<close>

datatype adapter_error =
    BbTimeoutError
  | BbRateLimitedError
  | BbProviderError string string
  | OtherError string

record adapter =
  pa_type :: provider_type
  pa_capabilities :: "capability list"
  pa_validate :: "issue_input \<Rightarrow> missing_field list"
  pa_issue :: "int \<Rightarrow> issue_input \<Rightarrow> gateway_config \<Rightarrow> adapter_error + issued_charge"
  pa_fetchStatus :: "(payment_charge \<Rightarrow> gateway_config \<Rightarrow> adapter_error + charge_update) option"

section \<open>The provider factory\<close>

definition factory_get :: "adapter list \<Rightarrow> provider_type \<Rightarrow> http_error + adapter" where
  \<comment> \<open>the constructor builds a \<open>Map\<close>, in which the last adapter of a type wins\<close>
  "factory_get ads t =
     (case List.find (\<lambda>a. pa_type a = t) (rev ads) of
        None \<Rightarrow> Inl (NotFound ''No payment adapter registered for provider type'')
      | Some a \<Rightarrow> Inr a)"

definition has_method :: "adapter \<Rightarrow> payment_method \<Rightarrow> bool" where
  "has_method a m \<longleftrightarrow>
     list_ex (\<lambda>c. cap_method c = m \<and> cap_supported c) (pa_capabilities a)"

definition supportsMethod :: "adapter list \<Rightarrow> provider_type \<Rightarrow> payment_method \<Rightarrow> bool" where
  "supportsMethod ads t m \<longleftrightarrow>
     (case factory_get ads t of Inl _ \<Rightarrow> False | Inr a \<Rightarrow> has_method a m)"

definition getAndValidateMethod ::
  "adapter list \<Rightarrow> provider_type \<Rightarrow> payment_method \<Rightarrow> http_error + adapter" where
  "getAndValidateMethod ads t m =
     (case factory_get ads t of
        Inl e \<Rightarrow> Inl e
      | Inr a \<Rightarrow>
          if has_method a m then Inr a
          else Inl (Unprocessable ''Payment method is not supported by provider''))"

lemma getAndValidateMethod_InrD:
  "getAndValidateMethod ads t m = Inr a \<Longrightarrow>
     factory_get ads t = Inr a \<and> has_method a m \<and> supportsMethod ads t m"
  by (auto simp: getAndValidateMethod_def supportsMethod_def split: sum.splits if_splits)

lemma supportsMethod_iff: "supportsMethod ads t m \<longleftrightarrow> (\<exists>a. getAndValidateMethod ads t m = Inr a)"
  by (auto simp: getAndValidateMethod_def supportsMethod_def split: sum.splits if_splits)

lemma factory_get_type: "factory_get ads t = Inr a \<Longrightarrow> a \<in> set ads \<and> pa_type a = t"
  by (auto simp: factory_get_def split: option.splits dest: find_SomeD)

section \<open>Gateway configuration\<close>

definition json_string :: "json option \<Rightarrow> string option" where
  "json_string x = (case x of Some (JStr s) \<Rightarrow> Some s | _ \<Rightarrow> None)"

definition decryptCredentials ::
  "(string \<Rightarrow> string option) \<Rightarrow> (string \<Rightarrow> json option) \<Rightarrow> payment_gateway \<Rightarrow> http_error + gateway_config"
where
  \<comment> \<open>the decryption and \<open>JSON.parse\<close> are parameters; \<open>None\<close> is the exception they throw\<close>
  "decryptCredentials decr parse g =
     (case decr (gw_encryptedCredentials g) of
        None \<Rightarrow> Inl (Internal ''decrypt'')
      | Some txt \<Rightarrow>
     (case parse txt of
        None \<Rightarrow> Inl (Internal ''JSON.parse'')
      | Some creds \<Rightarrow>
     (let cfg = (\<lambda>k. \<lparr>cfg_clientId = json_string (jget ''clientId'' creds),
                   cfg_clientSecret = json_string (jget ''clientSecret'' creds),
                   cfg_developerKey = json_string (jget ''developerKey'' creds),
                   cfg_certificateBase64 = json_string (jget ''certificateBase64'' creds),
                   cfg_certificatePassword = json_string (jget ''certificatePassword'' creds),
                   cfg_pixKey = k,
                   cfg_environment = gw_environment g,
                   cfg_timeoutMs = gw_timeoutMs g,
                   cfg_maxRetries = gw_maxRetries g\<rparr>)
      in case gw_pixKey g of
           None \<Rightarrow> Inr (cfg None)
         | Some enc \<Rightarrow>
             if enc = '''' then Inr (cfg None)
             else (case decr enc of
                     None \<Rightarrow> Inl (Internal ''decrypt'')
                   | Some k \<Rightarrow> Inr (cfg (Some k))))))"

lemma decryptCredentials_InrD:
  "decryptCredentials decr parse g = Inr cfg \<Longrightarrow>
     cfg_environment cfg = gw_environment g \<and> cfg_timeoutMs cfg = gw_timeoutMs g \<and>
     cfg_maxRetries cfg = gw_maxRetries g"
  by (auto simp: decryptCredentials_def Let_def split: option.splits if_splits)

section \<open>The HTTP client\<close>

text \<open>
  What one call of \<open>executeRequest\<close> can do: answer, or throw. An axios error carries its code and,
  when the server answered, the status, the \<open>retry-after\<close> header in seconds and the body.
\<close>

record bb_request =
  rq_method :: string
  rq_url :: string
  rq_data :: "json option"

datatype transport =
    Answer nat json
  | AxiosError "string option" "(nat \<times> rat option \<times> json) option"
  | NonAxiosError string

datatype http_result =
    SUCCESS json nat
  | TIMEOUT
  | RATE_LIMITED nat
  | PROVIDER_ERROR nat "json option"

definition isTimeoutError :: "transport \<Rightarrow> bool" where
  "isTimeoutError t \<longleftrightarrow>
     (case t of
        AxiosError c _ \<Rightarrow> c \<in> {Some ''ECONNABORTED'', Some ''ETIMEDOUT'', Some ''ERR_CANCELED''}
      | _ \<Rightarrow> False)"

definition isRateLimitError :: "transport \<Rightarrow> bool" where
  "isRateLimitError t \<longleftrightarrow> (case t of AxiosError _ (Some (s, _)) \<Rightarrow> s = 429 | _ \<Rightarrow> False)"

definition getRetryAfterHeader :: "transport \<Rightarrow> rat option" where
  "getRetryAfterHeader t =
     (case t of
        AxiosError _ (Some (_, Some secs, _)) \<Rightarrow> if secs \<le> 0 then None else Some (secs * 1000)
      | _ \<Rightarrow> None)"

definition calculateDelay :: "rat \<Rightarrow> nat \<Rightarrow> rat option \<Rightarrow> rat" where
  \<comment> \<open>\<open>rnd\<close> is \<open>Math.random()\<close>; the constants are 1000 ms, factor 2 and 25 percent\<close>
  "calculateDelay rnd attempt retryAfter =
     (let expo = 1000 * 2 ^ (attempt - 1);
          jitterRange = expo * (1/4);
          jitter = (rnd * 2 - 1) * jitterRange;
          d = of_int (js_round (expo + jitter));
          d' = (case retryAfter of None \<Rightarrow> d | Some r \<Rightarrow> if d < r then r else d)
      in max d' 0)"

text \<open>
  The loop of \<open>request\<close>. It returns the outcome and the delays it slept; \<open>send n\<close> is the
  transport's behaviour on attempt \<open>n\<close>, \<open>rnd n\<close> the random number drawn after it. Every turn that
  continues has \<open>attempt \<le> maxRetries\<close>, which is the termination measure.
\<close>

function request_loop ::
  "(nat \<Rightarrow> transport) \<Rightarrow> (nat \<Rightarrow> rat) \<Rightarrow> nat \<Rightarrow> nat \<Rightarrow> rat list \<Rightarrow> http_result \<times> rat list" where
  "request_loop send rnd maxRetries attempt slept =
     (case send attempt of
        Answer s body \<Rightarrow> (SUCCESS body s, slept)
      | err \<Rightarrow>
          if isTimeoutError err then (TIMEOUT, slept)
          else if isRateLimitError err then
            (if attempt > maxRetries then (RATE_LIMITED 429, slept)
             else request_loop send rnd maxRetries (Suc attempt)
                    (slept @ [calculateDelay (rnd attempt) attempt (getRetryAfterHeader err)]))
          else
            (case err of
               AxiosError _ (Some (s, _, body)) \<Rightarrow> (PROVIDER_ERROR s (Some body), slept)
             | _ \<Rightarrow> (PROVIDER_ERROR 0 None, slept)))"
  by pat_completeness auto
termination
  by (relation "measure (\<lambda>(_, _, m, a, _). Suc m - a)") (auto split: transport.splits)

definition request ::
  "(nat \<Rightarrow> transport) \<Rightarrow> (nat \<Rightarrow> rat) \<Rightarrow> nat \<Rightarrow> http_result \<times> rat list" where
  "request send rnd maxRetries = request_loop send rnd maxRetries 1 []"

declare request_loop.simps [simp del]

text \<open>
  The specification of the loop: the outcome of the first of the \<open>maxRetries + 1\<close> attempts that is
  not an HTTP 429, and \<open>RATE_LIMITED\<close> when all of them are.
\<close>

definition retryable :: "transport \<Rightarrow> bool" where
  "retryable t \<longleftrightarrow> isRateLimitError t \<and> \<not> isTimeoutError t"

definition final_outcome :: "transport \<Rightarrow> http_result" where
  "final_outcome t =
     (case t of
        Answer s body \<Rightarrow> SUCCESS body s
      | err \<Rightarrow>
          if isTimeoutError err then TIMEOUT
          else (case err of
                  AxiosError _ (Some (s, _, body)) \<Rightarrow> PROVIDER_ERROR s (Some body)
                | _ \<Rightarrow> PROVIDER_ERROR 0 None))"

lemma retryable_Answer [simp]: "\<not> retryable (Answer s b)"
  by (simp add: retryable_def isRateLimitError_def)

lemma request_loop_final:
  "\<not> retryable (send a) \<Longrightarrow> request_loop send rnd m a slept = (final_outcome (send a), slept)"
  by (subst request_loop.simps)
    (auto simp: retryable_def final_outcome_def isRateLimitError_def
      split: transport.splits option.splits)

lemma request_loop_retry:
  "retryable (send a) \<Longrightarrow> request_loop send rnd m a slept =
     (if a > m then (RATE_LIMITED 429, slept)
      else request_loop send rnd m (Suc a)
             (slept @ [calculateDelay (rnd a) a (getRetryAfterHeader (send a))]))"
  by (subst request_loop.simps)
    (auto simp: retryable_def isRateLimitError_def split: transport.splits)

lemma request_loop_outcome:
  "a \<le> Suc m \<Longrightarrow> fst (request_loop send rnd m a slept) =
     (case List.find (\<lambda>n. \<not> retryable (send n)) [a..<m + 2] of
        None \<Rightarrow> RATE_LIMITED 429
      | Some n \<Rightarrow> final_outcome (send n))"
proof (induction "Suc m - a" arbitrary: a slept)
  case 0
  then have "a = Suc m" by simp
  then show ?case
    by (cases "retryable (send a)") (simp_all add: request_loop_retry request_loop_final)
next
  case (Suc k)
  then have a: "a \<le> m" by simp
  then have "[a..<m + 2] = a # [Suc a..<m + 2]"
    by (simp add: upt_conv_Cons)
  moreover have "k = Suc m - Suc a" using Suc.hyps(2) by simp
  ultimately show ?case
    using a Suc.hyps(1) [of "Suc a"]
    by (cases "retryable (send a)") (simp_all add: request_loop_retry request_loop_final)
qed

lemma request_loop_slept:
  "a \<le> Suc m \<Longrightarrow> \<exists>k. k \<le> Suc m - a \<and>
     snd (request_loop send rnd m a slept) =
       slept @ map (\<lambda>n. calculateDelay (rnd n) n (getRetryAfterHeader (send n))) [a..<a + k] \<and>
     (\<forall>n \<in> {a..<a + k}. retryable (send n))"
proof (induction "Suc m - a" arbitrary: a slept)
  case 0
  then have "a = Suc m" by simp
  then show ?case
    by (cases "retryable (send a)") (simp_all add: request_loop_retry request_loop_final)
next
  case (Suc k)
  then have a: "a \<le> m" by simp
  show ?case
  proof (cases "retryable (send a)")
    case False
    then show ?thesis by (intro exI [of _ 0]) (simp add: request_loop_final)
  next
    case True
    let ?s = "slept @ [calculateDelay (rnd a) a (getRetryAfterHeader (send a))]"
    have "k = Suc m - Suc a" "Suc a \<le> Suc m" using Suc.hyps(2) a by simp_all
    then obtain j where j: "j \<le> Suc m - Suc a"
      "snd (request_loop send rnd m (Suc a) ?s) =
         ?s @ map (\<lambda>n. calculateDelay (rnd n) n (getRetryAfterHeader (send n))) [Suc a..<Suc a + j]"
      "\<forall>n \<in> {Suc a..<Suc a + j}. retryable (send n)"
      using Suc.hyps(1) [of "Suc a" ?s] by blast
    have "[a..<a + Suc j] = a # [Suc a..<Suc a + j]"
      by (simp add: upt_conv_Cons)
    moreover have "\<forall>n \<in> {a..<a + Suc j}. retryable (send n)"
    proof
      fix n assume "n \<in> {a..<a + Suc j}"
      then show "retryable (send n)"
        using True j(3) by (cases "n = a") auto
    qed
    ultimately show ?thesis
      using j True a by (intro exI [of _ "Suc j"]) (simp add: request_loop_retry)
  qed
qed

lemma calculateDelay_nonneg: "0 \<le> calculateDelay rnd a r"
  by (simp add: calculateDelay_def Let_def)

lemma le_max_if: "(r :: rat) \<le> max (if d < r then r else d) 0"
  by auto

lemma calculateDelay_ge_retryAfter: "r \<le> calculateDelay rnd a (Some r)"
  unfolding calculateDelay_def Let_def option.case by (rule le_max_if)

lemma calculateDelay_None:
  "calculateDelay rnd a None =
     max (of_int (js_round (1000 * 2 ^ (a - 1) + (rnd * 2 - 1) * (1000 * 2 ^ (a - 1) * (1/4))))) 0"
  by (simp only: calculateDelay_def Let_def option.case)

lemma calculateDelay_jitter:
  assumes "0 \<le> rnd" and "rnd \<le> 1"
  shows "750 * 2 ^ (a - 1) \<le> calculateDelay rnd a None"
    and "calculateDelay rnd a None \<le> 1250 * 2 ^ (a - 1)"
proof -
  define p where "p = (2 ^ (a - 1) :: int)"
  define x where "x = 1000 * 2 ^ (a - 1) + (rnd * 2 - 1) * (1000 * 2 ^ (a - 1) * (1/4))"
  have p: "(2 ^ (a - 1) :: rat) = of_int p" "0 \<le> p"
    by (simp_all add: p_def)
  have x: "x = of_int p * (750 + 500 * rnd)"
    by (simp add: x_def p(1) [unfolded One_nat_def] algebra_simps)
  have "of_int (750 * p) \<le> x" "x \<le> of_int (1250 * p)"
    unfolding x using assms p(2)
    by (simp_all add: algebra_simps mult_left_mono)
      (metis mult.commute mult_right_mono of_int_0_le_iff mult_1_right mult_left_mono)
  then have k: "750 * p \<le> js_round x" "js_round x \<le> 1250 * p"
    using js_round_mono [of "of_int (750 * p)" x] js_round_mono [of x "of_int (1250 * p)"]
    by (simp_all only: js_round_of_int)
  have "(of_int (750 * p) :: rat) \<le> of_int (js_round x)" "of_int (js_round x) \<le> (of_int (1250 * p) :: rat)"
    using k by (simp_all only: of_int_le_iff)
  moreover have "(of_int (750 * p) :: rat) = 750 * 2 ^ (a - 1)" "(of_int (1250 * p) :: rat) = 1250 * 2 ^ (a - 1)"
    by (simp_all add: p_def)
  moreover have "0 \<le> (750 * 2 ^ (a - 1) :: rat)" by simp
  moreover have "calculateDelay rnd a None = max (of_int (js_round x)) 0"
    by (simp only: calculateDelay_None x_def)
  ultimately show "750 * 2 ^ (a - 1) \<le> calculateDelay rnd a None"
    and "calculateDelay rnd a None \<le> 1250 * 2 ^ (a - 1)"
    by linarith+
qed

text \<open>
  C11. The retry loop of the HTTP client returns the outcome of the first of its \<open>maxRetries + 1\<close>
  attempts that is not an HTTP 429, and \<open>RATE_LIMITED\<close> exactly when there is none; it sleeps only
  after rate limited attempts, never more than \<open>maxRetries\<close> times, never for a negative time and
  never less than the server's \<open>retry-after\<close>.
\<close>

theorem request_spec:
  "fst (request send rnd m) =
     (case List.find (\<lambda>n. \<not> retryable (send n)) [1..<m + 2] of
        None \<Rightarrow> RATE_LIMITED 429
      | Some n \<Rightarrow> final_outcome (send n)) \<and>
   (\<exists>k \<le> m. snd (request send rnd m) =
       map (\<lambda>n. calculateDelay (rnd n) n (getRetryAfterHeader (send n))) [1..<Suc k] \<and>
     list_all (\<lambda>n. retryable (send n)) [1..<Suc k] \<and>
     list_all (\<lambda>n. or_else (getRetryAfterHeader (send n)) 0 \<le>
        calculateDelay (rnd n) n (getRetryAfterHeader (send n))) [1..<Suc k])"
proof (rule conjI)
  show "fst (request send rnd m) =
     (case List.find (\<lambda>n. \<not> retryable (send n)) [1..<m + 2] of
        None \<Rightarrow> RATE_LIMITED 429 | Some n \<Rightarrow> final_outcome (send n))"
    using request_loop_outcome [of 1 m send rnd "[]"] by (simp add: request_def)
  have floor: "or_else r 0 \<le> calculateDelay x n r" for r x n
    by (cases r) (simp_all add: calculateDelay_nonneg calculateDelay_ge_retryAfter)
  obtain k where "k \<le> m" "snd (request send rnd m) =
      map (\<lambda>n. calculateDelay (rnd n) n (getRetryAfterHeader (send n))) [1..<Suc k]"
    "\<forall>n \<in> {1..<Suc k}. retryable (send n)"
    using request_loop_slept [of 1 m send rnd "[]"] by (auto simp: request_def)
  then show "\<exists>k \<le> m. snd (request send rnd m) =
       map (\<lambda>n. calculateDelay (rnd n) n (getRetryAfterHeader (send n))) [1..<Suc k] \<and>
     list_all (\<lambda>n. retryable (send n)) [1..<Suc k] \<and>
     list_all (\<lambda>n. or_else (getRetryAfterHeader (send n)) 0 \<le>
        calculateDelay (rnd n) n (getRetryAfterHeader (send n))) [1..<Suc k]"
    by (intro exI [of _ k]) (simp add: list_all_iff floor del: upt_Suc)
qed

end
