(* ===== verification/BancoDoBrasil.thy ===== *)
theory BancoDoBrasil
  imports Provider
begin

text \<open>
  The Banco do Brasil adapter (\<open>banco-do-brasil-payment.adapter.ts\<close>) over the outcome of its HTTP
  client, and the OAuth token cache of \<open>bb-auth.service.ts\<close>. Strings are Latin-1, so the accented
  letter of the provider's message is the character 227. The interface a charge service may rely
  on is the locale \<open>status_source\<close>.
\<close>

section \<open>Capabilities and validation\<close>

definition bb_getCapabilities :: "capability list" where
  "bb_getCapabilities =
     [\<lparr>cap_method = PIX, cap_supported = True, cap_features = [''qrCode'', ''copyPaste'']\<rparr>,
      \<lparr>cap_method = BOLETO, cap_supported = True, cap_features = []\<rparr>,
      \<lparr>cap_method = BOLEPIX, cap_supported = True, cap_features = [''qrCode'', ''copyPaste'']\<rparr>]"

definition mf :: "string \<Rightarrow> string \<Rightarrow> missing_field" where
  "mf f r = \<lparr>mf_field = f, mf_reason = r\<rparr>"

definition isValidDocument :: "string \<Rightarrow> bool" where
  "isValidDocument s \<longleftrightarrow> length (digits_only s) = 11 \<or> length (digits_only s) = 14"

definition validatePixFields :: "issue_input \<Rightarrow> missing_field list" where
  "validatePixFields i =
     (if in_debtorName i = '''' then [mf ''debtor.name'' ''required''] else [])
     @ (if in_debtorDocument i = '''' then [mf ''debtor.document'' ''required'']
        else if \<not> isValidDocument (in_debtorDocument i) then [mf ''debtor.document'' ''invalid_format'']
        else [])
     @ (if in_amount i \<le> 0 then [mf ''amount'' ''required''] else [])"

definition validateAddressFields :: "issue_input \<Rightarrow> missing_field list" where
  "validateAddressFields i =
     (case in_debtorAddress i of
        None \<Rightarrow> [mf ''debtor.address'' ''required'']
      | Some a \<Rightarrow>
          (if ad_street a = '''' then [mf ''debtor.address.street'' ''required''] else [])
          @ (if ad_number a = '''' then [mf ''debtor.address.number'' ''required''] else [])
          @ (if ad_neighborhood a = '''' then [mf ''debtor.address.neighborhood'' ''required''] else [])
          @ (if ad_city a = '''' then [mf ''debtor.address.city'' ''required''] else [])
          @ (if ad_state a = '''' then [mf ''debtor.address.state'' ''required''] else [])
          @ (if ad_zipCode a = '''' then [mf ''debtor.address.zipCode'' ''required''] else []))"

definition validateBoletoFields :: "issue_input \<Rightarrow> missing_field list" where
  "validateBoletoFields i = validatePixFields i @ validateAddressFields i"

definition validateIssueInput :: "issue_input \<Rightarrow> missing_field list" where
  "validateIssueInput i =
     (case in_method i of
        PIX \<Rightarrow> validatePixFields i
      | BOLETO \<Rightarrow> validateBoletoFields i
      | BOLEPIX \<Rightarrow> validatePixFields i @ validateAddressFields i)"

section \<open>Building the request\<close>

definition pix_api_base_url :: "gateway_environment \<Rightarrow> string" where
  "pix_api_base_url e =
     (case e of
        SANDBOX \<Rightarrow> ''https://api-pix.hm.bb.com.br/pix/v2''
      | PRODUCTION \<Rightarrow> ''https://api-pix.bb.com.br/pix/v2'')"

definition template_string :: "string \<Rightarrow> string option \<Rightarrow> string" where
  \<comment> \<open>interpolation of a value that may be \<open>undefined\<close> or \<open>null\<close>\<close>
  "template_string absent x = (case x of None \<Rightarrow> absent | Some s \<Rightarrow> s)"

definition calculateExpirationSeconds :: "int \<Rightarrow> int option \<Rightarrow> int" where
  "calculateExpirationSeconds now expiresAt =
     (case expiresAt of
        None \<Rightarrow> 86400
      | Some t \<Rightarrow> let s = - ((- (t - now)) div 1000) in if s > 0 then s else 86400)"

definition buildSolicitacaoPagador :: "issue_input \<Rightarrow> string" where
  \<comment> \<open>the accented letters of the two literals are written without accent\<close>
  "buildSolicitacaoPagador i =
     (let name = (if trim (in_creditorName i) = '''' then ''Nao informado'' else trim (in_creditorName i));
          cnpj = or_else (map_option digits_only (in_creditorCnpj i)) '''';
          message = (if cnpj \<noteq> '''' then ''Divida. Credor: '' @ name @ ''. CNPJ: '' @ cnpj
                     else ''Divida. Credor: '' @ name)
      in take 140 message)"

definition buildCobPayload :: "issue_input \<Rightarrow> gateway_config \<Rightarrow> int \<Rightarrow> json" where
  "buildCobPayload i cfg expirationSeconds =
     (let doc = digits_only (in_debtorDocument i);
          name = trim (in_debtorName i)
      in JObj
          ([(''calendario'', JObj [(''expiracao'', JNum (of_int expirationSeconds))]),
            (''valor'', JObj [(''original'', JStr (to_fixed2 (in_amount i)))]),
            (''chave'', jopt JStr (cfg_pixKey cfg)),
            (''solicitacaoPagador'', JStr (buildSolicitacaoPagador i))]
           @ (if name \<noteq> '''' then
                [(''devedor'', JObj [(''nome'', JStr name),
                    (if length doc = 14 then ''cnpj'' else ''cpf'', JStr doc)])]
              else [])))"

definition issue_request :: "int \<Rightarrow> issue_input \<Rightarrow> gateway_config \<Rightarrow> bb_request" where
  "issue_request now i cfg =
     \<lparr>rq_method = ''PUT'',
      rq_url = pix_api_base_url (cfg_environment cfg) @ ''/cob/''
                 @ template_string ''undefined'' (in_txid i),
      rq_data = Some (buildCobPayload i cfg (calculateExpirationSeconds now (in_expiresAt i)))\<rparr>"

section \<open>Reading the response\<close>

definition sanitizeErrorMessage :: "json option \<Rightarrow> string" where
  "sanitizeErrorMessage body =
     (case body of
        Some (JObj kvs) \<Rightarrow>
          (case json_string (map_of kvs ''title'') of
             Some t \<Rightarrow> t
           | None \<Rightarrow>
             (case json_string (map_of kvs ''detail'') of
                Some t \<Rightarrow> take 200 t
              | None \<Rightarrow> ''Provider returned an error''))
      | _ \<Rightarrow> ''Provider returned an error'')"

definition key_missing_phrase :: "string \<Rightarrow> bool" where
  "key_missing_phrase s \<longleftrightarrow>
     starts_with ''nao foi localizada'' s \<or>
     starts_with (''n'' @ [CHR 0xE3] @ ''o foi localizada'') s \<or>
     starts_with (''n'' @ [CHR 0xC3] @ ''o foi localizada'') s"

fun same_line_match :: "string \<Rightarrow> bool" where
  \<comment> \<open>the part \<open>.*n[a~a]o foi localizada\<close> of the pattern\<close>
  "same_line_match s =
     (key_missing_phrase s \<or>
      (case s of [] \<Rightarrow> False | c # cs \<Rightarrow> code c \<noteq> 10 \<and> code c \<noteq> 13 \<and> same_line_match cs))"

fun key_not_found_match :: "string \<Rightarrow> bool" where
  "key_not_found_match s =
     ((starts_with ''chave pix'' s \<and> same_line_match (drop 9 s)) \<or>
      (case s of [] \<Rightarrow> False | _ # cs \<Rightarrow> key_not_found_match cs))"

declare same_line_match.simps [simp del] key_not_found_match.simps [simp del]

definition classifyProviderError :: "json option \<Rightarrow> string option" where
  "classifyProviderError body =
     (case body of
        Some (JObj kvs) \<Rightarrow>
          (case json_string (map_of kvs ''detail'') of
             Some t \<Rightarrow> if key_not_found_match (to_lower t) then Some ''PIX_KEY_NOT_FOUND'' else None
           | None \<Rightarrow> None)
      | _ \<Rightarrow> None)"

definition mk_BbProviderError :: "nat \<Rightarrow> string \<Rightarrow> string option \<Rightarrow> adapter_error" where
  "mk_BbProviderError statusCode message failureCode =
     BbProviderError (or_else failureCode (''BB_'' @ show_nat statusCode)) message"

definition mapCobResponse :: "int \<Rightarrow> json \<Rightarrow> issue_input \<Rightarrow> int \<Rightarrow> issued_charge" where
  "mapCobResponse now r i expirationSeconds =
     \<lparr>is_externalId = json_string (jget ''txid'' r),
      is_externalStatus = json_string (jget ''status'' r),
      is_ourNumber = None,
      is_txid = json_string (jget ''txid'' r),
      is_digitableLine = None,
      is_barcode = None,
      is_pixCopyPaste = json_string (jget ''pixCopiaECola'' r),
      is_qrCodeUrl = json_string (jget ''location'' r),
      is_documentUrl = None,
      is_issuedAt = Some now,
      is_expiresAt = Some (or_else (in_expiresAt i) (now + expirationSeconds * 1000)),
      is_providerPayload =
        JObj [(''calendario'', or_else (jget ''calendario'' r) JNull),
              (''status'', or_else (jget ''status'' r) JNull),
              (''location'', or_else (jget ''location'' r) JNull)]\<rparr>"

definition mapBbStatus :: "string option \<Rightarrow> charge_status" where
  "mapBbStatus s =
     (if s = Some ''ATIVA'' then CH_ISSUED
      else if s = Some ''CONCLUIDA'' then CH_PAID
      else if s = Some ''REMOVIDA_PELO_USUARIO_RECEBEDOR'' then CH_CANCELLED
      else CH_ISSUED)"

definition mapCobStatus :: "json \<Rightarrow> charge_update" where
  "mapCobStatus r =
     \<lparr>up_status = mapBbStatus (json_string (jget ''status'' r)),
      up_externalStatus = json_string (jget ''status'' r),
      up_paidAt = None,
      up_failureCode = None,
      up_failureMessage = None,
      up_providerPayload =
        JObj [(''calendario'', or_else (jget ''calendario'' r) JNull),
              (''status'', or_else (jget ''status'' r) JNull)]\<rparr>"

section \<open>Issue and status query\<close>

definition bb_issue ::
  "(bb_request \<Rightarrow> gateway_config \<Rightarrow> http_result) \<Rightarrow> int \<Rightarrow> issue_input \<Rightarrow> gateway_config
     \<Rightarrow> adapter_error + issued_charge" where
  "bb_issue http now i cfg =
     (case http (issue_request now i cfg) cfg of
        SUCCESS body _ \<Rightarrow>
          Inr (mapCobResponse now body i (calculateExpirationSeconds now (in_expiresAt i)))
      | TIMEOUT \<Rightarrow> Inl BbTimeoutError
      | RATE_LIMITED _ \<Rightarrow> Inl BbRateLimitedError
      | PROVIDER_ERROR s body \<Rightarrow>
          Inl (mk_BbProviderError s (sanitizeErrorMessage body) (classifyProviderError body)))"

definition bb_fetchStatus ::
  "(bb_request \<Rightarrow> gateway_config \<Rightarrow> http_result) \<Rightarrow> payment_charge \<Rightarrow> gateway_config
     \<Rightarrow> adapter_error + charge_update" where
  "bb_fetchStatus http ch cfg =
     (case http \<lparr>rq_method = ''GET'',
                 rq_url = pix_api_base_url (cfg_environment cfg) @ ''/cob/''
                            @ template_string ''null'' (ch_txid ch),
                 rq_data = None\<rparr> cfg of
        SUCCESS body _ \<Rightarrow> Inr (mapCobStatus body)
      | TIMEOUT \<Rightarrow> Inl BbTimeoutError
      | RATE_LIMITED _ \<Rightarrow> Inl BbRateLimitedError
      | PROVIDER_ERROR s body \<Rightarrow> Inl (mk_BbProviderError s (sanitizeErrorMessage body) None))"

definition bb_adapter :: "(bb_request \<Rightarrow> gateway_config \<Rightarrow> http_result) \<Rightarrow> adapter" where
  "bb_adapter http =
     \<lparr>pa_type = BANCO_DO_BRASIL,
      pa_capabilities = bb_getCapabilities,
      pa_validate = validateIssueInput,
      pa_issue = bb_issue http,
      pa_fetchStatus = Some (bb_fetchStatus http)\<rparr>"

section \<open>What a status query may answer\<close>

text \<open>
  The contract the synchronisation and the lifecycle job rely on: a status query answers with a
  status the provider can confirm, never with one only the service assigns. The Banco do Brasil
  adapter provides it for every behaviour of its HTTP client.
\<close>

locale status_source =
  fixes fetch :: "payment_charge \<Rightarrow> gateway_config \<Rightarrow> adapter_error + charge_update"
  assumes fetch_range: "fetch ch cfg = Inr u \<Longrightarrow> up_status u \<in> {CH_ISSUED, CH_PAID, CH_CANCELLED}"
begin

lemma never_failed: "fetch ch cfg = Inr u \<Longrightarrow> up_status u \<noteq> CH_FAILED"
  using fetch_range by fastforce

lemma never_pending: "fetch ch cfg = Inr u \<Longrightarrow> up_status u \<noteq> CH_PENDING \<and> up_status u \<noteq> CH_EXPIRED"
  using fetch_range by fastforce

end

lemma mapBbStatus_range: "mapBbStatus s \<in> {CH_ISSUED, CH_PAID, CH_CANCELLED}"
  by (simp add: mapBbStatus_def)

lemma mapBbStatus_paid: "mapBbStatus s = CH_PAID \<longleftrightarrow> s = Some ''CONCLUIDA''"
  by (simp add: mapBbStatus_def)

lemma bb_fetchStatus_status: "bb_fetchStatus http ch cfg = Inr u \<Longrightarrow> \<exists>s. up_status u = mapBbStatus s"
  by (auto simp: bb_fetchStatus_def mapCobStatus_def split: http_result.splits)

interpretation bb: status_source "bb_fetchStatus http" for http
  by unfold_locales (metis bb_fetchStatus_status mapBbStatus_range)

lemma bb_fetchStatus_paid:
  "bb_fetchStatus http ch cfg = Inr u \<Longrightarrow>
     (up_status u = CH_PAID \<longleftrightarrow> up_externalStatus u = Some ''CONCLUIDA'') \<and> up_paidAt u = None"
  by (auto simp: bb_fetchStatus_def mapCobStatus_def mapBbStatus_paid split: http_result.splits)

lemma bb_issue_Inr:
  "bb_issue http now i cfg = Inr r \<Longrightarrow>
     is_issuedAt r = Some now \<and> is_externalId r = is_txid r \<and>
     (\<forall>t. in_expiresAt i = Some t \<longrightarrow> is_expiresAt r = Some t)"
  by (auto simp: bb_issue_def mapCobResponse_def split: http_result.splits)

lemma calculateExpirationSeconds_pos: "0 < calculateExpirationSeconds now t"
  by (auto simp: calculateExpirationSeconds_def Let_def split: option.splits)

lemma calculateExpirationSeconds_covers:
  assumes "now < t"
  shows "t \<le> now + calculateExpirationSeconds now (Some t) * 1000"
    and "now + calculateExpirationSeconds now (Some t) * 1000 < t + 1000"
proof -
  have "- ((- (t - now)) div 1000) > 0" using assms by linarith
  then have "calculateExpirationSeconds now (Some t) = - ((- (t - now)) div 1000)"
    by (simp add: calculateExpirationSeconds_def Let_def)
  then show "t \<le> now + calculateExpirationSeconds now (Some t) * 1000"
    and "now + calculateExpirationSeconds now (Some t) * 1000 < t + 1000"
    by linarith+
qed

lemma validatePixFields_Nil:
  "validatePixFields i = [] \<longleftrightarrow>
     in_debtorName i \<noteq> '''' \<and> isValidDocument (in_debtorDocument i) \<and> 0 < in_amount i"
  by (auto simp: validatePixFields_def isValidDocument_def digits_only_def)

section \<open>The OAuth token cache\<close>

text \<open>
  The cache of \<open>BancoDoBrasilAuthService\<close>, one step per turn of the event loop: a caller asks for a
  token, a token request is answered, or it fails. \<open>outstanding\<close> lists the requests that were
  sent and not yet answered; it is not in the code, it is what the service promises to keep small.
\<close>

record token_cache =
  tokenCache :: "string \<Rightarrow> (string \<times> int) option"
  inflightRequests :: "string \<Rightarrow> bool"
  outstanding :: "string list"

datatype token_answer = Cached string | Joined | Requested

definition buildCacheKey :: "string \<Rightarrow> gateway_environment \<Rightarrow> string" where
  "buildCacheKey clientId e =
     clientId @ '':'' @ (case e of SANDBOX \<Rightarrow> ''SANDBOX'' | PRODUCTION \<Rightarrow> ''PRODUCTION'')"

definition isTokenExpired :: "int \<Rightarrow> string \<times> int \<Rightarrow> bool" where
  "isTokenExpired now t \<longleftrightarrow> snd t - 60000 \<le> now"

definition getOrRefreshToken :: "string \<Rightarrow> token_cache \<Rightarrow> token_answer \<times> token_cache" where
  "getOrRefreshToken k s =
     (if inflightRequests s k then (Joined, s)
      else (Requested, s\<lparr>inflightRequests := (inflightRequests s)(k := True),
                         outstanding := k # outstanding s\<rparr>))"

definition getAccessToken :: "int \<Rightarrow> string \<Rightarrow> token_cache \<Rightarrow> token_answer \<times> token_cache" where
  "getAccessToken now k s =
     (case tokenCache s k of
        Some t \<Rightarrow> if isTokenExpired now t then getOrRefreshToken k s else (Cached (fst t), s)
      | None \<Rightarrow> getOrRefreshToken k s)"

definition refreshToken :: "string \<Rightarrow> token_cache \<Rightarrow> token_answer \<times> token_cache" where
  "refreshToken k s =
     getOrRefreshToken k (s\<lparr>tokenCache := (tokenCache s)(k := None),
                            inflightRequests := (inflightRequests s)(k := False)\<rparr>)"

definition token_arrived :: "int \<Rightarrow> string \<Rightarrow> string \<Rightarrow> int \<Rightarrow> token_cache \<Rightarrow> token_cache" where
  "token_arrived now k tok expiresIn s =
     s\<lparr>tokenCache := (tokenCache s)(k := Some (tok, now + expiresIn * 1000)),
       inflightRequests := (inflightRequests s)(k := False),
       outstanding := remove1 k (outstanding s)\<rparr>"

definition token_failed :: "string \<Rightarrow> token_cache \<Rightarrow> token_cache" where
  "token_failed k s =
     s\<lparr>inflightRequests := (inflightRequests s)(k := False),
       outstanding := remove1 k (outstanding s)\<rparr>"

inductive cache_step :: "token_cache \<Rightarrow> token_cache \<Rightarrow> bool" where
  ask: "getAccessToken now k s = (a, s') \<Longrightarrow> cache_step s s'"
| arrive: "k \<in> set (outstanding s) \<Longrightarrow> cache_step s (token_arrived now k tok expiresIn s)"
| fail: "k \<in> set (outstanding s) \<Longrightarrow> cache_step s (token_failed k s)"

inductive_cases cache_stepE: "cache_step s s'"

definition empty_cache :: token_cache where
  "empty_cache = \<lparr>tokenCache = (\<lambda>_. None), inflightRequests = (\<lambda>_. False), outstanding = []\<rparr>"

definition coalesced :: "token_cache \<Rightarrow> bool" where
  "coalesced s \<longleftrightarrow> distinct (outstanding s) \<and> (\<forall>k. inflightRequests s k \<longleftrightarrow> k \<in> set (outstanding s))"

lemma coalesced_empty: "coalesced empty_cache"
  by (simp add: coalesced_def empty_cache_def)

lemma coalesced_getOrRefresh: "coalesced s \<Longrightarrow> coalesced (snd (getOrRefreshToken k s))"
  by (simp add: getOrRefreshToken_def coalesced_def)

lemma coalesced_getAccessToken: "coalesced s \<Longrightarrow> coalesced (snd (getAccessToken now k s))"
  by (simp add: getAccessToken_def coalesced_getOrRefresh split: option.split)

lemma coalesced_arrived: "coalesced s \<Longrightarrow> coalesced (token_arrived now k tok x s)"
  by (auto simp: coalesced_def token_arrived_def)

lemma coalesced_failed: "coalesced s \<Longrightarrow> coalesced (token_failed k s)"
  by (auto simp: coalesced_def token_failed_def)

lemma coalesced_step: "cache_step s s' \<Longrightarrow> coalesced s \<Longrightarrow> coalesced s'"
  by (erule cache_stepE)
    (metis coalesced_getAccessToken snd_conv, simp_all only: coalesced_arrived coalesced_failed)

lemma coalesced_steps: "cache_step\<^sup>*\<^sup>* s s' \<Longrightarrow> coalesced s \<Longrightarrow> coalesced s'"
  by (induction rule: rtranclp_induct) (auto intro: coalesced_step)

text \<open>
  The token cache coalesces concurrent requests: in every state reachable from the empty cache by
  callers asking for tokens and requests being answered or failing, no key has two unanswered
  token requests.
\<close>

theorem token_requests_coalesced:
  assumes "cache_step\<^sup>*\<^sup>* empty_cache s"
  shows "distinct (outstanding s)"
  using coalesced_steps [OF assms coalesced_empty] by (simp add: coalesced_def)

lemma token_requests_coalesced_witness:
  "distinct (outstanding (token_failed ''k'' (snd (getAccessToken 0 ''k'' empty_cache))))"
proof (rule token_requests_coalesced)
  have "cache_step empty_cache (snd (getAccessToken 0 ''k'' empty_cache))"
    by (rule cache_step.ask [OF prod.collapse [symmetric]])
  moreover have "''k'' \<in> set (outstanding (snd (getAccessToken 0 ''k'' empty_cache)))"
    by (simp add: getAccessToken_def getOrRefreshToken_def empty_cache_def)
  then have "cache_step (snd (getAccessToken 0 ''k'' empty_cache))
      (token_failed ''k'' (snd (getAccessToken 0 ''k'' empty_cache)))"
    by (rule cache_step.fail)
  ultimately show "cache_step\<^sup>*\<^sup>* empty_cache
      (token_failed ''k'' (snd (getAccessToken 0 ''k'' empty_cache)))"
    by (meson converse_rtranclp_into_rtranclp r_into_rtranclp)
qed

text \<open>
  A boleto has no txid, so the adapter, which declares the method as supported, asks the Pix API
  for a charge named \<open>undefined\<close>.
\<close>

theorem boleto_request_undefined:
  assumes "in_txid i = None"
  shows "rq_url (issue_request now i cfg) = pix_api_base_url (cfg_environment cfg) @ ''/cob/undefined'' \<and>
    has_method (bb_adapter http) BOLETO"
  using assms by (simp add: issue_request_def template_string_def has_method_def bb_adapter_def
      bb_getCapabilities_def)

lemma boleto_request_undefined_witness:
  "rq_url (issue_request 0 \<lparr>in_contractId = ''c'', in_method = BOLETO, in_amount = 10, in_dueDate = 0,
      in_idempotencyKey = ''k'', in_txid = None, in_expiresAt = None, in_creditorName = '''',
      in_creditorCnpj = None, in_debtorName = ''Ana'', in_debtorDocument = ''1'', in_debtorEmail = None,
      in_debtorPhone = None, in_debtorAddress = None\<rparr>
      \<lparr>cfg_clientId = None, cfg_clientSecret = None, cfg_developerKey = None,
      cfg_certificateBase64 = None, cfg_certificatePassword = None, cfg_pixKey = None,
      cfg_environment = SANDBOX, cfg_timeoutMs = 1, cfg_maxRetries = 0\<rparr>)
   = ''https://api-pix.hm.bb.com.br/pix/v2/cob/undefined''"
  by (subst boleto_request_undefined [THEN conjunct1]) (simp_all add: pix_api_base_url_def)

end
