(* ===== verification/Charges.thy ===== *)
theory Charges
  imports BancoDoBrasil
begin

text \<open>
  \<open>PaymentChargesService\<close> (\<open>payments/payment-charges.service.ts\<close>): issuing a charge, a Pix for a
  contract and a Pix by debtor document, the agreement that an issued charge registers, listing,
  and the manual synchronisation with the provider.

  Each handler takes the environment, its arguments and the database, and returns its result with
  the database it leaves. The environment is what the handler reads from outside: the clock (read
  once per call), the identifier generator, the process configuration, the decryption and the
  registered adapters. An audit record never changes the outcome (\<open>AuditService.log\<close> swallows its
  errors), so it is left out. The amount of the generic issuance is the string of the DTO, which
  the validation pipe restricts to \<open>IsNumberString\<close>.
\<close>

section \<open>Environment and inputs\<close>

record env =
  e_now :: int
  e_gen :: "nat \<Rightarrow> string"
  e_pixExpirationHours :: "string option"
  e_gatewayEnvironment :: gateway_environment
  e_decrypt :: "string \<Rightarrow> string option"
  e_parse :: "string \<Rightarrow> json option"
  e_adapters :: "adapter list"

record create_charge_dto =
  dto_paymentGatewayId :: string
  dto_method :: payment_method
  dto_amount :: string
  dto_dueDate :: "int option"
  dto_idempotencyKey :: string

record pix_options =
  po_agreementAmountOnly :: bool
  po_creditorId :: string

definition take_uuid :: "env \<Rightarrow> database \<Rightarrow> string \<times> database" where
  "take_uuid e d = (e_gen e (nextId d), d\<lparr>nextId := Suc (nextId d)\<rparr>)"

definition generateTxid :: "env \<Rightarrow> database \<Rightarrow> string \<times> database" where
  "generateTxid e d =
     (let (u, d') = take_uuid e d in (filter (\<lambda>c. c \<noteq> CHR ''-'') u, d'))"

definition draw_txid :: "env \<Rightarrow> bool \<Rightarrow> database \<Rightarrow> string option \<times> database" where
  "draw_txid e is_pix d =
     (if is_pix then (Some (fst (generateTxid e d)), snd (generateTxid e d)) else (None, d))"

definition pix_expiresAt :: "env \<Rightarrow> int" where
  \<comment> \<open>\<open>parseInt(\<dots>) || 24\<close>: NaN and 0 fall back to the default\<close>
  "pix_expiresAt e =
     (let hours = (case parse_int (or_else (e_pixExpirationHours e) '''') of
                     None \<Rightarrow> 24
                   | Some h \<Rightarrow> if h = 0 then 24 else h)
      in e_now e + hours * 60 * 60 * 1000)"

definition wallet_of :: "database \<Rightarrow> contract \<Rightarrow> wallet option" where
  "wallet_of d ct = List.find (\<lambda>w. wl_id w = ct_walletId ct) (wallets d)"

definition creditor_of :: "database \<Rightarrow> contract \<Rightarrow> creditor option" where
  "creditor_of d ct =
     (case wallet_of d ct of
        None \<Rightarrow> None
      | Some w \<Rightarrow> List.find (\<lambda>c. cr_id c = wl_creditorId w) (creditors d))"

definition find_contract :: "string \<Rightarrow> string \<Rightarrow> database \<Rightarrow> contract option" where
  "find_contract i acc d =
     List.find (\<lambda>c. ct_id c = i \<and> ct_accountId c = acc \<and> ct_deletedAt c = None) (contracts d)"

definition find_gateway :: "string \<Rightarrow> string \<Rightarrow> database \<Rightarrow> payment_gateway option" where
  "find_gateway i acc d =
     List.find (\<lambda>g. gw_id g = i \<and> gw_accountId g = acc \<and> gw_enabled g) (gateways d)"

definition debtor_address :: "debtor_contact \<Rightarrow> address option" where
  "debtor_address b =
     (case db_street b of
        None \<Rightarrow> None
      | Some st \<Rightarrow>
          if st = '''' then None
          else Some \<lparr>ad_street = st,
                     ad_number = or_else (db_addressNumber b) '''',
                     ad_complement = db_addressComplement b,
                     ad_neighborhood = or_else (db_neighborhood b) '''',
                     ad_city = or_else (db_city b) '''',
                     ad_state = or_else (db_state b) '''',
                     ad_zipCode = or_else (db_zipCode b) ''''\<rparr>)"

definition mk_input ::
  "contract \<Rightarrow> creditor \<Rightarrow> payment_method \<Rightarrow> rat \<Rightarrow> int \<Rightarrow> string \<Rightarrow> string option \<Rightarrow> int option
     \<Rightarrow> address option \<Rightarrow> issue_input" where
  "mk_input ct cr m amount due key txid expiresAt addr =
     \<lparr>in_contractId = ct_id ct, in_method = m, in_amount = amount, in_dueDate = due,
      in_idempotencyKey = key, in_txid = txid, in_expiresAt = expiresAt,
      in_creditorName = cr_name cr, in_creditorCnpj = cr_cnpj cr,
      in_debtorName = ct_debtorName ct, in_debtorDocument = ct_debtorDocument ct,
      in_debtorEmail = db_email (ct_debtor ct), in_debtorPhone = db_phone (ct_debtor ct),
      in_debtorAddress = addr\<rparr>"

section \<open>Side records\<close>

definition createPaymentEvent ::
  "env \<Rightarrow> string \<Rightarrow> charge_status option \<Rightarrow> charge_status \<Rightarrow> event_source \<Rightarrow> json \<Rightarrow> database \<Rightarrow> database"
where
  "createPaymentEvent e chargeId from to src meta d =
     create_event (e_gen e)
       \<lparr>ev_id = '''', ev_paymentChargeId = chargeId, ev_fromStatus = from, ev_toStatus = to,
        ev_source = src, ev_metadata = meta\<rparr> d"

definition has_interaction :: "string \<Rightarrow> string \<Rightarrow> database \<Rightarrow> bool" where
  "has_interaction contractId externalId d \<longleftrightarrow>
     List.find (\<lambda>i. ia_contractId i = contractId \<and> ia_externalId i = Some externalId) (interactions d) \<noteq> None"

definition recordPixIssuedInteraction ::
  "env \<Rightarrow> contract \<Rightarrow> payment_charge \<Rightarrow> database \<Rightarrow> database" where
  "recordPixIssuedInteraction e ct ch d =
     (let externalId = ''PIX_ISSUED:'' @ ch_id ch
      in if has_interaction (ct_id ct) externalId d then d
         else create_interaction (e_gen e)
           \<lparr>ia_id = '''', ia_contractId = ct_id ct, ia_accountId = ct_accountId ct,
            ia_walletId = ct_walletId ct, ia_channel = ''PAYMENT'', ia_status = IA_COMPLETED,
            ia_provider = Some ''BANCO_DO_BRASIL'', ia_externalId = Some externalId,
            ia_payload = JObj [(''paymentChargeId'', JStr (ch_id ch)),
                               (''txid'', jopt JStr (ch_txid ch)),
                               (''expiresAt'', jopt (JNum \<circ> of_int) (ch_expiresAt ch)),
                               (''eventType'', JStr ''PIX_ISSUED'')],
            ia_occurredAt = e_now e\<rparr> d)"

definition recordPixPaidInteraction ::
  "env \<Rightarrow> payment_charge \<Rightarrow> int \<Rightarrow> string \<Rightarrow> string option \<Rightarrow> database \<Rightarrow> database" where
  "recordPixPaidInteraction e ch paidAt src externalPaymentId d =
     (let externalId = ''PIX_PAID:'' @ or_else externalPaymentId (ch_id ch)
      in if has_interaction (ch_contractId ch) externalId d then d
         else case List.find (\<lambda>c. ct_id c = ch_contractId ch) (contracts d) of
                None \<Rightarrow> d
              | Some ct \<Rightarrow>
                  create_interaction (e_gen e)
                    \<lparr>ia_id = '''', ia_contractId = ch_contractId ch, ia_accountId = ct_accountId ct,
                     ia_walletId = ct_walletId ct, ia_channel = ''PAYMENT'', ia_status = IA_COMPLETED,
                     ia_provider = Some ''BANCO_DO_BRASIL'', ia_externalId = Some externalId,
                     ia_payload = JObj [(''paymentChargeId'', JStr (ch_id ch)),
                                        (''txid'', jopt JStr (ch_txid ch)),
                                        (''paidAt'', JNum (of_int paidAt)),
                                        (''source'', JStr src),
                                        (''eventType'', JStr ''PIX_PAID'')],
                     ia_occurredAt = paidAt\<rparr> d)"

definition agreement_of_charge :: "payment_charge \<Rightarrow> string" where
  "agreement_of_charge ch = or_else (or_opt (ch_externalId ch) (ch_txid ch)) (ch_id ch)"

definition agreement_projection :: "int \<Rightarrow> int \<Rightarrow> payment_charge \<Rightarrow> contract \<Rightarrow> contract" where
  "agreement_projection now dueAt ch c =
     c\<lparr>ct_paymentStatus := PS_IN_AGREEMENT,
       ct_agreement := (ct_agreement c)
         \<lparr>ag_reference := Some (agreement_of_charge ch),
          ag_totalAmount := Some (ch_amount ch),
          ag_createdAt := Some now,
          ag_totalInstallments := Some 1,
          ag_paidInstallments := 0,
          ag_dueAt := Some dueAt\<rparr>,
       ct_agreedPaymentAmount := Some (ch_amount ch)\<rparr>"

definition registerAgreementFromIssuedCharge ::
  "env \<Rightarrow> contract \<Rightarrow> wallet option \<Rightarrow> payment_charge \<Rightarrow> database \<Rightarrow> database" where
  "registerAgreementFromIssuedCharge e ct w ch d =
     (if ct_paymentStatus ct = PS_PAID \<or> ct_paymentStatus ct = PS_INSTALLMENT then d
      else if ct_paymentStatus ct = PS_IN_AGREEMENT \<and> ag_dueAt (ct_agreement ct) \<noteq> None then d
      else let days = max 1 (or_else (map_option wl_offerFirstInstallmentDays w) 5);
               dueAt = e_now e + days * 24 * 60 * 60 * 1000
           in update_contract (ct_id ct) (agreement_projection (e_now e) dueAt ch) d)"

definition createSettlementForCharge ::
  "env \<Rightarrow> payment_charge \<Rightarrow> int \<Rightarrow> string \<Rightarrow> database \<Rightarrow> database" where
  \<comment> \<open>\<open>createSettlement\<close>: best effort, so a violated unique index leaves the database as it was\<close>
  "createSettlementForCharge e ch paidAt acc d =
     (case List.find (\<lambda>s. st_paymentChargeId s = Some (ch_id ch)) (settlements d) of
        Some _ \<Rightarrow> d
      | None \<Rightarrow>
          (case create_settlement (e_gen e)
                  \<lparr>st_id = '''', st_accountId = acc, st_contractId = ch_contractId ch,
                   st_paymentChargeId = Some (ch_id ch), st_agreementReference = None,
                   st_installmentNumber = None, st_source = SRC_PIX, st_status = ST_CONFIRMED,
                   st_amount = ch_amount ch, st_paidAt = paidAt,
                   st_externalPaymentId = agreement_of_charge ch, st_channelEventId = None,
                   st_debtReference = None, st_metadata = JNull, st_providerPayload = JNull\<rparr> d of
             None \<Rightarrow> d
           | Some (_, d') \<Rightarrow> d'))"

section \<open>Pricing and gateway resolution\<close>

definition resolvePixPricing :: "contract \<Rightarrow> wallet \<Rightarrow> rat \<times> rat \<times> rat" where
  \<comment> \<open>base amount, amount, discount percent\<close>
  "resolvePixPricing ct w =
     (let base = ct_updatedValue ct;
          fallback = wl_cobcomDiscountPercent w;
          amount = (case of_value (ct_offer ct) of
                      Some v \<Rightarrow> v
                    | None \<Rightarrow> dec2 (base * (100 - fallback) / 100));
          discount = (if base = 0 then 0 else dec2 ((base - amount) / base * 100))
      in (base, amount, discount))"

definition findExistingValidPix ::
  "env \<Rightarrow> string \<Rightarrow> string \<Rightarrow> rat \<Rightarrow> database \<Rightarrow> payment_charge option" where
  "findExistingValidPix e contractId gatewayId expectedAmount d =
     first_desc ch_createdAt
       (\<lambda>c. ch_contractId c = contractId \<and> ch_paymentGatewayId c = gatewayId \<and> ch_method c = PIX \<and>
            ch_status c = CH_ISSUED \<and> ch_amount c = expectedAmount \<and>
            (case ch_expiresAt c of None \<Rightarrow> False | Some t \<Rightarrow> e_now e < t))
       (charges d)"

definition resolvePixGateway :: "env \<Rightarrow> string \<Rightarrow> database \<Rightarrow> http_error + payment_gateway" where
  "resolvePixGateway e acc d =
     (case List.find (\<lambda>g. gw_accountId g = acc \<and> gw_environment g = e_gatewayEnvironment e \<and>
                          gw_enabled g \<and> PIX \<in> set (gw_supportedMethods g)) (gateways d) of
        None \<Rightarrow> Inl (NotFound ''No active Pix-capable payment gateway found'')
      | Some g \<Rightarrow> Inr g)"

section \<open>Provider failures\<close>

text \<open>
  The columns a new charge starts from; the handlers overwrite what they set. \<open>fc\<close> below is the
  parameter object of \<open>handleAdapterError\<close> in the form of such a row.
\<close>

definition blank_charge ::
  "env \<Rightarrow> string \<Rightarrow> string \<Rightarrow> string \<Rightarrow> payment_method \<Rightarrow> rat \<Rightarrow> int \<Rightarrow> string \<Rightarrow> string option
     \<Rightarrow> int option \<Rightarrow> payment_charge" where
  "blank_charge e acc contractId gatewayId m amount due key txid expiresAt =
     \<lparr>ch_id = '''', ch_accountId = acc, ch_contractId = contractId, ch_paymentGatewayId = gatewayId,
      ch_method = m, ch_status = CH_PENDING, ch_amount = amount, ch_baseAmount = None,
      ch_discountPercent = 0, ch_dueDate = due, ch_idempotencyKey = key, ch_externalId = None,
      ch_externalStatus = None, ch_ourNumber = None, ch_txid = txid, ch_digitableLine = None,
      ch_barcode = None, ch_pixCopyPaste = None, ch_qrCodeUrl = None, ch_documentUrl = None,
      ch_providerPayload = JNull, ch_failureCode = None, ch_failureMessage = None,
      ch_issuedAt = None, ch_paidAt = None, ch_expiresAt = expiresAt, ch_attributedChannel = None,
      ch_version = 1, ch_createdAt = e_now e\<rparr>"

definition failure_of :: "adapter_error \<Rightarrow> charge_status \<times> string option \<times> string option" where
  "failure_of err =
     (case err of
        BbTimeoutError \<Rightarrow> (CH_PENDING, None, Some ''Provider timeout'')
      | BbRateLimitedError \<Rightarrow> (CH_FAILED, Some ''RATE_LIMITED'', Some ''Provider rate limit exhausted'')
      | BbProviderError fcode msg \<Rightarrow> (CH_FAILED, Some fcode, Some msg)
      | OtherError msg \<Rightarrow> (CH_FAILED, Some ''UNKNOWN_ERROR'', Some msg))"

definition handleAdapterError ::
  "env \<Rightarrow> adapter_error \<Rightarrow> payment_charge \<Rightarrow> database \<Rightarrow> (database, payment_charge) outcome" where
  "handleAdapterError e err fc d =
     (let (status, failureCode, failureMessage) = failure_of err
      in case create_charge (e_gen e)
                (fc\<lparr>ch_status := status, ch_failureCode := failureCode,
                    ch_failureMessage := failureMessage, ch_attributedChannel := Some COBCOM\<rparr>) d of
           None \<Rightarrow> (Inl (Internal ''Unique constraint failed''), d)
         | Some (c, d') \<Rightarrow> (Inr c, createPaymentEvent e (ch_id c) None status EV_MANUAL JNull d'))"

text \<open>
  The \<open>try \<dots> catch\<close> that the three issuing handlers share: call the adapter, store the charge
  \<open>row\<close> builds from its answer, record the event, the interaction and the agreement; any exception
  on the way goes to \<open>handleAdapterError\<close> and then becomes the structured 422.
\<close>

definition issue_failed :: "(database, payment_charge) outcome \<Rightarrow> (database, payment_charge) outcome" where
  "issue_failed r =
     (case r of
        (Inl e, d) \<Rightarrow> (Inl e, d)
      | (Inr c, d) \<Rightarrow>
          (Inl (IssueFailed (or_else (ch_failureCode c) ''PROVIDER_NOT_PROCESSED'') (ch_id c)), d))"

definition issue_and_store ::
  "env \<Rightarrow> adapter \<Rightarrow> issue_input \<Rightarrow> gateway_config \<Rightarrow> (issued_charge \<Rightarrow> payment_charge) \<Rightarrow> payment_charge
     \<Rightarrow> contract \<Rightarrow> wallet option \<Rightarrow> bool \<Rightarrow> database \<Rightarrow> (database, payment_charge) outcome" where
  "issue_and_store e a inp cfg row fc ct w is_pix d =
     (case pa_issue a (e_now e) inp cfg of
        Inl err \<Rightarrow> issue_failed (handleAdapterError e err fc d)
      | Inr issued \<Rightarrow>
          (case create_charge (e_gen e) (row issued) d of
             None \<Rightarrow>
               issue_failed (handleAdapterError e (OtherError ''Unique constraint failed'') fc d)
           | Some (c, d1) \<Rightarrow>
               let d2 = createPaymentEvent e (ch_id c) None CH_ISSUED EV_MANUAL JNull d1;
                   d3 = (if is_pix then recordPixIssuedInteraction e ct c d2 else d2)
               in (Inr c, registerAgreementFromIssuedCharge e ct w c d3)))"

section \<open>Issuing\<close>

definition preflight ::
  "env \<Rightarrow> string \<Rightarrow> payment_method \<Rightarrow> string \<Rightarrow> string \<Rightarrow> database \<Rightarrow> http_error + missing_field list" where
  "preflight e contractId m gatewayId acc d =
     (case find_contract contractId acc d of
        None \<Rightarrow> Inl (NotFound ''Contract not found'')
      | Some ct \<Rightarrow>
     (case find_gateway gatewayId acc d of
        None \<Rightarrow> Inl (NotFound ''Payment gateway not found or not enabled'')
      | Some g \<Rightarrow>
     (case getAndValidateMethod (e_adapters e) (gw_providerType g) m of
        Inl err \<Rightarrow> Inl err
      | Inr a \<Rightarrow>
     (case creditor_of d ct of
        None \<Rightarrow> Inl (Internal ''contract without creditor'')
      | Some cr \<Rightarrow>
          Inr (pa_validate a
            (mk_input ct cr m (ct_updatedValue ct) (or_else (ct_dueDate ct) (e_now e)) ''preflight''
               None None (debtor_address (ct_debtor ct))))))))"

definition generic_row :: "env \<Rightarrow> payment_charge \<Rightarrow> issued_charge \<Rightarrow> payment_charge" where
  \<comment> \<open>the \<open>data\<close> of \<open>createCharge\<close>\<close>
  "generic_row e fc r =
     fc\<lparr>ch_status := CH_ISSUED,
        ch_externalId := is_externalId r,
        ch_externalStatus := is_externalStatus r,
        ch_ourNumber := is_ourNumber r,
        ch_txid := or_opt (is_txid r) (ch_txid fc),
        ch_digitableLine := is_digitableLine r,
        ch_barcode := is_barcode r,
        ch_pixCopyPaste := is_pixCopyPaste r,
        ch_qrCodeUrl := is_qrCodeUrl r,
        ch_documentUrl := is_documentUrl r,
        ch_providerPayload := is_providerPayload r,
        ch_issuedAt := Some (or_else (is_issuedAt r) (e_now e)),
        ch_expiresAt := or_opt (is_expiresAt r) (ch_expiresAt fc),
        ch_attributedChannel := Some COBCOM\<rparr>"

definition pix_row ::
  "env \<Rightarrow> payment_charge \<Rightarrow> rat \<Rightarrow> rat \<Rightarrow> charge_channel \<Rightarrow> issued_charge \<Rightarrow> payment_charge" where
  \<comment> \<open>the \<open>data\<close> of \<open>createPixForContract\<close> and \<open>createPixByDocument\<close>\<close>
  "pix_row e fc base discount channel r =
     fc\<lparr>ch_status := CH_ISSUED,
        ch_baseAmount := Some base,
        ch_discountPercent := discount,
        ch_externalId := is_externalId r,
        ch_externalStatus := is_externalStatus r,
        ch_txid := or_opt (is_txid r) (ch_txid fc),
        ch_pixCopyPaste := is_pixCopyPaste r,
        ch_qrCodeUrl := is_qrCodeUrl r,
        ch_providerPayload := is_providerPayload r,
        ch_issuedAt := Some (or_else (is_issuedAt r) (e_now e)),
        ch_expiresAt := or_opt (is_expiresAt r) (ch_expiresAt fc),
        ch_attributedChannel := Some channel\<rparr>"

definition issue_generic ::
  \<comment> \<open>\<open>createCharge\<close> once the contract and the adapter are known\<close>
  "env \<Rightarrow> contract \<Rightarrow> payment_gateway \<Rightarrow> adapter \<Rightarrow> create_charge_dto \<Rightarrow> rat \<Rightarrow> int \<Rightarrow> string \<Rightarrow> database
     \<Rightarrow> (database, payment_charge) outcome" where
  "issue_generic e ct g a dto amount dueDate acc d =
     (case decryptCredentials (e_decrypt e) (e_parse e) g of
        Inl err \<Rightarrow> (Inl err, d)
      | Inr cfg \<Rightarrow>
      let is_pix = (dto_method dto = PIX \<or> dto_method dto = BOLEPIX);
          (txid, d1) = draw_txid e is_pix d;
          expiresAt = (if is_pix then Some (pix_expiresAt e) else None)
      in (case creditor_of d ct of
            None \<Rightarrow> (Inl (Internal ''contract without creditor''), d1)
          | Some cr \<Rightarrow>
              let fc = blank_charge e acc (ct_id ct) (dto_paymentGatewayId dto) (dto_method dto) amount
                         dueDate (dto_idempotencyKey dto) txid expiresAt;
                  inp = mk_input ct cr (dto_method dto) amount dueDate (dto_idempotencyKey dto) txid
                          expiresAt (debtor_address (ct_debtor ct))
              in issue_and_store e a inp cfg (generic_row e fc) fc ct (wallet_of d ct) is_pix d1))"

definition createCharge ::
  "env \<Rightarrow> string \<Rightarrow> create_charge_dto \<Rightarrow> string \<Rightarrow> database \<Rightarrow> (database, payment_charge) outcome" where
  "createCharge e contractId dto acc d =
     (case number_string (dto_amount dto) of
        None \<Rightarrow> (Inl (BadRequest ''Amount must be a positive number''), d)
      | Some amount \<Rightarrow>
      if amount \<le> 0 then (Inl (BadRequest ''Amount must be a positive number''), d) else
     (case dto_dueDate dto of
        None \<Rightarrow> (Inl (BadRequest ''Invalid due date''), d)
      | Some dueDate \<Rightarrow>
     (case find_gateway (dto_paymentGatewayId dto) acc d of
        None \<Rightarrow> (Inl (NotFound ''Payment gateway not found or not enabled''), d)
      | Some g \<Rightarrow>
     (case getAndValidateMethod (e_adapters e) (gw_providerType g) (dto_method dto) of
        Inl err \<Rightarrow> (Inl err, d)
      | Inr a \<Rightarrow>
     (case List.find (\<lambda>c. charge_key c = (dto_idempotencyKey dto, dto_paymentGatewayId dto)) (charges d) of
        Some existing \<Rightarrow> (Inr existing, d)
      | None \<Rightarrow>
     (case find_contract contractId acc d of
        None \<Rightarrow> (Inl (NotFound ''Contract not found''), d)
      | Some ct \<Rightarrow> issue_generic e ct g a dto amount dueDate acc d))))))"

definition issue_pix ::
  \<comment> \<open>the common tail of the two Pix handlers: reuse a valid Pix, or decrypt, select and issue\<close>
  "env \<Rightarrow> contract \<Rightarrow> wallet \<Rightarrow> creditor \<Rightarrow> string \<Rightarrow> payment_gateway \<Rightarrow> rat \<Rightarrow> rat \<Rightarrow> rat
     \<Rightarrow> charge_channel \<Rightarrow> string option \<Rightarrow> database \<Rightarrow> (database, payment_charge) outcome" where
  "issue_pix e ct w cr acc g base amount discount channel key d =
     (case findExistingValidPix e (ct_id ct) (gw_id g) amount d of
        Some pix \<Rightarrow>
          (Inr pix, registerAgreementFromIssuedCharge e ct (Some w) pix
                      (recordPixIssuedInteraction e ct pix d))
      | None \<Rightarrow>
     (case decryptCredentials (e_decrypt e) (e_parse e) g of
        Inl err \<Rightarrow> (Inl err, d)
      | Inr cfg \<Rightarrow>
     (case getAndValidateMethod (e_adapters e) (gw_providerType g) PIX of
        Inl err \<Rightarrow> (Inl err, d)
      | Inr a \<Rightarrow>
      let (txid, d1) = generateTxid e d;
          (k, d2) = (case key of Some k \<Rightarrow> (k, d1) | None \<Rightarrow> take_uuid e d1);
          due = or_else (ct_dueDate ct) (e_now e);
          fc = blank_charge e acc (ct_id ct) (gw_id g) PIX amount due k (Some txid)
                 (Some (pix_expiresAt e));
          inp = mk_input ct cr PIX amount due k (Some txid) (Some (pix_expiresAt e)) None
      in issue_and_store e a inp cfg (pix_row e fc base discount channel) fc ct (Some w) True d2)))"

definition creditor_filter :: "string \<Rightarrow> contract \<Rightarrow> database \<Rightarrow> bool" where
  "creditor_filter creditorId ct d \<longleftrightarrow>
     creditorId = '''' \<or>
     (case wallet_of d ct of None \<Rightarrow> False | Some w \<Rightarrow> wl_creditorId w = creditorId)"

definition createPixForContract ::
  "env \<Rightarrow> string \<Rightarrow> string \<Rightarrow> pix_options \<Rightarrow> database \<Rightarrow> (database, payment_charge) outcome" where
  "createPixForContract e contractId acc opt d =
     (case List.find (\<lambda>c. ct_id c = contractId \<and> ct_accountId c = acc \<and> ct_deletedAt c = None \<and>
                          creditor_filter (po_creditorId opt) c d) (contracts d) of
        None \<Rightarrow> (Inl (NotFound ''Contract not found''), d)
      | Some ct \<Rightarrow>
      if ct_paymentStatus ct = PS_PAID
      then (Inl (Unprocessable ''A fully paid contract cannot receive a new Pix charge''), d)
      else if ct_updatedValue ct \<le> 0
      then (Inl (Unprocessable ''Contract does not have a valid updatedValue for Pix issuance''), d)
      else if po_agreementAmountOnly opt \<and> or_else (ag_reference (ct_agreement ct)) '''' = ''''
      then (Inl (Unprocessable ''Este contrato ainda nao possui um acordo gerado.''), d)
      else if po_agreementAmountOnly opt \<and> ag_totalAmount (ct_agreement ct) = None
      then (Inl (Unprocessable ''O acordo nao possui um valor disponivel para gerar o Pix.''), d)
      else
     (case (wallet_of d ct, creditor_of d ct) of
        (Some w, Some cr) \<Rightarrow>
          let (base, price, _) = resolvePixPricing ct w;
              amount = (if po_agreementAmountOnly opt
                        then or_else (ag_totalAmount (ct_agreement ct)) price else price);
              discount = (if base = 0 then 0 else dec2 ((base - amount) / base * 100))
          in if amount \<le> 0
             then (Inl (Unprocessable ''O desconto configurado gera um valor invalido para Pix.''), d)
             else (case resolvePixGateway e acc d of
                     Inl err \<Rightarrow> (Inl err, d)
                   | Inr g \<Rightarrow> issue_pix e ct w cr acc g base amount discount COBCOM None d)
      | _ \<Rightarrow> (Inl (Internal ''contract without creditor''), d)))"

definition createPixByDocument ::
  "env \<Rightarrow> string \<Rightarrow> string \<Rightarrow> string \<Rightarrow> string \<Rightarrow> string \<Rightarrow> database \<Rightarrow> (database, payment_charge) outcome"
where
  \<comment> \<open>debtor document, contract number, idempotency key, account, creditor (empty for none)\<close>
  "createPixByDocument e document contractNumber key acc creditorId d =
     (let doc = digits_only document
      in if length doc \<noteq> 11 \<and> length doc \<noteq> 14
         then (Inl (BadRequest ''Invalid CPF/CNPJ format''), d)
         else
     (case filter (\<lambda>c. ct_accountId c = acc \<and> ct_debtorDocument c = doc \<and>
                       ct_contractNumber c = contractNumber \<and> ct_status c = CT_ACTIVE \<and>
                       ct_paymentStatus c \<noteq> PS_PAID \<and> ct_deletedAt c = None \<and>
                       0 < ct_updatedValue c \<and> creditor_filter creditorId c d) (contracts d) of
        [] \<Rightarrow> (Inl (NotFound ''No eligible contract found''), d)
      | _ # _ # _ \<Rightarrow> (Inl (Conflict ''Multiple contracts found''), d)
      | [ct] \<Rightarrow>
     (case (wallet_of d ct, creditor_of d ct) of
        (Some w, Some cr) \<Rightarrow>
          let (base, amount, discount) = resolvePixPricing ct w
          in (case List.find (\<lambda>c. ch_contractId c = ct_id ct \<and> ch_idempotencyKey c = key \<and>
                                  ch_method c = PIX) (charges d) of
                Some existing \<Rightarrow> (Inr existing, d)
              | None \<Rightarrow>
                  (case resolvePixGateway e acc d of
                     Inl err \<Rightarrow> (Inl err, d)
                   | Inr g \<Rightarrow>
                       issue_pix e ct w cr acc g base amount discount LANDING_PAGE (Some key) d))
      | _ \<Rightarrow> (Inl (Internal ''contract without creditor''), d))))"

section \<open>Listing and synchronisation\<close>

definition listCharges ::
  "string \<Rightarrow> string \<Rightarrow> string list option \<Rightarrow> database \<Rightarrow> http_error + payment_charge list" where
  "listCharges contractId acc userScopes d =
     (case find_contract contractId acc d of
        None \<Rightarrow> Inl (NotFound ''Contract not found'')
      | Some ct \<Rightarrow>
          if (case userScopes of None \<Rightarrow> False | Some ws \<Rightarrow> ct_walletId ct \<notin> set ws)
          then Inl (NotFound ''Contract not found'')
          else Inr (sort_key (\<lambda>c. - ch_createdAt c)
                      (filter (\<lambda>c. ch_contractId c = contractId \<and> ch_accountId c = acc) (charges d))))"

definition thrown :: "adapter_error \<Rightarrow> http_error" where
  \<comment> \<open>an adapter exception that no handler catches is an internal error\<close>
  "thrown err =
     (case err of
        BbTimeoutError \<Rightarrow> Internal ''BbTimeoutError''
      | BbRateLimitedError \<Rightarrow> Internal ''BbRateLimitedError''
      | BbProviderError _ msg \<Rightarrow> Internal msg
      | OtherError msg \<Rightarrow> Internal msg)"

definition synced :: "payment_charge \<Rightarrow> charge_update \<Rightarrow> payment_charge \<Rightarrow> payment_charge" where
  "synced ch u row =
     row\<lparr>ch_status := up_status u,
         ch_externalStatus := or_opt (up_externalStatus u) (ch_externalStatus ch),
         ch_paidAt := or_opt (up_paidAt u) (ch_paidAt ch),
         ch_failureCode := or_opt (up_failureCode u) (ch_failureCode ch),
         ch_failureMessage := or_opt (up_failureMessage u) (ch_failureMessage ch),
         ch_providerPayload := (if up_providerPayload u = JNull then ch_providerPayload ch
                                else up_providerPayload u)\<rparr>"

definition apply_sync ::
  "env \<Rightarrow> payment_charge \<Rightarrow> charge_update \<Rightarrow> string \<Rightarrow> database \<Rightarrow> database" where
  \<comment> \<open>the writes of \<open>syncCharge\<close> after the provider has answered\<close>
  "apply_sync e ch u acc d =
     (let d1 = update_charge (ch_id ch) (synced ch u) d;
          d2 = (if ch_status ch \<noteq> up_status u
                then createPaymentEvent e (ch_id ch) (Some (ch_status ch)) (up_status u) EV_SYNC JNull d1
                else d1);
          paidAt = or_else (up_paidAt u) (e_now e)
      in if up_status u = CH_PAID \<and> ch_status ch \<noteq> CH_PAID
         then recordPixPaidInteraction e ch paidAt ''SYNC'' None
                (createSettlementForCharge e ch paidAt acc d2)
         else d2)"

definition syncCharge ::
  "env \<Rightarrow> string \<Rightarrow> string \<Rightarrow> database \<Rightarrow> (database, payment_charge) outcome" where
  "syncCharge e chargeId acc d =
     (case List.find (\<lambda>c. ch_id c = chargeId \<and> ch_accountId c = acc) (charges d) of
        None \<Rightarrow> (Inl (NotFound ''Payment charge not found''), d)
      | Some ch \<Rightarrow>
     (case List.find (\<lambda>g. gw_id g = ch_paymentGatewayId ch) (gateways d) of
        None \<Rightarrow> (Inl (NotFound ''Payment gateway not found''), d)
      | Some g \<Rightarrow>
     (case factory_get (e_adapters e) (gw_providerType g) of
        Inl err \<Rightarrow> (Inl err, d)
      | Inr a \<Rightarrow>
     (case pa_fetchStatus a of
        None \<Rightarrow> (Inl (Unprocessable ''Provider does not support status query''), d)
      | Some fetch \<Rightarrow>
     (case decryptCredentials (e_decrypt e) (e_parse e) g of
        Inl err \<Rightarrow> (Inl err, d)
      | Inr cfg \<Rightarrow>
     (case fetch ch cfg of
        Inl err \<Rightarrow> (Inl (thrown err), d)
      | Inr u \<Rightarrow> (Inr (synced ch u ch), apply_sync e ch u acc d)))))))"

section \<open>Frames and invariants of the helpers\<close>

lemma createPaymentEvent_frame [row_simps, simp]:
  "contracts (createPaymentEvent e i f t s m d) = contracts d"
  "charges (createPaymentEvent e i f t s m d) = charges d"
  "settlements (createPaymentEvent e i f t s m d) = settlements d"
  "gateways (createPaymentEvent e i f t s m d) = gateways d"
  "wallets (createPaymentEvent e i f t s m d) = wallets d"
  "creditors (createPaymentEvent e i f t s m d) = creditors d"
  "interactions (createPaymentEvent e i f t s m d) = interactions d"
  "nextId (createPaymentEvent e i f t s m d) = Suc (nextId d)"
  by (simp_all add: createPaymentEvent_def)

lemma recordPixIssuedInteraction_frame [row_simps, simp]:
  "contracts (recordPixIssuedInteraction e ct ch d) = contracts d"
  "charges (recordPixIssuedInteraction e ct ch d) = charges d"
  "settlements (recordPixIssuedInteraction e ct ch d) = settlements d"
  "gateways (recordPixIssuedInteraction e ct ch d) = gateways d"
  "wallets (recordPixIssuedInteraction e ct ch d) = wallets d"
  "creditors (recordPixIssuedInteraction e ct ch d) = creditors d"
  "events (recordPixIssuedInteraction e ct ch d) = events d"
  by (simp_all add: recordPixIssuedInteraction_def Let_def)

lemma recordPixPaidInteraction_frame [row_simps, simp]:
  "contracts (recordPixPaidInteraction e ch t s x d) = contracts d"
  "charges (recordPixPaidInteraction e ch t s x d) = charges d"
  "settlements (recordPixPaidInteraction e ch t s x d) = settlements d"
  "gateways (recordPixPaidInteraction e ch t s x d) = gateways d"
  "wallets (recordPixPaidInteraction e ch t s x d) = wallets d"
  "creditors (recordPixPaidInteraction e ch t s x d) = creditors d"
  "events (recordPixPaidInteraction e ch t s x d) = events d"
  by (simp_all add: recordPixPaidInteraction_def Let_def split: option.split)

lemma registerAgreement_frame [row_simps, simp]:
  "charges (registerAgreementFromIssuedCharge e ct w ch d) = charges d"
  "settlements (registerAgreementFromIssuedCharge e ct w ch d) = settlements d"
  "gateways (registerAgreementFromIssuedCharge e ct w ch d) = gateways d"
  "wallets (registerAgreementFromIssuedCharge e ct w ch d) = wallets d"
  "creditors (registerAgreementFromIssuedCharge e ct w ch d) = creditors d"
  "events (registerAgreementFromIssuedCharge e ct w ch d) = events d"
  "interactions (registerAgreementFromIssuedCharge e ct w ch d) = interactions d"
  "nextId (registerAgreementFromIssuedCharge e ct w ch d) = nextId d"
  by (simp_all add: registerAgreementFromIssuedCharge_def Let_def)

lemma nextId_interactions [row_simps]:
  "nextId d \<le> nextId (recordPixIssuedInteraction e ct ch d)"
  "nextId d \<le> nextId (recordPixPaidInteraction e ch t s x d)"
  by (simp_all add: recordPixIssuedInteraction_def recordPixPaidInteraction_def Let_def
      split: option.split)

lemma createSettlementForCharge_frame [row_simps, simp]:
  "contracts (createSettlementForCharge e ch t acc d) = contracts d"
  "charges (createSettlementForCharge e ch t acc d) = charges d"
  "gateways (createSettlementForCharge e ch t acc d) = gateways d"
  "wallets (createSettlementForCharge e ch t acc d) = wallets d"
  "creditors (createSettlementForCharge e ch t acc d) = creditors d"
  "events (createSettlementForCharge e ch t acc d) = events d"
  "interactions (createSettlementForCharge e ch t acc d) = interactions d"
  by (auto simp: createSettlementForCharge_def create_settlement_def Let_def split: option.split)

lemma nextId_createSettlement [row_simps]:
  "nextId d \<le> nextId (createSettlementForCharge e ch t acc d)"
  by (auto simp: createSettlementForCharge_def create_settlement_def Let_def split: option.split)

lemma generateTxid_frame [row_dest]:
  assumes "generateTxid e d = (t, d')"
  shows "d' = d\<lparr>nextId := Suc (nextId d)\<rparr>"
  using assms by (simp add: generateTxid_def take_uuid_def)

lemma take_uuid_frame [row_dest]:
  assumes "take_uuid e d = (t, d')"
  shows "d' = d\<lparr>nextId := Suc (nextId d)\<rparr>"
  using assms by (simp add: take_uuid_def)

lemma payments_ok_createSettlementForCharge:
  "payments_ok gen d \<Longrightarrow> e_gen e = gen \<Longrightarrow> payments_ok gen (createSettlementForCharge e ch t acc d)"
  by (auto simp: createSettlementForCharge_def split: option.split
      dest: payments_ok_create_settlement)

section \<open>What issuing does to the charge table\<close>

text \<open>
  \<open>charge_outcome gen fc r d d'\<close> summarises every way an issuing attempt for the row \<open>fc\<close> ends: an
  issued charge was appended and returned; the provider failed, a \<open>PENDING\<close> or \<open>FAILED\<close> charge was
  appended and the exception names it; or the key was taken and nothing was written.
\<close>

definition charge_outcome ::
  "(nat \<Rightarrow> string) \<Rightarrow> payment_charge \<Rightarrow> http_error + payment_charge \<Rightarrow> database \<Rightarrow> database \<Rightarrow> bool" where
  "charge_outcome gen fc r d d' \<longleftrightarrow>
     nextId d \<le> nextId d' \<and> settlements d' = settlements d \<and> gateways d' = gateways d \<and> wallets d' = wallets d \<and>
     creditors d' = creditors d \<and>
     ((\<exists>c. charges d' = charges d @ [c] \<and> charge_key c = charge_key fc \<and>
           charge_key fc \<notin> charge_key ` set (charges d) \<and>
           ch_contractId c = ch_contractId fc \<and> ch_accountId c = ch_accountId fc \<and>
           ch_method c = ch_method fc \<and> ch_amount c = dec2 (ch_amount fc) \<and> ch_version c = 1 \<and>
           (\<exists>k. nextId d \<le> k \<and> k < nextId d' \<and> ch_id c = gen k) \<and>
           ((r = Inr c \<and> ch_status c = CH_ISSUED) \<or>
            (\<exists>x. r = Inl (IssueFailed x (ch_id c)) \<and> ch_status c \<in> {CH_PENDING, CH_FAILED} \<and>
                 contracts d' = contracts d)))
      \<or> (charges d' = charges d \<and> contracts d' = contracts d \<and> (\<exists>m. r = Inl (Internal m)) \<and>
         charge_key fc \<in> charge_key ` set (charges d)))"

definition same_request :: "payment_charge \<Rightarrow> payment_charge \<Rightarrow> bool" where
  \<comment> \<open>the columns that the answer of the provider does not decide\<close>
  "same_request c fc \<longleftrightarrow>
     charge_key c = charge_key fc \<and> ch_contractId c = ch_contractId fc \<and>
     ch_accountId c = ch_accountId fc \<and> ch_method c = ch_method fc \<and> ch_amount c = ch_amount fc \<and>
     ch_version c = ch_version fc"

lemma same_request_rows [simp]:
  "same_request (generic_row e fc r) fc"
  "same_request (pix_row e fc b di chn r) fc"
  by (simp_all add: same_request_def generic_row_def pix_row_def charge_key_def)

lemma ch_status_rows [simp]:
  "ch_status (generic_row e fc r) = CH_ISSUED"
  "ch_status (pix_row e fc b di chn r) = CH_ISSUED"
  by (simp_all add: generic_row_def pix_row_def)

lemma charge_key_amount [simp]: "charge_key (c\<lparr>ch_amount := a\<rparr>) = charge_key c"
  by (simp add: charge_key_def)

lemma failure_of_status: "failure_of err = (s, c, m) \<Longrightarrow> s \<in> {CH_PENDING, CH_FAILED}"
  by (auto simp: failure_of_def split: adapter_error.splits)

lemma failure_of_pending: "fst (failure_of err) = CH_PENDING \<longleftrightarrow> err = BbTimeoutError"
  by (auto simp: failure_of_def split: adapter_error.splits)

lemma create_charge_new:
  assumes "create_charge gen c d = Some (c', d')"
  shows "same_request c' (c\<lparr>ch_amount := dec2 (ch_amount c)\<rparr>)" and "ch_status c' = ch_status c"
    and "ch_id c' = gen (nextId d)"
  using create_charge_frame(9) [OF assms]
  by (simp_all add: same_request_def new_charge_row_def charge_key_def)

lemma charge_outcome_fail:
  assumes "issue_failed (handleAdapterError e err fc d) = (r, d')" and "ch_version fc = 1"
  shows "charge_outcome (e_gen e) fc r d d'"
proof -
  obtain s fcode msg where f: "failure_of err = (s, fcode, msg)"
    by (cases "failure_of err") auto
  let ?c = "fc\<lparr>ch_status := s, ch_failureCode := fcode, ch_failureMessage := msg,
               ch_attributedChannel := Some COBCOM\<rparr>"
  have key: "charge_key ?c = charge_key fc" by (simp add: charge_key_def)
  show ?thesis
  proof (cases "create_charge (e_gen e) ?c d")
    case None
    then have "charge_key fc \<in> charge_key ` set (charges d)"
      using charge_table.insert_None [of "e_gen e" ?c d] key by simp
    then show ?thesis
      using assms None f by (auto simp: charge_outcome_def handleAdapterError_def issue_failed_def)
  next
    case (Some p)
    then obtain c d1 where c: "create_charge (e_gen e) ?c d = Some (c, d1)" by (cases p) auto
    have "charge_key fc \<notin> charge_key ` set (charges d)"
      using charge_table.insert_SomeD(1) [OF c] key by simp
    moreover have "r = Inl (IssueFailed (or_else (ch_failureCode c) ''PROVIDER_NOT_PROCESSED'') (ch_id c))"
      "d' = createPaymentEvent e (ch_id c) None s EV_MANUAL JNull d1"
      using assms(1) c f by (auto simp: handleAdapterError_def issue_failed_def)
    ultimately show ?thesis
      using create_charge_frame [OF c] create_charge_new [OF c] failure_of_status [OF f] assms(2) key
      by (auto simp: charge_outcome_def same_request_def)
  qed
qed

lemma charge_outcome_issue:
  assumes "issue_and_store e a inp cfg row fc ct w is_pix d = (r, d')"
    and "\<And>x. same_request (row x) fc" and "\<And>x. ch_status (row x) = CH_ISSUED" and "ch_version fc = 1"
  shows "charge_outcome (e_gen e) fc r d d'"
proof (cases "pa_issue a (e_now e) inp cfg")
  case (Inl err)
  then show ?thesis
    using assms(1,4) by (auto simp: issue_and_store_def intro: charge_outcome_fail)
next
  case (Inr issued)
  have key: "charge_key (row issued) = charge_key fc"
    using assms(2) by (simp add: same_request_def)
  show ?thesis
  proof (cases "create_charge (e_gen e) (row issued) d")
    case None
    then show ?thesis
      using assms(1,4) Inr by (auto simp: issue_and_store_def intro: charge_outcome_fail)
  next
    case (Some p)
    then obtain c d1 where c: "create_charge (e_gen e) (row issued) d = Some (c, d1)" by (cases p) auto
    have "charge_key fc \<notin> charge_key ` set (charges d)"
      using charge_table.insert_SomeD(1) [OF c] key by simp
    moreover have "r = Inr c" "charges d' = charges d1" "settlements d' = settlements d1"
      "gateways d' = gateways d1" "wallets d' = wallets d1" "creditors d' = creditors d1"
      using assms(1) c Inr by (auto simp: issue_and_store_def Let_def)
    moreover have "Suc (nextId d) \<le> nextId d'"
      using assms(1) c Inr create_charge_frame(10) [OF c]
        nextId_interactions(1) [of "createPaymentEvent e (ch_id c) None CH_ISSUED EV_MANUAL JNull d1" e ct c]
      by (auto simp: issue_and_store_def Let_def split: if_splits)
    ultimately show ?thesis
      using create_charge_frame [OF c] create_charge_new [OF c] assms(2) [of issued] assms(3,4)
      by (auto simp: charge_outcome_def same_request_def)
  qed
qed

section \<open>Properties of the issuing handlers\<close>

lemma payments_ok_outcome:
  assumes "charge_outcome gen fc r d d'" and "inj gen" and "payments_ok gen d"
  shows "payments_ok gen d'"
proof (cases "charges d' = charges d")
  case True
  then show ?thesis
    using assms payments_ok_frame by (auto simp: charge_outcome_def)
next
  case False
  then obtain c k where c: "charges d' = charges d @ [c]" "charge_key c \<notin> charge_key ` set (charges d)"
    "ch_id c = gen k" "nextId d \<le> k" "k < nextId d'" "settlements d' = settlements d"
    using assms(1) by (auto simp: charge_outcome_def)
  have sub: "set (map ch_id (charges d)) \<subseteq> gen ` {..<nextId d}"
    using assms(3) by (simp add: payments_ok_def fresh_ids_def)
  have "gen k \<notin> gen ` {..<nextId d}"
    using c(4) assms(2) by (auto dest: injD)
  then have "ch_id c \<notin> set (map ch_id (charges d))"
    using sub c(3) by auto
  moreover have "gen ` {..<nextId d} \<subseteq> gen ` {..<nextId d'}" "gen k \<in> gen ` {..<nextId d'}"
    using c(4,5) by (auto intro!: image_mono)
  then have "set (map ch_id (charges d')) \<subseteq> gen ` {..<nextId d'}"
    using sub c(1,3) by auto
  ultimately show ?thesis
    using assms(3) c(1,2,6) unfolding payments_ok_def unique_keys_def fresh_ids_def by auto
qed

lemma charge_outcome_shift:
  "charge_outcome gen fc r (d\<lparr>nextId := n\<rparr>) d' \<Longrightarrow> nextId d \<le> n \<Longrightarrow> charge_outcome gen fc r d d'"
  by (auto simp: charge_outcome_def) (metis order_trans)+

lemma blank_charge_fields [simp]:
  "charge_key (blank_charge e acc c g m a due k t x) = (k, g)"
  "ch_contractId (blank_charge e acc c g m a due k t x) = c"
  "ch_accountId (blank_charge e acc c g m a due k t x) = acc"
  "ch_method (blank_charge e acc c g m a due k t x) = m"
  "ch_amount (blank_charge e acc c g m a due k t x) = a"
  "ch_version (blank_charge e acc c g m a due k t x) = 1"
  by (simp_all add: blank_charge_def charge_key_def)

lemma find_contract_SomeD:
  "find_contract i acc d = Some ct \<Longrightarrow>
     ct \<in> set (contracts d) \<and> ct_id ct = i \<and> ct_accountId ct = acc \<and> ct_deletedAt ct = None"
  by (auto simp: find_contract_def dest: find_SomeD)

lemma find_gateway_SomeD:
  "find_gateway i acc d = Some g \<Longrightarrow>
     g \<in> set (gateways d) \<and> gw_id g = i \<and> gw_accountId g = acc \<and> gw_enabled g"
  by (auto simp: find_gateway_def dest: find_SomeD)

text \<open>
  A call of a handler that is not an attempt either is refused, which writes nothing, or answers
  with a charge that exists already.
\<close>

definition refused :: "http_error + payment_charge \<Rightarrow> database \<Rightarrow> database \<Rightarrow> bool" where
  "refused r d d' \<longleftrightarrow> (\<exists>err. r = Inl err \<and> (\<forall>x i. err \<noteq> IssueFailed x i)) \<and>
     nextId d \<le> nextId d' \<and> d' = d\<lparr>nextId := nextId d'\<rparr>"

lemma refused_same [simp]: "refused (Inl err) d d \<longleftrightarrow> (\<forall>x i. err \<noteq> IssueFailed x i)"
  by (simp add: refused_def)

lemma refused_bump [simp]:
  "refused (Inl err) d (d\<lparr>nextId := Suc (nextId d)\<rparr>) \<longleftrightarrow> (\<forall>x i. err \<noteq> IssueFailed x i)"
  by (simp add: refused_def)

lemma decryptCredentials_Inl: "decryptCredentials dc ps g = Inl err \<Longrightarrow> \<exists>m. err = Internal m"
  by (auto simp: decryptCredentials_def Let_def split: option.splits if_splits)

lemma getAndValidateMethod_Inl:
  "getAndValidateMethod ads t m = Inl err \<Longrightarrow> (\<exists>m. err = NotFound m) \<or> (\<exists>m. err = Unprocessable m)"
  by (auto simp: getAndValidateMethod_def factory_get_def split: option.splits if_splits)

lemma resolvePixGateway_Inl: "resolvePixGateway e acc d = Inl err \<Longrightarrow> \<exists>m. err = NotFound m"
  by (auto simp: resolvePixGateway_def split: option.splits)

lemmas refusals = decryptCredentials_Inl getAndValidateMethod_Inl resolvePixGateway_Inl

lemma generic_outcome:
  assumes "issue_and_store e a inp cfg (generic_row e fc) fc ct w b (d\<lparr>nextId := n\<rparr>) = (r, d')"
    and "nextId d \<le> n" and "ch_version fc = 1"
  shows "charge_outcome (e_gen e) fc r d d'"
  using charge_outcome_issue [OF assms(1)] assms(2,3) by (blast intro: charge_outcome_shift same_request_rows ch_status_rows)

lemma pix_outcome:
  assumes "issue_and_store e a inp cfg (pix_row e fc base di chn) fc ct w b (d\<lparr>nextId := n\<rparr>) = (r, d')"
    and "nextId d \<le> n" and "ch_version fc = 1"
  shows "charge_outcome (e_gen e) fc r d d'"
  using charge_outcome_issue [OF assms(1)] assms(2,3) by (blast intro: charge_outcome_shift same_request_rows ch_status_rows)

lemma draw_txid_frame: "\<exists>t n. draw_txid e b d = (t, d\<lparr>nextId := n\<rparr>) \<and> nextId d \<le> n"
proof (cases b)
  case True
  then show ?thesis
    by (intro exI [of _ "Some (fst (generateTxid e d))"] exI [of _ "Suc (nextId d)"])
      (simp add: draw_txid_def generateTxid_def take_uuid_def)
next
  case False
  then show ?thesis
    by (intro exI [of _ None] exI [of _ "nextId d"]) (simp add: draw_txid_def)
qed

lemma issue_generic_cases:
  assumes "issue_generic e ct g a dto amount dueDate acc d = (r, d')"
  shows "refused r d d' \<or>
    (\<exists>fc. charge_outcome (e_gen e) fc r d d' \<and> charge_key fc = (dto_idempotencyKey dto, dto_paymentGatewayId dto) \<and>
       ch_contractId fc = ct_id ct \<and> ch_accountId fc = acc \<and> ch_method fc = dto_method dto \<and>
       ch_amount fc = amount)"
proof (cases "decryptCredentials (e_decrypt e) (e_parse e) g")
  case (Inl err)
  then show ?thesis
    using assms by (auto simp: issue_generic_def dest!: refusals)
next
  case (Inr cfg)
  obtain txid n where d1: "draw_txid e (dto_method dto = PIX \<or> dto_method dto = BOLEPIX) d
      = (txid, d\<lparr>nextId := n\<rparr>)" "nextId d \<le> n"
    using draw_txid_frame by blast
  show ?thesis
  proof (cases "creditor_of d ct")
    case None
    then have "r = Inl (Internal ''contract without creditor'')" "d' = d\<lparr>nextId := n\<rparr>"
      using assms Inr d1(1) by (simp_all add: issue_generic_def)
    then show ?thesis
      using d1(2) by (simp add: refused_def)
  next
    case (Some cr)
    define x where "x = (if dto_method dto = PIX \<or> dto_method dto = BOLEPIX then Some (pix_expiresAt e) else None)"
    define fc where "fc = blank_charge e acc (ct_id ct) (dto_paymentGatewayId dto) (dto_method dto) amount
      dueDate (dto_idempotencyKey dto) txid x"
    have "issue_and_store e a (mk_input ct cr (dto_method dto) amount dueDate (dto_idempotencyKey dto) txid x
        (debtor_address (ct_debtor ct))) cfg (generic_row e fc) fc ct (wallet_of d ct)
        (dto_method dto = PIX \<or> dto_method dto = BOLEPIX) (d\<lparr>nextId := n\<rparr>) = (r, d')"
      using assms Inr d1(1) Some by (simp add: issue_generic_def Let_def fc_def x_def)
    then have "charge_outcome (e_gen e) fc r d d'"
      using d1(2) by (rule generic_outcome) (simp add: fc_def)
    then show ?thesis
      unfolding fc_def by (intro disjI2 exI conjI) (assumption, simp_all)
  qed
qed

lemma createCharge_cases:
  assumes "createCharge e contractId dto acc d = (r, d')"
  shows "refused r d d' \<or>
    (\<exists>c. r = Inr c \<and> d' = d \<and>
         List.find (\<lambda>c. charge_key c = (dto_idempotencyKey dto, dto_paymentGatewayId dto)) (charges d)
           = Some c) \<or>
    (\<exists>fc amount ct. charge_outcome (e_gen e) fc r d d' \<and>
       number_string (dto_amount dto) = Some amount \<and> 0 < amount \<and>
       find_contract contractId acc d = Some ct \<and>
       charge_key fc = (dto_idempotencyKey dto, dto_paymentGatewayId dto) \<and>
       ch_contractId fc = contractId \<and> ch_accountId fc = acc \<and> ch_method fc = dto_method dto \<and>
       ch_amount fc = amount)"
proof (cases "\<exists>amount dueDate g a ct. number_string (dto_amount dto) = Some amount \<and> 0 < amount \<and>
    find_contract contractId acc d = Some ct \<and> issue_generic e ct g a dto amount dueDate acc d = (r, d')")
  case True
  then obtain amount dueDate g a ct where t: "number_string (dto_amount dto) = Some amount" "0 < amount"
    "find_contract contractId acc d = Some ct" "issue_generic e ct g a dto amount dueDate acc d = (r, d')"
    by blast
  have "ct_id ct = contractId" using find_contract_SomeD [OF t(3)] by simp
  then show ?thesis
    using issue_generic_cases [OF t(4)] t(1-3) by metis
next
  case False
  then show ?thesis
    using assms unfolding createCharge_def
    by (auto split: option.splits sum.splits if_splits dest!: refusals)
qed

lemma issue_pix_cases:
  assumes "issue_pix e ct w cr acc g base amount discount chn key d = (r, d')"
  shows "refused r d d' \<or>
    (\<exists>c. r = Inr c \<and> findExistingValidPix e (ct_id ct) (gw_id g) amount d = Some c \<and>
         charges d' = charges d \<and> settlements d' = settlements d \<and> nextId d \<le> nextId d' \<and>
         d' = registerAgreementFromIssuedCharge e ct (Some w) c (recordPixIssuedInteraction e ct c d)) \<or>
    (\<exists>fc. charge_outcome (e_gen e) fc r d d' \<and>
       findExistingValidPix e (ct_id ct) (gw_id g) amount d = None \<and>
       ch_paymentGatewayId fc = gw_id g \<and> (\<forall>k. key = Some k \<longrightarrow> ch_idempotencyKey fc = k) \<and>
       ch_contractId fc = ct_id ct \<and> ch_accountId fc = acc \<and> ch_method fc = PIX \<and>
       ch_amount fc = amount)"
proof (cases "findExistingValidPix e (ct_id ct) (gw_id g) amount d")
  case (Some c)
  then show ?thesis
    using assms nextId_interactions(1) [of d e ct c] by (auto simp: issue_pix_def)
next
  case None
  show ?thesis
  proof (cases "\<exists>cfg a. decryptCredentials (e_decrypt e) (e_parse e) g = Inr cfg \<and>
      getAndValidateMethod (e_adapters e) (gw_providerType g) PIX = Inr a")
    case False
    then show ?thesis
      using assms None unfolding issue_pix_def by (auto split: sum.splits dest!: refusals)
  next
    case True
    then obtain cfg a where t: "decryptCredentials (e_decrypt e) (e_parse e) g = Inr cfg"
      "getAndValidateMethod (e_adapters e) (gw_providerType g) PIX = Inr a" by blast
    define txid where "txid = fst (generateTxid e d)"
    define k where "k = (case key of Some k \<Rightarrow> k | None \<Rightarrow> e_gen e (Suc (nextId d)))"
    define n where "n = (case key of Some _ \<Rightarrow> Suc (nextId d) | None \<Rightarrow> Suc (Suc (nextId d)))"
    define due where "due = or_else (ct_dueDate ct) (e_now e)"
    define fc where "fc = blank_charge e acc (ct_id ct) (gw_id g) PIX amount due k (Some txid)
      (Some (pix_expiresAt e))"
    have "issue_and_store e a (mk_input ct cr PIX amount due k (Some txid) (Some (pix_expiresAt e)) None)
        cfg (pix_row e fc base discount chn) fc ct (Some w) True (d\<lparr>nextId := n\<rparr>) = (r, d')"
      using assms None t unfolding issue_pix_def fc_def n_def k_def txid_def due_def
      by (cases key) (simp_all add: generateTxid_def take_uuid_def Let_def)
    then have "charge_outcome (e_gen e) fc r d d'"
      by (rule pix_outcome) (simp_all add: fc_def n_def split: option.split)
    moreover have "ch_paymentGatewayId fc = gw_id g" "\<forall>k'. key = Some k' \<longrightarrow> ch_idempotencyKey fc = k'"
      "ch_contractId fc = ct_id ct" "ch_accountId fc = acc" "ch_method fc = PIX" "ch_amount fc = amount"
      by (simp_all add: fc_def blank_charge_def k_def)
    ultimately show ?thesis
      using None by blast
  qed
qed

section \<open>A sample database\<close>

text \<open>One creditor, wallet, contract and gateway, and a provider that answers every request.\<close>

definition sample_gen :: "nat \<Rightarrow> string" where
  "sample_gen n = ''id-'' @ show_nat n"

definition sample_http :: "string \<Rightarrow> bb_request \<Rightarrow> gateway_config \<Rightarrow> http_result" where
  "sample_http status rq cfg =
     SUCCESS (JObj [(''txid'', JStr ''tx1''), (''status'', JStr status), (''pixCopiaECola'', JStr ''pix'')]) 200"

definition sample_env :: "(bb_request \<Rightarrow> gateway_config \<Rightarrow> http_result) \<Rightarrow> env" where
  "sample_env http =
     \<lparr>e_now = 1000, e_gen = sample_gen, e_pixExpirationHours = None, e_gatewayEnvironment = SANDBOX,
      e_decrypt = Some, e_parse = (\<lambda>_. Some (JObj [(''clientId'', JStr ''c'')])),
      e_adapters = [bb_adapter http]\<rparr>"

definition sample_contract :: contract where
  "sample_contract =
     \<lparr>ct_id = ''c1'', ct_accountId = ''a1'', ct_walletId = ''w1'', ct_debtorDocument = ''52998224725'',
      ct_debtorDocumentHash = ''52998224725'', ct_debtorName = ''Ana'',
      ct_debtor = \<lparr>db_birthDate = None, db_email = None, db_phone = None, db_street = None,
        db_addressNumber = None, db_addressComplement = None, db_neighborhood = None,
        db_city = None, db_state = None, db_zipCode = None\<rparr>,
      ct_contractNumber = ''n1'', ct_debtType = OTHER, ct_occurrenceDate = 0, ct_agingDays = 0,
      ct_dueDate = None, ct_originalValue = 100, ct_updatedValue = 120,
      ct_product = \<lparr>pr_name = None, pr_adhesionDate = None, pr_debtOrigin = None,
        pr_debtOriginDocHash = None, pr_offer = JNull\<rparr>,
      ct_isNegativated = False,
      ct_cancelledAt = None, ct_cancellationReason = None,
      ct_offer = \<lparr>of_value = None, of_discountPercent = None, of_firstInstallmentDays = None,
        of_maxInstallments = None, of_maximumDiscountPercent = None, of_repasseValue = None,
        of_commissionPercent = None, of_commissionValue = None\<rparr>,
      ct_deduplicationKey = ''k1'', ct_serasaStatus = SE_NOT_ENABLED, ct_paymentStatus = PS_OPEN,
      ct_status = CT_ACTIVE, ct_debtId = None,
      ct_agreement = \<lparr>ag_reference = None, ag_totalAmount = None, ag_createdAt = None,
        ag_installments = JNull, ag_dueAt = None, ag_totalInstallments = None,
        ag_paidInstallments = 0\<rparr>,
      ct_totalPaidAmount = 0, ct_lastPaymentAt = None,
      ct_acceptedDiscountPercent = None, ct_agreedPaymentAmount = None,
      ct_deletedAt = None, ct_createdAt = 0\<rparr>"

definition sample_db :: database where
  "sample_db =
     \<lparr>wallets = [\<lparr>wl_id = ''w1'', wl_accountId = ''a1'', wl_creditorId = ''cr1'', wl_name = ''Carteira'',
        wl_serasaWalletExternalId = None, wl_cobcomDiscountPercent = 10,
        wl_offerFirstInstallmentDays = 5, wl_offerMinInstallmentValue = 1,
        wl_offerMaxInstallments = 1, wl_commissionPercent = 10, wl_defaultDebtType = OTHER,
        wl_smsTemplate = None, wl_discountBands = [], wl_active = True, wl_deletedAt = None\<rparr>],
      creditors = [\<lparr>cr_id = ''cr1'', cr_accountId = ''a1'', cr_name = ''Credor'', cr_tradeName = None, cr_cnpj = None,
        cr_commissionPercent = 10, cr_discountBands = [], cr_deletedAt = None\<rparr>],
      contracts = [sample_contract],
      gateways = [\<lparr>gw_id = ''g1'', gw_accountId = ''a1'', gw_name = ''BB'',
        gw_providerType = BANCO_DO_BRASIL, gw_environment = SANDBOX, gw_enabled = True,
        gw_supportedMethods = [PIX], gw_pixKey = None, gw_encryptedCredentials = ''x'',
        gw_timeoutMs = 30000, gw_maxRetries = 3, gw_createdAt = 0\<rparr>],
      charges = [], events = [], settlements = [], interactions = [], tags = [], operations = [],
      items = [],
      users = [\<lparr>us_id = ''u1'', us_accountId = ''a1'', us_creditorId = None, us_email = ''u@x'', us_name = None,
        us_passwordHash = None, us_role = ADMIN, us_isActive = True, us_mustResetPassword = False,
        us_createdAt = 0\<rparr>],
      providers = [\<lparr>pv_id = ''p1'', pv_accountId = ''a1'', pv_environment = PV_HOMOLOGATION,
        pv_credentials = ''x''\<rparr>],
      queue = [], webhooks = [], nextId = 0\<rparr>"

definition sample_dto :: create_charge_dto where
  "sample_dto = \<lparr>dto_paymentGatewayId = ''g1'', dto_method = PIX, dto_amount = ''100.50'',
     dto_dueDate = Some 5000, dto_idempotencyKey = ''k''\<rparr>"

abbreviation sample_ok :: env where
  "sample_ok \<equiv> sample_env (sample_http ''ATIVA'')"

abbreviation sample_timeout :: env where
  "sample_timeout \<equiv> sample_env (\<lambda>_ _. TIMEOUT)"

lemmas sample_defs = sample_gen_def sample_http_def sample_env_def sample_contract_def sample_db_def
  sample_dto_def

lemma inj_sample_gen: "inj sample_gen"
proof (rule injI)
  fix m n assume "sample_gen m = sample_gen n"
  then have "read_digits 0 (show_nat m) = read_digits 0 (show_nat n)"
    by (simp add: sample_gen_def)
  then show "m = n" by simp
qed

lemma sample_db_ok: "payments_ok gen sample_db"
  by (simp add: payments_ok_def unique_keys_def fresh_ids_def sample_db_def)

lemma ok_outcome: "is_ok r \<Longrightarrow> r = (Inr (projr (fst r)), snd r)"
  by (cases r; cases "fst r") (auto simp: is_ok_def)

lemmas charge_eval = sample_defs createCharge_def find_gateway_def find_contract_def
  getAndValidateMethod_def factory_get_def has_method_def bb_adapter_def bb_getCapabilities_def
  issue_generic_def decryptCredentials_def draw_txid_def generateTxid_def take_uuid_def
  creditor_of_def wallet_of_def issue_and_store_def bb_issue_def mapCobResponse_def json_string_def
  create_charge_def charge_key_def generic_row_def blank_charge_def handleAdapterError_def
  failure_of_def issue_failed_def is_ok_def new_charge_row_def

lemma sample_amount: "number_string ''100.50'' = Some (201/2)"
  by (simp add: number_string_def split_sign_def is_digit_def code_def digit_val_def)

lemma sample_createCharge_ok: "is_ok (createCharge sample_ok ''c1'' sample_dto ''a1'' sample_db)"
  by (simp add: charge_eval sample_amount Let_def)

lemma sample_createCharge_timeout:
  "fst (createCharge sample_timeout ''c1'' sample_dto ''a1'' sample_db)
     = Inl (IssueFailed ''PROVIDER_NOT_PROCESSED'' ''id-1'')"
  by (simp add: charge_eval sample_amount Let_def show_nat.simps js_simps)

text \<open>
  C1. A call of the generic issuance that answers with a charge answers with the charge of its
  idempotency key and gateway: either the one that was there, and nothing is written, or a new
  \<open>ISSUED\<close> charge of the contract, the method and the (positive) amount asked for, rounded to cents,
  appended to the table, for a contract of the account.
\<close>

theorem createCharge_result:
  assumes "createCharge e contractId dto acc d = (Inr c, d')"
  shows "charge_key c = (dto_idempotencyKey dto, dto_paymentGatewayId dto) \<and>
    ((c \<in> set (charges d) \<and> d' = d) \<or>
     (charges d' = charges d @ [c] \<and> settlements d' = settlements d \<and> ch_status c = CH_ISSUED \<and>
      ch_contractId c = contractId \<and> ch_method c = dto_method dto \<and>
      (\<exists>a. number_string (dto_amount dto) = Some a \<and> 0 < a \<and> ch_amount c = dec2 a) \<and>
      (\<exists>ct. find_contract contractId acc d = Some ct)))"
  using createCharge_cases [OF assms]
  by (auto simp: refused_def charge_outcome_def dest!: find_SomeD)

lemma createCharge_result_witness:
  "let (r, d') = createCharge sample_ok ''c1'' sample_dto ''a1'' sample_db; c = projr r
   in charge_key c = (''k'', ''g1'') \<and> (c \<in> set (charges sample_db) \<and> d' = sample_db \<or>
      charges d' = charges sample_db @ [c] \<and> settlements d' = settlements sample_db)"
  using createCharge_result [OF ok_outcome [OF sample_createCharge_ok]]
  by (auto simp: Let_def split_beta sample_dto_def)

lemma issue_failed_row:
  assumes "charge_key fc \<notin> charge_key ` set (charges d)" and "failure_of err = (s, fcode, msg)"
  shows "\<exists>c d' ev. issue_failed (handleAdapterError e err fc d) =
      (Inl (IssueFailed (or_else fcode ''PROVIDER_NOT_PROCESSED'') (ch_id c)), d') \<and>
    charges d' = charges d @ [c] \<and> same_request c (fc\<lparr>ch_amount := dec2 (ch_amount fc)\<rparr>) \<and>
    ch_status c = s \<and> ch_failureCode c = fcode \<and> contracts d' = contracts d \<and> settlements d' = settlements d \<and>
    events d' = events d @ [ev] \<and> ev_paymentChargeId ev = ch_id c \<and> ev_toStatus ev = s"
proof -
  let ?r = "fc\<lparr>ch_status := s, ch_failureCode := fcode, ch_failureMessage := msg,
               ch_attributedChannel := Some COBCOM\<rparr>"
  have "charge_key ?r = charge_key fc" by (simp add: charge_key_def)
  then obtain c d1 where c: "create_charge (e_gen e) ?r d = Some (c, d1)"
    using charge_table.insert_free [of ?r d "e_gen e"] assms(1) by auto
  have same: "same_request (?r\<lparr>ch_amount := a\<rparr>) (fc\<lparr>ch_amount := a\<rparr>)" for a
    by (simp add: same_request_def charge_key_def)
  have row: "ch_failureCode c = fcode" "same_request c (fc\<lparr>ch_amount := dec2 (ch_amount fc)\<rparr>)"
    using create_charge_frame(9) [OF c] create_charge_new(1) [OF c] same [of "dec2 (ch_amount fc)"]
    by (simp_all add: new_charge_row_def same_request_def)
  let ?d = "createPaymentEvent e (ch_id c) None s EV_MANUAL JNull d1"
  have "issue_failed (handleAdapterError e err fc d) =
      (Inl (IssueFailed (or_else fcode ''PROVIDER_NOT_PROCESSED'') (ch_id c)), ?d)"
    using c assms(2) row(1) by (simp add: handleAdapterError_def issue_failed_def)
  moreover have "events ?d = events d @ [\<lparr>ev_id = e_gen e (nextId d1), ev_paymentChargeId = ch_id c,
      ev_fromStatus = None, ev_toStatus = s, ev_source = EV_MANUAL, ev_metadata = JNull\<rparr>]"
    using create_charge_frame(3) [OF c] by (simp add: createPaymentEvent_def create_event_def)
  ultimately show ?thesis
    using create_charge_frame [OF c] create_charge_new(2) [OF c] row
    by (intro exI [of _ c] exI [of _ ?d] exI conjI) (assumption | simp)+
qed

text \<open>
  C2. When the provider refuses a new charge, whatever its exception, the caller gets the structured
  422, which names the charge appended for it: the contract, the method, the key and the amount asked
  for, \<open>PENDING\<close> after a timeout and \<open>FAILED\<close> after any other error, with the code of the error, and
  one event. Contracts and settlements stay as they were.
\<close>

theorem createCharge_failure:
  assumes "number_string (dto_amount dto) = Some amount" and "0 < amount" and "dto_dueDate dto = Some due"
    and "find_gateway (dto_paymentGatewayId dto) acc d = Some g"
    and "getAndValidateMethod (e_adapters e) (gw_providerType g) (dto_method dto) = Inr a"
    and new: "(dto_idempotencyKey dto, dto_paymentGatewayId dto) \<notin> charge_key ` set (charges d)"
    and "find_contract contractId acc d = Some ct" and "creditor_of d ct = Some cr"
    and "decryptCredentials (e_decrypt e) (e_parse e) g = Inr cfg"
    and fails: "\<And>inp. in_contractId inp = contractId \<Longrightarrow> in_idempotencyKey inp = dto_idempotencyKey dto \<Longrightarrow>
      pa_issue a (e_now e) inp cfg = Inl err"
  shows "\<exists>c d' ev. createCharge e contractId dto acc d =
      (Inl (IssueFailed (or_else (ch_failureCode c) ''PROVIDER_NOT_PROCESSED'') (ch_id c)), d') \<and>
    charges d' = charges d @ [c] \<and> ch_contractId c = contractId \<and> ch_accountId c = acc \<and>
    charge_key c = (dto_idempotencyKey dto, dto_paymentGatewayId dto) \<and> ch_method c = dto_method dto \<and>
    ch_amount c = dec2 amount \<and> ch_status c = (if err = BbTimeoutError then CH_PENDING else CH_FAILED) \<and>
    ch_failureCode c = (case err of BbTimeoutError \<Rightarrow> None | BbRateLimitedError \<Rightarrow> Some ''RATE_LIMITED''
      | BbProviderError fcode _ \<Rightarrow> Some fcode | OtherError _ \<Rightarrow> Some ''UNKNOWN_ERROR'') \<and>
    events d' = events d @ [ev] \<and> ev_paymentChargeId ev = ch_id c \<and> ev_toStatus ev = ch_status c \<and>
    contracts d' = contracts d \<and> settlements d' = settlements d"
proof -
  let ?pix = "dto_method dto = PIX \<or> dto_method dto = BOLEPIX"
  obtain txid n where n: "draw_txid e ?pix d = (txid, d\<lparr>nextId := n\<rparr>)"
    using draw_txid_frame by blast
  define x where "x = (if ?pix then Some (pix_expiresAt e) else None)"
  define fc where "fc = blank_charge e acc contractId (dto_paymentGatewayId dto) (dto_method dto) amount
    due (dto_idempotencyKey dto) txid x"
  have id: "ct_id ct = contractId" using find_contract_SomeD assms(7) by blast
  have none: "List.find (\<lambda>c. charge_key c = (dto_idempotencyKey dto, dto_paymentGatewayId dto)) (charges d) = None"
    using new by (force simp: find_None_iff)
  have run: "createCharge e contractId dto acc d = issue_failed (handleAdapterError e err fc (d\<lparr>nextId := n\<rparr>))"
    using assms(1-5,7-9) none n id unfolding createCharge_def issue_generic_def issue_and_store_def
    by (simp add: Let_def fc_def x_def fails mk_input_def)
  obtain s fcode msg where f: "failure_of err = (s, fcode, msg)" by (cases "failure_of err") auto
  have s: "s = (if err = BbTimeoutError then CH_PENDING else CH_FAILED)"
    "fcode = (case err of BbTimeoutError \<Rightarrow> None | BbRateLimitedError \<Rightarrow> Some ''RATE_LIMITED''
      | BbProviderError fcode _ \<Rightarrow> Some fcode | OtherError _ \<Rightarrow> Some ''UNKNOWN_ERROR'')"
    using f by (auto simp: failure_of_def split: adapter_error.splits)
  have "charge_key fc \<notin> charge_key ` set (charges (d\<lparr>nextId := n\<rparr>))" using new by (simp add: fc_def)
  from issue_failed_row [OF this f, of e] obtain c d' ev where
    "createCharge e contractId dto acc d =
      (Inl (IssueFailed (or_else (ch_failureCode c) ''PROVIDER_NOT_PROCESSED'') (ch_id c)), d')"
    "charges d' = charges d @ [c]" "same_request c (fc\<lparr>ch_amount := dec2 (ch_amount fc)\<rparr>)"
    "ch_status c = s" "ch_failureCode c = fcode" "contracts d' = contracts d" "settlements d' = settlements d"
    "events d' = events d @ [ev]" "ev_paymentChargeId ev = ch_id c" "ev_toStatus ev = s"
    unfolding run by auto
  then show ?thesis
    unfolding s [symmetric] by (intro exI [of _ c] exI [of _ d'] exI [of _ ev]) (auto simp: same_request_def fc_def)
qed

lemma createCharge_failure_witness:
  "\<exists>c d' ev. createCharge sample_timeout ''c1'' sample_dto ''a1'' sample_db =
      (Inl (IssueFailed ''PROVIDER_NOT_PROCESSED'' (ch_id c)), d') \<and> charges d' = [c] \<and>
    ch_status c = CH_PENDING \<and> ch_contractId c = ''c1'' \<and> events d' = [ev]"
proof -
  have "number_string (dto_amount sample_dto) = Some (201 / 2)"
    by (simp add: sample_dto_def sample_amount)
  note applied = createCharge_failure [OF this, where d = sample_db and acc = "''a1''" and e = sample_timeout and
      contractId = "''c1''" and a = "bb_adapter (\<lambda>_ _. TIMEOUT)" and err = BbTimeoutError]
  have "creditor_of sample_db sample_contract \<noteq> None"
    by (simp add: charge_eval)
  then obtain cr where cr: "creditor_of sample_db sample_contract = Some cr" by blast
  obtain cfg where cfg: "decryptCredentials (e_decrypt sample_timeout) (e_parse sample_timeout)
      (hd (gateways sample_db)) = Inr cfg"
    by (simp add: charge_eval)
  have "find_contract ''c1'' ''a1'' sample_db = Some sample_contract"
    "find_gateway (dto_paymentGatewayId sample_dto) ''a1'' sample_db = Some (hd (gateways sample_db))"
    by (simp_all add: charge_eval)
  note found = this
  have fields: "dto_dueDate sample_dto = Some 5000" "charges sample_db = []" "events sample_db = []"
    "getAndValidateMethod (e_adapters sample_timeout) (gw_providerType (hd (gateways sample_db)))
      (dto_method sample_dto) = Inr (bb_adapter (\<lambda>_ _. TIMEOUT))"
    "pa_issue (bb_adapter (\<lambda>_ _. TIMEOUT)) (e_now sample_timeout) inp cfg = Inl BbTimeoutError" for inp
    by (simp_all add: charge_eval)
  from applied [OF _ fields(1) found(2) fields(4) _ found(1) cr cfg fields(5)] show ?thesis
    unfolding fields(2,3) by force
qed

lemma createCharge_replay_existing:
  assumes "createCharge e contractId dto acc d = (r, d')"
    and "(\<exists>c. r = Inr c) \<or> (\<exists>x i. r = Inl (IssueFailed x i))"
  shows "number_string (dto_amount dto) \<noteq> None \<and> 0 < the (number_string (dto_amount dto)) \<and>
    dto_dueDate dto \<noteq> None \<and>
    (\<exists>g a. find_gateway (dto_paymentGatewayId dto) acc d = Some g \<and>
       getAndValidateMethod (e_adapters e) (gw_providerType g) (dto_method dto) = Inr a)"
  using assms unfolding createCharge_def
  by (auto split: option.splits sum.splits if_splits dest!: refusals)

lemma find_gateway_cong: "gateways d' = gateways d \<Longrightarrow> find_gateway i acc d' = find_gateway i acc d"
  by (simp add: find_gateway_def)

lemma createCharge_existing:
  assumes "number_string (dto_amount dto) = Some a" and "0 < a" and "dto_dueDate dto = Some t"
    and "find_gateway (dto_paymentGatewayId dto) acc d = Some g"
    and "getAndValidateMethod (e_adapters e) (gw_providerType g) (dto_method dto) = Inr ad"
    and "List.find (\<lambda>c. charge_key c = (dto_idempotencyKey dto, dto_paymentGatewayId dto)) (charges d) = Some c"
  shows "createCharge e contractId dto acc d = (Inr c, d)"
  using assms by (simp add: createCharge_def)

text \<open>
  C3. Repeating a request is idempotent: once a request has stored a charge, issued or failed, any
  later request with the same key on the same gateway answers with that charge and writes nothing,
  whatever the provider would answer now. The contract of the later request plays no part in it.
\<close>

theorem createCharge_idempotent:
  assumes "createCharge e contractId dto acc d = (r, d')"
    and "(\<exists>c. r = Inr c) \<or> (\<exists>x i. r = Inl (IssueFailed x i))"
    and "e_adapters e2 = e_adapters e"
  shows "\<exists>c. createCharge e2 otherContract dto acc d' = (Inr c, d') \<and>
    (r = Inr c \<or> (\<exists>x. r = Inl (IssueFailed x (ch_id c))))"
proof -
  let ?key = "(dto_idempotencyKey dto, dto_paymentGatewayId dto)"
  have stored: "\<exists>c. List.find (\<lambda>c. charge_key c = ?key) (charges d') = Some c \<and>
      (r = Inr c \<or> (\<exists>x. r = Inl (IssueFailed x (ch_id c)))) \<and> gateways d' = gateways d"
    using createCharge_cases [OF assms(1)]
  proof (elim disjE)
    assume "refused r d d'"
    then show ?thesis using assms(2) by (auto simp: refused_def)
  next
    assume "\<exists>fc amount ct. charge_outcome (e_gen e) fc r d d' \<and> number_string (dto_amount dto) = Some amount \<and>
      0 < amount \<and> find_contract contractId acc d = Some ct \<and> charge_key fc = ?key \<and>
      ch_contractId fc = contractId \<and> ch_accountId fc = acc \<and> ch_method fc = dto_method dto \<and>
      ch_amount fc = amount"
    then obtain c where "charges d' = charges d @ [c]" "charge_key c = ?key"
      "?key \<notin> charge_key ` set (charges d)" "gateways d' = gateways d"
      "r = Inr c \<or> (\<exists>x. r = Inl (IssueFailed x (ch_id c)))"
      using assms(2) by (auto simp: charge_outcome_def)
    then show ?thesis
      using find_key_append [of charge_key c ?key "charges d"] by auto
  qed auto
  show ?thesis
  proof -
    obtain c where c: "List.find (\<lambda>c. charge_key c = ?key) (charges d') = Some c"
      "r = Inr c \<or> (\<exists>x. r = Inl (IssueFailed x (ch_id c)))" "gateways d' = gateways d"
      using stored by blast
    obtain a t g ad where g: "number_string (dto_amount dto) = Some a" "0 < a" "dto_dueDate dto = Some t"
      "find_gateway (dto_paymentGatewayId dto) acc d' = Some g"
      "getAndValidateMethod (e_adapters e2) (gw_providerType g) (dto_method dto) = Inr ad"
      using createCharge_replay_existing [OF assms(1,2)] assms(3) find_gateway_cong [OF c(3)] by auto
    show ?thesis
      using createCharge_existing [OF g c(1)] c(2) by blast
  qed
qed

lemma createCharge_idempotent_witness:
  "\<exists>c. createCharge sample_timeout ''other'' sample_dto ''a1''
         (snd (createCharge sample_timeout ''c1'' sample_dto ''a1'' sample_db)) =
       (Inr c, snd (createCharge sample_timeout ''c1'' sample_dto ''a1'' sample_db)) \<and>
     ch_id c = ''id-1''"
proof -
  have "createCharge sample_timeout ''c1'' sample_dto ''a1'' sample_db =
      (Inl (IssueFailed ''PROVIDER_NOT_PROCESSED'' ''id-1''),
       snd (createCharge sample_timeout ''c1'' sample_dto ''a1'' sample_db))"
    using sample_createCharge_timeout by (metis prod.collapse)
  from createCharge_idempotent [OF this _ refl, of "''other''"] show ?thesis by auto
qed

section \<open>Pix, pricing and the agreement\<close>

lemma resolvePixPricing_fallback:
  assumes "of_value (ct_offer ct) = None" and "0 \<le> wl_cobcomDiscountPercent w"
    and "wl_cobcomDiscountPercent w \<le> 100" and "ct_updatedValue ct = of_int cents / 100" and "0 \<le> cents"
    and "resolvePixPricing ct w = (base, amount, discount)"
  shows "base = ct_updatedValue ct" and "0 \<le> amount" and "amount \<le> ct_updatedValue ct"
proof -
  let ?b = "ct_updatedValue ct" and ?p = "wl_cobcomDiscountPercent w"
  have b: "0 \<le> ?b" using assms(4,5) by simp
  have r: "base = ?b" "amount = dec2 (?b * (100 - ?p) / 100)"
    using assms(1,6) by (auto simp: resolvePixPricing_def Let_def)
  have "0 \<le> ?b * (100 - ?p)" "?b * (100 - ?p) \<le> ?b * 100"
    using assms(2,3) b by (auto intro!: mult_left_mono mult_nonneg_nonneg)
  then have "0 \<le> ?b * (100 - ?p) / 100" "?b * (100 - ?p) / 100 \<le> ?b"
    by (simp_all only: divide_nonneg_pos pos_divide_le_eq zero_less_numeral)
  then have "0 \<le> ?b * (100 - ?p) / 100" "?b * (100 - ?p) / 100 \<le> of_int cents / 100"
    unfolding assms(4) .
  from dec2_bounds [OF this] show "base = ?b" "0 \<le> amount" "amount \<le> ?b"
    using r assms(4) by simp_all
qed

text \<open>
  C5. The price of a Pix: without an offer snapshot it is the updated value less the discount of the
  wallet, never negative and never above the debt, and the reported base is the updated value; with
  an offer it is the offer. (The requirements, 5.9 and 5.14, the design of the module and the comment of
  \<open>createPixForContract\<close> still have every Pix charge the full updated value; the code prices it
  by the offer and the discount.)
\<close>

theorem resolvePixPricing_bounds:
  assumes "0 \<le> wl_cobcomDiscountPercent w" and "wl_cobcomDiscountPercent w \<le> 100"
    and "ct_updatedValue ct = of_int cents / 100" and "0 \<le> cents"
  shows "case resolvePixPricing ct w of (base, amount, discount) \<Rightarrow>
    base = ct_updatedValue ct \<and>
    (case of_value (ct_offer ct) of
       Some v \<Rightarrow> amount = v
     | None \<Rightarrow> 0 \<le> amount \<and> amount \<le> base \<and>
         \<bar>amount - base * (100 - wl_cobcomDiscountPercent w) / 100\<bar> \<le> 1 / 200)"
proof (cases "of_value (ct_offer ct)")
  case (Some v)
  then show ?thesis by (simp add: resolvePixPricing_def Let_def)
next
  case None
  obtain base amount discount where r: "resolvePixPricing ct w = (base, amount, discount)"
    by (cases "resolvePixPricing ct w") auto
  let ?x = "ct_updatedValue ct * (100 - wl_cobcomDiscountPercent w) / 100"
  have "0 \<le> ?x" using assms by simp
  then have "amount = js_round2 ?x"
    using r None by (auto simp: resolvePixPricing_def Let_def dec2_nonneg)
  then show ?thesis
    using resolvePixPricing_fallback [OF None assms r] r None js_round2_error [of ?x] by simp
qed

lemma resolvePixPricing_bounds_witness:
  "case resolvePixPricing sample_contract (hd (wallets sample_db)) of (base, amount, discount) \<Rightarrow>
     base = 120 \<and> 0 \<le> amount \<and> amount \<le> base"
  using resolvePixPricing_bounds [of "hd (wallets sample_db)" sample_contract 12000]
  by (auto simp: sample_db_def sample_contract_def)

definition pix_contract :: "string \<Rightarrow> string \<Rightarrow> pix_options \<Rightarrow> database \<Rightarrow> contract option" where
  \<comment> \<open>the contract \<open>createPixForContract\<close> works on\<close>
  "pix_contract contractId acc opt d =
     List.find (\<lambda>c. ct_id c = contractId \<and> ct_accountId c = acc \<and> ct_deletedAt c = None \<and>
                    creditor_filter (po_creditorId opt) c d) (contracts d)"

definition asked_amount :: "pix_options \<Rightarrow> contract \<Rightarrow> wallet \<Rightarrow> rat" where
  \<comment> \<open>what a Pix for the contract has to cost: the agreement, the offer, or the discounted debt\<close>
  "asked_amount opt ct w =
     (if po_agreementAmountOnly opt then the (ag_totalAmount (ct_agreement ct))
      else case of_value (ct_offer ct) of
             Some v \<Rightarrow> v
           | None \<Rightarrow> dec2 (ct_updatedValue ct * (100 - wl_cobcomDiscountPercent w) / 100))"

lemma createPixForContract_cases:
  assumes "createPixForContract e contractId acc opt d = (r, d')"
  shows "refused r d d' \<or>
    (\<exists>ct w cr g base amount discount. pix_contract contractId acc opt d = Some ct \<and>
       ct_paymentStatus ct \<noteq> PS_PAID \<and> 0 < ct_updatedValue ct \<and> 0 < amount \<and>
       wallet_of d ct = Some w \<and> amount = asked_amount opt ct w \<and>
       (po_agreementAmountOnly opt \<longrightarrow> ag_totalAmount (ct_agreement ct) \<noteq> None) \<and>
       resolvePixGateway e acc d = Inr g \<and>
       issue_pix e ct w cr acc g base amount discount COBCOM None d = (r, d'))"
  using assms unfolding createPixForContract_def pix_contract_def asked_amount_def resolvePixPricing_def
  by (auto simp: Let_def split: option.splits sum.splits if_splits prod.splits dest!: refusals) blast+

lemma createPixByDocument_cases:
  assumes "createPixByDocument e document contractNumber key acc creditorId d = (r, d')"
  shows "refused r d d' \<or>
    (\<exists>ct c. r = Inr c \<and> d' = d \<and> c \<in> set (charges d) \<and> ch_contractId c = ct_id ct \<and>
       ch_idempotencyKey c = key \<and> ct \<in> set (contracts d) \<and> ct_debtorDocument ct = digits_only document) \<or>
    (\<exists>ct w cr g base amount discount. ct \<in> set (contracts d) \<and> ct_accountId ct = acc \<and>
       ct_debtorDocument ct = digits_only document \<and> ct_contractNumber ct = contractNumber \<and>
       ct_status ct = CT_ACTIVE \<and> ct_paymentStatus ct \<noteq> PS_PAID \<and> ct_deletedAt ct = None \<and>
       resolvePixGateway e acc d = Inr g \<and>
       issue_pix e ct w cr acc g base amount discount LANDING_PAGE (Some key) d = (r, d'))"
proof (cases "length (digits_only document) \<noteq> 11 \<and> length (digits_only document) \<noteq> 14")
  case True
  then show ?thesis using assms by (auto simp: createPixByDocument_def Let_def)
next
  case False
  let ?P = "\<lambda>c. ct_accountId c = acc \<and> ct_debtorDocument c = digits_only document \<and>
    ct_contractNumber c = contractNumber \<and> ct_status c = CT_ACTIVE \<and> ct_paymentStatus c \<noteq> PS_PAID \<and>
    ct_deletedAt c = None \<and> 0 < ct_updatedValue c \<and> creditor_filter creditorId c d"
  consider "filter ?P (contracts d) = []" | ct where "filter ?P (contracts d) = [ct]"
    | a b cs where "filter ?P (contracts d) = a # b # cs"
    by (cases "filter ?P (contracts d)" rule: remdups_adj.cases) auto
  then show ?thesis
  proof cases
    case (2 ct)
    then have "ct \<in> set (filter ?P (contracts d))" by simp
    then have ct: "ct \<in> set (contracts d)" "?P ct" by simp_all
    show ?thesis
    proof (cases "\<exists>w cr g base amount discount. resolvePixGateway e acc d = Inr g \<and>
        issue_pix e ct w cr acc g base amount discount LANDING_PAGE (Some key) d = (r, d')")
      case True
      then show ?thesis using ct by blast
    next
      case no: False
      have "refused r d d' \<or> (\<exists>c. r = Inr c \<and> d' = d \<and> c \<in> set (charges d) \<and> ch_contractId c = ct_id ct \<and>
          ch_idempotencyKey c = key)"
        using assms 2 False no unfolding createPixByDocument_def
        by (auto simp: Let_def split: option.splits sum.splits prod.splits
            dest!: resolvePixGateway_Inl find_SomeD)
      then show ?thesis using ct by blast
    qed
  qed (use assms False in \<open>auto simp: createPixByDocument_def Let_def\<close>)
qed

definition valid_pix :: "env \<Rightarrow> string \<Rightarrow> payment_charge \<Rightarrow> bool" where
  \<comment> \<open>a Pix of the contract that can still be paid\<close>
  "valid_pix e contractId c \<longleftrightarrow> ch_contractId c = contractId \<and> ch_method c = PIX \<and>
     ch_status c = CH_ISSUED \<and> (\<exists>t. ch_expiresAt c = Some t \<and> e_now e < t)"

lemma findExistingValidPix_SomeD:
  "findExistingValidPix e i g a d = Some c \<Longrightarrow>
     c \<in> set (charges d) \<and> valid_pix e i c \<and> ch_paymentGatewayId c = g \<and> ch_amount c = a"
  by (auto simp: findExistingValidPix_def valid_pix_def dest!: first_desc_SomeD split: option.splits)

lemma findExistingValidPix_None:
  "findExistingValidPix e i g a d = None \<Longrightarrow> c \<in> set (charges d) \<Longrightarrow> valid_pix e i c \<Longrightarrow>
     ch_paymentGatewayId c = g \<Longrightarrow> ch_amount c \<noteq> a"
  by (auto simp: findExistingValidPix_def valid_pix_def first_desc_None)

lemma findExistingValidPix_newest:
  assumes "findExistingValidPix e i g a d = Some c" and "x \<in> set (charges d)" and "valid_pix e i x"
    and "ch_paymentGatewayId x = g" and "ch_amount x = a"
  shows "ch_createdAt x \<le> ch_createdAt c"
  using first_desc_greatest [OF assms(1) [unfolded findExistingValidPix_def] assms(2)] assms(3-5)
  by (auto simp: valid_pix_def)

lemma pix_contract_SomeD:
  "pix_contract i acc opt d = Some ct \<Longrightarrow>
     ct \<in> set (contracts d) \<and> ct_id ct = i \<and> ct_accountId ct = acc \<and> ct_deletedAt ct = None"
  by (auto simp: pix_contract_def dest: find_SomeD)

text \<open>
  C4. A Pix for a contract is only ever produced for a live contract of the account that is not paid
  and still owes something, and it costs what the contract asks for: the amount of its agreement when
  that was requested, otherwise its offer, otherwise its updated value less the discount of the
  wallet. The answer is an \<open>ISSUED\<close> Pix of that contract on the gateway: when charges of that amount
  can still be paid, the newest of them is returned and none is added; otherwise one is appended.
  Settlements are never touched.
\<close>

theorem createPixForContract_result:
  assumes "createPixForContract e contractId acc opt d = (Inr c, d')"
  shows "\<exists>ct w g. pix_contract contractId acc opt d = Some ct \<and> wallet_of d ct = Some w \<and>
    ct_paymentStatus ct \<noteq> PS_PAID \<and> 0 < ct_updatedValue ct \<and> 0 < asked_amount opt ct w \<and>
    resolvePixGateway e acc d = Inr g \<and> ch_paymentGatewayId c = gw_id g \<and>
    ch_contractId c = contractId \<and> ch_method c = PIX \<and> ch_status c = CH_ISSUED \<and>
    settlements d' = settlements d \<and>
    (let usable = filter (\<lambda>x. valid_pix e contractId x \<and> ch_paymentGatewayId x = gw_id g \<and>
                              ch_amount x = asked_amount opt ct w) (charges d)
     in if usable = []
        then charges d' = charges d @ [c] \<and> ch_amount c = dec2 (asked_amount opt ct w)
        else charges d' = charges d \<and> c \<in> set usable \<and> (\<forall>x \<in> set usable. ch_createdAt x \<le> ch_createdAt c))"
proof -
  obtain ct w cr g base discount where p: "pix_contract contractId acc opt d = Some ct" "wallet_of d ct = Some w"
    "ct_paymentStatus ct \<noteq> PS_PAID" "0 < ct_updatedValue ct" "0 < asked_amount opt ct w"
    "resolvePixGateway e acc d = Inr g"
    "issue_pix e ct w cr acc g base (asked_amount opt ct w) discount COBCOM None d = (Inr c, d')"
    using createPixForContract_cases [OF assms] by (auto simp: refused_def)
  let ?a = "asked_amount opt ct w"
  let ?usable = "filter (\<lambda>x. valid_pix e contractId x \<and> ch_paymentGatewayId x = gw_id g \<and> ch_amount x = ?a) (charges d)"
  have id: "ct_id ct = contractId" using pix_contract_SomeD [OF p(1)] by simp
  have cases: "(findExistingValidPix e contractId (gw_id g) ?a d = Some c \<and> charges d' = charges d \<and>
         settlements d' = settlements d) \<or>
    (findExistingValidPix e contractId (gw_id g) ?a d = None \<and> charges d' = charges d @ [c] \<and>
     settlements d' = settlements d \<and> ch_contractId c = contractId \<and> ch_method c = PIX \<and>
     ch_status c = CH_ISSUED \<and> ch_amount c = dec2 ?a \<and> ch_paymentGatewayId c = gw_id g)"
    using issue_pix_cases [OF p(7)] id by (auto simp: refused_def charge_outcome_def charge_key_def)
  show ?thesis
  proof (intro exI [of _ ct] exI [of _ w] exI [of _ g] conjI)
    show "let usable = ?usable in if usable = [] then charges d' = charges d @ [c] \<and> ch_amount c = dec2 ?a
        else charges d' = charges d \<and> c \<in> set usable \<and> (\<forall>x \<in> set usable. ch_createdAt x \<le> ch_createdAt c)"
      using cases findExistingValidPix_SomeD [of e contractId "gw_id g" ?a d c]
        findExistingValidPix_newest [of e contractId "gw_id g" ?a d c]
        findExistingValidPix_None [of e contractId "gw_id g" ?a d]
      unfolding Let_def filter_empty_conv by auto
  qed (use p cases findExistingValidPix_SomeD [of e contractId "gw_id g" ?a d c] in \<open>auto simp: valid_pix_def\<close>)
qed

lemmas pix_eval = charge_eval createPixForContract_def creditor_filter_def resolvePixPricing_def
  resolvePixGateway_def issue_pix_def findExistingValidPix_def first_desc_def mk_input_def pix_row_def
  pix_expiresAt_def parse_int_def split_sign_def

definition plain_pix :: pix_options where
  "plain_pix = \<lparr>po_agreementAmountOnly = False, po_creditorId = ''''\<rparr>"

lemma dec2_108: "dec2 108 = 108"
  by (simp add: dec2_def floor_unique)

lemma dec2_10: "dec2 10 = 10"
  by (simp add: dec2_def floor_unique)

lemma sample_pix_ok: "is_ok (createPixForContract sample_ok ''c1'' ''a1'' plain_pix sample_db)"
  by (simp add: pix_eval plain_pix_def dec2_108 dec2_10 Let_def)

lemma createPixForContract_result_witness:
  "let (r, d') = createPixForContract sample_ok ''c1'' ''a1'' plain_pix sample_db; c = projr r
   in ch_contractId c = ''c1'' \<and> ch_status c = CH_ISSUED \<and> charges d' = [c] \<and> ch_amount c = 108"
  using createPixForContract_result [OF ok_outcome [OF sample_pix_ok]]
  by (auto simp: Let_def split_beta sample_db_def pix_contract_def sample_contract_def wallet_of_def
      asked_amount_def plain_pix_def dec2_108 creditor_filter_def)

lemma registerAgreement_kept:
  assumes "ct_paymentStatus ct \<in> {PS_PAID, PS_INSTALLMENT} \<or>
    (ct_paymentStatus ct = PS_IN_AGREEMENT \<and> ag_dueAt (ct_agreement ct) \<noteq> None)"
  shows "registerAgreementFromIssuedCharge e ct w c d = d"
  using assms by (auto simp: registerAgreementFromIssuedCharge_def)

definition agreement_open :: "contract \<Rightarrow> bool" where
  \<comment> \<open>an issued charge registers an agreement on this contract\<close>
  "agreement_open ct \<longleftrightarrow> \<not> (ct_paymentStatus ct \<in> {PS_PAID, PS_INSTALLMENT} \<or>
     (ct_paymentStatus ct = PS_IN_AGREEMENT \<and> ag_dueAt (ct_agreement ct) \<noteq> None))"

definition agreement_effect ::
  "int \<Rightarrow> contract \<Rightarrow> http_error + payment_charge \<Rightarrow> contract list \<Rightarrow> contract list \<Rightarrow> bool" where
  "agreement_effect now ct r cs cs' \<longleftrightarrow> cs' = cs \<or>
     (agreement_open ct \<and> (\<exists>c dueAt. r = Inr c \<and> now + 86400000 \<le> dueAt \<and>
        cs' = update_where (\<lambda>x. ct_id x = ct_id ct) (agreement_projection now dueAt c) cs))"

lemma agreement_effect_same [simp]: "agreement_effect now ct r cs cs"
  by (simp add: agreement_effect_def)

lemma agreement_effect_register:
  assumes "contracts d = cs"
  shows "agreement_effect (e_now e) ct (Inr c) cs (contracts (registerAgreementFromIssuedCharge e ct w c d))"
proof (cases "agreement_open ct")
  case False
  then show ?thesis
    using registerAgreement_kept assms by (simp add: agreement_open_def)
next
  case True
  then have "contracts (registerAgreementFromIssuedCharge e ct w c d) = update_where (\<lambda>x. ct_id x = ct_id ct)
    (agreement_projection (e_now e) (e_now e + 86400000 *
      max 1 (or_else (map_option wl_offerFirstInstallmentDays w) 5)) c) cs"
    using assms by (auto simp: registerAgreementFromIssuedCharge_def agreement_open_def Let_def)
  moreover have "e_now e + 86400000 \<le> e_now e + 86400000 *
      max 1 (or_else (map_option wl_offerFirstInstallmentDays w) 5)" by simp
  ultimately show ?thesis
    using True unfolding agreement_effect_def by blast
qed

lemma agreement_effect_issue:
  assumes "issue_and_store e a inp cfg row fc ct w b d = (r, d')" and "contracts d = cs"
  shows "agreement_effect (e_now e) ct r cs (contracts d')"
  using assms unfolding issue_and_store_def handleAdapterError_def issue_failed_def
  by (auto simp: Let_def create_charge_frame intro!: agreement_effect_register
      split: sum.splits option.splits prod.splits if_splits)

lemma agreement_effect_issue_pix:
  assumes "issue_pix e ct w cr acc g base amount discount chn key d = (r, d')"
  shows "agreement_effect (e_now e) ct r (contracts d) (contracts d')"
  using assms unfolding issue_pix_def
  by (auto simp: Let_def intro!: agreement_effect_register
      split: option.splits sum.splits prod.splits
      dest!: generateTxid_frame take_uuid_frame intro: agreement_effect_issue)

text \<open>
  Issuing or reusing a Pix registers the agreement of its contract and of no other: a contract
  that is paid, pays in installments or has an agreement with a deadline keeps that state and that
  deadline, and otherwise the agreement gets a deadline at least one day ahead and the reference and
  amount of the charge that is returned.
\<close>

theorem createPixForContract_agreement:
  assumes "createPixForContract e contractId acc opt d = (r, d')"
    and "pix_contract contractId acc opt d = Some ct"
  shows "(\<not> agreement_open ct \<longrightarrow> contracts d' = contracts d) \<and>
    (contracts d' = contracts d \<or>
     (\<exists>c dueAt. r = Inr c \<and> e_now e + 86400000 \<le> dueAt \<and>
        contracts d' = update_where (\<lambda>x. ct_id x = contractId)
          (agreement_projection (e_now e) dueAt c) (contracts d)))"
proof -
  have "agreement_effect (e_now e) ct r (contracts d) (contracts d')"
    using createPixForContract_cases [OF assms(1)] assms(2)
  proof (elim disjE exE conjE)
    assume "refused r d d'"
    then have "d' = d\<lparr>nextId := nextId d'\<rparr>" by (simp add: refused_def)
    then have "contracts d' = contracts d" by (metis database.select_convs(3) database.surjective database.update_convs(16))
    then show ?thesis by simp
  qed (auto dest: agreement_effect_issue_pix)
  then show ?thesis
    using pix_contract_SomeD [OF assms(2)] by (auto simp: agreement_effect_def)
qed

lemma createPixForContract_agreement_witness:
  "contracts (snd (createPixForContract sample_ok ''c1'' ''a1'' plain_pix sample_db)) = contracts sample_db \<or>
   (\<exists>c dueAt. 86401000 \<le> dueAt \<and>
      contracts (snd (createPixForContract sample_ok ''c1'' ''a1'' plain_pix sample_db)) =
        update_where (\<lambda>x. ct_id x = ''c1'') (agreement_projection 1000 dueAt c) (contracts sample_db))"
proof -
  have "pix_contract ''c1'' ''a1'' plain_pix sample_db = Some sample_contract"
    by (simp add: pix_contract_def sample_db_def sample_contract_def creditor_filter_def plain_pix_def)
  from createPixForContract_agreement [OF ok_outcome [OF sample_pix_ok] this] show ?thesis
    by (auto simp: sample_env_def)
qed

section \<open>Synchronisation\<close>

lemma synced_keys [simp]:
  "charge_key (synced ch u c) = charge_key c" "ch_id (synced ch u c) = ch_id c"
  "ch_version (synced ch u c) = ch_version c" "ch_status (synced ch u c) = up_status u"
  by (simp_all add: synced_def charge_key_def)

lemma createSettlementForCharge_cases:
  "settlements (createSettlementForCharge e ch t acc d) = settlements d \<or>
   (\<exists>s. settlements (createSettlementForCharge e ch t acc d) = settlements d @ [s] \<and>
        st_paymentChargeId s = Some (ch_id ch) \<and> st_status s = ST_CONFIRMED \<and> st_source s = SRC_PIX \<and>
        st_contractId s = ch_contractId ch \<and> st_amount s = dec2 (ch_amount ch) \<and> st_paidAt s = t \<and>
        (\<forall>x \<in> set (settlements d). st_paymentChargeId x \<noteq> Some (ch_id ch)))"
  unfolding createSettlementForCharge_def
  by (auto simp: create_settlement_def Let_def find_None_iff split: option.split)

lemma apply_sync_frame:
  "charges (apply_sync e ch u acc d) = update_where (\<lambda>c. ch_id c = ch_id ch) (synced ch u) (charges d)"
  "contracts (apply_sync e ch u acc d) = contracts d"
  by (simp_all add: apply_sync_def Let_def)

lemma apply_sync_settlements:
  "settlements (apply_sync e ch u acc d) = settlements d \<or>
   (\<exists>s. settlements (apply_sync e ch u acc d) = settlements d @ [s] \<and> up_status u = CH_PAID \<and>
        ch_status ch \<noteq> CH_PAID \<and> st_paymentChargeId s = Some (ch_id ch) \<and> st_amount s = dec2 (ch_amount ch) \<and>
        st_paidAt s = or_else (up_paidAt u) (e_now e) \<and>
        (\<forall>x \<in> set (settlements d). st_paymentChargeId x \<noteq> Some (ch_id ch)))"
proof -
  define d2 where "d2 = (let d1 = update_charge (ch_id ch) (synced ch u) d
    in if ch_status ch \<noteq> up_status u
       then createPaymentEvent e (ch_id ch) (Some (ch_status ch)) (up_status u) EV_SYNC JNull d1 else d1)"
  have d2: "settlements d2 = settlements d"
    by (simp add: d2_def Let_def)
  let ?p = "or_else (up_paidAt u) (e_now e)"
  have "apply_sync e ch u acc d = (if up_status u = CH_PAID \<and> ch_status ch \<noteq> CH_PAID
      then recordPixPaidInteraction e ch ?p ''SYNC'' None (createSettlementForCharge e ch ?p acc d2) else d2)"
    by (simp add: apply_sync_def d2_def Let_def)
  then show ?thesis
    using createSettlementForCharge_cases [of e ch ?p acc d2] d2 by auto
qed

lemma syncCharge_cases:
  assumes "syncCharge e i acc d = (r, d')"
  shows "refused r d d' \<or>
    (\<exists>ch (g :: payment_gateway) a fetch cfg u. ch \<in> set (charges d) \<and> ch_id ch = i \<and> ch_accountId ch = acc \<and>
       factory_get (e_adapters e) (gw_providerType g) = Inr a \<and> pa_fetchStatus a = Some fetch \<and>
       fetch ch cfg = Inr u \<and> r = Inr (synced ch u ch) \<and> d' = apply_sync e ch u acc d)"
proof -
  have gt: "factory_get ads t = Inl err \<Longrightarrow> \<exists>m. err = NotFound m" for ads t err
    by (auto simp: factory_get_def split: option.splits)
  have th: "thrown err \<noteq> IssueFailed x y" for err x y
    by (simp add: thrown_def split: adapter_error.split)
  let ?done = "\<lambda>ch (g :: payment_gateway) a fetch cfg u. ch \<in> set (charges d) \<and> ch_id ch = i \<and> ch_accountId ch = acc \<and>
       factory_get (e_adapters e) (gw_providerType g) = Inr a \<and> pa_fetchStatus a = Some fetch \<and>
       fetch ch cfg = Inr u \<and> r = Inr (synced ch u ch) \<and> d' = apply_sync e ch u acc d"
  show ?thesis
  proof (cases "\<exists>ch g a fetch cfg u. ?done ch g a fetch cfg u")
    case True
    then show ?thesis by (rule disjI2)
  next
    case False
    then have no: "?done ch g a fetch cfg u \<Longrightarrow> refused r d d'" for ch g a fetch cfg u
      by blast
    show ?thesis
      using assms unfolding syncCharge_def
      by (auto simp: th split: option.splits sum.splits dest!: find_SomeD refusals gt intro!: disjI1 no)
  qed
qed

text \<open>The settlement of a charge is written when the charge has none and its key is free.\<close>

lemma createSettlementForCharge_new:
  assumes "Some (ch_id ch) \<notin> st_paymentChargeId ` set (settlements d)"
    and "(SRC_PIX, agreement_of_charge ch) \<notin> settlement_key ` set (settlements d)"
  shows "\<exists>s. settlements (createSettlementForCharge e ch t acc d) = settlements d @ [s] \<and>
    st_paymentChargeId s = Some (ch_id ch) \<and> st_accountId s = acc \<and> st_contractId s = ch_contractId ch \<and>
    st_status s = ST_CONFIRMED \<and> st_amount s = dec2 (ch_amount ch) \<and> st_paidAt s = t"
proof -
  have "List.find (\<lambda>s. st_paymentChargeId s = Some (ch_id ch)) (settlements d) = None"
    using assms(1) by (force simp: find_None_iff)
  then show ?thesis
    using assms(2) by (simp add: createSettlementForCharge_def create_settlement_def settlement_key_def Let_def)
qed

lemma createSettlementForCharge_old:
  assumes "Some (ch_id ch) \<in> st_paymentChargeId ` set (settlements d)"
  shows "createSettlementForCharge e ch t acc d = d"
proof -
  have "List.find (\<lambda>s. st_paymentChargeId s = Some (ch_id ch)) (settlements d) \<noteq> None"
    using assms by (auto simp: find_None_iff image_iff)
  then show ?thesis by (auto simp: createSettlementForCharge_def)
qed

lemma createSettlementForCharge_taken:
  assumes "(SRC_PIX, agreement_of_charge ch) \<in> settlement_key ` set (settlements d)"
  shows "settlements (createSettlementForCharge e ch t acc d) = settlements d"
  using assms by (auto simp: createSettlementForCharge_def create_settlement_def settlement_key_def Let_def
      split: option.split)

lemma apply_sync_paid:
  assumes "up_status u = CH_PAID" and "ch_status ch \<noteq> CH_PAID"
  shows "\<exists>d2. settlements d2 = settlements d \<and> settlements (apply_sync e ch u acc d) =
    settlements (createSettlementForCharge e ch (or_else (up_paidAt u) (e_now e)) acc d2)"
  using assms by (auto simp: apply_sync_def Let_def intro!: exI [of _ "createPaymentEvent e (ch_id ch)
    (Some (ch_status ch)) CH_PAID EV_SYNC JNull (update_charge (ch_id ch) (synced ch u) d)"])

lemma other_rows:
  "filter (\<lambda>x. ch_id x \<noteq> i) (update_where (\<lambda>x. ch_id x = i) (synced ch u) xs) = filter (\<lambda>x. ch_id x \<noteq> i) xs"
  by (induction xs) auto

lemma apply_sync_unpaid:
  assumes "up_status u \<noteq> CH_PAID \<or> ch_status ch = CH_PAID"
  shows "settlements (apply_sync e ch u acc d) = settlements d"
  using assms by (auto simp: apply_sync_def Let_def)

text \<open>
  C6. A synchronisation asks the provider of the gateway of the charge and, unless that fails, writes
  into the charge the status it reports, and the external status, the date of payment and the failure
  code where it reports one; no other charge, no contract and no version (the lock of the lifecycle
  job) changes. A charge that becomes \<open>PAID\<close> with this call and has no settlement gets one of its
  amount, dated as the provider says, when the reference of the charge is free; otherwise the
  settlements stay as they were.
\<close>

theorem syncCharge_result:
  assumes "List.find (\<lambda>c. ch_id c = i \<and> ch_accountId c = acc) (charges d) = Some ch"
    and "List.find (\<lambda>g. gw_id g = ch_paymentGatewayId ch) (gateways d) = Some g"
    and "factory_get (e_adapters e) (gw_providerType g) = Inr a" and "pa_fetchStatus a = Some fetch"
    and "decryptCredentials (e_decrypt e) (e_parse e) g = Inr cfg" and "fetch ch cfg = Inr u"
  shows "\<exists>c d'. syncCharge e i acc d = (Inr c, d') \<and> ch_id c = i \<and> ch_status c = up_status u \<and>
    ch_externalStatus c = or_opt (up_externalStatus u) (ch_externalStatus ch) \<and>
    ch_paidAt c = or_opt (up_paidAt u) (ch_paidAt ch) \<and>
    ch_failureCode c = or_opt (up_failureCode u) (ch_failureCode ch) \<and> ch_amount c = ch_amount ch \<and>
    map ch_status (charges d') = map (\<lambda>x. if ch_id x = i then up_status u else ch_status x) (charges d) \<and>
    filter (\<lambda>x. ch_id x \<noteq> i) (charges d') = filter (\<lambda>x. ch_id x \<noteq> i) (charges d) \<and>
    map ch_version (charges d') = map ch_version (charges d) \<and> contracts d' = contracts d \<and>
    (let new = up_status u = CH_PAID \<and> ch_status ch \<noteq> CH_PAID \<and>
               Some i \<notin> st_paymentChargeId ` set (settlements d) \<and>
               (SRC_PIX, agreement_of_charge ch) \<notin> settlement_key ` set (settlements d)
     in if new then \<exists>s. settlements d' = settlements d @ [s] \<and> st_paymentChargeId s = Some i \<and>
               st_accountId s = acc \<and> st_contractId s = ch_contractId ch \<and> st_status s = ST_CONFIRMED \<and>
               st_amount s = dec2 (ch_amount ch) \<and> st_paidAt s = or_else (up_paidAt u) (e_now e)
        else settlements d' = settlements d)"
proof -
  let ?d' = "apply_sync e ch u acc d"
  have id: "ch_id ch = i" using find_SomeD [OF assms(1)] by simp
  have run: "syncCharge e i acc d = (Inr (synced ch u ch), ?d')"
    using assms by (simp add: syncCharge_def)
  have kept: "map ch_version (charges ?d') = map ch_version (charges d)"
    "map ch_status (charges ?d') = map (\<lambda>x. if ch_id x = i then up_status u else ch_status x) (charges d)"
    "filter (\<lambda>x. ch_id x \<noteq> i) (charges ?d') = filter (\<lambda>x. ch_id x \<noteq> i) (charges d)"
    by (simp_all add: apply_sync_frame id map_update_where other_rows)
      (simp add: update_where_def)
  have settled: "let new = up_status u = CH_PAID \<and> ch_status ch \<noteq> CH_PAID \<and>
               Some i \<notin> st_paymentChargeId ` set (settlements d) \<and>
               (SRC_PIX, agreement_of_charge ch) \<notin> settlement_key ` set (settlements d)
     in if new then \<exists>s. settlements ?d' = settlements d @ [s] \<and> st_paymentChargeId s = Some i \<and>
               st_accountId s = acc \<and> st_contractId s = ch_contractId ch \<and> st_status s = ST_CONFIRMED \<and>
               st_amount s = dec2 (ch_amount ch) \<and> st_paidAt s = or_else (up_paidAt u) (e_now e)
        else settlements ?d' = settlements d"
  proof (cases "up_status u = CH_PAID \<and> ch_status ch \<noteq> CH_PAID")
    case False
    then show ?thesis using apply_sync_unpaid [of u ch e acc d] by auto
  next
    case True
    then obtain d2 where d2: "settlements d2 = settlements d" "settlements ?d' =
        settlements (createSettlementForCharge e ch (or_else (up_paidAt u) (e_now e)) acc d2)"
      using apply_sync_paid by blast
    show ?thesis
      using True createSettlementForCharge_new [of ch d2 e "or_else (up_paidAt u) (e_now e)" acc]
        createSettlementForCharge_old [of ch d2 e "or_else (up_paidAt u) (e_now e)" acc]
        createSettlementForCharge_taken [of ch d2 e "or_else (up_paidAt u) (e_now e)" acc]
      unfolding d2 id Let_def using d2(1) by auto
  qed
  show ?thesis
    by (intro exI [of _ "synced ch u ch"] exI [of _ ?d'] conjI run kept settled)
      (simp_all add: id apply_sync_frame synced_def)
qed

definition sample_charge :: "charge_status \<Rightarrow> payment_charge" where
  "sample_charge s =
     (blank_charge sample_ok ''a1'' ''c1'' ''g1'' PIX 108 5000 ''k'' (Some ''tx1'') (Some 90000))
       \<lparr>ch_id := ''ch1'', ch_status := s, ch_externalId := Some ''tx1''\<rparr>"

definition sample_paid_db :: "charge_status \<Rightarrow> database" where
  "sample_paid_db s = sample_db\<lparr>charges := [sample_charge s]\<rparr>"

lemmas sync_eval = charge_eval syncCharge_def sample_charge_def sample_paid_db_def bb_fetchStatus_def
  mapCobStatus_def mapBbStatus_def

abbreviation sample_concluded :: env where
  "sample_concluded \<equiv> sample_env (sample_http ''CONCLUIDA'')"

lemma sample_sync_ok: "is_ok (syncCharge sample_concluded ''ch1'' ''a1'' (sample_paid_db CH_ISSUED))"
  by (simp add: sync_eval)

lemma syncCharge_result_witness:
  "\<exists>c d' s. syncCharge sample_concluded ''ch1'' ''a1'' (sample_paid_db CH_ISSUED) = (Inr c, d') \<and>
     ch_status c = CH_PAID \<and> settlements d' = [s] \<and> st_amount s = dec2 108"
proof -
  let ?d = "sample_paid_db CH_ISSUED" and ?g = "hd (gateways sample_db)"
  obtain u where u: "bb_fetchStatus (sample_http ''CONCLUIDA'') (sample_charge CH_ISSUED)
      (projr (decryptCredentials (e_decrypt sample_concluded) (e_parse sample_concluded) ?g)) = Inr u"
    "up_status u = CH_PAID"
    by (simp add: sync_eval)
  have ch: "List.find (\<lambda>c. ch_id c = ''ch1'' \<and> ch_accountId c = ''a1'') (charges ?d) = Some (sample_charge CH_ISSUED)"
    "List.find (\<lambda>g. gw_id g = ch_paymentGatewayId (sample_charge CH_ISSUED)) (gateways ?d) = Some ?g"
    "factory_get (e_adapters sample_concluded) (gw_providerType ?g) = Inr (bb_adapter (sample_http ''CONCLUIDA''))"
    "pa_fetchStatus (bb_adapter (sample_http ''CONCLUIDA'')) = Some (bb_fetchStatus (sample_http ''CONCLUIDA''))"
    "decryptCredentials (e_decrypt sample_concluded) (e_parse sample_concluded) ?g =
      Inr (projr (decryptCredentials (e_decrypt sample_concluded) (e_parse sample_concluded) ?g))"
    by (simp_all add: sync_eval)
  have "settlements ?d = []" "ch_amount (sample_charge CH_ISSUED) = 108" "ch_status (sample_charge CH_ISSUED) = CH_ISSUED"
    by (simp_all add: sample_paid_db_def sample_db_def sample_charge_def blank_charge_def)
  with syncCharge_result [OF ch u(1)] u(2) show ?thesis by auto
qed

text \<open>
  The synchronisation is not monotone: a charge that is already \<open>PAID\<close> goes back to \<open>ISSUED\<close> when
  the provider answers \<open>ATIVA\<close>, while its settlement stays.
\<close>

theorem syncCharge_reverts_paid:
  "is_ok (syncCharge sample_ok ''ch1'' ''a1'' (sample_paid_db CH_PAID)) \<and>
   map ch_status (charges (sample_paid_db CH_PAID)) = [CH_PAID] \<and>
   map ch_status (charges (snd (syncCharge sample_ok ''ch1'' ''a1'' (sample_paid_db CH_PAID)))) = [CH_ISSUED]"
  by (simp add: sync_eval apply_sync_frame synced_def)

text \<open>Every handler of the service keeps the unique indexes and the freshness of identifiers.\<close>

lemma payments_ok_refused:
  assumes "refused r d d'" and "payments_ok gen d"
  shows "payments_ok gen d'"
proof (rule payments_ok_frame [OF assms(2)])
  have d': "d' = d\<lparr>nextId := nextId d'\<rparr>" using assms(1) by (simp add: refused_def)
  show "charges d' = charges d" by (subst d') simp
  show "settlements d' = settlements d" by (subst d') simp
  show "nextId d \<le> nextId d'" using assms(1) by (simp add: refused_def)
qed

lemma payments_ok_createCharge:
  assumes "createCharge e i dto acc d = (r, d')" and "inj (e_gen e)" and "payments_ok (e_gen e) d"
  shows "payments_ok (e_gen e) d'"
  using createCharge_cases [OF assms(1)] assms(2,3) payments_ok_outcome payments_ok_refused by blast

lemma payments_ok_issue_pix:
  assumes "issue_pix e ct w cr acc g base amount discount chn key d = (r, d')" and "inj (e_gen e)"
    and "payments_ok (e_gen e) d"
  shows "payments_ok (e_gen e) d'"
  using issue_pix_cases [OF assms(1)] assms(2,3) payments_ok_outcome payments_ok_refused
    payments_ok_frame [of "e_gen e" d d'] by blast

lemma payments_ok_createPixForContract:
  assumes "createPixForContract e i acc opt d = (r, d')" and "inj (e_gen e)" and "payments_ok (e_gen e) d"
  shows "payments_ok (e_gen e) d'"
  using createPixForContract_cases [OF assms(1)] assms(2,3) payments_ok_refused payments_ok_issue_pix by blast

lemma payments_ok_createPixByDocument:
  assumes "createPixByDocument e doc n k acc cr d = (r, d')" and "inj (e_gen e)" and "payments_ok (e_gen e) d"
  shows "payments_ok (e_gen e) d'"
  using createPixByDocument_cases [OF assms(1)] assms(2,3) payments_ok_refused payments_ok_issue_pix by blast

lemma payments_ok_apply_sync:
  assumes "payments_ok (e_gen e) d"
  shows "payments_ok (e_gen e) (apply_sync e ch u acc d)"
proof -
  have 1: "payments_ok (e_gen e) (update_charge (ch_id ch) (synced ch u) d)"
    using assms by (rule payments_ok_update_charge) simp_all
  have ev: "payments_ok (e_gen e) (createPaymentEvent e i f t s m x)" if "payments_ok (e_gen e) x" for i f t s m x
    using that by (rule payments_ok_frame) simp_all
  have ia: "payments_ok (e_gen e) (recordPixPaidInteraction e ch t s m x)" if "payments_ok (e_gen e) x" for t s m x
    using that by (rule payments_ok_frame) (simp_all add: nextId_interactions)
  show ?thesis
    unfolding apply_sync_def Let_def
    by (auto intro!: ev ia payments_ok_createSettlementForCharge 1)
qed

lemma payments_ok_syncCharge:
  assumes "syncCharge e i acc d = (r, d')" and "payments_ok (e_gen e) d"
  shows "payments_ok (e_gen e) d'"
  using syncCharge_cases [OF assms(1)] assms(2) payments_ok_refused payments_ok_apply_sync by blast

end
