(* ===== verification/Settlement.thy ===== *)
theory Settlement
  imports Charges
begin

text \<open>
  The settlement ledger: the canonical settlement event, its processor
  (\<open>settlement-processor.service.ts\<close>), the mapping of Serasa events to it
  (\<open>serasa-settlement.mapper.ts\<close>), and the contract every writer of the ledger keeps, as the locale
  \<open>ledger\<close>. The amount of an event is the decimal its string denotes; \<open>None\<close> is a string the
  \<open>Decimal\<close> constructor rejects, and the transaction of the handler then writes nothing.
\<close>

section \<open>The ledger contract\<close>

text \<open>
  An operation of the ledger only appends settlements and keeps the unique index. Whatever sequence
  of such operations runs, no settlement is ever removed or changed.
\<close>

locale ledger =
  fixes step :: "'e \<Rightarrow> database \<Rightarrow> database"
  assumes appends: "\<exists>new. settlements (step x d) = settlements d @ new"
    and keeps_unique: "distinct (map settlement_key (settlements d)) \<Longrightarrow>
      distinct (map settlement_key (settlements (step x d)))"
begin

lemma keeps_settlement: "s \<in> set (settlements d) \<Longrightarrow> s \<in> set (settlements (step x d))"
  using appends [of x d] by auto

lemma fold_appends: "\<exists>new. settlements (fold step xs d) = settlements d @ new"
proof (induction xs arbitrary: d)
  case (Cons x xs)
  obtain a b where "settlements (step x d) = settlements d @ a"
    "settlements (fold step xs (step x d)) = settlements (step x d) @ b"
    using appends [of x d] Cons [of "step x d"] by blast
  then show ?case by simp
qed simp

lemma fold_unique:
  "distinct (map settlement_key (settlements d)) \<Longrightarrow>
     distinct (map settlement_key (settlements (fold step xs d)))"
  by (induction xs arbitrary: d) (auto intro: keeps_unique)

lemma fold_keeps: "s \<in> set (settlements d) \<Longrightarrow> s \<in> set (settlements (fold step xs d))"
  using fold_appends [of xs d] by auto

end

section \<open>Events\<close>

record settlement_event =
  se_provider :: string
  se_externalEventId :: string
  se_externalTransactionId :: "string option"
  se_contractReference :: string
  se_agreementReference :: "string option"
  se_installmentNumber :: "int option"
  se_amount :: "rat option"
  se_paidAt :: int
  se_providerPayload :: json

definition mapProviderToSource :: "string \<Rightarrow> settlement_source" where
  "mapProviderToSource p =
     (if p = ''BANCO_DO_BRASIL'' then SRC_PIX
      else if p = ''SERASA_LNOP'' then SRC_SERASA
      else SRC_MANUAL)"

section \<open>Mapping Serasa events\<close>

definition nullish :: "json option \<Rightarrow> bool" where
  "nullish x \<longleftrightarrow> x = None \<or> x = Some JNull"

definition truthy :: "json option \<Rightarrow> bool" where
  "truthy x = (case x of
     None \<Rightarrow> False
   | Some JNull \<Rightarrow> False
   | Some (JBool b) \<Rightarrow> b
   | Some (JNum r) \<Rightarrow> r \<noteq> 0
   | Some (JStr s) \<Rightarrow> s \<noteq> ''''
   | Some _ \<Rightarrow> True)"

definition coalesce :: "json option \<Rightarrow> json option \<Rightarrow> json option" where
  "coalesce x y = (if nullish x then y else x)"

definition decimal_of :: "json option \<Rightarrow> rat option" where
  \<comment> \<open>\<open>x?.toString() ?? '0'\<close>, read by the \<open>Decimal\<close> constructor\<close>
  "decimal_of x =
     (if nullish x then Some 0
      else case x of
             Some (JNum r) \<Rightarrow> Some r
           | Some (JStr s) \<Rightarrow> number_string s
           | _ \<Rightarrow> None)"

definition int_of_json :: "json option \<Rightarrow> int option" where
  "int_of_json x = (case x of Some (JNum r) \<Rightarrow> Some \<lfloor>r\<rfloor> | _ \<Rightarrow> None)"

definition sanitizeSerasaPayload :: "json \<Rightarrow> json" where
  \<comment> \<open>\<open>JNull\<close> is \<open>undefined\<close>, the answer when nothing is kept\<close>
  "sanitizeSerasaPayload ev =
     (let kvs = (case jget ''commissionPercentage'' ev of None \<Rightarrow> [] | Some v \<Rightarrow> [(''commissionPercentage'', v)])
              @ (case jget ''commissionValue'' ev of None \<Rightarrow> [] | Some v \<Rightarrow> [(''commissionValue'', v)])
              @ (if truthy (jget ''eventType'' ev) then [(''originalEventType'', the (jget ''eventType'' ev))] else [])
              @ (case jget ''status'' ev of None \<Rightarrow> [] | Some v \<Rightarrow> [(''originalStatus'', v)])
      in if kvs = [] then JNull else JObj kvs)"

definition mapPaidAgreement :: "(json \<Rightarrow> int) \<Rightarrow> int \<Rightarrow> json \<Rightarrow> settlement_event" where
  \<comment> \<open>\<open>date\<close> is the \<open>Date\<close> constructor and \<open>now\<close> the clock\<close>
  "mapPaidAgreement date now ev =
     \<lparr>se_provider = ''SERASA_LNOP'',
      se_externalEventId =
        or_else (json_string (coalesce (jget ''transactionId'' ev) (jget ''eventId'' ev))) '''',
      se_externalTransactionId = json_string (jget ''transactionId'' ev),
      se_contractReference =
        or_else (json_string (coalesce (jget ''debtId'' ev) (jget ''contractReference'' ev))) '''',
      se_agreementReference =
        json_string (coalesce (jget ''agreementId'' ev) (jget ''agreementReference'' ev)),
      se_installmentNumber = None,
      se_amount = decimal_of (jget ''amount'' ev),
      se_paidAt = (if truthy (jget ''paidAt'' ev) then date (the (jget ''paidAt'' ev)) else now),
      se_providerPayload = sanitizeSerasaPayload ev\<rparr>"

definition mapPaidInstallment :: "(json \<Rightarrow> int) \<Rightarrow> int \<Rightarrow> json \<Rightarrow> settlement_event" where
  "mapPaidInstallment date now ev =
     (mapPaidAgreement date now ev)
       \<lparr>se_installmentNumber :=
          int_of_json (coalesce (jget ''installmentNumber'' ev) (jget ''parcelNumber'' ev))\<rparr>"

section \<open>Aggregates\<close>

definition reversed_total :: "string \<Rightarrow> payment_settlement list \<Rightarrow> rat" where
  "reversed_total i ss =
     sum_list (map st_amount (filter (\<lambda>s. st_contractId s = i \<and> st_status s = ST_REVERSED) ss))"

definition max_opt :: "int list \<Rightarrow> int option" where
  "max_opt xs = (case xs of [] \<Rightarrow> None | y # ys \<Rightarrow> Some (fold max ys y))"

definition last_confirmed :: "string \<Rightarrow> payment_settlement list \<Rightarrow> int option" where
  \<comment> \<open>\<open>aggregate _max paidAt\<close> over the confirmed settlements of the contract\<close>
  "last_confirmed i ss =
     max_opt (map st_paidAt (filter (\<lambda>s. st_contractId s = i \<and> st_status s = ST_CONFIRMED) ss))"

section \<open>The processor\<close>

definition settlement_of_event ::
  "settlement_event \<Rightarrow> string \<Rightarrow> string \<Rightarrow> settlement_status \<Rightarrow> rat \<Rightarrow> payment_settlement" where
  "settlement_of_event ev acc contractId status amount =
     \<lparr>st_id = '''', st_accountId = acc, st_contractId = contractId, st_paymentChargeId = None,
      st_agreementReference = se_agreementReference ev,
      st_installmentNumber = se_installmentNumber ev,
      st_source = mapProviderToSource (se_provider ev), st_status = status, st_amount = amount,
      st_paidAt = se_paidAt ev, st_externalPaymentId = se_externalEventId ev,
      st_channelEventId = se_externalTransactionId ev,
      st_debtReference = Some (se_contractReference ev), st_metadata = JNull,
      st_providerPayload = se_providerPayload ev\<rparr>"

definition event_key :: "settlement_event \<Rightarrow> settlement_source \<times> string" where
  "event_key ev = (mapProviderToSource (se_provider ev), se_externalEventId ev)"

definition event_contract :: "settlement_event \<Rightarrow> string \<Rightarrow> database \<Rightarrow> contract option" where
  "event_contract ev acc d =
     List.find (\<lambda>c. ct_accountId c = acc \<and>
       (ct_id c = se_contractReference ev \<or> ct_contractNumber c = se_contractReference ev \<or>
        ct_debtId c = Some (se_contractReference ev))) (contracts d)"

definition reversal_contract :: "settlement_event \<Rightarrow> string \<Rightarrow> database \<Rightarrow> contract option" where
  "reversal_contract ev acc d =
     List.find (\<lambda>c. ct_accountId c = acc \<and>
       (ct_contractNumber c = se_contractReference ev \<or>
        ct_debtId c = Some (se_contractReference ev))) (contracts d)"

definition processEvent ::
  "(nat \<Rightarrow> string) \<Rightarrow> settlement_event \<Rightarrow> string \<Rightarrow> database \<Rightarrow> database" where
  "processEvent gen ev acc d =
     (case List.find (\<lambda>s. settlement_key s = event_key ev) (settlements d) of
        Some _ \<Rightarrow> d
      | None \<Rightarrow>
     (case event_contract ev acc d of
        None \<Rightarrow> d
      | Some ct \<Rightarrow>
     (case se_amount ev of
        None \<Rightarrow> d
      | Some amount \<Rightarrow>
     (case create_settlement gen (settlement_of_event ev acc (ct_id ct) ST_CONFIRMED amount) d of
        None \<Rightarrow> d
      | Some (_, d1) \<Rightarrow>
          update_contract (ct_id ct)
            (\<lambda>c. c\<lparr>ct_totalPaidAmount := confirmed_total (ct_id ct) (settlements d1),
                   ct_lastPaymentAt :=
                     Some (or_else (last_confirmed (ct_id ct) (settlements d1)) (se_paidAt ev))\<rparr>)
            d1))))"

definition processReversal ::
  "(nat \<Rightarrow> string) \<Rightarrow> settlement_event \<Rightarrow> string \<Rightarrow> database \<Rightarrow> database" where
  "processReversal gen ev acc d =
     (case List.find (\<lambda>s. settlement_key s = event_key ev) (settlements d) of
        Some _ \<Rightarrow> d
      | None \<Rightarrow>
     (case reversal_contract ev acc d of
        None \<Rightarrow> d
      | Some ct \<Rightarrow>
     (case se_amount ev of
        None \<Rightarrow> d
      | Some amount \<Rightarrow>
     (case create_settlement gen (settlement_of_event ev acc (ct_id ct) ST_REVERSED amount) d of
        None \<Rightarrow> d
      | Some (_, d1) \<Rightarrow>
          let net = confirmed_total (ct_id ct) (settlements d1) - reversed_total (ct_id ct) (settlements d1)
          in update_contract (ct_id ct)
               (\<lambda>c. c\<lparr>ct_totalPaidAmount := (if net < 0 then 0 else net),
                      ct_lastPaymentAt := last_confirmed (ct_id ct) (settlements d1)\<rparr>)
               d1))))"

section \<open>Properties of the processor\<close>

lemma settlement_of_event_key [simp]: "settlement_key (settlement_of_event ev acc i st a) = event_key ev"
  by (simp add: settlement_key_def settlement_of_event_def event_key_def)

lemma settlement_of_event_fields [simp]:
  "st_contractId (settlement_of_event ev acc i st a) = i"
  "st_status (settlement_of_event ev acc i st a) = st"
  "st_amount (settlement_of_event ev acc i st a) = a"
  "st_source (settlement_of_event ev acc i st a) = mapProviderToSource (se_provider ev)"
  by (simp_all add: settlement_of_event_def)

lemma create_settlement_Some:
  "settlement_key s \<notin> settlement_key ` set (settlements d) \<Longrightarrow>
     create_settlement gen s d = Some (s\<lparr>st_id := gen (nextId d), st_amount := dec2 (st_amount s)\<rparr>,
       d\<lparr>settlements := settlements d @ [s\<lparr>st_id := gen (nextId d), st_amount := dec2 (st_amount s)\<rparr>],
         nextId := Suc (nextId d)\<rparr>)"
  by (simp add: create_settlement_def Let_def)

lemma find_event_None:
  "List.find (\<lambda>s. settlement_key s = event_key ev) (settlements d) = None \<longleftrightarrow>
     event_key ev \<notin> settlement_key ` set (settlements d)"
  by (auto simp: find_None_iff image_iff)

lemma processEvent_noop:
  "event_key ev \<in> settlement_key ` set (settlements d) \<or> event_contract ev acc d = None \<or> se_amount ev = None
     \<Longrightarrow> processEvent gen ev acc d = d"
  using find_event_None [of ev d] by (auto simp: processEvent_def split: option.split)

lemma processReversal_noop:
  "event_key ev \<in> settlement_key ` set (settlements d) \<or> reversal_contract ev acc d = None \<or> se_amount ev = None
     \<Longrightarrow> processReversal gen ev acc d = d"
  using find_event_None [of ev d] by (auto simp: processReversal_def split: option.split)

definition confirmed_row :: "(nat \<Rightarrow> string) \<Rightarrow> settlement_event \<Rightarrow> string \<Rightarrow> string \<Rightarrow> settlement_status \<Rightarrow> rat
    \<Rightarrow> database \<Rightarrow> payment_settlement" where
  "confirmed_row gen ev acc i st a d =
     (settlement_of_event ev acc i st a)\<lparr>st_id := gen (nextId d), st_amount := dec2 a\<rparr>"

lemma confirmed_row_fields [simp]:
  "st_contractId (confirmed_row gen ev acc i st a d) = i"
  "st_status (confirmed_row gen ev acc i st a d) = st"
  "st_amount (confirmed_row gen ev acc i st a d) = dec2 a"
  "settlement_key (confirmed_row gen ev acc i st a d) = event_key ev"
  by (simp_all add: confirmed_row_def)

lemma processEvent_new:
  assumes "event_key ev \<notin> settlement_key ` set (settlements d)" and "event_contract ev acc d = Some ct"
    and "se_amount ev = Some a" and "ss = settlements d @ [confirmed_row gen ev acc (ct_id ct) ST_CONFIRMED a d]"
  shows "processEvent gen ev acc d = update_contract (ct_id ct)
    (\<lambda>c. c\<lparr>ct_totalPaidAmount := confirmed_total (ct_id ct) ss,
           ct_lastPaymentAt := Some (or_else (last_confirmed (ct_id ct) ss) (se_paidAt ev))\<rparr>)
    (d\<lparr>settlements := ss, nextId := Suc (nextId d)\<rparr>)"
  using assms find_event_None [of ev d]
  by (simp add: processEvent_def create_settlement_Some confirmed_row_def)

lemma processReversal_new:
  assumes "event_key ev \<notin> settlement_key ` set (settlements d)" and "reversal_contract ev acc d = Some ct"
    and "se_amount ev = Some a" and "ss = settlements d @ [confirmed_row gen ev acc (ct_id ct) ST_REVERSED a d]"
  shows "processReversal gen ev acc d = update_contract (ct_id ct)
    (\<lambda>c. c\<lparr>ct_totalPaidAmount := max 0 (confirmed_total (ct_id ct) ss - reversed_total (ct_id ct) ss),
           ct_lastPaymentAt := last_confirmed (ct_id ct) ss\<rparr>)
    (d\<lparr>settlements := ss, nextId := Suc (nextId d)\<rparr>)"
  using assms find_event_None [of ev d]
  by (simp add: processReversal_def create_settlement_Some confirmed_row_def Let_def max_def)

lemma processEvent_cases:
  obtains (noop) "event_key ev \<in> settlement_key ` set (settlements d) \<or> event_contract ev acc d = None \<or> se_amount ev = None"
  | (new) ct a where "event_key ev \<notin> settlement_key ` set (settlements d)"
      and "event_contract ev acc d = Some ct" and "se_amount ev = Some a"
  by (cases "event_contract ev acc d"; cases "se_amount ev") auto

lemma processReversal_cases:
  obtains (noop) "event_key ev \<in> settlement_key ` set (settlements d) \<or> reversal_contract ev acc d = None \<or> se_amount ev = None"
  | (new) ct a where "event_key ev \<notin> settlement_key ` set (settlements d)"
      and "reversal_contract ev acc d = Some ct" and "se_amount ev = Some a"
  by (cases "reversal_contract ev acc d"; cases "se_amount ev") auto

interpretation events: ledger "\<lambda>(ev, acc). processEvent gen ev acc" for gen
proof (unfold_locales, goal_cases)
  case (1 x d)
  obtain ev acc where x: "x = (ev, acc)" by (cases x)
  show ?case
    by (cases rule: processEvent_cases [of ev d acc]) (simp_all add: x processEvent_noop processEvent_new [OF _ _ _ refl])
next
  case (2 d x)
  obtain ev acc where x: "x = (ev, acc)" by (cases x)
  show ?case
    using 2 by (cases rule: processEvent_cases [of ev d acc]) (auto simp: x processEvent_noop processEvent_new [OF _ _ _ refl])
qed

interpretation reversals: ledger "\<lambda>(ev, acc). processReversal gen ev acc" for gen
proof (unfold_locales, goal_cases)
  case (1 x d)
  obtain ev acc where x: "x = (ev, acc)" by (cases x)
  show ?case
    by (cases rule: processReversal_cases [of ev d acc]) (simp_all add: x processReversal_noop processReversal_new [OF _ _ _ refl])
next
  case (2 d x)
  obtain ev acc where x: "x = (ev, acc)" by (cases x)
  show ?case
    using 2 by (cases rule: processReversal_cases [of ev d acc]) (auto simp: x processReversal_noop processReversal_new [OF _ _ _ refl])
qed

interpretation charge_settlements: ledger "\<lambda>(ch, t, acc). createSettlementForCharge e ch t acc" for e
proof (unfold_locales, goal_cases)
  case (1 x d)
  obtain ch t acc where x: "x = (ch, t, acc)" by (cases x)
  show ?case
    using createSettlementForCharge_cases [of e ch t acc d] by (auto simp: x)
next
  case (2 d x)
  obtain ch t acc where x: "x = (ch, t, acc)" by (cases x)
  show ?case
    using 2 settlement_table.insert_unique [of "e_gen e" _ d]
    by (auto simp: x createSettlementForCharge_def split: option.split)
qed

text \<open>
  C7. A payment event that is new and resolves to a contract of the account appends one confirmed
  settlement under the event's key, raises the contract's paid total to the sum of its confirmed
  settlements, which is the previous sum plus the rounded amount, and changes neither the other
  contracts nor any charge.
\<close>

theorem processEvent_projection:
  assumes "event_key ev \<notin> settlement_key ` set (settlements d)" and "event_contract ev acc d = Some ct"
    and "se_amount ev = Some a"
  shows "\<exists>s. settlements (processEvent gen ev acc d) = settlements d @ [s] \<and> settlement_key s = event_key ev \<and>
    st_contractId s = ct_id ct \<and> st_status s = ST_CONFIRMED \<and> st_amount s = dec2 a \<and>
    charges (processEvent gen ev acc d) = charges d \<and>
    list_all2 (\<lambda>c c'. (if ct_id c = ct_id ct
         then ct_totalPaidAmount c' = confirmed_total (ct_id ct) (settlements d) + dec2 a \<and>
              ct_paymentStatus c' = ct_paymentStatus c
         else c' = c))
      (contracts d) (contracts (processEvent gen ev acc d))"
  unfolding processEvent_new [OF assms refl]
  by (auto simp: list_all2_conv_all_nth update_where_def intro!: exI [of _ "confirmed_row gen ev acc (ct_id ct) ST_CONFIRMED a d"])

definition sample_event :: "string \<Rightarrow> rat \<Rightarrow> settlement_event" where
  "sample_event i a =
     \<lparr>se_provider = ''SERASA_LNOP'', se_externalEventId = i, se_externalTransactionId = None,
      se_contractReference = ''n1'', se_agreementReference = None, se_installmentNumber = None,
      se_amount = Some a, se_paidAt = 7, se_providerPayload = JNull\<rparr>"

lemma sample_event_new: "event_key (sample_event i a) \<notin> settlement_key ` set (settlements sample_db)"
  by (simp add: sample_db_def)

lemma sample_event_contract: "event_contract (sample_event i a) ''a1'' sample_db = Some sample_contract"
  by (simp add: event_contract_def sample_event_def sample_db_def sample_contract_def)

lemma processEvent_projection_witness:
  "\<exists>s. settlements (processEvent sample_gen (sample_event ''x'' 10) ''a1'' sample_db) = [s] \<and> st_amount s = dec2 10"
proof -
  have "se_amount (sample_event ''x'' 10) = Some 10" by (simp add: sample_event_def)
  from processEvent_projection [OF sample_event_new sample_event_contract this, of sample_gen] show ?thesis
    by (auto simp: sample_db_def)
qed

text \<open>
  C8. Delivering a payment event or a reversal again changes nothing: the second delivery of the
  same event leaves the database the first one left.
\<close>

theorem settlement_idempotent:
  "processEvent gen ev acc (processEvent gen' ev acc d) = processEvent gen' ev acc d \<and>
   processReversal gen ev acc (processReversal gen' ev acc d) = processReversal gen' ev acc d"
proof
  show "processEvent gen ev acc (processEvent gen' ev acc d) = processEvent gen' ev acc d"
  proof (cases rule: processEvent_cases [of ev d acc])
    case noop
    then show ?thesis by (simp add: processEvent_noop)
  next
    case (new ct a)
    then show ?thesis
      by (intro processEvent_noop) (simp add: processEvent_new [OF new refl])
  qed
  show "processReversal gen ev acc (processReversal gen' ev acc d) = processReversal gen' ev acc d"
  proof (cases rule: processReversal_cases [of ev d acc])
    case noop
    then show ?thesis by (simp add: processReversal_noop)
  next
    case (new ct a)
    then show ?thesis
      by (intro processReversal_noop) (simp add: processReversal_new [OF new refl])
  qed
qed

text \<open>
  C9. A reversal that is new and resolves to a contract keeps every settlement, appends one reversed
  settlement, and sets the contract's paid total to what was confirmed less what was reversed, never
  below zero.
\<close>

theorem processReversal_projection:
  assumes "event_key ev \<notin> settlement_key ` set (settlements d)" and "reversal_contract ev acc d = Some ct"
    and "se_amount ev = Some a"
  shows "\<exists>s. settlements (processReversal gen ev acc d) = settlements d @ [s] \<and> st_status s = ST_REVERSED \<and>
    st_amount s = dec2 a \<and> charges (processReversal gen ev acc d) = charges d \<and>
    list_all2 (\<lambda>c c'. (if ct_id c = ct_id ct
         then ct_totalPaidAmount c' = max 0 (confirmed_total (ct_id ct) (settlements d) -
                reversed_total (ct_id ct) (settlements d) - dec2 a) \<and> 0 \<le> ct_totalPaidAmount c'
         else c' = c))
      (contracts d) (contracts (processReversal gen ev acc d))"
proof -
  have "reversed_total (ct_id ct) (settlements d @ [confirmed_row gen ev acc (ct_id ct) ST_REVERSED a d])
      = reversed_total (ct_id ct) (settlements d) + dec2 a"
    by (simp add: reversed_total_def)
  then show ?thesis
    unfolding processReversal_new [OF assms refl]
    by (auto simp: list_all2_conv_all_nth update_where_def algebra_simps
        intro!: exI [of _ "confirmed_row gen ev acc (ct_id ct) ST_REVERSED a d"])
qed

lemma processReversal_projection_witness:
  "\<exists>s. settlements (processReversal sample_gen (sample_event ''x'' 10) ''a1'' sample_db) = [s] \<and> st_amount s = dec2 10"
proof -
  have c: "reversal_contract (sample_event ''x'' 10) ''a1'' sample_db = Some sample_contract"
    by (simp add: reversal_contract_def sample_event_def sample_db_def sample_contract_def)
  have "se_amount (sample_event ''x'' 10) = Some 10" by (simp add: sample_event_def)
  from processReversal_projection [OF sample_event_new c this, of sample_gen] show ?thesis
    by (auto simp: sample_db_def)
qed

text \<open>
  The two projections disagree: a payment that arrives after a reversal sets the paid total to the
  sum of all confirmed settlements, so the reversal no longer counts. After a payment of 100, its
  reversal and a payment of 30 the contract shows 130 paid, although the ledger nets 30.
\<close>

theorem reversal_forgotten:
  "let d = processEvent gen (sample_event ''p2'' 30) ''a1''
    (processReversal gen (sample_event ''r1'' 100) ''a1''
      (processEvent gen (sample_event ''p1'' 100) ''a1'' sample_db))
   in map ct_totalPaidAmount (contracts d) = [130] \<and>
    confirmed_total ''c1'' (settlements d) - reversed_total ''c1'' (settlements d) = 30"
proof -
  have r: "dec2 100 = 100" "dec2 30 = 30" by (simp_all add: dec2_def floor_unique)
  show ?thesis
    unfolding processEvent_def processReversal_def
    by (simp add: event_contract_def reversal_contract_def sample_event_def sample_db_def
        sample_contract_def create_settlement_def settlement_of_event_def settlement_key_def event_key_def
        mapProviderToSource_def update_contract_def Let_def r reversed_total_def)
qed

section \<open>The abstract register\<close>

text \<open>
  What the processor promises: a register from the source and the identifier of a payment to its
  contract, amount and status, in which the first entry under a key stays. A message is entered when
  its reference names a contract and its amount is a number; the contract table decides that once and
  for all, since the processor never changes the columns a reference is looked up in.
\<close>

type_synonym ledger_state = "settlement_source \<times> string \<Rightarrow> (string \<times> rat \<times> settlement_status) option"

datatype ledger_message = Payment settlement_event | Reversal settlement_event

definition deliver :: "(nat \<Rightarrow> string) \<Rightarrow> string \<times> ledger_message \<Rightarrow> database \<Rightarrow> database" where
  "deliver gen am d =
     (case am of
        (acc, Payment ev) \<Rightarrow> processEvent gen ev acc d
      | (acc, Reversal ev) \<Rightarrow> processReversal gen ev acc d)"

definition ledger_of :: "database \<Rightarrow> ledger_state" where
  "ledger_of d = map_of (map (\<lambda>s. (settlement_key s, (st_contractId s, st_amount s, st_status s))) (settlements d))"

definition message_entry ::
  "database \<Rightarrow> string \<times> ledger_message \<Rightarrow> ((settlement_source \<times> string) \<times> string \<times> rat \<times> settlement_status) option"
where
  "message_entry d am =
     (case am of
        (acc, Payment ev) \<Rightarrow>
          (case (event_contract ev acc d, se_amount ev) of
             (Some ct, Some a) \<Rightarrow> Some (event_key ev, (ct_id ct, dec2 a, ST_CONFIRMED))
           | _ \<Rightarrow> None)
      | (acc, Reversal ev) \<Rightarrow>
          (case (reversal_contract ev acc d, se_amount ev) of
             (Some ct, Some a) \<Rightarrow> Some (event_key ev, (ct_id ct, dec2 a, ST_REVERSED))
           | _ \<Rightarrow> None))"

definition record_first :: "('k \<times> 'v) option \<Rightarrow> ('k \<Rightarrow> 'v option) \<Rightarrow> ('k \<Rightarrow> 'v option)" where
  "record_first e L =
     (case e of
        None \<Rightarrow> L
      | Some (k, v) \<Rightarrow> (case L k of Some _ \<Rightarrow> L | None \<Rightarrow> L(k \<mapsto> v)))"

lemma map_of_snoc_free:
  "k \<notin> fst ` set xs \<Longrightarrow> map_of (xs @ [(k, v)]) = (map_of xs)(k \<mapsto> v)"
  by (induction xs) auto

lemma ledger_of_None: "ledger_of d k = None \<longleftrightarrow> k \<notin> settlement_key ` set (settlements d)"
  by (auto simp: ledger_of_def map_of_eq_None_iff image_image)

lemma ledger_of_snoc:
  assumes "settlement_key s \<notin> settlement_key ` set (settlements d)" and "settlements d' = settlements d @ [s]"
  shows "ledger_of d' = (ledger_of d)(settlement_key s \<mapsto> (st_contractId s, st_amount s, st_status s))"
  using assms by (simp add: ledger_of_def map_of_snoc_free image_image del: map_of_append)

lemma resolution_kept:
  "map_option ct_id (event_contract ev acc (deliver gen m d)) = map_option ct_id (event_contract ev acc d)"
  "map_option ct_id (reversal_contract ev acc (deliver gen m d)) = map_option ct_id (reversal_contract ev acc d)"
proof -
  have cs: "\<exists>i a b. contracts (deliver gen m d) =
      update_where (\<lambda>c. ct_id c = i) (\<lambda>c. c\<lparr>ct_totalPaidAmount := a, ct_lastPaymentAt := b\<rparr>) (contracts d)
    \<or> contracts (deliver gen m d) = contracts d"
  proof -
    obtain acc' x where m: "m = (acc', x)" by (cases m)
    show ?thesis
    proof (cases x)
      case (Payment ev')
      then show ?thesis
        by (cases rule: processEvent_cases [of ev' d acc'])
          (auto simp: m deliver_def processEvent_noop processEvent_new [OF _ _ _ refl] update_contract_def)
    next
      case (Reversal ev')
      then show ?thesis
        by (cases rule: processReversal_cases [of ev' d acc'])
          (auto simp: m deliver_def processReversal_noop processReversal_new [OF _ _ _ refl] update_contract_def)
    qed
  qed
  then show "map_option ct_id (event_contract ev acc (deliver gen m d)) = map_option ct_id (event_contract ev acc d)"
    by (auto simp: event_contract_def find_update_where option.map_comp o_def if_distrib cong: if_cong)
  from cs show "map_option ct_id (reversal_contract ev acc (deliver gen m d)) = map_option ct_id (reversal_contract ev acc d)"
    by (auto simp: reversal_contract_def find_update_where option.map_comp o_def if_distrib cong: if_cong)
qed

lemma message_entry_kept: "message_entry (deliver gen m d) m' = message_entry d m'"
proof -
  have e: "message_entry d m' = (case m' of
      (acc, Payment ev) \<Rightarrow> (case (map_option ct_id (event_contract ev acc d), se_amount ev) of
         (Some i, Some a) \<Rightarrow> Some (event_key ev, (i, dec2 a, ST_CONFIRMED)) | _ \<Rightarrow> None)
    | (acc, Reversal ev) \<Rightarrow> (case (map_option ct_id (reversal_contract ev acc d), se_amount ev) of
         (Some i, Some a) \<Rightarrow> Some (event_key ev, (i, dec2 a, ST_REVERSED)) | _ \<Rightarrow> None))" for d
    by (auto simp: message_entry_def split: prod.split ledger_message.split option.split)
  show ?thesis unfolding e resolution_kept ..
qed

lemma record_first_known:
  assumes "\<And>k v. e = Some (k, v) \<Longrightarrow> L k \<noteq> None"
  shows "record_first e L = L"
  using assms by (auto simp: record_first_def split: option.split)

lemma record_first_free: "L k = None \<Longrightarrow> record_first (Some (k, v)) L = L(k \<mapsto> v)"
  by (simp add: record_first_def)

lemma message_entry_key:
  "message_entry d (acc, Payment ev) = Some (k, v) \<Longrightarrow>
     k = event_key ev \<and> event_contract ev acc d \<noteq> None \<and> se_amount ev \<noteq> None"
  "message_entry d (acc, Reversal ev) = Some (k, v) \<Longrightarrow>
     k = event_key ev \<and> reversal_contract ev acc d \<noteq> None \<and> se_amount ev \<noteq> None"
  by (auto simp: message_entry_def split: option.splits)

lemma deliver_records: "ledger_of (deliver gen m d) = record_first (message_entry d m) (ledger_of d)"
proof -
  obtain acc x where m: "m = (acc, x)" by (cases m)
  have known: "event_key ev \<in> settlement_key ` set (settlements d) \<Longrightarrow> ledger_of d (event_key ev) \<noteq> None"
    and free: "event_key ev \<notin> settlement_key ` set (settlements d) \<Longrightarrow> ledger_of d (event_key ev) = None" for ev
    by (simp_all add: ledger_of_None)
  show ?thesis
  proof (cases x)
    case (Payment ev)
    show ?thesis
    proof (cases rule: processEvent_cases [of ev d acc])
      case noop
      then have "record_first (message_entry d m) (ledger_of d) = ledger_of d"
        using known [of ev] message_entry_key [of d acc ev] unfolding m Payment by (intro record_first_known) metis
      then show ?thesis
        using noop by (simp add: m Payment deliver_def processEvent_noop)
    next
      case (new ct a)
      let ?s = "confirmed_row gen ev acc (ct_id ct) ST_CONFIRMED a d"
      have "ledger_of (processEvent gen ev acc d) = (ledger_of d)(event_key ev \<mapsto> (ct_id ct, dec2 a, ST_CONFIRMED))"
        using ledger_of_snoc [of ?s d "processEvent gen ev acc d"] new(1)
        by (simp add: processEvent_new [OF new refl])
      moreover have "ledger_of d (event_key ev) = None" by (rule free [OF new(1)])
      ultimately show ?thesis
        using new by (simp add: m Payment deliver_def message_entry_def record_first_free)
    qed
  next
    case (Reversal ev)
    show ?thesis
    proof (cases rule: processReversal_cases [of ev d acc])
      case noop
      then have "record_first (message_entry d m) (ledger_of d) = ledger_of d"
        using known [of ev] message_entry_key [of d acc ev] unfolding m Reversal by (intro record_first_known) metis
      then show ?thesis
        using noop by (simp add: m Reversal deliver_def processReversal_noop)
    next
      case (new ct a)
      let ?s = "confirmed_row gen ev acc (ct_id ct) ST_REVERSED a d"
      have "ledger_of (processReversal gen ev acc d) = (ledger_of d)(event_key ev \<mapsto> (ct_id ct, dec2 a, ST_REVERSED))"
        using ledger_of_snoc [of ?s d "processReversal gen ev acc d"] new(1)
        by (simp add: processReversal_new [OF new refl])
      moreover have "ledger_of d (event_key ev) = None" by (rule free [OF new(1)])
      ultimately show ?thesis
        using new by (simp add: m Reversal deliver_def message_entry_def record_first_free)
    qed
  qed
qed

text \<open>
  C18. The processor implements the register. Whatever payments and reversals are delivered, of
  whatever accounts, repeated or with different amounts under one identifier, the settlement table is
  the register in which each message was entered, first come first served, with the contract its
  reference named before the first delivery, its amount in cents, and \<open>CONFIRMED\<close> or \<open>REVERSED\<close>;
  nothing else is entered, and a message that names no contract or has no amount enters nothing.
\<close>

theorem ledger_refines:
  "ledger_of (fold (deliver gen) ms d) = fold (\<lambda>m. record_first (message_entry d m)) ms (ledger_of d)"
proof (induction ms arbitrary: d)
  case (Cons m ms)
  have "message_entry (deliver gen m d) = message_entry d"
    by (rule ext) (rule message_entry_kept)
  then show ?case
    using Cons.IH [of "deliver gen m d"] by (simp add: deliver_records)
qed simp

end
