(* ===== verification/Operations.thy ===== *)
theory Operations
  imports Settlement
begin

text \<open>
  Sending debts to Serasa and removing them there: the operations service
  (\<open>providers/operations.service.ts\<close>).

  An operation has one item per contract. Creating it writes the operation, its items, the Serasa
  status of the contracts and one job per item to the queue; \<open>queue\<close> holds every job ever added,
  since BullMQ may deliver a job again. The worker that executes the jobs is in \<open>SerasaWorker\<close>.

  \<open>gen\<close> is the generator of identifiers, \<open>now\<close> the clock, and \<open>today\<close> the current day in
  \<open>America/Sao_Paulo\<close> as midnight UTC, which the code obtains from \<open>Intl.DateTimeFormat\<close>. Ages are
  whole days.
\<close>

section \<open>Eligibility\<close>

definition ELIGIBLE_FOR_CREATE :: "serasa_status list" where
  "ELIGIBLE_FOR_CREATE = [SE_NOT_ENABLED, SE_PENDING, SE_FAILED, SE_REMOVED]"

definition ELIGIBLE_FOR_REMOVE :: "serasa_status list" where
  "ELIGIBLE_FOR_REMOVE = [SE_REGISTERED, SE_UPDATED]"

definition BATCH_SIZE :: nat where
  "BATCH_SIZE = 1"

datatype comparison = CMP_GT | CMP_LT | CMP_EQ

record operation_filters =
  fl_contractStatus :: "contract_status option"
  fl_search :: "string option"
  fl_serasaStatus :: "serasa_status option"
  fl_paymentStatus :: "payment_status option"
  fl_resyncOnly :: bool
  fl_installmentOnly :: bool
  fl_minOriginalValue :: "rat option"
  fl_maxOriginalValue :: "rat option"
  fl_minUpdatedValue :: "rat option"
  fl_maxUpdatedValue :: "rat option"
  fl_updatedValueOperator :: "comparison option"
  fl_updatedValue :: "rat option"
  fl_offerValueOperator :: "comparison option"
  fl_offerValue :: "rat option"
  fl_agingOperator :: "comparison option"
  fl_aging :: "int option"
  fl_dateFrom :: "int option"
  fl_dateTo :: "int option"

text \<open>A condition on a date column; a later entry of the object literal replaces an earlier one.\<close>

record date_cond =
  dc_gte :: "int option"
  dc_lt :: "int option"
  dc_lte :: "int option"

definition date_ok :: "date_cond \<Rightarrow> int \<Rightarrow> bool" where
  "date_ok c t \<longleftrightarrow>
     (case dc_gte c of None \<Rightarrow> True | Some x \<Rightarrow> x \<le> t) \<and>
     (case dc_lt c of None \<Rightarrow> True | Some x \<Rightarrow> t < x) \<and>
     (case dc_lte c of None \<Rightarrow> True | Some x \<Rightarrow> t \<le> x)"

definition applyAgingComparison ::
  "int \<Rightarrow> comparison option \<Rightarrow> int option \<Rightarrow> date_cond \<Rightarrow> date_cond" where
  "applyAgingComparison today oper aging c =
     (case (oper, aging) of
        (Some p, Some n) \<Rightarrow>
          let day = (\<lambda>offset. today + offset * 86400000)
          in (case p of
                CMP_GT \<Rightarrow> c\<lparr>dc_lt := Some (day (- n))\<rparr>
              | CMP_LT \<Rightarrow> c\<lparr>dc_gte := Some (day (- (n - 1)))\<rparr>
              | CMP_EQ \<Rightarrow> c\<lparr>dc_gte := Some (day (- n)), dc_lt := Some (day (- (n - 1)))\<rparr>)
      | _ \<Rightarrow> c)"

definition compare_by :: "comparison \<Rightarrow> rat \<Rightarrow> rat \<Rightarrow> bool" where
  "compare_by p x y = (case p of CMP_GT \<Rightarrow> y < x | CMP_LT \<Rightarrow> x < y | CMP_EQ \<Rightarrow> x = y)"

definition in_range :: "rat option \<Rightarrow> rat option \<Rightarrow> rat \<Rightarrow> bool" where
  "in_range lo hi x \<longleftrightarrow>
     (case lo of None \<Rightarrow> True | Some y \<Rightarrow> y \<le> x) \<and> (case hi of None \<Rightarrow> True | Some y \<Rightarrow> x \<le> y)"

definition getEligibleStatuses :: "operation_action \<Rightarrow> bool \<Rightarrow> serasa_status list" where
  "getEligibleStatuses action resyncOnly =
     (if resyncOnly then ELIGIBLE_FOR_REMOVE
      else if action = CREATE_OR_UPDATE then ELIGIBLE_FOR_CREATE
      else ELIGIBLE_FOR_REMOVE)"

definition search_ok :: "string option \<Rightarrow> contract \<Rightarrow> bool" where
  "search_ok search c =
     (case search of
        None \<Rightarrow> True
      | Some s \<Rightarrow>
          let term = trim s; document = digits_only term
          in term = '''' \<or>
             has_infix (to_lower term) (to_lower (ct_contractNumber c)) \<or>
             (document \<noteq> '''' \<and> ct_debtorDocument c = document))"

definition payment_filter :: "operation_action \<Rightarrow> operation_filters \<Rightarrow> payment_status option" where
  \<comment> \<open>\<open>where.paymentStatus\<close>: the filter of the request replaces the one of the action\<close>
  "payment_filter action f =
     or_opt (fl_paymentStatus f)
       (if action = REMOVE \<or> fl_resyncOnly f then None else Some PS_OPEN)"

definition eligible_row ::
  "int \<Rightarrow> string \<Rightarrow> operation_action \<Rightarrow> serasa_status list \<Rightarrow> operation_filters \<Rightarrow> contract \<Rightarrow> bool" where
  \<comment> \<open>the \<open>where\<close> object of \<open>selectEligibleContracts\<close>\<close>
  "eligible_row today walletId action statuses f c \<longleftrightarrow>
     ct_walletId c = walletId \<and> ct_status c = CT_ACTIVE \<and> ct_deletedAt c = None \<and>
     (case fl_serasaStatus f of
        None \<Rightarrow> ct_serasaStatus c \<in> set statuses
      | Some s \<Rightarrow> ct_serasaStatus c = s) \<and>
     (if action = REMOVE \<or> fl_resyncOnly f then ct_debtId c \<noteq> None else True) \<and>
     (case payment_filter action f of None \<Rightarrow> True | Some p \<Rightarrow> ct_paymentStatus c = p) \<and>
     search_ok (fl_search f) c \<and>
     (if fl_installmentOnly f
      then (case ag_totalInstallments (ct_agreement c) of None \<Rightarrow> False | Some n \<Rightarrow> 1 < n)
      else True) \<and>
     in_range (fl_minOriginalValue f) (fl_maxOriginalValue f) (ct_originalValue c) \<and>
     (case (fl_updatedValueOperator f, fl_updatedValue f) of
        (Some p, Some y) \<Rightarrow> compare_by p (ct_updatedValue c) y
      | _ \<Rightarrow> in_range (fl_minUpdatedValue f) (fl_maxUpdatedValue f) (ct_updatedValue c)) \<and>
     (case (fl_offerValueOperator f, fl_offerValue f) of
        (Some p, Some y) \<Rightarrow>
          (case of_value (ct_offer c) of None \<Rightarrow> False | Some x \<Rightarrow> compare_by p x y)
      | _ \<Rightarrow> True) \<and>
     date_ok
       (let c1 = applyAgingComparison today (fl_agingOperator f) (fl_aging f)
                   \<lparr>dc_gte = None, dc_lt = None, dc_lte = None\<rparr>
        in c1\<lparr>dc_gte := or_opt (fl_dateFrom f) (dc_gte c1), dc_lte := or_opt (fl_dateTo f) (dc_lte c1)\<rparr>)
       (ct_occurrenceDate c)"

definition selectEligibleContracts ::
  "int \<Rightarrow> string \<Rightarrow> operation_action \<Rightarrow> serasa_status list \<Rightarrow> operation_filters \<Rightarrow> database \<Rightarrow> contract list" where
  "selectEligibleContracts today walletId action statuses f d =
     (if fl_contractStatus f \<noteq> None \<and> fl_contractStatus f \<noteq> Some CT_ACTIVE then []
      else if (case fl_serasaStatus f of None \<Rightarrow> False | Some s \<Rightarrow> s \<notin> set statuses) then []
      else sort_key ct_createdAt (filter (eligible_row today walletId action statuses f) (contracts d)))"

section \<open>Creating operations\<close>

definition getSerasaProvider :: "string \<Rightarrow> database \<Rightarrow> http_error + provider" where
  \<comment> \<open>\<open>SERASA_LNOP\<close> is the only provider type of the schema\<close>
  "getSerasaProvider acc d =
     (case List.find (\<lambda>p. pv_accountId p = acc) (providers d) of
        None \<Rightarrow> Inl (Unprocessable ''A integracao da Serasa nao esta ativa para esta conta'')
      | Some p \<Rightarrow> Inr p)"

definition add_operation ::
  "(nat \<Rightarrow> string) \<Rightarrow> provider_operation \<Rightarrow> database \<Rightarrow> provider_operation \<times> database" where
  "add_operation gen op d =
     (let op' = op\<lparr>op_id := gen (nextId d)\<rparr>
      in (op', d\<lparr>operations := operations d @ [op'], nextId := Suc (nextId d)\<rparr>))"

definition new_item :: "string \<Rightarrow> string \<Rightarrow> nat \<Rightarrow> int \<Rightarrow> operation_item" where
  "new_item operationId contractId batchIndex now =
     \<lparr>it_id = '''', it_operationId = operationId, it_contractId = contractId,
      it_batchIndex = batchIndex, it_status = IT_PENDING, it_transactionId = None, it_debtId = None,
      it_errorCode = None, it_errorMessage = None, it_attempts = 0, it_lastAttemptAt = None,
      it_createdAt = now\<rparr>"

definition add_item :: "(nat \<Rightarrow> string) \<Rightarrow> operation_item \<Rightarrow> database \<Rightarrow> database" where
  "add_item gen it d =
     d\<lparr>items := items d @ [it\<lparr>it_id := gen (nextId d)\<rparr>], nextId := Suc (nextId d)\<rparr>"

fun add_items :: "(nat \<Rightarrow> string) \<Rightarrow> operation_item list \<Rightarrow> database \<Rightarrow> database" where
  \<comment> \<open>\<open>createMany\<close>\<close>
  "add_items gen [] d = d"
| "add_items gen (it # its) d = add_items gen its (add_item gen it d)"

definition add_jobs :: "operation_job list \<Rightarrow> database \<Rightarrow> database" where
  "add_jobs js d = d\<lparr>queue := queue d @ js\<rparr>"

definition batch_job :: "provider_operation \<Rightarrow> nat \<Rightarrow> operation_job" where
  "batch_job op i =
     \<lparr>oj_operationId = op_id op, oj_batchIndex = i, oj_providerId = op_providerId op,
      oj_action = op_action op\<rparr>"

definition update_contracts :: "string list \<Rightarrow> (contract \<Rightarrow> contract) \<Rightarrow> database \<Rightarrow> database" where
  "update_contracts ids f d = d\<lparr>contracts := update_where (\<lambda>c. ct_id c \<in> set ids) f (contracts d)\<rparr>"

definition submitted_status :: "operation_action \<Rightarrow> serasa_status" where
  "submitted_status action = (if action = REMOVE then SE_REMOVING else SE_SENT)"

definition pending_operation ::
  "string \<Rightarrow> string \<Rightarrow> string \<Rightarrow> string \<Rightarrow> operation_action \<Rightarrow> nat \<Rightarrow> int \<Rightarrow> provider_operation" where
  "pending_operation acc providerId walletId userId action n now =
     \<lparr>op_id = '''', op_accountId = acc, op_providerId = providerId, op_walletId = walletId,
      op_userId = userId, op_action = action, op_status = OP_PENDING, op_totalItems = n,
      op_createdAt = now\<rparr>"

definition preview ::
  "int \<Rightarrow> string \<Rightarrow> operation_action \<Rightarrow> string \<Rightarrow> operation_filters \<Rightarrow> database \<Rightarrow> http_error + nat \<times> nat" where
  \<comment> \<open>eligible contracts and batches\<close>
  "preview today walletId action acc f d =
     (case List.find (\<lambda>w. wl_id w = walletId \<and> wl_accountId w = acc \<and> wl_deletedAt w = None) (wallets d) of
        None \<Rightarrow> Inl (Unprocessable ''Wallet nao encontrada'')
      | Some _ \<Rightarrow>
     (case getSerasaProvider acc d of
        Inl err \<Rightarrow> Inl err
      | Inr _ \<Rightarrow>
          if fl_resyncOnly f \<and> action \<noteq> CREATE_OR_UPDATE
          then Inl (Unprocessable ''Ressincronizacao e permitida somente para atualizacao'')
          else let n = length (selectEligibleContracts today walletId action
                         (getEligibleStatuses action (fl_resyncOnly f)) f d)
               in Inr (n, (n + BATCH_SIZE - 1) div BATCH_SIZE)))"

definition create_operation ::
  "(nat \<Rightarrow> string) \<Rightarrow> int \<Rightarrow> int \<Rightarrow> string \<Rightarrow> operation_action \<Rightarrow> string \<Rightarrow> string \<Rightarrow> operation_filters
     \<Rightarrow> database \<Rightarrow> (database, provider_operation) outcome" where
  \<comment> \<open>\<open>OperationsService.create\<close>\<close>
  "create_operation gen now today walletId action userId acc f d =
     (case List.find (\<lambda>w. wl_id w = walletId \<and> wl_accountId w = acc \<and> wl_deletedAt w = None) (wallets d) of
        None \<Rightarrow> (Inl (Unprocessable ''Wallet nao encontrada''), d)
      | Some _ \<Rightarrow>
     (case getSerasaProvider acc d of
        Inl err \<Rightarrow> (Inl err, d)
      | Inr pv \<Rightarrow>
     if fl_resyncOnly f \<and> action \<noteq> CREATE_OR_UPDATE
     then (Inl (Unprocessable ''Ressincronizacao e permitida somente para atualizacao''), d)
     else
     let sel = selectEligibleContracts today walletId action
                 (getEligibleStatuses action (fl_resyncOnly f)) f d;
         ids = map ct_id sel;
         totalItems = length sel;
         totalBatches = (totalItems + BATCH_SIZE - 1) div BATCH_SIZE
     in if totalItems = 0
        then (Inl (Unprocessable ''Nenhum contrato elegivel encontrado para esta operacao''), d)
        else
        let (op, d1) = add_operation gen
                         (pending_operation acc (pv_id pv) walletId userId action totalItems now) d;
            d2 = add_items gen
                   (map (\<lambda>(c, i). new_item (op_id op) c (i div BATCH_SIZE) now) (zip ids [0..<totalItems])) d1;
            d3 = update_contracts ids (\<lambda>c. c\<lparr>ct_serasaStatus := submitted_status action\<rparr>) d2
        in (Inr op, add_jobs (map (batch_job op) [0..<totalBatches]) d3)))"

definition createForContract ::
  "(nat \<Rightarrow> string) \<Rightarrow> int \<Rightarrow> string \<Rightarrow> string \<Rightarrow> string \<Rightarrow> operation_action \<Rightarrow> bool
     \<Rightarrow> database \<Rightarrow> (database, provider_operation) outcome" where
  "createForContract gen now contractId userId acc action allowRegisteredUpdate d =
     (case List.find (\<lambda>c. ct_id c = contractId \<and> ct_accountId c = acc \<and> ct_deletedAt c = None \<and>
                         ct_status c = CT_ACTIVE) (contracts d) of
        None \<Rightarrow> (Inl (NotFound ''Contrato nao encontrado''), d)
      | Some ct \<Rightarrow>
     if action = CREATE_OR_UPDATE \<and> ct_paymentStatus ct \<noteq> PS_OPEN
     then (Inl (Conflict ''Apenas contratos financeiros em aberto podem ser sincronizados''), d)
     else
     (case getSerasaProvider acc d of
        Inl err \<Rightarrow> (Inl err, d)
      | Inr pv \<Rightarrow>
     let eligibleStatuses =
           (if action = REMOVE then ELIGIBLE_FOR_REMOVE @ [SE_SENT]
            else if allowRegisteredUpdate then ELIGIBLE_FOR_CREATE @ [SE_REGISTERED, SE_UPDATED]
            else ELIGIBLE_FOR_CREATE)
     in if ct_serasaStatus ct \<notin> set eligibleStatuses
        then (Inl (Conflict ''Este contrato nao esta elegivel''), d)
        else if action = REMOVE \<and> (ct_debtId ct = None \<or> ct_debtId ct = Some '''')
        then (Inl (Conflict ''Nao foi encontrada a identificacao da divida na Serasa''), d)
        else
        let (op, d1) = add_operation gen
                         (pending_operation acc (pv_id pv) (ct_walletId ct) userId action 1 now) d;
            d2 = add_item gen (new_item (op_id op) (ct_id ct) 0 now) d1;
            d3 = update_contract (ct_id ct) (\<lambda>c. c\<lparr>ct_serasaStatus := submitted_status action\<rparr>) d2
        in (Inr op, add_jobs [batch_job op 0] d3)))"

definition item_contract :: "database \<Rightarrow> operation_item \<Rightarrow> contract option" where
  "item_contract d it = List.find (\<lambda>c. ct_id c = it_contractId it) (contracts d)"

definition unconfirmed :: "string \<Rightarrow> database \<Rightarrow> operation_item list" where
  "unconfirmed operationId d =
     filter (\<lambda>it. it_operationId it = operationId \<and> it_status it = IT_WAITING_PROVIDER_EVENT \<and>
       (case item_contract d it of
          None \<Rightarrow> False
        | Some c \<Rightarrow> ct_status c = CT_ACTIVE \<and> ct_paymentStatus c = PS_OPEN \<and>
                    ct_serasaStatus c = SE_SENT)) (items d)"

definition retryUnconfirmedCreateOperation ::
  "(nat \<Rightarrow> string) \<Rightarrow> int \<Rightarrow> string \<Rightarrow> string \<Rightarrow> string \<Rightarrow> database \<Rightarrow> (database, provider_operation) outcome" where
  "retryUnconfirmedCreateOperation gen now sourceOperationId userId acc d =
     (case List.find (\<lambda>op. op_id op = sourceOperationId \<and> op_accountId op = acc \<and>
                          op_action op = CREATE_OR_UPDATE) (operations d) of
        None \<Rightarrow> (Inl (NotFound ''Operacao de inclusao nao encontrada''), d)
      | Some src \<Rightarrow>
     let its = unconfirmed sourceOperationId d;
         n = length its
     in if n = 0
        then (Inl (Unprocessable ''Nao ha contratos sem confirmacao para reenviar''), d)
        else
        let (op, d1) = add_operation gen
                         (pending_operation acc (op_providerId src) (op_walletId src) userId
                            CREATE_OR_UPDATE n now) d;
            d2 = add_items gen
                   (map (\<lambda>(it, i). new_item (op_id op) (it_contractId it) i now) (zip its [0..<n])) d1
        in (Inr op, add_jobs (map (batch_job op) [0..<n]) d2))"


section \<open>Cancelling contracts\<close>

record cancellation =
  cn_reason :: "cancellation_reason option"
  cn_channel :: "string option"
  cn_provider :: "string option"

definition reason_name :: "cancellation_reason \<Rightarrow> string" where
  "reason_name r =
     (case r of
        CREDITOR_REQUEST \<Rightarrow> ''CREDITOR_REQUEST''
      | CONTESTATION \<Rightarrow> ''CONTESTATION''
      | PROCON \<Rightarrow> ''PROCON''
      | RECLAME_AQUI \<Rightarrow> ''RECLAME_AQUI''
      | EMAIL_REQUEST \<Rightarrow> ''EMAIL_REQUEST'')"

definition cancelContract ::
  "(nat \<Rightarrow> string) \<Rightarrow> int \<Rightarrow> string \<Rightarrow> string \<Rightarrow> string \<Rightarrow> string option \<Rightarrow> cancellation
     \<Rightarrow> database \<Rightarrow> (database, bool) outcome" where
  \<comment> \<open>the result is \<open>serasaRemovalQueued\<close>; a failed removal request is only logged\<close>
  "cancelContract gen now contractId userId acc creditorId cn d =
     (case List.find (\<lambda>c. ct_id c = contractId \<and> ct_accountId c = acc \<and> ct_deletedAt c = None \<and>
                         (case creditorId of
                            None \<Rightarrow> True
                          | Some cr \<Rightarrow> cr = '''' \<or> map_option wl_creditorId (wallet_of d c) = Some cr))
             (contracts d) of
        None \<Rightarrow> (Inl (NotFound ''Contrato nao encontrado''), d)
      | Some ct \<Rightarrow>
     if ct_status ct = CT_CANCELLED
     then (Inl (Conflict ''Este contrato ja esta cancelado''), d)
     else
     let (queued, d1) =
           (if ct_debtId ct \<noteq> None \<and> ct_debtId ct \<noteq> Some '''' \<and>
               ct_serasaStatus ct \<in> set (ELIGIBLE_FOR_REMOVE @ [SE_SENT])
            then (case createForContract gen now contractId userId acc REMOVE False d of
                    (Inl _, d') \<Rightarrow> (False, d')
                  | (Inr _, d') \<Rightarrow> (True, d'))
            else (False, d));
         reason = or_else (cn_reason cn) CREDITOR_REQUEST;
         d2 = update_contract contractId
                (\<lambda>c. c\<lparr>ct_status := CT_CANCELLED, ct_cancelledAt := Some now,
                       ct_cancellationReason := Some reason\<rparr>) d1;
         d3 = create_interaction gen
                \<lparr>ia_id = '''', ia_contractId = contractId, ia_accountId = acc,
                 ia_walletId = ct_walletId ct, ia_channel = or_else (cn_channel cn) ''WHATSAPP'',
                 ia_status = IA_COMPLETED, ia_provider = cn_provider cn, ia_externalId = None,
                 ia_payload = JObj [(''cancellationReason'', JStr (reason_name reason)),
                                    (''serasaRemovalQueued'', JBool queued)],
                 ia_occurredAt = now\<rparr> d2
     in (Inr queued, d3))"

definition oldest_user :: "string \<Rightarrow> database \<Rightarrow> user option" where
  \<comment> \<open>the first active user of the account by creation date\<close>
  "oldest_user acc d =
     (case sort_key us_createdAt (filter (\<lambda>u. us_accountId u = acc \<and> us_isActive u) (users d)) of
        [] \<Rightarrow> None
      | u # _ \<Rightarrow> Some u)"

definition cancelForContest ::
  "(nat \<Rightarrow> string) \<Rightarrow> int \<Rightarrow> string \<Rightarrow> string \<Rightarrow> string \<Rightarrow> database \<Rightarrow> (database, bool) outcome" where
  "cancelForContest gen now contractId acc prov d =
     (case oldest_user acc d of
        None \<Rightarrow> (Inl (Unprocessable ''Nao ha usuario ativo para registrar a contestacao''), d)
      | Some u \<Rightarrow>
          cancelContract gen now contractId (us_id u) acc None
            \<lparr>cn_reason = Some CONTESTATION, cn_channel = Some ''WHATSAPP'', cn_provider = Some prov\<rparr> d)"

section \<open>Automatic removals\<close>

definition createAutomaticRemovalForPaidContract ::
  "(nat \<Rightarrow> string) \<Rightarrow> int \<Rightarrow> string \<Rightarrow> string \<Rightarrow> database \<Rightarrow> (database, unit) outcome" where
  "createAutomaticRemovalForPaidContract gen now contractId acc d =
     (case List.find (\<lambda>c. ct_id c = contractId \<and> ct_accountId c = acc \<and> ct_deletedAt c = None \<and>
                         ct_debtId c \<noteq> None \<and> ct_serasaStatus c \<in> {SE_SENT, SE_REGISTERED, SE_UPDATED})
             (contracts d) of
        None \<Rightarrow> (Inr (), d)
      | Some _ \<Rightarrow>
     (case List.find (\<lambda>it. it_contractId it = contractId \<and>
                          (\<exists>op \<in> set (operations d). op_id op = it_operationId it \<and> op_action op = REMOVE \<and>
                             op_status op \<in> {OP_PENDING, OP_PROCESSING})) (items d) of
        Some _ \<Rightarrow> (Inr (), d)
      | None \<Rightarrow>
     (case oldest_user acc d of
        None \<Rightarrow> (Inr (), d)
      | Some u \<Rightarrow>
     (case createForContract gen now contractId (us_id u) acc REMOVE False d of
        (Inl err, d') \<Rightarrow> (Inl err, d')
      | (Inr _, d') \<Rightarrow> (Inr (), d')))))"

definition REMOVAL_INITIAL_RETRY_MINUTES :: nat where
  "REMOVAL_INITIAL_RETRY_MINUTES = 30"

definition REMOVAL_MAX_ATTEMPTS :: nat where
  "REMOVAL_MAX_ATTEMPTS = 5"

definition retry_delay_minutes :: "nat \<Rightarrow> nat" where
  "retry_delay_minutes attempts = REMOVAL_INITIAL_RETRY_MINUTES * min (2 ^ (attempts - 1)) 16"

definition item_operation :: "database \<Rightarrow> operation_item \<Rightarrow> provider_operation option" where
  "item_operation d it = List.find (\<lambda>op. op_id op = it_operationId it) (operations d)"

definition stale_removals :: "database \<Rightarrow> operation_item list" where
  \<comment> \<open>oldest attempt first, items without an attempt last\<close>
  "stale_removals d =
     (let its = filter (\<lambda>it. it_status it = IT_WAITING_PROVIDER_EVENT \<and>
                  map_option op_action (item_operation d it) = Some REMOVE \<and>
                  (case item_contract d it of
                     None \<Rightarrow> False
                   | Some c \<Rightarrow> ct_serasaStatus c = SE_REMOVING \<and> ct_deletedAt c = None)) (items d)
      in take 100
           (sort_key (\<lambda>it. or_else (it_lastAttemptAt it) 0) (filter (\<lambda>it. it_lastAttemptAt it \<noteq> None) its)
            @ filter (\<lambda>it. it_lastAttemptAt it = None) its))"

definition update_items :: "(operation_item \<Rightarrow> bool) \<Rightarrow> (operation_item \<Rightarrow> operation_item) \<Rightarrow> database \<Rightarrow> database" where
  "update_items P f d = d\<lparr>items := update_where P f (items d)\<rparr>"

definition set_operation_status :: "string \<Rightarrow> operation_status \<Rightarrow> database \<Rightarrow> database" where
  "set_operation_status i st d =
     d\<lparr>operations := update_where (\<lambda>op. op_id op = i) (\<lambda>op. op\<lparr>op_status := st\<rparr>) (operations d)\<rparr>"

definition removal_due :: "int \<Rightarrow> operation_item \<Rightarrow> bool" where
  "removal_due now it \<longleftrightarrow>
     (case it_lastAttemptAt it of
        None \<Rightarrow> True
      | Some t \<Rightarrow> int (retry_delay_minutes (it_attempts it)) * 60000 \<le> now - t)"

definition reconcile_removal :: "int \<Rightarrow> operation_item \<Rightarrow> database \<Rightarrow> database" where
  \<comment> \<open>the body of the loop; \<open>it\<close> is the row as it was read before the loop\<close>
  "reconcile_removal now it d =
     (if \<not> removal_due now it then d
      else if REMOVAL_MAX_ATTEMPTS \<le> it_attempts it then
        update_contract (it_contractId it) (\<lambda>c. c\<lparr>ct_serasaStatus := SE_FAILED\<rparr>)
          (update_items (\<lambda>r. it_id r = it_id it)
             (\<lambda>r. r\<lparr>it_status := IT_FAILED, it_errorCode := Some ''REMOVAL_WEBHOOK_TIMEOUT'',
                    it_errorMessage := Some ''Serasa nao confirmou a remocao apos tentativas automaticas.''\<rparr>) d)
      else if count_where (\<lambda>r. it_id r = it_id it \<and> it_status r = IT_WAITING_PROVIDER_EVENT) (items d) = 0
      then d
      else
        add_jobs [\<lparr>oj_operationId = it_operationId it, oj_batchIndex = it_batchIndex it,
                   oj_providerId = or_else (map_option op_providerId (item_operation d it)) '''',
                   oj_action = REMOVE\<rparr>]
          (set_operation_status (it_operationId it) OP_PENDING
             (update_items (\<lambda>r. it_id r = it_id it \<and> it_status r = IT_WAITING_PROVIDER_EVENT)
                (\<lambda>r. r\<lparr>it_status := IT_PENDING\<rparr>) d)))"

definition reconcileStaleSerasaRemovals :: "int \<Rightarrow> database \<Rightarrow> database" where
  "reconcileStaleSerasaRemovals now d = fold (reconcile_removal now) (stale_removals d) d"

section \<open>Listing and cancelling operations\<close>

definition withItemCounts ::
  "database \<Rightarrow> provider_operation list \<Rightarrow> (provider_operation \<times> nat \<times> nat) list" where
  \<comment> \<open>processed and failed items of each operation\<close>
  "withItemCounts d ops =
     map (\<lambda>op. (op,
        count_where (\<lambda>it. it_operationId it = op_id op \<and>
          it_status it \<in> {IT_REGISTERED, IT_UPDATED, IT_REMOVED}) (items d),
        count_where (\<lambda>it. it_operationId it = op_id op \<and> it_status it = IT_FAILED) (items d))) ops"

definition operation_visible ::
  "string option \<Rightarrow> operation_status option \<Rightarrow> string \<Rightarrow> string list option \<Rightarrow> provider_operation \<Rightarrow> bool" where
  \<comment> \<open>the \<open>where\<close> object of \<open>findAll\<close>\<close>
  "operation_visible walletId status acc scopes op \<longleftrightarrow>
     op_accountId op = acc \<and>
     (case walletId of Some w \<Rightarrow> op_walletId op = w
      | None \<Rightarrow> (case scopes of None \<Rightarrow> True | Some ws \<Rightarrow> op_walletId op \<in> set ws)) \<and>
     (case status of None \<Rightarrow> True | Some s \<Rightarrow> op_status op = s)"

definition findAll_operations ::
  "nat \<Rightarrow> nat \<Rightarrow> string option \<Rightarrow> operation_status option \<Rightarrow> string \<Rightarrow> string list option \<Rightarrow> database
     \<Rightarrow> (provider_operation \<times> nat \<times> nat) list \<times> nat \<times> nat" where
  \<comment> \<open>\<open>findAll\<close>: the page, the total and the number of pages; \<open>page\<close> and \<open>limit\<close> are positive\<close>
  "findAll_operations page limit walletId status acc scopes d =
     (if (case (scopes, walletId) of (Some ws, Some w) \<Rightarrow> w \<notin> set ws | _ \<Rightarrow> False) then ([], 0, 0)
      else let all = filter (operation_visible walletId status acc scopes) (operations d);
               ops = take limit (drop ((page - 1) * limit) (sort_key (\<lambda>op. - op_createdAt op) all));
               cnt = length all
           in (withItemCounts d ops, cnt, (cnt + limit - 1) div limit))"

definition findOne_operation ::
  "string \<Rightarrow> string \<Rightarrow> string list option \<Rightarrow> database
     \<Rightarrow> http_error + provider_operation \<times> operation_item list \<times> nat \<times> nat" where
  "findOne_operation operationId acc scopes d =
     (case List.find (\<lambda>op. op_id op = operationId \<and> op_accountId op = acc) (operations d) of
        None \<Rightarrow> Inl (NotFound ''Operacao nao encontrada'')
      | Some op \<Rightarrow>
          if (case scopes of None \<Rightarrow> False | Some ws \<Rightarrow> op_walletId op \<notin> set ws)
          then Inl (NotFound ''Operacao nao encontrada'')
          else Inr (op,
                 sort_key it_batchIndex (sort_key it_createdAt
                   (filter (\<lambda>it. it_operationId it = operationId) (items d))),
                 snd (hd (withItemCounts d [op]))))"

definition findItems ::
  "string \<Rightarrow> nat option \<Rightarrow> nat option \<Rightarrow> string \<Rightarrow> string list option \<Rightarrow> database
     \<Rightarrow> http_error + operation_item list \<times> nat" where
  "findItems operationId page limit acc scopes d =
     (case List.find (\<lambda>op. op_id op = operationId \<and> op_accountId op = acc) (operations d) of
        None \<Rightarrow> Inl (NotFound ''Operacao nao encontrada'')
      | Some op \<Rightarrow>
          if (case scopes of None \<Rightarrow> False | Some ws \<Rightarrow> op_walletId op \<notin> set ws)
          then Inl (NotFound ''Operacao nao encontrada'')
          else let p = or_else page 1; l = or_else limit 20;
                   all = filter (\<lambda>it. it_operationId it = operationId) (items d)
               in Inr (take l (drop ((p - 1) * l) (sort_key it_batchIndex (sort_key it_createdAt all))),
                       length all))"

definition cancel_operation ::
  "string \<Rightarrow> string \<Rightarrow> database \<Rightarrow> (database, operation_status) outcome" where
  \<comment> \<open>\<open>OperationsService.cancel\<close>\<close>
  "cancel_operation operationId acc d =
     (case List.find (\<lambda>op. op_id op = operationId \<and> op_accountId op = acc) (operations d) of
        None \<Rightarrow> (Inl (NotFound ''Operacao nao encontrada''), d)
      | Some op \<Rightarrow>
          if op_status op \<noteq> OP_PENDING
          then (Inl (Conflict ''Nao e possivel cancelar uma operacao com este status''), d)
          else (Inr OP_CANCELLED,
                set_operation_status operationId OP_CANCELLED
                  (update_items (\<lambda>it. it_operationId it = operationId \<and> it_status it = IT_PENDING)
                     (\<lambda>it. it\<lparr>it_status := IT_FAILED, it_errorCode := Some ''CANCELLED'',
                              it_errorMessage := Some ''Operacao cancelada pelo usuario''\<rparr>) d)))"


section \<open>Frames\<close>

lemma add_operation_frame [row_simps]:
  assumes "add_operation gen op d = (op', d')"
  shows "op' = op\<lparr>op_id := gen (nextId d)\<rparr>" and "operations d' = operations d @ [op']"
    and "items d' = items d" and "contracts d' = contracts d" and "queue d' = queue d"
    and "interactions d' = interactions d" and "nextId d' = Suc (nextId d)" and "pay_frame d d'"
  using assms by (auto simp: add_operation_def Let_def pay_frame_def)

definition numbered :: "(nat \<Rightarrow> string) \<Rightarrow> nat \<Rightarrow> operation_item list \<Rightarrow> operation_item list" where
  "numbered gen n its = map2 (\<lambda>it k. it\<lparr>it_id := gen k\<rparr>) its [n..<n + length its]"

lemma numbered_Nil [simp]: "numbered gen n [] = []"
  by (simp add: numbered_def)

lemma numbered_Cons [simp]: "numbered gen n (it # its) = it\<lparr>it_id := gen n\<rparr> # numbered gen (Suc n) its"
  by (simp add: numbered_def upt_conv_Cons del: upt_Suc)

lemma map_numbered: "(\<And>it k. f (it\<lparr>it_id := k\<rparr>) = f it) \<Longrightarrow> map f (numbered gen n its) = map f its"
  by (induction its arbitrary: n) auto

lemma in_numbered: "x \<in> set (numbered gen n its) \<Longrightarrow> \<exists>it \<in> set its. \<exists>k \<ge> n. k < n + length its \<and> x = it\<lparr>it_id := gen k\<rparr>"
proof (induction its arbitrary: n)
  case (Cons it its)
  then consider "x = it\<lparr>it_id := gen n\<rparr>" | "x \<in> set (numbered gen (Suc n) its)"
    by auto
  then show ?case
  proof cases
    case 2
    then obtain ita k where "ita \<in> set its" "Suc n \<le> k" "k < Suc n + length its" "x = ita\<lparr>it_id := gen k\<rparr>"
      using Cons.IH by blast
    then show ?thesis
      by (intro bexI [of _ ita] exI [of _ k]) auto
  next
    case 1
    then show ?thesis
      by (intro bexI [of _ it] exI [of _ n]) auto
  qed
qed simp

lemma pay_frame_nextId [simp]: "nextId d1 \<le> n \<Longrightarrow> pay_frame d d1 \<Longrightarrow> pay_frame d (d1\<lparr>nextId := n\<rparr>)"
  by (simp add: pay_frame_def)

lemma add_items_frame [row_simps, simp]:
  "items (add_items gen its d) = items d @ numbered gen (nextId d) its"
  "nextId (add_items gen its d) = nextId d + length its"
  "contracts (add_items gen its d) = contracts d"
  "operations (add_items gen its d) = operations d"
  "queue (add_items gen its d) = queue d"
  "charges (add_items gen its d) = charges d"
  "settlements (add_items gen its d) = settlements d"
  "events (add_items gen its d) = events d"
  "gateways (add_items gen its d) = gateways d"
  "wallets (add_items gen its d) = wallets d"
  "creditors (add_items gen its d) = creditors d"
  "users (add_items gen its d) = users d"
  "providers (add_items gen its d) = providers d"
  by (induction its arbitrary: d) (simp_all add: add_item_def)

lemma pay_frame_add_items [simp]: "pay_frame d d1 \<Longrightarrow> pay_frame d (add_items gen its d1)"
  by (simp add: pay_frame_def)

lemma add_item_frame [row_simps, simp]:
  "items (add_item gen it d) = items d @ [it\<lparr>it_id := gen (nextId d)\<rparr>]"
  "nextId (add_item gen it d) = Suc (nextId d)"
  "contracts (add_item gen it d) = contracts d"
  "operations (add_item gen it d) = operations d"
  "queue (add_item gen it d) = queue d"
  by (simp_all add: add_item_def)

lemma pay_frame_add_item [simp]: "pay_frame d d1 \<Longrightarrow> pay_frame d (add_item gen it d1)"
  by (simp add: pay_frame_def add_item_def)

lemma small_frames [row_simps, simp]:
  "items (add_jobs js d) = items d" "contracts (add_jobs js d) = contracts d"
  "operations (add_jobs js d) = operations d" "queue (add_jobs js d) = queue d @ js"
  "nextId (add_jobs js d) = nextId d" "interactions (add_jobs js d) = interactions d"
  "items (update_contracts ids f d) = items d" "operations (update_contracts ids f d) = operations d"
  "queue (update_contracts ids f d) = queue d" "nextId (update_contracts ids f d) = nextId d"
  "contracts (update_contracts ids f d) = update_where (\<lambda>c. ct_id c \<in> set ids) f (contracts d)"
  "items (update_items P g d) = update_where P g (items d)"
  "contracts (update_items P g d) = contracts d" "operations (update_items P g d) = operations d"
  "queue (update_items P g d) = queue d" "nextId (update_items P g d) = nextId d"
  "items (set_operation_status i st d) = items d" "contracts (set_operation_status i st d) = contracts d"
  "queue (set_operation_status i st d) = queue d" "nextId (set_operation_status i st d) = nextId d"
  "operations (set_operation_status i st d) =
     update_where (\<lambda>op. op_id op = i) (\<lambda>op. op\<lparr>op_status := st\<rparr>) (operations d)"
  by (simp_all add: add_jobs_def update_contracts_def update_items_def set_operation_status_def)

lemma pay_frame_small [simp]:
  "pay_frame d (add_jobs js d1) = pay_frame d d1"
  "pay_frame d (update_contracts ids f d1) = pay_frame d d1"
  "pay_frame d (update_items P g d1) = pay_frame d d1"
  "pay_frame d (set_operation_status i st d1) = pay_frame d d1"
  by (simp_all add: add_jobs_def update_contracts_def update_items_def set_operation_status_def)

lemma pending_operation_fields [simp]:
  "op_status (pending_operation acc pv w u a n now) = OP_PENDING"
  "op_totalItems (pending_operation acc pv w u a n now) = n"
  "op_action (pending_operation acc pv w u a n now) = a"
  "op_walletId (pending_operation acc pv w u a n now) = w"
  "op_accountId (pending_operation acc pv w u a n now) = acc"
  "op_providerId (pending_operation acc pv w u a n now) = pv"
  by (simp_all add: pending_operation_def)

lemma new_item_fields [simp]:
  "it_operationId (new_item i c b now) = i" "it_contractId (new_item i c b now) = c"
  "it_batchIndex (new_item i c b now) = b" "it_status (new_item i c b now) = IT_PENDING"
  "it_attempts (new_item i c b now) = 0"
  by (simp_all add: new_item_def)

section \<open>What creating an operation does\<close>

lemma BATCH_SIZE_simps [simp]:
  "i div BATCH_SIZE = i" "(n + BATCH_SIZE - 1) div BATCH_SIZE = n" "n + BATCH_SIZE - Suc 0 = n"
  by (simp_all add: BATCH_SIZE_def)

definition operation_created ::
  "(nat \<Rightarrow> string) \<Rightarrow> int \<Rightarrow> string list \<Rightarrow> bool \<Rightarrow> provider_operation \<Rightarrow> database \<Rightarrow> database \<Rightarrow> bool" where
  \<comment> \<open>\<open>op\<close> was added with one pending item and one job for each of the contracts \<open>cs\<close>; \<open>marked\<close>: their
      Serasa status was set to that of a submitted action\<close>
  "operation_created gen now cs marked op d d' \<longleftrightarrow>
     op_status op = OP_PENDING \<and> op_totalItems op = length cs \<and> op_id op = gen (nextId d) \<and>
     operations d' = operations d @ [op] \<and>
     items d' = items d @ numbered gen (Suc (nextId d))
       (map2 (\<lambda>c i. new_item (op_id op) c i now) cs [0..<length cs]) \<and>
     queue d' = queue d @ map (batch_job op) [0..<length cs] \<and>
     contracts d' = (if marked
       then update_where (\<lambda>c. ct_id c \<in> set cs)
              (\<lambda>c. c\<lparr>ct_serasaStatus := submitted_status (op_action op)\<rparr>) (contracts d)
       else contracts d) \<and>
     interactions d' = interactions d \<and> nextId d' = Suc (nextId d) + length cs \<and> pay_frame d d'"

lemma interactions_add_items [simp]: "interactions (add_items gen its d) = interactions d"
  by (induction its arbitrary: d) (simp_all add: add_item_def)

lemma interactions_small [simp]:
  "interactions (add_item gen it d) = interactions d"
  "interactions (update_contracts ids f d) = interactions d"
  "interactions (update_items P g d) = interactions d"
  "interactions (set_operation_status i st d) = interactions d"
  by (simp_all add: add_item_def update_contracts_def update_items_def set_operation_status_def)

lemma operation_created_intro:
  assumes "op = op0\<lparr>op_id := gen (nextId d)\<rparr>" and "op_status op0 = OP_PENDING" and "op_totalItems op0 = length cs"
    and "d' = add_jobs (map (batch_job op) [0..<length cs])
      (if marked then update_contracts cs (\<lambda>c. c\<lparr>ct_serasaStatus := submitted_status (op_action op)\<rparr>) d2 else d2)"
    and "d2 = add_items gen (map2 (\<lambda>c i. new_item (op_id op) c i now) cs [0..<length cs])
      (d\<lparr>operations := operations d @ [op], nextId := Suc (nextId d)\<rparr>)"
  shows "operation_created gen now cs marked op d d'"
  using assms by (auto simp: operation_created_def)

lemma create_operation_cases:
  assumes "create_operation gen now today w act u acc f d = (r, d')"
  obtains (refused) err where "r = Inl err" and "d' = d"
  | (created) op sel where "r = Inr op"
      and "sel = selectEligibleContracts today w act (getEligibleStatuses act (fl_resyncOnly f)) f d"
      and "sel \<noteq> []" and "fl_resyncOnly f \<longrightarrow> act = CREATE_OR_UPDATE"
      and "operation_created gen now (map ct_id sel) True op d d'"
      and "op_action op = act" and "op_walletId op = w" and "op_accountId op = acc"
proof -
  let ?sel = "selectEligibleContracts today w act (getEligibleStatuses act (fl_resyncOnly f)) f d"
  show ?thesis
  proof (cases "\<exists>err. r = Inl err")
    case True
    then show ?thesis
      using assms refused
      by (auto simp: create_operation_def Let_def split_beta split: option.splits sum.splits if_splits)
  next
    case False
    have ok: "\<exists>w0. List.find (\<lambda>x. wl_id x = w \<and> wl_accountId x = acc \<and> wl_deletedAt x = None) (wallets d) = Some w0"
      "\<exists>pv. getSerasaProvider acc d = Inr pv" "\<not> (fl_resyncOnly f \<and> act \<noteq> CREATE_OR_UPDATE)" "?sel \<noteq> []"
      using assms False
      by (auto simp: create_operation_def Let_def split_beta split: option.splits sum.splits if_splits)
    then obtain w0 pv where
      "List.find (\<lambda>x. wl_id x = w \<and> wl_accountId x = acc \<and> wl_deletedAt x = None) (wallets d) = Some w0"
      "getSerasaProvider acc d = Inr pv" by blast
    then have "r = Inr ((pending_operation acc (pv_id pv) w u act (length ?sel) now)\<lparr>op_id := gen (nextId d)\<rparr>) \<and>
      d' = add_jobs (map (batch_job (projr r)) [0..<length ?sel])
        (update_contracts (map ct_id ?sel) (\<lambda>c. c\<lparr>ct_serasaStatus := submitted_status act\<rparr>)
          (add_items gen (map2 (\<lambda>c i. new_item (gen (nextId d)) c i now) (map ct_id ?sel) [0..<length ?sel])
            (d\<lparr>operations := operations d @ [projr r], nextId := Suc (nextId d)\<rparr>)))"
      using assms ok(3,4) unfolding create_operation_def
      by (auto simp: Let_def add_operation_def)
    then have r: "r = Inr ((pending_operation acc (pv_id pv) w u act (length ?sel) now)\<lparr>op_id := gen (nextId d)\<rparr>)"
      and d': "d' = add_jobs (map (batch_job (projr r)) [0..<length ?sel])
        (update_contracts (map ct_id ?sel) (\<lambda>c. c\<lparr>ct_serasaStatus := submitted_status act\<rparr>)
          (add_items gen (map2 (\<lambda>c i. new_item (gen (nextId d)) c i now) (map ct_id ?sel) [0..<length ?sel])
            (d\<lparr>operations := operations d @ [projr r], nextId := Suc (nextId d)\<rparr>)))"
      by blast+
    have "operation_created gen now (map ct_id ?sel) True (projr r) d d'"
      by (rule operation_created_intro [where marked = True and
            ?op0.0 = "pending_operation acc (pv_id pv) w u act (length ?sel) now", OF _ _ _ _ refl])
        (simp_all add: r d')
    then show ?thesis
      using ok(3,4) by (intro created [OF _ refl]) (auto simp: r)
  qed
qed


lemma createForContract_cases:
  assumes "createForContract gen now i u acc act allow d = (r, d')"
  obtains (refused) err where "r = Inl err" and "d' = d"
  | (created) op ct where "r = Inr op"
      and "List.find (\<lambda>c. ct_id c = i \<and> ct_accountId c = acc \<and> ct_deletedAt c = None \<and>
             ct_status c = CT_ACTIVE) (contracts d) = Some ct"
      and "act = CREATE_OR_UPDATE \<longrightarrow> ct_paymentStatus ct = PS_OPEN \<and> ct_serasaStatus ct \<notin> {SE_SENT, SE_REMOVING}"
      and "act = REMOVE \<longrightarrow> ct_serasaStatus ct \<in> {SE_REGISTERED, SE_UPDATED, SE_SENT} \<and>
             ct_debtId ct \<notin> {None, Some ''''}"
      and "operation_created gen now [i] True op d d'"
      and "op_action op = act" and "op_walletId op = ct_walletId ct" and "op_accountId op = acc"
proof (cases "\<exists>err. r = Inl err")
  case True
  then show ?thesis
    using assms refused
    by (auto simp: createForContract_def Let_def split_beta split: option.splits sum.splits if_splits)
next
  case False
  let ?found = "\<lambda>ct. List.find (\<lambda>c. ct_id c = i \<and> ct_accountId c = acc \<and> ct_deletedAt c = None \<and>
             ct_status c = CT_ACTIVE) (contracts d) = Some ct"
  have "\<exists>ct. ?found ct" "\<exists>pv. getSerasaProvider acc d = Inr pv"
    using assms False
    by (auto simp: createForContract_def Let_def split_beta split: option.splits sum.splits if_splits)
  then obtain ct pv where ct: "?found ct" and pv: "getSerasaProvider acc d = Inr pv"
    by blast
  let ?op0 = "pending_operation acc (pv_id pv) (ct_walletId ct) u act 1 now"
  have guards: "act = CREATE_OR_UPDATE \<longrightarrow> ct_paymentStatus ct = PS_OPEN \<and> ct_serasaStatus ct \<notin> {SE_SENT, SE_REMOVING}"
    "act = REMOVE \<longrightarrow> ct_serasaStatus ct \<in> {SE_REGISTERED, SE_UPDATED, SE_SENT} \<and> ct_debtId ct \<notin> {None, Some ''''}"
    using assms False ct pv
    by (auto simp: createForContract_def Let_def split_beta ELIGIBLE_FOR_REMOVE_def ELIGIBLE_FOR_CREATE_def
        split: if_splits)
  have "ct_id ct = i"
    using find_SomeD [OF ct] by simp
  then have "r = Inr (?op0\<lparr>op_id := gen (nextId d)\<rparr>) \<and>
    d' = add_jobs [batch_job (projr r) 0]
      (update_contract i (\<lambda>c. c\<lparr>ct_serasaStatus := submitted_status act\<rparr>)
        (add_item gen (new_item (gen (nextId d)) i 0 now)
          (d\<lparr>operations := operations d @ [projr r], nextId := Suc (nextId d)\<rparr>)))"
    using assms False ct pv
    by (auto simp: createForContract_def Let_def add_operation_def split: if_splits)
  then have r: "r = Inr (?op0\<lparr>op_id := gen (nextId d)\<rparr>)"
    and d': "d' = add_jobs [batch_job (projr r) 0]
      (update_contract i (\<lambda>c. c\<lparr>ct_serasaStatus := submitted_status act\<rparr>)
        (add_item gen (new_item (gen (nextId d)) i 0 now)
          (d\<lparr>operations := operations d @ [projr r], nextId := Suc (nextId d)\<rparr>)))"
    by blast+
  have "operation_created gen now [i] True (projr r) d d'"
    by (rule operation_created_intro [where marked = True and ?op0.0 = ?op0, OF _ _ _ _ refl])
      (simp_all add: r d' update_contract_def update_contracts_def add_item_def)
  then show ?thesis
    using guards by (intro created [OF _ ct]) (auto simp: r)
qed

lemma createForContract_sent:
  assumes "\<forall>x \<in> set (contracts d). ct_id x = i \<longrightarrow> ct_serasaStatus x = SE_SENT"
  shows "\<not> is_ok (createForContract gen now i u acc CREATE_OR_UPDATE allow d)"
proof (cases "createForContract gen now i u acc CREATE_OR_UPDATE allow d")
  case (Pair r d')
  show ?thesis
    by (cases rule: createForContract_cases [OF Pair])
      (use assms Pair in \<open>auto simp: is_ok_def dest!: find_SomeD\<close>)
qed

lemma retryUnconfirmed_cases:
  assumes "retryUnconfirmedCreateOperation gen now i u acc d = (r, d')"
  obtains (refused) err where "r = Inl err" and "d' = d"
  | (created) op src where "r = Inr op" and "src \<in> set (operations d)" and "op_id src = i"
      and "op_accountId src = acc" and "op_action src = CREATE_OR_UPDATE" and "unconfirmed i d \<noteq> []"
      and "operation_created gen now (map it_contractId (unconfirmed i d)) False op d d'"
      and "op_action op = CREATE_OR_UPDATE" and "op_walletId op = op_walletId src" and "op_accountId op = acc"
proof (cases "\<exists>err. r = Inl err")
  case True
  then show ?thesis
    using assms refused
    by (auto simp: retryUnconfirmedCreateOperation_def Let_def split_beta split: option.splits if_splits)
next
  case False
  let ?its = "unconfirmed i d"
  have "\<exists>src. List.find (\<lambda>op. op_id op = i \<and> op_accountId op = acc \<and> op_action op = CREATE_OR_UPDATE) (operations d) = Some src"
    and ne: "?its \<noteq> []"
    using assms False
    by (auto simp: retryUnconfirmedCreateOperation_def Let_def split_beta split: option.splits if_splits)
  then obtain src where src: "List.find (\<lambda>op. op_id op = i \<and> op_accountId op = acc \<and> op_action op = CREATE_OR_UPDATE) (operations d) = Some src"
    by blast
  let ?op0 = "pending_operation acc (op_providerId src) (op_walletId src) u CREATE_OR_UPDATE (length ?its) now"
  have "r = Inr (?op0\<lparr>op_id := gen (nextId d)\<rparr>) \<and>
    d' = add_jobs (map (batch_job (projr r)) [0..<length ?its])
      (add_items gen (map2 (\<lambda>it k. new_item (gen (nextId d)) (it_contractId it) k now) ?its [0..<length ?its])
        (d\<lparr>operations := operations d @ [projr r], nextId := Suc (nextId d)\<rparr>))"
    using assms ne src
    by (auto simp: retryUnconfirmedCreateOperation_def Let_def add_operation_def)
  then have r: "r = Inr (?op0\<lparr>op_id := gen (nextId d)\<rparr>)"
    and d': "d' = add_jobs (map (batch_job (projr r)) [0..<length ?its])
      (add_items gen (map2 (\<lambda>it k. new_item (gen (nextId d)) (it_contractId it) k now) ?its [0..<length ?its])
        (d\<lparr>operations := operations d @ [projr r], nextId := Suc (nextId d)\<rparr>))"
    by blast+
  have "operation_created gen now (map it_contractId ?its) False (projr r) d d'"
    by (rule operation_created_intro [where marked = False and ?op0.0 = ?op0, OF _ _ _ _ refl])
      (simp_all add: r d' zip_map1 case_prod_unfold comp_def)
  moreover have "src \<in> set (operations d)" "op_id src = i" "op_accountId src = acc" "op_action src = CREATE_OR_UPDATE"
    using find_SomeD [OF src] by simp_all
  moreover have "op_action (projr r) = CREATE_OR_UPDATE" "op_walletId (projr r) = op_walletId src"
    "op_accountId (projr r) = acc" "r = Inr (projr r)"
    by (simp_all add: r)
  ultimately show ?thesis
    using ne by (intro created [where op = "projr r" and src = src]) assumption+
qed


section \<open>Properties\<close>

lemma select_SomeD:
  assumes "c \<in> set (selectEligibleContracts today w act sts f d)"
  shows "c \<in> set (contracts d)" and "eligible_row today w act sts f c"
    and "ct_serasaStatus c \<in> set sts"
proof -
  show c: "c \<in> set (contracts d)" "eligible_row today w act sts f c"
    using assms by (auto simp: selectEligibleContracts_def split: if_splits)
  have "case fl_serasaStatus f of None \<Rightarrow> ct_serasaStatus c \<in> set sts | Some s \<Rightarrow> ct_serasaStatus c = s"
    using c(2) unfolding eligible_row_def by blast
  then show "ct_serasaStatus c \<in> set sts"
    using assms by (auto simp: selectEligibleContracts_def split: if_splits option.splits)
qed

lemma eligible_rowD:
  assumes "eligible_row today w act sts f c"
  shows "ct_walletId c = w" and "ct_status c = CT_ACTIVE" and "ct_deletedAt c = None"
    and "payment_filter act f = Some p \<Longrightarrow> ct_paymentStatus c = p"
  using assms by (simp_all add: eligible_row_def)

lemma preview_create:
  assumes "create_operation gen now today w act u acc f d = (Inr op, d')"
  shows "preview today w act acc f d = Inr (op_totalItems op, op_totalItems op)"
proof (cases rule: create_operation_cases [OF assms])
  case (2 op' sel)
  then show ?thesis
    using assms
    by (auto simp: create_operation_def preview_def Let_def operation_created_def split: option.splits sum.splits if_splits)
qed auto

text \<open>
  C12. A bulk operation that is accepted concerns exactly the selected contracts, all of them active,
  not deleted, of the wallet and in a Serasa status the action allows; it adds one operation with one
  pending item and one job per contract, in the order of the selection, sets the status of those
  contracts and changes nothing else, and the preview had announced that number of items.
\<close>

theorem create_operation_spec:
  assumes "create_operation gen now today w act u acc f d = (Inr op, d')"
    and "sel = selectEligibleContracts today w act (getEligibleStatuses act (fl_resyncOnly f)) f d"
  shows "sel \<noteq> [] \<and> operation_created gen now (map ct_id sel) True op d d' \<and>
    preview today w act acc f d = Inr (length sel, length sel) \<and>
    (\<forall>c \<in> set sel. c \<in> set (contracts d) \<and> ct_walletId c = w \<and> ct_status c = CT_ACTIVE \<and>
       ct_deletedAt c = None \<and> ct_serasaStatus c \<in> set (getEligibleStatuses act (fl_resyncOnly f)))"
proof (cases rule: create_operation_cases [OF assms(1)])
  case (2 op' sel')
  have "\<forall>c \<in> set sel. c \<in> set (contracts d) \<and> ct_walletId c = w \<and> ct_status c = CT_ACTIVE \<and>
       ct_deletedAt c = None \<and> ct_serasaStatus c \<in> set (getEligibleStatuses act (fl_resyncOnly f))"
    unfolding assms(2) by (blast dest: select_SomeD eligible_rowD)
  then show ?thesis
    using 2 assms(2) preview_create [OF assms(1)] by (auto simp: operation_created_def)
qed simp

definition no_filters :: operation_filters where
  "no_filters =
     \<lparr>fl_contractStatus = None, fl_search = None, fl_serasaStatus = None, fl_paymentStatus = None,
      fl_resyncOnly = False, fl_installmentOnly = False, fl_minOriginalValue = None,
      fl_maxOriginalValue = None, fl_minUpdatedValue = None, fl_maxUpdatedValue = None,
      fl_updatedValueOperator = None, fl_updatedValue = None, fl_offerValueOperator = None,
      fl_offerValue = None, fl_agingOperator = None, fl_aging = None, fl_dateFrom = None,
      fl_dateTo = None\<rparr>"

lemmas operation_eval = sample_db_def sample_contract_def sample_gen_def no_filters_def
  create_operation_def getSerasaProvider_def getEligibleStatuses_def selectEligibleContracts_def
  eligible_row_def payment_filter_def search_ok_def in_range_def date_ok_def applyAgingComparison_def
  ELIGIBLE_FOR_CREATE_def ELIGIBLE_FOR_REMOVE_def createForContract_def is_ok_def

lemma no_filters_row:
  "eligible_row today w act sts no_filters c \<longleftrightarrow>
     ct_walletId c = w \<and> ct_status c = CT_ACTIVE \<and> ct_deletedAt c = None \<and> ct_serasaStatus c \<in> set sts \<and>
     (if act = REMOVE then ct_debtId c \<noteq> None else ct_paymentStatus c = PS_OPEN)"
  by (auto simp: operation_eval)

lemma sample_select:
  "selectEligibleContracts t ''w1'' CREATE_OR_UPDATE (getEligibleStatuses CREATE_OR_UPDATE False) no_filters sample_db
     = [sample_contract]"
proof -
  have "eligible_row t ''w1'' CREATE_OR_UPDATE ELIGIBLE_FOR_CREATE no_filters sample_contract"
    by (simp add: no_filters_row) (simp add: sample_contract_def ELIGIBLE_FOR_CREATE_def)
  moreover have "fl_contractStatus no_filters = None" "fl_serasaStatus no_filters = None"
    "contracts sample_db = [sample_contract]"
    by (simp_all add: no_filters_def sample_db_def)
  ultimately show ?thesis
    by (simp add: selectEligibleContracts_def getEligibleStatuses_def)
qed

lemma sample_resync [simp]: "fl_resyncOnly no_filters = False" "ct_id sample_contract = ''c1''"
  by (simp_all add: no_filters_def sample_contract_def)

lemma sample_create_ok:
  "is_ok (create_operation sample_gen 1000 0 ''w1'' CREATE_OR_UPDATE ''u1'' ''a1'' no_filters sample_db)"
proof -
  have "\<exists>w. List.find (\<lambda>x. wl_id x = ''w1'' \<and> wl_accountId x = ''a1'' \<and> wl_deletedAt x = None) (wallets sample_db) = Some w"
    "\<exists>p. getSerasaProvider ''a1'' sample_db = Inr p"
    by (simp_all add: sample_db_def getSerasaProvider_def)
  then show ?thesis
    by (auto simp: create_operation_def Let_def is_ok_def sample_resync sample_select split: prod.split)
qed

lemma create_operation_spec_witness:
  "preview 0 ''w1'' CREATE_OR_UPDATE ''a1'' no_filters sample_db = Inr (1, 1) \<and>
   operation_created sample_gen 1000 [''c1''] True
     (projr (fst (create_operation sample_gen 1000 0 ''w1'' CREATE_OR_UPDATE ''u1'' ''a1'' no_filters sample_db)))
     sample_db (snd (create_operation sample_gen 1000 0 ''w1'' CREATE_OR_UPDATE ''u1'' ''a1'' no_filters sample_db))"
  using create_operation_spec [OF ok_outcome [OF sample_create_ok] refl] by (simp add: sample_select)


text \<open>
  A request for one contract needs an active contract, open for an inclusion and known to Serasa
  for a removal, and it claims the contract: until the provider answers, no second request of the
  same kind is accepted, and once a removal is requested no request of any kind is, whoever asks and
  whatever updates are allowed.
\<close>

theorem createForContract_claims:
  assumes "createForContract gen now i u acc act allow d = (Inr op, d')"
    and "act = REMOVE \<or> act2 = CREATE_OR_UPDATE"
  shows "\<exists>m. createForContract gen2 now2 i u2 acc act2 allow2 d' = (Inl (Conflict m), d')"
proof (cases rule: createForContract_cases [OF assms(1)])
  case (2 op' ct)
  let ?P = "\<lambda>c. ct_id c = i \<and> ct_accountId c = acc \<and> ct_deletedAt c = None \<and> ct_status c = CT_ACTIVE"
  let ?set = "\<lambda>c. c\<lparr>ct_serasaStatus := submitted_status act\<rparr>"
  have "contracts d' = update_where (\<lambda>c. ct_id c \<in> set [i]) ?set (contracts d)"
    using 2 by (simp add: operation_created_def)
  then have f: "List.find ?P (contracts d') = Some (?set ct)"
    using 2(2) find_SomeD [OF 2(2)] by (simp add: find_update_where)
  have "providers d' = providers d"
    using 2 by (simp add: operation_created_def pay_frame_def)
  then obtain pv where "getSerasaProvider acc d' = Inr pv"
    using assms(1) by (auto simp: createForContract_def getSerasaProvider_def split: option.splits if_splits)
  then show ?thesis
    using f assms(2)
    by (auto simp: createForContract_def submitted_status_def ELIGIBLE_FOR_REMOVE_def ELIGIBLE_FOR_CREATE_def)
qed simp

lemma sample_createForContract_ok:
  "is_ok (createForContract sample_gen 1000 ''c1'' ''u1'' ''a1'' CREATE_OR_UPDATE False sample_db)"
  by (simp add: createForContract_def getSerasaProvider_def sample_db_def sample_contract_def is_ok_def
      ELIGIBLE_FOR_CREATE_def split: prod.split)

lemma createForContract_claims_witness:
  "\<exists>m. fst (createForContract sample_gen 2000 ''c1'' ''u2'' ''a1'' CREATE_OR_UPDATE True
      (snd (createForContract sample_gen 1000 ''c1'' ''u1'' ''a1'' CREATE_OR_UPDATE False sample_db)))
    = Inl (Conflict m)"
  using createForContract_claims [OF ok_outcome [OF sample_createForContract_ok], of CREATE_OR_UPDATE sample_gen 2000 "''u2''" True]
  by auto

lemma cancelContract_cases:
  assumes "cancelContract gen now i u acc cr cn d = (r, d')"
  obtains (refused) err where "r = Inl err" and "d' = d"
  | (local) ct ia where "r = Inr False" and "ct \<in> set (contracts d)" and "ct_id ct = i"
      and "ct_status ct \<noteq> CT_CANCELLED"
      and "operations d' = operations d" and "items d' = items d" and "queue d' = queue d"
      and "contracts d' = update_where (\<lambda>c. ct_id c = i)
             (\<lambda>c. c\<lparr>ct_status := CT_CANCELLED, ct_cancelledAt := Some now,
                     ct_cancellationReason := Some (or_else (cn_reason cn) CREDITOR_REQUEST)\<rparr>) (contracts d)"
      and "interactions d' = interactions d @ [ia]" and "pay_frame d d'" and "nextId d' = Suc (nextId d)"
  | (queued) ct ia op d1 where "r = Inr True" and "ct \<in> set (contracts d)" and "ct_id ct = i"
      and "ct_status ct \<noteq> CT_CANCELLED"
      and "createForContract gen now i u acc REMOVE False d = (Inr op, d1)"
      and "operations d' = operations d1" and "items d' = items d1" and "queue d' = queue d1"
      and "contracts d' = update_where (\<lambda>c. ct_id c = i)
             (\<lambda>c. c\<lparr>ct_status := CT_CANCELLED, ct_cancelledAt := Some now,
                     ct_cancellationReason := Some (or_else (cn_reason cn) CREDITOR_REQUEST)\<rparr>) (contracts d1)"
      and "interactions d' = interactions d @ [ia]" and "pay_frame d d'" and "nextId d' = Suc (nextId d1)"
proof (cases "\<exists>err. r = Inl err")
  case True
  then show ?thesis
    using assms refused
    by (auto simp: cancelContract_def Let_def split_beta split: option.splits if_splits)
next
  case False
  define P where "P = (\<lambda>c. ct_id c = i \<and> ct_accountId c = acc \<and> ct_deletedAt c = None \<and>
    (case cr of None \<Rightarrow> True | Some x \<Rightarrow> x = '''' \<or> map_option wl_creditorId (wallet_of d c) = Some x))"
  have u: "cancelContract gen now i u acc cr cn d = (case List.find P (contracts d) of
       None \<Rightarrow> (Inl (NotFound ''Contrato nao encontrado''), d)
     | Some ct \<Rightarrow>
       if ct_status ct = CT_CANCELLED then (Inl (Conflict ''Este contrato ja esta cancelado''), d)
       else let (queued, d1) =
           (if ct_debtId ct \<noteq> None \<and> ct_debtId ct \<noteq> Some '''' \<and>
               ct_serasaStatus ct \<in> set (ELIGIBLE_FOR_REMOVE @ [SE_SENT])
            then (case createForContract gen now i u acc REMOVE False d of
                    (Inl _, d') \<Rightarrow> (False, d')
                  | (Inr _, d') \<Rightarrow> (True, d'))
            else (False, d)) in
        (Inr queued, create_interaction gen
                \<lparr>ia_id = '''', ia_contractId = i, ia_accountId = acc,
                 ia_walletId = ct_walletId ct, ia_channel = or_else (cn_channel cn) ''WHATSAPP'',
                 ia_status = IA_COMPLETED, ia_provider = cn_provider cn, ia_externalId = None,
                 ia_payload = JObj [(''cancellationReason'', JStr (reason_name (or_else (cn_reason cn) CREDITOR_REQUEST))),
                                    (''serasaRemovalQueued'', JBool queued)],
                 ia_occurredAt = now\<rparr>
            (update_contract i
                (\<lambda>c. c\<lparr>ct_status := CT_CANCELLED, ct_cancelledAt := Some now,
                       ct_cancellationReason := Some (or_else (cn_reason cn) CREDITOR_REQUEST)\<rparr>) d1)))"
    by (simp only: cancelContract_def P_def Let_def)
  obtain ct where ct: "List.find P (contracts d) = Some ct" "ct_status ct \<noteq> CT_CANCELLED"
    using assms False unfolding u by (cases "List.find P (contracts d)") (auto split: if_splits)
  have row: "ct \<in> set (contracts d)" "ct_id ct = i"
    using find_SomeD [OF ct(1)] by (auto simp: P_def)
  obtain queued d1 where q: "r = Inr queued" and
      d1: "d' = create_interaction gen
                \<lparr>ia_id = '''', ia_contractId = i, ia_accountId = acc,
                 ia_walletId = ct_walletId ct, ia_channel = or_else (cn_channel cn) ''WHATSAPP'',
                 ia_status = IA_COMPLETED, ia_provider = cn_provider cn, ia_externalId = None,
                 ia_payload = JObj [(''cancellationReason'', JStr (reason_name (or_else (cn_reason cn) CREDITOR_REQUEST))),
                                    (''serasaRemovalQueued'', JBool queued)],
                 ia_occurredAt = now\<rparr>
            (update_contract i
                (\<lambda>c. c\<lparr>ct_status := CT_CANCELLED, ct_cancelledAt := Some now,
                       ct_cancellationReason := Some (or_else (cn_reason cn) CREDITOR_REQUEST)\<rparr>) d1)"
      and branch: "(\<not> queued \<and> d1 = d) \<or>
        (queued \<and> (\<exists>op. createForContract gen now i u acc REMOVE False d = (Inr op, d1)))"
  proof -
    have refuse: "d2 = d" if "createForContract gen now i u acc REMOVE False d = (Inl err, d2)" for err d2
      using that by (cases rule: createForContract_cases [OF that]) auto
    show ?thesis
      using assms ct that refuse unfolding u
      by (auto simp: Let_def split: if_splits prod.splits sum.splits)
  qed
  show ?thesis
    using branch
  proof (elim disjE conjE exE)
    assume "\<not> queued" "d1 = d"
    then show ?thesis
      by (intro local [OF _ row ct(2)]) (simp_all add: q d1 pay_frame_interaction)
  next
    fix op assume op: "createForContract gen now i u acc REMOVE False d = (Inr op, d1)" and "queued"
    have "interactions d1 = interactions d \<and> pay_frame d d1"
      by (cases rule: createForContract_cases [OF op]) (simp_all add: operation_created_def)
    then show ?thesis
      using \<open>queued\<close> by (intro queued [OF _ row ct(2) op]) (simp_all add: q d1 pay_frame_interaction)
  qed
qed


text \<open>
  A contract that could be cancelled is cancelled whatever becomes of its debt at Serasa: every row
  of its id is cancelled, the other contracts and the payment tables keep their content, one interaction
  is recorded, an operation is added exactly when the answer says that the removal was queued, and
  the contract cannot be cancelled again.
\<close>

theorem cancelContract_spec:
  assumes "cancelContract gen now i u acc cr cn d = (Inr queued, d')"
  shows "(\<exists>ct \<in> set (contracts d). ct_id ct = i \<and> ct_status ct \<noteq> CT_CANCELLED) \<and>
    (\<forall>c \<in> set (contracts d'). ct_id c = i \<longrightarrow> ct_status c = CT_CANCELLED) \<and>
    filter (\<lambda>c. ct_id c \<noteq> i) (contracts d') = filter (\<lambda>c. ct_id c \<noteq> i) (contracts d) \<and>
    length (interactions d') = Suc (length (interactions d)) \<and>
    length (operations d') = length (operations d) + (if queued then 1 else 0) \<and> pay_frame d d' \<and>
    \<not> is_ok (cancelContract gen2 now2 i u2 acc2 cr2 cn2 d')"
proof -
  have filt: "filter (\<lambda>c. ct_id c \<noteq> i) (update_where (\<lambda>c. ct_id c = i) g cs) = filter (\<lambda>c. ct_id c \<noteq> i) cs"
    if "\<And>c. ct_id (g c) = ct_id c" for g and cs :: "contract list"
    using that by (induction cs) auto
  have cancelled: "\<forall>c \<in> set (contracts d'). ct_id c = i \<longrightarrow> ct_status c = CT_CANCELLED"
    and rest: "(\<exists>ct \<in> set (contracts d). ct_id ct = i \<and> ct_status ct \<noteq> CT_CANCELLED) \<and>
      filter (\<lambda>c. ct_id c \<noteq> i) (contracts d') = filter (\<lambda>c. ct_id c \<noteq> i) (contracts d) \<and>
      length (interactions d') = Suc (length (interactions d)) \<and>
      length (operations d') = length (operations d) + (if queued then 1 else 0) \<and> pay_frame d d'"
    using assms
  proof (atomize (full), cases rule: cancelContract_cases [OF assms])
    case (3 ct ia op d1)
    then have "operation_created gen now [i] True op d d1"
      by (cases rule: createForContract_cases [OF 3(5)]) auto
    with 3 show "(\<forall>c \<in> set (contracts d'). ct_id c = i \<longrightarrow> ct_status c = CT_CANCELLED) \<and>
      (\<exists>ct \<in> set (contracts d). ct_id ct = i \<and> ct_status ct \<noteq> CT_CANCELLED) \<and>
      filter (\<lambda>c. ct_id c \<noteq> i) (contracts d') = filter (\<lambda>c. ct_id c \<noteq> i) (contracts d) \<and>
      length (interactions d') = Suc (length (interactions d)) \<and>
      length (operations d') = length (operations d) + (if queued then 1 else 0) \<and> pay_frame d d'"
      by (auto simp: filt operation_created_def in_update_where)
  qed (auto simp: filt in_update_where)
  have "\<not> is_ok (cancelContract gen2 now2 i u2 acc2 cr2 cn2 d')"
  proof (cases "cancelContract gen2 now2 i u2 acc2 cr2 cn2 d'")
    case (Pair r2 d2)
    show ?thesis
      by (cases rule: cancelContract_cases [OF Pair]) (use cancelled Pair in \<open>auto simp: is_ok_def\<close>)
  qed
  with cancelled rest show ?thesis by blast
qed

definition plain_cancellation :: cancellation where
  "plain_cancellation = \<lparr>cn_reason = None, cn_channel = None, cn_provider = None\<rparr>"

lemma sample_cancel_ok:
  "is_ok (cancelContract sample_gen 1000 ''c1'' ''u1'' ''a1'' None plain_cancellation sample_db)"
  by (simp add: cancelContract_def sample_db_def sample_contract_def is_ok_def Let_def)

lemma cancelContract_spec_witness:
  "\<not> is_ok (cancelContract sample_gen 2000 ''c1'' ''u1'' ''a1'' None plain_cancellation
      (snd (cancelContract sample_gen 1000 ''c1'' ''u1'' ''a1'' None plain_cancellation sample_db)))"
  using cancelContract_spec [OF ok_outcome [OF sample_cancel_ok]] by blast

text \<open>
  Cancelling a suspended contract never asks Serasa to remove its debt, although the debt is
  registered there: the internal request wants an active contract and its refusal is only logged.
  Afterwards the removal can no longer be requested, neither for the contract nor in bulk.
\<close>

theorem suspended_debt_stays:
  assumes "distinct (map ct_id (contracts d))" and "ct \<in> set (contracts d)"
    and "ct_id ct = i" and "ct_status ct = CT_SUSPENDED"
    and "cancelContract gen now i u acc cr cn d = (Inr queued, d')"
  shows "queued = False \<and> queue d' = queue d \<and>
    (\<exists>c \<in> set (contracts d'). ct_id c = i \<and> ct_status c = CT_CANCELLED \<and>
       ct_serasaStatus c = ct_serasaStatus ct \<and> ct_debtId c = ct_debtId ct) \<and>
    \<not> is_ok (createForContract gen2 now2 i u2 acc2 REMOVE allow d') \<and>
    i \<notin> ct_id ` set (selectEligibleContracts today w REMOVE (getEligibleStatuses REMOVE False) f d')"
proof -
  have cancelled: "\<forall>c \<in> set (contracts d'). ct_id c = i \<longrightarrow> ct_status c = CT_CANCELLED"
  proof (cases rule: cancelContract_cases [OF assms(5)])
    case (3 ct0 ia op d1)
    then show ?thesis by (auto simp: in_update_where)
  qed (auto simp: in_update_where)
  have "\<not> is_ok (createForContract gen2 now2 i u2 acc2 REMOVE allow d')"
  proof (cases "createForContract gen2 now2 i u2 acc2 REMOVE allow d'")
    case (Pair r2 d2)
    show ?thesis
    proof (cases rule: createForContract_cases [OF Pair])
      case (2 op c)
      then show ?thesis using find_SomeD [OF 2(2)] cancelled by auto
    qed (simp add: Pair is_ok_def)
  qed
  moreover have "i \<notin> ct_id ` set (selectEligibleContracts today w REMOVE (getEligibleStatuses REMOVE False) f d')"
  proof
    assume "i \<in> ct_id ` set (selectEligibleContracts today w REMOVE (getEligibleStatuses REMOVE False) f d')"
    then obtain c where "c \<in> set (selectEligibleContracts today w REMOVE (getEligibleStatuses REMOVE False) f d')"
      "ct_id c = i" by blast
    with cancelled select_SomeD(1) [OF this(1)] eligible_rowD(2) [OF select_SomeD(2) [OF this(1)]]
    show False by simp
  qed
  moreover have "queued = False \<and> queue d' = queue d \<and>
    (\<exists>c \<in> set (contracts d'). ct_id c = i \<and> ct_status c = CT_CANCELLED \<and>
       ct_serasaStatus c = ct_serasaStatus ct \<and> ct_debtId c = ct_debtId ct)"
  proof (cases rule: cancelContract_cases [OF assms(5)])
    case (2 ct0 ia)
    let ?c = "ct\<lparr>ct_status := CT_CANCELLED, ct_cancelledAt := Some now,
                 ct_cancellationReason := Some (or_else (cn_reason cn) CREDITOR_REQUEST)\<rparr>"
    have "?c \<in> set (contracts d')"
      unfolding 2(8) in_update_where using assms(2,3) by (intro bexI [of _ ct]) simp_all
    with 2 show ?thesis
      using assms(3) by (intro conjI bexI [of _ ?c]) simp_all
  next
    case (3 ct0 ia op d1)
    then obtain a where "a \<in> set (contracts d)" "ct_id a = i" "ct_status a = CT_ACTIVE"
      by (cases rule: createForContract_cases [OF 3(5)]) (auto dest!: find_SomeD)
    then show ?thesis
      using assms(1-4) by (auto dest: eq_key_imp_eq_value simp: distinct_map inj_on_def)
  qed simp
  ultimately show ?thesis by blast
qed

lemma suspended_debt_stays_witness:
  "let d = sample_db\<lparr>contracts := [sample_contract\<lparr>ct_status := CT_SUSPENDED, ct_serasaStatus := SE_REGISTERED,
             ct_debtId := Some ''dd''\<rparr>]\<rparr>
   in queue (snd (cancelContract sample_gen 1000 ''c1'' ''u1'' ''a1'' None plain_cancellation d)) = []"
proof -
  let ?c = "sample_contract\<lparr>ct_status := CT_SUSPENDED, ct_serasaStatus := SE_REGISTERED, ct_debtId := Some ''dd''\<rparr>"
  let ?d = "sample_db\<lparr>contracts := [?c]\<rparr>"
  have ok: "is_ok (cancelContract sample_gen 1000 ''c1'' ''u1'' ''a1'' None plain_cancellation ?d)"
    by (simp add: cancelContract_def sample_db_def sample_contract_def is_ok_def Let_def createForContract_def
        split: prod.split)
  show ?thesis
    using suspended_debt_stays [OF _ _ _ _ ok_outcome [OF ok], of ?c]
    by (simp add: sample_contract_def sample_db_def)
qed


text \<open>
  Cancelling a pending inclusion strands its contracts. They stay \<open>SENT\<close>, the status written when
  the operation was created, and no bulk inclusion selects them and no single inclusion accepts them
  any more, whatever the filters and whether or not updates are allowed.
\<close>

theorem cancelled_inclusion_strands:
  assumes "create_operation gen now today w CREATE_OR_UPDATE u acc f d = (Inr op, d1)"
    and "cancel_operation (op_id op) acc d1 = (Inr st, d2)"
    and "c \<in> set (selectEligibleContracts today w CREATE_OR_UPDATE
                    (getEligibleStatuses CREATE_OR_UPDATE (fl_resyncOnly f)) f d)"
  shows "\<not> is_ok (createForContract gen2 now2 (ct_id c) u2 acc2 CREATE_OR_UPDATE allow d2) \<and>
    ct_id c \<notin> ct_id ` set (selectEligibleContracts today2 w2 CREATE_OR_UPDATE
                            (getEligibleStatuses CREATE_OR_UPDATE False) f2 d2)"
proof -
  let ?sel = "selectEligibleContracts today w CREATE_OR_UPDATE
                    (getEligibleStatuses CREATE_OR_UPDATE (fl_resyncOnly f)) f d"
  have "contracts d2 = contracts d1"
    using assms(2) by (auto simp: cancel_operation_def split: option.splits if_splits)
  moreover have "contracts d1 = update_where (\<lambda>x. ct_id x \<in> set (map ct_id ?sel))
      (\<lambda>x. x\<lparr>ct_serasaStatus := SE_SENT\<rparr>) (contracts d)"
    by (cases rule: create_operation_cases [OF assms(1)])
      (auto simp: operation_created_def submitted_status_def)
  ultimately have sent: "\<forall>x \<in> set (contracts d2). ct_id x = ct_id c \<longrightarrow> ct_serasaStatus x = SE_SENT"
    using assms(3) by (auto simp: in_update_where)
  have "ct_id c \<notin> ct_id ` set (selectEligibleContracts today2 w2 CREATE_OR_UPDATE
                            (getEligibleStatuses CREATE_OR_UPDATE False) f2 d2)"
  proof
    assume "ct_id c \<in> ct_id ` set (selectEligibleContracts today2 w2 CREATE_OR_UPDATE
                            (getEligibleStatuses CREATE_OR_UPDATE False) f2 d2)"
    then obtain x where x: "x \<in> set (selectEligibleContracts today2 w2 CREATE_OR_UPDATE
                            (getEligibleStatuses CREATE_OR_UPDATE False) f2 d2)" "ct_id x = ct_id c"
      by force
    with sent select_SomeD(1,3) [OF x(1)] show False
      by (simp add: getEligibleStatuses_def ELIGIBLE_FOR_CREATE_def)
  qed
  moreover have "\<not> is_ok (createForContract gen2 now2 (ct_id c) u2 acc2 CREATE_OR_UPDATE allow d2)"
    using sent by (rule createForContract_sent)
  ultimately show ?thesis by blast
qed

lemma cancelled_inclusion_strands_witness:
  "\<not> is_ok (createForContract sample_gen 3000 ''c1'' ''u1'' ''a1'' CREATE_OR_UPDATE True
      (snd (cancel_operation (sample_gen 0) ''a1''
         (snd (create_operation sample_gen 1000 0 ''w1'' CREATE_OR_UPDATE ''u1'' ''a1'' no_filters sample_db)))))"
proof -
  let ?op = "projr (fst (create_operation sample_gen 1000 0 ''w1'' CREATE_OR_UPDATE ''u1'' ''a1'' no_filters sample_db))"
  let ?d1 = "snd (create_operation sample_gen 1000 0 ''w1'' CREATE_OR_UPDATE ''u1'' ''a1'' no_filters sample_db)"
  note created = ok_outcome [OF sample_create_ok]
  have op: "operations ?d1 = [?op]" "op_id ?op = sample_gen 0" "op_status ?op = OP_PENDING" "op_accountId ?op = ''a1''"
    by (cases rule: create_operation_cases [OF created];
        simp add: operation_created_def sample_db_def)+
  then have "is_ok (cancel_operation (op_id ?op) ''a1'' ?d1)"
    by (simp add: cancel_operation_def is_ok_def)
  from cancelled_inclusion_strands [OF created ok_outcome [OF this], of sample_contract] op(2)
  show ?thesis
    by (simp add: sample_select)
qed

text \<open>
  Only open debts are meant to be sent to Serasa, and the selection asks for that by default; but the
  payment filter of a request replaces the condition, so a request filtered by any other payment
  status selects the contracts in that status for inclusion, paid ones among them.
\<close>

theorem payment_filter_replaces_open:
  assumes "c \<in> set (contracts d)" and "ct_walletId c = w" and "ct_status c = CT_ACTIVE"
    and "ct_deletedAt c = None" and "ct_serasaStatus c \<in> set ELIGIBLE_FOR_CREATE"
  shows "c \<in> set (selectEligibleContracts today w CREATE_OR_UPDATE (getEligibleStatuses CREATE_OR_UPDATE False)
                   (no_filters\<lparr>fl_paymentStatus := Some (ct_paymentStatus c)\<rparr>) d) \<and>
    (ct_paymentStatus c \<noteq> PS_OPEN \<longrightarrow>
       c \<notin> set (selectEligibleContracts today w CREATE_OR_UPDATE (getEligibleStatuses CREATE_OR_UPDATE False)
                 no_filters d))"
  using assms
  by (auto simp: selectEligibleContracts_def no_filters_row)
    (simp_all add: operation_eval)

lemma payment_filter_replaces_open_witness:
  "let paid = sample_contract\<lparr>ct_paymentStatus := PS_PAID\<rparr>
   in paid \<in> set (selectEligibleContracts 0 ''w1'' CREATE_OR_UPDATE (getEligibleStatuses CREATE_OR_UPDATE False)
                   (no_filters\<lparr>fl_paymentStatus := Some PS_PAID\<rparr>) (sample_db\<lparr>contracts := [paid]\<rparr>))"
  using payment_filter_replaces_open
    [of "sample_contract\<lparr>ct_paymentStatus := PS_PAID\<rparr>" "sample_db\<lparr>contracts := [sample_contract\<lparr>ct_paymentStatus := PS_PAID\<rparr>]\<rparr>" "''w1''" 0]
  by (simp add: sample_contract_def ELIGIBLE_FOR_CREATE_def)

text \<open>
  The pages of the operation list partition it: read in order they give every operation the caller
  may see exactly once, newest first, and each row belongs to the account, and to one of the wallets
  of the caller when they are restricted.
\<close>

theorem findAll_pages:
  assumes "0 < limit" and "\<And>ws w. scopes = Some ws \<Longrightarrow> walletId = Some w \<Longrightarrow> w \<in> set ws"
  shows "(let pages = snd (snd (findAll_operations 1 limit walletId status acc scopes d))
    in concat (map (\<lambda>p. map fst (fst (findAll_operations (Suc p) limit walletId status acc scopes d))) [0..<pages])
      = sort_key (\<lambda>op. - op_createdAt op) (filter (operation_visible walletId status acc scopes) (operations d))) \<and>
    (\<forall>row \<in> set (fst (findAll_operations p limit walletId status acc scopes d)).
       fst row \<in> set (operations d) \<and> op_accountId (fst row) = acc \<and>
       (\<forall>ws. scopes = Some ws \<longrightarrow> op_walletId (fst row) \<in> set ws))"
proof -
  let ?all = "filter (operation_visible walletId status acc scopes) (operations d)"
  let ?xs = "sort_key (\<lambda>op. - op_createdAt op) ?all"
  have ok: "(case (scopes, walletId) of (Some ws, Some w) \<Rightarrow> w \<notin> set ws | _ \<Rightarrow> False) = False"
    using assms(2) by (auto split: option.splits)
  have counts: "map fst (withItemCounts d ops) = ops" for ops
    by (simp add: withItemCounts_def comp_def)
  have page: "map fst (fst (findAll_operations p limit walletId status acc scopes d)) =
      take limit (drop ((p - 1) * limit) ?xs)"
    and pages: "snd (snd (findAll_operations p limit walletId status acc scopes d)) =
      (length ?all + limit - 1) div limit" for p
    unfolding findAll_operations_def ok by (simp_all add: Let_def counts)
  have "length ?xs \<le> (length ?all + limit - 1) div limit * limit"
    using pages_enough [OF assms(1)] by simp
  then have one: "concat (map (\<lambda>p. take limit (drop (p * limit) ?xs)) [0..<(length ?all + limit - 1) div limit]) = ?xs"
    by (simp add: concat_pages)
  have "\<forall>row \<in> set (fst (findAll_operations p limit walletId status acc scopes d)).
       fst row \<in> set ?all"
  proof
    fix row assume "row \<in> set (fst (findAll_operations p limit walletId status acc scopes d))"
    then have "fst row \<in> set (map fst (fst (findAll_operations p limit walletId status acc scopes d)))"
      by simp
    then have "fst row \<in> set ?xs"
      unfolding page by (meson in_set_dropD in_set_takeD)
    then show "fst row \<in> set ?all" by simp
  qed
  moreover have "op_accountId op = acc \<and> (\<forall>ws. scopes = Some ws \<longrightarrow> op_walletId op \<in> set ws)"
    if "operation_visible walletId status acc scopes op" for op
    using that assms(2) by (cases walletId; cases scopes; auto simp: operation_visible_def)
  ultimately have "\<forall>row \<in> set (fst (findAll_operations p limit walletId status acc scopes d)).
       fst row \<in> set (operations d) \<and> op_accountId (fst row) = acc \<and>
       (\<forall>ws. scopes = Some ws \<longrightarrow> op_walletId (fst row) \<in> set ws)"
    by auto
  moreover have "(let pages = snd (snd (findAll_operations 1 limit walletId status acc scopes d))
    in concat (map (\<lambda>p. map fst (fst (findAll_operations (Suc p) limit walletId status acc scopes d))) [0..<pages])
      = ?xs)"
    using one by (simp add: page pages Let_def)
  ultimately show ?thesis by blast
qed

lemma findAll_pages_witness:
  "list_all (\<lambda>row. op_walletId (fst row) = ''w1'') (fst (findAll_operations 1 10 None None ''a1'' (Some [''w1''])
       (snd (create_operation sample_gen 1000 0 ''w1'' CREATE_OR_UPDATE ''u1'' ''a1'' no_filters sample_db))))"
  unfolding list_all_iff using findAll_pages [of 10 "Some [''w1'']" None] by fastforce

end
