(* ===== verification/SerasaWorker.thy ===== *)
theory SerasaWorker
  imports Operations
begin

text \<open>
  The worker of the Serasa queue (\<open>providers/processors/operation.processor.ts\<close>) and the adapter it
  calls (\<open>providers/adapters/serasa-lnop.adapter.ts\<close>). The worker takes the items of a job that are
  still pending, calls the provider and writes the outcome to the items, the contracts and the
  operation. The texts of dates in a payload are day numbers.
\<close>

section \<open>The Serasa adapter\<close>

text \<open>
  \<open>serasa_http\<close> is \<open>fetch\<close>: the response to the \<open>n\<close>-th attempt of a request, its body \<open>None\<close> when it
  is not JSON. \<open>text\<close> is \<open>JSON.stringify\<close>, which only shapes error messages.
\<close>

datatype serasa_response = Response int "json option" string | NoResponse string

record provider_config =
  pc_apiKey :: string
  pc_baseUrl :: string
  pc_environment :: provider_env

record debt_payload =
  dp_operationItemId :: string
  dp_document :: string
  dp_contractNumber :: string
  dp_wallet :: string
  dp_debtType :: string
  dp_occurrenceDate :: int
  dp_debtValue :: rat
  dp_offer :: "(rat \<times> int \<times> int) option"
  dp_debtOrigin :: "(string \<times> string) option"

datatype serasa_body = DebtBody "debt_payload list" | RemoveBody "string option list"

record send_result =
  sr_httpStatus :: int
  sr_transactionId :: "string option"
  sr_debtIds :: "string option list"
  sr_error :: "(string \<times> string) option"

type_synonym serasa_http = "string \<Rightarrow> serasa_body \<Rightarrow> provider_config \<Rightarrow> nat \<Rightarrow> serasa_response"

definition MAX_RETRIES :: nat where
  "MAX_RETRIES = 3"

definition isRetryable :: "int \<Rightarrow> bool" where
  "isRetryable status \<longleftrightarrow> status = 429 \<or> (500 \<le> status \<and> status \<le> 599)"

definition getBackoffDelay :: "nat \<Rightarrow> nat" where
  "getBackoffDelay attempt = 30000 * 2 ^ (attempt - 1)"

definition nonblank :: "json option \<Rightarrow> string option" where
  "nonblank x = (case x of Some (JStr s) \<Rightarrow> if trim s = '''' then None else Some s | _ \<Rightarrow> None)"

definition join_with :: "string \<Rightarrow> string list \<Rightarrow> string" where
  "join_with sep xs = (case xs of [] \<Rightarrow> '''' | y # ys \<Rightarrow> y @ concat (map (\<lambda>z. sep @ z) ys))"

definition error_entry :: "(json \<Rightarrow> string) \<Rightarrow> json \<Rightarrow> string option" where
  "error_entry text e =
     (case e of
        JStr s \<Rightarrow> Some s
      | _ \<Rightarrow>
     (case jget ''message'' e of
        Some (JStr s) \<Rightarrow> Some s
      | _ \<Rightarrow>
     (case jget ''detail'' e of
        Some (JStr s) \<Rightarrow> Some s
      | _ \<Rightarrow>
     (case jget ''messages'' e of
        Some (JArr xs) \<Rightarrow>
          Some (join_with '', '' (map (\<lambda>x. case x of JStr s \<Rightarrow> s | JNull \<Rightarrow> '''' | _ \<Rightarrow> text x) xs))
      | _ \<Rightarrow> None))))"

definition error_entries :: "(json \<Rightarrow> string) \<Rightarrow> json option \<Rightarrow> string list" where
  "error_entries text errs =
     (case errs of
        Some (JArr xs) \<Rightarrow> filter (\<lambda>s. trim s \<noteq> '''') (List.map_filter (error_entry text) xs)
      | _ \<Rightarrow> [])"

definition errorMessage :: "(json \<Rightarrow> string) \<Rightarrow> json \<Rightarrow> string \<Rightarrow> string" where
  "errorMessage text body fallback =
     (case nonblank (jget ''message'' body) of Some s \<Rightarrow> s | None \<Rightarrow>
     (case nonblank (jget ''error'' body) of Some s \<Rightarrow> s | None \<Rightarrow>
     (case error_entries text (jget ''errors'' body) of
        _ # _ \<Rightarrow> join_with ''; '' (error_entries text (jget ''errors'' body))
      | [] \<Rightarrow>
     (case nonblank (jget ''detail'' body) of Some s \<Rightarrow> s | None \<Rightarrow>
        (case body of
           JObj _ \<Rightarrow> if text body \<noteq> '''' \<and> text body \<noteq> ''{}'' then take 2000 (text body) else fallback
         | JArr _ \<Rightarrow> if text body \<noteq> '''' \<and> text body \<noteq> ''{}'' then take 2000 (text body) else fallback
         | _ \<Rightarrow> fallback)))))"

definition debt_ids :: "json \<Rightarrow> string option list" where
  "debt_ids body =
     (case jget ''debtIds'' body of
        Some (JArr xs) \<Rightarrow> map (\<lambda>x. json_string (Some x)) xs
      | _ \<Rightarrow>
     (case jget ''items'' body of
        Some (JArr xs) \<Rightarrow> map (\<lambda>x. json_string (jget ''debtId'' x)) xs
      | _ \<Rightarrow> []))"

definition http_code :: "int \<Rightarrow> string" where
  "http_code status = ''HTTP_'' @ show_nat (nat status)"

definition doRequest :: "(json \<Rightarrow> string) \<Rightarrow> serasa_response \<Rightarrow> string + send_result" where
  \<comment> \<open>\<open>Inl\<close> is a thrown error: no response, or a success whose body is not JSON\<close>
  "doRequest text r =
     (case r of
        NoResponse msg \<Rightarrow> Inl msg
      | Response status body statusText \<Rightarrow>
          if 200 \<le> status \<and> status < 300 then
            (if status = 204
             then Inr \<lparr>sr_httpStatus = status, sr_transactionId = None, sr_debtIds = [], sr_error = None\<rparr>
             else case body of
                    None \<Rightarrow> Inl ''Unexpected token in JSON''
                  | Some b \<Rightarrow>
                      Inr \<lparr>sr_httpStatus = status, sr_transactionId = json_string (jget ''transactionId'' b),
                           sr_debtIds = debt_ids b, sr_error = None\<rparr>)
          else
            let b = or_else body (JObj [(''message'', JStr statusText)])
            in Inr \<lparr>sr_httpStatus = status, sr_transactionId = None, sr_debtIds = [],
                    sr_error = Some
                      (case json_string (jget ''code'' b) of
                         Some (c # cs) \<Rightarrow> c # cs
                       | _ \<Rightarrow> http_code status,
                       errorMessage text b statusText)\<rparr>)"

definition network_error :: "string \<Rightarrow> send_result" where
  "network_error msg =
     \<lparr>sr_httpStatus = 0, sr_transactionId = None, sr_debtIds = [], sr_error = Some (''NETWORK_ERROR'', msg)\<rparr>"

fun retry_loop :: "(nat \<Rightarrow> string + send_result) \<Rightarrow> nat \<Rightarrow> nat \<Rightarrow> send_result" where
  \<comment> \<open>attempts that are left and number of the next one\<close>
  "retry_loop req 0 attempt =
     \<lparr>sr_httpStatus = 0, sr_transactionId = None, sr_debtIds = [],
      sr_error = Some (''UNKNOWN_ERROR'', ''All retry attempts exhausted'')\<rparr>"
| "retry_loop req (Suc left) attempt =
     (case req attempt of
        Inr r \<Rightarrow>
          if 200 \<le> sr_httpStatus r \<and> sr_httpStatus r < 300 then r
          else if isRetryable (sr_httpStatus r) \<and> left > 0 then retry_loop req left (Suc attempt)
          else r
      | Inl msg \<Rightarrow>
          if left > 0 then retry_loop req left (Suc attempt) else network_error msg)"

definition executeWithRetry :: "(nat \<Rightarrow> string + send_result) \<Rightarrow> send_result" where
  "executeWithRetry req = retry_loop req MAX_RETRIES 1"

definition sendDebts ::
  "serasa_http \<Rightarrow> (json \<Rightarrow> string) \<Rightarrow> debt_payload list \<Rightarrow> provider_config \<Rightarrow> send_result" where
  "sendDebts http text ps cfg =
     executeWithRetry (\<lambda>n. doRequest text
       (http (pc_baseUrl cfg @ ''/debts/create'')
          (DebtBody (map (\<lambda>p. p\<lparr>dp_operationItemId := ''''\<rparr>) ps)) cfg n))"

definition removeDebts ::
  "serasa_http \<Rightarrow> (json \<Rightarrow> string) \<Rightarrow> (string \<times> string option) list \<Rightarrow> provider_config \<Rightarrow> send_result" where
  "removeDebts http text ps cfg =
     executeWithRetry (\<lambda>n. doRequest text
       (http (pc_baseUrl cfg @ ''/debts/remove'') (RemoveBody (map snd ps)) cfg n))"

section \<open>Processing a job\<close>

definition SERASA_BASE_URLS :: "provider_env \<Rightarrow> string" where
  "SERASA_BASE_URLS e =
     (case e of
        PV_HOMOLOGATION \<Rightarrow> ''https://api.serasa.dev/partnerportal/integration-gateway/v1''
      | PV_PRODUCTION \<Rightarrow> ''https://api.serasa.com.br/partnerportal/integration-gateway/v1'')"

definition getProviderConfig ::
  "(string \<Rightarrow> string option) \<Rightarrow> (string \<Rightarrow> json option) \<Rightarrow> string \<Rightarrow> database \<Rightarrow> string + provider_config" where
  \<comment> \<open>\<open>dec\<close> is \<open>CryptoService.decrypt\<close> and \<open>parse\<close> is \<open>JSON.parse\<close>\<close>
  "getProviderConfig dec parse providerId d =
     (case List.find (\<lambda>p. pv_id p = providerId) (providers d) of
        None \<Rightarrow> Inl (''Provider '' @ providerId @ '' not found'')
      | Some pv \<Rightarrow>
     (case dec (pv_credentials pv) of
        None \<Rightarrow> Inl ''Decryption failed''
      | Some plain \<Rightarrow>
     (case parse plain of
        None \<Rightarrow> Inl ''Unexpected token in JSON''
      | Some creds \<Rightarrow>
     (case nonblank (if truthy (jget ''apiKey'' creds) then jget ''apiKey'' creds else jget ''token'' creds) of
        None \<Rightarrow> Inl ''API Key da Serasa nao configurada para este canal''
      | Some key \<Rightarrow>
          Inr \<lparr>pc_apiKey = key, pc_baseUrl = SERASA_BASE_URLS (pv_environment pv),
               pc_environment = pv_environment pv\<rparr>))))"

definition debt_type_name :: "debt_type \<Rightarrow> string" where
  "debt_type_name t =
     (case t of
        COMMERCIAL \<Rightarrow> ''COMMERCIAL'' | BANKING \<Rightarrow> ''BANKING'' | SERVICES \<Rightarrow> ''SERVICES''
      | UTILITIES \<Rightarrow> ''UTILITIES'' | TELECOM \<Rightarrow> ''TELECOM'' | EDUCATION \<Rightarrow> ''EDUCATION''
      | HEALTH \<Rightarrow> ''HEALTH'' | CONDOMINIAL \<Rightarrow> ''CONDOMINIAL'' | OTHER \<Rightarrow> ''OTHER'')"

definition first_text :: "string option list \<Rightarrow> string \<Rightarrow> string" where
  \<comment> \<open>a chain of \<open>||\<close> over texts\<close>
  "first_text xs s =
     or_else (or_else (List.find (\<lambda>x. x \<noteq> None \<and> x \<noteq> Some '''') xs) None) s"

definition debt_payload_of :: "operation_item \<Rightarrow> contract \<Rightarrow> wallet \<Rightarrow> creditor \<Rightarrow> debt_payload" where
  "debt_payload_of it c w cr =
     (let ext = (case wl_serasaWalletExternalId w of None \<Rightarrow> '''' | Some s \<Rightarrow> trim s);
          offer = ct_offer c
      in \<lparr>dp_operationItemId = it_id it, dp_document = ct_debtorDocument c,
          dp_contractNumber = ct_contractNumber c,
          dp_wallet = (if ext = '''' then ''PRE_CALCULADA'' else ext),
          dp_debtType = ''ORIGEM: '' @
            first_text [cr_tradeName cr, Some (cr_name cr)] (debt_type_name (ct_debtType c)),
          dp_occurrenceDate = ct_occurrenceDate c div 86400000,
          dp_debtValue = ct_updatedValue c,
          dp_offer = (if ext = '''' then
              Some (or_else (of_value offer) (ct_updatedValue c),
                    or_else (of_firstInstallmentDays offer) 5, or_else (of_maxInstallments offer) 1)
            else None),
          dp_debtOrigin = (case cr_cnpj cr of
              Some (ch # cs) \<Rightarrow> Some (cr_name cr, digits_only (ch # cs))
            | _ \<Rightarrow> None)\<rparr>)"

definition payload_of_item :: "database \<Rightarrow> operation_item \<Rightarrow> debt_payload option" where
  \<comment> \<open>the joins of the query; the foreign keys of the schema make them total\<close>
  "payload_of_item d it =
     (case item_contract d it of
        None \<Rightarrow> None
      | Some c \<Rightarrow>
          (case List.find (\<lambda>w. wl_id w = ct_walletId c) (wallets d) of
             None \<Rightarrow> None
           | Some w \<Rightarrow>
               map_option (debt_payload_of it c w) (List.find (\<lambda>cr. cr_id cr = wl_creditorId w) (creditors d))))"

definition attempted :: "int \<Rightarrow> operation_item \<Rightarrow> operation_item" where
  "attempted now it = it\<lparr>it_attempts := it_attempts it + 1, it_lastAttemptAt := Some now\<rparr>"

definition of_batch :: "string \<Rightarrow> operation_item list \<Rightarrow> operation_item \<Rightarrow> bool" where
  \<comment> \<open>\<open>where: { operationId, id: { in: items.map(...) } }\<close>\<close>
  "of_batch operationId its it \<longleftrightarrow> it_operationId it = operationId \<and> it_id it \<in> set (map it_id its)"

definition accepted_item :: "int \<Rightarrow> send_result \<Rightarrow> operation_item \<Rightarrow> operation_item" where
  "accepted_item now r it =
     attempted now (it\<lparr>it_status := IT_WAITING_PROVIDER_EVENT,
       it_transactionId := (if sr_transactionId r = Some '''' then None else sr_transactionId r)\<rparr>)"

definition rejected_item :: "int \<Rightarrow> send_result \<Rightarrow> operation_item \<Rightarrow> operation_item" where
  "rejected_item now r it =
     attempted now (it\<lparr>it_status := IT_FAILED,
       it_errorCode := Some (first_text [map_option fst (sr_error r)] (http_code (sr_httpStatus r))),
       it_errorMessage := Some (first_text [map_option snd (sr_error r)] ''Provider request failed'')\<rparr>)"

definition store_debt_ids :: "operation_item list \<Rightarrow> string option list \<Rightarrow> database \<Rightarrow> database" where
  "store_debt_ids its ids d =
     fold (\<lambda>(it, i) d'. case i of
             Some (c # cs) \<Rightarrow> update_contract (it_contractId it) (\<lambda>x. x\<lparr>ct_debtId := Some (c # cs)\<rparr>) d'
           | _ \<Rightarrow> d') (zip its ids) d"

definition set_serasa :: "operation_item list \<Rightarrow> serasa_status \<Rightarrow> database \<Rightarrow> database" where
  "set_serasa its st = update_contracts (map it_contractId its) (\<lambda>c. c\<lparr>ct_serasaStatus := st\<rparr>)"

definition processCreateBatch ::
  "serasa_http \<Rightarrow> (json \<Rightarrow> string) \<Rightarrow> int \<Rightarrow> operation_item list \<Rightarrow> provider_config \<Rightarrow> string
     \<Rightarrow> database \<Rightarrow> database" where
  "processCreateBatch http text now its cfg operationId d =
     (let r = sendDebts http text (List.map_filter (payload_of_item d) its) cfg
      in if sr_httpStatus r = 202 then
           store_debt_ids its (sr_debtIds r)
             (set_serasa its SE_SENT (update_items (of_batch operationId its) (accepted_item now r) d))
         else if 200 \<le> sr_httpStatus r \<and> sr_httpStatus r < 300 then
           set_serasa its SE_REGISTERED
             (update_items (of_batch operationId its) (\<lambda>it. attempted now (it\<lparr>it_status := IT_UPDATED\<rparr>)) d)
         else
           set_serasa its SE_FAILED (update_items (of_batch operationId its) (rejected_item now r) d))"

definition processRemoveBatch ::
  "serasa_http \<Rightarrow> (json \<Rightarrow> string) \<Rightarrow> int \<Rightarrow> operation_item list \<Rightarrow> provider_config \<Rightarrow> string
     \<Rightarrow> database \<Rightarrow> database" where
  "processRemoveBatch http text now its cfg operationId d =
     (let ps = map (\<lambda>it. (it_id it, case item_contract d it of None \<Rightarrow> None | Some c \<Rightarrow> ct_debtId c)) its;
          r = removeDebts http text ps cfg
      in if sr_httpStatus r = 202 then
           set_serasa its SE_REMOVING (update_items (of_batch operationId its) (accepted_item now r) d)
         else
           set_serasa its SE_FAILED (update_items (of_batch operationId its) (rejected_item now r) d))"

definition final_status :: "nat \<Rightarrow> nat \<Rightarrow> operation_status" where
  "final_status failedItems totalItems =
     (if failedItems = 0 then OP_COMPLETED
      else if failedItems = totalItems then OP_FAILED
      else OP_PARTIALLY_FAILED)"

definition updateOperationStatusIfComplete :: "string \<Rightarrow> database \<Rightarrow> database" where
  "updateOperationStatusIfComplete operationId d =
     (if count_where (\<lambda>it. it_operationId it = operationId \<and> it_status it = IT_PENDING) (items d) > 0
      then d
      else set_operation_status operationId
             (final_status
                (count_where (\<lambda>it. it_operationId it = operationId \<and> it_status it = IT_FAILED) (items d))
                (count_where (\<lambda>it. it_operationId it = operationId) (items d))) d)"

record worker =
  wk_http :: serasa_http
  wk_text :: "json \<Rightarrow> string"
  wk_decrypt :: "string \<Rightarrow> string option"
  wk_parse :: "string \<Rightarrow> json option"

definition pending_of :: "operation_job \<Rightarrow> operation_item \<Rightarrow> bool" where
  "pending_of job it \<longleftrightarrow>
     it_operationId it = oj_operationId job \<and> it_batchIndex it = oj_batchIndex job \<and>
     it_status it = IT_PENDING"

definition process_job :: "worker \<Rightarrow> int \<Rightarrow> operation_job \<Rightarrow> database \<Rightarrow> database" where
  \<comment> \<open>\<open>OperationProcessor.process\<close>\<close>
  "process_job wk now job d =
     (let i = oj_operationId job;
          d1 = d\<lparr>operations := update_where (\<lambda>op. op_id op = i \<and> op_status op = OP_PENDING)
                   (\<lambda>op. op\<lparr>op_status := OP_PROCESSING\<rparr>) (operations d)\<rparr>
      in if map_option op_status (List.find (\<lambda>op. op_id op = i) (operations d1)) = Some OP_CANCELLED
         then d1
         else
         let its = filter (pending_of job) (items d1)
         in if its = [] then updateOperationStatusIfComplete i d1
            else
            (case getProviderConfig (wk_decrypt wk) (wk_parse wk) (oj_providerId job) d1 of
               Inl msg \<Rightarrow>
                 updateOperationStatusIfComplete i
                   (update_items (pending_of job)
                      (\<lambda>it. attempted now (it\<lparr>it_status := IT_FAILED,
                         it_errorCode := Some ''PROCESSING_ERROR'', it_errorMessage := Some msg\<rparr>)) d1)
             | Inr cfg \<Rightarrow>
                 updateOperationStatusIfComplete i
                   (if oj_action job = CREATE_OR_UPDATE
                    then processCreateBatch (wk_http wk) (wk_text wk) now its cfg i d1
                    else processRemoveBatch (wk_http wk) (wk_text wk) now its cfg i d1)))"


section \<open>Frames\<close>

lemma store_debt_ids_frame [simp]:
  "items (store_debt_ids its ids d) = items d" "operations (store_debt_ids its ids d) = operations d"
  "queue (store_debt_ids its ids d) = queue d" "nextId (store_debt_ids its ids d) = nextId d"
  "interactions (store_debt_ids its ids d) = interactions d"
  "pay_frame d0 (store_debt_ids its ids d) = pay_frame d0 d"
proof -
  have "items (fold g ps d) = items d \<and> operations (fold g ps d) = operations d \<and> queue (fold g ps d) = queue d \<and>
    nextId (fold g ps d) = nextId d \<and> interactions (fold g ps d) = interactions d \<and>
    pay_frame d0 (fold g ps d) = pay_frame d0 d"
    if step: "\<And>p d. \<exists>i f. g p d = update_contract i f d \<or> g p d = d"
    for ps and g :: "operation_item \<times> string option \<Rightarrow> database \<Rightarrow> database"
  proof (induction ps arbitrary: d)
    case (Cons p ps)
    obtain i f where "g p d = update_contract i f d \<or> g p d = d" using step by blast
    then show ?case using Cons [of "g p d"] by auto
  qed simp
  moreover have "\<exists>i f. (case p of (it, i) \<Rightarrow> \<lambda>d'. case i of
             Some (c # cs) \<Rightarrow> update_contract (it_contractId it) (\<lambda>x. x\<lparr>ct_debtId := Some (c # cs)\<rparr>) d'
           | _ \<Rightarrow> d') d = update_contract i f d \<or>
      (case p of (it, i) \<Rightarrow> \<lambda>d'. case i of
             Some (c # cs) \<Rightarrow> update_contract (it_contractId it) (\<lambda>x. x\<lparr>ct_debtId := Some (c # cs)\<rparr>) d'
           | _ \<Rightarrow> d') d = d" for p :: "operation_item \<times> string option" and d
    by (auto split: prod.split option.split list.split)
  ultimately show
    "items (store_debt_ids its ids d) = items d" "operations (store_debt_ids its ids d) = operations d"
    "queue (store_debt_ids its ids d) = queue d" "nextId (store_debt_ids its ids d) = nextId d"
    "interactions (store_debt_ids its ids d) = interactions d"
    "pay_frame d0 (store_debt_ids its ids d) = pay_frame d0 d"
    unfolding store_debt_ids_def by blast+
qed

lemma set_serasa_frame [simp]:
  "items (set_serasa its st d) = items d" "operations (set_serasa its st d) = operations d"
  "queue (set_serasa its st d) = queue d" "nextId (set_serasa its st d) = nextId d"
  "interactions (set_serasa its st d) = interactions d"
  "pay_frame d0 (set_serasa its st d) = pay_frame d0 d"
  by (simp_all add: set_serasa_def)

lemma update_complete_frame [simp]:
  "items (updateOperationStatusIfComplete i d) = items d" "contracts (updateOperationStatusIfComplete i d) = contracts d"
  "queue (updateOperationStatusIfComplete i d) = queue d" "nextId (updateOperationStatusIfComplete i d) = nextId d"
  "interactions (updateOperationStatusIfComplete i d) = interactions d"
  "pay_frame d0 (updateOperationStatusIfComplete i d) = pay_frame d0 d"
  by (simp_all add: updateOperationStatusIfComplete_def)

lemma attempted_fields [simp]:
  "it_id (attempted now it) = it_id it" "it_operationId (attempted now it) = it_operationId it"
  "it_batchIndex (attempted now it) = it_batchIndex it" "it_status (attempted now it) = it_status it"
  "it_attempts (attempted now it) = Suc (it_attempts it)" "it_contractId (attempted now it) = it_contractId it"
  by (simp_all add: attempted_def)

lemma outcome_item_fields [simp]:
  "it_id (accepted_item now r it) = it_id it" "it_operationId (accepted_item now r it) = it_operationId it"
  "it_batchIndex (accepted_item now r it) = it_batchIndex it"
  "it_status (accepted_item now r it) = IT_WAITING_PROVIDER_EVENT"
  "it_attempts (accepted_item now r it) = Suc (it_attempts it)"
  "it_contractId (accepted_item now r it) = it_contractId it"
  "it_id (rejected_item now r it) = it_id it" "it_operationId (rejected_item now r it) = it_operationId it"
  "it_batchIndex (rejected_item now r it) = it_batchIndex it" "it_status (rejected_item now r it) = IT_FAILED"
  "it_attempts (rejected_item now r it) = Suc (it_attempts it)"
  "it_contractId (rejected_item now r it) = it_contractId it"
  by (simp_all add: accepted_item_def rejected_item_def)

section \<open>What a job does to its items\<close>

definition item_outcome :: "(operation_item \<Rightarrow> operation_item) \<Rightarrow> bool" where
  \<comment> \<open>an attempt was made and the item is no longer pending\<close>
  "item_outcome g \<longleftrightarrow>
     (\<forall>it. it_id (g it) = it_id it \<and> it_operationId (g it) = it_operationId it \<and>
        it_contractId (g it) = it_contractId it \<and> it_batchIndex (g it) = it_batchIndex it \<and>
        it_attempts (g it) = Suc (it_attempts it) \<and>
        it_status (g it) \<in> {IT_WAITING_PROVIDER_EVENT, IT_UPDATED, IT_FAILED})"

definition start_job :: "string \<Rightarrow> provider_operation list \<Rightarrow> provider_operation list" where
  "start_job i = update_where (\<lambda>op. op_id op = i \<and> op_status op = OP_PENDING)
     (\<lambda>op. op\<lparr>op_status := OP_PROCESSING\<rparr>)"

definition batch_rows :: "operation_job \<Rightarrow> database \<Rightarrow> operation_item \<Rightarrow> bool" where
  \<comment> \<open>the rows a job writes: those with the id of a pending item of its batch\<close>
  "batch_rows job d it \<longleftrightarrow>
     it_operationId it = oj_operationId job \<and> it_id it \<in> it_id ` set (filter (pending_of job) (items d))"

lemma item_outcomes:
  "item_outcome (accepted_item now r)" "item_outcome (rejected_item now r)"
  "item_outcome (\<lambda>it. attempted now (it\<lparr>it_status := IT_UPDATED\<rparr>))"
  "item_outcome (\<lambda>it. attempted now (it\<lparr>it_status := IT_FAILED, it_errorCode := c, it_errorMessage := m\<rparr>))"
  by (simp_all add: item_outcome_def)

lemma item_outcomeD:
  assumes "item_outcome g"
  shows "it_id (g it) = it_id it" "it_operationId (g it) = it_operationId it"
    "it_contractId (g it) = it_contractId it" "it_batchIndex (g it) = it_batchIndex it"
    "it_attempts (g it) = Suc (it_attempts it)" "it_status (g it) \<noteq> IT_PENDING"
    "it_status (g it) = IT_WAITING_PROVIDER_EVENT \<or> it_status (g it) = IT_UPDATED \<or> it_status (g it) = IT_FAILED"
proof -
  have "it_id (g it) = it_id it \<and> it_operationId (g it) = it_operationId it \<and>
        it_contractId (g it) = it_contractId it \<and> it_batchIndex (g it) = it_batchIndex it \<and>
        it_attempts (g it) = Suc (it_attempts it) \<and>
        it_status (g it) \<in> {IT_WAITING_PROVIDER_EVENT, IT_UPDATED, IT_FAILED}"
    using assms unfolding item_outcome_def by blast
  then show "it_id (g it) = it_id it" "it_operationId (g it) = it_operationId it"
    "it_contractId (g it) = it_contractId it" "it_batchIndex (g it) = it_batchIndex it"
    "it_attempts (g it) = Suc (it_attempts it)" "it_status (g it) \<noteq> IT_PENDING"
    "it_status (g it) = IT_WAITING_PROVIDER_EVENT \<or> it_status (g it) = IT_UPDATED \<or> it_status (g it) = IT_FAILED"
    by auto
qed

lemma process_job_cases:
  obtains (cancelled) "process_job wk now job d = d\<lparr>operations := start_job (oj_operationId job) (operations d)\<rparr>"
      and "map_option op_status (List.find (\<lambda>op. op_id op = oj_operationId job)
             (start_job (oj_operationId job) (operations d))) = Some OP_CANCELLED"
  | (idle) "filter (pending_of job) (items d) = []"
      and "process_job wk now job d = updateOperationStatusIfComplete (oj_operationId job)
             (d\<lparr>operations := start_job (oj_operationId job) (operations d)\<rparr>)"
      and "map_option op_status (List.find (\<lambda>op. op_id op = oj_operationId job)
             (start_job (oj_operationId job) (operations d))) \<noteq> Some OP_CANCELLED"
  | (worked) P g d1 where "filter (pending_of job) (items d) \<noteq> []"
      and "process_job wk now job d = updateOperationStatusIfComplete (oj_operationId job) d1"
      and "items d1 = update_where P g (items d)" and "item_outcome g"
      and "\<And>it. it \<in> set (items d) \<Longrightarrow> pending_of job it \<Longrightarrow> P it"
      and "\<And>it. P it \<Longrightarrow> pending_of job it \<or> batch_rows job d it"
      and "operations d1 = start_job (oj_operationId job) (operations d)" and "queue d1 = queue d"
      and "nextId d1 = nextId d" and "interactions d1 = interactions d" and "pay_frame d d1"
      and "map_option op_status (List.find (\<lambda>op. op_id op = oj_operationId job)
             (start_job (oj_operationId job) (operations d))) \<noteq> Some OP_CANCELLED"
proof -
  let ?i = "oj_operationId job"
  let ?d1 = "d\<lparr>operations := start_job ?i (operations d)\<rparr>"
  let ?its = "filter (pending_of job) (items d)"
  show ?thesis
  proof (cases "map_option op_status (List.find (\<lambda>op. op_id op = ?i) (start_job ?i (operations d))) = Some OP_CANCELLED")
    case True
    then show ?thesis
      by (intro cancelled) (simp_all add: process_job_def Let_def start_job_def)
  next
    case False
    show ?thesis
    proof (cases "?its = []")
      case True
      then show ?thesis
        using False by (intro idle) (auto simp: process_job_def Let_def start_job_def)
    next
      case ne: False
      define d2 where "d2 = (case getProviderConfig (wk_decrypt wk) (wk_parse wk) (oj_providerId job) ?d1 of
               Inl msg \<Rightarrow>
                   update_items (pending_of job)
                      (\<lambda>it. attempted now (it\<lparr>it_status := IT_FAILED,
                         it_errorCode := Some ''PROCESSING_ERROR'', it_errorMessage := Some msg\<rparr>)) ?d1
             | Inr cfg \<Rightarrow>
                   if oj_action job = CREATE_OR_UPDATE
                    then processCreateBatch (wk_http wk) (wk_text wk) now ?its cfg ?i ?d1
                    else processRemoveBatch (wk_http wk) (wk_text wk) now ?its cfg ?i ?d1)"
      have "process_job wk now job d =
          (if map_option op_status (List.find (\<lambda>op. op_id op = ?i) (start_job ?i (operations d))) = Some OP_CANCELLED
           then ?d1 else if ?its = [] then updateOperationStatusIfComplete ?i ?d1
           else updateOperationStatusIfComplete ?i d2)"
        by (cases "getProviderConfig (wk_decrypt wk) (wk_parse wk) (oj_providerId job) ?d1")
          (auto simp: process_job_def Let_def d2_def simp flip: start_job_def)
      then have run: "process_job wk now job d = updateOperationStatusIfComplete ?i d2"
        using False ne by (simp only: if_False)
      have rows: "\<exists>P g. items d2 = update_where P g (items d) \<and> item_outcome g \<and>
          (P = pending_of job \<or> P = of_batch ?i ?its)"
        unfolding d2_def
        by (simp add: processCreateBatch_def processRemoveBatch_def Let_def split: sum.split)
          (blast intro: item_outcomes)
      have other: "operations d2 = start_job ?i (operations d)" "queue d2 = queue d" "nextId d2 = nextId d"
        "interactions d2 = interactions d" "pay_frame d d2"
        unfolding d2_def
        by (simp_all add: processCreateBatch_def processRemoveBatch_def Let_def split: sum.split)
      obtain P g where "items d2 = update_where P g (items d)" "item_outcome g"
        "P = pending_of job \<or> P = of_batch ?i ?its"
        using rows by blast
      then show ?thesis
        using ne run other False
        by (intro worked [of d2 P g]) (auto simp: of_batch_def batch_rows_def pending_of_def)
    qed
  qed
qed


definition item_step :: "operation_job \<Rightarrow> operation_item \<Rightarrow> operation_item \<Rightarrow> bool" where
  \<comment> \<open>what a job may do to a row: one attempt on a pending item of its batch\<close>
  "item_step job it it' \<longleftrightarrow> it' = it \<or>
     (pending_of job it \<and> it_id it' = it_id it \<and> it_operationId it' = it_operationId it \<and>
      it_contractId it' = it_contractId it \<and> it_batchIndex it' = it_batchIndex it \<and>
      it_attempts it' = Suc (it_attempts it) \<and>
      it_status it' \<in> {IT_WAITING_PROVIDER_EVENT, IT_UPDATED, IT_FAILED})"

lemma start_job_kept:
  "(\<And>op. op \<in> set ops \<Longrightarrow> op_id op = i \<Longrightarrow> op_status op \<noteq> OP_PENDING) \<Longrightarrow> start_job i ops = ops"
  unfolding start_job_def by (rule update_where_none) blast

lemma start_job_started: "op \<in> set (start_job i ops) \<Longrightarrow> op_id op = i \<Longrightarrow> op_status op \<noteq> OP_PENDING"
  unfolding start_job_def in_update_where by (elim bexE disjE conjE) simp_all

lemma map_start_job [simp]:
  "map op_id (start_job i ops) = map op_id ops" "map op_totalItems (start_job i ops) = map op_totalItems ops"
  by (simp_all add: start_job_def map_update_where)

lemma final_status_cases: "final_status a b \<in> {OP_COMPLETED, OP_FAILED, OP_PARTIALLY_FAILED}"
  by (simp add: final_status_def)

lemma update_complete_operations:
  "operations (updateOperationStatusIfComplete i d) = operations d \<or>
   (\<exists>st \<in> {OP_COMPLETED, OP_FAILED, OP_PARTIALLY_FAILED}. operations (updateOperationStatusIfComplete i d) =
      update_where (\<lambda>op. op_id op = i) (\<lambda>op. op\<lparr>op_status := st\<rparr>) (operations d))"
proof (cases "count_where (\<lambda>it. it_operationId it = i \<and> it_status it = IT_PENDING) (items d) = 0")
  case True
  then show ?thesis
    using final_status_cases
    by (intro disjI2 bexI) (auto simp: updateOperationStatusIfComplete_def)
qed (simp add: updateOperationStatusIfComplete_def)

lemma update_complete_idem [simp]:
  "updateOperationStatusIfComplete i (updateOperationStatusIfComplete i d) = updateOperationStatusIfComplete i d"
proof -
  have twice: "update_where P g (update_where P g xs) = update_where P g xs"
    if "\<And>x. P (g x) = P x" "\<And>x. g (g x) = g x" for P and g :: "provider_operation \<Rightarrow> provider_operation" and xs
    using that by (induction xs) auto
  have "set_operation_status i st (set_operation_status i st d) = set_operation_status i st d" for st
    by (simp add: set_operation_status_def twice)
  then show ?thesis
    by (simp add: updateOperationStatusIfComplete_def)
qed

lemma process_job_settled:
  assumes "map_option op_status (List.find (\<lambda>op. op_id op = oj_operationId job)
             (start_job (oj_operationId job) (operations d))) \<noteq> Some OP_CANCELLED"
  shows "filter (pending_of job) (items (process_job wk now job d)) = []"
    and "updateOperationStatusIfComplete (oj_operationId job) (process_job wk now job d) = process_job wk now job d"
    and "start_job (oj_operationId job) (operations (process_job wk now job d)) = operations (process_job wk now job d)"
proof -
  let ?i = "oj_operationId job"
  obtain d1 where d1: "process_job wk now job d = updateOperationStatusIfComplete ?i d1"
    "operations d1 = start_job ?i (operations d)" "filter (pending_of job) (items d1) = []"
  proof (cases rule: process_job_cases [of wk now job d])
    case idle
    then show ?thesis
      by (intro that [of "d\<lparr>operations := start_job ?i (operations d)\<rparr>"]) simp_all
  next
    case (worked P g d1)
    have "\<not> pending_of job (if P it then g it else it)" if "it \<in> set (items d)" for it
      using item_outcomeD(6) [OF worked(4), of it] worked(5) [OF that] by (auto simp: pending_of_def)
    then have "filter (pending_of job) (items d1) = []"
      unfolding worked(3) update_where_def filter_empty_conv set_map by blast
    with worked show ?thesis by (intro that [of d1]) simp_all
  qed (use assms in blast)
  show "filter (pending_of job) (items (process_job wk now job d)) = []"
    and "updateOperationStatusIfComplete ?i (process_job wk now job d) = process_job wk now job d"
    using d1 by simp_all
  show "start_job ?i (operations (process_job wk now job d)) = operations (process_job wk now job d)"
  proof (rule start_job_kept)
    fix op assume "op \<in> set (operations (process_job wk now job d))" "op_id op = ?i"
    then show "op_status op \<noteq> OP_PENDING"
      using update_complete_operations [of ?i d1] start_job_started [of op ?i "operations d"]
      unfolding d1 by (auto simp: in_update_where)
  qed
qed

text \<open>
  The queue may deliver a job twice: the second delivery changes nothing, whatever the provider
  would answer to it and whenever it happens.
\<close>

theorem process_job_redelivered:
  "process_job wk2 now2 job (process_job wk now job d) = process_job wk now job d"
proof -
  let ?i = "oj_operationId job" and ?d = "process_job wk now job d"
  let ?cancelled = "\<lambda>ops. map_option op_status (List.find (\<lambda>op. op_id op = ?i) (start_job ?i ops)) = Some OP_CANCELLED"
  have kept: "start_job ?i (operations ?d) = operations ?d"
  proof (cases "?cancelled (operations d)")
    case True
    then show ?thesis
      by (cases rule: process_job_cases [of wk now job d])
        (auto intro!: start_job_kept dest: start_job_started)
  qed (rule process_job_settled)
  have same: "?d\<lparr>operations := start_job ?i (operations ?d)\<rparr> = ?d"
    by (simp add: kept)
  show ?thesis
  proof (cases "?cancelled (operations d)")
    case True
    then have "operations ?d = start_job ?i (operations d)"
      by (cases rule: process_job_cases [of wk now job d]) auto
    with True kept have "?cancelled (operations ?d)" by simp
    then show ?thesis
      using same by (cases rule: process_job_cases [of wk2 now2 job ?d]) auto
  next
    case False
    show ?thesis
      using process_job_settled [OF False, of wk now] same
      by (cases rule: process_job_cases [of wk2 now2 job ?d]) auto
  qed
qed

lemma process_job_rows:
  assumes "distinct (map it_id (items d))"
  shows "list_all2 (item_step job) (items d) (items (process_job wk now job d))"
proof (cases rule: process_job_cases [of wk now job d])
  case (worked P g d1)
  have own: "pending_of job it" if "it \<in> set (items d)" "P it" for it
  proof -
    from worked(6) [OF that(2)] show ?thesis
    proof
      assume "batch_rows job d it"
      then obtain x where "x \<in> set (items d)" "pending_of job x" "it_id it = it_id x"
        by (auto simp: batch_rows_def)
      with assms that(1) show ?thesis
        by (auto simp: distinct_map inj_on_def)
    qed
  qed
  show ?thesis
    using own item_outcomeD [OF worked(4)] unfolding worked(2) update_complete_frame worked(3) update_where_def
    by (auto simp: list_all2_conv_all_nth item_step_def)
qed (auto simp: item_step_def intro: list_all2_refl)


section \<open>The invariant of the operations\<close>

text \<open>
  The well-formedness of the two tables: identifiers are unique and fresh, an item belongs to an
  operation, an operation has as many items as it says, an item has at most five attempts, and a
  pending item has attempts left and a job in the queue for its batch.
\<close>

definition has_job :: "operation_job list \<Rightarrow> operation_item \<Rightarrow> bool" where
  "has_job q it \<longleftrightarrow> (\<exists>j \<in> set q. oj_operationId j = it_operationId it \<and> oj_batchIndex j = it_batchIndex it)"

definition item_ok :: "operation_job list \<Rightarrow> operation_item \<Rightarrow> bool" where
  "item_ok q it \<longleftrightarrow> it_attempts it \<le> REMOVAL_MAX_ATTEMPTS \<and>
     (it_status it = IT_PENDING \<longrightarrow> it_attempts it < REMOVAL_MAX_ATTEMPTS \<and> has_job q it)"

definition items_ok :: "(nat \<Rightarrow> string) \<Rightarrow> database \<Rightarrow> bool" where
  "items_ok gen d \<longleftrightarrow>
     distinct (map it_id (items d)) \<and> set (map it_id (items d)) \<subseteq> gen ` {..<nextId d} \<and>
     distinct (map op_id (operations d)) \<and> set (map op_id (operations d)) \<subseteq> gen ` {..<nextId d} \<and>
     set (map it_operationId (items d)) \<subseteq> set (map op_id (operations d)) \<and>
     map op_totalItems (operations d) =
       map (\<lambda>i. count_list (map it_operationId (items d)) i) (map op_id (operations d)) \<and>
     (\<forall>it \<in> set (items d). item_ok (queue d) it)"

lemma gen_fresh: "inj gen \<Longrightarrow> gen n \<in> gen ` {..<m} \<longleftrightarrow> n < (m :: nat)"
  by (auto dest: injD)

lemma gen_mono: "n \<le> m \<Longrightarrow> gen ` {..<n} \<subseteq> gen ` {..<m :: nat}"
  by auto

lemma items_ok_rows:
  assumes "items_ok gen d" and "map it_id (items d') = map it_id (items d)"
    and "map it_operationId (items d') = map it_operationId (items d)"
    and "map op_id (operations d') = map op_id (operations d)"
    and "map op_totalItems (operations d') = map op_totalItems (operations d)"
    and "nextId d \<le> nextId d'" and "\<And>it. it \<in> set (items d') \<Longrightarrow> item_ok (queue d') it"
  shows "items_ok gen d'"
  using assms(1,7) gen_mono [OF assms(6), of gen] unfolding items_ok_def assms(2-5) by blast

lemma item_ok_mono: "item_ok q it \<Longrightarrow> set q \<subseteq> set q' \<Longrightarrow> item_ok q' it"
  by (auto simp: item_ok_def has_job_def)

lemma items_ok_same:
  assumes "items_ok gen d" and "items d' = items d" and "map op_id (operations d') = map op_id (operations d)"
    and "map op_totalItems (operations d') = map op_totalItems (operations d)"
    and "nextId d \<le> nextId d'" and "set (queue d) \<subseteq> set (queue d')"
  shows "items_ok gen d'"
proof (rule items_ok_rows [OF assms(1)])
  fix it assume "it \<in> set (items d')"
  then show "item_ok (queue d') it"
    using assms(1,2,6) by (auto simp: items_ok_def intro: item_ok_mono)
qed (use assms in simp_all)

lemma map_it_id_numbered: "map it_id (numbered gen n its) = map gen [n..<n + length its]"
  by (induction its arbitrary: n) (simp_all add: upt_conv_Cons del: upt_Suc)

lemma map2_const: "map2 (\<lambda>x y. c) xs ys = replicate (min (length xs) (length ys)) c"
  by (induction xs ys rule: list_induct2') auto

lemma count_list_replicate: "count_list (replicate n x) y = (if x = y then n else 0)"
  by (induction n) auto

lemma items_ok_created:
  assumes "items_ok gen d" and "inj gen" and "operation_created gen now cs marked op d d'"
  shows "items_ok gen d'"
proof -
  let ?n = "nextId d"
  let ?new = "numbered gen (Suc ?n) (map2 (\<lambda>c i. new_item (op_id op) c i now) cs [0..<length cs])"
  note c = assms(3) [unfolded operation_created_def]
  have ids: "map it_id ?new = map gen [Suc ?n..<Suc ?n + length cs]"
    by (simp add: map_it_id_numbered)
  have ops: "map it_operationId ?new = replicate (length cs) (gen ?n)"
    using c by (simp add: map_numbered case_prod_unfold comp_def map_replicate_const)
  have fresh_op: "gen ?n \<notin> set (map op_id (operations d))"
    using assms(1) gen_fresh [OF assms(2), of ?n ?n] by (auto simp: items_ok_def)
  then have fresh_item: "gen ?n \<notin> set (map it_operationId (items d))"
    using assms(1) by (auto simp: items_ok_def)
  have new_ok: "item_ok (queue d') it" if new: "it \<in> set ?new" for it
  proof -
    obtain i c where "i < length cs" "it_operationId it = op_id op" "it_batchIndex it = i"
      "it_status it = IT_PENDING" "it_attempts it = 0"
      using in_numbered [OF new] by (fastforce simp: set_zip)
    moreover have "batch_job op i \<in> set (queue d')" if "i < length cs" for i
      using c that by simp
    ultimately show ?thesis
      by (auto simp: item_ok_def has_job_def REMOVAL_MAX_ATTEMPTS_def batch_job_def intro!: bexI [of _ "batch_job op i"])
  qed
  have disj: "set (map it_id (items d)) \<inter> set (map gen [Suc ?n..<Suc ?n + length cs]) = {}"
  proof -
    have "gen ` {..<?n} \<inter> gen ` {Suc ?n..} = {}"
      unfolding image_Int [OF assms(2), symmetric] by auto
    moreover have "set (map it_id (items d)) \<subseteq> gen ` {..<?n}"
      using assms(1) by (simp add: items_ok_def)
    moreover have "set (map gen [Suc ?n..<Suc ?n + length cs]) \<subseteq> gen ` {Suc ?n..}"
      by auto
    ultimately show ?thesis by blast
  qed
  have dist: "distinct (map gen [Suc ?n..<Suc ?n + length cs])"
    using assms(2) by (simp add: distinct_map inj_on_def inj_def)
  have items: "map it_id (items d') = map it_id (items d) @ map gen [Suc ?n..<Suc ?n + length cs]"
    "map it_operationId (items d') = map it_operationId (items d) @ replicate (length cs) (gen ?n)"
    using c ids ops by (simp_all del: set_map)
  have "set (map it_id (items d')) \<subseteq> gen ` {..<nextId d'}"
    using assms(1) c items(1) gen_mono [of ?n "nextId d'" gen]
    by (auto simp: items_ok_def)
  moreover have "set (map op_id (operations d')) \<subseteq> gen ` {..<nextId d'}"
    using assms(1) c gen_mono [of ?n "nextId d'" gen]
    by (auto simp: items_ok_def)
  moreover have "map op_totalItems (operations d') =
       map (\<lambda>i. count_list (map it_operationId (items d')) i) (map op_id (operations d'))"
  proof -
    have "count_list (map it_operationId (items d')) i = count_list (map it_operationId (items d)) i"
      if "i \<in> set (map op_id (operations d))" for i
      using that fresh_op by (auto simp: items(2) count_list_append count_list_replicate)
    moreover have "count_list (map it_operationId (items d')) (gen ?n) = length cs"
      using fresh_item by (simp add: items(2) count_list_append count_list_replicate count_notin del: set_map)
    ultimately show ?thesis
      using assms(1) c by (auto simp: items_ok_def)
  qed
  moreover have "\<forall>it \<in> set (items d'). item_ok (queue d') it"
    using new_ok assms(1) c by (auto simp: items_ok_def intro: item_ok_mono)
  moreover have "distinct (map it_id (items d'))"
    using assms(1) disj dist unfolding items(1) distinct_append items_ok_def by blast
  moreover have "distinct (map op_id (operations d'))"
    using assms(1) fresh_op c by (simp add: items_ok_def)
  moreover have "set (map it_operationId (items d')) \<subseteq> set (map op_id (operations d'))"
    using assms(1) c items(2) by (auto simp: items_ok_def)
  ultimately show ?thesis
    unfolding items_ok_def by blast
qed


lemma items_ok_create_operation:
  assumes "items_ok gen d" and "inj gen" and "create_operation gen now today w act u acc f d = (r, d')"
  shows "items_ok gen d'"
  by (cases rule: create_operation_cases [OF assms(3)])
    (use assms in \<open>auto intro: items_ok_created\<close>)

lemma items_ok_createForContract:
  assumes "items_ok gen d" and "inj gen" and "createForContract gen now i u acc act allow d = (r, d')"
  shows "items_ok gen d'"
  by (cases rule: createForContract_cases [OF assms(3)])
    (use assms in \<open>auto intro: items_ok_created\<close>)

lemma items_ok_retry:
  assumes "items_ok gen d" and "inj gen" and "retryUnconfirmedCreateOperation gen now i u acc d = (r, d')"
  shows "items_ok gen d'"
  by (cases rule: retryUnconfirmed_cases [OF assms(3)])
    (use assms in \<open>auto intro: items_ok_created\<close>)

lemma items_ok_cancelContract:
  assumes "items_ok gen d" and "inj gen" and "cancelContract gen now i u acc cr cn d = (r, d')"
  shows "items_ok gen d'"
proof (cases rule: cancelContract_cases [OF assms(3)])
  case (2 ct ia)
  then show ?thesis by (intro items_ok_same [OF assms(1)]) simp_all
next
  case (3 ct ia op d1)
  then show ?thesis
    by (intro items_ok_same [OF items_ok_createForContract [OF assms(1,2) 3(5)]]) simp_all
qed (use assms in simp)

lemma items_ok_cancelForContest:
  assumes "items_ok gen d" and "inj gen" and "cancelForContest gen now i acc p d = (r, d')"
  shows "items_ok gen d'"
  using assms by (auto simp: cancelForContest_def split: option.splits intro: items_ok_cancelContract)

lemma items_ok_automatic:
  assumes "items_ok gen d" and "inj gen" and "createAutomaticRemovalForPaidContract gen now i acc d = (r, d')"
  shows "items_ok gen d'"
proof -
  consider "d' = d" | u r' where "createForContract gen now i u acc REMOVE False d = (r', d')"
    using assms(3)
    by (auto simp: createAutomaticRemovalForPaidContract_def split: option.splits prod.splits sum.splits)
  then show ?thesis
    using assms by cases (auto intro: items_ok_createForContract)
qed

lemma items_ok_cancel_operation:
  assumes "items_ok gen d" and "cancel_operation i acc d = (r, d')"
  shows "items_ok gen d'"
proof (cases "d' = d")
  case False
  then have d': "d' = set_operation_status i OP_CANCELLED
      (update_items (\<lambda>it. it_operationId it = i \<and> it_status it = IT_PENDING)
         (\<lambda>it. it\<lparr>it_status := IT_FAILED, it_errorCode := Some ''CANCELLED'',
                  it_errorMessage := Some ''Operacao cancelada pelo usuario''\<rparr>) d)"
    using assms(2) by (auto simp: cancel_operation_def split: option.splits if_splits)
  show ?thesis
  proof (rule items_ok_rows [OF assms(1)])
    fix it assume "it \<in> set (items d')"
    then show "item_ok (queue d') it"
      using assms(1) unfolding d' by (auto simp: items_ok_def in_update_where item_ok_def)
  qed (simp_all add: d' map_update_where)
qed (use assms in simp)

lemma items_ok_process_job:
  assumes "items_ok gen d"
  shows "items_ok gen (process_job wk now job d)"
proof -
  let ?d = "process_job wk now job d"
  have rows: "list_all2 (item_step job) (items d) (items ?d)"
    using assms by (intro process_job_rows) (simp add: items_ok_def)
  have same: "map it_id (items ?d) = map it_id (items d)" "map it_operationId (items ?d) = map it_operationId (items d)"
    using rows by (induction rule: list_all2_induct) (auto simp: item_step_def)
  have q: "queue ?d = queue d" and n: "nextId ?d = nextId d"
    by (cases rule: process_job_cases [of wk now job d]; simp)+
  have "map op_id (operations ?d) = map op_id (operations d) \<and>
      map op_totalItems (operations ?d) = map op_totalItems (operations d)"
  proof -
    have "map op_id (operations (updateOperationStatusIfComplete i x)) = map op_id (operations x) \<and>
      map op_totalItems (operations (updateOperationStatusIfComplete i x)) = map op_totalItems (operations x)" for i x
      by (simp add: updateOperationStatusIfComplete_def map_update_where)
    then show ?thesis
      by (cases rule: process_job_cases [of wk now job d]) simp_all
  qed
  moreover have "item_ok (queue ?d) it'" if it': "it' \<in> set (items ?d)" for it'
  proof -
    obtain k where "k < length (items ?d)" "it' = items ?d ! k"
      using it' by (metis in_set_conv_nth)
    then have "item_step job (items d ! k) it'" "items d ! k \<in> set (items d)"
      using rows by (auto simp: list_all2_conv_all_nth)
    moreover from this(2) have "item_ok (queue d) (items d ! k)"
      using assms by (simp add: items_ok_def)
    ultimately show ?thesis
      by (auto simp: q item_step_def item_ok_def pending_of_def)
  qed
  ultimately show ?thesis
    using same n by (intro items_ok_rows [OF assms]) simp_all
qed

definition item_sig :: "operation_item \<Rightarrow> string \<times> string \<times> nat \<times> nat" where
  "item_sig it = (it_id it, it_operationId it, it_batchIndex it, it_attempts it)"

lemma items_ok_reconcile_removal:
  assumes "items_ok gen d" and "it \<in> set its"
    and "distinct (map it_id its)"
    and "map item_sig (items d) = map item_sig its"
  shows "items_ok gen (reconcile_removal now it d) \<and>
    map item_sig (items (reconcile_removal now it d)) = map item_sig its"
proof -
  let ?d = "reconcile_removal now it d"
  have keep: "map item_sig (items ?d) = map item_sig (items d)"
    "map it_id (items ?d) = map it_id (items d)" "map it_operationId (items ?d) = map it_operationId (items d)"
    "map op_id (operations ?d) = map op_id (operations d)"
    "map op_totalItems (operations ?d) = map op_totalItems (operations d)" "nextId d \<le> nextId ?d"
    "set (queue d) \<subseteq> set (queue ?d)"
    by (auto simp: reconcile_removal_def map_update_where item_sig_def)
  have sig: "item_sig r = item_sig it" if "r \<in> set (items d)" "it_id r = it_id it" for r
  proof -
    have "item_sig r \<in> set (map item_sig its)"
      using that(1) unfolding assms(4) [symmetric] by auto
    then obtain x where x: "x \<in> set its" "item_sig x = item_sig r"
      by auto
    then have "x = it"
      using assms(2,3) that(2) by (auto simp: distinct_map inj_on_def item_sig_def)
    with x show ?thesis by simp
  qed
  have "item_ok (queue ?d) r'" if r': "r' \<in> set (items ?d)" for r'
  proof -
    have ok: "item_ok (queue ?d) r" if "r \<in> set (items d)" for r
      using that assms(1) keep(7) by (auto simp: items_ok_def intro: item_ok_mono)
    consider "r' \<in> set (items d)"
      | r where "r \<in> set (items d)" "it_status r' = IT_FAILED" "it_attempts r' = it_attempts r"
      | r where "r \<in> set (items d)" "it_id r = it_id it" "it_attempts it < REMOVAL_MAX_ATTEMPTS"
          "r' = r\<lparr>it_status := IT_PENDING\<rparr>"
          "\<exists>j \<in> set (queue ?d). oj_operationId j = it_operationId it \<and> oj_batchIndex j = it_batchIndex it"
      using r' by (auto simp: reconcile_removal_def in_update_where split: if_splits)
    then show ?thesis
    proof cases
      case (2 r)
      then show ?thesis using ok by (auto simp: item_ok_def)
    next
      case (3 r)
      have "it_attempts r = it_attempts it" "it_operationId r = it_operationId it" "it_batchIndex r = it_batchIndex it"
        using sig [OF 3(1,2)] by (simp_all add: item_sig_def)
      with 3 show ?thesis
        by (auto simp: item_ok_def has_job_def)
    qed (use ok in blast)
  qed
  then have "items_ok gen ?d"
    using keep by (intro items_ok_rows [OF assms(1)]) simp_all
  then show ?thesis
    using keep(1) assms(4) by simp
qed


lemma items_ok_reconcile:
  assumes "items_ok gen d"
  shows "items_ok gen (reconcileStaleSerasaRemovals now d)"
proof -
  have dist: "distinct (map it_id (items d))"
    using assms by (simp add: items_ok_def)
  have "items_ok gen (fold (reconcile_removal now) xs d')"
    if "set xs \<subseteq> set (items d)" "items_ok gen d'" "map item_sig (items d') = map item_sig (items d)" for xs d'
    using that
  proof (induction xs arbitrary: d')
    case (Cons x xs)
    then show ?case
      using items_ok_reconcile_removal [OF Cons.prems(2) _ dist Cons.prems(3), of x now] by auto
  qed simp
  moreover have "set (stale_removals d) \<subseteq> set (items d)"
    by (auto simp: stale_removals_def Let_def dest: in_set_takeD)
  ultimately show ?thesis
    using assms by (simp add: reconcileStaleSerasaRemovals_def)
qed


text \<open>
  A job makes exactly one attempt on each pending item of its batch and touches no other item, no
  payment and no job of the queue; unless the operation was cancelled, none of its items is pending
  afterwards: each waits for Serasa, is updated, or has failed.
\<close>

theorem process_job_attempts:
  assumes "distinct (map it_id (items d))" and "d' = process_job wk now job d"
  shows "list_all2 (item_step job) (items d) (items d') \<and> pay_frame d d' \<and> queue d' = queue d \<and>
    (map_option op_status (List.find (\<lambda>op. op_id op = oj_operationId job)
        (start_job (oj_operationId job) (operations d))) = Some OP_CANCELLED \<and> items d' = items d \<or>
     filter (pending_of job) (items d') = [])"
proof -
  have "pay_frame d d' \<and> queue d' = queue d"
    unfolding assms(2) by (cases rule: process_job_cases [of wk now job d]) simp_all
  moreover have "map_option op_status (List.find (\<lambda>op. op_id op = oj_operationId job)
        (start_job (oj_operationId job) (operations d))) = Some OP_CANCELLED \<and> items d' = items d \<or>
     filter (pending_of job) (items d') = []"
    using process_job_settled(1) [of job d wk now] unfolding assms(2)
    by (cases rule: process_job_cases [of wk now job d]) auto
  ultimately show ?thesis
    using process_job_rows [OF assms(1)] assms(2) by blast
qed

definition sample_worker :: "serasa_response \<Rightarrow> worker" where
  "sample_worker r =
     \<lparr>wk_http = (\<lambda>_ _ _ _. r), wk_text = (\<lambda>_. ''{}''), wk_decrypt = Some,
      wk_parse = (\<lambda>_. Some (JObj [(''apiKey'', JStr ''key'')]))\<rparr>"

abbreviation sample_submitted :: database where
  "sample_submitted \<equiv>
     snd (create_operation sample_gen 1000 0 ''w1'' CREATE_OR_UPDATE ''u1'' ''a1'' no_filters sample_db)"

definition sample_job :: operation_job where
  "sample_job = \<lparr>oj_operationId = sample_gen 0, oj_batchIndex = 0, oj_providerId = ''p1'',
     oj_action = CREATE_OR_UPDATE\<rparr>"

lemma items_ok_sample: "items_ok sample_gen sample_submitted"
proof -
  have "items_ok sample_gen sample_db"
    by (simp add: items_ok_def sample_db_def)
  then show ?thesis
    using inj_sample_gen ok_outcome [OF sample_create_ok] by (rule items_ok_create_operation)
qed

lemma process_job_attempts_witness:
  "list_all2 (item_step sample_job) (items sample_submitted)
     (items (process_job (sample_worker (NoResponse ''down'')) 2000 sample_job sample_submitted))"
  using process_job_attempts [OF _ refl, of sample_submitted] items_ok_sample
  by (simp add: items_ok_def)

text \<open>
  When a job fails before the provider is called (no provider, unreadable credentials, no key), its
  items become \<open>FAILED\<close> but the contracts keep the status of the submission, unlike after a
  rejection by the provider; a contract left \<open>SENT\<close> is then refused by every further inclusion.
\<close>

theorem processing_error_keeps_contracts:
  assumes "getProviderConfig (wk_decrypt wk) (wk_parse wk) (oj_providerId job) d = Inl msg"
    and "c \<in> set (contracts d)" and "ct_serasaStatus c = SE_SENT" and "distinct (map ct_id (contracts d))"
  shows "contracts (process_job wk now job d) = contracts d \<and>
    \<not> is_ok (createForContract gen now2 (ct_id c) u acc CREATE_OR_UPDATE allow (process_job wk now job d))"
proof -
  have "getProviderConfig (wk_decrypt wk) (wk_parse wk) (oj_providerId job) (d\<lparr>operations := ops\<rparr>) = Inl msg" for ops
    using assms(1) by (simp add: getProviderConfig_def)
  then have same: "contracts (process_job wk now job d) = contracts d"
    by (simp add: process_job_def Let_def)
  have "\<not> is_ok (createForContract gen now2 (ct_id c) u acc CREATE_OR_UPDATE allow (process_job wk now job d))"
    using assms(2-4) by (intro createForContract_sent) (auto simp: same distinct_map inj_on_def)
  with same show ?thesis by blast
qed

lemma processing_error_keeps_contracts_witness:
  "\<not> is_ok (createForContract sample_gen 3000 ''c1'' ''u1'' ''a1'' CREATE_OR_UPDATE False
      (process_job ((sample_worker (NoResponse ''down''))\<lparr>wk_decrypt := \<lambda>_. None\<rparr>) 2000 sample_job
         (sample_db\<lparr>contracts := [sample_contract\<lparr>ct_serasaStatus := SE_SENT\<rparr>]\<rparr>)))"
  using processing_error_keeps_contracts
    [of "(sample_worker (NoResponse ''down''))\<lparr>wk_decrypt := \<lambda>_. None\<rparr>" sample_job
      "sample_db\<lparr>contracts := [sample_contract\<lparr>ct_serasaStatus := SE_SENT\<rparr>]\<rparr>" "''Decryption failed''"
      "sample_contract\<lparr>ct_serasaStatus := SE_SENT\<rparr>"]
  by (simp add: getProviderConfig_def sample_job_def sample_db_def)

section \<open>Retries of the adapter\<close>

definition final_answer :: "string + send_result \<Rightarrow> bool" where
  \<comment> \<open>an answer that is not retried\<close>
  "final_answer x \<longleftrightarrow> (case x of Inl _ \<Rightarrow> False | Inr r \<Rightarrow> \<not> isRetryable (sr_httpStatus r))"

definition answer_of :: "string + send_result \<Rightarrow> send_result" where
  "answer_of x = (case x of Inl msg \<Rightarrow> network_error msg | Inr r \<Rightarrow> r)"

lemma retry_loop_spec:
  "retry_loop req (Suc left) a =
     answer_of (req (or_else (List.find (\<lambda>n. final_answer (req n)) [a..<a + left]) (a + left)))"
proof (induction left arbitrary: a)
  case 0
  then show ?case by (auto simp: answer_of_def split: sum.split)
next
  case (Suc left)
  have "isRetryable s \<Longrightarrow> \<not> (200 \<le> s \<and> s < 300)" for s
    by (auto simp: isRetryable_def)
  then show ?case
    using Suc [of "Suc a"]
    by (auto simp: upt_conv_Cons final_answer_def answer_of_def simp del: upt_Suc retry_loop.simps
        simp add: retry_loop.simps(2) [of req "Suc left" a] split: sum.split)
qed

text \<open>
  A call of the Serasa adapter returns the first of at most three answers that is neither a
  throttling, a server error nor a network failure, and the third one when there is none.
\<close>

theorem executeWithRetry_spec:
  "executeWithRetry req =
     answer_of (req (or_else (List.find (\<lambda>n. final_answer (req n)) [1, 2]) 3))"
proof -
  have "executeWithRetry req = retry_loop req (Suc 2) 1"
    by (simp add: executeWithRetry_def MAX_RETRIES_def del: retry_loop.simps)
  moreover have "[1..<1 + 2 :: nat] = [1, 2]" by (simp add: upt_rec)
  ultimately show ?thesis
    unfolding retry_loop_spec by (simp only:) (simp add: numeral_3_eq_3)
qed

section \<open>Draining the queue\<close>

definition op_cancelled :: "database \<Rightarrow> string \<Rightarrow> bool" where
  "op_cancelled d i \<longleftrightarrow> map_option op_status (List.find (\<lambda>op. op_id op = i) (operations d)) = Some OP_CANCELLED"

lemma find_start_job:
  "List.find (\<lambda>op. op_id op = i) (start_job j ops) =
     map_option (\<lambda>op. if op_id op = j \<and> op_status op = OP_PENDING then op\<lparr>op_status := OP_PROCESSING\<rparr> else op)
       (List.find (\<lambda>op. op_id op = i) ops)"
  unfolding start_job_def by (rule find_update_where) simp

lemma cancelled_start_job:
  "map_option op_status (List.find (\<lambda>op. op_id op = i) (start_job j ops)) = Some OP_CANCELLED \<longleftrightarrow>
     map_option op_status (List.find (\<lambda>op. op_id op = i) ops) = Some OP_CANCELLED"
  unfolding find_start_job by (cases "List.find (\<lambda>op. op_id op = i) ops") auto

lemma complete_other_operation:
  assumes "j \<noteq> i"
  shows "map_option op_status (List.find (\<lambda>op. op_id op = i) (operations (updateOperationStatusIfComplete j d))) =
    map_option op_status (List.find (\<lambda>op. op_id op = i) (operations d))"
proof -
  have "map_option op_status (List.find (\<lambda>op. op_id op = i)
      (update_where (\<lambda>op. op_id op = j) (\<lambda>op. op\<lparr>op_status := st\<rparr>) ops)) =
    map_option op_status (List.find (\<lambda>op. op_id op = i) ops)" for st ops
    using assms by (induction ops) auto
  then show ?thesis
    using update_complete_operations [of j d] by auto
qed

lemma process_job_keeps_cancelled:
  assumes "op_cancelled d i"
  shows "op_cancelled (process_job wk now job d) i"
proof (cases rule: process_job_cases [of wk now job d])
  case cancelled
  then show ?thesis
    using assms unfolding op_cancelled_def cancelled(1)
    by (simp del: map_option_eq_Some add: cancelled_start_job)
next
  case idle
  have "oj_operationId job \<noteq> i"
    using idle(3) assms by (auto simp del: map_option_eq_Some simp: op_cancelled_def cancelled_start_job)
  then show ?thesis
    using assms unfolding op_cancelled_def idle(2)
    by (simp del: map_option_eq_Some add: complete_other_operation cancelled_start_job)
next
  case (worked P g d1)
  have "oj_operationId job \<noteq> i"
    using worked(12) assms by (auto simp del: map_option_eq_Some simp: op_cancelled_def cancelled_start_job)
  then show ?thesis
    using assms unfolding op_cancelled_def worked(2)
    by (simp del: map_option_eq_Some add: complete_other_operation worked(7) cancelled_start_job)
qed

definition run_job :: "worker \<times> int \<times> operation_job \<Rightarrow> database \<Rightarrow> database" where
  "run_job run d = process_job (fst run) (fst (snd run)) (snd (snd run)) d"

definition settled_by :: "operation_job list \<Rightarrow> database \<Rightarrow> bool" where
  \<comment> \<open>an item of these jobs that is still pending belongs to a cancelled operation\<close>
  "settled_by js d \<longleftrightarrow>
     (\<forall>it \<in> set (items d). it_status it = IT_PENDING \<and> has_job js it \<longrightarrow> op_cancelled d (it_operationId it))"

lemma run_job_settles:
  assumes "distinct (map it_id (items d))" and "settled_by js d"
  shows "settled_by (snd (snd run) # js) (run_job run d)"
    and "map it_id (items (run_job run d)) = map it_id (items d)"
proof -
  obtain wk now job where run: "run = (wk, now, job)" by (cases run)
  let ?d = "process_job wk now job d"
  have rows: "list_all2 (item_step job) (items d) (items ?d)"
    by (rule process_job_rows [OF assms(1)])
  show "map it_id (items (run_job run d)) = map it_id (items d)"
    using rows unfolding run_job_def run fst_conv snd_conv
    by (induction rule: list_all2_induct) (auto simp: item_step_def)
  have "op_cancelled ?d (it_operationId it)"
    if it: "it \<in> set (items ?d)" "it_status it = IT_PENDING" "has_job (job # js) it" for it
  proof -
    obtain k where "k < length (items ?d)" "it = items ?d ! k"
      using it(1) by (metis in_set_conv_nth)
    then have old: "item_step job (items d ! k) it" "items d ! k \<in> set (items d)"
      using rows by (auto simp: list_all2_conv_all_nth)
    show ?thesis
    proof (cases "has_job js it")
      case True
      then have "it_status (items d ! k) = IT_PENDING" "has_job js (items d ! k)"
        "it_operationId (items d ! k) = it_operationId it"
        using old(1) it(2) by (auto simp: item_step_def has_job_def)
      then have "op_cancelled d (it_operationId it)"
        using assms(2) old(2) by (auto simp: settled_by_def)
      then show ?thesis by (rule process_job_keeps_cancelled)
    next
      case False
      then have mine: "pending_of job it" "oj_operationId job = it_operationId it"
        using it(2,3) by (auto simp: has_job_def pending_of_def)
      then have "filter (pending_of job) (items ?d) \<noteq> []"
        using it(1) by (auto simp: filter_empty_conv)
      then have "op_cancelled d (oj_operationId job)"
        using process_job_settled(1) [of job d wk now] unfolding op_cancelled_def cancelled_start_job by blast
      then show ?thesis unfolding mine(2) by (rule process_job_keeps_cancelled)
    qed
  qed
  then show "settled_by (snd (snd run) # js) (run_job run d)"
    by (simp add: settled_by_def run_job_def run)
qed

lemma run_job_pending:
  assumes "distinct (map it_id (items d))" and "y \<in> set (items (run_job r d))" and "it_status y = IT_PENDING"
    and "\<forall>x \<in> set (items d). it_status x = IT_PENDING \<longrightarrow> has_job q x"
  shows "has_job q y"
proof -
  have rows: "list_all2 (item_step (snd (snd r))) (items d) (items (run_job r d))"
    unfolding run_job_def by (rule process_job_rows [OF assms(1)])
  obtain k where "k < length (items (run_job r d))" "y = items (run_job r d) ! k"
    using assms(2) by (metis in_set_conv_nth)
  then have "item_step (snd (snd r)) (items d ! k) y" "items d ! k \<in> set (items d)"
    using rows by (auto simp: list_all2_conv_all_nth)
  then show ?thesis using assms(3,4) by (auto simp: item_step_def has_job_def)
qed

lemma runs_settle:
  assumes "distinct (map it_id (items d))" and "settled_by js d"
    and "\<forall>x \<in> set (items d). it_status x = IT_PENDING \<longrightarrow> has_job q x"
  shows "settled_by (rev (map (snd \<circ> snd) rs) @ js) (fold run_job rs d)"
    and "\<forall>x \<in> set (items (fold run_job rs d)). it_status x = IT_PENDING \<longrightarrow> has_job q x"
proof -
  have "settled_by (rev (map (snd \<circ> snd) rs) @ js) (fold run_job rs d) \<and>
    (\<forall>x \<in> set (items (fold run_job rs d)). it_status x = IT_PENDING \<longrightarrow> has_job q x)"
    using assms
  proof (induction rs arbitrary: js d)
    case (Cons r rs)
    note s = run_job_settles [OF Cons.prems(1,2), of r]
    have "distinct (map it_id (items (run_job r d)))" using s(2) Cons.prems(1) by simp
    moreover have "\<forall>x \<in> set (items (run_job r d)). it_status x = IT_PENDING \<longrightarrow> has_job q x"
      using run_job_pending [OF Cons.prems(1) _ _ Cons.prems(3)] by blast
    ultimately show ?case using Cons.IH [OF _ s(1)] by simp
  qed simp
  then show "settled_by (rev (map (snd \<circ> snd) rs) @ js) (fold run_job rs d)"
    and "\<forall>x \<in> set (items (fold run_job rs d)). it_status x = IT_PENDING \<longrightarrow> has_job q x" by blast+
qed

text \<open>
  C16. Every pending item is eventually worked off: after the jobs of the queue have run, in any order, any
  number of times and whatever Serasa answers, an item is pending only when its operation was
  cancelled.
\<close>

theorem queue_drained:
  assumes "items_ok gen d" and "set (queue d) \<subseteq> (snd \<circ> snd) ` set runs" and "d' = fold run_job runs d"
    and "it \<in> set (items d')" and "it_status it = IT_PENDING"
  shows "op_cancelled d' (it_operationId it)"
proof -
  have dist: "distinct (map it_id (items d))" using assms(1) by (simp add: items_ok_def)
  have empty: "settled_by [] d" by (simp add: settled_by_def has_job_def)
  have "\<forall>x \<in> set (items d). it_status x = IT_PENDING \<longrightarrow> has_job (queue d) x"
    using assms(1) by (auto simp: items_ok_def item_ok_def)
  note s = runs_settle [OF dist empty this, of runs]
  have "has_job (queue d) it" using s(2) assms(4,5) unfolding assms(3) by blast
  then have "has_job (rev (map (snd \<circ> snd) runs) @ []) it"
    using assms(2) by (auto simp: has_job_def)
  then show ?thesis
    using s(1) assms(4,5) unfolding assms(3) settled_by_def by blast
qed

lemma queue_drained_witness:
  "let d = fold run_job (map (\<lambda>j. (sample_worker (NoResponse ''down''), 2000, j)) (queue sample_submitted)) sample_submitted
   in filter (\<lambda>it. it_status it = IT_PENDING \<and> \<not> op_cancelled d (it_operationId it)) (items d) = []"
proof -
  have "set (queue sample_submitted) \<subseteq>
      (snd \<circ> snd) ` set (map (\<lambda>j. (sample_worker (NoResponse ''down''), 2000 :: int, j)) (queue sample_submitted))"
    by force
  then show ?thesis
    unfolding Let_def filter_empty_conv using queue_drained [OF items_ok_sample _ refl] by blast
qed

end
