(* ===== verification/JsValues.thy ===== *)
theory JsValues
  imports Settlement
begin

text \<open>
  How the services read unstructured JSON: the conversions of JavaScript (\<open>Number\<close>, template texts)
  and the helpers the webhook of Serasa builds on them (\<open>asString\<close>, \<open>asPositiveInt\<close>, \<open>asAmount\<close>,
  \<open>asRecord\<close>, \<open>parseProviderDate\<close> of \<open>providers/webhooks.service.ts\<close>). A number that is not finite is
  \<open>None\<close>: every use asks for a finite one. \<open>Date.parse\<close>, whose formats are left to the
  implementation beyond ISO texts, is a parameter.
\<close>

section \<open>Number\<close>

definition power_of_ten :: "bool \<Rightarrow> nat \<Rightarrow> rat" where
  "power_of_ten neg n = (if neg then 1 / 10 ^ n else 10 ^ n)"

definition exponent_part :: "string \<Rightarrow> rat option" where
  \<comment> \<open>the factor of the exponent of a decimal literal\<close>
  "exponent_part s =
     (case s of
        [] \<Rightarrow> Some 1
      | c # cs \<Rightarrow>
          let u = split_sign cs
          in if (c = CHR ''e'' \<or> c = CHR ''E'') \<and> snd u \<noteq> [] \<and> list_all is_digit (snd u)
             then Some (power_of_ten (fst u) (read_digits 0 (snd u)))
             else None)"

definition decimal_literal :: "string \<Rightarrow> rat option" where
  \<comment> \<open>\<open>StrDecimalLiteral\<close> without \<open>Infinity\<close>\<close>
  "decimal_literal s =
     (let t = snd (split_sign s);
          sign = (if fst (split_sign s) then - 1 else 1);
          whole = takeWhile is_digit t;
          rest = dropWhile is_digit t;
          dot = (case rest of [] \<Rightarrow> False | c # _ \<Rightarrow> c = CHR ''.'');
          frac = (if dot then takeWhile is_digit (tl rest) else []);
          tail = (if dot then dropWhile is_digit (tl rest) else rest)
      in if whole = [] \<and> frac = [] then None
         else map_option (\<lambda>e. sign * (of_nat (read_digits 0 (whole @ frac)) / 10 ^ length frac) * e)
                (exponent_part tail))"

definition radix_digit :: "char \<Rightarrow> nat" where
  "radix_digit c =
     (if is_digit c then digit_val c
      else if is_lower c then code c - 87
      else if is_upper c then code c - 55
      else 99)"

definition radix_literal :: "nat \<Rightarrow> string \<Rightarrow> rat option" where
  "radix_literal b s =
     (if s \<noteq> [] \<and> list_all (\<lambda>c. radix_digit c < b) s
      then Some (of_nat (foldl (\<lambda>n c. n * b + radix_digit c) 0 s))
      else None)"

definition js_number_string :: "string \<Rightarrow> rat option" where
  \<comment> \<open>\<open>Number(s)\<close> for a text\<close>
  "js_number_string s =
     (let t = trim s
      in case t of
           [] \<Rightarrow> Some 0
         | [c] \<Rightarrow> decimal_literal t
         | c # p # ds \<Rightarrow>
             if c = CHR ''0'' \<and> lower_char p = CHR ''x'' then radix_literal 16 ds
             else if c = CHR ''0'' \<and> lower_char p = CHR ''o'' then radix_literal 8 ds
             else if c = CHR ''0'' \<and> lower_char p = CHR ''b'' then radix_literal 2 ds
             else decimal_literal t)"

fun js_number_json :: "json \<Rightarrow> rat option" where
  \<comment> \<open>an array becomes the text of its elements: a comma from two on, nothing for \<open>null\<close>\<close>
  "js_number_json JNull = Some 0"
| "js_number_json (JBool b) = Some (if b then 1 else 0)"
| "js_number_json (JNum r) = Some r"
| "js_number_json (JStr s) = js_number_string s"
| "js_number_json (JArr []) = Some 0"
| "js_number_json (JArr [x]) = (case x of JBool _ \<Rightarrow> None | _ \<Rightarrow> js_number_json x)"
| "js_number_json (JArr _) = None"
| "js_number_json (JObj _) = None"

definition js_number :: "json option \<Rightarrow> rat option" where
  "js_number x = (case x of None \<Rightarrow> None | Some v \<Rightarrow> js_number_json v)"

section \<open>The helpers of the webhook\<close>

definition asRecord :: "json option \<Rightarrow> json option" where
  "asRecord x = (case x of Some (JObj kvs) \<Rightarrow> Some (JObj kvs) | _ \<Rightarrow> None)"

definition asString :: "json option \<Rightarrow> string option" where
  "asString x = (case x of Some (JStr s) \<Rightarrow> if trim s = '''' then None else Some (trim s) | _ \<Rightarrow> None)"

definition asPositiveInt :: "json option \<Rightarrow> int option" where
  "asPositiveInt x =
     (case js_number x of
        Some r \<Rightarrow> if r = of_int \<lfloor>r\<rfloor> \<and> 0 < r then Some \<lfloor>r\<rfloor> else None
      | None \<Rightarrow> None)"

definition comma_to_dot :: "string \<Rightarrow> string" where
  \<comment> \<open>\<open>s.replace(',', '.')\<close>: the first comma only\<close>
  "comma_to_dot s =
     takeWhile (\<lambda>c. c \<noteq> CHR '','') s @
     (case dropWhile (\<lambda>c. c \<noteq> CHR '','') s of [] \<Rightarrow> [] | _ # cs \<Rightarrow> CHR ''.'' # cs)"

definition asAmount :: "json option \<Rightarrow> rat option" where
  "asAmount x =
     (let n = (case x of Some (JStr s) \<Rightarrow> js_number_string (comma_to_dot s) | _ \<Rightarrow> js_number x)
      in case n of Some r \<Rightarrow> if 0 \<le> r then Some r else None | None \<Rightarrow> None)"

definition parseProviderDate :: "(string \<Rightarrow> int option) \<Rightarrow> string option \<Rightarrow> int option" where
  \<comment> \<open>\<open>date\<close> is \<open>Date.parse\<close>, \<open>None\<close> for NaN\<close>
  "parseProviderDate date value =
     (case value of
        None \<Rightarrow> None
      | Some s \<Rightarrow>
          if s = '''' then None
          else date (if length s = 10 then s @ ''T12:00:00.000Z'' else s))"

definition str_field :: "string \<Rightarrow> json \<Rightarrow> string option" where
  \<comment> \<open>a field read at its declared type\<close>
  "str_field k p = (case jget k p of Some (JStr s) \<Rightarrow> Some s | _ \<Rightarrow> None)"

definition or_text :: "string option \<Rightarrow> string option \<Rightarrow> string option" where
  \<comment> \<open>\<open>a || b\<close> on texts that may be absent\<close>
  "or_text x y = (case x of Some s \<Rightarrow> if s = '''' then y else x | None \<Rightarrow> y)"

definition show_int :: "int \<Rightarrow> string" where
  "show_int n = (if n < 0 then ''-'' else '''') @ show_nat (nat \<bar>n\<bar>)"

section \<open>Facts\<close>

lemma takeWhile_all_id: "list_all P s \<Longrightarrow> takeWhile P s = s"
  by (induction s) auto

lemma dropWhile_all_nil: "list_all P s \<Longrightarrow> dropWhile P s = []"
  by (induction s) auto

lemma digit_not_space: "is_digit c \<Longrightarrow> \<not> is_space c"
  by (auto simp: is_digit_def is_space_def code_def)

lemma digit_not_sign: "is_digit c \<Longrightarrow> c \<noteq> CHR ''-'' \<and> c \<noteq> CHR ''+''"
  by (auto simp: is_digit_def code_def)

lemma trim_digits:
  assumes "list_all is_digit s"
  shows "trim s = s"
proof -
  have "dropWhile is_space t = t" if "list_all is_digit t" for t
    using that digit_not_space by (cases t) auto
  from this [OF assms] this [of "rev s"] assms show ?thesis
    by (simp add: trim_def list_all_iff)
qed

lemma split_sign_digits: "list_all is_digit s \<Longrightarrow> split_sign s = (False, s)"
  using digit_not_sign by (cases s) (auto simp: split_sign_def)

lemma decimal_literal_digits:
  assumes "list_all is_digit s" and "s \<noteq> []"
  shows "decimal_literal s = Some (of_nat (read_digits 0 s))"
  using assms
  by (simp add: decimal_literal_def Let_def split_sign_digits takeWhile_all_id dropWhile_all_nil exponent_part_def)

lemma digit_lower: "is_digit c \<Longrightarrow> lower_char c = c"
  by (auto simp: is_digit_def lower_char_def is_upper_def code_def)

lemma js_number_digits:
  assumes "list_all is_digit s" and "s \<noteq> []"
  shows "js_number_string s = Some (of_nat (read_digits 0 s))"
proof (cases s)
  case Nil
  with assms show ?thesis by simp
next
  case (Cons c t)
  show ?thesis
  proof (cases t)
    case Nil
    with Cons show ?thesis
      unfolding js_number_string_def trim_digits [OF assms(1)]
      using decimal_literal_digits [OF assms] by simp
  next
    case c2: (Cons p ds)
    have "is_digit p" using assms(1) by (simp add: Cons c2)
    then have "lower_char p \<noteq> CHR ''x''" "lower_char p \<noteq> CHR ''o''" "lower_char p \<noteq> CHR ''b''"
      unfolding digit_lower [OF \<open>is_digit p\<close>] by (auto simp: is_digit_def code_def)
    then show ?thesis
      unfolding js_number_string_def trim_digits [OF assms(1)]
      using decimal_literal_digits [OF assms] by (simp add: Cons c2)
  qed
qed

lemma js_number_show_nat [simp]: "js_number_string (show_nat n) = Some (of_nat n)"
  using show_nat_digits by (simp add: js_number_digits list_all_iff)

lemma asPositiveInt_show: "0 < n \<Longrightarrow> asPositiveInt (Some (JStr (show_nat n))) = Some (int n)"
  by (simp add: asPositiveInt_def js_number_def)

lemma asPositiveInt_pos: "asPositiveInt x = Some n \<Longrightarrow> 0 < n"
  by (auto simp: asPositiveInt_def split: option.splits if_splits)

lemma asAmount_nonneg: "asAmount x = Some r \<Longrightarrow> 0 \<le> r"
  by (auto simp: asAmount_def Let_def split: option.splits if_splits json.splits)

lemma asString_nonempty: "asString x = Some s \<Longrightarrow> s \<noteq> '''' \<and> trim s = s"
  by (auto simp: asString_def split: option.splits json.splits if_splits)

end
