(* ===== verification/SerasaWebhooks.thy ===== *)
theory SerasaWebhooks
  imports SerasaWorker JsValues
begin

text \<open>
  The callbacks of Serasa: \<open>providers/webhooks.service.ts\<close>.

  The payload is the JSON object of the request. \<open>now\<close> is the clock, \<open>date\<close> is \<open>Date.parse\<close> and
  \<open>text\<close> renders a number in an error text. The parameter \<open>down\<close> says that the database refuses the
  first write of the processing: the handler catches that, as any other exception there, and answers
  as if nothing had happened. Rows are found in table order where a query gives none.
\<close>

section \<open>The agreement of a payload\<close>

record serasa_agreement =
  ap_reference :: "string option"
  ap_totalInstallments :: "int option"
  ap_totalAmount :: "rat option"
  ap_installments :: "json option"
  ap_dueAt :: "int option"
  ap_discount :: "rat option"

definition coalesces :: "json option list \<Rightarrow> json option" where
  \<comment> \<open>\<open>a ?? b ?? \<dots>\<close>\<close>
  "coalesces xs = (case rev xs of [] \<Rightarrow> None | y # ys \<Rightarrow> fold coalesce ys y)"

definition as_array :: "json option \<Rightarrow> json option" where
  "as_array x = (case x of Some (JArr xs) \<Rightarrow> Some (JArr xs) | _ \<Rightarrow> None)"

definition first_element :: "json option \<Rightarrow> json option" where
  "first_element x = (case x of Some (JArr (y # _)) \<Rightarrow> Some y | _ \<Rightarrow> None)"

definition field_of :: "string \<Rightarrow> json option \<Rightarrow> json option" where
  \<comment> \<open>\<open>o?.k\<close>\<close>
  "field_of k x = (case x of None \<Rightarrow> None | Some v \<Rightarrow> jget k v)"

definition agreementProjection :: "(string \<Rightarrow> int option) \<Rightarrow> json \<Rightarrow> serasa_agreement" where
  "agreementProjection date p =
     (let agreement = or_else (asRecord (jget ''agreement'' p)) p;
          installments = or_opt (as_array (jget ''installments'' agreement)) (as_array (jget ''installments'' p));
          first = asRecord (first_element installments)
      in \<lparr>ap_reference = asString (coalesces
            [jget ''agreementId'' agreement, jget ''id'' agreement, jget ''agreementId'' p]),
          ap_totalInstallments = asPositiveInt (coalesces
            [jget ''totalInstallments'' agreement, jget ''installmentsAmount'' agreement,
             jget ''installmentCount'' agreement, jget ''totalInstallments'' p, jget ''installmentsAmount'' p]),
          ap_totalAmount = asAmount (coalesces
            [jget ''totalAmount'' agreement, jget ''agreementValue'' agreement, jget ''amount'' agreement,
             jget ''agreementTotalAmount'' p]),
          ap_installments = installments,
          ap_dueAt = parseProviderDate date (asString (coalesce
            (field_of ''dueDate'' first) (field_of ''paymentLimitDate'' first))),
          ap_discount = asAmount (coalesce
            (jget ''discountPercentage'' agreement) (jget ''discountPercentage'' p))\<rparr>)"

definition project :: "serasa_agreement \<Rightarrow> contract \<Rightarrow> contract" where
  \<comment> \<open>the fields of the projection that are present, stored in their columns\<close>
  "project ap c =
     c\<lparr>ct_agreement := (ct_agreement c)
         \<lparr>ag_reference := or_opt (ap_reference ap) (ag_reference (ct_agreement c)),
          ag_totalInstallments := or_opt (ap_totalInstallments ap) (ag_totalInstallments (ct_agreement c)),
          ag_totalAmount := or_opt (map_option dec2 (ap_totalAmount ap)) (ag_totalAmount (ct_agreement c)),
          ag_installments := or_else (ap_installments ap) (ag_installments (ct_agreement c)),
          ag_dueAt := or_opt (ap_dueAt ap) (ag_dueAt (ct_agreement c))\<rparr>,
       ct_agreedPaymentAmount := or_opt (map_option dec2 (ap_totalAmount ap)) (ct_agreedPaymentAmount c),
       ct_acceptedDiscountPercent := or_opt (map_option dec2 (ap_discount ap)) (ct_acceptedDiscountPercent c)\<rparr>"

section \<open>Payments reported by Serasa\<close>

definition payment_record :: "json \<Rightarrow> json" where
  "payment_record p = or_else (or_opt (asRecord (jget ''payment'' p)) (asRecord (jget ''installment'' p))) p"

definition installment_number :: "json \<Rightarrow> int option" where
  "installment_number p =
     asPositiveInt (coalesces [jget ''installmentNumber'' (payment_record p), jget ''number'' (payment_record p),
                               jget ''installmentNumber'' p])"

definition scheduledInstallmentAmount :: "json \<Rightarrow> int option \<Rightarrow> rat option" where
  "scheduledInstallmentAmount schedule n =
     (case (schedule, n) of
        (JArr xs, Some k) \<Rightarrow>
          (let is_it = (\<lambda>r. asPositiveInt (coalesce (field_of ''number'' r) (field_of ''installmentNumber'' r)) = Some k);
               installment = or_else (List.find is_it (map (\<lambda>x. asRecord (Some x)) xs)) None
           in asAmount (coalesce (field_of ''value'' installment) (field_of ''amount'' installment)))
      | _ \<Rightarrow> None)"

definition payment_amount :: "string \<Rightarrow> json \<Rightarrow> contract \<Rightarrow> rat option" where
  "payment_amount eventType p ct =
     or_opt (asAmount (coalesces [jget ''amount'' (payment_record p), jget ''paidAmount'' (payment_record p),
                                  jget ''amount'' p, jget ''paidAmount'' p]))
    (or_opt (scheduledInstallmentAmount (ag_installments (ct_agreement ct)) (installment_number p))
            (if eventType = ''PaidAgreementEvent''
             then asAmount (Some (jopt JNum (ag_totalAmount (ct_agreement ct)))) else None))"

definition event_reference :: "string \<Rightarrow> string option \<Rightarrow> string \<Rightarrow> int option \<Rightarrow> string option \<Rightarrow> json \<Rightarrow> string" where
  "event_reference contractId reference eventType n rawDate p =
     or_else (str_field ''transactionId'' p)
       (or_else reference contractId @ '':'' @ eventType @ '':'' @ or_else (map_option show_int n) ''FULL'' @
        '':'' @ or_else rawDate ''undated'')"

definition recordSerasaPayment ::
  "(nat \<Rightarrow> string) \<Rightarrow> int \<Rightarrow> (string \<Rightarrow> int option) \<Rightarrow> string \<Rightarrow> string \<Rightarrow> json \<Rightarrow> database \<Rightarrow> database" where
  "recordSerasaPayment gen now date contractId eventType p d =
     (case List.find (\<lambda>c. ct_id c = contractId) (contracts d) of
        None \<Rightarrow> d
      | Some ct \<Rightarrow>
     (case payment_amount eventType p ct of
        None \<Rightarrow> d
      | Some amount \<Rightarrow>
          let reference = or_opt (ap_reference (agreementProjection date p)) (ag_reference (ct_agreement ct));
              rawDate = asString (coalesces [jget ''paymentDate'' p, jget ''date'' p, jget ''paidAt'' p])
          in processEvent gen
               \<lparr>se_provider = ''SERASA_LNOP'',
                se_externalEventId =
                  event_reference contractId reference eventType (installment_number p) rawDate p,
                se_externalTransactionId = str_field ''transactionId'' p,
                se_contractReference = contractId,
                se_agreementReference = reference,
                se_installmentNumber = installment_number p,
                se_amount = Some amount,
                se_paidAt = or_else (parseProviderDate date rawDate) now,
                se_providerPayload = p\<rparr> (ct_accountId ct) d))"

definition updateAgreementStatus ::
  "int \<Rightarrow> (string \<Rightarrow> int option) \<Rightarrow> string \<Rightarrow> json \<Rightarrow> database \<Rightarrow> database" where
  "updateAgreementStatus now date contractId p d =
     (let ap = agreementProjection date p;
          installments = (case ap_totalInstallments ap of None \<Rightarrow> False | Some n \<Rightarrow> n > 1)
      in update_contract contractId
           (\<lambda>c. project ap (c\<lparr>ct_paymentStatus := (if installments then PS_INSTALLMENT else PS_IN_AGREEMENT),
                              ct_agreement := (ct_agreement c)\<lparr>ag_createdAt := Some now\<rparr>\<rparr>)) d)"

definition markAgreementBreached :: "(string \<Rightarrow> int option) \<Rightarrow> string \<Rightarrow> json \<Rightarrow> database \<Rightarrow> database" where
  "markAgreementBreached date contractId p d =
     update_contract contractId
       (\<lambda>c. project (agreementProjection date p) (c\<lparr>ct_paymentStatus := PS_AGREEMENT_BREACHED\<rparr>)) d"

definition markAgreementPaid ::
  "int \<Rightarrow> (string \<Rightarrow> int option) \<Rightarrow> string \<Rightarrow> json \<Rightarrow> database \<Rightarrow> database" where
  "markAgreementPaid now date contractId p d =
     (case List.find (\<lambda>c. ct_id c = contractId) (contracts d) of
        None \<Rightarrow> d
      | Some ct \<Rightarrow>
          let rawDate = asString (coalesces [jget ''date'' p, jget ''paymentDate'' p, jget ''paidAt'' p]);
              paidAt = or_else (parseProviderDate date rawDate) now
          in update_contract contractId
               (\<lambda>c. project (agreementProjection date p)
                 (c\<lparr>ct_paymentStatus := PS_PAID,
                    ct_lastPaymentAt := Some paidAt,
                    ct_totalPaidAmount := or_else (ag_totalAmount (ct_agreement ct)) (ct_totalPaidAmount ct),
                    ct_agreement := (ct_agreement c)
                      \<lparr>ag_paidInstallments :=
                         or_else (ag_totalInstallments (ct_agreement ct)) (ag_paidInstallments (ct_agreement ct))\<rparr>\<rparr>)) d)"

definition installments_paid :: "json \<Rightarrow> contract \<Rightarrow> int" where
  \<comment> \<open>the count after a paid installment: by its number when it has one\<close>
  "installments_paid p ct =
     (case installment_number p of
        Some n \<Rightarrow> max (ag_paidInstallments (ct_agreement ct)) n
      | None \<Rightarrow> ag_paidInstallments (ct_agreement ct) + 1)"

definition installment_status :: "serasa_agreement \<Rightarrow> json \<Rightarrow> contract \<Rightarrow> payment_status" where
  "installment_status ap p ct =
     (if (case or_opt (ap_totalInstallments ap) (ag_totalInstallments (ct_agreement ct)) of
            None \<Rightarrow> False | Some n \<Rightarrow> n \<noteq> 0 \<and> n \<le> installments_paid p ct) then PS_PAID
      else if ct_paymentStatus ct = PS_IN_AGREEMENT then PS_IN_AGREEMENT else PS_INSTALLMENT)"

definition markInstallmentPaid :: "(string \<Rightarrow> int option) \<Rightarrow> string \<Rightarrow> json \<Rightarrow> database \<Rightarrow> database" where
  "markInstallmentPaid date contractId p d =
     (case List.find (\<lambda>c. ct_id c = contractId) (contracts d) of
        None \<Rightarrow> d
      | Some ct \<Rightarrow>
          let ap = agreementProjection date p
          in update_contract contractId
               (\<lambda>c. project ap
                 (c\<lparr>ct_paymentStatus := installment_status ap p ct,
                    ct_agreement := (ct_agreement c)\<lparr>ag_paidInstallments := installments_paid p ct\<rparr>\<rparr>)) d)"

section \<open>Answers to operations\<close>

definition status_in :: "int \<Rightarrow> json option \<Rightarrow> int \<Rightarrow> int \<Rightarrow> bool" where
  \<comment> \<open>\<open>(status ?? absent) >= lo && (status ?? absent) < hi\<close>\<close>
  "status_in absent status lo hi =
     (case js_number (coalesce status (Some (JNum (of_int absent)))) of
        Some r \<Rightarrow> of_int lo \<le> r \<and> r < of_int hi
      | None \<Rightarrow> False)"

definition status_or_zero :: "json option \<Rightarrow> json" where
  \<comment> \<open>\<open>payload.status || 0\<close>\<close>
  "status_or_zero status = (if truthy status then the status else JNum 0)"

definition providerErrorMessage :: "(json \<Rightarrow> string) \<Rightarrow> json \<Rightarrow> json \<Rightarrow> string" where
  "providerErrorMessage text p status =
     (case or_text (str_field ''errorMessage'' p) None of
        Some s \<Rightarrow> s
      | None \<Rightarrow>
          let message = (\<lambda>e. case e of JStr s \<Rightarrow> Some s | _ \<Rightarrow> str_field ''message'' e);
              messages = (case jget ''error'' p of
                            Some (JArr xs) \<Rightarrow> filter (\<lambda>s. trim s \<noteq> '''') (List.map_filter message xs)
                          | _ \<Rightarrow> [])
          in if messages \<noteq> [] then join_with ''; '' messages
             else ''Provider returned status '' @ text status)"

definition failed_item :: "(json \<Rightarrow> string) \<Rightarrow> json \<Rightarrow> json \<Rightarrow> operation_item \<Rightarrow> operation_item" where
  "failed_item text p status it =
     it\<lparr>it_status := IT_FAILED,
        it_errorCode := or_text (str_field ''errorCode'' p) (Some (''HTTP_'' @ text status)),
        it_errorMessage := Some (providerErrorMessage text p status)\<rparr>"

definition update_item :: "string \<Rightarrow> (operation_item \<Rightarrow> operation_item) \<Rightarrow> database \<Rightarrow> database" where
  "update_item i = update_items (\<lambda>it. it_id it = i)"

definition registers :: "item_status \<Rightarrow> json \<Rightarrow> operation_item \<Rightarrow> contract option \<Rightarrow> database \<Rightarrow> database" where
  \<comment> \<open>the transaction of an accepted debt\<close>
  "registers st p it ct d =
     update_contract (it_contractId it)
       (\<lambda>c. c\<lparr>ct_serasaStatus := SE_REGISTERED,
              ct_debtId := (case ct of
                              Some r \<Rightarrow> or_text (str_field ''debtId'' p) (ct_debtId r)
                            | None \<Rightarrow> or_opt (or_text (str_field ''debtId'' p) None) (ct_debtId c))\<rparr>)
       (update_item (it_id it)
          (\<lambda>r. r\<lparr>it_status := st, it_debtId := or_text (str_field ''debtId'' p) (it_debtId it)\<rparr>) d)"

definition processDebtCreatedEvent ::
  "(json \<Rightarrow> string) \<Rightarrow> json \<Rightarrow> operation_item \<Rightarrow> contract option \<Rightarrow> database \<Rightarrow> database" where
  "processDebtCreatedEvent text p it ct d =
     (let httpStatus = status_or_zero (jget ''status'' p)
      in if httpStatus = JNum 201 then registers IT_REGISTERED p it ct d
         else if httpStatus = JNum 204 then registers IT_UPDATED p it ct d
         else update_contract (it_contractId it) (\<lambda>c. c\<lparr>ct_serasaStatus := SE_FAILED\<rparr>)
                (update_item (it_id it) (failed_item text p httpStatus) d))"

definition processDebtRemovedEvent :: "(json \<Rightarrow> string) \<Rightarrow> json \<Rightarrow> operation_item \<Rightarrow> database \<Rightarrow> database" where
  "processDebtRemovedEvent text p it d =
     (let httpStatus = status_or_zero (jget ''status'' p)
      in if httpStatus = JNum 200 \<or> httpStatus = JNum 404
         then update_contract (it_contractId it) (\<lambda>c. c\<lparr>ct_serasaStatus := SE_REMOVED\<rparr>)
                (update_item (it_id it) (\<lambda>r. r\<lparr>it_status := IT_REMOVED\<rparr>) d)
         else update_item (it_id it) (failed_item text p httpStatus) d)"

definition processAgreementEvent ::
  "(nat \<Rightarrow> string) \<Rightarrow> int \<Rightarrow> (string \<Rightarrow> int option) \<Rightarrow> string \<Rightarrow> json \<Rightarrow> string \<Rightarrow> database \<Rightarrow> database" where
  "processAgreementEvent gen now date eventType p contractId d =
     (if eventType = ''ClosedAgreementEvent'' then updateAgreementStatus now date contractId p d
      else if eventType = ''BreachedAgreementEvent'' then markAgreementBreached date contractId p d
      else if eventType = ''PaidAgreementEvent''
        then markAgreementPaid now date contractId p (recordSerasaPayment gen now date contractId eventType p d)
      else if eventType = ''PaidInstallmentEvent''
        then markInstallmentPaid date contractId p (recordSerasaPayment gen now date contractId eventType p d)
      else d)"

definition agreement_events :: "string list" where
  "agreement_events =
     [''ClosedAgreementEvent'', ''BreachedAgreementEvent'', ''PaidAgreementEvent'', ''PaidInstallmentEvent'']"

definition processItemEvent ::
  "(nat \<Rightarrow> string) \<Rightarrow> int \<Rightarrow> (string \<Rightarrow> int option) \<Rightarrow> (json \<Rightarrow> string) \<Rightarrow> string \<Rightarrow> json
     \<Rightarrow> operation_item \<Rightarrow> contract option \<Rightarrow> database \<Rightarrow> database" where
  \<comment> \<open>\<open>WebhooksService.processEvent\<close>: an event of another type is only logged\<close>
  "processItemEvent gen now date text eventType p it ct d =
     (if eventType = ''DebtCreatedEvent'' then processDebtCreatedEvent text p it ct d
      else if eventType = ''DebtRemovedEvent'' then processDebtRemovedEvent text p it d
      else if eventType \<in> set agreement_events
        then processAgreementEvent gen now date eventType p (it_contractId it) d
      else d)"

definition processContractEvent ::
  "(nat \<Rightarrow> string) \<Rightarrow> int \<Rightarrow> (string \<Rightarrow> int option) \<Rightarrow> string \<Rightarrow> json \<Rightarrow> string \<Rightarrow> database \<Rightarrow> database" where
  "processContractEvent gen now date eventType p contractId d =
     (let status = jget ''status'' p
      in if eventType = ''DebtCreatedEvent'' \<or> eventType = ''DebtUpdatedEvent'' then
           (if status_in 201 status 200 300
            then update_contract contractId
                   (\<lambda>c. c\<lparr>ct_serasaStatus := SE_REGISTERED,
                          ct_debtId := or_opt (or_opt (str_field ''debtId'' p)
                            (json_string (first_element (jget ''debtIds'' p)))) (ct_debtId c)\<rparr>) d
            else update_contract contractId (\<lambda>c. c\<lparr>ct_serasaStatus := SE_FAILED\<rparr>) d)
         else if eventType = ''DebtRemovedEvent'' then
           (if status_in 200 status 200 300 \<or> status = Some (JNum 404)
            then update_contract contractId (\<lambda>c. c\<lparr>ct_serasaStatus := SE_REMOVED\<rparr>) d
            else d)
         else processAgreementEvent gen now date eventType p contractId d)"

section \<open>The handler\<close>

record webhook_secrets =
  ws_token :: "string option"
  ws_secret :: "string option"

definition webhook_authorised :: "webhook_secrets \<Rightarrow> string option \<Rightarrow> (string \<Rightarrow> bool) \<Rightarrow> bool" where
  \<comment> \<open>\<open>signed\<close> is \<open>validateWebhookSignature\<close> of the adapter on the headers and the body\<close>
  "webhook_authorised ws supplied signed \<longleftrightarrow>
     (case ws_token ws of Some t \<Rightarrow> t \<noteq> '''' \<and> supplied = Some t | None \<Rightarrow> False) \<or>
     (case ws_secret ws of Some s \<Rightarrow> s \<noteq> '''' \<and> signed s | None \<Rightarrow> False)"

definition idempotency_key :: "string \<Rightarrow> json \<Rightarrow> string option" where
  "idempotency_key eventType p =
     (case asString (jget ''agreementId'' p) of
        Some a \<Rightarrow>
          Some (''SERASA:'' @ eventType @ '':'' @ a @ '':'' @
            or_else (map_option show_int (asPositiveInt (jget ''installmentNumber'' p))) ''FULL'' @ '':'' @
            or_else (asString (coalesces [jget ''paymentDate'' p, jget ''date'' p, jget ''breachDate'' p,
                                          jget ''createdAt'' p])) ''undated'')
      | None \<Rightarrow>
     (case or_text (or_opt (asString (jget ''debtId'' p)) (json_string (first_element (jget ''debtIds'' p)))) None of
        None \<Rightarrow> None
      | Some debtId \<Rightarrow>
          Some (''SERASA:'' @ eventType @ '':'' @ debtId @ '':'' @
            or_else (asString (jget ''createdAt'' p)) ''undated'')))"

definition event_type :: "json \<Rightarrow> string" where
  "event_type p = or_else (or_text (str_field ''eventType'' p) None) ''UNKNOWN''"

definition event_transaction :: "json \<Rightarrow> string option" where
  "event_transaction p = or_opt (asString (jget ''transactionId'' p)) (idempotency_key (event_type p) p)"

definition find_webhook :: "string option \<Rightarrow> string \<Rightarrow> database \<Rightarrow> webhook_event option" where
  \<comment> \<open>only an event with a transaction is looked up\<close>
  "find_webhook tx ty d =
     (case tx of
        None \<Rightarrow> None
      | Some t \<Rightarrow> List.find (\<lambda>w. wh_transactionId w = Some t \<and> wh_eventType w = ty) (webhooks d))"

definition create_webhook :: "(nat \<Rightarrow> string) \<Rightarrow> string \<Rightarrow> string option \<Rightarrow> json \<Rightarrow> database \<Rightarrow> database" where
  "create_webhook gen ty tx p d =
     d\<lparr>webhooks := webhooks d @ [\<lparr>wh_id = gen (nextId d), wh_eventType = ty, wh_transactionId = tx,
                                  wh_payload = p, wh_status = WH_RECEIVED\<rparr>],
       nextId := Suc (nextId d)\<rparr>"

definition set_webhook_status :: "string \<Rightarrow> webhook_status \<Rightarrow> database \<Rightarrow> database" where
  "set_webhook_status i st d =
     d\<lparr>webhooks := update_where (\<lambda>w. wh_id w = i) (\<lambda>w. w\<lparr>wh_status := st\<rparr>) (webhooks d)\<rparr>"

definition debt_references :: "json \<Rightarrow> string list" where
  "debt_references p =
     filter (\<lambda>s. s \<noteq> '''')
       ((case str_field ''debtId'' p of None \<Rightarrow> [] | Some s \<Rightarrow> [s]) @
        (case jget ''debtIds'' p of
           Some (JArr xs) \<Rightarrow> List.map_filter (\<lambda>x. json_string (Some x)) xs
         | _ \<Rightarrow> []))"

definition referenced_contract :: "json \<Rightarrow> string \<Rightarrow> database \<Rightarrow> contract option" where
  \<comment> \<open>by the debt, else by the contract number and the document\<close>
  "referenced_contract p acc d =
     (let by_debt = List.find (\<lambda>c. ct_accountId c = acc \<and> ct_debtId c \<in> Some ` set (debt_references p) \<and>
                                   ct_deletedAt c = None) (contracts d);
          by_number = (case asString (jget ''contractNumber'' p) of
            None \<Rightarrow> None
          | Some n \<Rightarrow> List.find (\<lambda>c. ct_accountId c = acc \<and> ct_contractNumber c = n \<and> ct_deletedAt c = None \<and>
                (case asString (jget ''document'' p) of None \<Rightarrow> True | Some doc \<Rightarrow> ct_debtorDocument c = doc))
              (contracts d))
      in or_opt by_debt by_number)"

definition correlated_item :: "contract option \<Rightarrow> string option \<Rightarrow> database \<Rightarrow> operation_item option" where
  \<comment> \<open>the item of the contract in the batch, else any item of the batch\<close>
  "correlated_item ct tx d =
     or_opt (case ct of
               None \<Rightarrow> None
             | Some c \<Rightarrow> List.find (\<lambda>it. it_contractId it = ct_id c \<and> (tx = None \<or> it_transactionId it = tx)) (items d))
            (if tx = None then None else List.find (\<lambda>it. it_transactionId it = tx) (items d))"

definition correlate :: "json \<Rightarrow> string \<Rightarrow> string option \<Rightarrow> database \<Rightarrow> operation_item option \<times> contract option" where
  "correlate p acc tx d =
     (let ct = referenced_contract p acc d;
          it = correlated_item ct tx d;
          of_item = (case it of None \<Rightarrow> None | Some r \<Rightarrow> item_contract d r);
          by_agreement = (case asString (jget ''agreementId'' p) of
            None \<Rightarrow> None
          | Some a \<Rightarrow> List.find (\<lambda>c. ag_reference (ct_agreement c) = Some a \<and> ct_deletedAt c = None) (contracts d))
      in (it, or_opt (or_opt ct of_item) by_agreement))"

definition serasa_interaction ::
  "(nat \<Rightarrow> string) \<Rightarrow> int \<Rightarrow> string \<Rightarrow> json \<Rightarrow> string option \<Rightarrow> database \<Rightarrow> database" where
  "serasa_interaction gen now contractId p tx d =
     (case List.find (\<lambda>c. ct_id c = contractId) (contracts d) of
        None \<Rightarrow> d
      | Some ct \<Rightarrow>
          let failed = (case js_number (coalesce (jget ''status'' p) (Some (JNum 200))) of
                          Some r \<Rightarrow> 400 \<le> r | None \<Rightarrow> False)
          in create_interaction gen
               \<lparr>ia_id = '''', ia_contractId = contractId, ia_accountId = ct_accountId ct,
                ia_walletId = ct_walletId ct, ia_channel = ''SERASA'',
                ia_status = (if failed then IA_FAILED else IA_COMPLETED),
                ia_provider = Some ''SERASA_LNOP'',
                ia_externalId = or_opt tx (or_opt (asString (jget ''agreementId'' p))
                  (or_opt (asString (jget ''debtId'' p)) (json_string (first_element (jget ''debtIds'' p))))),
                ia_payload = p, ia_occurredAt = now\<rparr> d)"

record webhook_env =
  we_gen :: "nat \<Rightarrow> string"
  we_now :: int
  we_date :: "string \<Rightarrow> int option"
  we_text :: "json \<Rightarrow> string"

definition process_correlated ::
  "webhook_env \<Rightarrow> string \<Rightarrow> json \<Rightarrow> string option \<Rightarrow> operation_item option \<Rightarrow> contract option \<Rightarrow> database \<Rightarrow> database" where
  \<comment> \<open>the body of the \<open>try\<close> up to the status of the event\<close>
  "process_correlated we ty p tx it ct d =
     (let d1 = (case (it, ct) of
                  (Some r, _) \<Rightarrow> processItemEvent (we_gen we) (we_now we) (we_date we) (we_text we) ty p r
                                   (item_contract d r) d
                | (None, Some c) \<Rightarrow> processContractEvent (we_gen we) (we_now we) (we_date we) ty p (ct_id c) d
                | (None, None) \<Rightarrow> d)
      in case ct of
           None \<Rightarrow> d1
         | Some c \<Rightarrow> serasa_interaction (we_gen we) (we_now we) (ct_id c) p tx d1)"

definition handleWebhook ::
  "webhook_env \<Rightarrow> webhook_secrets \<Rightarrow> bool \<Rightarrow> string option \<Rightarrow> (string \<Rightarrow> bool) \<Rightarrow> json \<Rightarrow> database
     \<Rightarrow> (database, string) outcome" where
  "handleWebhook we ws down supplied signed p d =
     (if \<not> webhook_authorised ws supplied signed then (Inl (Unauthorized ''Invalid webhook signature''), d)
      else
     (case providers d of
        [] \<Rightarrow> (Inr ''OK'', d)
      | pv # _ \<Rightarrow>
          let ty = event_type p;
              tx = event_transaction p
          in if find_webhook tx ty d \<noteq> None then (Inr ''Duplicate event, ignored'', d)
             else
             let i = we_gen we (nextId d);
                 d1 = create_webhook (we_gen we) ty tx p d
             in (case correlate p (pv_accountId pv) tx d1 of
                   (None, None) \<Rightarrow>
                     (Inr (if tx = None then ''Unmatched debt reference'' else ''Unmatched transactionId''),
                      set_webhook_status i WH_UNMATCHED d1)
                 | (it, ct) \<Rightarrow>
                     (Inr ''OK'',
                      if down then d1
                      else set_webhook_status i WH_PROCESSED (process_correlated we ty p tx it ct d1)))))"


section \<open>What a callback may change\<close>

definition fixed_columns :: "contract \<Rightarrow> contract" where
  \<comment> \<open>a contract with the columns a callback of Serasa is about blanked out\<close>
  "fixed_columns c =
     c\<lparr>ct_serasaStatus := SE_NOT_ENABLED, ct_debtId := None, ct_paymentStatus := PS_OPEN,
       ct_agreement := \<lparr>ag_reference = None, ag_totalAmount = None, ag_createdAt = None, ag_installments = JNull,
         ag_dueAt = None, ag_totalInstallments = None, ag_paidInstallments = 0\<rparr>,
       ct_agreedPaymentAmount := None, ct_acceptedDiscountPercent := None,
       ct_totalPaidAmount := 0, ct_lastPaymentAt := None\<rparr>"

definition fixed_item :: "operation_item \<Rightarrow> operation_item" where
  "fixed_item it = it\<lparr>it_status := IT_PENDING, it_debtId := None, it_errorCode := None, it_errorMessage := None\<rparr>"

definition contract_answer :: "contract \<Rightarrow> contract \<Rightarrow> bool" where
  "contract_answer c c' \<longleftrightarrow> fixed_columns c' = fixed_columns c"

definition item_answer :: "operation_item \<Rightarrow> operation_item \<Rightarrow> bool" where
  "item_answer it it' \<longleftrightarrow> fixed_item it' = fixed_item it \<and> (it_status it' = IT_PENDING \<longrightarrow> it_status it = IT_PENDING)"

lemma fixed_columns_update [simp]:
  "fixed_columns (c\<lparr>ct_serasaStatus := v1\<rparr>) = fixed_columns c"
  "fixed_columns (c\<lparr>ct_debtId := v2\<rparr>) = fixed_columns c"
  "fixed_columns (c\<lparr>ct_paymentStatus := v3\<rparr>) = fixed_columns c"
  "fixed_columns (c\<lparr>ct_agreement := v4\<rparr>) = fixed_columns c"
  "fixed_columns (c\<lparr>ct_agreedPaymentAmount := v5\<rparr>) = fixed_columns c"
  "fixed_columns (c\<lparr>ct_acceptedDiscountPercent := v6\<rparr>) = fixed_columns c"
  "fixed_columns (c\<lparr>ct_totalPaidAmount := v7\<rparr>) = fixed_columns c"
  "fixed_columns (c\<lparr>ct_lastPaymentAt := v8\<rparr>) = fixed_columns c"
  by (simp_all add: fixed_columns_def)

lemma fixed_item_update [simp]:
  "fixed_item (it\<lparr>it_status := v1\<rparr>) = fixed_item it"
  "fixed_item (it\<lparr>it_debtId := v2\<rparr>) = fixed_item it"
  "fixed_item (it\<lparr>it_errorCode := v3\<rparr>) = fixed_item it"
  "fixed_item (it\<lparr>it_errorMessage := v4\<rparr>) = fixed_item it"
  by (simp_all add: fixed_item_def)

definition callback_step :: "database \<Rightarrow> database \<Rightarrow> bool" where
  "callback_step d d' \<longleftrightarrow>
     (charges d' = charges d \<and> events d' = events d \<and> gateways d' = gateways d \<and> wallets d' = wallets d \<and>
      creditors d' = creditors d \<and> users d' = users d \<and> providers d' = providers d \<and>
      operations d' = operations d \<and> queue d' = queue d \<and> webhooks d' = webhooks d \<and> tags d' = tags d \<and>
      nextId d \<le> nextId d') \<and>
     list_all2 contract_answer (contracts d) (contracts d') \<and>
     list_all2 item_answer (items d) (items d') \<and>
     (\<exists>new. settlements d' = settlements d @ new) \<and>
     (unique_keys d \<longrightarrow> unique_keys d')"

lemma contract_answer_refl [simp, intro]: "contract_answer c c"
  by (simp add: contract_answer_def)

lemma contract_answer_trans: "contract_answer a b \<Longrightarrow> contract_answer b c \<Longrightarrow> contract_answer a c"
  by (simp add: contract_answer_def)

lemma item_answer_refl [simp, intro]: "item_answer it it"
  by (simp add: item_answer_def)

lemma item_answer_trans: "item_answer a b \<Longrightarrow> item_answer b c \<Longrightarrow> item_answer a c"
  by (simp add: item_answer_def)

lemma callback_step_refl [simp, intro]: "callback_step d d"
  by (auto simp: callback_step_def intro: list_all2_refl)

lemma answers_trans:
  "list_all2 contract_answer cs cs1 \<Longrightarrow> list_all2 contract_answer cs1 cs2 \<Longrightarrow> list_all2 contract_answer cs cs2"
  "list_all2 item_answer its its1 \<Longrightarrow> list_all2 item_answer its1 its2 \<Longrightarrow> list_all2 item_answer its its2"
  by (auto simp: list_all2_conv_all_nth contract_answer_def item_answer_def)

lemma callback_step_trans [trans]:
  assumes "callback_step d d1" and "callback_step d1 d2"
  shows "callback_step d d2"
proof -
  note a = assms(1) [unfolded callback_step_def] and b = assms(2) [unfolded callback_step_def]
  have "list_all2 contract_answer (contracts d) (contracts d2)"
    using a b by (blast intro: answers_trans)
  moreover have "list_all2 item_answer (items d) (items d2)"
    using a b by (blast intro: answers_trans)
  moreover have "\<exists>new. settlements d2 = settlements d @ new"
  proof -
    obtain n1 n2 where "settlements d1 = settlements d @ n1" "settlements d2 = settlements d1 @ n2"
      using a b by blast
    then show ?thesis by simp
  qed
  ultimately show ?thesis
    unfolding callback_step_def by (intro conjI) (use a b in simp_all)
qed

lemma answers_update_where: "(\<And>x. R x x) \<Longrightarrow> (\<And>x. R x (f x)) \<Longrightarrow> list_all2 R xs (update_where P f xs)"
  by (induction xs) auto

lemma callback_update_contract:
  assumes "\<And>c. contract_answer c (f c)"
  shows "callback_step d (update_contract i f d)"
  using assms by (auto simp: callback_step_def unique_keys_def intro: list_all2_refl answers_update_where)

lemma callback_update_item:
  assumes "\<And>it. item_answer it (f it)"
  shows "callback_step d (update_item i f d)"
  using assms
  by (auto simp: callback_step_def unique_keys_def update_item_def update_items_def
      intro: list_all2_refl answers_update_where)

lemma callback_interaction: "callback_step d (create_interaction gen ia d)"
  by (auto simp: callback_step_def unique_keys_def intro: list_all2_refl)

lemma callback_serasa_interaction: "callback_step d (serasa_interaction gen now i p tx d)"
  by (auto simp: serasa_interaction_def Let_def callback_interaction split: option.split)

lemma callback_processEvent: "callback_step d (processEvent gen ev acc d)"
proof (cases rule: processEvent_cases [of ev d acc])
  case noop
  then show ?thesis by (simp add: processEvent_noop)
next
  case (new ct a)
  have rows: "list_all2 contract_answer (contracts d) (contracts (processEvent gen ev acc d))"
    unfolding processEvent_new [OF new refl]
    by (simp add: answers_update_where contract_answer_def)
  have keys: "unique_keys d \<longrightarrow> unique_keys (processEvent gen ev acc d)"
    using new(1) by (auto simp: processEvent_new [OF new refl] unique_keys_def)
  show ?thesis
    using rows keys
    by (auto simp: callback_step_def processEvent_new [OF new refl] intro: list_all2_refl)
qed

lemma fixed_columns_project [simp]: "fixed_columns (project ap c) = fixed_columns c"
  by (simp add: project_def)

lemma callback_record: "callback_step d (recordSerasaPayment gen now date i ty p d)"
  by (auto simp: recordSerasaPayment_def Let_def callback_processEvent split: option.split)

lemma callback_marks:
  "callback_step d (updateAgreementStatus now date i p d)"
  "callback_step d (markAgreementBreached date i p d)"
  "callback_step d (markAgreementPaid now date i p d)"
  "callback_step d (markInstallmentPaid date i p d)"
  unfolding updateAgreementStatus_def markAgreementBreached_def markAgreementPaid_def markInstallmentPaid_def Let_def
  by (auto intro!: callback_update_contract split: option.split simp: contract_answer_def)

lemma callback_agreement: "callback_step d (processAgreementEvent gen now date ty p i d)"
  using callback_marks callback_step_trans [OF callback_record callback_marks(3)]
    callback_step_trans [OF callback_record callback_marks(4)]
  by (simp add: processAgreementEvent_def)

lemma callback_item_event: "callback_step d (processItemEvent gen now date text ty p it ct d)"
proof -
  have item: "callback_step d (update_item i (failed_item text p st) d)"
    "callback_step d (update_item i (\<lambda>r. r\<lparr>it_status := IT_REMOVED\<rparr>) d)" for i st
    by (rule callback_update_item, simp add: item_answer_def failed_item_def)+
  have reg: "callback_step d (registers st p it ct d)" if "st \<noteq> IT_PENDING" for st
    unfolding registers_def using that
    by (intro callback_step_trans [OF callback_update_item callback_update_contract])
      (simp_all add: item_answer_def contract_answer_def)
  have fail: "callback_step d1 (update_contract i (\<lambda>c. c\<lparr>ct_serasaStatus := st\<rparr>) d1)" for d1 i st
    by (rule callback_update_contract) (simp add: contract_answer_def)
  show ?thesis
    unfolding processItemEvent_def processDebtCreatedEvent_def processDebtRemovedEvent_def Let_def
    using item callback_step_trans [OF item(1) fail] callback_step_trans [OF item(2) fail]
    by (simp add: reg callback_agreement)
qed

lemma callback_contract_event: "callback_step d (processContractEvent gen now date ty p i d)"
proof -
  have "callback_step d (update_contract i (\<lambda>c. c\<lparr>ct_serasaStatus := st\<rparr>) d)"
    "callback_step d (update_contract i (\<lambda>c. c\<lparr>ct_serasaStatus := st, ct_debtId := g c\<rparr>) d)" for st g
    by (rule callback_update_contract, simp add: contract_answer_def)+
  then show ?thesis
    by (simp add: processContractEvent_def Let_def callback_agreement)
qed

lemma callback_process: "callback_step d (process_correlated we ty p tx it ct d)"
proof -
  have "callback_step d (case (it, ct) of
      (Some r, _) \<Rightarrow> processItemEvent (we_gen we) (we_now we) (we_date we) (we_text we) ty p r (item_contract d r) d
    | (None, Some c) \<Rightarrow> processContractEvent (we_gen we) (we_now we) (we_date we) ty p (ct_id c) d
    | (None, None) \<Rightarrow> d)"
    by (simp add: callback_item_event callback_contract_event split: option.split)
  then show ?thesis
    unfolding process_correlated_def Let_def
    by (cases ct) (auto intro: callback_step_trans callback_serasa_interaction)
qed

section \<open>The table of events\<close>

definition webhook_key :: "webhook_event \<Rightarrow> string option \<times> string" where
  "webhook_key w = (wh_transactionId w, wh_eventType w)"

definition webhooks_ok :: "(nat \<Rightarrow> string) \<Rightarrow> database \<Rightarrow> bool" where
  \<comment> \<open>fresh identifiers, and \<open>@@unique([transactionId, eventType])\<close> on the events with a transaction\<close>
  "webhooks_ok gen d \<longleftrightarrow>
     distinct (map wh_id (webhooks d)) \<and> set (map wh_id (webhooks d)) \<subseteq> gen ` {..<nextId d} \<and>
     distinct (map webhook_key (filter (\<lambda>w. wh_transactionId w \<noteq> None) (webhooks d)))"

lemma create_webhook_frame [simp]:
  "webhooks (create_webhook gen ty tx p d) = webhooks d @ [\<lparr>wh_id = gen (nextId d), wh_eventType = ty,
     wh_transactionId = tx, wh_payload = p, wh_status = WH_RECEIVED\<rparr>]"
  "contracts (create_webhook gen ty tx p d) = contracts d" "items (create_webhook gen ty tx p d) = items d"
  "settlements (create_webhook gen ty tx p d) = settlements d" "charges (create_webhook gen ty tx p d) = charges d"
  "operations (create_webhook gen ty tx p d) = operations d" "queue (create_webhook gen ty tx p d) = queue d"
  "providers (create_webhook gen ty tx p d) = providers d" "events (create_webhook gen ty tx p d) = events d"
  "interactions (create_webhook gen ty tx p d) = interactions d"
  "nextId (create_webhook gen ty tx p d) = Suc (nextId d)"
  by (simp_all add: create_webhook_def)

lemma set_webhook_status_frame [simp]:
  "contracts (set_webhook_status i st d) = contracts d" "items (set_webhook_status i st d) = items d"
  "settlements (set_webhook_status i st d) = settlements d" "charges (set_webhook_status i st d) = charges d"
  "operations (set_webhook_status i st d) = operations d" "queue (set_webhook_status i st d) = queue d"
  "providers (set_webhook_status i st d) = providers d" "nextId (set_webhook_status i st d) = nextId d"
  "events (set_webhook_status i st d) = events d" "interactions (set_webhook_status i st d) = interactions d"
  "webhooks (set_webhook_status i st d) = update_where (\<lambda>w. wh_id w = i) (\<lambda>w. w\<lparr>wh_status := st\<rparr>) (webhooks d)"
  by (simp_all add: set_webhook_status_def)

lemma find_webhook_keys:
  "find_webhook (Some t) ty d \<noteq> None \<longleftrightarrow> (Some t, ty) \<in> webhook_key ` set (webhooks d)"
  by (force simp: find_webhook_def webhook_key_def find_None_iff)

lemma webhook_keys_status [simp]:
  "webhook_key ` set (update_where P (\<lambda>w. w\<lparr>wh_status := st\<rparr>) ws) = webhook_key ` set ws"
proof -
  have "map webhook_key (update_where P (\<lambda>w. w\<lparr>wh_status := st\<rparr>) ws) = map webhook_key ws"
    by (rule map_update_where) (simp add: webhook_key_def)
  then show ?thesis by (metis set_map)
qed

lemma handleWebhook_cases:
  obtains (refused) "snd (handleWebhook we ws down supplied signed p d) = d"
      and "\<not> webhook_authorised ws supplied signed \<or> providers d = [] \<or>
           find_webhook (event_transaction p) (event_type p) d \<noteq> None"
  | (unmatched) pv pvs where "providers d = pv # pvs" and "find_webhook (event_transaction p) (event_type p) d = None"
      and "webhook_authorised ws supplied signed"
      and "correlate p (pv_accountId pv) (event_transaction p) d = (None, None)"
      and "snd (handleWebhook we ws down supplied signed p d) = set_webhook_status (we_gen we (nextId d)) WH_UNMATCHED
             (create_webhook (we_gen we) (event_type p) (event_transaction p) p d)"
  | (failed) pv pvs where "providers d = pv # pvs" and "find_webhook (event_transaction p) (event_type p) d = None"
      and "webhook_authorised ws supplied signed" and down
      and "correlate p (pv_accountId pv) (event_transaction p) d \<noteq> (None, None)"
      and "snd (handleWebhook we ws down supplied signed p d) =
             create_webhook (we_gen we) (event_type p) (event_transaction p) p d"
  | (processed) pv pvs it ct where "providers d = pv # pvs"
      and "find_webhook (event_transaction p) (event_type p) d = None" and "\<not> down"
      and "webhook_authorised ws supplied signed"
      and "correlate p (pv_accountId pv) (event_transaction p) d = (it, ct)"
      and "it \<noteq> None \<or> ct \<noteq> None"
      and "snd (handleWebhook we ws down supplied signed p d) =
             set_webhook_status (we_gen we (nextId d)) WH_PROCESSED
               (process_correlated we (event_type p) p (event_transaction p) it ct
                  (create_webhook (we_gen we) (event_type p) (event_transaction p) p d))"
proof -
  have same: "correlate p acc tx (create_webhook gen ty tx' p' d) = correlate p acc tx d" for acc tx gen ty tx' p'
    unfolding correlate_def referenced_contract_def correlated_item_def item_contract_def create_webhook_frame ..
  show ?thesis
  proof (cases "\<not> webhook_authorised ws supplied signed \<or> providers d = [] \<or>
      find_webhook (event_transaction p) (event_type p) d \<noteq> None")
    case True
    then show ?thesis
      by (intro refused) (auto simp: handleWebhook_def Let_def split: list.split)
  next
    case False
    then obtain pv pvs where pv: "providers d = pv # pvs" by (cases "providers d") auto
    obtain it ct where c: "correlate p (pv_accountId pv) (event_transaction p) d = (it, ct)" by fastforce
    show ?thesis
    proof (cases "it = None \<and> ct = None")
      case True
      then show ?thesis
        using False pv c by (intro unmatched [OF pv]) (simp_all add: handleWebhook_def Let_def same)
    next
      case matched: False
      show ?thesis
      proof (cases down)
        case True
        then show ?thesis
          using False pv c matched
          by (intro failed [OF pv]) (auto simp: handleWebhook_def Let_def same split: option.split)
      next
        case False
        then show ?thesis
          using \<open>\<not> (\<not> webhook_authorised ws supplied signed \<or> _)\<close> pv c matched
          by (intro processed [OF pv _ _ _ c]) (auto simp: handleWebhook_def Let_def same split: option.split)
      qed
    qed
  qed
qed

lemma handled_event_kept:
  \<comment> \<open>after a delivery that was looked at, the event is in the table\<close>
  assumes "webhook_authorised ws supplied signed" and "providers d \<noteq> []" and "event_transaction p = Some t"
  shows "find_webhook (Some t) (event_type p) (snd (handleWebhook we ws down supplied signed p d)) \<noteq> None"
    and "providers (snd (handleWebhook we ws down supplied signed p d)) = providers d"
proof -
  have "find_webhook (Some t) (event_type p) (snd (handleWebhook we ws down supplied signed p d)) \<noteq> None \<and>
    providers (snd (handleWebhook we ws down supplied signed p d)) = providers d"
  proof (cases rule: handleWebhook_cases [where we = we and ws = ws and down = down and supplied = supplied
        and signed = signed and p = p and d = d])
    case refused
    then show ?thesis using assms by simp
  next
    case unmatched
    then show ?thesis
      unfolding find_webhook_keys unmatched(5) set_webhook_status_frame webhook_keys_status by (simp add: webhook_key_def assms(3))
  next
    case failed
    then show ?thesis
      unfolding find_webhook_keys failed(6) by (simp add: webhook_key_def assms(3))
  next
    case (processed pv pvs it ct)
    let ?d1 = "create_webhook (we_gen we) (event_type p) (event_transaction p) p d"
    have "webhooks (process_correlated we (event_type p) p (event_transaction p) it ct ?d1) = webhooks ?d1"
      "providers (process_correlated we (event_type p) p (event_transaction p) it ct ?d1) = providers ?d1"
      using callback_process [of ?d1 we "event_type p" p "event_transaction p" it ct] by (simp_all only: callback_step_def)
    then show ?thesis
      unfolding find_webhook_keys processed(7) set_webhook_status_frame webhook_keys_status
      by (simp add: webhook_key_def assms(3))
  qed
  then show "find_webhook (Some t) (event_type p) (snd (handleWebhook we ws down supplied signed p d)) \<noteq> None"
    and "providers (snd (handleWebhook we ws down supplied signed p d)) = providers d" by blast+
qed

section \<open>Preservation of the invariants\<close>

lemma callback_payments_ok:
  assumes "callback_step d d'" and "payments_ok gen d"
  shows "payments_ok gen d'"
  using assms fresh_ids_mono [of gen d d'] unfolding callback_step_def payments_ok_def by blast

lemma item_answer_fields:
  assumes "item_answer it it'"
  shows "it_id it' = it_id it" and "it_operationId it' = it_operationId it"
    and "it_attempts it' = it_attempts it" and "it_batchIndex it' = it_batchIndex it"
proof -
  have f: "fixed_item it' = fixed_item it" using assms by (simp add: item_answer_def)
  show "it_id it' = it_id it" using arg_cong [OF f, of it_id] by (simp add: fixed_item_def)
  show "it_operationId it' = it_operationId it" using arg_cong [OF f, of it_operationId] by (simp add: fixed_item_def)
  show "it_attempts it' = it_attempts it" using arg_cong [OF f, of it_attempts] by (simp add: fixed_item_def)
  show "it_batchIndex it' = it_batchIndex it" using arg_cong [OF f, of it_batchIndex] by (simp add: fixed_item_def)
qed

lemma callback_items_ok:
  assumes "callback_step d d'" and "items_ok gen d"
  shows "items_ok gen d'"
proof -
  have rows: "list_all2 item_answer (items d) (items d')" and q: "queue d' = queue d"
    and ops: "operations d' = operations d" and n: "nextId d \<le> nextId d'"
    using assms(1) by (simp_all add: callback_step_def)
  have "map it_id (items d') = map it_id (items d)" "map it_operationId (items d') = map it_operationId (items d)"
    using rows by (induction rule: list_all2_induct) (simp_all add: item_answer_fields)
  moreover have "item_ok (queue d') it'" if it': "it' \<in> set (items d')" for it'
  proof -
    obtain k where k: "k < length (items d')" "it' = items d' ! k"
      using it' by (metis in_set_conv_nth)
    then have answer: "item_answer (items d ! k) it'" "items d ! k \<in> set (items d)"
      using rows by (auto simp: list_all2_conv_all_nth)
    then have "item_ok (queue d) (items d ! k)"
      using assms(2) by (simp add: items_ok_def)
    then show ?thesis
      using answer(1) item_answer_fields [OF answer(1)] by (auto simp: q item_ok_def item_answer_def has_job_def)
  qed
  ultimately show ?thesis
    using ops n by (intro items_ok_rows [OF assms(2)]) simp_all
qed

lemma callback_webhooks_ok:
  assumes "callback_step d d'" and "webhooks_ok gen d"
  shows "webhooks_ok gen d'"
proof -
  have "webhooks d' = webhooks d" "gen ` {..<nextId d} \<subseteq> gen ` {..<nextId d'}"
    using assms(1) by (auto simp: callback_step_def)
  then show ?thesis using assms(2) unfolding webhooks_ok_def by (simp only:) blast
qed

lemma create_webhook_ok:
  assumes "inj gen" and "webhooks_ok gen d" and "find_webhook tx ty d = None"
  shows "webhooks_ok gen (create_webhook gen ty tx p d)"
proof -
  have "gen (nextId d) \<notin> set (map wh_id (webhooks d))"
    using assms(2) gen_fresh [OF assms(1), of "nextId d" "nextId d"] by (auto simp: webhooks_ok_def)
  moreover have "tx \<noteq> None \<Longrightarrow> (tx, ty) \<notin> webhook_key ` set (webhooks d)"
    using assms(3) find_webhook_keys [of "the tx" ty d] by auto
  moreover have "set (map wh_id (webhooks d)) \<subseteq> gen ` {..<Suc (nextId d)}"
    using assms(2) unfolding webhooks_ok_def lessThan_Suc by blast
  ultimately show ?thesis
    using assms(2) unfolding webhooks_ok_def by (auto simp: webhook_key_def image_iff)
qed

lemma set_webhook_status_ok:
  assumes "webhooks_ok gen d"
  shows "webhooks_ok gen (set_webhook_status i st d)"
proof -
  have "map wh_id (update_where P (\<lambda>w. w\<lparr>wh_status := st\<rparr>) ws) = map wh_id ws"
    "map webhook_key (filter (\<lambda>w. wh_transactionId w \<noteq> None) (update_where P (\<lambda>w. w\<lparr>wh_status := st\<rparr>) ws)) =
     map webhook_key (filter (\<lambda>w. wh_transactionId w \<noteq> None) ws)" for P ws
    by (induction ws) (simp_all add: webhook_key_def)
  then show ?thesis using assms unfolding webhooks_ok_def set_webhook_status_frame by (simp only:)
qed

lemma webhook_frame_ok:
  assumes "charges d' = charges d" "settlements d' = settlements d" "items d' = items d"
    "operations d' = operations d" "queue d' = queue d" "nextId d \<le> nextId d'"
  shows "payments_ok gen d \<Longrightarrow> payments_ok gen d'" and "items_ok gen d \<Longrightarrow> items_ok gen d'"
  using assms payments_ok_frame [of gen d d'] items_ok_same [of gen d d'] by simp_all

text \<open>
  C15. Whatever Serasa sends, in any order and with any failure of the database, a delivery keeps the invariants
  of the payment tables, of the operations with their items, and of the table of events, only appends
  settlements, changes no charge, and leaves of every contract the identity, the debtor, the values,
  the offer and the commercial status as they are.
\<close>

theorem webhook_invariants:
  assumes "inj (we_gen we)" and "payments_ok (we_gen we) d" and "items_ok (we_gen we) d" and "webhooks_ok (we_gen we) d"
    and "d' = snd (handleWebhook we ws down supplied signed p d)"
  shows "payments_ok (we_gen we) d' \<and> items_ok (we_gen we) d' \<and> webhooks_ok (we_gen we) d' \<and>
    (\<exists>new. settlements d' = settlements d @ new) \<and> charges d' = charges d \<and>
    list_all2 contract_answer (contracts d) (contracts d')"
proof -
  let ?d1 = "create_webhook (we_gen we) (event_type p) (event_transaction p) p d"
  have created: "payments_ok (we_gen we) ?d1 \<and> items_ok (we_gen we) ?d1"
    using webhook_frame_ok [of ?d1 d "we_gen we"] assms(2,3) by simp
  have marked: "payments_ok (we_gen we) x \<Longrightarrow> payments_ok (we_gen we) (set_webhook_status i st x)"
    "items_ok (we_gen we) x \<Longrightarrow> items_ok (we_gen we) (set_webhook_status i st x)" for i st x
    using webhook_frame_ok [of "set_webhook_status i st x" x "we_gen we"] by simp_all
  show ?thesis
  proof (cases rule: handleWebhook_cases [where we = we and ws = ws and down = down and supplied = supplied
        and signed = signed and p = p and d = d])
    case refused
    then show ?thesis using assms by (auto intro: list_all2_refl)
  next
    case (unmatched pv pvs)
    show ?thesis
      unfolding assms(5) unmatched(5) using created marked create_webhook_ok [OF assms(1,4) unmatched(2)]
      by (auto intro: set_webhook_status_ok list_all2_refl)
  next
    case (failed pv pvs)
    show ?thesis
      unfolding assms(5) failed(6) using created create_webhook_ok [OF assms(1,4) failed(2)] by (auto intro: list_all2_refl)
  next
    case (processed pv pvs it ct)
    let ?d2 = "process_correlated we (event_type p) p (event_transaction p) it ct ?d1"
    have step: "callback_step ?d1 ?d2" by (rule callback_process)
    have "payments_ok (we_gen we) ?d2 \<and> items_ok (we_gen we) ?d2 \<and> webhooks_ok (we_gen we) ?d2"
      using callback_payments_ok [OF step] callback_items_ok [OF step] callback_webhooks_ok [OF step] created
        create_webhook_ok [OF assms(1,4) processed(2)] by blast
    moreover have "(\<exists>new. settlements ?d2 = settlements d @ new) \<and> charges ?d2 = charges d \<and>
        list_all2 contract_answer (contracts d) (contracts ?d2)"
      using step by (simp add: callback_step_def)
    ultimately show ?thesis
      unfolding assms(5) processed(7) by (simp add: marked set_webhook_status_ok)
  qed
qed

text \<open>
  A delivery is idempotent: once an authorised callback with a transaction has been looked at, whether its
  processing succeeded or not, every later callback with the same transaction and type is answered as
  a duplicate and changes nothing. The rest of the payload is not compared, so of the callbacks of a
  batch, which share the transaction and differ in the debt, only the first is ever processed.
\<close>

theorem webhook_duplicate_ignored:
  assumes "webhook_authorised ws supplied signed" and "webhook_authorised ws2 supplied2 signed2"
    and "providers d \<noteq> []" and "event_transaction p = Some t"
    and "event_transaction q = Some t" and "event_type q = event_type p"
    and "d' = snd (handleWebhook we ws down supplied signed p d)"
  shows "handleWebhook we2 ws2 down2 supplied2 signed2 q d' = (Inr ''Duplicate event, ignored'', d')"
proof -
  have "find_webhook (Some t) (event_type q) d' \<noteq> None" "providers d' \<noteq> []"
    using handled_event_kept [OF assms(1,3,4)] assms(3) unfolding assms(6,7) by simp_all
  then show ?thesis
    using assms(2,5) by (auto simp: handleWebhook_def Let_def split: list.split)
qed

text \<open>
  A callback whose processing fails is lost: it is stored as \<open>RECEIVED\<close>, the sender is answered 200, no
  contract, item, settlement or interaction changes, and a repetition of the callback is ignored as a
  duplicate.
\<close>

theorem webhook_failure_lost:
  assumes "webhook_authorised ws supplied signed" and "providers d = pv # pvs" and "event_transaction p = Some t"
    and "find_webhook (Some t) (event_type p) d = None"
    and "correlate p (pv_accountId pv) (Some t) d \<noteq> (None, None)"
    and "d' = snd (handleWebhook we ws True supplied signed p d)"
  shows "map wh_status (webhooks d') = map wh_status (webhooks d) @ [WH_RECEIVED] \<and>
    contracts d' = contracts d \<and> items d' = items d \<and> settlements d' = settlements d \<and>
    interactions d' = interactions d \<and>
    handleWebhook we2 ws False supplied signed p d' = (Inr ''Duplicate event, ignored'', d')"
proof -
  have "find_webhook (Some t) (event_type p) d' \<noteq> None" "providers d' \<noteq> []"
    using handled_event_kept [OF assms(1) _ assms(3), of d we True] assms(2) unfolding assms(6) by simp_all
  then have again: "handleWebhook we2 ws False supplied signed p d' = (Inr ''Duplicate event, ignored'', d')"
    using assms(1,3) by (auto simp: handleWebhook_def Let_def split: list.split)
  have "d' = create_webhook (we_gen we) (event_type p) (event_transaction p) p d"
    using assms(1-5) unfolding assms(6)
    by (cases rule: handleWebhook_cases [where we = we and ws = ws and down = True and supplied = supplied
        and signed = signed and p = p and d = d]) auto
  then show ?thesis using again by simp
qed

section \<open>Agreements\<close>

lemma processEvent_find:
  assumes "List.find (\<lambda>c. ct_id c = i) (contracts d) = Some ct"
  shows "\<exists>ct'. List.find (\<lambda>c. ct_id c = i) (contracts (processEvent gen ev acc d)) = Some ct' \<and>
    ct_agreement ct' = ct_agreement ct \<and> ct_paymentStatus ct' = ct_paymentStatus ct"
proof (cases rule: processEvent_cases [of ev d acc])
  case noop
  then show ?thesis using assms by (simp add: processEvent_noop)
next
  case (new c a)
  then show ?thesis
    using assms by (simp add: processEvent_new [OF new refl] find_update_where)
qed

lemma record_find:
  assumes "List.find (\<lambda>c. ct_id c = i) (contracts d) = Some ct"
  shows "\<exists>ct'. List.find (\<lambda>c. ct_id c = i) (contracts (recordSerasaPayment gen now date i ty p d)) = Some ct' \<and>
    ct_agreement ct' = ct_agreement ct \<and> ct_paymentStatus ct' = ct_paymentStatus ct"
  using assms processEvent_find [OF assms]
  by (simp add: recordSerasaPayment_def Let_def split: option.split)

lemma updated_row:
  assumes "c \<in> set (contracts (update_contract i f d))" and "ct_id c = i" and "\<And>c. ct_id (f c) = ct_id c"
  obtains x where "c = f x" and "ct_id x = i"
proof -
  obtain x where "c = (if ct_id x = i then f x else x)"
    using assms(1) unfolding update_contract_frame update_where_def set_map by blast
  then show ?thesis using assms(2,3) that [of x] by (simp split: if_splits)
qed

lemma project_fields [simp]:
  "ct_id (project ap c) = ct_id c" "ct_paymentStatus (project ap c) = ct_paymentStatus c"
  "ct_totalPaidAmount (project ap c) = ct_totalPaidAmount c"
  "ag_paidInstallments (ct_agreement (project ap c)) = ag_paidInstallments (ct_agreement c)"
  "ag_totalInstallments (ct_agreement (project ap c)) =
     or_opt (ap_totalInstallments ap) (ag_totalInstallments (ct_agreement c))"
  by (simp_all add: project_def)

lemma markInstallmentPaid_eq:
  assumes "List.find (\<lambda>c. ct_id c = i) (contracts d) = Some ct"
  shows "markInstallmentPaid date i p d = update_contract i
    (\<lambda>c. project (agreementProjection date p)
      (c\<lparr>ct_paymentStatus := installment_status (agreementProjection date p) p ct,
         ct_agreement := (ct_agreement c)\<lparr>ag_paidInstallments := installments_paid p ct\<rparr>\<rparr>)) d"
  using assms by (simp add: markInstallmentPaid_def Let_def)

text \<open>
  What the four agreement events make of a contract, whatever its status was: a closed agreement makes it
  \<open>INSTALLMENT\<close> or \<open>IN_AGREEMENT\<close> by its number of installments and a breach
  \<open>AGREEMENT_BREACHED\<close>, so also a contract already paid is reopened by a late event; a paid agreement
  makes it \<open>PAID\<close> and replaces its paid total by the value of the agreement, where it has one, whatever
  its settlements sum up to; a paid installment raises the count to its number or by one, and the
  status follows the count.
\<close>

theorem agreement_event_outcome:
  assumes "List.find (\<lambda>c. ct_id c = i) (contracts d) = Some ct"
    and "c \<in> set (contracts (processAgreementEvent gen now date ty p i d))" and "ct_id c = i"
    and "ap = agreementProjection date p"
  shows "(ty = ''ClosedAgreementEvent'' \<longrightarrow>
      ct_paymentStatus c = (case ap_totalInstallments ap of
        None \<Rightarrow> PS_IN_AGREEMENT | Some n \<Rightarrow> if n > 1 then PS_INSTALLMENT else PS_IN_AGREEMENT)) \<and>
    (ty = ''BreachedAgreementEvent'' \<longrightarrow> ct_paymentStatus c = PS_AGREEMENT_BREACHED) \<and>
    (ty = ''PaidAgreementEvent'' \<longrightarrow> ct_paymentStatus c = PS_PAID \<and>
      (\<forall>t. ag_totalAmount (ct_agreement ct) = Some t \<longrightarrow> ct_totalPaidAmount c = t)) \<and>
    (ty = ''PaidInstallmentEvent'' \<longrightarrow> ct_paymentStatus c = installment_status ap p ct \<and>
      ag_paidInstallments (ct_agreement c) = installments_paid p ct)"
proof -
  obtain ct' where f: "List.find (\<lambda>c. ct_id c = i) (contracts (recordSerasaPayment gen now date i ty p d)) = Some ct'"
      and ct': "ct_agreement ct' = ct_agreement ct" "ct_paymentStatus ct' = ct_paymentStatus ct"
    using record_find [OF assms(1)] by blast
  consider "ty = ''ClosedAgreementEvent''" | "ty = ''BreachedAgreementEvent''" | "ty = ''PaidAgreementEvent''"
    | "ty = ''PaidInstallmentEvent''"
    | "ty \<notin> {''ClosedAgreementEvent'', ''BreachedAgreementEvent'', ''PaidAgreementEvent'', ''PaidInstallmentEvent''}"
    by auto
  then show ?thesis
  proof cases
    case 1
    then have "c \<in> set (contracts (updateAgreementStatus now date i p d))"
      using assms(2) by (simp add: processAgreementEvent_def)
    then obtain x where "c = project ap (x\<lparr>ct_paymentStatus :=
          (if case ap_totalInstallments ap of None \<Rightarrow> False | Some n \<Rightarrow> n > 1 then PS_INSTALLMENT else PS_IN_AGREEMENT),
          ct_agreement := (ct_agreement x)\<lparr>ag_createdAt := Some now\<rparr>\<rparr>)"
      unfolding updateAgreementStatus_def Let_def assms(4) by (rule updated_row [OF _ assms(3)]) simp_all
    with 1 show ?thesis by (simp split: option.split)
  next
    case 2
    then have "c \<in> set (contracts (markAgreementBreached date i p d))"
      using assms(2) by (simp add: processAgreementEvent_def)
    then obtain x where "c = project ap (x\<lparr>ct_paymentStatus := PS_AGREEMENT_BREACHED\<rparr>)"
      unfolding markAgreementBreached_def assms(4) by (rule updated_row [OF _ assms(3)]) simp_all
    with 2 show ?thesis by simp
  next
    case 3
    then have "c \<in> set (contracts (markAgreementPaid now date i p (recordSerasaPayment gen now date i ty p d)))"
      using assms(2) by (simp add: processAgreementEvent_def)
    then obtain x q t where "c = project ap (x\<lparr>ct_paymentStatus := PS_PAID, ct_lastPaymentAt := t,
          ct_totalPaidAmount := or_else (ag_totalAmount (ct_agreement ct)) (ct_totalPaidAmount ct'),
          ct_agreement := q x\<rparr>)"
      unfolding markAgreementPaid_def f assms(4) option.case Let_def ct' by (rule updated_row [OF _ assms(3)]) simp_all
    with 3 show ?thesis by simp
  next
    case 4
    have "installment_status ap p ct' = installment_status ap p ct" "installments_paid p ct' = installments_paid p ct"
      unfolding installment_status_def installments_paid_def ct' by (rule refl)+
    moreover have "c \<in> set (contracts (markInstallmentPaid date i p (recordSerasaPayment gen now date i ty p d)))"
      using assms(2) 4 by (simp add: processAgreementEvent_def)
    then obtain x where "c = project ap (x\<lparr>ct_paymentStatus := installment_status ap p ct',
          ct_agreement := (ct_agreement x)\<lparr>ag_paidInstallments := installments_paid p ct'\<rparr>\<rparr>)"
      unfolding markInstallmentPaid_eq [OF f] assms(4) by (rule updated_row [OF _ assms(3)]) simp_all
    ultimately show ?thesis using 4 by simp
  qed simp
qed

lemma update_contract_twice:
  assumes "\<And>c. g (f c) = f c" and "\<And>c. ct_id (f c) = ct_id c"
  shows "update_contract i g (update_contract i f d) = update_contract i f d"
proof -
  have "update_where (\<lambda>c. ct_id c = i) g (update_where (\<lambda>c. ct_id c = i) f cs) =
      update_where (\<lambda>c. ct_id c = i) f cs" for cs
    using assms by (induction cs) simp_all
  then show ?thesis by (simp add: update_contract_def)
qed

lemma or_opt_again: "or_opt x (or_opt x y) = or_opt x y"
  by (cases x) simp_all

lemma installment_status_again:
  assumes "or_opt (ap_totalInstallments ap) (ag_totalInstallments (ct_agreement ct')) =
      or_opt (ap_totalInstallments ap) (ag_totalInstallments (ct_agreement ct))"
    and "installments_paid p ct' = installments_paid p ct"
    and "ct_paymentStatus ct' = installment_status ap p ct"
  shows "installment_status ap p ct' = installment_status ap p ct"
  unfolding installment_status_def [of _ _ ct'] assms by (simp add: installment_status_def)

text \<open>
  A paid installment that carries its number is counted once: repeating the event changes nothing more,
  and the count never goes down.
\<close>

theorem installment_counted_once:
  assumes "List.find (\<lambda>c. ct_id c = i) (contracts d) = Some ct" and "installment_number p = Some n"
    and "d' = markInstallmentPaid date i p d"
  shows "markInstallmentPaid date i p d' = d' \<and>
    (\<forall>c \<in> set (contracts d'). ct_id c = i \<longrightarrow>
       ag_paidInstallments (ct_agreement ct) \<le> ag_paidInstallments (ct_agreement c) \<and>
       n \<le> ag_paidInstallments (ct_agreement c))"
proof -
  let ?ap = "agreementProjection date p"
  let ?f = "\<lambda>ct c. project ?ap (c\<lparr>ct_paymentStatus := installment_status ?ap p ct,
         ct_agreement := (ct_agreement c)\<lparr>ag_paidInstallments := installments_paid p ct\<rparr>\<rparr>)"
  let ?ct = "?f ct ct"
  have d': "d' = update_contract i (?f ct) d"
    unfolding assms(3) by (rule markInstallmentPaid_eq [OF assms(1)])
  have f: "List.find (\<lambda>c. ct_id c = i) (contracts d') = Some ?ct"
    using find_SomeD [OF assms(1)] assms(1) by (simp add: d' find_update_where)
  have count: "installments_paid p ?ct = installments_paid p ct"
    using assms(2) by (simp add: installments_paid_def)
  have status: "installment_status ?ap p ?ct = installment_status ?ap p ct"
    using count by (intro installment_status_again) (simp_all add: or_opt_again)
  have twice: "?f ?ct (?f ct c) = ?f ct c" for c
    unfolding count status by (cases "ap_installments ?ap") (simp_all add: project_def or_opt_again)
  have "markInstallmentPaid date i p d' = update_contract i (?f ?ct) d'"
    by (rule markInstallmentPaid_eq [OF f])
  also have "\<dots> = d'"
    unfolding d' by (rule update_contract_twice) (simp_all only: twice, simp)
  finally have once: "markInstallmentPaid date i p d' = d'" .
  have "ag_paidInstallments (ct_agreement c) = installments_paid p ct"
    if c: "c \<in> set (contracts d')" "ct_id c = i" for c
    using c(1) unfolding d' by (rule updated_row [OF _ c(2)]) simp_all
  then show ?thesis
    using once assms(2) by (simp add: installments_paid_def)
qed

section \<open>Concrete deliveries\<close>

definition sample_webhook_env :: webhook_env where
  "sample_webhook_env = \<lparr>we_gen = sample_gen, we_now = 5000, we_date = (\<lambda>_. None), we_text = (\<lambda>_. ''500'')\<rparr>"

definition sample_secrets :: webhook_secrets where
  "sample_secrets = \<lparr>ws_token = Some ''t'', ws_secret = None\<rparr>"

definition sample_payload :: "string \<Rightarrow> json" where
  "sample_payload debt = JObj [(''eventType'', JStr ''DebtCreatedEvent''), (''transactionId'', JStr ''tx9''),
     (''status'', JNum 201), (''debtId'', JStr debt)]"

definition sample_registered_db :: database where
  "sample_registered_db = sample_db\<lparr>contracts := [sample_contract\<lparr>ct_debtId := Some ''d1'',
     ct_agreement := (ct_agreement sample_contract)\<lparr>ag_totalAmount := Some 100, ag_totalInstallments := Some 3\<rparr>\<rparr>]\<rparr>"

lemma trim_tx9: "trim ''tx9'' = ''tx9''"
  by code_simp

lemma sample_webhook_facts:
  "webhook_authorised sample_secrets (Some ''t'') signed"
  "event_transaction (sample_payload debt) = Some ''tx9''" "event_type (sample_payload debt) = ''DebtCreatedEvent''"
  "find_webhook (Some t) ty sample_registered_db = None"
  by (simp_all add: webhook_authorised_def sample_secrets_def event_transaction_def asString_def sample_payload_def
      event_type_def str_field_def or_text_def find_webhook_def sample_registered_db_def sample_db_def trim_tx9)

lemma sample_correlated: "correlate (sample_payload ''d1'') ''a1'' (Some ''tx9'') sample_registered_db \<noteq> (None, None)"
  by (simp add: correlate_def Let_def referenced_contract_def debt_references_def sample_payload_def str_field_def
      sample_registered_db_def sample_db_def sample_contract_def)

lemma webhook_invariants_witness:
  "webhooks_ok sample_gen (snd (handleWebhook sample_webhook_env sample_secrets False (Some ''t'') (\<lambda>_. False)
     (sample_payload ''d1'') sample_registered_db))"
proof -
  have gen: "we_gen sample_webhook_env = sample_gen" by (simp add: sample_webhook_env_def)
  have "payments_ok sample_gen sample_registered_db" "items_ok sample_gen sample_registered_db"
    "webhooks_ok sample_gen sample_registered_db"
    by (simp_all add: payments_ok_def unique_keys_def fresh_ids_def items_ok_def webhooks_ok_def
        sample_registered_db_def sample_db_def)
  then show ?thesis
    using webhook_invariants [where we = sample_webhook_env and d = sample_registered_db, OF _ _ _ _ refl]
      inj_sample_gen unfolding gen by blast
qed

lemma webhook_duplicate_ignored_witness:
  "let d = snd (handleWebhook sample_webhook_env sample_secrets False (Some ''t'') (\<lambda>_. False) (sample_payload ''d1'') sample_db)
   in handleWebhook sample_webhook_env sample_secrets False (Some ''t'') (\<lambda>_. False) (sample_payload ''d2'') d =
      (Inr ''Duplicate event, ignored'', d)"
proof -
  have "providers sample_db \<noteq> []" by (simp add: sample_db_def)
  then show ?thesis
    unfolding Let_def using sample_webhook_facts by (intro webhook_duplicate_ignored [OF _ _ _ _ _ _ refl]) simp_all
qed

lemma webhook_failure_lost_witness:
  "map wh_status (webhooks (snd (handleWebhook sample_webhook_env sample_secrets True (Some ''t'') (\<lambda>_. False)
     (sample_payload ''d1'') sample_registered_db))) = [WH_RECEIVED]"
proof -
  have pv: "providers sample_registered_db = \<lparr>pv_id = ''p1'', pv_accountId = ''a1'', pv_environment = PV_HOMOLOGATION,
      pv_credentials = ''x''\<rparr> # []" and none: "webhooks sample_registered_db = []"
    by (simp_all add: sample_registered_db_def sample_db_def)
  show ?thesis
    using webhook_failure_lost [OF sample_webhook_facts(1) pv sample_webhook_facts(2,4) _ refl, of "''d1''"]
      sample_correlated none by simp
qed

lemma agreement_event_outcome_witness:
  "map ct_totalPaidAmount (contracts (processAgreementEvent sample_gen 0 (\<lambda>_. None) ''PaidAgreementEvent''
     (JObj []) ''c1'' sample_registered_db)) = [100]"
proof -
  let ?d' = "processAgreementEvent sample_gen 0 (\<lambda>_. None) ''PaidAgreementEvent'' (JObj []) ''c1'' sample_registered_db"
  have f: "List.find (\<lambda>c. ct_id c = ''c1'') (contracts sample_registered_db) = Some (hd (contracts sample_registered_db))"
    by (simp add: sample_registered_db_def sample_contract_def)
  have one: "\<exists>x. contracts sample_registered_db = [x]" by (simp add: sample_registered_db_def)
  have rows: "list_all2 contract_answer (contracts sample_registered_db) (contracts ?d')"
    using callback_agreement [where d = sample_registered_db] by (simp add: callback_step_def)
  then obtain c where c: "contracts ?d' = [c]"
    using one by (auto simp: list_all2_Cons1)
  with rows have "fixed_columns c = fixed_columns (hd (contracts sample_registered_db))"
    by (simp add: sample_registered_db_def contract_answer_def)
  from arg_cong [OF this, of ct_id] have "ct_id c = ''c1''"
    by (simp add: fixed_columns_def sample_registered_db_def sample_contract_def)
  then show ?thesis
    using agreement_event_outcome [OF f _ _ refl, of c sample_gen 0 "\<lambda>_. None" "''PaidAgreementEvent''" "JObj []"] c
    by (simp add: sample_registered_db_def)
qed

lemma installment_counted_once_witness:
  "let d = markInstallmentPaid (\<lambda>_. None) ''c1'' (JObj [(''installmentNumber'', JNum 2)]) sample_registered_db
   in markInstallmentPaid (\<lambda>_. None) ''c1'' (JObj [(''installmentNumber'', JNum 2)]) d = d"
proof -
  have "List.find (\<lambda>c. ct_id c = ''c1'') (contracts sample_registered_db) = Some (hd (contracts sample_registered_db))"
    by (simp add: sample_registered_db_def sample_contract_def)
  moreover have "installment_number (JObj [(''installmentNumber'', JNum 2)]) = Some 2"
    by (simp add: installment_number_def payment_record_def asRecord_def coalesces_def coalesce_def nullish_def
        asPositiveInt_def js_number_def)
  ultimately show ?thesis
    unfolding Let_def by (rule installment_counted_once [OF _ _ refl, THEN conjunct1])
qed

section \<open>Callbacks that miss their contract\<close>

lemma updated_event_ignored:
  \<comment> \<open>a \<open>DebtUpdatedEvent\<close> that finds an item changes neither the item nor the contract\<close>
  "processItemEvent gen now date text ''DebtUpdatedEvent'' p it ct d = d"
  by (simp add: processItemEvent_def agreement_events_def)

lemma removed_event_other_contract:
  \<comment> \<open>without an item of its own in the batch, the removal of one contract is booked on another\<close>
  assumes "referenced_contract p acc d = Some c" and "tx = Some t"
    and "List.find (\<lambda>it. it_contractId it = ct_id c \<and> it_transactionId it = tx) (items d) = None"
    and "List.find (\<lambda>it. it_transactionId it = tx) (items d) = Some it"
    and "jget ''status'' p = Some (JNum 200)"
  shows "fst (correlate p acc tx d) = Some it \<and>
    contracts (processItemEvent gen now date text ''DebtRemovedEvent'' p it ct d) =
      update_where (\<lambda>r. ct_id r = it_contractId it) (\<lambda>r. r\<lparr>ct_serasaStatus := SE_REMOVED\<rparr>) (contracts d) \<and>
    it_contractId it \<noteq> ct_id c"
  using assms find_SomeD [OF assms(4)] find_NoneD [OF assms(3)]
  by (auto simp: correlate_def Let_def correlated_item_def processItemEvent_def processDebtRemovedEvent_def
      status_or_zero_def truthy_def update_item_def update_items_def)

end
