(* ===== verification/Lifecycle.thy ===== *)
theory Lifecycle
  imports Settlement
begin

text \<open>
  The periodic jobs: \<open>ChargeLifecycleJob\<close> (\<open>payments/charge-lifecycle.job.ts\<close>), which reconciles
  charges that timed out or expired, and \<open>AgreementLifecycleJob\<close>
  (\<open>payments/agreement-lifecycle.job.ts\<close>).

  The job reads its batch once and then works on those copies, so every step takes the copy of the
  charge and the current database apart: a copy may be stale when another process wrote the row. The
  version column is the lock, and an update whose version no longer matches writes no row.
\<close>

section \<open>Result of a cycle\<close>

record job_result =
  jr_processedCount :: nat
  jr_transitionedToPaid :: nat
  jr_transitionedToExpired :: nat
  jr_transitionedToIssued :: nat
  jr_transitionedToFailed :: nat
  jr_providerErrors :: nat

definition empty_result :: job_result where
  "empty_result = \<lparr>jr_processedCount = 0, jr_transitionedToPaid = 0, jr_transitionedToExpired = 0,
     jr_transitionedToIssued = 0, jr_transitionedToFailed = 0, jr_providerErrors = 0\<rparr>"

type_synonym job_state = "job_result \<times> database"

datatype adapter_error_type = AE_TIMEOUT | AE_RATE_LIMIT | AE_OTHER

definition classifyAdapterError :: "adapter_error \<Rightarrow> adapter_error_type" where
  "classifyAdapterError err =
     (case err of
        BbTimeoutError \<Rightarrow> AE_TIMEOUT
      | BbRateLimitedError \<Rightarrow> AE_RATE_LIMIT
      | _ \<Rightarrow> AE_OTHER)"

section \<open>The optimistic lock\<close>

definition holds_lock :: "payment_charge \<Rightarrow> payment_charge \<Rightarrow> bool" where
  "holds_lock copy row \<longleftrightarrow> ch_id row = ch_id copy \<and> ch_version row = ch_version copy"

definition updateChargeWithOptimisticLock ::
  "payment_charge \<Rightarrow> (payment_charge \<Rightarrow> payment_charge) \<Rightarrow> database \<Rightarrow> database" where
  \<comment> \<open>an update of no row is only logged\<close>
  "updateChargeWithOptimisticLock copy data d =
     d\<lparr>charges := update_where (holds_lock copy)
         (\<lambda>r. (data r)\<lparr>ch_version := ch_version r + 1\<rparr>) (charges d)\<rparr>"

definition job_event ::
  "env \<Rightarrow> payment_charge \<Rightarrow> charge_status \<Rightarrow> database \<Rightarrow> database" where
  "job_event e copy to d =
     createPaymentEvent e (ch_id copy) (Some (ch_status copy)) to EV_JOB JNull d"

definition job_createSettlement :: "env \<Rightarrow> payment_charge \<Rightarrow> int \<Rightarrow> database \<Rightarrow> database" where
  \<comment> \<open>the job's \<open>createSettlement\<close> is that of the charge service with the account of the charge\<close>
  "job_createSettlement e copy paidAt d =
     createSettlementForCharge e copy paidAt (ch_accountId copy) d"

definition with_payload :: "charge_update \<Rightarrow> payment_charge \<Rightarrow> payment_charge" where
  "with_payload u r = (if up_providerPayload u = JNull then r
     else r\<lparr>ch_providerPayload := up_providerPayload u\<rparr>)"

section \<open>Transitions\<close>

definition transitionToPaid :: "env \<Rightarrow> payment_charge \<Rightarrow> charge_update \<Rightarrow> job_state \<Rightarrow> job_state" where
  "transitionToPaid e copy u s =
     (let paidAt = or_else (up_paidAt u) (e_now e);
          d1 = updateChargeWithOptimisticLock copy
                 (\<lambda>r. with_payload u (r\<lparr>ch_status := CH_PAID,
                    ch_externalStatus := or_opt (up_externalStatus u) (ch_externalStatus copy),
                    ch_paidAt := Some paidAt\<rparr>)) (snd s);
          d2 = job_event e copy CH_PAID d1;
          d3 = job_createSettlement e copy paidAt d2
      in ((fst s)\<lparr>jr_transitionedToPaid := jr_transitionedToPaid (fst s) + 1\<rparr>, d3))"

definition transitionToIssued :: "env \<Rightarrow> payment_charge \<Rightarrow> charge_update \<Rightarrow> job_state \<Rightarrow> job_state" where
  "transitionToIssued e copy u s =
     ((fst s)\<lparr>jr_transitionedToIssued := jr_transitionedToIssued (fst s) + 1\<rparr>,
      job_event e copy CH_ISSUED
        (updateChargeWithOptimisticLock copy
           (\<lambda>r. with_payload u (r\<lparr>ch_status := CH_ISSUED,
              ch_externalStatus := or_opt (up_externalStatus u) (ch_externalStatus copy),
              ch_issuedAt := Some (e_now e)\<rparr>)) (snd s)))"

definition transitionToFailed :: "env \<Rightarrow> payment_charge \<Rightarrow> charge_update \<Rightarrow> job_state \<Rightarrow> job_state" where
  "transitionToFailed e copy u s =
     ((fst s)\<lparr>jr_transitionedToFailed := jr_transitionedToFailed (fst s) + 1\<rparr>,
      job_event e copy CH_FAILED
        (updateChargeWithOptimisticLock copy
           (\<lambda>r. r\<lparr>ch_status := CH_FAILED,
              ch_failureCode := Some (or_else (up_failureCode u) ''PROVIDER_NOT_PROCESSED''),
              ch_failureMessage :=
                Some (or_else (up_failureMessage u) ''Provider did not process the charge''),
              ch_externalStatus := or_opt (up_externalStatus u) (ch_externalStatus copy)\<rparr>) (snd s)))"

definition transitionToExpired :: "env \<Rightarrow> payment_charge \<Rightarrow> job_state \<Rightarrow> job_state" where
  "transitionToExpired e copy s =
     ((fst s)\<lparr>jr_transitionedToExpired := jr_transitionedToExpired (fst s) + 1\<rparr>,
      job_event e copy CH_EXPIRED
        (updateChargeWithOptimisticLock copy (\<lambda>r. r\<lparr>ch_status := CH_EXPIRED\<rparr>) (snd s)))"

section \<open>Reconciling one charge\<close>

definition transition_target :: "bool \<Rightarrow> bool \<Rightarrow> charge_status \<Rightarrow> charge_status \<Rightarrow> charge_status option" where
  \<comment> \<open>which transition the answer of the provider selects: pending and expired candidate, status of
      the copy, status reported\<close>
  "transition_target pend lapsed previous reported =
     (if reported = CH_PAID then Some CH_PAID
      else if pend \<and> \<not> lapsed then
        (if reported = CH_ISSUED then Some CH_ISSUED
         else if reported = CH_FAILED then Some CH_FAILED
         else None)
      else if lapsed then
        (if reported = CH_ISSUED \<or> reported = previous then Some CH_EXPIRED else None)
      else None)"

definition run_transition ::
  "env \<Rightarrow> payment_charge \<Rightarrow> charge_update \<Rightarrow> charge_status option \<Rightarrow> job_state \<Rightarrow> job_state" where
  "run_transition e copy u t s =
     (case t of
        Some CH_PAID \<Rightarrow> transitionToPaid e copy u s
      | Some CH_ISSUED \<Rightarrow> transitionToIssued e copy u s
      | Some CH_FAILED \<Rightarrow> transitionToFailed e copy u s
      | Some CH_EXPIRED \<Rightarrow> transitionToExpired e copy s
      | _ \<Rightarrow> s)"

definition provider_error :: "job_state \<Rightarrow> job_state" where
  "provider_error s = ((fst s)\<lparr>jr_providerErrors := jr_providerErrors (fst s) + 1\<rparr>, snd s)"

definition reconcileCharge ::
  "env \<Rightarrow> payment_charge \<Rightarrow> bool \<Rightarrow> bool \<Rightarrow> job_state \<Rightarrow> (http_error + unit) \<times> job_state" where
  \<comment> \<open>\<open>Inl\<close> is an exception that leaves the method\<close>
  "reconcileCharge e copy pend lapsed s =
     (case List.find (\<lambda>g. gw_id g = ch_paymentGatewayId copy) (gateways (snd s)) of
        None \<Rightarrow> (Inr (), s)
      | Some g \<Rightarrow>
     (case factory_get (e_adapters e) (gw_providerType g) of
        Inl err \<Rightarrow> (Inl err, s)
      | Inr a \<Rightarrow>
     (case pa_fetchStatus a of
        None \<Rightarrow> (Inr (), s)
      | Some fetch \<Rightarrow>
     (case decryptCredentials (e_decrypt e) (e_parse e) g of
        Inl err \<Rightarrow> (Inl err, s)
      | Inr cfg \<Rightarrow>
     (case fetch copy cfg of
        Inl err \<Rightarrow>
          (if classifyAdapterError err = AE_TIMEOUT \<or> classifyAdapterError err = AE_RATE_LIMIT
           then (Inr (), provider_error s)
           else (Inl (thrown err), s))
      | Inr u \<Rightarrow>
          (Inr (), run_transition e copy u
             (transition_target pend lapsed (ch_status copy) (up_status u)) s))))))"

section \<open>The cycle\<close>

definition isExpiredCandidate :: "payment_charge \<Rightarrow> int \<Rightarrow> bool" where
  "isExpiredCandidate c now \<longleftrightarrow>
     (ch_status c = CH_PENDING \<or> ch_status c = CH_ISSUED) \<and>
     (case ch_expiresAt c of Some t \<Rightarrow> t < now | None \<Rightarrow> ch_dueDate c < now)"

definition pendingCutoff :: "int \<Rightarrow> int" where
  "pendingCutoff now = now - 5 * 60 * 1000"

definition isPendingCandidate :: "payment_charge \<Rightarrow> int \<Rightarrow> bool" where
  "isPendingCandidate c now \<longleftrightarrow> ch_status c = CH_PENDING \<and> ch_createdAt c < pendingCutoff now"

definition pending_batch :: "nat \<Rightarrow> int \<Rightarrow> database \<Rightarrow> payment_charge list" where
  "pending_batch batchSize now d =
     take batchSize (sort_key ch_createdAt (filter (\<lambda>c. isPendingCandidate c now) (charges d)))"

definition expired_batch :: "nat \<Rightarrow> int \<Rightarrow> payment_charge list \<Rightarrow> database \<Rightarrow> payment_charge list" where
  \<comment> \<open>the query's condition on \<open>expiresAt\<close> and \<open>dueDate\<close> is that of \<open>isExpiredCandidate\<close>\<close>
  "expired_batch slots now pend d =
     take slots (sort_key ch_createdAt
       (filter (\<lambda>c. (ch_status c = CH_PENDING \<or> ch_status c = CH_ISSUED) \<and>
                    ((\<exists>t \<in> set_option (ch_expiresAt c). t < now) \<or>
                     (ch_dueDate c < now \<and> ch_expiresAt c = None)) \<and>
                    ch_id c \<notin> set (map ch_id pend)) (charges d)))"

definition dedupe_by_id :: "payment_charge list \<Rightarrow> payment_charge list" where
  \<comment> \<open>\<open>Array.from(new Map(\<dots>).values())\<close>: the first position and the last value of each id\<close>
  "dedupe_by_id cs =
     foldl (\<lambda>acc c. if ch_id c \<in> set (map ch_id acc)
                    then update_where (\<lambda>x. ch_id x = ch_id c) (\<lambda>_. c) acc
                    else acc @ [c]) [] cs"

definition cycle_batch :: "nat \<Rightarrow> int \<Rightarrow> database \<Rightarrow> payment_charge list" where
  "cycle_batch batchSize now d =
     (let pend = pending_batch batchSize now d;
          slots = batchSize - length pend;
          expi = (if slots > 0 then expired_batch slots now pend d else [])
      in dedupe_by_id (pend @ expi))"

definition process_charge :: "env \<Rightarrow> payment_charge \<Rightarrow> job_state \<Rightarrow> job_state" where
  "process_charge e copy s =
     (case reconcileCharge e copy (isPendingCandidate copy (e_now e)) (isExpiredCandidate copy (e_now e)) s of
        (Inl _, s') \<Rightarrow> provider_error s'
      | (Inr _, s') \<Rightarrow>
          ((fst s')\<lparr>jr_processedCount := jr_processedCount (fst s') + 1\<rparr>, snd s'))"

definition execute_cycle :: "env \<Rightarrow> nat \<Rightarrow> database \<Rightarrow> job_state" where
  "execute_cycle e batchSize d = fold (process_charge e) (cycle_batch batchSize (e_now e) d) (empty_result, d)"

definition markOverdueAgreementsAsBreached :: "int \<Rightarrow> database \<Rightarrow> database" where
  "markOverdueAgreementsAsBreached now d =
     d\<lparr>contracts := update_where
         (\<lambda>c. ct_paymentStatus c = PS_IN_AGREEMENT \<and> ct_deletedAt c = None \<and>
              (case ag_dueAt (ct_agreement c) of None \<Rightarrow> False | Some t \<Rightarrow> t < now))
         (\<lambda>c. c\<lparr>ct_paymentStatus := PS_AGREEMENT_BREACHED\<rparr>) (contracts d)\<rparr>"

section \<open>Frames\<close>

lemma lock_frame [row_simps, simp]:
  "contracts (updateChargeWithOptimisticLock c f d) = contracts d"
  "settlements (updateChargeWithOptimisticLock c f d) = settlements d"
  "events (updateChargeWithOptimisticLock c f d) = events d"
  "gateways (updateChargeWithOptimisticLock c f d) = gateways d"
  "nextId (updateChargeWithOptimisticLock c f d) = nextId d"
  "charges (updateChargeWithOptimisticLock c f d) =
     update_where (holds_lock c) (\<lambda>r. (f r)\<lparr>ch_version := ch_version r + 1\<rparr>) (charges d)"
  by (simp_all add: updateChargeWithOptimisticLock_def)

lemma job_event_frame [row_simps, simp]:
  "contracts (job_event e c t d) = contracts d"
  "settlements (job_event e c t d) = settlements d"
  "charges (job_event e c t d) = charges d"
  "gateways (job_event e c t d) = gateways d"
  "nextId (job_event e c t d) = Suc (nextId d)"
  "length (events (job_event e c t d)) = Suc (length (events d))"
  by (simp_all add: job_event_def createPaymentEvent_def)

lemma with_payload_fields [simp]:
  "ch_id (with_payload u r) = ch_id r" "ch_status (with_payload u r) = ch_status r"
  "ch_version (with_payload u r) = ch_version r" "ch_amount (with_payload u r) = ch_amount r"
  "ch_contractId (with_payload u r) = ch_contractId r" "charge_key (with_payload u r) = charge_key r"
  "ch_idempotencyKey (with_payload u r) = ch_idempotencyKey r"
  "ch_paymentGatewayId (with_payload u r) = ch_paymentGatewayId r"
  by (simp_all add: with_payload_def charge_key_def)

text \<open>What one step may do to one row: nothing, or a transition of the row it holds the lock of.\<close>

definition row_step :: "payment_charge \<Rightarrow> payment_charge \<Rightarrow> payment_charge \<Rightarrow> bool" where
  "row_step copy r r' \<longleftrightarrow> r' = r \<or>
     (holds_lock copy r \<and> ch_version r' = ch_version r + 1 \<and>
      ch_status r' \<in> {CH_PAID, CH_ISSUED, CH_FAILED, CH_EXPIRED} \<and>
      ch_id r' = ch_id r \<and> charge_key r' = charge_key r \<and> ch_contractId r' = ch_contractId r \<and>
      ch_amount r' = ch_amount r)"

definition step_frame :: "payment_charge \<Rightarrow> database \<Rightarrow> database \<Rightarrow> bool" where
  "step_frame copy d d' \<longleftrightarrow>
     contracts d' = contracts d \<and> gateways d' = gateways d \<and> nextId d \<le> nextId d' \<and>
     list_all2 (row_step copy) (charges d) (charges d') \<and>
     (settlements d' = settlements d \<or>
      (\<exists>s. settlements d' = settlements d @ [s] \<and> st_paymentChargeId s = Some (ch_id copy) \<and>
           st_amount s = dec2 (ch_amount copy) \<and> st_contractId s = ch_contractId copy \<and>
           (\<forall>x \<in> set (settlements d). st_paymentChargeId x \<noteq> Some (ch_id copy)) \<and>
           (distinct (map settlement_key (settlements d)) \<longrightarrow> distinct (map settlement_key (settlements d')))))"

lemma row_step_refl [simp]: "row_step copy r r"
  by (simp add: row_step_def)

lemma list_all2_row_step_refl [simp]: "list_all2 (row_step copy) xs xs"
  by (simp add: list_all2_refl)

lemma list_all2_update_where:
  "(\<And>r. P r \<Longrightarrow> row_step copy r (f r)) \<Longrightarrow> list_all2 (row_step copy) xs (update_where P f xs)"
  by (induction xs) auto

lemma step_frame_refl [simp]: "step_frame copy d d"
  by (simp add: step_frame_def)

lemma step_frame_lock:
  assumes "\<And>r. ch_status (f r) \<in> {CH_PAID, CH_ISSUED, CH_FAILED, CH_EXPIRED}" and "\<And>r. ch_id (f r) = ch_id r"
    and "\<And>r. charge_key (f r) = charge_key r" and "\<And>r. ch_contractId (f r) = ch_contractId r"
    and "\<And>r. ch_amount (f r) = ch_amount r"
  shows "step_frame copy d (job_event e copy t (updateChargeWithOptimisticLock copy f d))"
  using assms by (auto simp: step_frame_def row_step_def charge_key_def intro!: list_all2_update_where)

lemma step_frame_settle:
  assumes "step_frame copy d d1" and "settlements d1 = settlements d"
  shows "step_frame copy d (createSettlementForCharge e copy t acc d1)"
  using assms createSettlementForCharge_cases [of e copy t acc d1] nextId_createSettlement [of d1 e copy t acc]
    charge_settlements.keeps_unique [of d1 e "(copy, t, acc)"]
  by (auto simp: step_frame_def)

lemma charge_key_updates [simp]:
  "charge_key (r\<lparr>ch_status := a\<rparr>) = charge_key r"
  "charge_key (r\<lparr>ch_externalStatus := b\<rparr>) = charge_key r"
  "charge_key (r\<lparr>ch_paidAt := c\<rparr>) = charge_key r"
  "charge_key (r\<lparr>ch_issuedAt := c\<rparr>) = charge_key r"
  "charge_key (r\<lparr>ch_failureCode := b\<rparr>) = charge_key r"
  "charge_key (r\<lparr>ch_failureMessage := b\<rparr>) = charge_key r"
  "charge_key (r\<lparr>ch_version := n\<rparr>) = charge_key r"
  by (simp_all add: charge_key_def)

lemma step_frame_transitions:
  "step_frame copy (snd s) (snd (transitionToPaid e copy u s))"
  "step_frame copy (snd s) (snd (transitionToIssued e copy u s))"
  "step_frame copy (snd s) (snd (transitionToFailed e copy u s))"
  "step_frame copy (snd s) (snd (transitionToExpired e copy s))"
  by (auto simp: transitionToPaid_def transitionToIssued_def transitionToFailed_def transitionToExpired_def Let_def
      job_createSettlement_def intro!: step_frame_lock step_frame_settle)

lemma step_frame_run: "step_frame copy (snd s) (snd (run_transition e copy u t s))"
  by (auto simp: run_transition_def step_frame_transitions split: option.split charge_status.split)

lemma step_frame_reconcile: "step_frame copy (snd s) (snd (snd (reconcileCharge e copy p x s)))"
  by (auto simp: reconcileCharge_def provider_error_def step_frame_run split: option.split sum.split)

lemma step_frame_process: "step_frame copy (snd s) (snd (process_charge e copy s))"
  using step_frame_reconcile [of copy s e "isPendingCandidate copy (e_now e)" "isExpiredCandidate copy (e_now e)"]
  by (auto simp: process_charge_def provider_error_def split: prod.split sum.split)

text \<open>
  One reconciliation step of the job writes at most the row whose id and version are those of the
  copy it read, and then raises the version by one and sets one of the statuses \<open>PAID\<close>,
  \<open>ISSUED\<close>, \<open>FAILED\<close>, \<open>EXPIRED\<close>; the key, contract and amount of every charge stay, no contract is
  written, and at most one settlement, for the amount of the charge, is appended, when the charge
  has none.
\<close>

theorem process_charge_frame:
  "step_frame copy (snd s) (snd (process_charge e copy s))"
  by (rule step_frame_process)

section \<open>Stale copies\<close>

lemma update_where_no_lock:
  "(\<And>r. r \<in> set xs \<Longrightarrow> \<not> holds_lock copy r) \<Longrightarrow> update_where (holds_lock copy) f xs = xs"
  by (rule update_where_none)

lemma row_step_no_lock:
  assumes "list_all2 (row_step copy) xs ys" and "\<And>r. r \<in> set xs \<Longrightarrow> \<not> holds_lock copy r"
  shows "ys = xs"
  using assms by (induction rule: list_all2_induct) (auto simp: row_step_def)

text \<open>
  The lock protects the charge but nothing else: when another process has raised the version
  since the copy was read, confirming the payment of the copy writes no charge, and yet records the
  transition as an event, counts it, and leaves a settlement for the charge.
\<close>

theorem conflict_still_settles:
  assumes "\<And>r. r \<in> set (charges d) \<Longrightarrow> \<not> holds_lock copy r"
    and "\<And>x. x \<in> set (settlements d) \<Longrightarrow> settlement_key x \<noteq> (SRC_PIX, agreement_of_charge copy)"
  shows "let (res', d') = transitionToPaid e copy u (res, d)
    in charges d' = charges d \<and> length (events d') = Suc (length (events d)) \<and>
       jr_transitionedToPaid res' = Suc (jr_transitionedToPaid res) \<and>
       (\<exists>s \<in> set (settlements d'). st_paymentChargeId s = Some (ch_id copy))"
proof -
  let ?p = "or_else (up_paidAt u) (e_now e)"
  obtain d2 where d2: "transitionToPaid e copy u (res, d) =
      (res\<lparr>jr_transitionedToPaid := jr_transitionedToPaid res + 1\<rparr>, job_createSettlement e copy ?p d2)"
    "charges d2 = charges d" "length (events d2) = Suc (length (events d))" "settlements d2 = settlements d"
    using assms(1) by (auto simp: transitionToPaid_def Let_def update_where_no_lock)
  have "\<exists>s \<in> set (settlements (job_createSettlement e copy ?p d2)). st_paymentChargeId s = Some (ch_id copy)"
  proof (cases "\<exists>x \<in> set (settlements d2). st_paymentChargeId x = Some (ch_id copy)")
    case True
    then show ?thesis
      using charge_settlements.keeps_settlement [of _ d2 e "(copy, ?p, ch_accountId copy)"]
      by (auto simp: job_createSettlement_def)
  next
    case False
    then have "List.find (\<lambda>s. st_paymentChargeId s = Some (ch_id copy)) (settlements d2) = None"
      by (auto simp: find_None_iff)
    moreover have "(SRC_PIX, agreement_of_charge copy) \<notin> settlement_key ` set (settlements d2)"
      using assms(2) d2(4) by force
    ultimately show ?thesis
      by (simp add: job_createSettlement_def createSettlementForCharge_def create_settlement_def
          settlement_key_def Let_def)
  qed
  then show ?thesis
    using d2 by (simp add: job_createSettlement_def)
qed

lemma conflict_still_settles_witness:
  "jr_transitionedToPaid (fst (transitionToPaid sample_ok ((sample_charge CH_ISSUED)\<lparr>ch_version := 0\<rparr>)
      (mapCobStatus JNull) (empty_result, sample_paid_db CH_ISSUED))) = 1"
proof -
  have "\<not> holds_lock ((sample_charge CH_ISSUED)\<lparr>ch_version := 0\<rparr>) r"
    if "r \<in> set (charges (sample_paid_db CH_ISSUED))" for r
    using that by (simp add: sample_paid_db_def holds_lock_def sample_charge_def blank_charge_def)
  moreover have "settlements (sample_paid_db CH_ISSUED) = []"
    by (simp add: sample_paid_db_def sample_db_def)
  ultimately show ?thesis
    using conflict_still_settles [of "sample_paid_db CH_ISSUED" "(sample_charge CH_ISSUED)\<lparr>ch_version := 0\<rparr>"
        sample_ok "mapCobStatus JNull" empty_result]
    by (auto simp: Let_def split_beta empty_result_def)
qed

section \<open>What the job decides\<close>

text \<open>
  The decision in the terms of the file's documentation: a reported payment always wins over
  expiration; a pending charge follows the provider; an expired one lapses unless the provider
  cancelled it; anything else is left alone.
\<close>

lemma transition_target_paid: "transition_target p x prev CH_PAID = Some CH_PAID"
  by (simp add: transition_target_def)

lemma transition_target_cases:
  "transition_target p x prev rep = Some CH_PAID \<longleftrightarrow> rep = CH_PAID"
  "transition_target p x prev rep = Some CH_EXPIRED \<longleftrightarrow>
     x \<and> rep \<noteq> CH_PAID \<and> (rep = CH_ISSUED \<or> rep = prev)"
  "transition_target p x prev rep = Some CH_FAILED \<longleftrightarrow> p \<and> \<not> x \<and> rep = CH_FAILED"
  by (auto simp: transition_target_def)

lemma failed_count_transitions [simp]:
  "jr_transitionedToFailed (fst (transitionToPaid e c u s)) = jr_transitionedToFailed (fst s)"
  "jr_transitionedToFailed (fst (transitionToIssued e c u s)) = jr_transitionedToFailed (fst s)"
  "jr_transitionedToFailed (fst (transitionToExpired e c s)) = jr_transitionedToFailed (fst s)"
  "jr_transitionedToFailed (fst (provider_error s)) = jr_transitionedToFailed (fst s)"
  by (simp_all add: transitionToPaid_def transitionToIssued_def transitionToExpired_def provider_error_def Let_def)

lemma bb_factory: "factory_get [bb_adapter http] t = Inr (bb_adapter http)"
  by (cases t) (simp add: factory_get_def bb_adapter_def)

lemma bb_adapter_fetch: "pa_fetchStatus (bb_adapter http) = Some (bb_fetchStatus http)"
  by (simp add: bb_adapter_def)

lemma failed_count_process:
  assumes "e_adapters e = [bb_adapter http]"
  shows "jr_transitionedToFailed (fst (process_charge e c s)) = jr_transitionedToFailed (fst s)"
proof -
  have "jr_transitionedToFailed (fst (run_transition e c u (transition_target p x (ch_status c) (up_status u)) s))
      = jr_transitionedToFailed (fst s)" if "bb_fetchStatus http c cfg = Inr u" for u cfg p x
    using bb.never_failed [OF that]
    by (auto simp: run_transition_def transition_target_cases(3) split: option.split charge_status.split)
  then have "jr_transitionedToFailed (fst (snd (reconcileCharge e c p x s))) = jr_transitionedToFailed (fst s)" for p x
    using assms by (auto simp: reconcileCharge_def bb_factory bb_adapter_fetch split: option.split sum.split)
  then show ?thesis
    by (auto simp: process_charge_def split: prod.split sum.split) (metis fst_conv snd_conv failed_count_transitions(4))+
qed

text \<open>
  With the registered provider the job never fails a charge: whatever Banco do Brasil answers, a
  whole cycle counts no transition to \<open>FAILED\<close>, so a charge the provider does not know stays as it
  is or expires.
\<close>

theorem cycle_never_fails_charges:
  assumes "e_adapters e = [bb_adapter http]"
  shows "jr_transitionedToFailed (fst (execute_cycle e batchSize d)) = 0"
proof -
  have "jr_transitionedToFailed (fst (fold (process_charge e) cs s)) = jr_transitionedToFailed (fst s)" for cs s
    by (induction cs arbitrary: s) (simp_all add: failed_count_process [OF assms])
  then show ?thesis by (simp add: execute_cycle_def empty_result_def)
qed

lemma cycle_never_fails_charges_witness:
  "jr_transitionedToFailed (fst (execute_cycle sample_ok 50 (sample_paid_db CH_PENDING))) = 0"
  by (rule cycle_never_fails_charges [of sample_ok "sample_http ''ATIVA''"]) (simp add: sample_env_def)

section \<open>The batch\<close>

lemma isExpiredCandidate_query:
  "(ch_status c = CH_PENDING \<or> ch_status c = CH_ISSUED) \<and>
   ((\<exists>t \<in> set_option (ch_expiresAt c). t < now) \<or> (ch_dueDate c < now \<and> ch_expiresAt c = None))
   \<longleftrightarrow> isExpiredCandidate c now"
  by (cases "ch_expiresAt c") (auto simp: isExpiredCandidate_def)

lemma set_take_sorted: "x \<in> set (take n (sort_key f xs)) \<Longrightarrow> x \<in> set xs"
  by (drule in_set_takeD) simp

lemma pending_batch_sub:
  "c \<in> set (pending_batch n now d) \<Longrightarrow> c \<in> set (charges d) \<and> isPendingCandidate c now"
  unfolding pending_batch_def by (drule set_take_sorted) simp

lemma expired_batch_sub:
  "c \<in> set (expired_batch n now p d) \<Longrightarrow>
     c \<in> set (charges d) \<and> isExpiredCandidate c now \<and> ch_id c \<notin> set (map ch_id p)"
  unfolding expired_batch_def by (drule set_take_sorted) (simp add: isExpiredCandidate_query [symmetric] conj_assoc)

lemma batches_disjoint: "set (map ch_id p) \<inter> set (map ch_id (expired_batch n now p d)) = {}"
  by (auto dest!: expired_batch_sub) (metis imageI)

lemma distinct_map_take_sort:
  "distinct (map f xs) \<Longrightarrow> distinct (map f (take n (sort_key g (filter P xs))))"
proof -
  assume "distinct (map f xs)"
  then have "distinct (map f (filter P xs))" by (rule distinct_map_filter)
  then have "distinct (map f (sort_key g (filter P xs)))"
    by (simp add: distinct_map)
  then show ?thesis
    by (metis distinct_take take_map)
qed

lemma dedupe_distinct: "distinct (map ch_id cs) \<Longrightarrow> dedupe_by_id cs = cs"
proof (induction cs rule: rev_induct)
  case (snoc c cs)
  then show ?case by (simp add: dedupe_by_id_def)
qed (simp add: dedupe_by_id_def)

definition candidate :: "int \<Rightarrow> payment_charge \<Rightarrow> bool" where
  "candidate now c \<longleftrightarrow> isPendingCandidate c now \<or> isExpiredCandidate c now"

lemma cycle_batch_unfold:
  assumes "distinct (map ch_id (charges d))"
  shows "cycle_batch n now d = pending_batch n now d @
      (if n - length (pending_batch n now d) > 0
       then expired_batch (n - length (pending_batch n now d)) now (pending_batch n now d) d else [])"
proof -
  let ?p = "pending_batch n now d" and ?x = "expired_batch (n - length (pending_batch n now d)) now (pending_batch n now d) d"
  have "distinct (map ch_id ?p)" "distinct (map ch_id ?x)"
    using assms by (simp_all only: pending_batch_def expired_batch_def distinct_map_take_sort)
  moreover have "set (map ch_id ?p) \<inter> set (map ch_id ?x) = {}"
    using batches_disjoint .
  ultimately show ?thesis
    unfolding cycle_batch_def Let_def by (intro dedupe_distinct) auto
qed

text \<open>
  A cycle works on at most \<open>BATCH_SIZE\<close> charges, no charge twice, and only on charges that are
  pending for longer than the grace period or whose term has passed while pending or issued; every
  such charge is taken as long as the batch is not full.
\<close>

theorem cycle_batch_spec:
  assumes "distinct (map ch_id (charges d))"
  shows "length (cycle_batch n now d) \<le> n \<and> distinct (map ch_id (cycle_batch n now d)) \<and>
    (\<forall>c \<in> set (cycle_batch n now d). c \<in> set (charges d) \<and> candidate now c) \<and>
    (length (cycle_batch n now d) < n \<longrightarrow>
       (\<forall>c \<in> set (charges d). candidate now c \<longrightarrow> c \<in> set (cycle_batch n now d)))"
proof -
  let ?p = "pending_batch n now d" and ?x = "expired_batch (n - length (pending_batch n now d)) now (pending_batch n now d) d"
  have d: "distinct (map ch_id ?p)" "distinct (map ch_id ?x)"
    using assms by (simp_all only: pending_batch_def expired_batch_def distinct_map_take_sort)
  have l: "length ?p \<le> n" "length ?x \<le> n - length ?p"
    by (simp_all add: pending_batch_def expired_batch_def)
  have full: "c \<in> set (cycle_batch n now d)"
    if "length (cycle_batch n now d) < n" "c \<in> set (charges d)" "candidate now c" for c
  proof -
    have np: "length ?p < n" using that(1) by (auto simp: cycle_batch_unfold [OF assms] split: if_splits)
    then have p: "?p = sort_key ch_createdAt (filter (\<lambda>c. isPendingCandidate c now) (charges d))"
      by (simp add: pending_batch_def min_def split: if_splits)
    have "length ?x < n - length ?p"
      using that(1) np by (simp add: cycle_batch_unfold [OF assms])
    then have x: "?x = sort_key ch_createdAt (filter (\<lambda>c. (ch_status c = CH_PENDING \<or> ch_status c = CH_ISSUED) \<and>
        ((\<exists>t \<in> set_option (ch_expiresAt c). t < now) \<or> (ch_dueDate c < now \<and> ch_expiresAt c = None)) \<and>
        ch_id c \<notin> set (map ch_id ?p)) (charges d))"
      by (simp add: expired_batch_def min_def split: if_splits)
    show ?thesis
    proof (cases "c \<in> set ?p")
      case True
      then show ?thesis by (simp add: cycle_batch_unfold [OF assms])
    next
      case False
      then have "\<not> isPendingCandidate c now"
        using that(2) by (subst (asm) p) simp
      then have exp: "isExpiredCandidate c now" using that(3) by (simp add: candidate_def)
      have "ch_id c \<notin> set (map ch_id ?p)"
        using False that(2) assms pending_batch_sub [of _ n now d] by (auto simp: distinct_map inj_on_def)
      then have "c \<in> set ?x"
        using exp that(2) by (subst x) (simp add: isExpiredCandidate_query [symmetric])
      then show ?thesis using np by (simp add: cycle_batch_unfold [OF assms])
    qed
  qed
  have "set (map ch_id ?p) \<inter> set (map ch_id ?x) = {}"
    using batches_disjoint .
  then show ?thesis
    using d l full pending_batch_sub expired_batch_sub
    by (auto simp: cycle_batch_unfold [OF assms] candidate_def)
qed
lemma cycle_batch_spec_witness:
  "length (cycle_batch 50 1000000 (sample_paid_db CH_PENDING)) \<le> 50"
  using cycle_batch_spec [of "sample_paid_db CH_PENDING" 50 1000000] by (simp add: sample_paid_db_def)

section \<open>The whole cycle\<close>

definition same_or_in :: "string set \<Rightarrow> payment_charge \<Rightarrow> payment_charge \<Rightarrow> bool" where
  "same_or_in ids r r' \<longleftrightarrow> ch_id r' = ch_id r \<and> charge_key r' = charge_key r \<and> (r' = r \<or> ch_id r \<in> ids)"

lemma row_step_same_or_in: "row_step c r r' \<Longrightarrow> ch_id c \<in> ids \<Longrightarrow> same_or_in ids r r'"
  by (auto simp: row_step_def same_or_in_def holds_lock_def)

lemma same_or_in_trans: "same_or_in ids r r' \<Longrightarrow> same_or_in ids r' r'' \<Longrightarrow> same_or_in ids r r''"
  by (auto simp: same_or_in_def)

lemma same_or_in_list_trans:
  "list_all2 (same_or_in ids) xs ys \<Longrightarrow> list_all2 (same_or_in ids) ys zs \<Longrightarrow> list_all2 (same_or_in ids) xs zs"
  by (rule list_all2_trans) (rule same_or_in_trans)

lemma fold_process_frame:
  assumes "set (map ch_id cs) \<subseteq> ids"
  shows "list_all2 (same_or_in ids) (charges (snd s)) (charges (snd (fold (process_charge e) cs s))) \<and>
    contracts (snd (fold (process_charge e) cs s)) = contracts (snd s)"
  using assms
proof (induction cs arbitrary: s)
  case Nil
  then show ?case by (simp add: list_all2_refl same_or_in_def)
next
  case (Cons c cs)
  have a: "list_all2 (same_or_in ids) (charges (snd s)) (charges (snd (process_charge e c s)))"
    using step_frame_process [of c s e] Cons.prems
    by (auto simp: step_frame_def intro: list_all2_mono row_step_same_or_in)
  have "set (map ch_id cs) \<subseteq> ids" using Cons.prems by simp
  note b = Cons.IH [OF this, of "process_charge e c s"]
  have "list_all2 (same_or_in ids) (charges (snd s)) (charges (snd (fold (process_charge e) (c # cs) s)))"
    using same_or_in_list_trans [OF a] b by simp
  moreover have "contracts (snd (process_charge e c s)) = contracts (snd s)"
    using step_frame_process [of c s e] by (simp add: step_frame_def)
  ultimately show ?case using b by simp
qed

text \<open>
  C10. A cycle never touches a charge that is settled one way or the other: paid, cancelled, expired and
  failed charges are the same after it, and no contract changes.
\<close>

theorem execute_cycle_keeps_closed:
  assumes "distinct (map ch_id (charges d))"
  shows "list_all2 (\<lambda>r r'. ch_id r' = ch_id r \<and> (ch_status r \<in> {CH_PENDING, CH_ISSUED} \<or> r' = r))
      (charges d) (charges (snd (execute_cycle e n d))) \<and>
    contracts (snd (execute_cycle e n d)) = contracts d"
proof -
  let ?cs = "cycle_batch n (e_now e) d"
  have b: "\<forall>c \<in> set ?cs. c \<in> set (charges d) \<and> ch_status c \<in> {CH_PENDING, CH_ISSUED}"
    using cycle_batch_unfold [OF assms, of n "e_now e"] pending_batch_sub [of _ n "e_now e" d]
      expired_batch_sub [of _ "n - length (pending_batch n (e_now e) d)" "e_now e" "pending_batch n (e_now e) d" d]
    by (auto simp: isPendingCandidate_def isExpiredCandidate_def split: if_splits)
  have open_row: "ch_status r \<in> {CH_PENDING, CH_ISSUED}"
    if "r \<in> set (charges d)" "ch_id r \<in> set (map ch_id ?cs)" for r
    using that b assms by (auto simp: distinct_map inj_on_def)
  have f: "list_all2 (same_or_in (set (map ch_id ?cs))) (charges d) (charges (snd (execute_cycle e n d)))"
    "contracts (snd (execute_cycle e n d)) = contracts d"
    using fold_process_frame [OF subset_refl, of ?cs "(empty_result, d)" e] by (simp_all add: execute_cycle_def)
  have "list_all2 (\<lambda>r r'. ch_id r' = ch_id r \<and> (ch_status r \<in> {CH_PENDING, CH_ISSUED} \<or> r' = r))
      (charges d) (charges (snd (execute_cycle e n d)))"
    unfolding list_all2_conv_all_nth
  proof (intro conjI allI impI)
    show "length (charges d) = length (charges (snd (execute_cycle e n d)))"
      using f(1) by (rule list_all2_lengthD)
    fix i assume i: "i < length (charges d)"
    have "same_or_in (set (map ch_id ?cs)) (charges d ! i) (charges (snd (execute_cycle e n d)) ! i)"
      using f(1) i by (rule list_all2_nthD)
    then show "ch_id (charges (snd (execute_cycle e n d)) ! i) = ch_id (charges d ! i)"
      and "ch_status (charges d ! i) \<in> {CH_PENDING, CH_ISSUED} \<or>
        charges (snd (execute_cycle e n d)) ! i = charges d ! i"
      using open_row [of "charges d ! i"] i by (auto simp: same_or_in_def)
  qed
  then show ?thesis using f(2) by blast
qed

lemma execute_cycle_keeps_closed_witness:
  "contracts (snd (execute_cycle sample_ok 50 (sample_paid_db CH_PAID))) = contracts (sample_paid_db CH_PAID)"
  using execute_cycle_keeps_closed [of "sample_paid_db CH_PAID" sample_ok 50] by (simp add: sample_paid_db_def)

lemma payments_ok_step_frame:
  assumes "step_frame copy d d'" and "payments_ok gen d"
  shows "payments_ok gen d'"
proof -
  have l: "list_all2 (row_step copy) (charges d) (charges d')"
    using assms(1) by (simp add: step_frame_def)
  have "map charge_key (charges d') = map charge_key (charges d) \<and> map ch_id (charges d') = map ch_id (charges d)"
    using l by (induction rule: list_all2_induct) (auto simp: row_step_def)
  moreover have "distinct (map settlement_key (settlements d'))"
    using assms by (auto simp: step_frame_def payments_ok_def unique_keys_def)
  moreover have "gen ` {..<nextId d} \<subseteq> gen ` {..<nextId d'}"
    using assms(1) by (intro image_mono) (auto simp: step_frame_def)
  ultimately show ?thesis
    using assms(2) unfolding payments_ok_def unique_keys_def fresh_ids_def by (simp only:) blast
qed

section \<open>Breached agreements\<close>

text \<open>
  The agreement job breaches exactly the live agreements whose deadline has passed, changes only
  their payment status, and running it again at the same instant changes nothing.
\<close>

theorem markOverdueAgreements_spec:
  "map (\<lambda>c. c\<lparr>ct_paymentStatus := PS_OPEN\<rparr>) (contracts (markOverdueAgreementsAsBreached now d)) =
     map (\<lambda>c. c\<lparr>ct_paymentStatus := PS_OPEN\<rparr>) (contracts d) \<and>
   map ct_paymentStatus (contracts (markOverdueAgreementsAsBreached now d)) =
     map (\<lambda>c. if ct_paymentStatus c = PS_IN_AGREEMENT \<and> ct_deletedAt c = None \<and>
                 (\<exists>t \<in> set_option (ag_dueAt (ct_agreement c)). t < now)
              then PS_AGREEMENT_BREACHED else ct_paymentStatus c) (contracts d) \<and>
   markOverdueAgreementsAsBreached now (markOverdueAgreementsAsBreached now d) =
     markOverdueAgreementsAsBreached now d"
proof -
  have "update_where P f (update_where P f xs) = update_where P f xs" if "\<And>x. \<not> P (f x)"
    for P :: "contract \<Rightarrow> bool" and f xs
    using that by (induction xs) auto
  then show ?thesis
    by (auto simp: markOverdueAgreementsAsBreached_def update_where_def split: option.split)
qed

end
