(* ===== verification/PixWebhook.thy ===== *)
theory PixWebhook
  imports Lifecycle Operations
begin

text \<open>
  The bank's payment confirmations: \<open>payments/webhooks/bb-pix-webhook.service.ts\<close> and the guard of
  its route, \<open>payments/webhooks/bb-webhook-auth.guard.ts\<close>.

  A handler reads the charge and later updates it on condition that the version is the one read.
  What other processes commit in between is the parameter \<open>other\<close>, an arbitrary function on the
  database. The fields \<open>horario\<close> and \<open>valor\<close> are kept as read: \<open>None\<close> is an invalid date, which
  the database client rejects, and an amount that is not a decimal is rejected likewise. The
  removal of a paid debt from Serasa is asked of the operations service, whose contract is the
  locale \<open>removal_service\<close>.
\<close>

record pix_entry =
  pe_endToEndId :: string
  pe_txid :: string
  pe_valor :: string
  pe_horario :: "int option"

section \<open>The operations service seen from the webhook\<close>

definition serasa_only :: "contract list \<Rightarrow> contract list \<Rightarrow> bool" where
  \<comment> \<open>the contracts are the same up to their Serasa status\<close>
  "serasa_only cs cs' \<longleftrightarrow>
     list_all2 (\<lambda>c c'. c' = c\<lparr>ct_serasaStatus := ct_serasaStatus c'\<rparr>) cs cs'"

lemma serasa_only_refl [simp, intro]: "serasa_only cs cs"
  by (auto simp: serasa_only_def intro: list_all2_refl)

lemma serasa_only_update: "serasa_only cs (update_where P (\<lambda>c. c\<lparr>ct_serasaStatus := st\<rparr>) cs)"
  by (auto simp: serasa_only_def update_where_def list_all2_conv_all_nth)

lemma serasa_only_map:
  assumes "serasa_only cs cs'" and "\<And>c st. f (c\<lparr>ct_serasaStatus := st\<rparr>) = f c"
  shows "map f cs' = map f cs"
  using assms(1) unfolding serasa_only_def
proof (induction rule: list_all2_induct)
  case (Cons c cs c' cs')
  then show ?case
    using assms(2) [where c = c and st = "ct_serasaStatus c'"] by simp
qed simp

locale removal_service =
  fixes remove :: "string \<Rightarrow> string \<Rightarrow> database \<Rightarrow> (database, unit) outcome"
  assumes remove_frame: "pay_frame d (snd (remove i acc d))"
    and remove_contracts: "serasa_only (contracts d) (contracts (snd (remove i acc d)))"
    and remove_interactions: "interactions (snd (remove i acc d)) = interactions d"

section \<open>The handler\<close>

definition findExistingSettlement :: "string \<Rightarrow> database \<Rightarrow> payment_settlement option" where
  "findExistingSettlement endToEndId d =
     List.find (\<lambda>s. st_source s = SRC_PIX \<and> st_externalPaymentId s = endToEndId) (settlements d)"

definition find_by_txid :: "string \<Rightarrow> database \<Rightarrow> payment_charge option" where
  "find_by_txid txid d = List.find (\<lambda>c. ch_txid c = Some txid) (charges d)"

definition webhook_interaction ::
  "(nat \<Rightarrow> string) \<Rightarrow> payment_charge \<Rightarrow> string \<Rightarrow> int option \<Rightarrow> database \<Rightarrow> (database, unit) outcome" where
  \<comment> \<open>the \<open>recordPixPaidInteraction\<close> of the webhook; \<open>toISOString\<close> throws on an invalid date\<close>
  "webhook_interaction gen ch endToEndId paidAt d =
     (let externalId = ''PIX_PAID:'' @ endToEndId
      in if has_interaction (ch_contractId ch) externalId d then (Inr (), d)
         else case List.find (\<lambda>c. ct_id c = ch_contractId ch) (contracts d) of
                None \<Rightarrow> (Inr (), d)
              | Some ct \<Rightarrow>
                  (case paidAt of
                     None \<Rightarrow> (Inl (Internal ''Invalid time value''), d)
                   | Some t \<Rightarrow>
                       (Inr (), create_interaction gen
                         \<lparr>ia_id = '''', ia_contractId = ch_contractId ch, ia_accountId = ct_accountId ct,
                          ia_walletId = ct_walletId ct, ia_channel = ''PAYMENT'', ia_status = IA_COMPLETED,
                          ia_provider = Some ''BANCO_DO_BRASIL'', ia_externalId = Some externalId,
                          ia_payload = JObj [(''paymentChargeId'', JStr (ch_id ch)),
                                             (''txid'', jopt JStr (ch_txid ch)),
                                             (''endToEndId'', JStr endToEndId),
                                             (''paidAt'', JNum (of_int t)),
                                             (''source'', JStr ''WEBHOOK''),
                                             (''eventType'', JStr ''PIX_PAID'')],
                          ia_occurredAt = t\<rparr> d)))"

definition latest_paid_charge :: "string \<Rightarrow> database \<Rightarrow> payment_charge option" where
  \<comment> \<open>\<open>orderBy: { paidAt: 'desc' }\<close>, where the database puts rows without a date first\<close>
  "latest_paid_charge contractId d =
     (let paid = (\<lambda>c. ch_contractId c = contractId \<and> ch_status c = CH_PAID)
      in or_opt (List.find (\<lambda>c. paid c \<and> ch_paidAt c = None) (charges d))
           (first_desc (\<lambda>c. or_else (ch_paidAt c) 0) paid (charges d)))"

definition payment_target :: "string \<Rightarrow> contract \<Rightarrow> database \<Rightarrow> rat" where
  "payment_target contractId ct d =
     or_else (map_option ch_amount (latest_paid_charge contractId d)) (ct_updatedValue ct)"

definition projected :: "string \<Rightarrow> contract \<Rightarrow> database \<Rightarrow> contract \<Rightarrow> contract" where
  \<comment> \<open>the \<open>data\<close> of the update; \<open>ct\<close> is the row that was read\<close>
  "projected contractId ct d c =
     (let totalPaid = confirmed_total contractId (settlements d);
          c1 = c\<lparr>ct_totalPaidAmount := totalPaid,
                 ct_lastPaymentAt := or_opt (last_confirmed contractId (settlements d)) (ct_lastPaymentAt ct)\<rparr>;
          c2 = (case latest_paid_charge contractId d of
                  None \<Rightarrow> c1
                | Some ch \<Rightarrow> c1\<lparr>ct_agreedPaymentAmount := Some (ch_amount ch),
                                ct_acceptedDiscountPercent := Some (ch_discountPercent ch)\<rparr>)
      in if payment_target contractId ct d \<le> totalPaid then c2\<lparr>ct_paymentStatus := PS_PAID\<rparr> else c2)"

definition refresh_with ::
  "(string \<Rightarrow> string \<Rightarrow> database \<Rightarrow> (database, unit) outcome) \<Rightarrow> string \<Rightarrow> database \<Rightarrow> (database, unit) outcome" where
  \<comment> \<open>\<open>refreshContractPaymentProjection\<close> over the operations service\<close>
  "refresh_with remove contractId d =
     (case List.find (\<lambda>c. ct_id c = contractId) (contracts d) of
        None \<Rightarrow> (Inr (), d)
      | Some ct \<Rightarrow>
          let d1 = update_contract contractId (projected contractId ct d) d
          in if payment_target contractId ct d \<le> confirmed_total contractId (settlements d)
             then remove contractId (ct_accountId ct) d1
             else (Inr (), d1))"

definition refreshContractPaymentProjection ::
  "(nat \<Rightarrow> string) \<Rightarrow> int \<Rightarrow> string \<Rightarrow> database \<Rightarrow> (database, unit) outcome" where
  "refreshContractPaymentProjection gen now =
     refresh_with (createAutomaticRemovalForPaidContract gen now)"

definition then_do :: "(database, unit) outcome \<Rightarrow> (database \<Rightarrow> (database, unit) outcome) \<Rightarrow> (database, unit) outcome" where
  \<comment> \<open>\<open>await a; await b\<close>: an exception of the first leaves the second undone\<close>
  "then_do r k = (case r of (Inl err, d) \<Rightarrow> (Inl err, d) | (Inr _, d) \<Rightarrow> k d)"

definition webhook_settlement :: "payment_charge \<Rightarrow> string \<Rightarrow> rat \<Rightarrow> int \<Rightarrow> payment_settlement" where
  "webhook_settlement ch endToEndId amount paidAt =
     \<lparr>st_id = '''', st_accountId = ch_accountId ch, st_contractId = ch_contractId ch,
      st_paymentChargeId = Some (ch_id ch), st_agreementReference = None, st_installmentNumber = None,
      st_source = SRC_PIX, st_status = ST_CONFIRMED, st_amount = amount, st_paidAt = paidAt,
      st_externalPaymentId = endToEndId, st_channelEventId = None, st_debtReference = None,
      st_metadata = JNull, st_providerPayload = JNull\<rparr>"

definition ensureSettlement ::
  "(nat \<Rightarrow> string) \<Rightarrow> int \<Rightarrow> payment_charge \<Rightarrow> pix_entry \<Rightarrow> database \<Rightarrow> (database, unit) outcome" where
  "ensureSettlement gen now ch en d =
     (let finish = (\<lambda>d1. then_do (refreshContractPaymentProjection gen now (ch_contractId ch) d1)
                      (webhook_interaction gen ch (pe_endToEndId en) (pe_horario en)))
      in case findExistingSettlement (pe_endToEndId en) d of
           Some _ \<Rightarrow> finish d
         | None \<Rightarrow>
             (case (number_string (pe_valor en), pe_horario en) of
                (Some amount, Some t) \<Rightarrow>
                  (case create_settlement gen (webhook_settlement ch (pe_endToEndId en) amount t) d of
                     None \<Rightarrow> refreshContractPaymentProjection gen now (ch_contractId ch) d
                   | Some (_, d1) \<Rightarrow> finish d1)
              | _ \<Rightarrow> (Inl (Internal ''Invalid value for argument''), d)))"

definition mark_paid :: "payment_charge \<Rightarrow> int \<Rightarrow> database \<Rightarrow> database" where
  "mark_paid ch t d =
     d\<lparr>charges := update_where (holds_lock ch)
         (\<lambda>r. r\<lparr>ch_status := CH_PAID, ch_paidAt := Some t, ch_externalStatus := Some ''CONCLUIDA'',
                ch_version := ch_version r + 1\<rparr>) (charges d)\<rparr>"

definition webhook_event_row :: "(nat \<Rightarrow> string) \<Rightarrow> payment_charge \<Rightarrow> database \<Rightarrow> database" where
  "webhook_event_row gen ch d =
     create_event gen
       \<lparr>ev_id = '''', ev_paymentChargeId = ch_id ch, ev_fromStatus = Some (ch_status ch),
        ev_toStatus = CH_PAID, ev_source = EV_WEBHOOK, ev_metadata = JNull\<rparr> d"

definition processPixEntry ::
  "(nat \<Rightarrow> string) \<Rightarrow> int \<Rightarrow> (database \<Rightarrow> database) \<Rightarrow> pix_entry \<Rightarrow> database \<Rightarrow> (database, unit) outcome" where
  "processPixEntry gen now other en d =
     (if pe_txid en = '''' \<or> pe_endToEndId en = '''' then (Inr (), d)
      else if findExistingSettlement (pe_endToEndId en) d \<noteq> None then
        (case find_by_txid (pe_txid en) d of
           None \<Rightarrow> (Inr (), d)
         | Some ch \<Rightarrow> webhook_interaction gen ch (pe_endToEndId en) (pe_horario en) d)
      else case find_by_txid (pe_txid en) d of
        None \<Rightarrow> (Inr (), d)
      | Some ch \<Rightarrow>
          if ch_status ch = CH_PAID then ensureSettlement gen now ch en d
          else
            (case pe_horario en of
               None \<Rightarrow> (Inl (Internal ''Invalid value for argument''), other d)
             | Some t \<Rightarrow>
                 let d0 = other d
                 in if count_where (holds_lock ch) (charges d0) = 0 then
                      (case List.find (\<lambda>c. ch_id c = ch_id ch) (charges d0) of
                         None \<Rightarrow> (Inr (), d0)
                       | Some r \<Rightarrow> if ch_status r = CH_PAID then ensureSettlement gen now r en d0 else (Inr (), d0))
                    else
                      then_do (ensureSettlement gen now ch en (webhook_event_row gen ch (mark_paid ch t d0)))
                        (webhook_interaction gen ch (pe_endToEndId en) (pe_horario en))))"

definition processPixWebhook ::
  "(nat \<Rightarrow> string) \<Rightarrow> int \<Rightarrow> (pix_entry \<Rightarrow> database \<Rightarrow> database) \<Rightarrow> pix_entry list option \<Rightarrow> database \<Rightarrow> database" where
  \<comment> \<open>\<open>None\<close> is a payload without a list; the exception of an entry is logged and the next one follows\<close>
  "processPixWebhook gen now other payload d =
     (case payload of
        None \<Rightarrow> d
      | Some entries \<Rightarrow> fold (\<lambda>en d. snd (processPixEntry gen now (other en) en d)) entries d)"

section \<open>The guard of the route\<close>

datatype forwarded = NoHeader | Header string | HeaderList "string list"

record webhook_request =
  rq_forwarded :: forwarded
  rq_ip :: "string option"
  rq_token :: "string option"

definition first_part :: "string \<Rightarrow> string" where
  \<comment> \<open>\<open>s.split(',')[0].trim()\<close>\<close>
  "first_part s = trim (takeWhile (\<lambda>c. c \<noteq> CHR '','') s)"

definition extractSourceIp :: "webhook_request \<Rightarrow> string option" where
  "extractSourceIp rq =
     (case rq_forwarded rq of
        Header s \<Rightarrow> Some (first_part s)
      | HeaderList (s # _) \<Rightarrow> if s = '''' then rq_ip rq else Some (first_part s)
      | _ \<Rightarrow> rq_ip rq)"

definition hasValidToken :: "string option \<Rightarrow> string \<Rightarrow> bool" where
  \<comment> \<open>\<open>timingSafeEqual\<close> on texts of the same length is equality\<close>
  "hasValidToken token supplied \<longleftrightarrow> token \<noteq> None \<and> token \<noteq> Some '''' \<and> token = Some supplied"

definition guard_canActivate :: "string list \<Rightarrow> string option \<Rightarrow> bool \<Rightarrow> webhook_request \<Rightarrow> http_error + unit" where
  "guard_canActivate allowedIps token production rq =
     (if allowedIps \<noteq> [] \<and>
         (case extractSourceIp rq of None \<Rightarrow> True | Some ip \<Rightarrow> ip = '''' \<or> ip \<notin> set allowedIps)
      then Inl (Unauthorized '''')
      else if production \<and>
         (case rq_token rq of None \<Rightarrow> True | Some supplied \<Rightarrow> supplied = '''' \<or> \<not> hasValidToken token supplied)
      then Inl (Unauthorized '''')
      else Inr ())"


section \<open>Refreshing the contract\<close>

lemma projected_id [simp]: "ct_id (projected i ct d c) = ct_id c"
  by (simp add: projected_def Let_def split: option.split)

lemma projected_total [simp]: "ct_totalPaidAmount (projected i ct d c) = confirmed_total i (settlements d)"
  by (simp add: projected_def Let_def split: option.split)

lemma projected_status [simp]:
  "ct_paymentStatus (projected i ct d c) =
     (if payment_target i ct d \<le> confirmed_total i (settlements d) then PS_PAID else ct_paymentStatus c)"
  by (simp add: projected_def Let_def split: option.split)

context removal_service
begin

lemma refresh_frame: "pay_frame d (snd (refresh_with remove i d))"
proof -
  have "pay_frame d (snd (remove i acc (update_contract i f d)))" for acc f
    using pay_frame_trans [OF _ remove_frame, of d "update_contract i f d"] by simp
  then show ?thesis
    by (simp add: refresh_with_def Let_def split: option.split)
qed

lemma refresh_interactions: "interactions (snd (refresh_with remove i d)) = interactions d"
  by (simp add: refresh_with_def Let_def remove_interactions split: option.split)

lemma refresh_contracts:
  assumes "List.find (\<lambda>c. ct_id c = i) (contracts d) = Some ct"
  shows "serasa_only (update_where (\<lambda>c. ct_id c = i) (projected i ct d) (contracts d))
    (contracts (snd (refresh_with remove i d)))"
  using assms remove_contracts [of "update_contract i (projected i ct d) d"]
  by (simp add: refresh_with_def Let_def)

lemma refresh_missing:
  "List.find (\<lambda>c. ct_id c = i) (contracts d) = None \<Longrightarrow> refresh_with remove i d = (Inr (), d)"
  by (simp add: refresh_with_def)

lemma refresh_rows:
  assumes "\<And>c st. f (c\<lparr>ct_serasaStatus := st\<rparr>) = f c"
    and "List.find (\<lambda>c. ct_id c = i) (contracts d) = Some ct"
  shows "map f (contracts (snd (refresh_with remove i d))) =
    map f (update_where (\<lambda>c. ct_id c = i) (projected i ct d) (contracts d))"
  using serasa_only_map [OF refresh_contracts [OF assms(2)], of f] assms(1) by simp

end

interpretation removal: removal_service "createAutomaticRemovalForPaidContract gen now" for gen now
proof -
  have single: "pay_frame d d' \<and> serasa_only (contracts d) (contracts d') \<and> interactions d' = interactions d"
    if "createForContract gen now i u acc act al d = (r, d')" for gen now i u acc act al d r d'
    by (cases rule: createForContract_cases [OF that])
      (auto simp: operation_created_def intro: serasa_only_update)
  have "pay_frame d d' \<and> serasa_only (contracts d) (contracts d') \<and> interactions d' = interactions d"
    if "createAutomaticRemovalForPaidContract gen now i acc d = (r, d')" for gen now i acc d r d'
    using that
    by (auto simp: createAutomaticRemovalForPaidContract_def split: option.splits prod.splits sum.splits
        dest: single)
  then show "removal_service (createAutomaticRemovalForPaidContract gen now)"
    by unfold_locales (metis prod.collapse)+
qed

text \<open>
  The projection of a contract after a payment: its paid total is the sum of its confirmed
  settlements, and it becomes \<open>PAID\<close> exactly when that sum covers the target, which is the amount of
  its latest paid charge and not the debt; only a contract without a paid charge is measured against
  its debt. Other contracts keep their totals and payment status, and the payment tables their rows.
\<close>

theorem refresh_projection:
  assumes "List.find (\<lambda>c. ct_id c = i) (contracts d) = Some ct"
    and "d' = snd (refreshContractPaymentProjection gen now i d)"
  shows "pay_frame d d' \<and>
    map (\<lambda>c. (ct_id c, ct_totalPaidAmount c, ct_paymentStatus c)) (contracts d') =
    map (\<lambda>c. (ct_id c,
          if ct_id c = i then confirmed_total i (settlements d) else ct_totalPaidAmount c,
          if ct_id c = i \<and> payment_target i ct d \<le> confirmed_total i (settlements d) then PS_PAID
          else ct_paymentStatus c)) (contracts d)"
proof -
  have "map (\<lambda>c. (ct_id c, ct_totalPaidAmount c, ct_paymentStatus c)) (contracts d') =
    map (\<lambda>c. (ct_id c, ct_totalPaidAmount c, ct_paymentStatus c))
      (update_where (\<lambda>c. ct_id c = i) (projected i ct d) (contracts d))"
    unfolding assms(2) refreshContractPaymentProjection_def
    by (rule removal.refresh_rows [OF _ assms(1)]) simp
  moreover have "pay_frame d d'"
    unfolding assms(2) refreshContractPaymentProjection_def by (rule removal.refresh_frame)
  ultimately show ?thesis
    by (simp add: update_where_def)
qed

lemma refresh_projection_witness:
  "map ct_totalPaidAmount (contracts (snd (refreshContractPaymentProjection sample_gen 0 ''c1'' sample_db))) = [0]"
proof -
  have "List.find (\<lambda>c. ct_id c = ''c1'') (contracts sample_db) = Some sample_contract"
    by (simp add: sample_db_def)
  from refresh_projection [OF this refl, of sample_gen 0]
  have "map (fst \<circ> snd) (map (\<lambda>c. (ct_id c, ct_totalPaidAmount c, ct_paymentStatus c))
    (contracts (snd (refreshContractPaymentProjection sample_gen 0 ''c1'' sample_db)))) = [0]"
    by (simp add: sample_db_def)
  then show ?thesis by (simp add: comp_def)
qed

section \<open>Frames\<close>

lemma webhook_interaction_frame:
  "pay_frame d (snd (webhook_interaction gen ch x t d))"
  "contracts (snd (webhook_interaction gen ch x t d)) = contracts d"
  by (auto simp: webhook_interaction_def Let_def pay_frame_interaction split: option.split)

lemma then_do_frame:
  assumes "pay_frame d0 (snd r)" and "\<And>d. pay_frame d (snd (k d))"
  shows "pay_frame d0 (snd (then_do r k))"
  using assms pay_frame_trans by (auto simp: then_do_def split: prod.split sum.split)

lemma then_do_contracts:
  assumes "\<And>d. contracts (snd (k d)) = contracts d"
  shows "contracts (snd (then_do r k)) = contracts (snd r)"
  using assms by (auto simp: then_do_def split: prod.split sum.split)

lemma refresh_pay_frame: "pay_frame d (snd (refreshContractPaymentProjection gen now i d))"
  unfolding refreshContractPaymentProjection_def by (rule removal.refresh_frame)

lemma findExistingSettlement_key:
  "findExistingSettlement x d = None \<longleftrightarrow> (SRC_PIX, x) \<notin> settlement_key ` set (settlements d)"
  by (force simp: findExistingSettlement_def find_None_iff settlement_key_def)

lemma webhook_settlement_fields [simp]:
  "settlement_key (webhook_settlement ch x a t) = (SRC_PIX, x)"
  "st_contractId (webhook_settlement ch x a t) = ch_contractId ch"
  "st_paymentChargeId (webhook_settlement ch x a t) = Some (ch_id ch)"
  "st_amount (webhook_settlement ch x a t) = a" "st_status (webhook_settlement ch x a t) = ST_CONFIRMED"
  by (simp_all add: webhook_settlement_def settlement_key_def)

lemma ensureSettlement_cases:
  obtains (kept) "pay_frame d (snd (ensureSettlement gen now ch en d))"
      and "contracts (snd (ensureSettlement gen now ch en d)) = contracts d \<or>
           contracts (snd (ensureSettlement gen now ch en d)) =
             contracts (snd (refreshContractPaymentProjection gen now (ch_contractId ch) d))"
      and "findExistingSettlement (pe_endToEndId en) d \<noteq> None \<or> number_string (pe_valor en) = None \<or> pe_horario en = None"
  | (settled) a t s d1 where "number_string (pe_valor en) = Some a" and "pe_horario en = Some t"
      and "findExistingSettlement (pe_endToEndId en) d = None"
      and "create_settlement gen (webhook_settlement ch (pe_endToEndId en) a t) d = Some (s, d1)"
      and "pay_frame d1 (snd (ensureSettlement gen now ch en d))"
      and "contracts (snd (ensureSettlement gen now ch en d)) =
             contracts (snd (refreshContractPaymentProjection gen now (ch_contractId ch) d1))"
proof -
  let ?finish = "\<lambda>d1. then_do (refreshContractPaymentProjection gen now (ch_contractId ch) d1)
                      (webhook_interaction gen ch (pe_endToEndId en) (pe_horario en))"
  have fin: "pay_frame d1 (snd (?finish d1))"
    "contracts (snd (?finish d1)) = contracts (snd (refreshContractPaymentProjection gen now (ch_contractId ch) d1))" for d1
    by (intro then_do_frame then_do_contracts refresh_pay_frame webhook_interaction_frame)+
  show ?thesis
  proof (cases "findExistingSettlement (pe_endToEndId en) d")
    case (Some s)
    then show ?thesis
      using fin by (intro kept) (simp_all add: ensureSettlement_def)
  next
    case None
    show ?thesis
    proof (cases "\<exists>a t. number_string (pe_valor en) = Some a \<and> pe_horario en = Some t")
      case True
      then obtain a t where at: "number_string (pe_valor en) = Some a" "pe_horario en = Some t" by blast
      obtain s d1 where c: "create_settlement gen (webhook_settlement ch (pe_endToEndId en) a t) d = Some (s, d1)"
        using None settlement_table.insert_None [of gen "webhook_settlement ch (pe_endToEndId en) a t" d]
        by (auto simp: findExistingSettlement_key)
      show ?thesis
        using fin [of d1] by (intro settled [OF at None c]) (simp_all add: ensureSettlement_def None at c)
    next
      case False
      then have "ensureSettlement gen now ch en d = (Inl (Internal ''Invalid value for argument''), d)"
        by (auto simp: ensureSettlement_def None split: option.split)
      then show ?thesis
        using False by (intro kept) auto
    qed
  qed
qed


section \<open>What one entry does to the payment tables\<close>

text \<open>
  Every way an entry ends, seen from the payment tables: nothing, a settlement for a charge, or the
  payment of the charge followed by a settlement. \<open>d0\<close> is the database after the interference.
\<close>

definition settles :: "(nat \<Rightarrow> string) \<Rightarrow> payment_charge \<Rightarrow> pix_entry \<Rightarrow> database \<Rightarrow> database \<Rightarrow> bool" where
  \<comment> \<open>\<open>ensureSettlement\<close> at most appended the settlement of the entry for the charge\<close>
  "settles gen ch en d d' \<longleftrightarrow> pay_frame d d' \<or>
     (\<exists>a t s d1. create_settlement gen (webhook_settlement ch (pe_endToEndId en) a t) d = Some (s, d1) \<and>
        pay_frame d1 d')"

lemma settles_ensure: "settles gen ch en d (snd (ensureSettlement gen now ch en d))"
  by (cases rule: ensureSettlement_cases [where gen = gen and now = now and ch = ch and en = en and d = d])
    (auto simp: settles_def)

lemma settles_then: "settles gen ch en d d1 \<Longrightarrow> pay_frame d1 d2 \<Longrightarrow> settles gen ch en d d2"
  unfolding settles_def by (blast intro: pay_frame_trans)

lemma settles_then_interaction:
  "settles gen ch en d (snd (then_do (ensureSettlement gen now ch en d) (webhook_interaction gen ch x t)))"
proof -
  obtain r d1 where r: "ensureSettlement gen now ch en d = (r, d1)" by (cases "ensureSettlement gen now ch en d")
  then have "settles gen ch en d d1"
    using settles_ensure [where gen = gen and ch = ch and en = en and d = d and now = now] by simp
  then show ?thesis
    using settles_then webhook_interaction_frame(1) by (auto simp: r then_do_def split: sum.split)
qed

lemma processPixEntry_cases:
  obtains (nothing) "pay_frame d (snd (processPixEntry gen now other en d))"
  | (settle) ch where "find_by_txid (pe_txid en) d = Some ch" and "ch_status ch = CH_PAID"
      and "settles gen ch en d (snd (processPixEntry gen now other en d))"
  | (raced) ch where "find_by_txid (pe_txid en) d = Some ch" and "ch_status ch \<noteq> CH_PAID"
      and "snd (processPixEntry gen now other en d) = other d \<or>
           (\<exists>r. r \<in> set (charges (other d)) \<and> settles gen r en (other d) (snd (processPixEntry gen now other en d)))"
  | (paid) ch t where "find_by_txid (pe_txid en) d = Some ch" and "ch_status ch \<noteq> CH_PAID"
      and "pe_horario en = Some t" and "count_where (holds_lock ch) (charges (other d)) \<noteq> 0"
      and "settles gen ch en (webhook_event_row gen ch (mark_paid ch t (other d)))
             (snd (processPixEntry gen now other en d))"
proof -
  let ?r = "processPixEntry gen now other en d"
  consider "pe_txid en = '''' \<or> pe_endToEndId en = ''''"
    | "findExistingSettlement (pe_endToEndId en) d \<noteq> None" "pe_txid en \<noteq> ''''" "pe_endToEndId en \<noteq> ''''"
    | "find_by_txid (pe_txid en) d = None" "findExistingSettlement (pe_endToEndId en) d = None"
        "pe_txid en \<noteq> ''''" "pe_endToEndId en \<noteq> ''''"
    | ch where "find_by_txid (pe_txid en) d = Some ch" "findExistingSettlement (pe_endToEndId en) d = None"
        "pe_txid en \<noteq> ''''" "pe_endToEndId en \<noteq> ''''"
    by (cases "find_by_txid (pe_txid en) d") auto
  then show ?thesis
  proof cases
    case 2
    have "pay_frame d (snd ?r)"
      using 2 by (auto simp: processPixEntry_def webhook_interaction_frame split: option.split)
    then show ?thesis by (rule nothing)
  next
    case (4 ch)
    show ?thesis
    proof (cases "ch_status ch = CH_PAID")
      case True
      then show ?thesis
        using 4 settles_ensure [where gen = gen and ch = ch and en = en and d = d and now = now] by (intro settle [of ch]) (simp_all add: processPixEntry_def)
    next
      case False
      show ?thesis
      proof (cases "pe_horario en")
        case None
        then show ?thesis
          using 4 False by (intro raced [of ch]) (simp_all add: processPixEntry_def)
      next
        case (Some t)
        show ?thesis
        proof (cases "count_where (holds_lock ch) (charges (other d)) = 0")
          case True
          then show ?thesis
            using 4 False Some
            by (intro raced [of ch])
              (auto simp: processPixEntry_def Let_def settles_ensure split: option.split dest!: find_SomeD)
        next
          case n0: False
          then show ?thesis
            using 4 False Some
            by (intro paid [of ch t]) (simp_all add: processPixEntry_def Let_def settles_then_interaction)
        qed
      qed
    qed
  qed (rule nothing, simp add: processPixEntry_def)+
qed

lemma mark_paid_frame [simp]:
  "settlements (webhook_event_row gen ch (mark_paid ch t d)) = settlements d"
  "contracts (webhook_event_row gen ch (mark_paid ch t d)) = contracts d"
  "charges (webhook_event_row gen ch (mark_paid ch t d)) = update_where (holds_lock ch)
         (\<lambda>r. r\<lparr>ch_status := CH_PAID, ch_paidAt := Some t, ch_externalStatus := Some ''CONCLUIDA'',
                ch_version := ch_version r + 1\<rparr>) (charges d)"
  "nextId (webhook_event_row gen ch (mark_paid ch t d)) = Suc (nextId d)"
  "length (events (webhook_event_row gen ch (mark_paid ch t d))) = Suc (length (events d))"
  by (simp_all add: webhook_event_row_def mark_paid_def create_event_def)

lemma settles_settlements:
  assumes "settles gen ch en d d'"
  shows "\<exists>new. settlements d' = settlements d @ new"
    and "distinct (map settlement_key (settlements d)) \<Longrightarrow> distinct (map settlement_key (settlements d'))"
    and "charges d' = charges d"
  using assms settlement_table.insert_unique [of gen _ d]
  by (auto simp: settles_def pay_frame_def dest: create_settlement_frame)

lemma settles_ok: "settles gen ch en d d' \<Longrightarrow> payments_ok gen d \<Longrightarrow> payments_ok gen d'"
  by (auto simp: settles_def intro: pay_frame_ok payments_ok_create_settlement)

interpretation pix: ledger "\<lambda>en d. snd (processPixEntry gen now id en d)" for gen now
proof (unfold_locales, goal_cases)
  case (1 en d)
  show ?case
    by (cases rule: processPixEntry_cases [where d = d and gen = gen and now = now and other = id and en = en])
      (auto simp: pay_frame_def dest!: settles_settlements(1))
next
  case (2 d en)
  then show ?case
    by (cases rule: processPixEntry_cases [where d = d and gen = gen and now = now and other = id and en = en])
      (auto simp: pay_frame_def dest!: settles_settlements(2))
qed

lemma payments_ok_webhook:
  assumes "payments_ok gen d" and "payments_ok gen (other d)"
  shows "payments_ok gen (snd (processPixEntry gen now other en d))"
proof (cases rule: processPixEntry_cases [where d = d and gen = gen and now = now and other = other and en = en])
  case (paid ch t)
  have "payments_ok gen (webhook_event_row gen ch (mark_paid ch t (other d)))"
  proof -
    have "map charge_key (charges (webhook_event_row gen ch (mark_paid ch t (other d)))) = map charge_key (charges (other d))"
      "map ch_id (charges (webhook_event_row gen ch (mark_paid ch t (other d)))) = map ch_id (charges (other d))"
      by (simp_all add: map_update_where charge_key_def)
    moreover have "gen ` {..<nextId (other d)} \<subseteq> gen ` {..<Suc (nextId (other d))}"
      by (intro image_mono) auto
    ultimately show ?thesis
      using assms(2) unfolding payments_ok_def unique_keys_def fresh_ids_def mark_paid_frame(1,4)
      by (simp only:) blast
  qed
  with paid show ?thesis by (auto intro: settles_ok)
qed (use assms in \<open>auto intro: pay_frame_ok settles_ok\<close>)


section \<open>Properties\<close>

lemma ensure_total:
  assumes "number_string (pe_valor en) = Some a" and "pe_horario en = Some t"
    and "findExistingSettlement (pe_endToEndId en) d = None"
  shows "\<exists>s. settlements (snd (ensureSettlement gen now ch en d)) = settlements d @ [s] \<and>
    settlement_key s = (SRC_PIX, pe_endToEndId en) \<and> st_amount s = dec2 a \<and> st_status s = ST_CONFIRMED \<and>
    st_paymentChargeId s = Some (ch_id ch) \<and> st_contractId s = ch_contractId ch"
    and "charges (snd (ensureSettlement gen now ch en d)) = charges d"
    and "\<forall>c \<in> set (contracts (snd (ensureSettlement gen now ch en d))). ct_id c = ch_contractId ch \<longrightarrow>
      ct_totalPaidAmount c = confirmed_total (ch_contractId ch) (settlements d) + dec2 a"
proof -
  let ?d' = "snd (ensureSettlement gen now ch en d)" and ?i = "ch_contractId ch"
  show "charges ?d' = charges d"
    using settles_ensure by (rule settles_settlements(3))
  have "(\<exists>s. settlements ?d' = settlements d @ [s] \<and>
      settlement_key s = (SRC_PIX, pe_endToEndId en) \<and> st_amount s = dec2 a \<and> st_status s = ST_CONFIRMED \<and>
      st_paymentChargeId s = Some (ch_id ch) \<and> st_contractId s = ?i) \<and>
    (\<forall>c \<in> set (contracts ?d'). ct_id c = ?i \<longrightarrow>
      ct_totalPaidAmount c = confirmed_total ?i (settlements d) + dec2 a)"
  proof (cases rule: ensureSettlement_cases [where gen = gen and now = now and ch = ch and en = en and d = d])
    case (settled a' t' s d1)
    note row = create_settlement_frame [OF settled(4)]
    have a': "a' = a" "t' = t" using settled(1,2) assms(1,2) by simp_all
    have s: "settlements ?d' = settlements d @ [s]" "s = (webhook_settlement ch (pe_endToEndId en) a t)
        \<lparr>st_id := gen (nextId d), st_amount := dec2 a\<rparr>"
      using settled(5) row(8,9) by (simp_all add: a' pay_frame_def)
    have s_total: "confirmed_total ?i (settlements d1) = confirmed_total ?i (settlements d) + dec2 a"
      using row(8) row(9) s(2) assms(1) settled(1) by simp
    have "ct_totalPaidAmount c = confirmed_total ?i (settlements d) + dec2 a"
      if c: "c \<in> set (contracts ?d')" "ct_id c = ?i" for c
    proof (cases "List.find (\<lambda>c. ct_id c = ?i) (contracts d1)")
      case None
      then have "contracts ?d' = contracts d1"
        unfolding settled(6) refreshContractPaymentProjection_def
        by (simp add: removal.refresh_missing)
      with c None show ?thesis by (auto dest: find_NoneD)
    next
      case (Some ct)
      have "(ct_id c, ct_totalPaidAmount c) \<in> set (map (\<lambda>c. (ct_id c, ct_totalPaidAmount c)) (contracts ?d'))"
        using c(1) by simp
      also have "map (\<lambda>c. (ct_id c, ct_totalPaidAmount c)) (contracts ?d') =
        map (\<lambda>c. (ct_id c, ct_totalPaidAmount c))
          (update_where (\<lambda>c. ct_id c = ?i) (projected ?i ct d1) (contracts d1))"
        unfolding settled(6) refreshContractPaymentProjection_def
        by (rule removal.refresh_rows [OF _ Some]) simp
      finally obtain x where "x \<in> set (contracts d1)" "ct_id c = ct_id x"
          "ct_totalPaidAmount c = (if ct_id x = ?i then confirmed_total ?i (settlements d1) else ct_totalPaidAmount x)"
        by (auto simp: in_update_where)
      with c(2) s_total show ?thesis by simp
    qed
    with s show ?thesis by auto
  qed (use assms in auto)
  then show "\<exists>s. settlements ?d' = settlements d @ [s] \<and>
      settlement_key s = (SRC_PIX, pe_endToEndId en) \<and> st_amount s = dec2 a \<and> st_status s = ST_CONFIRMED \<and>
      st_paymentChargeId s = Some (ch_id ch) \<and> st_contractId s = ?i"
    and "\<forall>c \<in> set (contracts ?d'). ct_id c = ?i \<longrightarrow>
      ct_totalPaidAmount c = confirmed_total ?i (settlements d) + dec2 a"
    by blast+
qed

lemma ensure_charges: "charges (snd (ensureSettlement gen now ch en d)) = charges d"
  using settles_ensure by (rule settles_settlements(3))

lemma webhook_then_frame:
  "pay_frame (snd (ensureSettlement gen now ch en d))
     (snd (then_do (ensureSettlement gen now ch en d) (webhook_interaction gen2 ch2 x t)))"
  "contracts (snd (then_do (ensureSettlement gen now ch en d) (webhook_interaction gen2 ch2 x t))) =
     contracts (snd (ensureSettlement gen now ch en d))"
  by (intro then_do_frame then_do_contracts pay_frame_refl webhook_interaction_frame)+

lemma holds_lock_unique:
  assumes "distinct (map ch_id cs)" and "ch \<in> set cs"
  shows "update_where (holds_lock ch) f cs = update_where (\<lambda>c. ch_id c = ch_id ch) f cs"
    and "count_where (holds_lock ch) cs \<noteq> 0"
proof -
  have "holds_lock ch c \<longleftrightarrow> ch_id c = ch_id ch" if "c \<in> set cs" for c
    using assms that by (auto simp: holds_lock_def distinct_map inj_on_def)
  then show "update_where (holds_lock ch) f cs = update_where (\<lambda>c. ch_id c = ch_id ch) f cs"
    by (simp add: update_where_def)
  show "count_where (holds_lock ch) cs \<noteq> 0"
    using assms(2) by (auto simp: count_where_def filter_empty_conv holds_lock_def)
qed

text \<open>
  C13. A new confirmation of an unpaid charge, when nothing interferes, pays exactly that charge and raises
  its version, appends exactly one confirmed settlement with the bank's identifier and the amount of
  the entry rounded to cents, and sets the paid total of the contract to the previous sum plus that
  amount, whether or not the removal from Serasa that may follow succeeds.
\<close>

theorem pix_entry_pays:
  assumes "payments_ok gen d" and "pe_txid en \<noteq> ''''" and "pe_endToEndId en \<noteq> ''''"
    and "number_string (pe_valor en) = Some a" and "pe_horario en = Some t"
    and "findExistingSettlement (pe_endToEndId en) d = None"
    and "find_by_txid (pe_txid en) d = Some ch" and "ch_status ch \<noteq> CH_PAID"
    and "d' = snd (processPixEntry gen now id en d)"
  shows "charges d' = update_where (\<lambda>c. ch_id c = ch_id ch)
      (\<lambda>r. r\<lparr>ch_status := CH_PAID, ch_paidAt := Some t, ch_externalStatus := Some ''CONCLUIDA'',
             ch_version := ch_version r + 1\<rparr>) (charges d) \<and>
    (\<exists>s. settlements d' = settlements d @ [s] \<and> settlement_key s = (SRC_PIX, pe_endToEndId en) \<and>
       st_amount s = dec2 a \<and> st_status s = ST_CONFIRMED \<and> st_paymentChargeId s = Some (ch_id ch)) \<and>
    (\<forall>c \<in> set (contracts d'). ct_id c = ch_contractId ch \<longrightarrow>
       ct_totalPaidAmount c = confirmed_total (ch_contractId ch) (settlements d) + dec2 a)"
proof -
  have ch: "ch \<in> set (charges d)" and ids: "distinct (map ch_id (charges d))"
    using find_SomeD [OF assms(7) [unfolded find_by_txid_def]] assms(1)
    by (simp_all add: payments_ok_def fresh_ids_def)
  let ?d0 = "webhook_event_row gen ch (mark_paid ch t d)"
  let ?d1 = "snd (ensureSettlement gen now ch en ?d0)"
  have "snd (processPixEntry gen now id en d) =
    snd (then_do (ensureSettlement gen now ch en ?d0) (webhook_interaction gen ch (pe_endToEndId en) (pe_horario en)))"
    using assms(2-8) holds_lock_unique(2) [OF ids ch] by (simp add: processPixEntry_def)
  then have same: "contracts d' = contracts ?d1" "charges d' = charges ?d1" "settlements d' = settlements ?d1"
    unfolding assms(9)
    using webhook_then_frame(1) [where gen = gen and now = now and ch = ch and en = en and d = ?d0]
    by (simp_all add: pay_frame_def webhook_then_frame(2))
  have none: "findExistingSettlement (pe_endToEndId en) ?d0 = None"
    using assms(6) by (simp add: findExistingSettlement_def)
  show ?thesis
    unfolding same
    using ensure_total(1) [OF assms(4,5) none] ensure_total(3) [OF assms(4,5) none] holds_lock_unique(1) [OF ids ch]
    by (simp add: ensure_charges) blast
qed

definition sample_entry :: "string \<Rightarrow> pix_entry" where
  "sample_entry x = \<lparr>pe_endToEndId = x, pe_txid = ''tx1'', pe_valor = ''108'', pe_horario = Some 2000\<rparr>"

lemma sample_valor: "number_string ''108'' = Some 108"
  by (simp add: number_string_def split_sign_def is_digit_def code_def digit_val_def)

lemma sample_entry_facts:
  "find_by_txid (pe_txid (sample_entry x)) (sample_paid_db s) = Some (sample_charge s)"
  "findExistingSettlement (pe_endToEndId (sample_entry x)) (sample_paid_db s) = None"
  "number_string (pe_valor (sample_entry x)) = Some 108" "pe_horario (sample_entry x) = Some 2000"
  "ch_status (sample_charge s) = s" "ch_contractId (sample_charge s) = ''c1''"
  by (simp_all add: find_by_txid_def findExistingSettlement_def sample_entry_def sample_paid_db_def sample_charge_def
      blank_charge_def sample_db_def sample_valor)

lemma sample_paid_ok: "payments_ok (\<lambda>n. ''ch1'') ((sample_paid_db s)\<lparr>nextId := 1\<rparr>)"
  by (auto simp: payments_ok_def unique_keys_def fresh_ids_def sample_paid_db_def sample_db_def sample_charge_def)

lemma pix_entry_pays_witness:
  "\<exists>s. settlements (snd (processPixEntry (\<lambda>n. ''ch1'') 0 id (sample_entry ''E1'') ((sample_paid_db CH_ISSUED)\<lparr>nextId := 1\<rparr>))) = [s]
     \<and> st_amount s = 108"
proof -
  let ?d = "(sample_paid_db CH_ISSUED)\<lparr>nextId := 1\<rparr>" and ?en = "sample_entry ''E1''"
  have pre: "pe_txid ?en \<noteq> ''''" "pe_endToEndId ?en \<noteq> ''''"
    "findExistingSettlement (pe_endToEndId ?en) ?d = None"
    "find_by_txid (pe_txid ?en) ?d = Some (sample_charge CH_ISSUED)"
    using sample_entry_facts(1) [of "''E1''" CH_ISSUED] sample_entry_facts(2) [of "''E1''" CH_ISSUED]
    by (simp_all add: sample_entry_def find_by_txid_def findExistingSettlement_def)
  have "ch_status (sample_charge CH_ISSUED) \<noteq> CH_PAID" using sample_entry_facts(5) by simp
  note paid = pix_entry_pays [OF sample_paid_ok pre(1,2) sample_entry_facts(3,4) pre(3,4) this refl, of 0]
  have "settlements ?d = []" by (simp add: sample_paid_db_def sample_db_def)
  with paid show ?thesis using dec2_108 by auto
qed

text \<open>
  The bank may deliver a confirmation again: once a settlement carries its identifier, the entry changes
  no charge, settlement, event or contract, at most it completes the visible history of the contract,
  and from the third delivery on it changes nothing at all.
\<close>

theorem pix_entry_replay:
  assumes "findExistingSettlement (pe_endToEndId en) d \<noteq> None"
    and "d' = snd (processPixEntry gen now other en d)"
  shows "pay_frame d d' \<and> contracts d' = contracts d \<and>
    snd (processPixEntry gen now2 other2 en d') = d'"
proof -
  have once: "snd (processPixEntry gen now other en d) =
      (if pe_txid en = '''' \<or> pe_endToEndId en = '''' then d
       else case find_by_txid (pe_txid en) d of
              None \<Rightarrow> d | Some ch \<Rightarrow> snd (webhook_interaction gen ch (pe_endToEndId en) (pe_horario en) d))"
    if "findExistingSettlement (pe_endToEndId en) d \<noteq> None" for d now other
    using that by (simp add: processPixEntry_def split: option.split)
  have frame: "pay_frame d d' \<and> contracts d' = contracts d"
    unfolding assms(2) once [OF assms(1)]
    using webhook_interaction_frame by (auto split: option.split)
  then have "findExistingSettlement (pe_endToEndId en) d' \<noteq> None" "find_by_txid (pe_txid en) d' = find_by_txid (pe_txid en) d"
    using assms(1) by (auto simp: findExistingSettlement_def find_by_txid_def pay_frame_def)
  moreover have "snd (webhook_interaction gen ch x t (snd (webhook_interaction gen ch x t d0))) =
      snd (webhook_interaction gen ch x t d0)" for ch x t d0
    by (auto simp: webhook_interaction_def Let_def has_interaction_def find_append split: option.splits)
  ultimately have "snd (processPixEntry gen now2 other2 en d') = d'"
    using once assms by (auto split: option.split)
  with frame show ?thesis by blast
qed

lemma pix_entry_replay_witness:
  "contracts (snd (processPixEntry sample_gen 0 id (sample_entry ''E1'')
      ((sample_paid_db CH_PAID)\<lparr>settlements := [webhook_settlement (sample_charge CH_PAID) ''E1'' 108 2000]\<rparr>)))
   = [sample_contract]"
proof -
  let ?d = "(sample_paid_db CH_PAID)\<lparr>settlements := [webhook_settlement (sample_charge CH_PAID) ''E1'' 108 2000]\<rparr>"
  have "findExistingSettlement (pe_endToEndId (sample_entry ''E1'')) ?d \<noteq> None"
    by (simp add: findExistingSettlement_def sample_entry_def webhook_settlement_def)
  from pix_entry_replay [OF this refl, of sample_gen 0 id] show ?thesis
    by (simp add: sample_paid_db_def sample_db_def)
qed


text \<open>
  A confirmation is lost when another process touches the charge between the read and the update without
  paying it (a synchronisation, a failed attempt, an expiry): the entry ends without an error, no settlement is
  written and the charge stays unpaid, although the bank reported the payment.
\<close>

theorem pix_entry_lost:
  assumes "find_by_txid (pe_txid en) d = Some ch" and "ch_status ch \<noteq> CH_PAID"
    and "findExistingSettlement (pe_endToEndId en) d = None" and "pe_horario en = Some t"
    and "distinct (map ch_id (charges (other d)))"
    and "List.find (\<lambda>c. ch_id c = ch_id ch) (charges (other d)) = Some r"
    and "ch_version r \<noteq> ch_version ch" and "ch_status r \<noteq> CH_PAID"
  shows "fst (processPixEntry gen now other en d) = Inr () \<and>
    snd (processPixEntry gen now other en d) = (if pe_txid en = '''' \<or> pe_endToEndId en = '''' then d else other d)"
proof -
  have r: "r \<in> set (charges (other d))" "ch_id r = ch_id ch"
    using find_SomeD [OF assms(6)] by simp_all
  have same: "c = r" if c: "c \<in> set (charges (other d))" "ch_id c = ch_id ch" for c
    using assms(5) r c by (auto simp: distinct_map inj_on_def)
  have "\<not> holds_lock ch c" if c: "c \<in> set (charges (other d))" for c
    using same [OF c] assms(7) by (auto simp: holds_lock_def)
  then have "count_where (holds_lock ch) (charges (other d)) = 0"
    by (simp add: count_where_def filter_empty_conv)
  with assms show ?thesis by (simp add: processPixEntry_def)
qed

lemma pix_entry_lost_witness:
  "(let d = sample_paid_db CH_ISSUED;
        other = (\<lambda>d. d\<lparr>charges := [(sample_charge CH_ISSUED)\<lparr>ch_version := 7\<rparr>]\<rparr>);
        d' = snd (processPixEntry sample_gen 0 other (sample_entry ''E1'') d)
    in map ch_status (charges d') = [CH_ISSUED] \<and> settlements d' = [])"
proof -
  let ?d = "sample_paid_db CH_ISSUED" and ?r = "(sample_charge CH_ISSUED)\<lparr>ch_version := 7\<rparr>"
  let ?other = "\<lambda>d. d\<lparr>charges := [?r]\<rparr>"
  have pre: "ch_status (sample_charge CH_ISSUED) \<noteq> CH_PAID" "distinct (map ch_id (charges (?other ?d)))"
    "List.find (\<lambda>c. ch_id c = ch_id (sample_charge CH_ISSUED)) (charges (?other ?d)) = Some ?r"
    "ch_version ?r \<noteq> ch_version (sample_charge CH_ISSUED)" "ch_status ?r \<noteq> CH_PAID"
    by (simp_all add: sample_charge_def blank_charge_def)
  show ?thesis
    using pix_entry_lost [where d = ?d and other = ?other, OF sample_entry_facts(1) pre(1) sample_entry_facts(2,4) pre(2-5)]
      sample_entry_facts(5)
    by (simp add: sample_entry_def sample_paid_db_def sample_db_def)
qed

text \<open>
  C14. A payment is counted twice when the charge was already settled by the daily job or by a manual
  synchronisation, which write the settlement under their own identifier: the later confirmation of the bank
  finds none with its identifier, appends a second confirmed settlement for the same charge, and the paid
  total of the contract grows by the amount once more.
\<close>

theorem pix_entry_counts_twice:
  assumes "find_by_txid (pe_txid en) d = Some ch" and "ch_status ch = CH_PAID"
    and "findExistingSettlement (pe_endToEndId en) d = None" and "pe_txid en \<noteq> ''''" and "pe_endToEndId en \<noteq> ''''"
    and "number_string (pe_valor en) = Some a" and "pe_horario en = Some t"
    and "d' = snd (processPixEntry gen now other en d)"
  shows "charges d' = charges d \<and>
    count_where (\<lambda>s. st_paymentChargeId s = Some (ch_id ch) \<and> st_status s = ST_CONFIRMED) (settlements d') =
      Suc (count_where (\<lambda>s. st_paymentChargeId s = Some (ch_id ch) \<and> st_status s = ST_CONFIRMED) (settlements d)) \<and>
    (\<forall>c \<in> set (contracts d'). ct_id c = ch_contractId ch \<longrightarrow>
       ct_totalPaidAmount c = confirmed_total (ch_contractId ch) (settlements d) + dec2 a)"
proof -
  have d': "d' = snd (ensureSettlement gen now ch en d)"
    using assms(1-5) unfolding assms(8) by (simp add: processPixEntry_def)
  obtain s where "settlements d' = settlements d @ [s]" "st_status s = ST_CONFIRMED"
      "st_paymentChargeId s = Some (ch_id ch)"
    using ensure_total(1) [OF assms(6,7,3)] unfolding d' by blast
  then have "count_where (\<lambda>s. st_paymentChargeId s = Some (ch_id ch) \<and> st_status s = ST_CONFIRMED) (settlements d') =
      Suc (count_where (\<lambda>s. st_paymentChargeId s = Some (ch_id ch) \<and> st_status s = ST_CONFIRMED) (settlements d))"
    by (simp add: count_where_def)
  with ensure_total(3) [OF assms(6,7,3)] show ?thesis
    unfolding d' by (simp add: ensure_charges)
qed

lemma pix_entry_counts_twice_witness:
  "(let s = (webhook_settlement (sample_charge CH_PAID) ''chagr1'' 108 2000);
        d = (sample_paid_db CH_PAID)\<lparr>settlements := [s]\<rparr>;
        d' = snd (processPixEntry sample_gen 0 id (sample_entry ''E1'') d)
    in confirmed_total ''c1'' (settlements d) = 108 \<and>
       count_where (\<lambda>s. st_paymentChargeId s = Some ''ch1'' \<and> st_status s = ST_CONFIRMED) (settlements d') = 2)"
proof -
  let ?d = "(sample_paid_db CH_PAID)\<lparr>settlements := [webhook_settlement (sample_charge CH_PAID) ''chagr1'' 108 2000]\<rparr>"
  have pre: "find_by_txid (pe_txid (sample_entry ''E1'')) ?d = Some (sample_charge CH_PAID)"
    "findExistingSettlement (pe_endToEndId (sample_entry ''E1'')) ?d = None"
    "pe_txid (sample_entry ''E1'') \<noteq> ''''" "pe_endToEndId (sample_entry ''E1'') \<noteq> ''''"
    using sample_entry_facts(1) [of "''E1''" CH_PAID]
    by (simp_all add: find_by_txid_def findExistingSettlement_def sample_entry_def webhook_settlement_def)
  show ?thesis
    using pix_entry_counts_twice [OF pre(1) sample_entry_facts(5) pre(2-4) sample_entry_facts(3,4) refl,
        of sample_gen 0 id]
    by (simp add: webhook_settlement_def sample_charge_def blank_charge_def count_where_def confirmed_total_def)
qed


section \<open>The guard\<close>

lemma guard_production:
  "guard_canActivate allowedIps token True rq = Inr () \<longleftrightarrow>
     (allowedIps = [] \<or> (\<exists>ip. extractSourceIp rq = Some ip \<and> ip \<noteq> '''' \<and> ip \<in> set allowedIps)) \<and>
     (\<exists>t. t \<noteq> '''' \<and> token = Some t \<and> rq_token rq = Some t)"
  by (auto simp: guard_canActivate_def hasValidToken_def split: option.splits)

lemma guard_address_is_claimed:
  \<comment> \<open>outside production any sender passes who names an allowed address in the header\<close>
  "ip \<in> set allowedIps \<Longrightarrow> ip \<noteq> '''' \<Longrightarrow> first_part h = ip \<Longrightarrow>
     guard_canActivate allowedIps token False \<lparr>rq_forwarded = Header h, rq_ip = from, rq_token = t\<rparr> = Inr ()"
  by (simp add: guard_canActivate_def extractSourceIp_def)

end
