(* ===== verification/System.thy ===== *)
theory System
  imports SerasaWebhooks PixWebhook
begin

text \<open>
  The services over the shared database. A step of the system is one call of a handler, one charge
  looked at by the daily job, one job of the worker or one delivery of a webhook, in any order and
  for any input; what other processes commit while a bank confirmation waits is itself a sequence of
  steps. The invariants of the components hold in every reachable state.
\<close>

section \<open>What the payment side leaves alone\<close>

definition ops_frame :: "database \<Rightarrow> database \<Rightarrow> bool" where
  "ops_frame d d' \<longleftrightarrow>
     items d' = items d \<and> operations d' = operations d \<and> queue d' = queue d \<and> webhooks d' = webhooks d \<and>
     nextId d \<le> nextId d'"

lemma ops_frame_refl [simp, intro]: "ops_frame d d"
  by (simp add: ops_frame_def)

lemma ops_frame_trans [trans]: "ops_frame d d1 \<Longrightarrow> ops_frame d1 d2 \<Longrightarrow> ops_frame d d2"
  by (simp add: ops_frame_def)

lemma ops_frame_then [intro]: "ops_frame d d1 \<Longrightarrow> (\<And>x. ops_frame x (f x)) \<Longrightarrow> ops_frame d (f d1)"
  using ops_frame_trans by blast

lemma ops_frame_rows:
  "ops_frame d (update_contract i f d)" "ops_frame d (update_charge i g d)"
  "ops_frame d (create_interaction gen ia d)" "ops_frame d (create_event gen v d)"
  "create_charge gen c d = Some (c', d') \<Longrightarrow> ops_frame d d'"
  "create_settlement gen s d = Some (s', d') \<Longrightarrow> ops_frame d d'"
  by (auto simp: ops_frame_def create_charge_frame create_settlement_frame)

lemma ops_frame_uuid:
  "ops_frame d (snd (take_uuid e d))" "ops_frame d (snd (generateTxid e d))" "ops_frame d (snd (draw_txid e b d))"
  by (simp_all add: ops_frame_def take_uuid_def generateTxid_def draw_txid_def)

lemma ops_frame_records:
  "ops_frame d (createPaymentEvent e i f to s m d)" "ops_frame d (recordPixIssuedInteraction e ct ch d)"
  "ops_frame d (recordPixPaidInteraction e ch t src x d)" "ops_frame d (registerAgreementFromIssuedCharge e ct w ch d)"
  "ops_frame d (createSettlementForCharge e ch t acc d)"
  by (auto simp: createPaymentEvent_def recordPixIssuedInteraction_def recordPixPaidInteraction_def
      registerAgreementFromIssuedCharge_def createSettlementForCharge_def Let_def ops_frame_rows
      split: option.split)

lemmas ops_after = ops_frame_rows(1-4) [THEN ops_frame_trans [rotated]] ops_frame_records [THEN ops_frame_trans [rotated]]

lemma ops_frame_failed: "ops_frame d (snd (issue_failed (handleAdapterError e err fc d)))"
  by (auto simp: issue_failed_def handleAdapterError_def split: option.split prod.split
      intro: ops_frame_trans [OF ops_frame_rows(5) ops_frame_records(1)])

lemma ops_frame_issue: "ops_frame d (snd (issue_and_store e a inp cfg row fc ct w is_pix d))"
proof -
  have "ops_frame d (registerAgreementFromIssuedCharge e ct w c
      (if is_pix then recordPixIssuedInteraction e ct c (createPaymentEvent e i f to s m d1)
       else createPaymentEvent e i f to s m d1))"
    if "create_charge (e_gen e) r d = Some (c, d1)" for c d1 r i f to s m
  proof -
    have "ops_frame d (createPaymentEvent e i f to s m d1)"
      using ops_frame_rows(5) [OF that] ops_frame_records(1) ops_frame_trans by blast
    then show ?thesis by (simp add: ops_after)
  qed
  then show ?thesis
    by (auto simp: issue_and_store_def Let_def ops_frame_failed split: sum.split option.split)
qed

lemma ops_frame_generic: "ops_frame d (snd (issue_generic e ct g a dto amount due acc d))"
  using ops_frame_uuid(3) ops_frame_trans [OF ops_frame_uuid(3) ops_frame_issue]
  by (simp add: issue_generic_def Let_def case_prod_unfold split: sum.split option.split)

lemma ops_frame_createCharge: "ops_frame d (snd (createCharge e i dto acc d))"
  by (simp add: createCharge_def ops_frame_generic split: option.split sum.split)

lemma ops_frame_issue_pix: "ops_frame d (snd (issue_pix e ct w cr acc g base amount disc chn key d))"
proof -
  have "ops_frame d (snd (take_uuid e (snd (generateTxid e d))))"
    using ops_frame_uuid ops_frame_trans by blast
  then show ?thesis
    using ops_frame_uuid(2) [of d e] ops_frame_trans [OF _ ops_frame_issue]
      ops_frame_trans [OF ops_frame_records(2) ops_frame_records(4)]
    by (auto simp: issue_pix_def Let_def case_prod_unfold split: option.split sum.split)
qed

lemma ops_frame_pix:
  "ops_frame d (snd (createPixForContract e i acc opt d))"
  "ops_frame d (snd (createPixByDocument e doc n k acc cr d))"
  by (auto simp: createPixForContract_def createPixByDocument_def Let_def case_prod_unfold ops_frame_issue_pix
      split: option.split sum.split list.split)

lemma ops_frame_sync: "ops_frame d (snd (syncCharge e i acc d))"
proof -
  have "ops_frame d (apply_sync e ch u acc d)" for ch u
    by (simp add: apply_sync_def Let_def ops_after ops_frame_rows ops_frame_records)
  then show ?thesis
    by (simp add: syncCharge_def split: option.split sum.split)
qed

lemma ops_frame_transitions:
  "ops_frame (snd s) (snd (transitionToPaid e copy u s))"
  "ops_frame (snd s) (snd (transitionToIssued e copy u s))"
  "ops_frame (snd s) (snd (transitionToFailed e copy u s))"
  "ops_frame (snd s) (snd (transitionToExpired e copy s))"
proof -
  have "ops_frame d (job_event e copy t (updateChargeWithOptimisticLock copy f d))" for t f d
    unfolding job_event_def
    by (rule ops_after) (simp add: ops_frame_def updateChargeWithOptimisticLock_def)
  then show "ops_frame (snd s) (snd (transitionToPaid e copy u s))"
    "ops_frame (snd s) (snd (transitionToIssued e copy u s))"
    "ops_frame (snd s) (snd (transitionToFailed e copy u s))"
    "ops_frame (snd s) (snd (transitionToExpired e copy s))"
    by (simp_all add: transitionToPaid_def transitionToIssued_def transitionToFailed_def transitionToExpired_def
        Let_def job_createSettlement_def ops_after)
qed

lemma ops_frame_job: "ops_frame (snd s) (snd (process_charge e copy s))"
proof -
  have "ops_frame (snd s) (snd (run_transition e copy u t s))" for u t
    by (auto simp: run_transition_def ops_frame_transitions split: option.split charge_status.split)
  then have "ops_frame (snd s) (snd (snd (reconcileCharge e copy p x s)))" for p x
    by (simp add: reconcileCharge_def provider_error_def split: option.split sum.split)
  then show ?thesis
    by (simp add: process_charge_def provider_error_def case_prod_unfold split: sum.split)
qed

lemma ops_frame_overdue: "ops_frame d (markOverdueAgreementsAsBreached now d)"
  by (simp add: ops_frame_def markOverdueAgreementsAsBreached_def)

lemma ops_frame_events:
  "ops_frame d (processEvent gen ev acc d)" "ops_frame d (processReversal gen ev acc d)"
  by (cases rule: processEvent_cases [of ev d acc];
      simp add: processEvent_noop processEvent_new [OF _ _ _ refl] ops_frame_def)
    (cases rule: processReversal_cases [of ev d acc];
      simp add: processReversal_noop processReversal_new [OF _ _ _ refl] ops_frame_def)

section \<open>What the Serasa side leaves alone\<close>

definition serasa_frame :: "database \<Rightarrow> database \<Rightarrow> bool" where
  "serasa_frame d d' \<longleftrightarrow> pay_frame d d' \<and> webhooks d' = webhooks d"

lemma add_items_webhooks [simp]: "webhooks (add_items gen its d) = webhooks d"
  by (induction its arbitrary: d) (simp_all add: add_item_def)

lemma add_rows_webhooks [simp]:
  "webhooks (add_item gen it d) = webhooks d" "webhooks (add_jobs js d) = webhooks d"
  "webhooks (update_contracts ids f d) = webhooks d" "webhooks (snd (add_operation gen op d)) = webhooks d"
  "webhooks (update_items P g d) = webhooks d" "webhooks (set_operation_status i st d) = webhooks d"
  by (simp_all add: add_item_def add_jobs_def update_contracts_def add_operation_def Let_def update_items_def
      set_operation_status_def)

lemma webhooks_operations:
  "webhooks (snd (create_operation gen now today w act u acc f d)) = webhooks d"
  "webhooks (snd (createForContract gen now i u acc act allow d)) = webhooks d"
  "webhooks (snd (retryUnconfirmedCreateOperation gen now i u acc d)) = webhooks d"
  "webhooks (snd (cancel_operation i acc d)) = webhooks d"
  by (simp_all add: create_operation_def createForContract_def retryUnconfirmedCreateOperation_def cancel_operation_def
      Let_def case_prod_unfold split: option.split sum.split)

lemma webhooks_cancel:
  "webhooks (snd (cancelContract gen now i u acc cr cn d)) = webhooks d"
  "webhooks (snd (cancelForContest gen now i acc p d)) = webhooks d"
  "webhooks (snd (createAutomaticRemovalForPaidContract gen now i acc d)) = webhooks d"
proof -
  show "webhooks (snd (cancelContract gen now i u acc cr cn d)) = webhooks d" for u cr cn
    by (auto simp: cancelContract_def Let_def case_prod_unfold webhooks_operations split: option.split sum.split)
  then show "webhooks (snd (cancelForContest gen now i acc p d)) = webhooks d"
    by (simp add: cancelForContest_def split: option.split)
  show "webhooks (snd (createAutomaticRemovalForPaidContract gen now i acc d)) = webhooks d"
    by (auto simp: createAutomaticRemovalForPaidContract_def case_prod_unfold webhooks_operations
        split: option.split sum.split)
qed

lemma webhooks_worker:
  "webhooks (process_job wk now job d) = webhooks d" "webhooks (reconcileStaleSerasaRemovals now d) = webhooks d"
proof -
  have ids: "webhooks (store_debt_ids its ids d) = webhooks d" for its ids d
  proof -
    have "webhooks (fold (\<lambda>(it, i) d'. case i of
             Some (c # cs) \<Rightarrow> update_contract (it_contractId it) (\<lambda>x. x\<lparr>ct_debtId := Some (c # cs)\<rparr>) d'
           | _ \<Rightarrow> d') xs d) = webhooks d" for xs
      by (induction xs arbitrary: d) (auto split: option.split list.split)
    then show ?thesis by (simp add: store_debt_ids_def)
  qed
  show "webhooks (process_job wk now job d) = webhooks d"
    by (simp add: process_job_def processCreateBatch_def processRemoveBatch_def updateOperationStatusIfComplete_def
        set_serasa_def Let_def ids split: sum.split)
  have "webhooks (fold (reconcile_removal now) its d) = webhooks d" for its
    by (induction its arbitrary: d) (simp_all add: reconcile_removal_def)
  then show "webhooks (reconcileStaleSerasaRemovals now d) = webhooks d"
    by (simp add: reconcileStaleSerasaRemovals_def)
qed

section \<open>Steps that keep the operations in order\<close>

definition orderly :: "(nat \<Rightarrow> string) \<Rightarrow> database \<Rightarrow> database \<Rightarrow> bool" where
  \<comment> \<open>no event is written, and the invariant of the operations is kept\<close>
  "orderly gen d d' \<longleftrightarrow>
     webhooks d' = webhooks d \<and> nextId d \<le> nextId d' \<and> (items_ok gen d \<longrightarrow> items_ok gen d')"

lemma orderly_refl [simp, intro]: "orderly gen d d"
  by (simp add: orderly_def)

lemma orderly_trans: "orderly gen d d1 \<Longrightarrow> orderly gen d1 d2 \<Longrightarrow> orderly gen d d2"
  by (simp add: orderly_def)

lemma orderly_frame: "ops_frame d d' \<Longrightarrow> orderly gen d d'"
  by (auto simp: ops_frame_def orderly_def intro: items_ok_same)

lemma orderly_webhooks_ok: "orderly gen d d' \<Longrightarrow> webhooks_ok gen d \<Longrightarrow> webhooks_ok gen d'"
  using gen_mono [of "nextId d" "nextId d'" gen] unfolding orderly_def webhooks_ok_def by (simp only:) blast

lemma orderly_remove:
  assumes "inj gen"
  shows "orderly gen d (snd (createAutomaticRemovalForPaidContract gen now i acc d))"
  using items_ok_automatic [OF _ assms, of d now i acc] webhooks_cancel(3) [of gen now i acc d]
    removal.remove_frame [of d gen now i acc]
  by (auto simp: orderly_def pay_frame_def intro: surjective_pairing)

lemma orderly_refresh:
  assumes "inj gen"
  shows "orderly gen d (snd (refreshContractPaymentProjection gen now i d))"
proof -
  have "orderly gen d (snd (createAutomaticRemovalForPaidContract gen now i acc (update_contract i f d)))" for acc f
    using orderly_trans [OF orderly_frame [OF ops_frame_rows(1)] orderly_remove [OF assms]] .
  then show ?thesis
    by (simp add: refreshContractPaymentProjection_def refresh_with_def Let_def orderly_frame ops_frame_rows
        split: option.split)
qed

lemma orderly_then:
  "orderly gen d (snd r) \<Longrightarrow> (\<And>x. orderly gen x (snd (k x))) \<Longrightarrow> orderly gen d (snd (then_do r k))"
  unfolding then_do_def by (auto split: prod.split sum.split intro: orderly_trans)

lemma orderly_webhook_interaction: "orderly gen d (snd (webhook_interaction gen ch x t d))"
  by (auto simp: webhook_interaction_def Let_def orderly_frame ops_frame_rows split: option.split)

lemma orderly_ensure:
  assumes "inj gen"
  shows "orderly gen d (snd (ensureSettlement gen now ch en d))"
proof -
  have finish: "orderly gen d (snd (then_do (refreshContractPaymentProjection gen now (ch_contractId ch) d1)
      (webhook_interaction gen ch x t)))" if "orderly gen d d1" for d1 x t
    using orderly_trans [OF that orderly_refresh [OF assms]] orderly_webhook_interaction
    by (intro orderly_then) auto
  have "orderly gen d d1" if "create_settlement gen s d = Some (s', d1)" for s s' d1
    using ops_frame_rows(6) [OF that] by (rule orderly_frame)
  then show ?thesis
    unfolding ensureSettlement_def Let_def
    by (auto simp: orderly_refresh [OF assms] intro!: finish split: option.split prod.split)
qed

lemma orderly_pix:
  assumes "inj gen"
  shows "orderly gen d (snd (processPixEntry gen now other en d)) \<or>
    orderly gen (other d) (snd (processPixEntry gen now other en d))"
proof -
  have mark: "ops_frame x (webhook_event_row gen ch (mark_paid ch t x))" for ch t x
    by (simp add: ops_frame_def webhook_event_row_def mark_paid_def create_event_def)
  have paid: "orderly gen d0 (snd (then_do (ensureSettlement gen now ch en (webhook_event_row gen ch (mark_paid ch t d0)))
      (webhook_interaction gen ch x y)))" for ch t x y d0
    using orderly_trans [OF orderly_frame [OF mark] orderly_ensure [OF assms]] orderly_webhook_interaction
    by (intro orderly_then) auto
  show ?thesis
    by (simp add: processPixEntry_def Let_def orderly_webhook_interaction orderly_ensure [OF assms] paid
        split: option.split)
qed

section \<open>Steps that only add to the ledger\<close>

definition charge_sig :: "payment_charge \<Rightarrow> string \<times> (string \<times> string) \<times> string \<times> rat" where
  "charge_sig c = (ch_id c, charge_key c, ch_contractId c, ch_amount c)"

definition grows :: "database \<Rightarrow> database \<Rightarrow> bool" where
  \<comment> \<open>settlements are only appended, and of charges only the state changes\<close>
  "grows d d' \<longleftrightarrow>
     (\<exists>new. settlements d' = settlements d @ new) \<and>
     (\<exists>new. map charge_sig (charges d') = map charge_sig (charges d) @ new)"

lemma grows_refl [simp, intro]: "grows d d"
  by (simp add: grows_def)

lemma grows_trans: "grows d d1 \<Longrightarrow> grows d1 d2 \<Longrightarrow> grows d d2"
  unfolding grows_def by (metis append.assoc)

lemma grows_frame: "charges d' = charges d \<Longrightarrow> settlements d' = settlements d \<Longrightarrow> grows d d'"
  by (simp add: grows_def)

lemma grows_pay_frame: "pay_frame d d' \<Longrightarrow> grows d d'"
  by (simp add: grows_frame pay_frame_def)

lemma grows_refused: "refused r d d' \<Longrightarrow> grows d d'"
  unfolding refused_def grows_def by (elim conjE, erule ssubst) simp

lemma grows_outcome: "charge_outcome gen fc r d d' \<Longrightarrow> grows d d'"
  by (auto simp: charge_outcome_def grows_def)

lemma grows_update:
  assumes "\<And>c. charge_sig (f c) = charge_sig c"
  shows "grows d (d\<lparr>charges := update_where P f (charges d)\<rparr>)"
  using assms by (simp add: grows_def map_update_where)

lemma grows_settlement: "grows d (createSettlementForCharge e ch t acc d)"
  using charge_settlements.appends [of e "(ch, t, acc)" d] by (simp add: grows_def)

lemma grows_issue_pix:
  assumes "issue_pix e ct w cr acc g base amount disc chn key d = (r, d')"
  shows "grows d d'"
  using issue_pix_cases [OF assms] grows_refused grows_outcome grows_frame by blast

lemma grows_createCharge: "createCharge e i dto acc d = (r, d') \<Longrightarrow> grows d d'"
  by (drule createCharge_cases) (elim disjE exE conjE; auto intro: grows_refused grows_outcome)

lemma grows_createPixForContract: "createPixForContract e i acc opt d = (r, d') \<Longrightarrow> grows d d'"
  by (drule createPixForContract_cases) (elim disjE exE conjE; auto intro: grows_refused grows_issue_pix)

lemma grows_createPixByDocument: "createPixByDocument e doc n k acc cr d = (r, d') \<Longrightarrow> grows d d'"
  by (drule createPixByDocument_cases) (elim disjE exE conjE; auto intro: grows_refused grows_issue_pix)

lemma grows_sync: "syncCharge e i acc d = (r, d') \<Longrightarrow> grows d d'"
proof -
  have "grows d (apply_sync e ch u acc d)" for ch u
  proof -
    have 1: "grows d (update_charge (ch_id ch) (synced ch u) d)"
      unfolding update_charge_def
      by (rule grows_update) (simp add: charge_sig_def synced_def charge_key_def)
    have ev: "grows x (createPaymentEvent e i f to s m y)" if "grows x y" for x y i f to s m
      using grows_trans [OF that grows_frame] by simp
    have "grows x (recordPixPaidInteraction e ch t s i (createSettlementForCharge e ch t acc y))" if "grows x y" for x y t s i
      using grows_trans [OF grows_trans [OF that grows_settlement] grows_frame] by simp
    then show ?thesis
      using 1 ev by (simp add: apply_sync_def Let_def)
  qed
  then show "syncCharge e i acc d = (r, d') \<Longrightarrow> grows d d'"
    using syncCharge_cases [of e i acc d r d'] grows_refused by blast
qed

lemma grows_step_frame:
  assumes "step_frame copy d d'"
  shows "grows d d'"
proof -
  have "list_all2 (row_step copy) (charges d) (charges d')"
    using assms by (simp add: step_frame_def)
  then have "map charge_sig (charges d') = map charge_sig (charges d)"
    by (induction rule: list_all2_induct) (auto simp: row_step_def charge_sig_def)
  then show ?thesis using assms by (auto simp: step_frame_def grows_def)
qed

lemma grows_events: "grows d (processEvent gen ev acc d)" "grows d (processReversal gen ev acc d)"
  by (cases rule: processEvent_cases [of ev d acc];
      simp add: processEvent_noop processEvent_new [OF _ _ _ refl] grows_def)
    (cases rule: processReversal_cases [of ev d acc];
      simp add: processReversal_noop processReversal_new [OF _ _ _ refl] grows_def)

lemma grows_settles: "settles gen ch en d d' \<Longrightarrow> grows d d'"
  using settles_settlements(1,3) [of gen ch en d d'] by (simp add: grows_def)

lemma grows_pix:
  assumes "grows d (other d)"
  shows "grows d (snd (processPixEntry gen now other en d))"
proof (cases rule: processPixEntry_cases [where d = d and gen = gen and now = now and other = other and en = en])
  case nothing
  then show ?thesis by (rule grows_pay_frame)
next
  case (settle ch)
  then show ?thesis by (auto intro: grows_settles)
next
  case (raced ch)
  then show ?thesis using assms by (auto intro: grows_trans grows_settles)
next
  case (paid ch t)
  have "grows (other d) (webhook_event_row gen ch (mark_paid ch t (other d)))"
    by (auto simp: grows_def map_update_where charge_sig_def charge_key_def)
  then show ?thesis
    using grows_trans [OF grows_trans [OF assms] grows_settles [OF paid(5)]] by simp
qed

section \<open>The Serasa operations as frames\<close>

lemma operations_pay_frame:
  "create_operation gen now today w act u acc f d = (r, d') \<Longrightarrow> pay_frame d d'"
  "createForContract gen now i u acc act allow d = (q, d') \<Longrightarrow> pay_frame d d'"
  "retryUnconfirmedCreateOperation gen now i u acc d = (r, d') \<Longrightarrow> pay_frame d d'"
  by (erule create_operation_cases createForContract_cases retryUnconfirmed_cases; simp add: operation_created_def)+

lemma cancel_pay_frame:
  "cancelContract gen now i u acc cr cn d = (b, d') \<Longrightarrow> pay_frame d d'"
  "cancelForContest gen now i acc p d = (b, d') \<Longrightarrow> pay_frame d d'"
  "cancel_operation i acc d = (st, d') \<Longrightarrow> pay_frame d d'"
proof -
  show c: "cancelContract gen now i u acc cr cn d = (b, d') \<Longrightarrow> pay_frame d d'" for u cr cn
    by (erule cancelContract_cases) simp_all
  show "cancelForContest gen now i acc p d = (b, d') \<Longrightarrow> pay_frame d d'"
    by (auto simp: cancelForContest_def split: option.splits intro: c)
  show "cancel_operation i acc d = (st, d') \<Longrightarrow> pay_frame d d'"
    by (auto simp: cancel_operation_def set_operation_status_def update_items_def pay_frame_def
        split: option.splits if_splits)
qed

lemma worker_pay_frame: "pay_frame d (process_job wk now job d)" "pay_frame d (reconcileStaleSerasaRemovals now d)"
proof -
  show "pay_frame d (process_job wk now job d)"
    by (cases rule: process_job_cases [of wk now job d]) simp_all
  have "pay_frame d (reconcile_removal now it d)" for it d
    by (simp add: reconcile_removal_def add_jobs_def set_operation_status_def update_items_def pay_frame_def)
  then have "pay_frame d (fold (reconcile_removal now) its d)" for its
    by (induction its arbitrary: d) (auto intro: pay_frame_trans)
  then show "pay_frame d (reconcileStaleSerasaRemovals now d)"
    by (simp add: reconcileStaleSerasaRemovals_def)
qed

section \<open>The system\<close>

inductive system_step :: "(nat \<Rightarrow> string) \<Rightarrow> database \<Rightarrow> database \<Rightarrow> bool" for gen where
  create_charge_step:
    "createCharge e i dto acc d = (r, d') \<Longrightarrow> e_gen e = gen \<Longrightarrow> system_step gen d d'"
| create_pix_step:
    "createPixForContract e i acc opt d = (r, d') \<Longrightarrow> e_gen e = gen \<Longrightarrow> system_step gen d d'"
| create_pix_document_step:
    "createPixByDocument e doc n k acc cr d = (r, d') \<Longrightarrow> e_gen e = gen \<Longrightarrow> system_step gen d d'"
| sync_step:
    "syncCharge e i acc d = (r, d') \<Longrightarrow> e_gen e = gen \<Longrightarrow> system_step gen d d'"
| charge_job_step:
    "e_gen e = gen \<Longrightarrow> system_step gen d (snd (process_charge e copy (results, d)))"
| agreement_job_step:
    "system_step gen d (markOverdueAgreementsAsBreached now d)"
| settlement_step:
    "system_step gen d (processEvent gen ev acc d)"
| reversal_step:
    "system_step gen d (processReversal gen ev acc d)"
| bank_step:
    "(system_step gen)\<^sup>*\<^sup>* d (other d) \<Longrightarrow> system_step gen d (snd (processPixEntry gen now other en d))"
| create_operation_step:
    "create_operation gen now today w act u acc f d = (q, d') \<Longrightarrow> system_step gen d d'"
| contract_operation_step:
    "createForContract gen now i u acc act allow d = (q, d') \<Longrightarrow> system_step gen d d'"
| retry_operation_step:
    "retryUnconfirmedCreateOperation gen now i u acc d = (q, d') \<Longrightarrow> system_step gen d d'"
| cancel_contract_step:
    "cancelContract gen now i u acc crd cn d = (b, d') \<Longrightarrow> system_step gen d d'"
| contest_step:
    "cancelForContest gen now i acc p d = (b, d') \<Longrightarrow> system_step gen d d'"
| cancel_operation_step:
    "cancel_operation i acc d = (st, d') \<Longrightarrow> system_step gen d d'"
| worker_step:
    "system_step gen d (process_job wk now job d)"
| stale_removals_step:
    "system_step gen d (reconcileStaleSerasaRemovals now d)"
| serasa_callback_step:
    "we_gen we = gen \<Longrightarrow> system_step gen d (snd (handleWebhook we ws down supplied signed pl d))"

definition system_ok :: "(nat \<Rightarrow> string) \<Rightarrow> database \<Rightarrow> bool" where
  "system_ok gen d \<longleftrightarrow> payments_ok gen d \<and> items_ok gen d \<and> webhooks_ok gen d"

definition evolves :: "(nat \<Rightarrow> string) \<Rightarrow> database \<Rightarrow> database \<Rightarrow> bool" where
  "evolves gen d d' \<longleftrightarrow> (system_ok gen d \<longrightarrow> system_ok gen d') \<and> grows d d'"

lemma evolves_refl [simp, intro]: "evolves gen d d"
  by (simp add: evolves_def)

lemma evolves_trans: "evolves gen d d1 \<Longrightarrow> evolves gen d1 d2 \<Longrightarrow> evolves gen d d2"
  by (auto simp: evolves_def intro: grows_trans)

lemma evolves_orderly:
  assumes "orderly gen d d'" and "grows d d'" and "payments_ok gen d \<Longrightarrow> payments_ok gen d'"
  shows "evolves gen d d'"
  using assms orderly_webhooks_ok [OF assms(1)] by (simp add: evolves_def system_ok_def orderly_def)

lemma evolves_operation:
  assumes "pay_frame d d'" and "webhooks d' = webhooks d" and "items_ok gen d \<Longrightarrow> items_ok gen d'"
  shows "evolves gen d d'"
proof (rule evolves_orderly)
  show "orderly gen d d'" using assms by (simp add: orderly_def pay_frame_def)
qed (use assms(1) in \<open>auto intro: grows_pay_frame pay_frame_ok\<close>)

lemma payments_ok_events: "payments_ok gen d \<Longrightarrow> payments_ok gen (processEvent gen ev acc d)"
  using callback_payments_ok [OF callback_processEvent] .

lemma payments_ok_reversal:
  assumes "payments_ok gen d"
  shows "payments_ok gen (processReversal gen ev acc d)"
proof -
  have "distinct (map settlement_key (settlements (processReversal gen ev acc d)))"
    using reversals.keeps_unique [of d gen "(ev, acc)"] assms by (simp add: payments_ok_def unique_keys_def)
  moreover have "charges (processReversal gen ev acc d) = charges d"
    by (cases rule: processReversal_cases [of ev d acc])
      (simp_all add: processReversal_noop processReversal_new [OF _ _ _ refl])
  moreover have "nextId d \<le> nextId (processReversal gen ev acc d)"
    using ops_frame_events(2) [of d gen ev acc] by (simp add: ops_frame_def)
  ultimately show ?thesis
    using assms fresh_ids_mono [of gen d "processReversal gen ev acc d"]
    by (simp add: payments_ok_def unique_keys_def)
qed

lemma webhook_evolves:
  assumes "inj gen" and "we_gen we = gen"
  shows "evolves gen d (snd (handleWebhook we ws down supplied signed pl d))"
proof -
  let ?d' = "snd (handleWebhook we ws down supplied signed pl d)"
  show ?thesis
  proof (cases rule: handleWebhook_cases [where we = we and ws = ws and down = down and supplied = supplied
        and signed = signed and p = pl and d = d])
    case refused
    then show ?thesis by simp
  next
    case (unmatched pv pvs)
    then show ?thesis
      using webhook_frame_ok [of ?d' d gen] assms set_webhook_status_ok create_webhook_ok [OF assms(1) _ unmatched(2)]
      by (auto simp: evolves_def system_ok_def grows_def)
  next
    case (failed pv pvs)
    then show ?thesis
      using webhook_frame_ok [of ?d' d gen] assms create_webhook_ok [OF assms(1) _ failed(2)]
      by (auto simp: evolves_def system_ok_def grows_def)
  next
    case (processed pv pvs it ct)
    let ?d1 = "create_webhook gen (event_type pl) (event_transaction pl) pl d"
    let ?d2 = "process_correlated we (event_type pl) pl (event_transaction pl) it ct ?d1"
    have step: "callback_step ?d1 ?d2" by (rule callback_process)
    have d': "?d' = set_webhook_status (gen (nextId d)) WH_PROCESSED ?d2"
      using processed(7) assms(2) by simp
    have "grows ?d1 ?d2" using step by (simp add: callback_step_def grows_def)
    moreover have "system_ok gen d \<Longrightarrow> system_ok gen ?d2"
      using webhook_frame_ok [of ?d1 d gen] callback_payments_ok [OF step] callback_items_ok [OF step]
        callback_webhooks_ok [OF step] create_webhook_ok [OF assms(1) _ processed(2)]
      by (simp add: system_ok_def)
    moreover have "system_ok gen ?d2 \<Longrightarrow> system_ok gen ?d'"
      unfolding d' using webhook_frame_ok [of "set_webhook_status (gen (nextId d)) WH_PROCESSED ?d2" ?d2 gen]
      by (simp add: system_ok_def set_webhook_status_ok)
    ultimately show ?thesis
      by (auto simp: evolves_def d' grows_def)
  qed
qed

lemma rtranclp_evolves:
  assumes "(\<lambda>a b. R a b \<and> evolves gen a b)\<^sup>*\<^sup>* d d'"
  shows "evolves gen d d'"
  using assms by (induction rule: rtranclp_induct) (auto intro: evolves_trans)

lemma system_step_evolves:
  assumes "system_step gen d d'" and "inj gen"
  shows "evolves gen d d'"
  using assms(1)
proof (induction rule: system_step.induct)
  case (create_charge_step e i dto acc d r d')
  then show ?case
    using ops_frame_createCharge [of d e i dto acc] payments_ok_createCharge [of e i dto acc d r d'] assms(2)
    by (intro evolves_orderly) (auto intro: orderly_frame grows_createCharge)
next
  case (create_pix_step e i acc opt d r d')
  then show ?case
    using ops_frame_pix(1) [of d e i acc opt] payments_ok_createPixForContract [of e i acc opt d r d'] assms(2)
    by (intro evolves_orderly) (auto intro: orderly_frame grows_createPixForContract)
next
  case (create_pix_document_step e doc n k acc cr d r d')
  then show ?case
    using ops_frame_pix(2) [of d e doc n k acc cr] payments_ok_createPixByDocument [of e doc n k acc cr d r d'] assms(2)
    by (intro evolves_orderly) (auto intro: orderly_frame grows_createPixByDocument)
next
  case (sync_step e i acc d r d')
  then show ?case
    using ops_frame_sync [of d e i acc] payments_ok_syncCharge [of e i acc d r d']
    by (intro evolves_orderly) (auto intro: orderly_frame grows_sync)
next
  case (charge_job_step e d copy results)
  then show ?case
    using ops_frame_job [of "(results, d)" e copy] step_frame_process [of copy "(results, d)" e]
    by (intro evolves_orderly) (auto intro: orderly_frame grows_step_frame payments_ok_step_frame)
next
  case (agreement_job_step d now)
  have "charges (markOverdueAgreementsAsBreached now d) = charges d"
    "settlements (markOverdueAgreementsAsBreached now d) = settlements d"
    "nextId (markOverdueAgreementsAsBreached now d) = nextId d"
    by (simp_all add: markOverdueAgreementsAsBreached_def)
  then show ?case
    by (intro evolves_orderly) (auto intro: orderly_frame ops_frame_overdue grows_frame payments_ok_frame)
next
  case (settlement_step d ev acc)
  show ?case
    by (intro evolves_orderly orderly_frame ops_frame_events grows_events payments_ok_events)
next
  case (reversal_step d ev acc)
  show ?case
    by (intro evolves_orderly orderly_frame ops_frame_events grows_events payments_ok_reversal)
next
  case (bank_step d other now en)
  have other: "evolves gen d (other d)"
    using bank_step.IH by (rule rtranclp_evolves)
  let ?d' = "snd (processPixEntry gen now other en d)"
  have "system_ok gen ?d'" if ok: "system_ok gen d"
  proof -
    have ok': "system_ok gen (other d)" using other ok by (simp add: evolves_def)
    have "payments_ok gen ?d'"
      using ok ok' by (intro payments_ok_webhook) (simp_all add: system_ok_def)
    moreover have "items_ok gen ?d' \<and> webhooks_ok gen ?d'"
      using orderly_pix [OF assms(2), of d now other en]
    proof
      assume o: "orderly gen d ?d'"
      then show ?thesis using ok orderly_webhooks_ok [OF o] by (simp add: system_ok_def orderly_def)
    next
      assume o: "orderly gen (other d) ?d'"
      then show ?thesis using ok' orderly_webhooks_ok [OF o] by (simp add: system_ok_def orderly_def)
    qed
    ultimately show ?thesis by (simp add: system_ok_def)
  qed
  moreover have "grows d ?d'"
    using other by (intro grows_pix) (simp add: evolves_def)
  ultimately show ?case by (simp add: evolves_def)
next
  case (create_operation_step now today w act u acc f d q d')
  then show ?case
    using operations_pay_frame(1) webhooks_operations(1) [of gen now today w act u acc f d] items_ok_create_operation assms(2)
    by (intro evolves_operation) auto
next
  case (contract_operation_step now i u acc act allow d q d')
  then show ?case
    using operations_pay_frame(2) webhooks_operations(2) [of gen now i u acc act allow d] items_ok_createForContract assms(2)
    by (intro evolves_operation) auto
next
  case (retry_operation_step now i u acc d q d')
  then show ?case
    using operations_pay_frame(3) webhooks_operations(3) [of gen now i u acc d] items_ok_retry assms(2)
    by (intro evolves_operation) auto
next
  case (cancel_contract_step now i u acc crd cn d b d')
  then show ?case
    using cancel_pay_frame(1) webhooks_cancel(1) [of gen now i u acc crd cn d] items_ok_cancelContract assms(2)
    by (intro evolves_operation) auto
next
  case (contest_step now i acc p d b d')
  then show ?case
    using cancel_pay_frame(2) webhooks_cancel(2) [of gen now i acc p d] items_ok_cancelForContest assms(2)
    by (intro evolves_operation) auto
next
  case (cancel_operation_step i acc d st d')
  then show ?case
    using cancel_pay_frame(3) webhooks_operations(4) [of i acc d] items_ok_cancel_operation
    by (intro evolves_operation) auto
next
  case (worker_step d wk now job)
  show ?case
    by (intro evolves_operation worker_pay_frame webhooks_worker items_ok_process_job)
next
  case (stale_removals_step d now)
  show ?case
    by (intro evolves_operation worker_pay_frame webhooks_worker items_ok_reconcile)
next
  case (serasa_callback_step we d ws down supplied signed pl)
  then show ?case using webhook_evolves [OF assms(2)] by simp
qed


section \<open>The invariants of the system\<close>

text \<open>
  C17. Whatever sequence of calls, jobs and webhooks runs, in any order, with any interference while a bank
  confirmation waits and any answer of the providers: the unique keys of charges and settlements, the
  fresh identifiers, the agreement of operations, items and queue, and the unique events are kept; the
  ledger of settlements only grows at its end, and a charge never disappears nor changes its key, its
  contract or its amount.
\<close>

theorem system_invariant:
  assumes "inj gen" and "system_ok gen d" and "(system_step gen)\<^sup>*\<^sup>* d d'"
  shows "system_ok gen d' \<and> (\<exists>new. settlements d' = settlements d @ new) \<and>
    (\<exists>new. map charge_sig (charges d') = map charge_sig (charges d) @ new)"
proof -
  have "evolves gen d d'"
    using assms(3)
  proof (induction rule: rtranclp_induct)
    case (step x y)
    then show ?case using system_step_evolves [OF step(2) assms(1)] by (blast intro: evolves_trans)
  qed simp
  then show ?thesis using assms(2) by (simp add: evolves_def grows_def)
qed

lemma sample_system_ok: "system_ok sample_gen sample_db"
  by (simp add: system_ok_def sample_db_ok items_ok_def webhooks_ok_def) (simp add: sample_db_def)

lemma system_invariant_witness:
  "system_ok sample_gen (process_job (sample_worker (NoResponse ''down'')) 2000 sample_job
     (processEvent sample_gen (sample_event ''p1'' 100) ''a1'' sample_db))"
proof -
  have "(system_step sample_gen)\<^sup>*\<^sup>* sample_db (process_job (sample_worker (NoResponse ''down'')) 2000 sample_job
     (processEvent sample_gen (sample_event ''p1'' 100) ''a1'' sample_db))"
    by (rule rtranclp.rtrancl_into_rtrancl [OF r_into_rtranclp]) (rule settlement_step worker_step)+
  then show ?thesis
    using system_invariant [OF inj_sample_gen sample_system_ok] by blast
qed

end
