(* ===== verification/Documents.thy ===== *)
theory Documents
  imports JsValues
begin

text \<open>
  The identity of a debt: the documents of Brazilian debtors (\<open>common/utils/cpf.util.ts\<close>,
  \<open>common/utils/cnpj.util.ts\<close>), the mask that viewers see (\<open>maskDocument\<close>) and the deduplication key
  of \<open>contracts/deduplication.service.ts\<close>. SHA-256 is a parameter \<open>sha\<close>. The calendar text of a
  timestamp is \<open>toISOString().slice(0, 10)\<close> of the proleptic Gregorian calendar.
\<close>

section \<open>CPF and CNPJ\<close>

definition normalizeCnpj :: "string \<Rightarrow> string" where
  "normalizeCnpj s = filter (\<lambda>c. is_upper c \<or> is_digit c) (to_upper s)"

definition weighted_sum :: "nat list \<Rightarrow> nat list \<Rightarrow> nat" where
  "weighted_sum ws vs = sum_list (map2 (*) ws vs)"

definition all_same :: "string \<Rightarrow> bool" where
  "all_same s = (case s of [] \<Rightarrow> True | c # cs \<Rightarrow> list_all (\<lambda>x. x = c) cs)"

definition cpf_digit :: "nat list \<Rightarrow> nat list \<Rightarrow> nat" where
  "cpf_digit ws vs = (let r = (weighted_sum ws vs * 10) mod 11 in if r = 10 then 0 else r)"

definition isValidCpf :: "string \<Rightarrow> bool" where
  "isValidCpf s =
     (length s = 11 \<and> list_all is_digit s \<and> \<not> all_same s \<and>
      (let ds = map digit_val s
       in ds ! 9 = cpf_digit [10, 9, 8, 7, 6, 5, 4, 3, 2] (take 9 ds) \<and>
          ds ! 10 = cpf_digit [11, 10, 9, 8, 7, 6, 5, 4, 3, 2] (take 10 ds)))"

definition cnpj_digit :: "nat list \<Rightarrow> nat list \<Rightarrow> nat" where
  "cnpj_digit ws vs = (let r = weighted_sum ws vs mod 11 in if r < 2 then 0 else 11 - r)"

definition cnpj_shape :: "string \<Rightarrow> bool" where
  \<comment> \<open>the pattern \<open>^[A-Z0-9]{12}\d{2}$\<close>\<close>
  "cnpj_shape s =
     (length s = 14 \<and> list_all (\<lambda>c. is_upper c \<or> is_digit c) (take 12 s) \<and> list_all is_digit (drop 12 s))"

definition cpf_shape :: "string \<Rightarrow> bool" where
  \<comment> \<open>the pattern \<open>^\d{11}$\<close>\<close>
  "cpf_shape s = (length s = 11 \<and> list_all is_digit s)"

definition isValidCnpj :: "string \<Rightarrow> bool" where
  "isValidCnpj s =
     (let n = normalizeCnpj s
      in cnpj_shape n \<and> \<not> (list_all is_digit n \<and> all_same n) \<and>
         (let vs = map digit_val (take 12 n);
              d1 = cnpj_digit [5, 4, 3, 2, 9, 8, 7, 6, 5, 4, 3, 2] vs;
              d2 = cnpj_digit [6, 5, 4, 3, 2, 9, 8, 7, 6, 5, 4, 3, 2] (vs @ [d1])
          in digit_val (n ! 12) = d1 \<and> digit_val (n ! 13) = d2))"

definition maskDocument :: "string \<Rightarrow> string" where
  "maskDocument s = (if length s \<le> 4 then s else ''***'' @ drop (length s - 4) s)"

section \<open>Calendar dates\<close>

definition day_ms :: int where
  "day_ms = 86400000"

definition civil :: "int \<Rightarrow> int \<times> int \<times> int" where
  \<comment> \<open>year, month and day of a count of days since 1970-01-01\<close>
  "civil days =
     (let z = days + 719468;
          era = z div 146097;
          doe = z mod 146097;
          yoe = (doe - doe div 1460 + doe div 36524 - doe div 146096) div 365;
          doy = doe - (365 * yoe + yoe div 4 - yoe div 100);
          mp = (5 * doy + 2) div 153;
          d = doy - (153 * mp + 2) div 5 + 1;
          m = (if mp < 10 then mp + 3 else mp - 9)
      in (yoe + era * 400 + (if m \<le> 2 then 1 else 0), m, d))"

definition pad_left :: "nat \<Rightarrow> string \<Rightarrow> string" where
  "pad_left n s = replicate (n - length s) (CHR ''0'') @ s"

definition iso_year :: "int \<Rightarrow> string" where
  "iso_year y =
     (if 0 \<le> y \<and> y \<le> 9999 then pad_left 4 (show_nat (nat y))
      else (if y < 0 then ''-'' else ''+'') @ pad_left 6 (show_nat (nat \<bar>y\<bar>)))"

definition iso_date :: "int \<Rightarrow> string" where
  \<comment> \<open>\<open>new Date(ms).toISOString().slice(0, 10)\<close>\<close>
  "iso_date ms =
     (case civil (ms div day_ms) of (y, m, d) \<Rightarrow>
        take 10 (iso_year y @ ''-'' @ pad_left 2 (show_nat (nat m)) @ ''-'' @ pad_left 2 (show_nat (nat d))))"

section \<open>The deduplication key\<close>

definition key_text :: "(string \<Rightarrow> string) \<Rightarrow> string \<Rightarrow> string \<Rightarrow> string \<Rightarrow> int option \<Rightarrow> string" where
  "key_text sha creditorId document number dueDate =
     creditorId @ ''|'' @ sha document @ ''|'' @ number @ ''|'' @
     (case dueDate of None \<Rightarrow> '''' | Some ms \<Rightarrow> iso_date ms)"

definition computeDeduplicationKey ::
  "(string \<Rightarrow> string) \<Rightarrow> string \<Rightarrow> string \<Rightarrow> string \<Rightarrow> int option \<Rightarrow> string" where
  "computeDeduplicationKey sha creditorId document number dueDate =
     sha (key_text sha creditorId document number dueDate)"

section \<open>Facts about documents\<close>

lemma upper_char_idem [simp]: "upper_char (upper_char c) = upper_char c"
  by (auto simp: upper_char_def is_lower_def code_def)

lemma upper_char_kept: "is_upper c \<or> is_digit c \<Longrightarrow> upper_char c = c"
  by (auto simp: upper_char_def is_lower_def is_upper_def is_digit_def)

lemma normalizeCnpj_chars: "list_all (\<lambda>c. is_upper c \<or> is_digit c) (normalizeCnpj s)"
  by (simp add: normalizeCnpj_def list_all_iff)

lemma normalizeCnpj_fixed:
  assumes "list_all (\<lambda>c. is_upper c \<or> is_digit c) s"
  shows "normalizeCnpj s = s"
proof -
  have "to_upper s = s"
    using assms by (auto simp: to_upper_def list_all_iff upper_char_kept intro!: map_idI)
  then show ?thesis
    using assms by (simp add: normalizeCnpj_def list_all_iff)
qed

lemma normalizeCnpj_idem [simp]: "normalizeCnpj (normalizeCnpj s) = normalizeCnpj s"
  by (rule normalizeCnpj_fixed) (rule normalizeCnpj_chars)

lemma isValidCnpj_normalize: "isValidCnpj (normalizeCnpj s) = isValidCnpj s"
  by (simp add: isValidCnpj_def)

lemma cpf_digit_bound: "cpf_digit ws vs < 10"
proof -
  have "weighted_sum ws vs * 10 mod 11 < 11" by simp
  then show ?thesis by (auto simp: cpf_digit_def Let_def)
qed

lemma cnpj_digit_bound: "cnpj_digit ws vs < 10"
  by (auto simp: cnpj_digit_def Let_def)

lemma digit_val_inject: "is_digit a \<Longrightarrow> is_digit b \<Longrightarrow> digit_val a = digit_val b \<Longrightarrow> a = b"
proof -
  assume "is_digit a" "is_digit b" "digit_val a = digit_val b"
  then have "code a = code b"
    by (auto simp: is_digit_def digit_val_def)
  then show "a = b"
    by (simp add: code_def)
qed

lemma valid_cpf_shape: "isValidCpf s \<Longrightarrow> cpf_shape s"
  by (auto simp: isValidCpf_def cpf_shape_def)

lemma cpf_not_cnpj: "cpf_shape s \<Longrightarrow> \<not> cnpj_shape s"
  by (simp add: cpf_shape_def cnpj_shape_def)

lemma length_mask: "length (maskDocument s) \<le> max (length s) 7"
  by (auto simp: maskDocument_def)

section \<open>Facts about the key\<close>

lemma bar_not_digit: "is_digit c \<Longrightarrow> c \<noteq> CHR ''|''"
  by (auto simp: is_digit_def code_def)

lemma pad_left_chars: "c \<in> set (pad_left n s) \<Longrightarrow> c = CHR ''0'' \<or> c \<in> set s"
  by (auto simp: pad_left_def)

lemma bar_not_in_show: "CHR ''|'' \<notin> set (pad_left n (show_nat m))"
  using show_nat_digits [of "CHR ''|''" m] bar_not_digit pad_left_chars [of "CHR ''|''" n "show_nat m"]
  by auto

lemma bar_not_in_iso_date: "CHR ''|'' \<notin> set (iso_date ms)"
proof -
  obtain y m d where c: "civil (ms div day_ms) = (y, m, d)"
    by (cases "civil (ms div day_ms)") auto
  have "CHR ''|'' \<notin> set (iso_year y)"
    using bar_not_in_show by (auto simp: iso_year_def)
  then have "CHR ''|'' \<notin> set (iso_year y @ ''-'' @ pad_left 2 (show_nat (nat m)) @ ''-'' @
      pad_left 2 (show_nat (nat d)))"
    using bar_not_in_show by simp
  then show ?thesis
    unfolding iso_date_def c prod.case by (blast dest: in_set_takeD)
qed

lemma split_first:
  assumes "a @ c # r = a' @ c # r'" and "c \<notin> set a" and "c \<notin> set a'"
  shows "a = a'" and "r = r'"
proof -
  have t: "takeWhile (\<lambda>x. x \<noteq> c) (b @ c # s) = b" if "c \<notin> set b" for b s
    using that by (induction b) auto
  show "a = a'"
    using arg_cong [OF assms(1), of "takeWhile (\<lambda>x. x \<noteq> c)"] assms(2,3) by (simp add: t)
  then show "r = r'" using assms(1) by simp
qed

lemma split_last:
  assumes "a @ c # r = a' @ c # r'" and "c \<notin> set r" and "c \<notin> set r'"
  shows "a = a'" and "r = r'"
proof -
  have "rev r @ c # rev a = rev r' @ c # rev a'"
    using arg_cong [OF assms(1), of rev] by simp
  from split_first [OF this] assms(2,3) show "a = a'" "r = r'" by simp_all
qed

lemma key_text_inject:
  assumes "key_text sha cr doc nr due = key_text sha cr' doc' nr' due'"
    and "CHR ''|'' \<notin> set cr" and "CHR ''|'' \<notin> set cr'" and "\<And>s. CHR ''|'' \<notin> set (sha s)"
  shows "cr = cr'" and "sha doc = sha doc'" and "nr = nr'"
    and "(case due of None \<Rightarrow> '''' | Some ms \<Rightarrow> iso_date ms)
       = (case due' of None \<Rightarrow> '''' | Some ms \<Rightarrow> iso_date ms)"
proof -
  let ?d = "\<lambda>x. case x of None \<Rightarrow> '''' | Some ms \<Rightarrow> iso_date ms"
  have e: "cr @ CHR ''|'' # (sha doc @ CHR ''|'' # (nr @ CHR ''|'' # ?d due))
      = cr' @ CHR ''|'' # (sha doc' @ CHR ''|'' # (nr' @ CHR ''|'' # ?d due'))"
    using assms(1) by (simp add: key_text_def)
  have e2: "sha doc @ CHR ''|'' # (nr @ CHR ''|'' # ?d due) = sha doc' @ CHR ''|'' # (nr' @ CHR ''|'' # ?d due')"
    using split_first(2) [OF e assms(2,3)] .
  have e3: "nr @ CHR ''|'' # ?d due = nr' @ CHR ''|'' # ?d due'"
    using split_first(2) [OF e2 assms(4) assms(4)] .
  have bar: "CHR ''|'' \<notin> set (?d due)" "CHR ''|'' \<notin> set (?d due')"
    using bar_not_in_iso_date by (auto split: option.splits)
  show "cr = cr'" by (rule split_first(1) [OF e assms(2,3)])
  show "sha doc = sha doc'" by (rule split_first(1) [OF e2 assms(4) assms(4)])
  show "nr = nr'" by (rule split_last(1) [OF e3 bar])
  show "?d due = ?d due'" by (rule split_last(2) [OF e3 bar])
qed

definition due_day :: "int option \<Rightarrow> string option" where
  "due_day = map_option iso_date"

lemma iso_date_nonempty: "iso_date ms \<noteq> ''''"
  by (simp add: iso_date_def split: prod.splits)

text \<open>
  C22. The key identifies the debt: two contracts with the same key have the same creditor, the same
  document, the same contract number and the same due day. The hash has no collision among the texts
  at hand and, being hexadecimal, never contains the separator. (Requirement 11.3, the design
  and the tests of the service end the key with the hash of the document of origin, where there is one, and know
  no due date; the code ends it with the due day and ignores the origin.)
\<close>

lemma dedup_key_identifies:
  assumes "inj_on sha {doc, doc', key_text sha cr doc nr due, key_text sha cr' doc' nr' due'}"
    and "\<And>s. CHR ''|'' \<notin> set (sha s)"
    and "CHR ''|'' \<notin> set cr" and "CHR ''|'' \<notin> set cr'"
    and "computeDeduplicationKey sha cr doc nr due = computeDeduplicationKey sha cr' doc' nr' due'"
  shows "cr = cr' \<and> doc = doc' \<and> nr = nr' \<and> due_day due = due_day due'"
proof -
  have k: "key_text sha cr doc nr due = key_text sha cr' doc' nr' due'"
    by (rule inj_onD [OF assms(1) assms(5) [unfolded computeDeduplicationKey_def]]) simp_all
  note parts = key_text_inject [OF k assms(3,4,2)]
  have "doc = doc'" by (rule inj_onD [OF assms(1) parts(2)]) simp_all
  moreover have "due_day due = due_day due'"
    using parts(4) iso_date_nonempty iso_date_nonempty [symmetric]
    by (auto simp: due_day_def split: option.splits)
  ultimately show ?thesis using parts by blast
qed

lemma dedup_key_identifies_witness:
  "computeDeduplicationKey (filter (\<lambda>c. c \<noteq> CHR ''|'')) ''cr1'' ''123'' ''n|1'' (Some 0)
     = computeDeduplicationKey (filter (\<lambda>c. c \<noteq> CHR ''|'')) ''cr1'' ''123'' ''n|1'' (Some 1000) \<and>
   due_day (Some 0) = due_day (Some 1000)"
proof -
  let ?sha = "filter (\<lambda>c. c \<noteq> CHR ''|'')"
  have "iso_date 0 = iso_date 1000" by (simp add: iso_date_def day_ms_def)
  then have keys: "key_text ?sha ''cr1'' ''123'' ''n|1'' (Some 0) = key_text ?sha ''cr1'' ''123'' ''n|1'' (Some 1000)"
    by (simp add: key_text_def)
  then have same: "computeDeduplicationKey ?sha ''cr1'' ''123'' ''n|1'' (Some 0)
      = computeDeduplicationKey ?sha ''cr1'' ''123'' ''n|1'' (Some 1000)"
    by (simp add: computeDeduplicationKey_def)
  have "inj_on ?sha {''123'', ''123'', key_text ?sha ''cr1'' ''123'' ''n|1'' (Some 0),
      key_text ?sha ''cr1'' ''123'' ''n|1'' (Some 1000)}"
    unfolding keys by (simp add: key_text_def)
  from dedup_key_identifies [OF this _ _ _ same] same show ?thesis by simp
qed

text \<open>The check digits are determined by the rest of the document.\<close>

lemma cnpj_check_digits:
  assumes "isValidCnpj s" and "isValidCnpj t"
    and "take 12 (normalizeCnpj s) = take 12 (normalizeCnpj t)"
  shows "normalizeCnpj s = normalizeCnpj t"
proof -
  let ?s = "normalizeCnpj s" and ?t = "normalizeCnpj t"
  have len: "length ?s = 14" "length ?t = 14"
    using assms(1,2) by (simp_all add: isValidCnpj_def cnpj_shape_def Let_def)
  have digits: "is_digit (?s ! i) \<and> is_digit (?t ! i)" if "i = 12 \<or> i = 13" for i
  proof -
    have "is_digit (x ! i)" if "cnpj_shape x" for x
    proof -
      from that have "list_all is_digit (drop 12 x)" "length (drop 12 x) = 2" "length x = 14"
        by (simp_all add: cnpj_shape_def)
      then have "is_digit (drop 12 x ! 0)" "is_digit (drop 12 x ! 1)"
        by (simp_all add: list_all_length del: nth_drop)
      with \<open>length x = 14\<close> \<open>i = 12 \<or> i = 13\<close> show ?thesis by auto
    qed
    with assms(1,2) show ?thesis
      by (simp add: isValidCnpj_def Let_def)
  qed
  have vals: "digit_val (?s ! i) = digit_val (?t ! i)" if "i = 12 \<or> i = 13" for i
  proof -
    from that show ?thesis
      using assms unfolding isValidCnpj_def Let_def by (elim disjE conjE) simp_all
  qed
  have eq: "?s ! i = ?t ! i" if "i = 12 \<or> i = 13" for i
    using digits [OF that] vals [OF that] digit_val_inject by blast
  have last2: "drop 12 x = [x ! 12, x ! 13]" if "length x = 14" for x :: string
    using that by (auto simp: list_eq_iff_nth_eq less_Suc_eq numeral_2_eq_2)
  have "drop 12 ?s = drop 12 ?t"
    unfolding last2 [OF len(1)] last2 [OF len(2)] by (simp add: eq)
  with assms(3) show ?thesis
    by (metis append_take_drop_id)
qed

end
