(* ===== verification/Offers.thy ===== *)
theory Offers
  imports Documents
begin

text \<open>
  The commercial offer of a contract: \<open>contracts/offer-calculator.ts\<close>, the discount bands of the
  creditor (the ceiling) and of the wallet (the strategy) and the snapshots that
  \<open>contracts/contracts.service.ts\<close> and \<open>wallets/wallets.service.ts\<close> write. Amounts and percentages
  are rationals; the columns of the snapshot round to two decimals when a row is stored
  (\<open>stored_offer\<close>). The day of a timestamp in the time zone of the business
  (\<open>America/Sao_Paulo\<close>) is a parameter \<open>day\<close>.
\<close>

section \<open>Aging and bands\<close>

definition calculateAgingDays :: "(int \<Rightarrow> int) \<Rightarrow> int \<Rightarrow> int \<Rightarrow> int" where
  "calculateAgingDays day now due = max 0 (day now - day due)"

definition in_band :: "int \<Rightarrow> int option \<Rightarrow> int \<Rightarrow> bool" where
  "in_band mn mx aging \<longleftrightarrow> mn \<le> aging \<and> (case mx of None \<Rightarrow> True | Some m \<Rightarrow> aging \<le> m)"

definition ceiling_band :: "creditor \<Rightarrow> int \<Rightarrow> creditor_band option" where
  "ceiling_band cr aging =
     List.find (\<lambda>b. in_band (cb_minAgingDays b) (cb_maxAgingDays b) aging)
       (sort_key cb_minAgingDays (cr_discountBands cr))"

definition strategy_band :: "wallet \<Rightarrow> int \<Rightarrow> wallet_band option" where
  "strategy_band w aging =
     List.find (\<lambda>b. in_band (wb_minAgingDays b) (wb_maxAgingDays b) aging)
       (sort_key wb_minAgingDays (wl_discountBands w))"

definition ceiling_percent :: "wallet \<Rightarrow> creditor_band \<Rightarrow> rat" where
  "ceiling_percent w b =
     (if 1 < wl_offerMaxInstallments w then cb_installmentDiscountPercent b else cb_cashDiscountPercent b)"

definition strategy_percent :: "wallet \<Rightarrow> wallet_band \<Rightarrow> rat option" where
  "strategy_percent w b =
     (if 1 < wl_offerMaxInstallments w then wb_installmentStrategyDiscountPercent b
      else wb_cashStrategyDiscountPercent b)"

definition maximum_discount :: "wallet \<Rightarrow> creditor \<Rightarrow> int \<Rightarrow> rat" where
  "maximum_discount w cr aging =
     (case ceiling_band cr aging of
        Some b \<Rightarrow> ceiling_percent w b
      | None \<Rightarrow> wl_cobcomDiscountPercent w)"

definition strategy_discount :: "wallet \<Rightarrow> int \<Rightarrow> rat" where
  \<comment> \<open>\<open>Number(null)\<close> is 0\<close>
  "strategy_discount w aging =
     (case strategy_band w aging of
        Some b \<Rightarrow> or_else (strategy_percent w b) 0
      | None \<Rightarrow> wl_cobcomDiscountPercent w)"

section \<open>Prices\<close>

definition net_of :: "rat \<Rightarrow> rat \<Rightarrow> rat" where
  \<comment> \<open>\<open>Math.round(value * (1 - percent / 100) * 100) / 100\<close>\<close>
  "net_of value percent = js_round2 (value * (1 - percent / 100))"

record calculated_offer =
  co_offerValue :: rat
  co_offerDiscountPercent :: rat
  co_offerFirstInstallmentDays :: int
  co_offerMaxInstallments :: int

definition calculateOffer :: "rat \<Rightarrow> wallet \<Rightarrow> calculated_offer" where
  "calculateOffer updatedValue w =
     (let discount = min 100 (max 0 (wl_cobcomDiscountPercent w));
          offerValue = net_of updatedValue discount;
          minimumInstallment = wl_offerMinInstallmentValue w;
          configuredMaximum = max 1 (wl_offerMaxInstallments w);
          allowedByValue = (if 0 < minimumInstallment then max 1 \<lfloor>offerValue / minimumInstallment\<rfloor>
                            else configuredMaximum)
      in \<lparr>co_offerValue = offerValue, co_offerDiscountPercent = discount,
          co_offerFirstInstallmentDays =
            max 1 (if wl_offerFirstInstallmentDays w = 0 then 5 else wl_offerFirstInstallmentDays w),
          co_offerMaxInstallments = min configuredMaximum allowedByValue\<rparr>)"

definition with_calculated :: "calculated_offer \<Rightarrow> offer_snapshot \<Rightarrow> offer_snapshot" where
  \<comment> \<open>the four columns of a calculated offer, as they are stored\<close>
  "with_calculated c s =
     s\<lparr>of_value := Some (dec2 (co_offerValue c)),
       of_discountPercent := Some (dec2 (co_offerDiscountPercent c)),
       of_firstInstallmentDays := Some (co_offerFirstInstallmentDays c),
       of_maxInstallments := Some (co_offerMaxInstallments c)\<rparr>"

definition created_offer :: "rat \<Rightarrow> wallet \<Rightarrow> creditor \<Rightarrow> int \<Rightarrow> offer_snapshot" where
  \<comment> \<open>the snapshot \<open>createOrUpdate\<close> computes\<close>
  "created_offer updatedValue w cr aging =
     (let base = calculateOffer updatedValue w;
          maximum = maximum_discount w cr aging;
          discount = min (strategy_discount w aging) maximum
      in \<lparr>of_value = Some (net_of updatedValue discount), of_discountPercent = Some discount,
          of_firstInstallmentDays = Some (co_offerFirstInstallmentDays base),
          of_maxInstallments = Some (co_offerMaxInstallments base),
          of_maximumDiscountPercent = Some maximum,
          of_repasseValue = Some (net_of updatedValue maximum),
          of_commissionPercent = Some (cr_commissionPercent cr),
          of_commissionValue =
            Some (of_int (js_round (updatedValue * (1 - maximum / 100) * cr_commissionPercent cr)) / 100)\<rparr>)"

definition priced_offer :: "rat \<Rightarrow> wallet \<Rightarrow> creditor \<Rightarrow> rat \<Rightarrow> rat \<Rightarrow> int \<Rightarrow> offer_snapshot" where
  \<comment> \<open>the snapshot of \<open>recalculateOffer\<close> and of a manual discount\<close>
  "priced_offer updatedValue w cr discount maximum maxInstallments =
     (let repasse = net_of updatedValue maximum
      in \<lparr>of_value = Some (net_of updatedValue discount), of_discountPercent = Some discount,
          of_firstInstallmentDays = Some (wl_offerFirstInstallmentDays w),
          of_maxInstallments = Some maxInstallments,
          of_maximumDiscountPercent = Some maximum, of_repasseValue = Some repasse,
          of_commissionPercent = Some (cr_commissionPercent cr),
          of_commissionValue = Some (js_round2 (repasse * cr_commissionPercent cr / 100))\<rparr>)"

definition recalculated_offer :: "rat \<Rightarrow> wallet \<Rightarrow> creditor \<Rightarrow> int \<Rightarrow> offer_snapshot" where
  "recalculated_offer updatedValue w cr aging =
     (let maximum = maximum_discount w cr aging;
          discount = min (strategy_discount w aging) maximum;
          offerValue = net_of updatedValue discount;
          minimumInstallment = wl_offerMinInstallmentValue w;
          byValue = (if 0 < minimumInstallment then max 1 \<lfloor>offerValue / minimumInstallment\<rfloor>
                     else wl_offerMaxInstallments w)
      in priced_offer updatedValue w cr discount maximum (min (wl_offerMaxInstallments w) byValue))"

definition stored_offer :: "offer_snapshot \<Rightarrow> offer_snapshot" where
  \<comment> \<open>the decimal columns\<close>
  "stored_offer s =
     s\<lparr>of_value := map_option dec2 (of_value s),
       of_discountPercent := map_option dec2 (of_discountPercent s),
       of_maximumDiscountPercent := map_option dec2 (of_maximumDiscountPercent s),
       of_repasseValue := map_option dec2 (of_repasseValue s),
       of_commissionPercent := map_option dec2 (of_commissionPercent s),
       of_commissionValue := map_option dec2 (of_commissionValue s)\<rparr>"

section \<open>Set-based repricing\<close>

text \<open>
  The SQL of \<open>WalletsService.recalculateOffers\<close>. \<open>ROUND(x, 2)\<close> on \<open>numeric\<close> rounds half away
  from zero; \<open>COALESCE\<close> falls back to the flat discount of the wallet when no band matches or the
  band has no strategy; the band with the greatest start wins. \<open>None\<close> is an error of the database,
  which aborts the statement: a division by zero, or a number of installments outside \<open>integer\<close>.
\<close>

definition sql_integer :: "int \<Rightarrow> int option" where
  \<comment> \<open>the cast \<open>::integer\<close>\<close>
  "sql_integer n = (if - 2147483648 \<le> n \<and> n \<le> 2147483647 then Some n else None)"

definition sql_floor_div :: "rat \<Rightarrow> rat \<Rightarrow> int option" where
  \<comment> \<open>\<open>FLOOR(x / y)::integer\<close>\<close>
  "sql_floor_div x y = (if y = 0 then None else sql_integer \<lfloor>x / y\<rfloor>)"

definition sql_ceiling_band :: "creditor \<Rightarrow> int \<Rightarrow> creditor_band option" where
  "sql_ceiling_band cr aging =
     first_desc cb_minAgingDays (\<lambda>b. in_band (cb_minAgingDays b) (cb_maxAgingDays b) aging)
       (cr_discountBands cr)"

definition sql_strategy_band :: "wallet \<Rightarrow> int \<Rightarrow> wallet_band option" where
  "sql_strategy_band w aging =
     first_desc wb_minAgingDays (\<lambda>b. in_band (wb_minAgingDays b) (wb_maxAgingDays b) aging)
       (wl_discountBands w)"

definition sql_offer :: "rat \<Rightarrow> wallet \<Rightarrow> creditor \<Rightarrow> int \<Rightarrow> offer_snapshot option" where
  "sql_offer updatedValue w cr aging =
     (let maximum = (case sql_ceiling_band cr aging of
                       Some b \<Rightarrow> ceiling_percent w b
                     | None \<Rightarrow> wl_cobcomDiscountPercent w);
          strategy = or_else (Option.bind (sql_strategy_band w aging) (strategy_percent w))
                       (wl_cobcomDiscountPercent w);
          discount = min strategy maximum;
          offerValue = dec2 (updatedValue * (1 - discount / 100));
          repasse = dec2 (updatedValue * (1 - maximum / 100))
      in map_option (\<lambda>byValue.
         \<lparr>of_value = Some offerValue, of_discountPercent = Some discount,
          of_firstInstallmentDays = Some (wl_offerFirstInstallmentDays w),
          of_maxInstallments = Some (min (wl_offerMaxInstallments w) (max 1 byValue)),
          of_maximumDiscountPercent = Some maximum, of_repasseValue = Some repasse,
          of_commissionPercent = Some (cr_commissionPercent cr),
          of_commissionValue = Some (dec2 (repasse * cr_commissionPercent cr / 100))\<rparr>)
         (sql_floor_div offerValue (wl_offerMinInstallmentValue w)))"

section \<open>Facts\<close>

definition band_count :: "('b \<Rightarrow> int) \<Rightarrow> ('b \<Rightarrow> int option) \<Rightarrow> int \<Rightarrow> 'b list \<Rightarrow> nat" where
  "band_count mn mx aging bs = count_where (\<lambda>b. in_band (mn b) (mx b) aging) bs"

definition disjoint_bands :: "('b \<Rightarrow> int) \<Rightarrow> ('b \<Rightarrow> int option) \<Rightarrow> 'b list \<Rightarrow> bool" where
  \<comment> \<open>no debt age is in two bands\<close>
  "disjoint_bands mn mx bs \<longleftrightarrow> (\<forall>aging. band_count mn mx aging bs \<le> 1)"

lemma filter_sort_single:
  assumes "length (filter P xs) \<le> 1"
  shows "filter P (sort_key k xs) = filter P xs"
proof -
  have "filter P (sort_key k xs) = sort_key k (filter P xs)"
    by (rule filter_sort)
  also have "\<dots> = filter P xs"
    using assms by (cases "filter P xs") auto
  finally show ?thesis .
qed

lemma find_hd_filter: "List.find P xs = (case filter P xs of [] \<Rightarrow> None | x # _ \<Rightarrow> Some x)"
  by (induction xs) auto

lemma first_desc_single:
  assumes "length (filter P xs) \<le> 1"
  shows "first_desc k P xs = List.find P (sort_key k' xs)"
  unfolding find_hd_filter filter_sort_single [OF assms] first_desc_def
  using assms by (cases "filter P xs") auto

lemma sql_ceiling_band_eq:
  "disjoint_bands cb_minAgingDays cb_maxAgingDays (cr_discountBands cr) \<Longrightarrow>
    sql_ceiling_band cr aging = ceiling_band cr aging"
  unfolding sql_ceiling_band_def ceiling_band_def
  by (rule first_desc_single) (simp add: disjoint_bands_def band_count_def count_where_def)

lemma sql_strategy_band_eq:
  "disjoint_bands wb_minAgingDays wb_maxAgingDays (wl_discountBands w) \<Longrightarrow>
    sql_strategy_band w aging = strategy_band w aging"
  unfolding sql_strategy_band_def strategy_band_def
  by (rule first_desc_single) (simp add: disjoint_bands_def band_count_def count_where_def)

lemma net_of_antimono: "0 \<le> v \<Longrightarrow> p \<le> q \<Longrightarrow> net_of v q \<le> net_of v p"
  unfolding net_of_def by (intro js_round2_mono mult_left_mono) simp_all

lemma net_of_nonneg: "0 \<le> v \<Longrightarrow> p \<le> 100 \<Longrightarrow> 0 \<le> net_of v p"
  using js_round2_mono [of 0 "v * (1 - p / 100)"] by (simp add: net_of_def)

lemma net_of_dec2: "0 \<le> v \<Longrightarrow> p \<le> 100 \<Longrightarrow> dec2 (v * (1 - p / 100)) = net_of v p"
  by (simp add: net_of_def dec2_nonneg)

lemma calculateOffer_bounds:
  shows "0 \<le> co_offerDiscountPercent (calculateOffer v w)"
    and "co_offerDiscountPercent (calculateOffer v w) \<le> 100"
    and "1 \<le> co_offerFirstInstallmentDays (calculateOffer v w)"
    and "1 \<le> co_offerMaxInstallments (calculateOffer v w)"
    and "co_offerMaxInstallments (calculateOffer v w) \<le> max 1 (wl_offerMaxInstallments w)"
  by (simp_all add: calculateOffer_def Let_def)

lemma calculateOffer_installment:
  \<comment> \<open>with more than one installment, each is at least the minimum of the wallet\<close>
  assumes "0 < wl_offerMinInstallmentValue w"
    and "1 < co_offerMaxInstallments (calculateOffer v w)"
  shows "of_int (co_offerMaxInstallments (calculateOffer v w)) * wl_offerMinInstallmentValue w
    \<le> co_offerValue (calculateOffer v w)"
proof -
  define o1 where "o1 = co_offerValue (calculateOffer v w)"
  define m where "m = wl_offerMinInstallmentValue w"
  have "co_offerMaxInstallments (calculateOffer v w) \<le> max 1 \<lfloor>o1 / m\<rfloor>"
    using assms(1) by (simp add: calculateOffer_def Let_def o1_def m_def)
  with assms(2) have "co_offerMaxInstallments (calculateOffer v w) \<le> \<lfloor>o1 / m\<rfloor>" by simp
  then have "of_int (co_offerMaxInstallments (calculateOffer v w)) \<le> o1 / m"
    by (simp add: le_floor_iff)
  with assms(1) have "of_int (co_offerMaxInstallments (calculateOffer v w)) * m \<le> o1"
    by (simp add: m_def pos_le_divide_eq)
  then show ?thesis by (simp add: m_def o1_def)
qed

text \<open>A wallet and a creditor with sound commercial rules.\<close>

definition sound_rules :: "wallet \<Rightarrow> creditor \<Rightarrow> bool" where
  "sound_rules w cr \<longleftrightarrow>
     disjoint_bands cb_minAgingDays cb_maxAgingDays (cr_discountBands cr) \<and>
     disjoint_bands wb_minAgingDays wb_maxAgingDays (wl_discountBands w) \<and>
     list_all (\<lambda>b. cb_cashDiscountPercent b \<le> 100 \<and> cb_installmentDiscountPercent b \<le> 100)
       (cr_discountBands cr) \<and>
     list_all (\<lambda>b. wb_cashStrategyDiscountPercent b \<noteq> None \<and>
         wb_installmentStrategyDiscountPercent b \<noteq> None) (wl_discountBands w) \<and>
     wl_cobcomDiscountPercent w \<le> 100 \<and> 0 < wl_offerMinInstallmentValue w \<and>
     0 \<le> cr_commissionPercent cr"

lemma strategy_percent_defined:
  assumes "sound_rules w cr" and "strategy_band w aging = Some b"
  shows "\<exists>p. strategy_percent w b = Some p"
proof -
  have "b \<in> set (wl_discountBands w)"
    using assms(2) unfolding strategy_band_def by (auto dest: find_SomeD)
  then show ?thesis
    using assms(1) by (auto simp: sound_rules_def list_all_iff strategy_percent_def)
qed

lemma maximum_discount_le:
  assumes "sound_rules w cr"
  shows "maximum_discount w cr aging \<le> 100"
proof (cases "ceiling_band cr aging")
  case None
  then show ?thesis using assms by (simp add: maximum_discount_def sound_rules_def)
next
  case (Some b)
  then have "b \<in> set (cr_discountBands cr)"
    unfolding ceiling_band_def by (auto dest: find_SomeD)
  with Some assms show ?thesis
    by (auto simp: maximum_discount_def sound_rules_def list_all_iff ceiling_percent_def)
qed

text \<open>
  The two implementations of the repricing agree as long as the number of installments is an
  \<open>integer\<close> of the database: the row-by-row code of the contract service and the SQL of the wallet
  service then compute the same snapshot, cent for cent. Beyond, the SQL fails.
\<close>

definition installments_fit :: "rat \<Rightarrow> wallet \<Rightarrow> creditor \<Rightarrow> int \<Rightarrow> bool" where
  \<comment> \<open>the offer is less than 2147483648 smallest installments\<close>
  "installments_fit v w cr aging \<longleftrightarrow>
     or_else (of_value (recalculated_offer v w cr aging)) 0 < 2147483648 * wl_offerMinInstallmentValue w"

lemma sql_floor_div_nonneg:
  assumes "0 \<le> x" and "0 < y"
  shows "sql_floor_div x y = (if x < 2147483648 * y then Some \<lfloor>x / y\<rfloor> else None)"
proof -
  have "0 \<le> x / y" using assms by simp
  then have "0 \<le> \<lfloor>x / y\<rfloor>" by linarith
  moreover have "\<lfloor>x / y\<rfloor> \<le> 2147483647 \<longleftrightarrow> x < 2147483648 * y"
  proof -
    have "\<lfloor>x / y\<rfloor> \<le> 2147483647 \<longleftrightarrow> x / y < 2147483648" by (simp add: floor_le_iff)
    also have "\<dots> \<longleftrightarrow> x < 2147483648 * y" using assms(2) by (simp add: pos_divide_less_eq)
    finally show ?thesis .
  qed
  ultimately show ?thesis using assms(2) by (simp add: sql_floor_div_def sql_integer_def)
qed

lemma sql_offer_recalculated:
  assumes "sound_rules w cr" and "0 \<le> v"
  shows "sql_offer v w cr aging =
    (if installments_fit v w cr aging then Some (recalculated_offer v w cr aging) else None)"
proof -
  have db: "disjoint_bands cb_minAgingDays cb_maxAgingDays (cr_discountBands cr)"
    "disjoint_bands wb_minAgingDays wb_maxAgingDays (wl_discountBands w)"
    "0 < wl_offerMinInstallmentValue w" "0 \<le> cr_commissionPercent cr"
    using assms(1) by (simp_all add: sound_rules_def)
  have mx: "(case ceiling_band cr aging of Some b \<Rightarrow> ceiling_percent w b
      | None \<Rightarrow> wl_cobcomDiscountPercent w) = maximum_discount w cr aging"
    by (simp add: maximum_discount_def)
  have st: "or_else (Option.bind (strategy_band w aging) (strategy_percent w))
      (wl_cobcomDiscountPercent w) = strategy_discount w aging"
  proof (cases "strategy_band w aging")
    case (Some b)
    with strategy_percent_defined [OF assms(1) this] show ?thesis
      by (auto simp: strategy_discount_def)
  qed (simp add: strategy_discount_def)
  define mxd where "mxd = maximum_discount w cr aging"
  define d where "d = min (strategy_discount w aging) mxd"
  have le: "mxd \<le> 100" "d \<le> 100"
    using maximum_discount_le [OF assms(1), of aging] by (simp_all add: mxd_def d_def)
  have "0 \<le> net_of v mxd" by (rule net_of_nonneg [OF assms(2) le(1)])
  then have cm: "dec2 (net_of v mxd * cr_commissionPercent cr / 100)
      = js_round2 (net_of v mxd * cr_commissionPercent cr / 100)"
    using db(4) by (simp add: dec2_nonneg)
  have "sql_floor_div (net_of v d) (wl_offerMinInstallmentValue w) =
      (if net_of v d < 2147483648 * wl_offerMinInstallmentValue w
       then Some \<lfloor>net_of v d / wl_offerMinInstallmentValue w\<rfloor> else None)"
    by (rule sql_floor_div_nonneg [OF net_of_nonneg [OF assms(2) le(2)] db(3)])
  then show ?thesis
    unfolding sql_offer_def installments_fit_def recalculated_offer_def priced_offer_def Let_def
      sql_ceiling_band_eq [OF db(1)] sql_strategy_band_eq [OF db(2)] mx st
      mxd_def [symmetric] d_def [symmetric]
      net_of_dec2 [OF assms(2) le(1)] net_of_dec2 [OF assms(2) le(2)] cm
    using db(3) by simp
qed

text \<open>Within the ceiling: the debtor is never offered less than the creditor's share.\<close>

definition within_ceiling :: "offer_snapshot \<Rightarrow> bool" where
  "within_ceiling s \<longleftrightarrow>
     (case (of_discountPercent s, of_maximumDiscountPercent s, of_value s, of_repasseValue s) of
        (Some d, Some m, Some v, Some r) \<Rightarrow> d \<le> m \<and> r \<le> v
      | _ \<Rightarrow> False)"

lemma created_offer_within: "0 \<le> v \<Longrightarrow> within_ceiling (created_offer v w cr aging)"
  by (simp add: within_ceiling_def created_offer_def Let_def net_of_antimono)

lemma recalculated_offer_within: "0 \<le> v \<Longrightarrow> within_ceiling (recalculated_offer v w cr aging)"
  by (simp add: within_ceiling_def recalculated_offer_def priced_offer_def Let_def net_of_antimono)

lemma dec2_mono: 
  assumes "x \<le> y"
  shows "dec2 x \<le> dec2 y"
proof -
  have nn: "0 \<le> dec2 z" if "0 \<le> z" for z
    using js_round2_mono [OF that] by (simp add: dec2_nonneg that)
  have neg: "dec2 (- z) = - dec2 z" for z
    by (simp add: dec2_def sgn_minus)
  consider "0 \<le> x" | "x < 0" "0 \<le> y" | "x < 0" "y < 0" by linarith
  then show ?thesis
  proof cases
    case 1
    with assms show ?thesis by (simp add: dec2_nonneg js_round2_mono)
  next
    case 2
    then have "dec2 x \<le> 0" using nn [of "- x"] neg [of x] by simp
    with nn [OF 2(2)] show ?thesis by linarith
  next
    case 3
    then have "dec2 (- y) \<le> dec2 (- x)"
      using assms by (simp add: dec2_nonneg js_round2_mono)
    then show ?thesis by (simp add: neg)
  qed
qed

lemma stored_offer_within: "within_ceiling s \<Longrightarrow> within_ceiling (stored_offer s)"
  by (auto simp: within_ceiling_def stored_offer_def dec2_mono split: option.splits)

text \<open>A wallet with a strategy of its own, under a ceiling of the creditor.\<close>

definition sample_rules_wallet :: wallet where
  "sample_rules_wallet =
     \<lparr>wl_id = ''w1'', wl_accountId = ''a1'', wl_creditorId = ''cr1'', wl_name = ''Carteira'',
      wl_serasaWalletExternalId = None, wl_cobcomDiscountPercent = 10,
      wl_offerFirstInstallmentDays = 5, wl_offerMinInstallmentValue = 50,
      wl_offerMaxInstallments = 6, wl_commissionPercent = 10, wl_defaultDebtType = OTHER,
      wl_smsTemplate = None,
      wl_discountBands = [\<lparr>wb_minAgingDays = 0, wb_maxAgingDays = None, wb_cashDiscountPercent = 20,
        wb_installmentDiscountPercent = 10, wb_cashStrategyDiscountPercent = Some 15,
        wb_installmentStrategyDiscountPercent = Some 5\<rparr>],
      wl_active = True, wl_deletedAt = None\<rparr>"

definition sample_rules_creditor :: creditor where
  "sample_rules_creditor =
     \<lparr>cr_id = ''cr1'', cr_accountId = ''a1'', cr_name = ''Credor'', cr_tradeName = None, cr_cnpj = None,
      cr_commissionPercent = 10,
      cr_discountBands = [\<lparr>cb_minAgingDays = 0, cb_maxAgingDays = Some 90, cb_cashDiscountPercent = 30,
        cb_installmentDiscountPercent = 20\<rparr>, \<lparr>cb_minAgingDays = 91, cb_maxAgingDays = None,
        cb_cashDiscountPercent = 50, cb_installmentDiscountPercent = 40\<rparr>],
      cr_deletedAt = None\<rparr>"

lemma sample_rules_sound: "sound_rules sample_rules_wallet sample_rules_creditor"
  unfolding sound_rules_def disjoint_bands_def sample_rules_wallet_def sample_rules_creditor_def
  by (auto simp: band_count_def in_band_def count_where_def)

lemma sql_offer_recalculated_witness:
  "sql_offer 1000 sample_rules_wallet sample_rules_creditor 100
     = Some (recalculated_offer 1000 sample_rules_wallet sample_rules_creditor 100)"
proof -
  have "installments_fit 1000 sample_rules_wallet sample_rules_creditor 100"
    by code_simp
  with sql_offer_recalculated [OF sample_rules_sound, of 1000 100] show ?thesis by simp
qed

text \<open>With the smallest installment of one cent a debt of 30 million is too large for the SQL.\<close>

lemma sql_offer_overflows:
  "sql_offer 30000000 (sample_rules_wallet\<lparr>wl_offerMinInstallmentValue := 1 / 100\<rparr>) sample_rules_creditor 0 = None"
  by code_simp

end
