(* ===== verification/Contracts.thy ===== *)
theory Contracts
  imports Offers
begin

text \<open>
  \<open>contracts/contracts.service.ts\<close> and \<open>contracts/tags.service.ts\<close>: the upsert of a contract, the
  changes a user may make to it (edit, move, transfer in bulk, delete, reprice, tag) and the
  queries with the restrictions of viewers and of the creditor portal. The rows are those of
  \<open>Store\<close>; SHA-256, the clock, the calendar day of the business time zone and the end of the
  server's current day come from the environment. The order in which the database returns rows
  (\<open>ORDER BY\<close> with its collation) is a parameter of the queries.
\<close>

record contract_env =
  ce_now :: int
  ce_gen :: "nat \<Rightarrow> string"
  ce_sha :: "string \<Rightarrow> string"
  ce_day :: "int \<Rightarrow> int"
  ce_endOfToday :: int

record create_contract_dto =
  cc_walletId :: string
  cc_debtorDocument :: string
  cc_debtorName :: "string option"
  cc_debtorBirthDate :: "int option"
  cc_contractNumber :: string
  cc_debtType :: debt_type
  cc_dueDate :: int
  cc_productAdhesionDate :: "int option"
  cc_originalValue :: rat
  cc_updatedValue :: rat
  cc_debtOrigin :: "string option"
  cc_productName :: "string option"
  cc_debtorStreet :: "string option"
  cc_debtorCity :: "string option"
  cc_debtorPhone :: "string option"
  cc_debtorEmail :: "string option"
  cc_isNegativated :: "bool option"
  cc_cancelledAt :: "int option"
  cc_offer :: "json option"

record update_contract_dto =
  uc_originalValue :: "rat option"
  uc_updatedValue :: "rat option"
  uc_offerDiscountPercent :: "rat option"
  uc_occurrenceDate :: "int option"
  uc_dueDate :: "int option"
  uc_productAdhesionDate :: "int option"
  uc_debtType :: "debt_type option"
  uc_walletId :: "string option"
  uc_status :: "contract_status option"
  uc_debtOrigin :: "string option"
  uc_debtorName :: "string option"
  uc_debtorBirthDate :: "int option"
  uc_productName :: "string option"
  uc_debtorStreet :: "string option"
  uc_debtorCity :: "string option"
  uc_debtorPhone :: "string option"
  uc_debtorEmail :: "string option"
  uc_isNegativated :: "bool option"
  uc_cancelledAt :: "int option"
  uc_offer :: "json option"

section \<open>Rows\<close>

definition EDITABLE_PROVIDER_STATUSES :: "serasa_status list" where
  "EDITABLE_PROVIDER_STATUSES = [SE_NOT_ENABLED, SE_PENDING, SE_FAILED, SE_REMOVED]"

fun ALLOWED_STATUS_TRANSITIONS :: "contract_status \<Rightarrow> contract_status list" where
  "ALLOWED_STATUS_TRANSITIONS CT_ACTIVE = [CT_SUSPENDED, CT_CANCELLED]"
| "ALLOWED_STATUS_TRANSITIONS CT_SUSPENDED = [CT_ACTIVE, CT_CANCELLED]"
| "ALLOWED_STATUS_TRANSITIONS CT_CANCELLED = []"

definition find_wallet :: "string \<Rightarrow> string \<Rightarrow> database \<Rightarrow> wallet option" where
  "find_wallet i acc d =
     List.find (\<lambda>w. wl_id w = i \<and> wl_accountId w = acc \<and> wl_deletedAt w = None) (wallets d)"

definition creditor_of_wallet :: "wallet \<Rightarrow> database \<Rightarrow> creditor option" where
  "creditor_of_wallet w d = List.find (\<lambda>c. cr_id c = wl_creditorId w) (creditors d)"

definition of_creditor :: "database \<Rightarrow> string \<Rightarrow> contract \<Rightarrow> bool" where
  \<comment> \<open>the relation filter \<open>wallet: { creditorId }\<close>\<close>
  "of_creditor d creditorId c \<longleftrightarrow>
     (case wallet_of d c of None \<Rightarrow> False | Some w \<Rightarrow> wl_creditorId w = creditorId)"

definition new_contract_row :: "(nat \<Rightarrow> string) \<Rightarrow> contract \<Rightarrow> database \<Rightarrow> contract" where
  "new_contract_row gen c d =
     c\<lparr>ct_id := gen (nextId d), ct_originalValue := dec2 (ct_originalValue c),
       ct_updatedValue := dec2 (ct_updatedValue c), ct_offer := stored_offer (ct_offer c)\<rparr>"

definition create_contract ::
  "(nat \<Rightarrow> string) \<Rightarrow> contract \<Rightarrow> database \<Rightarrow> (contract \<times> database) option" where
  \<comment> \<open>\<open>deduplicationKey @unique\<close>: deleted rows keep their key\<close>
  "create_contract gen c d =
     (if ct_deduplicationKey c \<in> ct_deduplicationKey ` set (contracts d) then None
      else let c' = new_contract_row gen c d
           in Some (c', d\<lparr>contracts := contracts d @ [c'], nextId := Suc (nextId d)\<rparr>))"

definition set_opt :: "'a option \<Rightarrow> ('a \<Rightarrow> 'b \<Rightarrow> 'b) \<Rightarrow> 'b \<Rightarrow> 'b" where
  \<comment> \<open>\<open>if (dto.f !== undefined) data.f = dto.f\<close>\<close>
  "set_opt x f y = (case x of None \<Rightarrow> y | Some v \<Rightarrow> f v y)"

definition sha_text :: "(string \<Rightarrow> string) \<Rightarrow> string option \<Rightarrow> string option" where
  \<comment> \<open>\<open>s ? sha256(s) : null\<close>\<close>
  "sha_text sha s = (case s of None \<Rightarrow> None | Some t \<Rightarrow> if t = '''' then None else Some (sha t))"

definition stored_row :: "string \<Rightarrow> database \<Rightarrow> (database, contract) outcome" where
  \<comment> \<open>the row an update returns\<close>
  "stored_row i d =
     (case List.find (\<lambda>c. ct_id c = i) (contracts d) of
        None \<Rightarrow> (Inl (Internal ''P2025''), d)
      | Some c \<Rightarrow> (Inr c, d))"

section \<open>Creating or updating a contract\<close>

definition identity_match ::
  "database \<Rightarrow> string \<Rightarrow> string \<Rightarrow> string \<Rightarrow> string \<Rightarrow> int option \<Rightarrow> contract \<Rightarrow> bool" where
  "identity_match d acc creditorId hash number due c \<longleftrightarrow>
     ct_accountId c = acc \<and> ct_debtorDocumentHash c = hash \<and> ct_contractNumber c = number \<and>
     ct_dueDate c = due \<and> ct_deletedAt c = None \<and> of_creditor d creditorId c"

definition upsert_contact :: "create_contract_dto \<Rightarrow> debtor_contact \<Rightarrow> debtor_contact" where
  "upsert_contact dto b =
     set_opt (cc_debtorBirthDate dto) (\<lambda>v r. r\<lparr>db_birthDate := Some v\<rparr>)
       (set_opt (cc_debtorStreet dto) (\<lambda>v r. r\<lparr>db_street := Some v\<rparr>)
         (set_opt (cc_debtorCity dto) (\<lambda>v r. r\<lparr>db_city := Some v\<rparr>)
           (set_opt (cc_debtorPhone dto) (\<lambda>v r. r\<lparr>db_phone := Some v\<rparr>)
             (set_opt (cc_debtorEmail dto) (\<lambda>v r. r\<lparr>db_email := Some v\<rparr>) b))))"

definition upsert_product :: "(string \<Rightarrow> string) \<Rightarrow> create_contract_dto \<Rightarrow> product_info \<Rightarrow> product_info" where
  "upsert_product sha dto p =
     set_opt (cc_productAdhesionDate dto) (\<lambda>v r. r\<lparr>pr_adhesionDate := Some v\<rparr>)
       (set_opt (cc_debtOrigin dto)
         (\<lambda>v r. r\<lparr>pr_debtOrigin := Some v, pr_debtOriginDocHash := sha_text sha (Some v)\<rparr>)
         (set_opt (cc_offer dto) (\<lambda>v r. r\<lparr>pr_offer := v\<rparr>)
           (set_opt (cc_productName dto) (\<lambda>v r. r\<lparr>pr_name := Some v\<rparr>) p)))"

definition upsert_row ::
  "(string \<Rightarrow> string) \<Rightarrow> string \<Rightarrow> int \<Rightarrow> offer_snapshot \<Rightarrow> create_contract_dto \<Rightarrow> contract \<Rightarrow> contract" where
  \<comment> \<open>the columns an existing contract of the same wallet gets\<close>
  "upsert_row sha document aging offer dto c =
     c\<lparr>ct_debtorDocument := document, ct_debtorDocumentHash := sha document,
       ct_debtorName := or_else (cc_debtorName dto) (ct_debtorName c),
       ct_debtor := upsert_contact dto (ct_debtor c),
       ct_contractNumber := cc_contractNumber dto, ct_debtType := cc_debtType dto,
       ct_occurrenceDate := cc_dueDate dto, ct_agingDays := aging,
       ct_dueDate := Some (cc_dueDate dto),
       ct_originalValue := dec2 (cc_originalValue dto),
       ct_updatedValue := dec2 (cc_updatedValue dto),
       ct_product := upsert_product sha dto (ct_product c),
       ct_isNegativated := or_else (cc_isNegativated dto) (ct_isNegativated c),
       ct_cancelledAt := or_opt (cc_cancelledAt dto) (ct_cancelledAt c),
       ct_offer := (if ct_paymentStatus c = PS_PAID then ct_offer c else stored_offer offer)\<rparr>"

definition blank_agreement :: agreement where
  "blank_agreement =
     \<lparr>ag_reference = None, ag_totalAmount = None, ag_createdAt = None, ag_installments = JNull,
      ag_dueAt = None, ag_totalInstallments = None, ag_paidInstallments = 0\<rparr>"

definition fresh_contract ::
  "contract_env \<Rightarrow> string \<Rightarrow> string \<Rightarrow> int \<Rightarrow> offer_snapshot \<Rightarrow> string \<Rightarrow> create_contract_dto \<Rightarrow> contract" where
  "fresh_contract e acc document aging offer key dto =
     \<lparr>ct_id = '''', ct_accountId = acc, ct_walletId = cc_walletId dto,
      ct_debtorDocument = document, ct_debtorDocumentHash = ce_sha e document,
      ct_debtorName = or_else (cc_debtorName dto) '''',
      ct_debtor =
        \<lparr>db_birthDate = cc_debtorBirthDate dto, db_email = cc_debtorEmail dto,
         db_phone = cc_debtorPhone dto, db_street = cc_debtorStreet dto, db_addressNumber = None,
         db_addressComplement = None, db_neighborhood = None, db_city = cc_debtorCity dto,
         db_state = None, db_zipCode = None\<rparr>,
      ct_contractNumber = cc_contractNumber dto, ct_debtType = cc_debtType dto,
      ct_occurrenceDate = cc_dueDate dto, ct_agingDays = aging, ct_dueDate = Some (cc_dueDate dto),
      ct_originalValue = cc_originalValue dto, ct_updatedValue = cc_updatedValue dto,
      ct_product =
        \<lparr>pr_name = cc_productName dto, pr_adhesionDate = cc_productAdhesionDate dto,
         pr_debtOrigin = cc_debtOrigin dto,
         pr_debtOriginDocHash = sha_text (ce_sha e) (cc_debtOrigin dto),
         pr_offer = or_else (cc_offer dto) JNull\<rparr>,
      ct_isNegativated = or_else (cc_isNegativated dto) False,
      ct_cancelledAt = cc_cancelledAt dto, ct_cancellationReason = None, ct_offer = offer,
      ct_deduplicationKey = key, ct_serasaStatus = SE_NOT_ENABLED, ct_paymentStatus = PS_OPEN,
      ct_status = CT_ACTIVE, ct_debtId = None, ct_agreement = blank_agreement,
      ct_totalPaidAmount = 0, ct_lastPaymentAt = None, ct_acceptedDiscountPercent = None,
      ct_agreedPaymentAmount = None, ct_deletedAt = None, ct_createdAt = ce_now e\<rparr>"

definition createOrUpdate ::
  "contract_env \<Rightarrow> create_contract_dto \<Rightarrow> string \<Rightarrow> database \<Rightarrow> (database, contract) outcome" where
  "createOrUpdate e dto acc d =
     (let document = normalizeCnpj (cc_debtorDocument dto); due = cc_dueDate dto
      in case find_wallet (cc_walletId dto) acc d of
        None \<Rightarrow> (Inl (Unprocessable ''Wallet not found or not accessible''), d)
      | Some w \<Rightarrow>
          if \<not> wl_active w then (Inl (Unprocessable ''Wallet is INACTIVE''), d)
          else if ce_endOfToday e < due then (Inl (Unprocessable ''dueDate must not be a future date''), d)
          else case creditor_of_wallet w d of
            None \<Rightarrow> (Inl (Internal ''creditor''), d)
          | Some cr \<Rightarrow>
              let matches = filter (identity_match d acc (wl_creditorId w) (ce_sha e document)
                                      (cc_contractNumber dto) (Some due)) (contracts d);
                  key = computeDeduplicationKey (ce_sha e) (wl_creditorId w) document
                          (cc_contractNumber dto) (Some due);
                  aging = calculateAgingDays (ce_day e) (ce_now e) due;
                  offer = created_offer (cc_updatedValue dto) w cr aging
              in case matches of
                   [] \<Rightarrow>
                     (case create_contract (ce_gen e)
                             (fresh_contract e acc document aging offer key dto) d of
                        None \<Rightarrow> (Inl (Internal ''P2002''), d)
                      | Some (c, d') \<Rightarrow> (Inr c, d'))
                 | [c] \<Rightarrow>
                     if ct_walletId c = cc_walletId dto
                     then stored_row (ct_id c)
                            (update_contract (ct_id c) (upsert_row (ce_sha e) document aging offer dto) d)
                     else (Inl (Conflict ''exists in another wallet''), d)
                 | _ \<Rightarrow> (Inl (Conflict ''more than one contract''), d))"

section \<open>Editing a contract\<close>

definition patch_contact :: "update_contract_dto \<Rightarrow> debtor_contact \<Rightarrow> debtor_contact" where
  "patch_contact dto b =
     set_opt (uc_debtorBirthDate dto) (\<lambda>v r. r\<lparr>db_birthDate := Some v\<rparr>)
       (set_opt (uc_debtorStreet dto) (\<lambda>v r. r\<lparr>db_street := Some v\<rparr>)
         (set_opt (uc_debtorCity dto) (\<lambda>v r. r\<lparr>db_city := Some v\<rparr>)
           (set_opt (uc_debtorPhone dto) (\<lambda>v r. r\<lparr>db_phone := Some v\<rparr>)
             (set_opt (uc_debtorEmail dto) (\<lambda>v r. r\<lparr>db_email := Some v\<rparr>) b))))"

definition patch_product ::
  "(string \<Rightarrow> string) \<Rightarrow> bool \<Rightarrow> update_contract_dto \<Rightarrow> product_info \<Rightarrow> product_info" where
  "patch_product sha paid dto p =
     set_opt (uc_productAdhesionDate dto) (\<lambda>v r. r\<lparr>pr_adhesionDate := Some v\<rparr>)
       (set_opt (uc_debtOrigin dto)
         (\<lambda>v r. r\<lparr>pr_debtOrigin := Some v, pr_debtOriginDocHash := sha_text sha (Some v)\<rparr>)
         (set_opt (if paid then None else uc_offer dto) (\<lambda>v r. r\<lparr>pr_offer := v\<rparr>)
           (set_opt (uc_productName dto) (\<lambda>v r. r\<lparr>pr_name := Some v\<rparr>) p)))"

definition patch_row :: "(string \<Rightarrow> string) \<Rightarrow> update_contract_dto \<Rightarrow> contract \<Rightarrow> contract" where
  \<comment> \<open>the columns without the price; the provider status is never among them\<close>
  "patch_row sha dto c =
     (let debtDate = or_opt (uc_dueDate dto) (uc_occurrenceDate dto)
      in c\<lparr>ct_originalValue := (case uc_originalValue dto of None \<Rightarrow> ct_originalValue c | Some v \<Rightarrow> dec2 v),
           ct_updatedValue := (case uc_updatedValue dto of None \<Rightarrow> ct_updatedValue c | Some v \<Rightarrow> dec2 v),
           ct_dueDate := or_opt debtDate (ct_dueDate c),
           ct_occurrenceDate := or_else debtDate (ct_occurrenceDate c),
           ct_debtType := or_else (uc_debtType dto) (ct_debtType c),
           ct_walletId := or_else (uc_walletId dto) (ct_walletId c),
           ct_status := or_else (uc_status dto) (ct_status c),
           ct_debtorName := or_else (uc_debtorName dto) (ct_debtorName c),
           ct_debtor := patch_contact dto (ct_debtor c),
           ct_product := patch_product sha (ct_paymentStatus c = PS_PAID) dto (ct_product c),
           ct_isNegativated := or_else (uc_isNegativated dto) (ct_isNegativated c),
           ct_cancelledAt := or_opt (uc_cancelledAt dto) (ct_cancelledAt c)\<rparr>)"

definition must_recalculate :: "update_contract_dto \<Rightarrow> bool" where
  "must_recalculate dto \<longleftrightarrow>
     uc_updatedValue dto \<noteq> None \<or> uc_walletId dto \<noteq> None \<or> uc_occurrenceDate dto \<noteq> None \<or>
     uc_dueDate dto \<noteq> None \<or> uc_offerDiscountPercent dto \<noteq> None"

definition installments_by_value :: "rat \<Rightarrow> wallet \<Rightarrow> int option" where
  \<comment> \<open>\<open>Math.min(max, Math.max(1, Math.floor(value / min)))\<close>; a minimum of 0 divides to
    infinity, or to NaN for a value of 0\<close>
  "installments_by_value offerValue w =
     (if wl_offerMinInstallmentValue w = 0
      then if offerValue = 0 then None else Some (wl_offerMaxInstallments w)
      else Some (min (wl_offerMaxInstallments w)
                   (max 1 \<lfloor>offerValue / wl_offerMinInstallmentValue w\<rfloor>)))"

definition patch_discount ::
  "contract_env \<Rightarrow> update_contract_dto \<Rightarrow> rat \<Rightarrow> contract \<Rightarrow> wallet option \<Rightarrow> database \<Rightarrow>
    http_error + (int \<times> offer_snapshot)" where
  \<comment> \<open>a discount the user chose for this contract, within the ceiling of the creditor\<close>
  "patch_discount e dto percent c ow d =
     (if ct_paymentStatus c = PS_PAID then Inl (Conflict ''contrato pago'')
      else case ow of
        None \<Rightarrow> Inl (Unprocessable ''Carteira comercial nao encontrada'')
      | Some w \<Rightarrow>
          (case creditor_of_wallet w d of
             None \<Rightarrow> Inl (Internal ''creditor'')
           | Some cr \<Rightarrow>
               let due = or_else (uc_dueDate dto) (or_else (ct_dueDate c) (ct_occurrenceDate c));
                   aging = calculateAgingDays (ce_day e) (ce_now e) due;
                   maximum = maximum_discount w cr aging;
                   updatedValue = or_else (uc_updatedValue dto) (ct_updatedValue c)
               in if maximum < percent then Inl (Unprocessable ''limite comercial'')
                  else case installments_by_value (net_of updatedValue percent) w of
                         None \<Rightarrow> Inl (Internal ''NaN'')
                       | Some n \<Rightarrow> Inr (aging, stored_offer (priced_offer updatedValue w cr percent maximum n))))"

definition patch_offer ::
  "contract_env \<Rightarrow> update_contract_dto \<Rightarrow> contract \<Rightarrow> wallet option \<Rightarrow> database \<Rightarrow>
    http_error + (int \<times> offer_snapshot)" where
  \<comment> \<open>the aging and the snapshot after the edit\<close>
  "patch_offer e dto c ow d =
     (let base = (case ow of
                    Some w \<Rightarrow>
                      if ct_paymentStatus c = PS_PAID then ct_offer c
                      else with_calculated
                             (calculateOffer (or_else (uc_updatedValue dto) (ct_updatedValue c)) w)
                             (ct_offer c)
                  | None \<Rightarrow> ct_offer c)
      in case uc_offerDiscountPercent dto of
           None \<Rightarrow> Inr (ct_agingDays c, base)
         | Some p \<Rightarrow> patch_discount e dto p c ow d)"

definition destination_error :: "update_contract_dto \<Rightarrow> contract \<Rightarrow> string \<Rightarrow> database \<Rightarrow> http_error option" where
  "destination_error dto c acc d =
     (case uc_walletId dto of
        None \<Rightarrow> None
      | Some i \<Rightarrow>
          if i = '''' \<or> i = ct_walletId c then None
          else case find_wallet i acc d of
                 None \<Rightarrow> Some (Unprocessable ''Destination wallet not found or not accessible'')
               | Some w \<Rightarrow> if wl_active w then None else Some (Unprocessable ''Destination wallet is INACTIVE''))"

definition transition_error :: "update_contract_dto \<Rightarrow> contract \<Rightarrow> http_error option" where
  "transition_error dto c =
     (case uc_status dto of
        None \<Rightarrow> None
      | Some s \<Rightarrow>
          if s = ct_status c \<or> s \<in> set (ALLOWED_STATUS_TRANSITIONS (ct_status c)) then None
          else Some (Conflict ''Invalid status transition''))"

definition updateContract ::
  "contract_env \<Rightarrow> string \<Rightarrow> update_contract_dto \<Rightarrow> string \<Rightarrow> database \<Rightarrow> (database, contract) outcome" where
  "updateContract e i dto acc d =
     (case find_contract i acc d of
        None \<Rightarrow> (Inl (NotFound ''Contract not found''), d)
      | Some c \<Rightarrow>
          if ct_serasaStatus c \<notin> set EDITABLE_PROVIDER_STATUSES
          then (Inl (Conflict ''Contract must be removed from the provider''), d)
          else case or_opt (transition_error dto c) (destination_error dto c acc d) of
            Some err \<Rightarrow> (Inl err, d)
          | None \<Rightarrow>
              let ow = (if must_recalculate dto
                        then find_wallet (or_else (uc_walletId dto) (ct_walletId c)) acc d else None)
              in case patch_offer e dto c ow d of
                   Inl err \<Rightarrow> (Inl err, d)
                 | Inr (aging, offer) \<Rightarrow>
                     if uc_walletId dto = Some '''' then (Inl (Internal ''P2003''), d)
                     else stored_row i
                       (update_contract i
                         (\<lambda>r. (patch_row (ce_sha e) dto r)
                            \<lparr>ct_agingDays := aging, ct_offer := offer\<rparr>) d))"

definition recalculateOffer ::
  "contract_env \<Rightarrow> string \<Rightarrow> string \<Rightarrow> database \<Rightarrow> (database, contract) outcome" where
  "recalculateOffer e i acc d =
     (case find_contract i acc d of
        None \<Rightarrow> (Inl (NotFound ''Contrato nao encontrado''), d)
      | Some c \<Rightarrow>
          if ct_status c \<noteq> CT_ACTIVE then (Inl (Conflict ''contratos ativos''), d)
          else if ct_paymentStatus c = PS_PAID then (Inl (Conflict ''contrato pago''), d)
          else case (wallet_of d c, creditor_of d c) of
            (Some w, Some cr) \<Rightarrow>
              let aging = calculateAgingDays (ce_day e) (ce_now e)
                            (or_else (ct_dueDate c) (ct_occurrenceDate c));
                  offer = recalculated_offer (ct_updatedValue c) w cr aging
              in stored_row i
                   (update_contract i
                     (\<lambda>r. r\<lparr>ct_agingDays := aging, ct_offer := stored_offer offer\<rparr>) d)
          | _ \<Rightarrow> (Inl (Internal ''wallet''), d))"

definition softDeleteContract ::
  "contract_env \<Rightarrow> string \<Rightarrow> string \<Rightarrow> database \<Rightarrow> (database, contract) outcome" where
  "softDeleteContract e i acc d =
     (case find_contract i acc d of
        None \<Rightarrow> (Inl (NotFound ''Contract not found''), d)
      | Some c \<Rightarrow>
          if ct_serasaStatus c \<notin> set EDITABLE_PROVIDER_STATUSES
          then (Inl (Conflict ''Contract must be removed from the provider''), d)
          else stored_row i (update_contract i (\<lambda>r. r\<lparr>ct_deletedAt := Some (ce_now e)\<rparr>) d))"

section \<open>Transfer in bulk\<close>

datatype value_comparison = CMP_GT | CMP_LT | CMP_EQ

fun compare_ok :: "value_comparison \<Rightarrow> 'a::linorder \<Rightarrow> 'a \<Rightarrow> bool" where
  "compare_ok CMP_GT x v = (v < x)"
| "compare_ok CMP_LT x v = (x < v)"
| "compare_ok CMP_EQ x v = (x = v)"

definition opt_ok :: "'a option \<Rightarrow> ('a \<Rightarrow> bool) \<Rightarrow> bool" where
  \<comment> \<open>a filter that applies only when it was given\<close>
  "opt_ok x P = (case x of None \<Rightarrow> True | Some v \<Rightarrow> P v)"

definition range_ok :: "rat option \<Rightarrow> rat option \<Rightarrow> rat \<Rightarrow> bool" where
  "range_ok lo hi x \<longleftrightarrow> opt_ok lo (\<lambda>v. v \<le> x) \<and> opt_ok hi (\<lambda>v. x \<le> v)"

record value_filters =
  vf_minOriginalValue :: "rat option"
  vf_maxOriginalValue :: "rat option"
  vf_minUpdatedValue :: "rat option"
  vf_maxUpdatedValue :: "rat option"
  vf_updatedValueOperator :: "value_comparison option"
  vf_updatedValue :: "rat option"
  vf_offerValueOperator :: "value_comparison option"
  vf_offerValue :: "rat option"
  vf_agingOperator :: "value_comparison option"
  vf_aging :: "int option"

definition updatedValue_ok :: "value_filters \<Rightarrow> rat \<Rightarrow> bool" where
  \<comment> \<open>\<open>applyNumericComparison\<close> replaces the range of \<open>updatedValue\<close>\<close>
  "updatedValue_ok f x =
     (case (vf_updatedValueOperator f, vf_updatedValue f) of
        (Some op, Some v) \<Rightarrow> compare_ok op x v
      | _ \<Rightarrow> range_ok (vf_minUpdatedValue f) (vf_maxUpdatedValue f) x)"

definition offerValue_ok :: "value_filters \<Rightarrow> rat option \<Rightarrow> bool" where
  "offerValue_ok f x =
     (case (vf_offerValueOperator f, vf_offerValue f) of
        (Some op, Some v) \<Rightarrow> (case x of None \<Rightarrow> False | Some y \<Rightarrow> compare_ok op y v)
      | _ \<Rightarrow> True)"

definition aging_ok :: "value_filters \<Rightarrow> int \<Rightarrow> bool" where
  "aging_ok f x =
     (case (vf_agingOperator f, vf_aging f) of
        (Some op, Some v) \<Rightarrow> compare_ok op x v
      | _ \<Rightarrow> True)"

definition values_ok :: "value_filters \<Rightarrow> contract \<Rightarrow> bool" where
  "values_ok f c \<longleftrightarrow>
     range_ok (vf_minOriginalValue f) (vf_maxOriginalValue f) (ct_originalValue c) \<and>
     updatedValue_ok f (ct_updatedValue c) \<and> offerValue_ok f (of_value (ct_offer c)) \<and>
     aging_ok f (ct_agingDays c)"

definition in_installments :: "contract \<Rightarrow> bool" where
  \<comment> \<open>\<open>totalInstallments: { gt: 1 }\<close>\<close>
  "in_installments c = (case ag_totalInstallments (ct_agreement c) of None \<Rightarrow> False | Some n \<Rightarrow> 1 < n)"

record bulk_transfer_dto =
  bt_sourceWalletId :: string
  bt_destinationWalletId :: string
  bt_paymentStatus :: "payment_status option"
  bt_serasaStatus :: "serasa_status option"
  bt_installmentOnly :: bool
  bt_values :: value_filters

definition provider_status_ok :: "serasa_status option \<Rightarrow> serasa_status \<Rightarrow> bool" where
  \<comment> \<open>a status in the filters replaces the list of editable ones\<close>
  "provider_status_ok wanted s =
     (case wanted of Some x \<Rightarrow> s = x | None \<Rightarrow> s \<in> set EDITABLE_PROVIDER_STATUSES)"

definition transferable :: "bulk_transfer_dto \<Rightarrow> string \<Rightarrow> contract \<Rightarrow> bool" where
  "transferable dto acc c \<longleftrightarrow>
     ct_accountId c = acc \<and> ct_walletId c = bt_sourceWalletId dto \<and> ct_deletedAt c = None \<and>
     provider_status_ok (bt_serasaStatus dto) (ct_serasaStatus c) \<and>
     opt_ok (bt_paymentStatus dto) (\<lambda>s. ct_paymentStatus c = s) \<and>
     (bt_installmentOnly dto \<longrightarrow> in_installments c) \<and> values_ok (bt_values dto) c"

definition bulkTransfer ::
  "bulk_transfer_dto \<Rightarrow> string \<Rightarrow> database \<Rightarrow> (database, nat \<times> nat) outcome" where
  "bulkTransfer dto acc d =
     (if bt_sourceWalletId dto = bt_destinationWalletId dto
      then (Inl (Unprocessable ''same wallet''), d)
      else case (find_wallet (bt_sourceWalletId dto) acc d, find_wallet (bt_destinationWalletId dto) acc d) of
        (None, _) \<Rightarrow> (Inl (NotFound ''source wallet''), d)
      | (Some _, None) \<Rightarrow> (Inl (Unprocessable ''destination wallet''), d)
      | (Some s, Some t) \<Rightarrow>
          if \<not> wl_active t then (Inl (Unprocessable ''destination wallet inactive''), d)
          else if wl_creditorId s \<noteq> wl_creditorId t then (Inl (Unprocessable ''other creditor''), d)
          else let n = count_where (transferable dto acc) (contracts d)
               in (Inr (n, n),
                   d\<lparr>contracts := update_where (transferable dto acc)
                       (\<lambda>c. c\<lparr>ct_walletId := bt_destinationWalletId dto\<rparr>) (contracts d)\<rparr>))"

section \<open>Queries\<close>

record list_query =
  lq_page :: nat
  lq_limit :: nat
  lq_walletId :: "string option"
  lq_creditorId :: "string option"
  lq_status :: "contract_status option"
  lq_serasaStatus :: "serasa_status option"
  lq_synced :: bool \<comment> \<open>the value \<open>SYNCED\<close> of \<open>serasaStatus\<close>\<close>
  lq_paymentStatus :: "payment_status option"
  lq_installmentOnly :: bool
  lq_agreementOnly :: bool
  lq_agreementDateFrom :: "int option"
  lq_agreementDateTo :: "int option" \<comment> \<open>the end of the day asked for\<close>
  lq_values :: value_filters
  lq_dateFrom :: "int option"
  lq_dateTo :: "int option"
  lq_paymentDateFrom :: "int option"
  lq_paymentDateTo :: "int option"
  lq_debtorDocument :: "string option"
  lq_search :: "string option"
  lq_tags :: "string list"
  lq_sortBy :: "(string \<times> bool) option"

record viewer =
  vw_accountId :: string
  vw_role :: role
  vw_scopes :: "string list option"
  vw_portalCreditorId :: "string option"

datatype row_order =
    By_field string bool
  | By_cancelledAt
  | By_lastPaymentAt
  | By_createdAt

definition between :: "int option \<Rightarrow> int option \<Rightarrow> int option \<Rightarrow> bool" where
  \<comment> \<open>\<open>{ not: null, gte, lte }\<close>\<close>
  "between lo hi x =
     (case x of None \<Rightarrow> False | Some t \<Rightarrow> opt_ok lo (\<lambda>v. v \<le> t) \<and> opt_ok hi (\<lambda>v. t \<le> v))"

definition date_filter :: "int option \<Rightarrow> int option \<Rightarrow> int option \<Rightarrow> bool" where
  "date_filter lo hi x \<longleftrightarrow> lo = None \<and> hi = None \<or> between lo hi x"

definition end_of_utc_day :: "int \<Rightarrow> int" where
  \<comment> \<open>\<open>setUTCHours(23, 59, 59, 999)\<close>\<close>
  "end_of_utc_day ms = (ms div day_ms) * day_ms + (day_ms - 1)"

definition tags_of :: "database \<Rightarrow> string \<Rightarrow> string list" where
  "tags_of d i = map tg_tag (filter (\<lambda>t. tg_contractId t = i) (tags d))"

definition normalizeTag :: "string \<Rightarrow> string" where
  "normalizeTag t = trim (to_lower t)"

definition portal :: "viewer \<Rightarrow> string option" where
  \<comment> \<open>an empty text is no portal\<close>
  "portal v = (case vw_portalCreditorId v of Some c \<Rightarrow> if c = '''' then None else Some c | None \<Rightarrow> None)"

definition search_term :: "list_query \<Rightarrow> string" where
  "search_term q = trim (or_else (lq_search q) '''')"

definition portal_refused :: "list_query \<Rightarrow> viewer \<Rightarrow> bool" where
  \<comment> \<open>the portal is a lookup tool: a complete CPF, three characters of text, or one of its reports\<close>
  "portal_refused q v \<longleftrightarrow>
     portal v \<noteq> None \<and> lq_status q \<noteq> Some CT_CANCELLED \<and> lq_paymentStatus q \<noteq> Some PS_PAID \<and>
     \<not> lq_agreementOnly q \<and> length (digits_only (or_else (lq_debtorDocument q) '''')) \<noteq> 11 \<and>
     length (search_term q) < 3"

definition scope_refused :: "list_query \<Rightarrow> viewer \<Rightarrow> bool" where
  "scope_refused q v \<longleftrightarrow>
     vw_role v = VIEWER \<and>
     (portal v = None \<and> (vw_scopes v = None \<or> vw_scopes v = Some []) \<or>
      (case (lq_walletId q, vw_scopes v) of
         (Some w, Some ws) \<Rightarrow> w \<notin> set ws
       | _ \<Rightarrow> False))"

definition wallet_filter :: "list_query \<Rightarrow> viewer \<Rightarrow> contract \<Rightarrow> bool" where
  \<comment> \<open>a requested wallet takes the place of the scopes it was checked against\<close>
  "wallet_filter q v c =
     (case lq_walletId q of
        Some w \<Rightarrow> ct_walletId c = w
      | None \<Rightarrow>
          vw_role v = VIEWER \<and> portal v = None \<longrightarrow> opt_ok (vw_scopes v) (\<lambda>ws. ct_walletId c \<in> set ws))"

definition creditor_ok :: "list_query \<Rightarrow> viewer \<Rightarrow> database \<Rightarrow> contract \<Rightarrow> bool" where
  "creditor_ok q v d c =
     (case portal v of
        Some cr \<Rightarrow> of_creditor d cr c
      | None \<Rightarrow> opt_ok (lq_creditorId q) (\<lambda>cr. of_creditor d cr c))"

definition status_ok :: "list_query \<Rightarrow> viewer \<Rightarrow> contract \<Rightarrow> bool" where
  "status_ok q v c =
     (case lq_status q of
        Some s \<Rightarrow> ct_status c = s
      | None \<Rightarrow> portal v \<noteq> None \<longrightarrow> ct_status c = CT_ACTIVE)"

definition serasa_ok :: "list_query \<Rightarrow> contract \<Rightarrow> bool" where
  "serasa_ok q c \<longleftrightarrow>
     (if lq_synced q then ct_serasaStatus c \<in> {SE_REGISTERED, SE_UPDATED}
      else opt_ok (lq_serasaStatus q) (\<lambda>s. ct_serasaStatus c = s))"

definition text_search_ok :: "(string \<Rightarrow> string) \<Rightarrow> list_query \<Rightarrow> contract \<Rightarrow> bool" where
  "text_search_ok sha q c \<longleftrightarrow>
     (let term = search_term q; document = normalizeCnpj term
      in term = '''' \<or> has_infix (to_lower term) (to_lower (ct_contractNumber c)) \<or>
         (document \<noteq> '''' \<and> ct_debtorDocumentHash c = sha document))"

definition document_ok :: "(string \<Rightarrow> string) \<Rightarrow> list_query \<Rightarrow> contract \<Rightarrow> bool" where
  "document_ok sha q c =
     (case lq_debtorDocument q of
        None \<Rightarrow> True
      | Some s \<Rightarrow> s = '''' \<or> ct_debtorDocumentHash c = sha (normalizeCnpj s))"

definition listed :: "(string \<Rightarrow> string) \<Rightarrow> list_query \<Rightarrow> viewer \<Rightarrow> database \<Rightarrow> contract \<Rightarrow> bool" where
  \<comment> \<open>the \<open>where\<close> clause of the list\<close>
  "listed sha q v d c \<longleftrightarrow>
     ct_accountId c = vw_accountId v \<and> ct_deletedAt c = None \<and> creditor_ok q v d c \<and>
     wallet_filter q v c \<and> status_ok q v c \<and> serasa_ok q c \<and>
     opt_ok (lq_paymentStatus q) (\<lambda>s. ct_paymentStatus c = s) \<and>
     (lq_installmentOnly q \<longrightarrow> in_installments c) \<and>
     (lq_agreementOnly q \<longrightarrow> ag_reference (ct_agreement c) \<noteq> None) \<and>
     date_filter (lq_agreementDateFrom q) (lq_agreementDateTo q) (ag_createdAt (ct_agreement c)) \<and>
     values_ok (lq_values q) c \<and>
     date_filter (lq_dateFrom q) (lq_dateTo q) (ct_dueDate c) \<and>
     date_filter (lq_paymentDateFrom q) (map_option end_of_utc_day (lq_paymentDateTo q))
       (ct_lastPaymentAt c) \<and>
     document_ok sha q c \<and> text_search_ok sha q c \<and>
     list_all (\<lambda>t. normalizeTag t \<in> set (tags_of d (ct_id c))) (lq_tags q)"

definition list_order :: "list_query \<Rightarrow> viewer \<Rightarrow> row_order" where
  "list_order q v =
     (case lq_sortBy q of
        Some (f, asc) \<Rightarrow> By_field f asc
      | None \<Rightarrow>
          if lq_status q = Some CT_CANCELLED then By_cancelledAt
          else if portal v \<noteq> None \<and> lq_paymentStatus q = Some PS_PAID then By_lastPaymentAt
          else By_createdAt)"

definition shown :: "viewer \<Rightarrow> database \<Rightarrow> contract \<Rightarrow> contract \<times> string list" where
  \<comment> \<open>the row of the answer: viewers see a masked document, the portal its own debtors\<close>
  "shown v d c =
     (if vw_role v = VIEWER \<and> portal v = None
      then c\<lparr>ct_debtorDocument := maskDocument (ct_debtorDocument c)\<rparr> else c,
      tags_of d (ct_id c))"

record contract_page =
  cp_data :: "(contract \<times> string list) list"
  cp_total :: nat
  cp_totalPages :: nat
  cp_agreementTotal :: "rat option"

definition no_page :: contract_page where
  "no_page = \<lparr>cp_data = [], cp_total = 0, cp_totalPages = 0, cp_agreementTotal = None\<rparr>"

definition listContracts ::
  "(row_order \<Rightarrow> contract list \<Rightarrow> contract list) \<Rightarrow> (string \<Rightarrow> string) \<Rightarrow> list_query \<Rightarrow> viewer \<Rightarrow> bool \<Rightarrow>
    database \<Rightarrow> contract_page" where
  \<comment> \<open>\<open>order\<close> is the database's \<open>ORDER BY\<close>\<close>
  "listContracts order sha q v includeTotal d =
     (if portal_refused q v \<or> scope_refused q v then no_page
      else let rows = filter (listed sha q v d) (contracts d);
               total = (if includeTotal then length rows else 0)
           in \<lparr>cp_data = map (shown v d)
                 (take (lq_limit q) (drop ((lq_page q - 1) * lq_limit q) (order (list_order q v) rows))),
               cp_total = total,
               cp_totalPages = (total + lq_limit q - 1) div lq_limit q,
               cp_agreementTotal =
                 (if includeTotal \<and> lq_agreementOnly q
                  then Some (sum_list (map (\<lambda>c. or_else (ag_totalAmount (ct_agreement c)) 0) rows))
                  else None)\<rparr>)"

definition exportContracts ::
  "(row_order \<Rightarrow> contract list \<Rightarrow> contract list) \<Rightarrow> (string \<Rightarrow> string) \<Rightarrow> list_query \<Rightarrow> viewer \<Rightarrow>
    database \<Rightarrow> (contract \<times> string list) list" where
  \<comment> \<open>the pages of 1000 rows one after the other\<close>
  "exportContracts order sha q v d =
     (let page = (\<lambda>n total. listContracts order sha (q\<lparr>lq_page := n, lq_limit := 1000\<rparr>) v total d);
          first = page 1 True
      in if cp_totalPages first \<le> 1 then cp_data first
         else cp_data first @
              concat (map (\<lambda>n. cp_data (page n False)) [2..<Suc (cp_totalPages first)]))"

definition findContractById ::
  "string \<Rightarrow> viewer \<Rightarrow> database \<Rightarrow> http_error + (contract \<times> string list)" where
  "findContractById i v d =
     (case List.find (\<lambda>c. ct_id c = i \<and> ct_accountId c = vw_accountId v \<and> ct_deletedAt c = None \<and>
             opt_ok (portal v) (\<lambda>cr. of_creditor d cr c) \<and>
             (vw_role v = VIEWER \<longrightarrow>
               (case vw_scopes v of
                  None \<Rightarrow> True
                | Some ws \<Rightarrow> ws = [] \<or> ct_walletId c \<in> set ws))) (contracts d) of
        None \<Rightarrow> Inl (NotFound ''Contract not found'')
      | Some c \<Rightarrow> Inr (shown v d c))"

section \<open>Tags\<close>

definition normalizeTags :: "string list \<Rightarrow> string list" where
  \<comment> \<open>a \<open>Set\<close> keeps the first occurrence\<close>
  "normalizeTags ts = rev (remdups (rev (map normalizeTag ts)))"

definition add_tag_row :: "(nat \<Rightarrow> string) \<Rightarrow> string \<Rightarrow> string \<Rightarrow> database \<Rightarrow> database" where
  \<comment> \<open>one row of \<open>createMany\<close> with \<open>skipDuplicates\<close>: \<open>@@unique([contractId, tag])\<close>\<close>
  "add_tag_row gen i t d =
     (if t \<in> set (tags_of d i) then d
      else d\<lparr>tags := tags d @ [\<lparr>tg_id = gen (nextId d), tg_contractId = i, tg_tag = t\<rparr>],
             nextId := Suc (nextId d)\<rparr>)"

definition addTags ::
  "(nat \<Rightarrow> string) \<Rightarrow> string \<Rightarrow> string list \<Rightarrow> string \<Rightarrow> database \<Rightarrow> (database, string list) outcome" where
  "addTags gen i ts acc d =
     (case find_contract i acc d of
        None \<Rightarrow> (Inl (NotFound ''Contract not found''), d)
      | Some _ \<Rightarrow>
          let new = normalizeTags ts;
              existing = tags_of d i;
              fresh = filter (\<lambda>t. t \<notin> set existing) new
          in if 20 < length existing + length fresh
             then (Inl (Unprocessable ''limit of 20 tags''), d)
             else let d' = fold (add_tag_row gen i) new d in (Inr (tags_of d' i), d'))"

definition removeTags :: "string \<Rightarrow> string list \<Rightarrow> string \<Rightarrow> database \<Rightarrow> (database, unit) outcome" where
  "removeTags i ts acc d =
     (case find_contract i acc d of
        None \<Rightarrow> (Inl (NotFound ''Contract not found''), d)
      | Some _ \<Rightarrow>
          (Inr (), d\<lparr>tags := filter (\<lambda>t. \<not> (tg_contractId t = i \<and> tg_tag t \<in> set (normalizeTags ts))) (tags d)\<rparr>))"

definition listDistinctTags ::
  "(string list \<Rightarrow> string list) \<Rightarrow> viewer \<Rightarrow> database \<Rightarrow> (string \<times> nat) list" where
  \<comment> \<open>\<open>groupBy\<close> with a count, in the order the database gives texts\<close>
  "listDistinctTags order v d =
     (let visible = (\<lambda>c. ct_accountId c = vw_accountId v \<and> ct_deletedAt c = None \<and>
              (vw_role v = VIEWER \<longrightarrow> opt_ok (vw_scopes v) (\<lambda>ws. ct_walletId c \<in> set ws)));
          ids = map ct_id (filter visible (contracts d));
          ts = map tg_tag (filter (\<lambda>t. tg_contractId t \<in> set ids) (tags d))
      in if vw_role v = VIEWER \<and> (vw_scopes v = None \<or> vw_scopes v = Some []) then []
         else map (\<lambda>t. (t, count_list ts t)) (order (remdups ts)))"

section \<open>Facts about rows\<close>

interpretation contract_table: unique_table contracts ct_deduplicationKey "create_contract gen" for gen
  by unfold_locales (auto simp: create_contract_def new_contract_row_def Let_def)

lemma create_contract_frame [row_dest]:
  assumes "create_contract gen c d = Some (c', d')"
  shows "c' = new_contract_row gen c d" and "d' = d\<lparr>contracts := contracts d @ [c'], nextId := Suc (nextId d)\<rparr>"
    and "ct_deduplicationKey c \<notin> ct_deduplicationKey ` set (contracts d)"
  using assms by (auto simp: create_contract_def Let_def split: if_splits)

lemma set_opt_simps [simp]: "set_opt None f y = y" "set_opt (Some v) f y = f v y"
  by (simp_all add: set_opt_def)

lemma set_opt_twice: "(\<And>v y. f v (f v y) = f v y) \<Longrightarrow> set_opt x f (set_opt x f y) = set_opt x f y"
  by (cases x) simp_all

lemma opt_ok_simps [simp]: "opt_ok None P" "opt_ok (Some v) P = P v"
  by (simp_all add: opt_ok_def)

lemma or_opt_twice [simp]: "or_opt x (or_opt x y) = or_opt x y"
  by (cases x) simp_all

lemma or_opt_same [simp]: "or_opt x x = x"
  by (cases x) simp_all

lemma or_else_twice [simp]: "or_else x (or_else x y) = or_else x y"
  by (cases x) simp_all

text \<open>
  The tables of contracts and wallets: identifiers and deduplication keys are unique, and a new
  identifier is fresh.
\<close>

definition contracts_ok :: "(nat \<Rightarrow> string) \<Rightarrow> database \<Rightarrow> bool" where
  "contracts_ok gen d \<longleftrightarrow>
     distinct (map ct_id (contracts d)) \<and> distinct (map ct_deduplicationKey (contracts d)) \<and>
     set (map ct_id (contracts d)) \<subseteq> gen ` {..<nextId d} \<and> distinct (map wl_id (wallets d))"

lemma contracts_okD:
  assumes "contracts_ok gen d"
  shows "distinct (map ct_id (contracts d))" and "distinct (map ct_deduplicationKey (contracts d))"
    and "distinct (map wl_id (wallets d))"
  using assms by (simp_all add: contracts_ok_def)

lemma find_by_key:
  assumes "distinct (map k xs)" and "x \<in> set xs" and "P x" and "\<And>y. P y \<Longrightarrow> k y = k x"
  shows "List.find P xs = Some x"
  using assms(1,2)
proof (induction xs)
  case (Cons y ys)
  show ?case
  proof (cases "P y")
    case True
    then have "k y = k x" by (rule assms(4))
    with Cons.prems have "y = x" by (auto dest: imageI)
    with True show ?thesis by simp
  next
    case False
    with Cons assms(3) show ?thesis by auto
  qed
qed simp

lemma find_wallet_wallet_of:
  assumes "distinct (map wl_id (wallets d))" and "find_wallet (ct_walletId c) acc d = Some w"
  shows "wallet_of d c = Some w"
proof -
  have "w \<in> set (wallets d)" "wl_id w = ct_walletId c"
    using assms(2) unfolding find_wallet_def by (auto dest: find_SomeD)
  with find_by_key [OF assms(1), of w "\<lambda>x. wl_id x = ct_walletId c"] show ?thesis
    by (simp add: wallet_of_def)
qed

lemma wallet_of_frame [simp]:
  "wallet_of (update_contract i f d) c = wallet_of d c"
  "wallet_of (d\<lparr>contracts := cs\<rparr>) c = wallet_of d c"
  "wallet_of (d\<lparr>contracts := cs, nextId := n\<rparr>) c = wallet_of d c"
  by (simp_all add: wallet_of_def)

lemma of_creditor_frame [simp]:
  "of_creditor (update_contract i f d) cr c = of_creditor d cr c"
  "of_creditor (d\<lparr>contracts := cs, nextId := n\<rparr>) cr c = of_creditor d cr c"
  by (simp_all add: of_creditor_def)

lemma find_wallet_frame [simp]:
  "find_wallet i acc (update_contract j f d) = find_wallet i acc d"
  "find_wallet i acc (d\<lparr>contracts := cs, nextId := n\<rparr>) = find_wallet i acc d"
  by (simp_all add: find_wallet_def)

lemma creditor_of_wallet_frame [simp]:
  "creditor_of_wallet w (update_contract j f d) = creditor_of_wallet w d"
  "creditor_of_wallet w (d\<lparr>contracts := cs, nextId := n\<rparr>) = creditor_of_wallet w d"
  by (simp_all add: creditor_of_wallet_def)

lemma identity_match_frame [simp]:
  "identity_match (update_contract i f d) = identity_match d"
  "identity_match (d\<lparr>contracts := cs, nextId := n\<rparr>) = identity_match d"
  by (auto simp: identity_match_def fun_eq_iff)

text \<open>The row a successful update returns.\<close>

lemma stored_row_update:
  assumes "distinct (map ct_id (contracts d))" and "c \<in> set (contracts d)" and "ct_id (f c) = ct_id c"
  shows "stored_row (ct_id c) (update_contract (ct_id c) f d) = (Inr (f c), update_contract (ct_id c) f d)"
proof -
  have "List.find (\<lambda>x. ct_id x = ct_id c) (update_where (\<lambda>x. ct_id x = ct_id c) f (contracts d)) = Some (f c)"
    using assms(1,2)
  proof (induction "contracts d" arbitrary: d)
    case (Cons y ys)
    show ?case
    proof (cases "ct_id y = ct_id c")
      case True
      with Cons.prems Cons.hyps(2) [symmetric] have "y = c" by (auto dest: imageI)
      then show ?thesis using Cons.hyps(2) [symmetric] assms(3) by simp
    next
      case False
      then have "c \<in> set ys" "distinct (map ct_id ys)"
        using Cons.prems Cons.hyps(2) [symmetric] by auto
      with Cons.hyps(1) [of "d\<lparr>contracts := ys\<rparr>"] False Cons.hyps(2) [symmetric] show ?thesis
        by simp
    qed
  qed simp
  then show ?thesis by (simp add: stored_row_def)
qed

lemma update_where_once:
  assumes "distinct (map k xs)" and "x \<in> set xs" and "f (f x) = f x" and "k (f x) = k x"
  shows "update_where (\<lambda>y. k y = k x) f (update_where (\<lambda>y. k y = k x) f xs) = update_where (\<lambda>y. k y = k x) f xs"
proof -
  have only: "y = x" if "y \<in> set xs" "k y = k x" for y
    using that assms(1,2) by (metis distinct_map inj_onD)
  have "f (f y) = f y" if "y \<in> set xs" "k y = k x" for y
    using only [OF that] assms(3) by simp
  then show ?thesis
    by (intro update_where_id) (auto simp: in_update_where)
qed

lemma update_contract_again:
  assumes "distinct (map ct_id (contracts d))" and "c \<in> set (contracts d)"
    and "f (f c) = f c" and "ct_id (f c) = ct_id c"
  shows "update_contract (ct_id c) f (update_contract (ct_id c) f d) = update_contract (ct_id c) f d"
  using update_where_once [of ct_id "contracts d" c f] assms by (simp add: update_contract_def)

lemma filter_update_one:
  assumes "distinct (map k xs)" and "filter P xs = [x]" and "k (f x) = k x" and "P (f x)"
  shows "filter P (update_where (\<lambda>y. k y = k x) f xs) = [f x]"
  using assms
proof (induction xs)
  case (Cons y ys)
  show ?case
  proof (cases "P y")
    case True
    with Cons.prems have "y = x" "filter P ys = []" by auto
    then have "update_where (\<lambda>z. k z = k x) f ys = ys"
      using Cons.prems(1) \<open>y = x\<close> by (intro update_where_none) (metis distinct.simps(2) imageI list.set_map list.simps(9))
    with \<open>y = x\<close> \<open>filter P ys = []\<close> Cons.prems(4) show ?thesis by simp
  next
    case False
    with Cons.prems have fx: "filter P ys = [x]" by simp
    have "x \<in> set (filter P ys)" unfolding fx by simp
    then have "x \<in> set ys" by simp
    then have "k y \<noteq> k x" using Cons.prems(1) by (auto dest: imageI)
    with False Cons.IH Cons.prems fx show ?thesis by simp
  qed
qed simp

section \<open>The upsert\<close>

definition document_of :: "create_contract_dto \<Rightarrow> string" where
  "document_of dto = normalizeCnpj (cc_debtorDocument dto)"

definition upsert_match :: "contract_env \<Rightarrow> create_contract_dto \<Rightarrow> string \<Rightarrow> wallet \<Rightarrow> database \<Rightarrow> contract \<Rightarrow> bool" where
  \<comment> \<open>the identity of the contract a request is about\<close>
  "upsert_match e dto acc w d =
     identity_match d acc (wl_creditorId w) (ce_sha e (document_of dto)) (cc_contractNumber dto)
       (Some (cc_dueDate dto))"

definition upsert_key :: "contract_env \<Rightarrow> create_contract_dto \<Rightarrow> wallet \<Rightarrow> string" where
  "upsert_key e dto w =
     computeDeduplicationKey (ce_sha e) (wl_creditorId w) (document_of dto) (cc_contractNumber dto)
       (Some (cc_dueDate dto))"

definition upsert_aging :: "contract_env \<Rightarrow> create_contract_dto \<Rightarrow> int" where
  "upsert_aging e dto = calculateAgingDays (ce_day e) (ce_now e) (cc_dueDate dto)"

definition upsert_update ::
  "contract_env \<Rightarrow> create_contract_dto \<Rightarrow> wallet \<Rightarrow> creditor \<Rightarrow> contract \<Rightarrow> contract" where
  "upsert_update e dto w cr =
     upsert_row (ce_sha e) (document_of dto) (upsert_aging e dto)
       (created_offer (cc_updatedValue dto) w cr (upsert_aging e dto)) dto"

definition upsert_create ::
  "contract_env \<Rightarrow> create_contract_dto \<Rightarrow> string \<Rightarrow> wallet \<Rightarrow> creditor \<Rightarrow> contract" where
  "upsert_create e dto acc w cr =
     fresh_contract e acc (document_of dto) (upsert_aging e dto)
       (created_offer (cc_updatedValue dto) w cr (upsert_aging e dto)) (upsert_key e dto w) dto"

definition upsert_ready ::
  "contract_env \<Rightarrow> create_contract_dto \<Rightarrow> string \<Rightarrow> wallet \<Rightarrow> creditor \<Rightarrow> database \<Rightarrow> bool" where
  \<comment> \<open>the request passes the checks on its wallet and its date\<close>
  "upsert_ready e dto acc w cr d \<longleftrightarrow>
     find_wallet (cc_walletId dto) acc d = Some w \<and> wl_active w \<and> cc_dueDate dto \<le> ce_endOfToday e \<and>
     creditor_of_wallet w d = Some cr"

lemmas upsert_defs = document_of_def upsert_match_def upsert_key_def upsert_aging_def upsert_update_def
  upsert_create_def

lemma createOrUpdate_ready:
  assumes "upsert_ready e dto acc w cr d"
  shows "createOrUpdate e dto acc d =
    (case filter (upsert_match e dto acc w d) (contracts d) of
       [] \<Rightarrow> (case create_contract (ce_gen e) (upsert_create e dto acc w cr) d of
               None \<Rightarrow> (Inl (Internal ''P2002''), d) | Some (c, d') \<Rightarrow> (Inr c, d'))
     | [c] \<Rightarrow> if ct_walletId c = cc_walletId dto
              then stored_row (ct_id c) (update_contract (ct_id c) (upsert_update e dto w cr) d)
              else (Inl (Conflict ''exists in another wallet''), d)
     | _ \<Rightarrow> (Inl (Conflict ''more than one contract''), d))"
  using assms unfolding upsert_ready_def createOrUpdate_def upsert_defs Let_def by simp

lemma createOrUpdate_cases:
  assumes "createOrUpdate e dto acc d = (Inr c, d')" and "contracts_ok gen d"
  obtains
    (created) w cr where "upsert_ready e dto acc w cr d"
      and "filter (upsert_match e dto acc w d) (contracts d) = []"
      and "create_contract (ce_gen e) (upsert_create e dto acc w cr) d = Some (c, d')"
  | (updated) w cr c0 where "upsert_ready e dto acc w cr d"
      and "filter (upsert_match e dto acc w d) (contracts d) = [c0]" and "ct_walletId c0 = cc_walletId dto"
      and "c = upsert_update e dto w cr c0"
      and "d' = update_contract (ct_id c0) (upsert_update e dto w cr) d"
proof -
  obtain w cr where ready: "upsert_ready e dto acc w cr d"
    using assms(1) unfolding createOrUpdate_def upsert_ready_def
    by (auto simp: Let_def split: option.splits if_splits)
  note run = assms(1) [unfolded createOrUpdate_ready [OF ready]]
  show thesis
  proof (cases "filter (upsert_match e dto acc w d) (contracts d)")
    case Nil
    with run show thesis by (intro created [OF ready]) (auto split: option.splits)
  next
    case (Cons c0 cs)
    have cs: "cs = []" and wid: "ct_walletId c0 = cc_walletId dto"
      using run Cons by (auto split: list.splits if_splits)
    have "c0 \<in> set (contracts d)"
      using Cons by (metis filter_is_subset list.set_intros(1) subsetD)
    moreover have "ct_id (upsert_update e dto w cr c0) = ct_id c0"
      by (simp add: upsert_update_def upsert_row_def)
    ultimately have
      "stored_row (ct_id c0) (update_contract (ct_id c0) (upsert_update e dto w cr) d)
        = (Inr (upsert_update e dto w cr c0), update_contract (ct_id c0) (upsert_update e dto w cr) d)"
      using contracts_okD(1) [OF assms(2)] by (intro stored_row_update)
    with run Cons cs wid show thesis by (intro updated [OF ready]) auto
  qed
qed

lemma upsert_contact_twice [simp]: "upsert_contact dto (upsert_contact dto b) = upsert_contact dto b"
  by (cases "cc_debtorBirthDate dto"; cases "cc_debtorStreet dto"; cases "cc_debtorCity dto";
      cases "cc_debtorPhone dto"; cases "cc_debtorEmail dto") (simp_all add: upsert_contact_def)

lemma upsert_product_twice [simp]: "upsert_product sha dto (upsert_product sha dto p) = upsert_product sha dto p"
  by (cases "cc_productAdhesionDate dto"; cases "cc_debtOrigin dto"; cases "cc_offer dto";
      cases "cc_productName dto") (simp_all add: upsert_product_def)

lemma upsert_update_twice: "upsert_update e dto w cr (upsert_update e dto w cr c) = upsert_update e dto w cr c"
  by (simp add: upsert_update_def upsert_row_def)

lemma upsert_update_match:
  assumes "upsert_match e dto acc w d c"
  shows "upsert_match e dto acc w d (upsert_update e dto w cr c)"
proof -
  have "wallet_of d (upsert_update e dto w cr c) = wallet_of d c"
    by (simp add: wallet_of_def upsert_update_def upsert_row_def)
  with assms show ?thesis
    by (simp add: upsert_match_def identity_match_def of_creditor_def upsert_update_def upsert_row_def)
qed

lemma upsert_ready_frame [simp]:
  "upsert_ready e dto acc w cr (update_contract i f d) = upsert_ready e dto acc w cr d"
  "upsert_ready e dto acc w cr (d\<lparr>contracts := cs, nextId := n\<rparr>) = upsert_ready e dto acc w cr d"
  by (simp_all add: upsert_ready_def)

lemma upsert_match_frame [simp]:
  "upsert_match e dto acc w (update_contract i f d) = upsert_match e dto acc w d"
  "upsert_match e dto acc w (d\<lparr>contracts := cs, nextId := n\<rparr>) = upsert_match e dto acc w d"
  by (simp_all add: upsert_match_def)

lemma dec2_twice [simp]: "dec2 (dec2 x) = dec2 x"
proof -
  have nn: "dec2 (dec2 y) = dec2 y" if "0 \<le> y" for y
  proof -
    have "0 \<le> dec2 y" using dec2_mono [OF that] by simp
    then show ?thesis using that by (simp add: dec2_nonneg js_round2_def)
  qed
  have neg: "dec2 (- y) = - dec2 y" for y
    by (simp add: dec2_def sgn_minus)
  show ?thesis
  proof (cases "0 \<le> x")
    case False
    then show ?thesis using nn [of "- x"] neg [of x] neg [of "dec2 x"] by simp
  qed (rule nn)
qed

lemma stored_offer_twice [simp]: "stored_offer (stored_offer s) = stored_offer s"
  by (simp add: stored_offer_def option.map_comp comp_def)

text \<open>A created row is a fixed point of the update its own request would make.\<close>

lemma upsert_update_created:
  "upsert_update e dto w cr (new_contract_row gen (upsert_create e dto acc w cr) d)
     = new_contract_row gen (upsert_create e dto acc w cr) d"
proof -
  have "upsert_contact dto (ct_debtor (upsert_create e dto acc w cr)) = ct_debtor (upsert_create e dto acc w cr)"
    by (cases "cc_debtorBirthDate dto"; cases "cc_debtorStreet dto"; cases "cc_debtorCity dto";
        cases "cc_debtorPhone dto"; cases "cc_debtorEmail dto")
      (simp_all add: upsert_contact_def upsert_create_def fresh_contract_def)
  moreover have "upsert_product (ce_sha e) dto (ct_product (upsert_create e dto acc w cr))
      = ct_product (upsert_create e dto acc w cr)"
    by (cases "cc_productAdhesionDate dto"; cases "cc_debtOrigin dto"; cases "cc_offer dto";
        cases "cc_productName dto")
      (simp_all add: upsert_product_def upsert_create_def fresh_contract_def)
  ultimately show ?thesis
    by (simp add: upsert_update_def upsert_row_def new_contract_row_def upsert_create_def fresh_contract_def)
qed

lemma contracts_ok_create:
  assumes "contracts_ok gen d" and "inj gen" and "create_contract gen c d = Some (c', d')"
  shows "contracts_ok gen d'"
proof -
  note fr = create_contract_frame [OF assms(3)]
  have "gen (nextId d) \<notin> gen ` {..<nextId d}"
    using assms(2) by (auto dest: injD)
  then have "gen (nextId d) \<notin> set (map ct_id (contracts d))"
    using assms(1) unfolding contracts_ok_def by blast
  with assms(1) fr(3) show ?thesis
    by (auto simp: contracts_ok_def fr(1,2) new_contract_row_def lessThan_Suc)
qed

lemma contracts_ok_update:
  assumes "contracts_ok gen d" and "\<And>c. ct_id (f c) = ct_id c"
    and "\<And>c. ct_deduplicationKey (f c) = ct_deduplicationKey c"
  shows "contracts_ok gen (update_contract i f d)"
  using assms unfolding contracts_ok_def update_contract_frame by (simp only: map_update_where)

lemma upsert_match_created:
  assumes "upsert_ready e dto acc w cr d" and "contracts_ok gen d"
  shows "upsert_match e dto acc w d (new_contract_row g (upsert_create e dto acc w cr) d)"
proof -
  let ?c = "new_contract_row g (upsert_create e dto acc w cr) d"
  have "wallet_of d ?c = Some w"
    using assms contracts_okD(3) [OF assms(2)]
    by (intro find_wallet_wallet_of [where acc = acc])
      (simp_all add: upsert_ready_def new_contract_row_def upsert_create_def fresh_contract_def)
  then show ?thesis
    by (simp add: upsert_match_def identity_match_def of_creditor_def new_contract_row_def upsert_create_def
        fresh_contract_def)
qed

text \<open>What an accepted upsert leaves: one row of that identity, which the request would not change.\<close>

lemma stored_upsert:
  assumes "contracts_ok gen d" and "inj gen" and "ce_gen e = gen"
    and "createOrUpdate e dto acc d = (Inr c, d')"
  obtains w cr where "upsert_ready e dto acc w cr d'" and "contracts_ok gen d'"
    and "filter (upsert_match e dto acc w d') (contracts d') = [c]" and "ct_walletId c = cc_walletId dto"
    and "upsert_update e dto w cr c = c"
  using assms(4,1)
proof (cases rule: createOrUpdate_cases)
  case (created w cr)
  note fr = create_contract_frame [OF created(3)]
  have ok': "contracts_ok gen d'"
    using contracts_ok_create [OF assms(1,2)] created(3) assms(3) by simp
  have c: "c = new_contract_row gen (upsert_create e dto acc w cr) d" using fr(1) assms(3) by simp
  have "upsert_match e dto acc w d c"
    unfolding c using created(1) assms(1) by (rule upsert_match_created)
  then have fl: "filter (upsert_match e dto acc w d') (contracts d') = [c]"
    using created(2) by (simp add: fr(2))
  have ready: "upsert_ready e dto acc w cr d'" using created(1) by (simp add: fr(2))
  show ?thesis
  proof (rule that [OF ready ok' fl])
    show "ct_walletId c = cc_walletId dto"
      by (simp add: c new_contract_row_def upsert_create_def fresh_contract_def)
    show "upsert_update e dto w cr c = c" unfolding c by (rule upsert_update_created)
  qed
next
  case (updated w cr c0)
  let ?f = "upsert_update e dto w cr"
  have keys: "ct_id (?f x) = ct_id x" "ct_deduplicationKey (?f x) = ct_deduplicationKey x" for x
    by (simp_all add: upsert_update_def upsert_row_def)
  have ok': "contracts_ok gen d'"
    unfolding updated(5) using assms(1) keys by (rule contracts_ok_update)
  have c0: "c0 \<in> set (contracts d)" "upsert_match e dto acc w d c0"
    using updated(2) by (metis filter_is_subset list.set_intros(1) subsetD)
      (metis Cons_eq_filterD updated(2))
  have "filter (upsert_match e dto acc w d) (update_where (\<lambda>x. ct_id x = ct_id c0) ?f (contracts d)) = [?f c0]"
    using contracts_okD(1) [OF assms(1)] updated(2) keys(1) upsert_update_match [OF c0(2)]
    by (rule filter_update_one)
  then have fl: "filter (upsert_match e dto acc w d') (contracts d') = [c]"
    by (simp add: updated(4,5))
  have ready: "upsert_ready e dto acc w cr d'" using updated(1) by (simp add: updated(5))
  show ?thesis
  proof (rule that [OF ready ok' fl])
    show "ct_walletId c = cc_walletId dto"
      using updated(3) by (simp add: updated(4) upsert_update_def upsert_row_def)
    show "?f c = c" by (simp add: updated(4) upsert_update_twice)
  qed
qed

text \<open>The same request at another time writes the age of that day and the offer that goes with it.\<close>

definition aged_row :: "contract_env \<Rightarrow> create_contract_dto \<Rightarrow> wallet \<Rightarrow> creditor \<Rightarrow> contract \<Rightarrow> contract" where
  "aged_row e dto w cr c =
     (let aging = calculateAgingDays (ce_day e) (ce_now e) (cc_dueDate dto)
      in c\<lparr>ct_agingDays := aging,
           ct_offer := (if ct_paymentStatus c = PS_PAID then ct_offer c
                        else stored_offer (created_offer (cc_updatedValue dto) w cr aging))\<rparr>)"

lemma upsert_row_again:
  "upsert_row sha doc a2 o2 dto c = (upsert_row sha doc a1 o1 dto c)
     \<lparr>ct_agingDays := a2, ct_offer := (if ct_paymentStatus c = PS_PAID then ct_offer c else stored_offer o2)\<rparr>"
  by (simp add: upsert_row_def)

lemma upsert_update_later:
  assumes "upsert_update e dto w cr c = c" and "ce_sha e2 = ce_sha e"
  shows "upsert_update e2 dto w cr c = aged_row e2 dto w cr c"
proof -
  have "upsert_update e2 dto w cr c = (upsert_update e dto w cr c)\<lparr>ct_agingDays := upsert_aging e2 dto,
      ct_offer := (if ct_paymentStatus c = PS_PAID then ct_offer c
                   else stored_offer (created_offer (cc_updatedValue dto) w cr (upsert_aging e2 dto)))\<rparr>"
    unfolding upsert_update_def assms(2) by (rule upsert_row_again)
  then show ?thesis
    unfolding assms(1) by (simp add: aged_row_def upsert_aging_def Let_def)
qed

lemma aged_row_same:
  assumes "upsert_update e dto w cr c = c" and "ce_sha e2 = ce_sha e"
    and "ct_agingDays c = calculateAgingDays (ce_day e2) (ce_now e2) (cc_dueDate dto)"
  shows "aged_row e2 dto w cr c = c"
proof -
  have "ct_agingDays (upsert_update e dto w cr c) = upsert_aging e dto"
    by (simp add: upsert_update_def upsert_row_def)
  then have "upsert_aging e2 dto = upsert_aging e dto"
    using assms(1,3) by (simp add: upsert_aging_def)
  then show ?thesis
    using upsert_update_later [OF assms(1,2)] assms(1,2) by (simp add: upsert_update_def document_of_def)
qed

text \<open>
  C19. Sending the same contract again, now or at any later time, is accepted, adds no row and touches
  no other contract, and of its own row it writes the age of that day and, unless the contract is
  paid, the offer the wallet makes at that age; on the same day of age nothing changes at all.
\<close>

theorem createOrUpdate_idempotent:
  assumes "contracts_ok gen d" and "inj gen" and "ce_gen e = gen"
    and "createOrUpdate e dto acc d = (Inr c, d')"
    and "ce_sha e2 = ce_sha e" and "ce_endOfToday e \<le> ce_endOfToday e2"
  shows "\<exists>w cr. find_wallet (cc_walletId dto) acc d' = Some w \<and> creditor_of_wallet w d' = Some cr \<and>
    createOrUpdate e2 dto acc d' = (Inr (aged_row e2 dto w cr c),
      d'\<lparr>contracts := update_where (\<lambda>x. ct_id x = ct_id c) (aged_row e2 dto w cr) (contracts d')\<rparr>) \<and>
    (ct_agingDays c = calculateAgingDays (ce_day e2) (ce_now e2) (cc_dueDate dto) \<longrightarrow>
       createOrUpdate e2 dto acc d' = (Inr c, d'))"
proof -
  obtain w cr where ready: "upsert_ready e dto acc w cr d'" and ok: "contracts_ok gen d'"
    and fl: "filter (upsert_match e dto acc w d') (contracts d') = [c]" and wid: "ct_walletId c = cc_walletId dto"
    and fixed: "upsert_update e dto w cr c = c"
    using stored_upsert [OF assms(1-4)] .
  have ready2: "upsert_ready e2 dto acc w cr d'" using ready assms(6) by (simp add: upsert_ready_def)
  have fl2: "filter (upsert_match e2 dto acc w d') (contracts d') = [c]"
    using fl by (simp add: upsert_match_def document_of_def assms(5))
  have c: "c \<in> set (contracts d')" using fl by (metis filter_is_subset list.set_intros(1) subsetD)
  have one: "x = c" if "x \<in> set (contracts d')" "ct_id x = ct_id c" for x
    using that contracts_okD(1) [OF ok] c by (metis distinct_map inj_onD)
  have row: "upsert_update e2 dto w cr c = aged_row e2 dto w cr c"
    by (rule upsert_update_later [OF fixed assms(5)])
  have d2: "update_contract (ct_id c) (upsert_update e2 dto w cr) d' =
      d'\<lparr>contracts := update_where (\<lambda>x. ct_id x = ct_id c) (aged_row e2 dto w cr) (contracts d')\<rparr>"
  proof -
    have "update_where (\<lambda>x. ct_id x = ct_id c) (upsert_update e2 dto w cr) (contracts d') =
        update_where (\<lambda>x. ct_id x = ct_id c) (aged_row e2 dto w cr) (contracts d')"
      unfolding update_where_def using one row by auto
    then show ?thesis by (simp add: update_contract_def)
  qed
  have "ct_id (upsert_update e2 dto w cr c) = ct_id c" by (simp add: upsert_update_def upsert_row_def)
  then have run: "createOrUpdate e2 dto acc d' = (Inr (aged_row e2 dto w cr c),
      d'\<lparr>contracts := update_where (\<lambda>x. ct_id x = ct_id c) (aged_row e2 dto w cr) (contracts d')\<rparr>)"
    using stored_row_update [OF contracts_okD(1) [OF ok] c, of "upsert_update e2 dto w cr"] fl2 wid
    by (simp add: createOrUpdate_ready [OF ready2] row d2)
  have "d'\<lparr>contracts := update_where (\<lambda>x. ct_id x = ct_id c) f (contracts d')\<rparr> = d'" if "f c = c" for f
    using one that by (subst update_where_id) auto
  with run aged_row_same [OF fixed assms(5)] ready show ?thesis
    unfolding upsert_ready_def by auto
qed

text \<open>
  A deleted contract keeps its key, so the same debt cannot be registered again: the creation runs
  into the unique index and the request ends in an internal error.
\<close>

lemma recreate_deleted_fails:
  assumes "contracts_ok gen d" and "inj gen" and "ce_gen e = gen" and "ce_gen e' = gen"
    and "createOrUpdate e dto acc d = (Inr c, d1)"
    and "length (contracts d1) = Suc (length (contracts d))"
    and "softDeleteContract e' (ct_id c) acc d1 = (Inr c2, d2)"
  shows "createOrUpdate e dto acc d2 = (Inl (Internal ''P2002''), d2)"
  using assms(5,1)
proof (cases rule: createOrUpdate_cases)
  case (updated w cr c0)
  then show ?thesis using assms(6) by simp
next
  case (created w cr)
  note fr = create_contract_frame [OF created(3)]
  have ok1: "contracts_ok gen d1"
    using contracts_ok_create [OF assms(1,2)] created(3) assms(3) by simp
  have c: "c \<in> set (contracts d1)" by (simp add: fr(2))
  let ?f = "\<lambda>r. r\<lparr>ct_deletedAt := Some (ce_now e')\<rparr>"
  have d2: "d2 = update_contract (ct_id c) ?f d1"
    using assms(7) stored_row_update [OF contracts_okD(1) [OF ok1] c, of ?f]
    by (auto simp: softDeleteContract_def split: option.splits if_splits)
  have "\<not> upsert_match e dto acc w d x" if "x \<in> set (contracts d2)" for x
  proof -
    from that obtain y where y: "y \<in> set (contracts d1)"
      "ct_id y = ct_id c \<and> x = ?f y \<or> ct_id y \<noteq> ct_id c \<and> x = y"
      unfolding d2 by (auto simp: in_update_where)
    show ?thesis
    proof (cases "ct_id y = ct_id c")
      case True
      then show ?thesis using y(2) by (simp add: upsert_match_def identity_match_def)
    next
      case False
      with y have "x \<in> set (contracts d)" by (auto simp: fr(2))
      with created(2) show ?thesis by (metis filter_empty_conv)
    qed
  qed
  then have "filter (upsert_match e dto acc w d2) (contracts d2) = []"
    by (simp add: filter_empty_conv d2 fr(2))
  moreover have "create_contract (ce_gen e) (upsert_create e dto acc w cr) d2 = None"
  proof (rule contract_table.insert_taken)
    have "ct_deduplicationKey c = ct_deduplicationKey (upsert_create e dto acc w cr)"
      by (simp add: fr(1) new_contract_row_def)
    moreover have "?f c \<in> set (contracts d2)" unfolding d2 using c by (auto simp: in_update_where)
    then have "ct_deduplicationKey (?f c) \<in> ct_deduplicationKey ` set (contracts d2)" by (rule imageI)
    ultimately show "ct_deduplicationKey (upsert_create e dto acc w cr) \<in> ct_deduplicationKey ` set (contracts d2)"
      by simp
  qed
  moreover have "upsert_ready e dto acc w cr d2"
    using created(1) by (simp add: d2 fr(2))
  ultimately show ?thesis by (simp add: createOrUpdate_ready)
qed

section \<open>Editing\<close>

definition patched ::
  "contract_env \<Rightarrow> update_contract_dto \<Rightarrow> int \<times> offer_snapshot \<Rightarrow> contract \<Rightarrow> contract" where
  "patched e dto p c = (patch_row (ce_sha e) dto c)\<lparr>ct_agingDays := fst p, ct_offer := snd p\<rparr>"

definition offer_wallet :: "update_contract_dto \<Rightarrow> contract \<Rightarrow> string \<Rightarrow> database \<Rightarrow> wallet option" where
  "offer_wallet dto c acc d =
     (if must_recalculate dto then find_wallet (or_else (uc_walletId dto) (ct_walletId c)) acc d else None)"

lemma find_contractD:
  assumes "find_contract i acc d = Some c"
  shows "c \<in> set (contracts d)" and "ct_id c = i" and "ct_accountId c = acc" and "ct_deletedAt c = None"
  using assms unfolding find_contract_def by (auto dest: find_SomeD)

lemma updateContract_cases:
  assumes "updateContract e i dto acc d = (Inr c', d')" and "contracts_ok gen d"
  obtains c p where "find_contract i acc d = Some c"
    and "ct_serasaStatus c \<in> set EDITABLE_PROVIDER_STATUSES"
    and "transition_error dto c = None" and "destination_error dto c acc d = None"
    and "patch_offer e dto c (offer_wallet dto c acc d) d = Inr p" and "uc_walletId dto \<noteq> Some ''''"
    and "c' = patched e dto p c" and "d' = update_contract i (patched e dto p) d"
proof -
  obtain c where c: "find_contract i acc d = Some c"
    and ed: "ct_serasaStatus c \<in> set EDITABLE_PROVIDER_STATUSES"
    and none: "or_opt (transition_error dto c) (destination_error dto c acc d) = None"
    using assms(1) by (auto simp: updateContract_def split: option.splits if_splits)
  have errs: "transition_error dto c = None" "destination_error dto c acc d = None"
    using none by (cases "transition_error dto c"; simp)+
  obtain p where p: "patch_offer e dto c (offer_wallet dto c acc d) d = Inr p"
    and fk: "uc_walletId dto \<noteq> Some ''''"
    and run: "stored_row i (update_contract i (patched e dto p) d) = (Inr c', d')"
    using assms(1) c ed none
    by (auto simp: updateContract_def offer_wallet_def patched_def [abs_def] Let_def
        split: sum.splits prod.splits if_splits)
  have "stored_row (ct_id c) (update_contract (ct_id c) (patched e dto p) d)
      = (Inr (patched e dto p c), update_contract (ct_id c) (patched e dto p) d)"
    using contracts_okD(1) [OF assms(2)] find_contractD(1) [OF c]
    by (rule stored_row_update) (simp add: patched_def patch_row_def Let_def)
  with run find_contractD(2) [OF c] have "c' = patched e dto p c" "d' = update_contract i (patched e dto p) d"
    by simp_all
  with that c ed errs p fk show thesis by blast
qed

definition settled_part ::
  "contract \<Rightarrow> string \<times> string \<times> string \<times> string \<times> serasa_status \<times> payment_status \<times> agreement \<times> rat \<times> int option" where
  \<comment> \<open>what no edit may touch: identity, provider and payment state\<close>
  "settled_part c =
     (ct_id c, ct_accountId c, ct_debtorDocument c, ct_deduplicationKey c, ct_serasaStatus c,
      ct_paymentStatus c, ct_agreement c, ct_totalPaidAmount c, ct_deletedAt c)"

text \<open>
  C20. An edit is accepted only while the contract is not at the provider; the status follows the
  allowed transitions, a new wallet is an active one of the account, and identity, provider state
  and payments stay. The offer of a paid contract stays, too. All other contracts are untouched.
\<close>

lemma updateContract_guarded:
  assumes "contracts_ok gen d" and "updateContract e i dto acc d = (Inr c', d')"
  shows "\<exists>c. find_contract i acc d = Some c \<and> ct_serasaStatus c \<in> set EDITABLE_PROVIDER_STATUSES \<and>
    (ct_status c' = ct_status c \<or> ct_status c' \<in> set (ALLOWED_STATUS_TRANSITIONS (ct_status c))) \<and>
    (ct_walletId c' = ct_walletId c \<or>
      (\<exists>w. find_wallet (ct_walletId c') acc d = Some w \<and> wl_active w)) \<and>
    settled_part c' = settled_part c \<and> (ct_paymentStatus c = PS_PAID \<longrightarrow> ct_offer c' = ct_offer c) \<and>
    contracts d' = map (\<lambda>x. if ct_id x = i then c' else x) (contracts d)"
  using assms(2,1)
proof (cases rule: updateContract_cases)
  case (1 c p)
  have st: "ct_status c' = or_else (uc_status dto) (ct_status c)"
    and wl: "ct_walletId c' = or_else (uc_walletId dto) (ct_walletId c)"
    and off: "ct_offer c' = snd p"
    and sp: "settled_part c' = settled_part c"
    by (simp_all add: 1(7) patched_def patch_row_def Let_def settled_part_def)
  have "ct_status c' = ct_status c \<or> ct_status c' \<in> set (ALLOWED_STATUS_TRANSITIONS (ct_status c))"
    using 1(3) st by (auto simp: transition_error_def split: option.splits if_splits)
  moreover have "ct_walletId c' = ct_walletId c \<or>
      (\<exists>w. find_wallet (ct_walletId c') acc d = Some w \<and> wl_active w)"
    using 1(4,6) wl by (auto simp: destination_error_def split: option.splits if_splits)
  moreover have "ct_offer c' = ct_offer c" if "ct_paymentStatus c = PS_PAID"
    using 1(5) that off
    by (auto simp: patch_offer_def patch_discount_def split: option.splits)
  moreover have "contracts d' = map (\<lambda>x. if ct_id x = i then c' else x) (contracts d)"
  proof -
    have "x = c" if "x \<in> set (contracts d)" "ct_id x = i" for x
      using that contracts_okD(1) [OF assms(1)] find_contractD(1,2) [OF 1(1)]
      by (metis distinct_map inj_onD)
    then show ?thesis by (auto simp: 1(7,8) update_where_def)
  qed
  ultimately show ?thesis using 1(1,2) sp by blast
qed

text \<open>
  An edit that changes the value, the wallet or the date of an unpaid contract reprices it with the
  flat discount of the wallet: neither the ceiling of the creditor nor the strategy bands are
  looked at, and the ceiling, the creditor's share and the commission of the snapshot stay those of
  the old price.
\<close>

lemma update_ignores_ceiling:
  assumes "contracts_ok gen d" and "updateContract e i dto acc d = (Inr c', d')"
    and "find_contract i acc d = Some c" and "ct_paymentStatus c \<noteq> PS_PAID"
    and "must_recalculate dto" and "uc_offerDiscountPercent dto = None"
    and "find_wallet (or_else (uc_walletId dto) (ct_walletId c)) acc d = Some w"
  shows "of_discountPercent (ct_offer c') = Some (dec2 (min 100 (max 0 (wl_cobcomDiscountPercent w)))) \<and>
    of_maximumDiscountPercent (ct_offer c') = of_maximumDiscountPercent (ct_offer c) \<and>
    of_repasseValue (ct_offer c') = of_repasseValue (ct_offer c) \<and>
    of_commissionValue (ct_offer c') = of_commissionValue (ct_offer c)"
  using assms(2,1)
proof (cases rule: updateContract_cases)
  case (1 c0 p)
  have [simp]: "c0 = c" using 1(1) assms(3) by simp
  have "snd p = with_calculated (calculateOffer (or_else (uc_updatedValue dto) (ct_updatedValue c)) w) (ct_offer c)"
    using 1(5) assms(4-7) by (auto simp: patch_offer_def offer_wallet_def)
  moreover have "ct_offer c' = snd p" by (simp add: 1(7) patched_def)
  ultimately show ?thesis
    by (simp add: with_calculated_def calculateOffer_def Let_def)
qed

section \<open>Transfers\<close>

text \<open>
  A bulk transfer moves contracts between two wallets of the account and of one creditor, changes
  nothing else of them, and reports how many it moved.
\<close>

lemma bulkTransfer_moves:
  assumes "bulkTransfer dto acc d = (Inr (m, n), d')"
  shows "m = n \<and> n = length (filter (transferable dto acc) (contracts d)) \<and>
    contracts d' = map (\<lambda>c. if transferable dto acc c
      then c\<lparr>ct_walletId := bt_destinationWalletId dto\<rparr> else c) (contracts d) \<and>
    (\<exists>s t. find_wallet (bt_sourceWalletId dto) acc d = Some s \<and>
      find_wallet (bt_destinationWalletId dto) acc d = Some t \<and> wl_active t \<and>
      wl_creditorId s = wl_creditorId t \<and> bt_sourceWalletId dto \<noteq> bt_destinationWalletId dto)"
  using assms
  by (auto simp: bulkTransfer_def update_where_def count_where_def Let_def split: option.splits if_splits)

text \<open>
  The provider status in the filters replaces the list of editable statuses. A request that names a
  status outside the list moves exactly the contracts that every edit of a single contract refuses.
\<close>

lemma bulkTransfer_bypasses_guard:
  assumes "bulkTransfer dto acc d = (Inr (m, n), d')" and "bt_serasaStatus dto = Some s"
    and "s \<notin> set EDITABLE_PROVIDER_STATUSES" and "c \<in> set (contracts d)"
    and "transferable dto acc c" and "distinct (map ct_id (contracts d))"
  shows "fst (updateContract e (ct_id c) patch acc d) = Inl (Conflict ''Contract must be removed from the provider'') \<and>
    c\<lparr>ct_walletId := bt_destinationWalletId dto\<rparr> \<in> set (contracts d')"
proof -
  have tr: "ct_accountId c = acc" "ct_deletedAt c = None" "ct_serasaStatus c = s"
    using assms(2,5) by (simp_all add: transferable_def provider_status_ok_def)
  then have "find_contract (ct_id c) acc d = Some c"
    unfolding find_contract_def using assms(4,6) by (intro find_by_key [where k = ct_id]) auto
  then have "fst (updateContract e (ct_id c) patch acc d) = Inl (Conflict ''Contract must be removed from the provider'')"
    using assms(3) tr by (simp add: updateContract_def)
  moreover have "c\<lparr>ct_walletId := bt_destinationWalletId dto\<rparr> \<in> set (contracts d')"
    using bulkTransfer_moves [OF assms(1)] assms(4,5) by force
  ultimately show ?thesis ..
qed

section \<open>What a user sees\<close>

definition permutes_rows :: "(row_order \<Rightarrow> contract list \<Rightarrow> contract list) \<Rightarrow> bool" where
  \<comment> \<open>what the queries rely on: \<open>ORDER BY\<close> returns the rows it was given\<close>
  "permutes_rows order \<longleftrightarrow> (\<forall>o1 xs. length (order o1 xs) = length xs \<and> set (order o1 xs) = set xs)"

lemma list_rows:
  assumes "permutes_rows order" and "(c', ts) \<in> set (cp_data (listContracts order sha q v b d))"
  obtains c where "c \<in> set (contracts d)" and "listed sha q v d c" and "(c', ts) = shown v d c"
    and "\<not> portal_refused q v" and "\<not> scope_refused q v"
proof -
  have nr: "\<not> portal_refused q v" "\<not> scope_refused q v"
    using assms(2) by (auto simp: listContracts_def no_page_def split: if_splits)
  have "cp_data (listContracts order sha q v b d) =
      map (shown v d) (take (lq_limit q) (drop ((lq_page q - 1) * lq_limit q)
        (order (list_order q v) (filter (listed sha q v d) (contracts d)))))"
    using nr by (simp add: listContracts_def Let_def)
  with assms(2) obtain c where c: "c \<in> set (take (lq_limit q) (drop ((lq_page q - 1) * lq_limit q)
        (order (list_order q v) (filter (listed sha q v d) (contracts d)))))" "(c', ts) = shown v d c"
    by auto
  have "c \<in> set (order (list_order q v) (filter (listed sha q v d) (contracts d)))"
    using c(1) by (blast dest: in_set_takeD in_set_dropD)
  then have "c \<in> set (contracts d)" "listed sha q v d c"
    using assms(1) by (auto simp: permutes_rows_def)
  with c(2) nr that show thesis by blast
qed

text \<open>
  C21. The list shows live contracts of the account only; a viewer sees those of the wallets in the
  scopes, with a masked document, and the creditor portal those of its creditor.
\<close>

lemma list_scoped:
  assumes "permutes_rows order" and "(c', ts) \<in> set (cp_data (listContracts order sha q v b d))"
  shows "\<exists>c \<in> set (contracts d). ct_id c' = ct_id c \<and> ct_accountId c = vw_accountId v \<and> ct_deletedAt c = None \<and>
    (case portal v of
       Some cr \<Rightarrow> of_creditor d cr c
     | None \<Rightarrow> vw_role v = VIEWER \<longrightarrow>
         (\<exists>ws. vw_scopes v = Some ws \<and> ct_walletId c \<in> set ws) \<and>
         ct_debtorDocument c' = maskDocument (ct_debtorDocument c))"
proof -
  obtain c where c: "c \<in> set (contracts d)" "listed sha q v d c" "(c', ts) = shown v d c"
    "\<not> scope_refused q v"
    using list_rows [OF assms] by metis
  have "ct_id c' = ct_id c" using c(3) by (auto simp: shown_def split: if_splits)
  moreover have "ct_accountId c = vw_accountId v" "ct_deletedAt c = None"
    using c(2) by (simp_all add: listed_def)
  moreover have "of_creditor d cr c" if "portal v = Some cr" for cr
    using c(2) that by (simp add: listed_def creditor_ok_def)
  moreover have "(\<exists>ws. vw_scopes v = Some ws \<and> ct_walletId c \<in> set ws) \<and>
      ct_debtorDocument c' = maskDocument (ct_debtorDocument c)" if pv: "portal v = None" "vw_role v = VIEWER"
  proof -
    obtain ws where ws: "vw_scopes v = Some ws"
      using c(4) pv by (cases "vw_scopes v") (auto simp: scope_refused_def)
    have "wallet_filter q v c" using c(2) by (simp add: listed_def)
    then have "ct_walletId c \<in> set ws"
      using c(4) pv ws by (auto simp: wallet_filter_def scope_refused_def split: option.splits)
    with ws pv c(3) show ?thesis by (auto simp: shown_def)
  qed
  ultimately show ?thesis
    using c(1) by (auto split: option.split)
qed

text \<open>
  The same check on a single contract fails open: a viewer without any scope, for whom the list is
  empty, reads every live contract of the account by its identifier.
\<close>

lemma empty_scopes_read_everything:
  assumes "c \<in> set (contracts d)" and "distinct (map ct_id (contracts d))"
    and "ct_accountId c = vw_accountId v" and "ct_deletedAt c = None"
    and "vw_role v = VIEWER" and "vw_scopes v = Some []" and "portal v = None"
  shows "(\<exists>r. findContractById (ct_id c) v d = Inr r \<and> ct_id (fst r) = ct_id c) \<and>
    cp_data (listContracts order sha q v b d) = []"
proof -
  have "List.find (\<lambda>x. ct_id x = ct_id c \<and> ct_accountId x = vw_accountId v \<and> ct_deletedAt x = None \<and>
      opt_ok (portal v) (\<lambda>cr. of_creditor d cr x) \<and>
      (vw_role v = VIEWER \<longrightarrow> (case vw_scopes v of None \<Rightarrow> True | Some ws \<Rightarrow> ws = [] \<or> ct_walletId x \<in> set ws)))
      (contracts d) = Some c"
    using assms by (intro find_by_key [where k = ct_id]) auto
  then have "findContractById (ct_id c) v d = Inr (shown v d c)"
    by (simp add: findContractById_def)
  moreover have "ct_id (fst (shown v d c)) = ct_id c" by (simp add: shown_def)
  moreover have "scope_refused q v" using assms(5-7) by (simp add: scope_refused_def)
  ultimately show ?thesis by (simp add: listContracts_def no_page_def)
qed

lemma page_parts:
  "creditor_ok (q\<lparr>lq_page := n, lq_limit := k\<rparr>) = creditor_ok q"
  "wallet_filter (q\<lparr>lq_page := n, lq_limit := k\<rparr>) = wallet_filter q"
  "status_ok (q\<lparr>lq_page := n, lq_limit := k\<rparr>) = status_ok q"
  "serasa_ok (q\<lparr>lq_page := n, lq_limit := k\<rparr>) = serasa_ok q"
  "document_ok sha (q\<lparr>lq_page := n, lq_limit := k\<rparr>) = document_ok sha q"
  "text_search_ok sha (q\<lparr>lq_page := n, lq_limit := k\<rparr>) = text_search_ok sha q"
  by (simp_all add: fun_eq_iff creditor_ok_def wallet_filter_def status_ok_def serasa_ok_def document_ok_def
      text_search_ok_def search_term_def split: option.split)

lemma page_irrelevant [simp]:
  "listed sha (q\<lparr>lq_page := n, lq_limit := k\<rparr>) = listed sha q"
  "portal_refused (q\<lparr>lq_page := n, lq_limit := k\<rparr>) = portal_refused q"
  "scope_refused (q\<lparr>lq_page := n, lq_limit := k\<rparr>) = scope_refused q"
  "list_order (q\<lparr>lq_page := n, lq_limit := k\<rparr>) = list_order q"
  by (simp_all add: fun_eq_iff listed_def page_parts)
    (simp_all add: fun_eq_iff portal_refused_def scope_refused_def list_order_def search_term_def split: option.split)

text \<open>
  The pages the export reads are together the whole result of the query, each row once and in order.
\<close>

lemma export_complete:
  assumes "permutes_rows order"
  shows "exportContracts order sha q v d =
    (if portal_refused q v \<or> scope_refused q v then []
     else map (shown v d) (order (list_order q v) (filter (listed sha q v d) (contracts d))))"
proof (cases "portal_refused q v \<or> scope_refused q v")
  case True
  then show ?thesis by (simp add: exportContracts_def listContracts_def no_page_def)
next
  case False
  define rows where "rows = order (list_order q v) (filter (listed sha q v d) (contracts d))"
  define m where "m = (length rows + 999) div 1000"
  have len: "length (filter (listed sha q v d) (contracts d)) = length rows"
    using assms by (simp add: permutes_rows_def rows_def)
  have page: "cp_data (listContracts order sha (q\<lparr>lq_page := n, lq_limit := 1000\<rparr>) v b d)
      = map (shown v d) (take 1000 (drop ((n - 1) * 1000) rows))" for n b
    using False by (simp add: listContracts_def Let_def rows_def)
  have total: "cp_totalPages (listContracts order sha (q\<lparr>lq_page := 1, lq_limit := 1000\<rparr>) v True d) = m"
    using False len by (simp add: listContracts_def Let_def m_def)
  have enough: "length rows \<le> m * 1000"
    using pages_enough [of 1000 "length rows"] by (simp add: m_def)
  have all: "concat (map (\<lambda>n. take 1000 (drop (n * 1000) rows)) [0..<m]) = rows"
    using enough by (simp add: concat_pages)
  show ?thesis
  proof (cases "m \<le> 1")
    case True
    then have "take 1000 rows = rows" using enough by simp
    then show ?thesis
      using False True unfolding exportContracts_def Let_def total page by (simp add: rows_def)
  next
    case m: False
    have "[0..<m] = 0 # map (\<lambda>n. n - 1) [2..<Suc m]"
      using m by (intro nth_equalityI) (auto simp: nth_Cons' simp del: upt_Suc)
    then have "rows = take 1000 rows @ concat (map (\<lambda>n. take 1000 (drop ((n - 1) * 1000) rows)) [2..<Suc m])"
      using all by (simp add: comp_def del: upt_Suc)
    then have "map (shown v d) rows =
        map (shown v d) (take 1000 rows @ concat (map (\<lambda>n. take 1000 (drop ((n - 1) * 1000) rows)) [2..<Suc m]))"
      by (rule arg_cong)
    also have "\<dots> = map (shown v d) (take 1000 rows) @
        concat (map (\<lambda>n. map (shown v d) (take 1000 (drop ((n - 1) * 1000) rows))) [2..<Suc m])"
      by (simp add: map_concat comp_def del: upt_Suc)
    finally show ?thesis
      using False m unfolding exportContracts_def Let_def total page by (simp add: rows_def)
  qed
qed

section \<open>Tags\<close>

lemma distinct_normalizeTags: "distinct (normalizeTags ts)"
  by (simp add: normalizeTags_def)

lemma normalizeTag_idem [simp]: "normalizeTag (normalizeTag t) = normalizeTag t"
  by (simp add: normalizeTag_def trim_lower)

lemma tags_of_add:
  "tags_of (add_tag_row gen i t d) j =
    (if i = j \<and> t \<notin> set (tags_of d i) then tags_of d j @ [t] else tags_of d j)"
  by (simp add: add_tag_row_def tags_of_def)

lemma tags_of_fold:
  assumes "distinct ts"
  shows "tags_of (fold (add_tag_row gen i) ts d) i = tags_of d i @ filter (\<lambda>t. t \<notin> set (tags_of d i)) ts"
  using assms
proof (induction ts arbitrary: d)
  case (Cons t ts)
  have "filter (\<lambda>x. x \<noteq> t \<and> x \<notin> set (tags_of d i)) ts = filter (\<lambda>x. x \<notin> set (tags_of d i)) ts"
    using Cons.prems by (intro filter_cong) auto
  then show ?case
    using Cons by (auto simp: tags_of_add cong: filter_cong)
qed simp

lemma tags_of_fold_other: "i \<noteq> j \<Longrightarrow> tags_of (fold (add_tag_row gen i) ts d) j = tags_of d j"
  by (induction ts arbitrary: d) (simp_all add: tags_of_add)

text \<open>
  Adding tags keeps them normalised, unique and at most twenty; the other contracts keep theirs, and
  a refused request changes nothing.
\<close>

lemma addTags_limit:
  assumes "addTags gen i ts acc d = (r, d')" and "distinct (tags_of d i)"
    and "length (tags_of d i) \<le> 20"
  shows "distinct (tags_of d' i) \<and> length (tags_of d' i) \<le> 20 \<and> (\<forall>j. j \<noteq> i \<longrightarrow> tags_of d' j = tags_of d j) \<and>
    (case r of
       Inl _ \<Rightarrow> d' = d
     | Inr ans \<Rightarrow> ans = tags_of d' i \<and> set ans = set (tags_of d i) \<union> normalizeTag ` set ts)"
proof -
  consider "r = Inl (NotFound ''Contract not found'')" "d' = d"
    | "r = Inl (Unprocessable ''limit of 20 tags'')" "d' = d"
    | "d' = fold (add_tag_row gen i) (normalizeTags ts) d" "r = Inr (tags_of d' i)"
      "length (tags_of d i) + length (filter (\<lambda>t. t \<notin> set (tags_of d i)) (normalizeTags ts)) \<le> 20"
    using assms(1) by (auto simp: addTags_def Let_def split: option.splits if_splits)
  then show ?thesis
  proof cases
    case 3
    note t = tags_of_fold [OF distinct_normalizeTags, of gen i ts d]
    have "set (normalizeTags ts) = normalizeTag ` set ts" by (simp add: normalizeTags_def)
    then have "set (tags_of d' i) = set (tags_of d i) \<union> normalizeTag ` set ts"
      unfolding 3(1) t by auto
    moreover have "distinct (tags_of d' i)" "length (tags_of d' i) \<le> 20"
      unfolding 3(1) t using assms(2) 3(3) distinct_normalizeTags by auto
    ultimately show ?thesis using 3(2) tags_of_fold_other by (simp add: 3(1))
  qed (use assms(2,3) in simp_all)
qed

section \<open>A sample\<close>

text \<open>
  The database of \<open>Charges\<close> with a second wallet, a request for a contract it does not hold,
  and requests to edit and to move the one it holds. The hash is the identity, and the database
  returns rows in the order of the table.
\<close>

definition sample_contract_env :: contract_env where
  "sample_contract_env =
     \<lparr>ce_now = 1000, ce_gen = sample_gen, ce_sha = (\<lambda>s. s), ce_day = (\<lambda>t. t div day_ms),
      ce_endOfToday = day_ms\<rparr>"

definition sample_contract_db :: database where
  "sample_contract_db =
     sample_db\<lparr>wallets := wallets sample_db @ map (\<lambda>w. w\<lparr>wl_id := ''w2''\<rparr>) (wallets sample_db),
       contracts := [sample_contract\<lparr>ct_id := ''id-0''\<rparr>], nextId := 1\<rparr>"

definition sample_registered_contract :: contract where
  "sample_registered_contract = sample_contract\<lparr>ct_id := ''id-0'', ct_serasaStatus := SE_REGISTERED\<rparr>"

definition sample_create :: create_contract_dto where
  "sample_create =
     \<lparr>cc_walletId = ''w1'', cc_debtorDocument = ''529.982.247-25'', cc_debtorName = Some ''Ana'',
      cc_debtorBirthDate = None, cc_contractNumber = ''n2'', cc_debtType = OTHER, cc_dueDate = 0,
      cc_productAdhesionDate = None, cc_originalValue = 100, cc_updatedValue = 120,
      cc_debtOrigin = None, cc_productName = None, cc_debtorStreet = None, cc_debtorCity = None,
      cc_debtorPhone = None, cc_debtorEmail = None, cc_isNegativated = None, cc_cancelledAt = None,
      cc_offer = None\<rparr>"

definition no_patch :: update_contract_dto where
  "no_patch =
     \<lparr>uc_originalValue = None, uc_updatedValue = None, uc_offerDiscountPercent = None,
      uc_occurrenceDate = None, uc_dueDate = None, uc_productAdhesionDate = None, uc_debtType = None,
      uc_walletId = None, uc_status = None, uc_debtOrigin = None, uc_debtorName = None,
      uc_debtorBirthDate = None, uc_productName = None, uc_debtorStreet = None, uc_debtorCity = None,
      uc_debtorPhone = None, uc_debtorEmail = None, uc_isNegativated = None, uc_cancelledAt = None,
      uc_offer = None\<rparr>"

definition no_values :: value_filters where
  "no_values =
     \<lparr>vf_minOriginalValue = None, vf_maxOriginalValue = None, vf_minUpdatedValue = None,
      vf_maxUpdatedValue = None, vf_updatedValueOperator = None, vf_updatedValue = None,
      vf_offerValueOperator = None, vf_offerValue = None, vf_agingOperator = None, vf_aging = None\<rparr>"

definition sample_transfer :: bulk_transfer_dto where
  "sample_transfer =
     \<lparr>bt_sourceWalletId = ''w1'', bt_destinationWalletId = ''w2'', bt_paymentStatus = None,
      bt_serasaStatus = Some SE_REGISTERED, bt_installmentOnly = False, bt_values = no_values\<rparr>"

definition sample_query :: list_query where
  "sample_query =
     \<lparr>lq_page = 1, lq_limit = 10, lq_walletId = None, lq_creditorId = None, lq_status = None,
      lq_serasaStatus = None, lq_synced = False, lq_paymentStatus = None, lq_installmentOnly = False,
      lq_agreementOnly = False, lq_agreementDateFrom = None, lq_agreementDateTo = None,
      lq_values = no_values, lq_dateFrom = None, lq_dateTo = None, lq_paymentDateFrom = None,
      lq_paymentDateTo = None, lq_debtorDocument = None, lq_search = None, lq_tags = [],
      lq_sortBy = None\<rparr>"

definition sample_viewer :: "string list \<Rightarrow> viewer" where
  "sample_viewer ws =
     \<lparr>vw_accountId = ''a1'', vw_role = VIEWER, vw_scopes = Some ws, vw_portalCreditorId = None\<rparr>"

lemma sample_contract_db_ok: "contracts_ok sample_gen sample_contract_db"
proof -
  have "sample_gen 0 = ''id-0''" by (simp add: sample_gen_def show_nat.simps js_simps)
  then have "''id-0'' \<in> sample_gen ` {..<1}" by (metis image_eqI lessThan_iff zero_less_one)
  then show ?thesis
    unfolding contracts_ok_def sample_contract_db_def by (simp add: sample_contract_def sample_db_def)
qed

lemma keeps_order: "permutes_rows (\<lambda>_ rows. rows)"
  by (simp add: permutes_rows_def)

abbreviation first_upsert :: "(database, contract) outcome" where
  "first_upsert \<equiv> createOrUpdate sample_contract_env sample_create ''a1'' sample_contract_db"

lemmas contract_eval = sample_defs sample_contract_env_def sample_contract_db_def sample_create_def
  createOrUpdate_def find_wallet_def creditor_of_wallet_def identity_match_def of_creditor_def
  wallet_of_def create_contract_def new_contract_row_def fresh_contract_def is_ok_def

lemma sample_upsert_ok: "is_ok first_upsert"
  by (simp add: contract_eval Let_def computeDeduplicationKey_def key_text_def day_ms_def)
lemma createOrUpdate_idempotent_witness:
  "createOrUpdate (sample_contract_env\<lparr>ce_now := ce_now sample_contract_env + 5\<rparr>) sample_create ''a1''
      (snd first_upsert) = (Inr (projr (fst first_upsert)), snd first_upsert)"
proof -
  let ?e2 = "sample_contract_env\<lparr>ce_now := ce_now sample_contract_env + 5\<rparr>"
  have "ce_gen sample_contract_env = sample_gen" by (simp add: sample_contract_env_def)
  note again = createOrUpdate_idempotent [OF sample_contract_db_ok inj_sample_gen this ok_outcome [OF sample_upsert_ok],
      of ?e2]
  have "ct_agingDays (projr (fst first_upsert)) =
      calculateAgingDays (ce_day ?e2) (ce_now ?e2) (cc_dueDate sample_create)"
    by (simp add: contract_eval Let_def computeDeduplicationKey_def key_text_def day_ms_def calculateAgingDays_def)
  with again show ?thesis by auto
qed

abbreviation first_deletion :: "(database, contract) outcome" where
  "first_deletion \<equiv> softDeleteContract sample_contract_env ''id-1'' ''a1'' (snd first_upsert)"

lemma sample_upsert_row:
  "ct_id (projr (fst first_upsert)) = ''id-1'' \<and>
   length (contracts (snd first_upsert)) = Suc (length (contracts sample_contract_db)) \<and>
   is_ok first_deletion"
  by (simp add: contract_eval Let_def computeDeduplicationKey_def key_text_def day_ms_def show_nat.simps
      js_simps softDeleteContract_def find_contract_def EDITABLE_PROVIDER_STATUSES_def stored_row_def)

lemma recreate_deleted_fails_witness:
  "createOrUpdate sample_contract_env sample_create ''a1'' (snd first_deletion)
     = (Inl (Internal ''P2002''), snd first_deletion)"
proof -
  have g: "ce_gen sample_contract_env = sample_gen" by (simp add: sample_contract_env_def)
  have id1: "ct_id (projr (fst first_upsert)) = ''id-1''"
    and len: "length (contracts (snd first_upsert)) = Suc (length (contracts sample_contract_db))"
    and del: "is_ok first_deletion"
    using sample_upsert_row by simp_all
  show ?thesis
    using recreate_deleted_fails [OF sample_contract_db_ok inj_sample_gen g g ok_outcome [OF sample_upsert_ok] len,
        unfolded id1, OF ok_outcome [OF del]] .
qed

abbreviation first_edit :: "(database, contract) outcome" where
  "first_edit \<equiv> updateContract sample_contract_env ''id-0''
     (no_patch\<lparr>uc_status := Some CT_SUSPENDED, uc_walletId := Some ''w2''\<rparr>) ''a1'' sample_contract_db"

lemmas edit_eval = contract_eval updateContract_def no_patch_def find_contract_def
  EDITABLE_PROVIDER_STATUSES_def transition_error_def destination_error_def must_recalculate_def
  patch_offer_def patch_row_def stored_row_def

lemma sample_edit_ok: "is_ok first_edit"
  by (simp add: edit_eval Let_def)

lemma sample_find:
  "find_contract ''id-0'' ''a1'' sample_contract_db = Some (sample_contract\<lparr>ct_id := ''id-0''\<rparr>)"
  by (simp add: contract_eval find_contract_def)

lemma updateContract_guarded_witness:
  "settled_part (projr (fst first_edit)) = settled_part (sample_contract\<lparr>ct_id := ''id-0''\<rparr>) \<and>
   contracts (snd first_edit) = [projr (fst first_edit)]"
  using updateContract_guarded [OF sample_contract_db_ok ok_outcome [OF sample_edit_ok]] sample_find
  by (auto simp: sample_contract_db_def)

lemma update_ignores_ceiling_witness:
  "of_discountPercent (ct_offer (projr (fst first_edit))) = Some 10"
proof -
  define w where "w = hd (wallets sample_db)\<lparr>wl_id := ''w2''\<rparr>"
  have w: "find_wallet ''w2'' ''a1'' sample_contract_db = Some w"
    by (simp add: contract_eval w_def)
  have "dec2 (min 100 (max 0 (wl_cobcomDiscountPercent w))) = 10"
    by (simp add: w_def sample_db_def) code_simp
  with update_ignores_ceiling [OF sample_contract_db_ok ok_outcome [OF sample_edit_ok] sample_find, of w] w
  show ?thesis by (simp add: no_patch_def must_recalculate_def sample_contract_def)
qed
abbreviation registered_db :: database where
  "registered_db \<equiv> sample_contract_db\<lparr>contracts := [sample_registered_contract]\<rparr>"

lemma bulkTransfer_bypasses_guard_witness:
  "fst (updateContract sample_contract_env ''id-0'' no_patch ''a1'' registered_db)
     = Inl (Conflict ''Contract must be removed from the provider'') \<and>
   sample_registered_contract\<lparr>ct_walletId := ''w2''\<rparr>
     \<in> set (contracts (snd (bulkTransfer sample_transfer ''a1'' registered_db)))"
proof -
  have run: "bulkTransfer sample_transfer ''a1'' registered_db
      = (Inr (1, 1), snd (bulkTransfer sample_transfer ''a1'' registered_db))"
    by (simp add: bulkTransfer_def sample_transfer_def sample_contract_db_def sample_db_def find_wallet_def
        sample_registered_contract_def sample_contract_def transferable_def provider_status_ok_def
        values_ok_def no_values_def range_ok_def updatedValue_ok_def offerValue_ok_def aging_ok_def
        count_where_def Let_def)
  have row: "sample_registered_contract \<in> set (contracts registered_db)"
    "transferable sample_transfer ''a1'' sample_registered_contract"
    "distinct (map ct_id (contracts registered_db))"
    by (simp_all add: sample_registered_contract_def sample_contract_def transferable_def sample_transfer_def
        provider_status_ok_def values_ok_def no_values_def range_ok_def updatedValue_ok_def offerValue_ok_def
        aging_ok_def)
  have st: "bt_serasaStatus sample_transfer = Some SE_REGISTERED"
    "SE_REGISTERED \<notin> set EDITABLE_PROVIDER_STATUSES" "bt_destinationWalletId sample_transfer = ''w2''"
    "ct_id sample_registered_contract = ''id-0''"
    by (simp_all add: sample_transfer_def EDITABLE_PROVIDER_STATUSES_def sample_registered_contract_def)
  show ?thesis
    using bulkTransfer_bypasses_guard [OF run st(1,2) row] st(3,4) by simp
qed

abbreviation sample_list :: "string list \<Rightarrow> contract_page" where
  "sample_list ws \<equiv> listContracts (\<lambda>_ rows. rows) (\<lambda>s. s) sample_query (sample_viewer ws) True sample_contract_db"

lemmas list_eval = portal_refused_def scope_refused_def sample_viewer_def portal_def sample_query_def
  listed_def sample_contract_db_def sample_contract_def creditor_ok_def wallet_filter_def status_ok_def
  serasa_ok_def date_filter_def values_ok_def no_values_def range_ok_def updatedValue_ok_def
  offerValue_ok_def aging_ok_def document_ok_def text_search_ok_def search_term_def or_else_def trim_def
  shown_def

lemma sample_list_row: "length (cp_data (sample_list [''w1''])) = 1"
  by (simp add: listContracts_def list_eval Let_def)

lemma list_scoped_witness:
  "ct_debtorDocument (fst (hd (cp_data (sample_list [''w1''])))) = maskDocument ''52998224725''"
proof -
  obtain c' ts where row: "cp_data (sample_list [''w1'']) = [(c', ts)]"
    using sample_list_row by (cases "cp_data (sample_list [''w1''])") auto
  then have "(c', ts) \<in> set (cp_data (sample_list [''w1'']))" by simp
  from list_scoped [OF keeps_order this] row show ?thesis
    by (simp add: sample_viewer_def portal_def sample_contract_db_def sample_contract_def)
qed

lemma empty_scopes_read_everything_witness:
  "(\<exists>r. findContractById ''id-0'' (sample_viewer []) sample_contract_db = Inr r \<and> ct_id (fst r) = ''id-0'') \<and>
   cp_data (sample_list []) = []"
proof -
  let ?c = "sample_contract\<lparr>ct_id := ''id-0''\<rparr>"
  have c: "?c \<in> set (contracts sample_contract_db)" "distinct (map ct_id (contracts sample_contract_db))"
    "ct_accountId ?c = vw_accountId (sample_viewer [])" "ct_deletedAt ?c = None" "ct_id ?c = ''id-0''"
    by (simp_all add: sample_contract_db_def sample_contract_def sample_viewer_def)
  have v: "vw_role (sample_viewer []) = VIEWER" "vw_scopes (sample_viewer []) = Some []"
    "portal (sample_viewer []) = None"
    by (simp_all add: sample_viewer_def portal_def)
  show ?thesis
    using empty_scopes_read_everything [OF c(1-4) v] c(5) by simp
qed

lemma export_complete_witness:
  "map (ct_id \<circ> fst) (exportContracts (\<lambda>_ rows. rows) (\<lambda>s. s) sample_query (sample_viewer [''w1'']) sample_contract_db)
     = [''id-0'']"
  unfolding export_complete [OF keeps_order]
  by (simp add: list_eval Let_def)

lemma addTags_limit_witness:
  "tags_of (snd (addTags sample_gen ''id-0'' [''Vip'', '' vip '', ''b''] ''a1'' sample_contract_db)) ''id-1'' = [] \<and>
   fst (addTags sample_gen ''id-0'' [''Vip'', '' vip '', ''b''] ''a1'' sample_contract_db) = Inr [''vip'', ''b'']"
proof -
  let ?r = "addTags sample_gen ''id-0'' [''Vip'', '' vip '', ''b''] ''a1'' sample_contract_db"
  have t: "tags_of sample_contract_db i = []" for i
    by (simp add: tags_of_def sample_contract_db_def sample_db_def)
  have "tags_of (snd ?r) ''id-1'' = []"
    using addTags_limit [of sample_gen "''id-0''" "[''Vip'', '' vip '', ''b'']" "''a1''" sample_contract_db "fst ?r" "snd ?r"] t
    by simp
  moreover have "normalizeTags [''Vip'', '' vip '', ''b''] = [''vip'', ''b'']" by code_simp
  then have "fst ?r = Inr [''vip'', ''b'']"
    using t by (simp add: addTags_def sample_find Let_def add_tag_row_def)
      (simp add: tags_of_def sample_contract_db_def sample_db_def)
  ultimately show ?thesis ..
qed

end
