(* ===== verification/Wallets.thy ===== *)
theory Wallets
  imports Contracts "HOL-Library.List_Lexorder" "HOL-Library.Char_ord"
begin

text \<open>
  \<open>wallets/wallets.service.ts\<close>, \<open>wallets/aging-offer.job.ts\<close> and \<open>creditors/creditors.service.ts\<close>:
  the commercial rules (the ceiling of the creditor and the strategy of each wallet, both by age of
  the debt), the repricing of a whole wallet in one statement and by the weekly job, the lists with
  their cache, the summary of a wallet, and the deletion of wallets and creditors. The bands of a
  wallet and of a creditor are columns of their rows. The calendar day that the database computes
  for a timestamp is a parameter of its own, \<open>sql_day\<close>: the columns have no time zone, so it need
  not be the day the services compute.
\<close>

record band_dto =
  bd_minAgingDays :: int
  bd_maxAgingDays :: "int option"
  bd_cashDiscountPercent :: rat
  bd_installmentDiscountPercent :: rat

record create_wallet_dto =
  cw_name :: string
  cw_serasaWalletExternalId :: "string option"
  cw_cobcomDiscountPercent :: "rat option"
  cw_offerFirstInstallmentDays :: "int option"
  cw_offerMinInstallmentValue :: "rat option"
  cw_offerMaxInstallments :: "int option"
  cw_defaultDebtType :: "debt_type option"
  cw_smsTemplate :: "string option"

record update_wallet_dto =
  uw_name :: "string option"
  uw_serasaWalletExternalId :: "string option"
  uw_active :: "bool option"
  uw_cobcomDiscountPercent :: "rat option"
  uw_offerFirstInstallmentDays :: "int option"
  uw_offerMinInstallmentValue :: "rat option"
  uw_offerMaxInstallments :: "int option"
  uw_defaultDebtType :: "debt_type option"
  uw_smsTemplate :: "string option"
  uw_discountBands :: "band_dto list option"

section \<open>Wallets\<close>

definition find_creditor :: "string \<Rightarrow> string \<Rightarrow> database \<Rightarrow> creditor option" where
  "find_creditor i acc d =
     List.find (\<lambda>c. cr_id c = i \<and> cr_accountId c = acc \<and> cr_deletedAt c = None) (creditors d)"

definition text_or_null :: "string option \<Rightarrow> string option" where
  \<comment> \<open>\<open>x || null\<close>\<close>
  "text_or_null x = (case x of None \<Rightarrow> None | Some s \<Rightarrow> if s = '''' then None else Some s)"

definition copied_band :: "rat \<Rightarrow> creditor_band \<Rightarrow> wallet_band" where
  \<comment> \<open>a band of the creditor in a new wallet: its flat discount, within the ceiling\<close>
  "copied_band cobcom b =
     \<lparr>wb_minAgingDays = cb_minAgingDays b, wb_maxAgingDays = cb_maxAgingDays b,
      wb_cashDiscountPercent = cb_cashDiscountPercent b,
      wb_installmentDiscountPercent = cb_installmentDiscountPercent b,
      wb_cashStrategyDiscountPercent = Some (dec2 (min cobcom (cb_cashDiscountPercent b))),
      wb_installmentStrategyDiscountPercent = Some (dec2 (min cobcom (cb_installmentDiscountPercent b)))\<rparr>"

definition new_wallet ::
  "(nat \<Rightarrow> string) \<Rightarrow> creditor \<Rightarrow> create_wallet_dto \<Rightarrow> string \<Rightarrow> database \<Rightarrow> wallet" where
  "new_wallet gen cr dto acc d =
     (let cobcom = or_else (cw_cobcomDiscountPercent dto) 0
      in \<lparr>wl_id = gen (nextId d), wl_accountId = acc, wl_creditorId = cr_id cr, wl_name = cw_name dto,
          wl_serasaWalletExternalId = text_or_null (cw_serasaWalletExternalId dto),
          wl_cobcomDiscountPercent = dec2 cobcom,
          wl_offerFirstInstallmentDays = or_else (cw_offerFirstInstallmentDays dto) 5,
          wl_offerMinInstallmentValue = dec2 (or_else (cw_offerMinInstallmentValue dto) (1 / 100)),
          wl_offerMaxInstallments = or_else (cw_offerMaxInstallments dto) 1,
          wl_commissionPercent = cr_commissionPercent cr,
          wl_defaultDebtType = or_else (cw_defaultDebtType dto) OTHER,
          wl_smsTemplate = text_or_null (cw_smsTemplate dto),
          wl_discountBands = map (copied_band cobcom) (sort_key cb_minAgingDays (cr_discountBands cr)),
          wl_active = True, wl_deletedAt = None\<rparr>)"

definition add_wallet :: "wallet \<Rightarrow> database \<Rightarrow> database" where
  "add_wallet w d = d\<lparr>wallets := wallets d @ [w], nextId := Suc (nextId d)\<rparr>"

definition createWallet ::
  "(nat \<Rightarrow> string) \<Rightarrow> string \<Rightarrow> create_wallet_dto \<Rightarrow> string \<Rightarrow> database \<Rightarrow> (database, wallet) outcome" where
  "createWallet gen creditorId dto acc d =
     (case find_creditor creditorId acc d of
        None \<Rightarrow> (Inl (NotFound ''Creditor not found''), d)
      | Some cr \<Rightarrow> let w = new_wallet gen cr dto acc d in (Inr w, add_wallet w d))"

definition same_band :: "int \<Rightarrow> int option \<Rightarrow> creditor_band \<Rightarrow> bool" where
  "same_band mn mx b \<longleftrightarrow> cb_minAgingDays b = mn \<and> cb_maxAgingDays b = mx"

definition ends_before :: "int option \<Rightarrow> int \<Rightarrow> bool" where
  \<comment> \<open>\<open>max !== null && max < start\<close>\<close>
  "ends_before mx start = (case mx of None \<Rightarrow> False | Some m \<Rightarrow> m < start)"

fun strategy_loop :: "band_dto option \<Rightarrow> band_dto list \<Rightarrow> creditor_band list \<Rightarrow> http_error option" where
  "strategy_loop previous [] cbs = None"
| "strategy_loop previous (b # bs) cbs =
     (if ends_before (bd_maxAgingDays b) (bd_minAgingDays b)
      then Some (Conflict ''fim menor que o inicio'')
      else if (case previous of None \<Rightarrow> False
               | Some p \<Rightarrow> \<not> ends_before (bd_maxAgingDays p) (bd_minAgingDays b))
      then Some (Conflict ''nao podem se sobrepor'')
      else case List.find (same_band (bd_minAgingDays b) (bd_maxAgingDays b)) cbs of
        None \<Rightarrow> Some (Conflict ''faixa vigente do credor'')
      | Some c \<Rightarrow>
          if cb_cashDiscountPercent c < bd_cashDiscountPercent b \<or>
             cb_installmentDiscountPercent c < bd_installmentDiscountPercent b
          then Some (Conflict ''limite comercial'')
          else strategy_loop (Some b) bs cbs)"

definition validateWalletStrategyBands :: "band_dto list \<Rightarrow> creditor_band list \<Rightarrow> http_error option" where
  "validateWalletStrategyBands bs cbs = strategy_loop None (sort_key bd_minAgingDays bs) cbs"

definition strategy_row :: "band_dto \<Rightarrow> creditor_band \<Rightarrow> wallet_band" where
  \<comment> \<open>the ceiling the creditor has for the band, and the strategy asked for\<close>
  "strategy_row b c =
     \<lparr>wb_minAgingDays = bd_minAgingDays b, wb_maxAgingDays = bd_maxAgingDays b,
      wb_cashDiscountPercent = cb_cashDiscountPercent c,
      wb_installmentDiscountPercent = cb_installmentDiscountPercent c,
      wb_cashStrategyDiscountPercent = Some (dec2 (bd_cashDiscountPercent b)),
      wb_installmentStrategyDiscountPercent = Some (dec2 (bd_installmentDiscountPercent b))\<rparr>"

definition strategy_rows :: "creditor_band list \<Rightarrow> band_dto list \<Rightarrow> wallet_band list" where
  \<comment> \<open>\<open>find(\<dots>)!\<close>: the validation found a band of the creditor for each\<close>
  "strategy_rows cbs bs =
     List.map_filter (\<lambda>b. map_option (strategy_row b)
       (List.find (same_band (bd_minAgingDays b) (bd_maxAgingDays b)) cbs)) bs"

definition patch_wallet :: "creditor_band list \<Rightarrow> update_wallet_dto \<Rightarrow> wallet \<Rightarrow> wallet" where
  "patch_wallet cbs dto w =
     w\<lparr>wl_name := or_else (uw_name dto) (wl_name w),
       wl_serasaWalletExternalId :=
         (case uw_serasaWalletExternalId dto of
            None \<Rightarrow> wl_serasaWalletExternalId w | Some s \<Rightarrow> text_or_null (Some s)),
       wl_active := or_else (uw_active dto) (wl_active w),
       wl_cobcomDiscountPercent :=
         (case uw_cobcomDiscountPercent dto of None \<Rightarrow> wl_cobcomDiscountPercent w | Some p \<Rightarrow> dec2 p),
       wl_offerFirstInstallmentDays :=
         or_else (uw_offerFirstInstallmentDays dto) (wl_offerFirstInstallmentDays w),
       wl_offerMinInstallmentValue :=
         (case uw_offerMinInstallmentValue dto of
            None \<Rightarrow> wl_offerMinInstallmentValue w | Some v \<Rightarrow> dec2 v),
       wl_offerMaxInstallments := or_else (uw_offerMaxInstallments dto) (wl_offerMaxInstallments w),
       wl_defaultDebtType := or_else (uw_defaultDebtType dto) (wl_defaultDebtType w),
       wl_smsTemplate :=
         (case uw_smsTemplate dto of None \<Rightarrow> wl_smsTemplate w | Some s \<Rightarrow> text_or_null (Some s)),
       wl_discountBands :=
         (case uw_discountBands dto of
            None \<Rightarrow> wl_discountBands w | Some bs \<Rightarrow> strategy_rows cbs bs)\<rparr>"

definition update_wallet :: "string \<Rightarrow> (wallet \<Rightarrow> wallet) \<Rightarrow> database \<Rightarrow> database" where
  "update_wallet i f d = d\<lparr>wallets := update_where (\<lambda>w. wl_id w = i) f (wallets d)\<rparr>"

definition updateWallet ::
  "string \<Rightarrow> update_wallet_dto \<Rightarrow> string \<Rightarrow> database \<Rightarrow> (database, wallet) outcome" where
  "updateWallet i dto acc d =
     (case find_wallet i acc d of
        None \<Rightarrow> (Inl (NotFound ''Wallet not found''), d)
      | Some w \<Rightarrow>
          (case creditor_of_wallet w d of
             None \<Rightarrow> (Inl (Internal ''creditor''), d)
           | Some cr \<Rightarrow>
               let cbs = sort_key cb_minAgingDays (cr_discountBands cr)
               in case (case uw_discountBands dto of
                          None \<Rightarrow> None | Some bs \<Rightarrow> validateWalletStrategyBands bs cbs) of
                    Some err \<Rightarrow> (Inl err, d)
                  | None \<Rightarrow> (Inr (patch_wallet cbs dto w), update_wallet i (patch_wallet cbs dto) d)))"

definition SYNCED_STATUSES :: "serasa_status list" where
  "SYNCED_STATUSES = [SE_PENDING, SE_SENT, SE_REGISTERED, SE_UPDATED, SE_REMOVING]"

definition softDeleteWallet :: "int \<Rightarrow> string \<Rightarrow> string \<Rightarrow> database \<Rightarrow> (database, unit) outcome" where
  "softDeleteWallet now i acc d =
     (case find_wallet i acc d of
        None \<Rightarrow> (Inl (NotFound ''Wallet not found''), d)
      | Some w \<Rightarrow>
          if 0 < count_where (\<lambda>c. ct_walletId c = wl_id w \<and> ct_deletedAt c = None \<and>
                   ct_serasaStatus c \<in> set SYNCED_STATUSES) (contracts d)
          then (Inl (Conflict ''sincronizacao da Serasa pendente ou ativa''), d)
          else (Inr (), update_wallet i (\<lambda>r. r\<lparr>wl_deletedAt := Some now\<rparr>)
                  (d\<lparr>contracts := update_where
                      (\<lambda>c. ct_walletId c = i \<and> ct_accountId c = acc \<and> ct_deletedAt c = None)
                      (\<lambda>c. c\<lparr>ct_deletedAt := Some now\<rparr>) (contracts d)\<rparr>)))"

section \<open>Repricing\<close>

definition repriceable :: "string \<Rightarrow> contract \<Rightarrow> bool" where
  "repriceable i c \<longleftrightarrow>
     ct_walletId c = i \<and> ct_deletedAt c = None \<and> ct_status c = CT_ACTIVE \<and> ct_paymentStatus c \<noteq> PS_PAID"

definition repriced :: "wallet \<Rightarrow> creditor \<Rightarrow> contract \<Rightarrow> contract" where
  "repriced w cr c =
     (case sql_offer (ct_updatedValue c) w cr (ct_agingDays c) of
        None \<Rightarrow> c
      | Some s \<Rightarrow> c\<lparr>ct_offer := stored_offer s\<rparr>)"

definition recalculateOffers :: "string \<Rightarrow> string \<Rightarrow> database \<Rightarrow> (database, nat) outcome" where
  \<comment> \<open>one statement: a row whose offer cannot be computed aborts it and leaves every row as it was\<close>
  "recalculateOffers i acc d =
     (case find_wallet i acc d of
        None \<Rightarrow> (Inl (NotFound ''Wallet not found''), d)
      | Some w \<Rightarrow>
          (case creditor_of_wallet w d of
             None \<Rightarrow> (Inl (Internal ''creditor''), d)
           | Some cr \<Rightarrow>
               let n = count_where (repriceable i) (contracts d)
               in if list_ex (\<lambda>c. repriceable i c \<and>
                         sql_offer (ct_updatedValue c) w cr (ct_agingDays c) = None) (contracts d)
                  then (Inl (Internal ''numeric value out of range''), d)
                  else (Inr n, d\<lparr>contracts := update_where (repriceable i) (repriced w cr) (contracts d)\<rparr>)))"

definition refresh_aging :: "(int \<Rightarrow> int) \<Rightarrow> int \<Rightarrow> database \<Rightarrow> database" where
  "refresh_aging sql_day today d =
     d\<lparr>contracts := update_where (\<lambda>c. ct_deletedAt c = None)
         (\<lambda>c. c\<lparr>ct_agingDays := max 0 (today - sql_day (or_else (ct_dueDate c) (ct_occurrenceDate c)))\<rparr>)
         (contracts d)\<rparr>"

fun refresh_wallets :: "wallet list \<Rightarrow> database \<Rightarrow> (database, unit) outcome" where
  "refresh_wallets [] d = (Inr (), d)"
| "refresh_wallets (w # ws) d =
     (case recalculateOffers (wl_id w) (wl_accountId w) d of
        (Inl err, d') \<Rightarrow> (Inl err, d')
      | (Inr _, d') \<Rightarrow> refresh_wallets ws d')"

definition refreshAgingAndOffers ::
  "(int \<Rightarrow> int) \<Rightarrow> int \<Rightarrow> database \<Rightarrow> (database, nat \<times> nat) outcome" where
  \<comment> \<open>\<open>today\<close> is the day of \<open>NOW()\<close> in the time zone of the business\<close>
  "refreshAgingAndOffers sql_day today d =
     (let ws = filter (\<lambda>w. wl_deletedAt w = None) (wallets d)
      in case refresh_wallets ws (refresh_aging sql_day today d) of
           (Inl err, d') \<Rightarrow> (Inl err, d')
         | (Inr _, d') \<Rightarrow> (Inr (count_where (\<lambda>c. ct_deletedAt c = None) (contracts d), length ws), d'))"

section \<open>Creditors\<close>

record create_creditor_dto =
  cd_name :: string
  cd_tradeName :: "string option"
  cd_cnpj :: "string option"

record update_creditor_dto =
  ud_name :: "string option"
  ud_tradeName :: "string option"
  ud_cnpj :: "string option"

record commercial_rules_dto =
  cm_discountBands :: "band_dto list"
  cm_commissionPercent :: rat

definition cnpj_in_use :: "string \<Rightarrow> string option \<Rightarrow> database \<Rightarrow> bool" where
  \<comment> \<open>\<open>checkCnpjUniqueness\<close>: live creditors of every account\<close>
  "cnpj_in_use cnpj exclude d \<longleftrightarrow>
     List.find (\<lambda>c. cr_cnpj c = Some cnpj \<and> cr_deletedAt c = None \<and> opt_ok exclude (\<lambda>i. cr_id c \<noteq> i))
       (creditors d) \<noteq> None"

definition cnpj_taken :: "string option \<Rightarrow> string option \<Rightarrow> database \<Rightarrow> bool" where
  \<comment> \<open>\<open>cnpj @unique\<close>: nulls do not collide, deleted rows do\<close>
  "cnpj_taken cnpj exclude d \<longleftrightarrow>
     cnpj \<noteq> None \<and>
     List.find (\<lambda>c. cr_cnpj c = cnpj \<and> opt_ok exclude (\<lambda>i. cr_id c \<noteq> i)) (creditors d) \<noteq> None"

definition new_creditor :: "(nat \<Rightarrow> string) \<Rightarrow> create_creditor_dto \<Rightarrow> string \<Rightarrow> database \<Rightarrow> creditor" where
  "new_creditor gen dto acc d =
     \<lparr>cr_id = gen (nextId d), cr_accountId = acc, cr_name = cd_name dto, cr_tradeName = cd_tradeName dto,
      cr_cnpj = cd_cnpj dto, cr_commissionPercent = 0, cr_discountBands = [], cr_deletedAt = None\<rparr>"

definition default_wallet :: "string \<Rightarrow> string \<Rightarrow> string \<Rightarrow> wallet" where
  \<comment> \<open>the wallet every creditor starts with, with the defaults of the schema\<close>
  "default_wallet i acc creditorId =
     \<lparr>wl_id = i, wl_accountId = acc, wl_creditorId = creditorId, wl_name = ''Entrada via API'',
      wl_serasaWalletExternalId = None, wl_cobcomDiscountPercent = 0, wl_offerFirstInstallmentDays = 5,
      wl_offerMinInstallmentValue = 1 / 100, wl_offerMaxInstallments = 1, wl_commissionPercent = 0,
      wl_defaultDebtType = OTHER, wl_smsTemplate = None, wl_discountBands = [], wl_active = True,
      wl_deletedAt = None\<rparr>"

definition createCreditor ::
  "(nat \<Rightarrow> string) \<Rightarrow> create_creditor_dto \<Rightarrow> string \<Rightarrow> database \<Rightarrow> (database, creditor) outcome" where
  "createCreditor gen dto acc d =
     (if (case cd_cnpj dto of None \<Rightarrow> False | Some s \<Rightarrow> s \<noteq> '''' \<and> cnpj_in_use s None d)
      then (Inl (Conflict ''CNPJ already in use by another creditor''), d)
      else if cnpj_taken (cd_cnpj dto) None d then (Inl (Internal ''P2002''), d)
      else let cr = new_creditor gen dto acc d;
               d1 = d\<lparr>creditors := creditors d @ [cr], nextId := Suc (nextId d)\<rparr>
           in (Inr cr, add_wallet (default_wallet (gen (nextId d1)) acc (cr_id cr)) d1))"

definition update_creditor :: "string \<Rightarrow> (creditor \<Rightarrow> creditor) \<Rightarrow> database \<Rightarrow> database" where
  "update_creditor i f d = d\<lparr>creditors := update_where (\<lambda>c. cr_id c = i) f (creditors d)\<rparr>"

definition patch_creditor :: "update_creditor_dto \<Rightarrow> creditor \<Rightarrow> creditor" where
  "patch_creditor dto c =
     c\<lparr>cr_name := or_else (ud_name dto) (cr_name c),
       cr_tradeName :=
         (case ud_tradeName dto of None \<Rightarrow> cr_tradeName c | Some s \<Rightarrow> text_or_null (Some s)),
       cr_cnpj := or_opt (ud_cnpj dto) (cr_cnpj c)\<rparr>"

definition updateCreditor ::
  "string \<Rightarrow> update_creditor_dto \<Rightarrow> string \<Rightarrow> database \<Rightarrow> (database, creditor) outcome" where
  "updateCreditor i dto acc d =
     (case find_creditor i acc d of
        None \<Rightarrow> (Inl (NotFound ''Creditor not found''), d)
      | Some cr \<Rightarrow>
          if (case ud_cnpj dto of
                None \<Rightarrow> False
              | Some s \<Rightarrow> s \<noteq> '''' \<and> Some s \<noteq> cr_cnpj cr \<and> cnpj_in_use s (Some i) d)
          then (Inl (Conflict ''CNPJ already in use by another creditor''), d)
          else if ud_cnpj dto \<noteq> None \<and> cnpj_taken (ud_cnpj dto) (Some i) d
          then (Inl (Internal ''P2002''), d)
          else (Inr (patch_creditor dto cr), update_creditor i (patch_creditor dto) d))"

definition softDeleteCreditor :: "int \<Rightarrow> string \<Rightarrow> string \<Rightarrow> database \<Rightarrow> (database, unit) outcome" where
  "softDeleteCreditor now i acc d =
     (case find_creditor i acc d of
        None \<Rightarrow> (Inl (NotFound ''Creditor not found''), d)
      | Some cr \<Rightarrow>
          if 0 < count_where (\<lambda>c. ct_deletedAt c = None \<and>
                   (case wallet_of d c of
                      None \<Rightarrow> False
                    | Some w \<Rightarrow> wl_creditorId w = cr_id cr \<and> wl_deletedAt w = None)) (contracts d)
          then (Inl (Conflict ''Creditor has wallets with contracts''), d)
          else (Inr (), (update_creditor i (\<lambda>c. c\<lparr>cr_deletedAt := Some now\<rparr>) d)
                  \<lparr>wallets := update_where (\<lambda>w. wl_creditorId w = i \<and> wl_deletedAt w = None)
                      (\<lambda>w. w\<lparr>wl_deletedAt := Some now\<rparr>) (wallets d)\<rparr>))"

fun bands_loop :: "band_dto option \<Rightarrow> band_dto list \<Rightarrow> http_error option" where
  "bands_loop previous [] = None"
| "bands_loop previous (b # bs) =
     (if ends_before (bd_maxAgingDays b) (bd_minAgingDays b)
      then Some (Conflict ''fim menor que o inicio'')
      else if (case previous of None \<Rightarrow> False
               | Some p \<Rightarrow> \<not> ends_before (bd_maxAgingDays p) (bd_minAgingDays b))
      then Some (Conflict ''nao podem se sobrepor'')
      else bands_loop (Some b) bs)"

definition validateBands :: "band_dto list \<Rightarrow> http_error option" where
  "validateBands bs = bands_loop None (sort_key bd_minAgingDays bs)"

definition ceiling_row :: "band_dto \<Rightarrow> creditor_band" where
  "ceiling_row b =
     \<lparr>cb_minAgingDays = bd_minAgingDays b, cb_maxAgingDays = bd_maxAgingDays b,
      cb_cashDiscountPercent = dec2 (bd_cashDiscountPercent b),
      cb_installmentDiscountPercent = dec2 (bd_installmentDiscountPercent b)\<rparr>"

definition carried_band :: "wallet \<Rightarrow> band_dto \<Rightarrow> wallet_band" where
  \<comment> \<open>the strategy a wallet keeps in a band, within the new ceiling\<close>
  "carried_band w b =
     (let previous = List.find (\<lambda>x. wb_minAgingDays x = bd_minAgingDays b \<and>
            wb_maxAgingDays x = bd_maxAgingDays b) (wl_discountBands w);
          old = (\<lambda>f. or_else (Option.bind previous f) (wl_cobcomDiscountPercent w))
      in \<lparr>wb_minAgingDays = bd_minAgingDays b, wb_maxAgingDays = bd_maxAgingDays b,
          wb_cashDiscountPercent = dec2 (bd_cashDiscountPercent b),
          wb_installmentDiscountPercent = dec2 (bd_installmentDiscountPercent b),
          wb_cashStrategyDiscountPercent =
            Some (dec2 (min (old wb_cashStrategyDiscountPercent) (bd_cashDiscountPercent b))),
          wb_installmentStrategyDiscountPercent =
            Some (dec2 (min (old wb_installmentStrategyDiscountPercent) (bd_installmentDiscountPercent b)))\<rparr>)"

definition upsertCommercialRules ::
  "string \<Rightarrow> commercial_rules_dto \<Rightarrow> string \<Rightarrow> database \<Rightarrow> (database, unit) outcome" where
  "upsertCommercialRules i dto acc d =
     (case find_creditor i acc d of
        None \<Rightarrow> (Inl (NotFound ''Creditor not found''), d)
      | Some _ \<Rightarrow>
          (case validateBands (cm_discountBands dto) of
             Some err \<Rightarrow> (Inl err, d)
           | None \<Rightarrow>
               (Inr (), (update_creditor i
                    (\<lambda>c. c\<lparr>cr_commissionPercent := dec2 (cm_commissionPercent dto),
                           cr_discountBands := map ceiling_row (cm_discountBands dto)\<rparr>) d)
                  \<lparr>wallets := update_where (\<lambda>w. wl_creditorId w = i \<and> wl_deletedAt w = None)
                      (\<lambda>w. w\<lparr>wl_discountBands := map (carried_band w) (cm_discountBands dto)\<rparr>)
                      (wallets d)\<rparr>)))"

section \<open>Lists\<close>

record wallet_query =
  wq_page :: nat
  wq_limit :: nat
  wq_search :: "string option"
  wq_creditorId :: "string option"
  wq_active :: "bool option"
  wq_sort :: "string \<times> bool"

record wallet_entry =
  we_wallet :: wallet
  we_creditor :: "(string \<times> string) option"
  we_contracts :: nat

record wallet_page =
  wp_data :: "wallet_entry list"
  wp_total :: nat
  wp_totalPages :: nat

type_synonym list_cache = "string \<Rightarrow> wallet_page option"

definition wallet_listed :: "wallet_query \<Rightarrow> string list option \<Rightarrow> string \<Rightarrow> wallet \<Rightarrow> bool" where
  "wallet_listed q scopes acc w \<longleftrightarrow>
     wl_accountId w = acc \<and> wl_deletedAt w = None \<and>
     opt_ok (text_or_null (wq_search q)) (\<lambda>s. has_infix (to_lower s) (to_lower (wl_name w))) \<and>
     opt_ok (text_or_null (wq_creditorId q)) (\<lambda>c. wl_creditorId w = c) \<and>
     opt_ok (wq_active q) (\<lambda>a. wl_active w = a) \<and>
     opt_ok scopes (\<lambda>ws. wl_id w \<in> set ws)"

definition wallet_entry_of :: "database \<Rightarrow> wallet \<Rightarrow> wallet_entry" where
  "wallet_entry_of d w =
     \<lparr>we_wallet = w,
      we_creditor = map_option (\<lambda>c. (cr_id c, cr_name c)) (creditor_of_wallet w d),
      we_contracts = count_where (\<lambda>c. ct_walletId c = wl_id w \<and> ct_deletedAt c = None) (contracts d)\<rparr>"

definition wallets_page ::
  "(string \<times> bool \<Rightarrow> wallet list \<Rightarrow> wallet list) \<Rightarrow> wallet_query \<Rightarrow> string list option \<Rightarrow> string \<Rightarrow>
    database \<Rightarrow> wallet_page" where
  "wallets_page order q scopes acc d =
     (let rows = filter (wallet_listed q scopes acc) (wallets d); total = length rows
      in \<lparr>wp_data = map (wallet_entry_of d)
            (take (wq_limit q) (drop ((wq_page q - 1) * wq_limit q) (order (wq_sort q) rows))),
          wp_total = total, wp_totalPages = (total + wq_limit q - 1) div wq_limit q\<rparr>)"

definition listWallets ::
  "(string \<Rightarrow> wallet_query \<Rightarrow> string list option \<Rightarrow> string) \<Rightarrow>
    (string \<times> bool \<Rightarrow> wallet list \<Rightarrow> wallet list) \<Rightarrow> wallet_query \<Rightarrow> string list option \<Rightarrow> string \<Rightarrow>
    database \<Rightarrow> list_cache \<Rightarrow> wallet_page \<times> list_cache" where
  \<comment> \<open>\<open>key\<close> renders the cache key with \<open>JSON.stringify\<close>; an unreachable Redis is an empty cache\<close>
  "listWallets key order q scopes acc d cache =
     (let k = key acc q (map_option sort scopes)
      in case cache k of
           Some page \<Rightarrow> (page, cache)
         | None \<Rightarrow> let page = wallets_page order q scopes acc d in (page, cache(k \<mapsto> page)))"

definition invalidateListCache :: "string \<Rightarrow> list_cache \<Rightarrow> list_cache" where
  \<comment> \<open>the keys that match \<open>wallets:list:*<account>*\<close>\<close>
  "invalidateListCache acc cache = (\<lambda>k. if has_infix acc k then None else cache k)"

definition listCreditors ::
  "(creditor list \<Rightarrow> creditor list) \<Rightarrow> nat \<Rightarrow> nat \<Rightarrow> string option \<Rightarrow> string list option \<Rightarrow> string \<Rightarrow>
    database \<Rightarrow> creditor list \<times> nat" where
  \<comment> \<open>newest first; the creditors of the wallets in the scopes of a viewer\<close>
  "listCreditors order page limit search scopes acc d =
     (let in_scope = (\<lambda>ws c. list_ex (\<lambda>w. wl_id w \<in> set ws \<and> wl_deletedAt w = None \<and>
            wl_creditorId w = cr_id c) (wallets d));
          rows = filter (\<lambda>c. cr_accountId c = acc \<and> cr_deletedAt c = None \<and>
            opt_ok (text_or_null search) (\<lambda>s. has_infix (to_lower s) (to_lower (cr_name c)) \<or>
              (case cr_cnpj c of None \<Rightarrow> False | Some n \<Rightarrow> has_infix (to_lower s) (to_lower n))) \<and>
            opt_ok scopes (\<lambda>ws. in_scope ws c)) (creditors d)
      in (take limit (drop ((page - 1) * limit) (order rows)), length rows))"

section \<open>The summary of a wallet\<close>

record wallet_summary =
  sm_totalContracts :: nat
  sm_paymentStatusTotals :: "(payment_status \<times> nat \<times> rat) list"
  sm_serasaStatusTotals :: "(serasa_status \<times> nat) list"
  sm_serasaTotal :: "nat \<times> rat"
  sm_totalValue :: rat
  sm_recoveredValue :: rat
  sm_repasseForecastValue :: rat
  sm_repasseRealizedValue :: rat
  sm_commissionForecastValue :: rat
  sm_commissionRealizedValue :: rat
  sm_discountsConcededValue :: rat
  sm_efficiencyRate :: rat
  sm_agreementHistoryTotal :: nat
  sm_agreementHistoryDatedCount :: nat
  sm_paidAgreementsLast30Days :: "nat \<times> rat"

definition sum_of :: "('r \<Rightarrow> rat) \<Rightarrow> ('r \<Rightarrow> bool) \<Rightarrow> 'r list \<Rightarrow> rat" where
  \<comment> \<open>\<open>COALESCE(SUM(f) FILTER (WHERE P), 0)\<close>\<close>
  "sum_of f P rows = sum_list (map f (filter P rows))"

definition recovered_value :: "contract \<Rightarrow> rat" where
  "recovered_value c =
     (if 0 < ct_totalPaidAmount c then ct_totalPaidAmount c
      else if ct_paymentStatus c = PS_PAID
      then or_else (ct_agreedPaymentAmount c) (or_else (of_value (ct_offer c)) (ct_updatedValue c))
      else 0)"

definition at_serasa :: "contract \<Rightarrow> bool" where
  "at_serasa c \<longleftrightarrow> ct_serasaStatus c \<in> {SE_SENT, SE_REGISTERED, SE_UPDATED, SE_REMOVING}"

definition had_agreement :: "contract \<Rightarrow> bool" where
  "had_agreement c \<longleftrightarrow> ct_paymentStatus c \<in> {PS_IN_AGREEMENT, PS_PAID, PS_AGREEMENT_BREACHED}"

definition agreement_settled :: "int \<Rightarrow> int \<Rightarrow> contract \<Rightarrow> bool" where
  \<comment> \<open>an agreement paid in full, the last payment within the window\<close>
  "agreement_settled win_from win_to c \<longleftrightarrow>
     ag_reference (ct_agreement c) \<noteq> None \<and> ct_paymentStatus c = PS_PAID \<and>
     (case ct_lastPaymentAt c of None \<Rightarrow> False | Some t \<Rightarrow> win_from \<le> t \<and> t < win_to) \<and>
     max (or_else (ag_totalInstallments (ct_agreement c)) 1) 1 \<le> ag_paidInstallments (ct_agreement c) \<and>
     or_else (ag_totalAmount (ct_agreement c)) 0 - 1 / 100 \<le> ct_totalPaidAmount c"

definition wallet_rows :: "string \<Rightarrow> database \<Rightarrow> contract list" where
  "wallet_rows i d = filter (\<lambda>c. ct_walletId c = i \<and> ct_deletedAt c = None) (contracts d)"

definition group_counts :: "('r \<Rightarrow> 'k) \<Rightarrow> 'r list \<Rightarrow> ('k \<times> nat) list" where
  "group_counts f rows = map (\<lambda>k. (k, count_where (\<lambda>r. f r = k) rows)) (remdups (map f rows))"

definition getWalletSummary :: "int \<Rightarrow> int \<Rightarrow> string \<Rightarrow> database \<Rightarrow> wallet_summary" where
  \<comment> \<open>the window of the last thirty days is given by its first and its past-the-end instant\<close>
  "getWalletSummary win_from win_to i d =
     (let live = wallet_rows i d;
          rows = filter (\<lambda>c. ct_status c = CT_ACTIVE) live;
          unpaid = (\<lambda>c. ct_paymentStatus c \<noteq> PS_PAID);
          paid = (\<lambda>c. ct_paymentStatus c = PS_PAID);
          share = (\<lambda>c. or_else (of_repasseValue (ct_offer c)) (ct_updatedValue c));
          commission = (\<lambda>c. or_else (of_commissionValue (ct_offer c)) 0);
          totalValue = sum_of ct_updatedValue (\<lambda>_. True) rows;
          recovered = sum_of recovered_value (\<lambda>_. True) rows;
          settled = filter (agreement_settled win_from win_to) live
      in \<lparr>sm_totalContracts = length rows,
          sm_paymentStatusTotals =
            map (\<lambda>(s, n). (s, n, sum_of ct_updatedValue (\<lambda>c. ct_paymentStatus c = s) rows))
              (group_counts ct_paymentStatus rows),
          sm_serasaStatusTotals = group_counts ct_serasaStatus live,
          sm_serasaTotal = (count_where at_serasa rows, sum_of ct_updatedValue at_serasa rows),
          sm_totalValue = totalValue, sm_recoveredValue = recovered,
          sm_repasseForecastValue = sum_of share unpaid rows,
          sm_repasseRealizedValue = sum_of share paid rows,
          sm_commissionForecastValue = sum_of commission unpaid rows,
          sm_commissionRealizedValue = sum_of commission paid rows,
          sm_discountsConcededValue =
            sum_of (\<lambda>c. max (ct_updatedValue c - or_else (of_value (ct_offer c)) (ct_updatedValue c)) 0)
              (\<lambda>_. True) rows,
          sm_efficiencyRate =
            (if 0 < totalValue then of_int (js_round (recovered / totalValue * 10000)) / 100 else 0),
          sm_agreementHistoryTotal = count_where had_agreement rows,
          sm_agreementHistoryDatedCount =
            count_where (\<lambda>c. had_agreement c \<and> ag_createdAt (ct_agreement c) \<noteq> None) rows,
          sm_paidAgreementsLast30Days = (length settled, sum_of ct_totalPaidAmount (\<lambda>_. True) settled)\<rparr>)"

definition findWalletById ::
  "int \<Rightarrow> int \<Rightarrow> string \<Rightarrow> string \<Rightarrow> string list option \<Rightarrow> database \<Rightarrow> http_error + (wallet \<times> wallet_summary)" where
  "findWalletById win_from win_to i acc scopes d =
     (case find_wallet i acc d of
        None \<Rightarrow> Inl (NotFound ''Wallet not found'')
      | Some w \<Rightarrow>
          if opt_ok scopes (\<lambda>ws. wl_id w \<in> set ws) then Inr (w, getWalletSummary win_from win_to (wl_id w) d)
          else Inl (Forbidden ''Insufficient permissions''))"

section \<open>Bands\<close>

lemma dec2_cents [simp]: "dec2 (of_int k / 100) = of_int k / 100"
proof -
  have "\<bar>of_int k / 100 :: rat\<bar> * 100 + 1 / 2 = of_int \<bar>k\<bar> + 1 / 2" by simp
  then have "\<lfloor>\<bar>of_int k / 100 :: rat\<bar> * 100 + 1 / 2\<rfloor> = \<bar>k\<bar>" by (simp add: floor_unique)
  then show ?thesis
    by (cases "0 :: int" k rule: linorder_cases) (simp_all add: dec2_def)
qed

lemma dec2_is_cents: "\<exists>k. dec2 x = of_int k / 100"
proof (cases "0 :: rat" x rule: linorder_cases)
  case less
  then show ?thesis by (auto simp: dec2_def)
next
  case greater
  have "dec2 x = of_int (- \<lfloor>\<bar>x\<bar> * 100 + 1 / 2\<rfloor>) / 100"
    using greater by (simp add: dec2_def)
  then show ?thesis by blast
qed (auto intro: exI [of _ 0])

lemma dec2_idem [simp]: "dec2 (dec2 x) = dec2 x"
  using dec2_is_cents [of x] by auto

lemma dec2_hundred: "0 \<le> x \<Longrightarrow> x \<le> 100 \<Longrightarrow> 0 \<le> dec2 x \<and> dec2 x \<le> 100"
  using dec2_bounds [of x 10000] by simp

definition separated :: "('b \<Rightarrow> int) \<Rightarrow> ('b \<Rightarrow> int option) \<Rightarrow> 'b list \<Rightarrow> bool" where
  \<comment> \<open>every band ends before the later ones start\<close>
  "separated mn mx bs \<longleftrightarrow> sorted_wrt (\<lambda>b c. ends_before (mx b) (mn c)) bs"

lemma separated_disjoint:
  assumes "separated mn mx bs"
  shows "disjoint_bands mn mx bs"
  unfolding disjoint_bands_def
proof
  fix aging
  show "band_count mn mx aging bs \<le> 1"
    using assms
  proof (induction bs)
    case (Cons b bs)
    show ?case
    proof (cases "in_band (mn b) (mx b) aging")
      case True
      have "\<not> in_band (mn c) (mx c) aging" if "c \<in> set bs" for c
        using that Cons.prems True
        by (auto simp: separated_def ends_before_def in_band_def split: option.splits)
      then have "filter (\<lambda>c. in_band (mn c) (mx c) aging) bs = []"
        by (simp add: filter_empty_conv)
      then show ?thesis by (simp add: band_count_def count_where_def)
    next
      case False
      then show ?thesis using Cons by (simp add: separated_def band_count_def count_where_def)
    qed
  qed (simp add: band_count_def count_where_def)
qed

lemma band_count_sort [simp]: "band_count mn mx aging (sort_key k bs) = band_count mn mx aging bs"
proof -
  have "length (filter P (sort_key k bs)) = length (filter P bs)" for P
    by (simp add: filter_sort)
  then show ?thesis by (simp add: band_count_def count_where_def)
qed

lemma disjoint_sort [simp]: "disjoint_bands mn mx (sort_key k bs) = disjoint_bands mn mx bs"
  by (simp add: disjoint_bands_def)

lemma disjoint_map:
  assumes "\<And>b. mn (f b) = mn' b" and "\<And>b. mx (f b) = mx' b"
  shows "disjoint_bands mn mx (map f bs) = disjoint_bands mn' mx' bs"
  using assms by (simp add: disjoint_bands_def band_count_def count_where_def filter_map comp_def)

lemma bands_loop_separated:
  assumes "bands_loop p bs = None"
  shows "separated bd_minAgingDays bd_maxAgingDays bs \<and>
    (\<forall>q. p = Some q \<longrightarrow> (\<forall>c \<in> set bs. ends_before (bd_maxAgingDays q) (bd_minAgingDays c)))"
  using assms
proof (induction p bs rule: bands_loop.induct)
  case (2 p b bs)
  then have rest: "bands_loop (Some b) bs = None"
    and nonempty: "\<not> ends_before (bd_maxAgingDays b) (bd_minAgingDays b)"
    and prev: "\<And>q. p = Some q \<Longrightarrow> ends_before (bd_maxAgingDays q) (bd_minAgingDays b)"
    by (auto split: if_splits option.splits)
  with 2 have IH: "separated bd_minAgingDays bd_maxAgingDays bs"
    "\<forall>c \<in> set bs. ends_before (bd_maxAgingDays b) (bd_minAgingDays c)"
    by (auto split: if_splits option.splits)
  have "ends_before (bd_maxAgingDays q) (bd_minAgingDays c)" if "p = Some q" "c \<in> set bs" for q c
    using prev [OF that(1)] IH(2) that(2) nonempty
    by (force simp: ends_before_def split: option.splits)
  with IH prev show ?case by (auto simp: separated_def)
qed (simp add: separated_def)

lemma validateBands_disjoint:
  assumes "validateBands bs = None"
  shows "disjoint_bands bd_minAgingDays bd_maxAgingDays bs"
  using separated_disjoint [of bd_minAgingDays bd_maxAgingDays "sort_key bd_minAgingDays bs"]
    bands_loop_separated [of None "sort_key bd_minAgingDays bs"] assms
  by (simp add: validateBands_def)

lemma strategy_loop_bands:
  assumes "strategy_loop p bs cbs = None"
  shows "bands_loop p bs = None \<and>
    (\<forall>b \<in> set bs. \<exists>c. List.find (same_band (bd_minAgingDays b) (bd_maxAgingDays b)) cbs = Some c \<and>
       bd_cashDiscountPercent b \<le> cb_cashDiscountPercent c \<and>
       bd_installmentDiscountPercent b \<le> cb_installmentDiscountPercent c)"
  using assms
  by (induction p bs cbs rule: strategy_loop.induct) (auto split: if_splits option.splits)

lemma validateWalletStrategyBands_ok:
  assumes "validateWalletStrategyBands bs cbs = None"
  shows "disjoint_bands bd_minAgingDays bd_maxAgingDays bs"
    and "b \<in> set bs \<Longrightarrow> \<exists>c. List.find (same_band (bd_minAgingDays b) (bd_maxAgingDays b)) cbs = Some c \<and>
       bd_cashDiscountPercent b \<le> cb_cashDiscountPercent c \<and>
       bd_installmentDiscountPercent b \<le> cb_installmentDiscountPercent c"
  using strategy_loop_bands [OF assms [unfolded validateWalletStrategyBands_def]] validateBands_disjoint [of bs]
  by (auto simp: validateBands_def)

text \<open>After the validation every band has its row.\<close>

lemma strategy_rows_map:
  assumes "validateWalletStrategyBands bs cbs = None"
  shows "strategy_rows cbs bs = map (\<lambda>b. strategy_row b
    (the (List.find (same_band (bd_minAgingDays b) (bd_maxAgingDays b)) cbs))) bs"
proof -
  have "\<forall>b \<in> set bs. \<exists>c. List.find (same_band (bd_minAgingDays b) (bd_maxAgingDays b)) cbs = Some c"
    using validateWalletStrategyBands_ok(2) [OF assms] by blast
  then show ?thesis
    unfolding strategy_rows_def by (induction bs) (auto simp: List.map_filter_simps)
qed
section \<open>Sound commercial rules\<close>

definition percent_ok :: "rat \<Rightarrow> bool" where
  "percent_ok p \<longleftrightarrow> 0 \<le> p \<and> p \<le> 100"

definition creditor_rules :: "creditor \<Rightarrow> bool" where
  "creditor_rules cr \<longleftrightarrow>
     disjoint_bands cb_minAgingDays cb_maxAgingDays (cr_discountBands cr) \<and>
     list_all (\<lambda>c. percent_ok (cb_cashDiscountPercent c) \<and> percent_ok (cb_installmentDiscountPercent c) \<and>
         dec2 (cb_cashDiscountPercent c) = cb_cashDiscountPercent c \<and>
         dec2 (cb_installmentDiscountPercent c) = cb_installmentDiscountPercent c) (cr_discountBands cr) \<and>
     percent_ok (cr_commissionPercent cr)"

definition at_most :: "rat option \<Rightarrow> rat \<Rightarrow> bool" where
  "at_most x p = (case x of None \<Rightarrow> False | Some s \<Rightarrow> s \<le> p)"

definition under_ceiling :: "wallet_band \<Rightarrow> creditor_band \<Rightarrow> bool" where
  \<comment> \<open>the strategy of a wallet in a band of its creditor\<close>
  "under_ceiling b c \<longleftrightarrow>
     same_band (wb_minAgingDays b) (wb_maxAgingDays b) c \<and>
     at_most (wb_cashStrategyDiscountPercent b) (cb_cashDiscountPercent c) \<and>
     at_most (wb_installmentStrategyDiscountPercent b) (cb_installmentDiscountPercent c)"

definition wallet_rules :: "creditor \<Rightarrow> wallet \<Rightarrow> bool" where
  "wallet_rules cr w \<longleftrightarrow>
     disjoint_bands wb_minAgingDays wb_maxAgingDays (wl_discountBands w) \<and>
     list_all (\<lambda>b. list_ex (under_ceiling b) (cr_discountBands cr)) (wl_discountBands w) \<and>
     wl_cobcomDiscountPercent w \<le> 100 \<and> 0 < wl_offerMinInstallmentValue w"

definition rules_ok :: "(nat \<Rightarrow> string) \<Rightarrow> database \<Rightarrow> bool" where
  \<comment> \<open>every live wallet keeps to the ceilings of its creditor\<close>
  "rules_ok gen d \<longleftrightarrow>
     distinct (map wl_id (wallets d)) \<and> set (map wl_id (wallets d)) \<subseteq> gen ` {..<nextId d} \<and>
     distinct (map cr_id (creditors d)) \<and> set (map cr_id (creditors d)) \<subseteq> gen ` {..<nextId d} \<and>
     list_all creditor_rules (creditors d) \<and>
     list_all (\<lambda>w. wl_deletedAt w = None \<longrightarrow>
       (case creditor_of_wallet w d of None \<Rightarrow> False | Some cr \<Rightarrow> wallet_rules cr w)) (wallets d)"

lemma sound_rulesI:
  assumes "creditor_rules cr" and "wallet_rules cr w"
  shows "sound_rules w cr"
  using assms
  by (auto simp: sound_rules_def creditor_rules_def wallet_rules_def percent_ok_def list_all_iff list_ex_iff
      under_ceiling_def at_most_def split: option.splits)

lemma rules_okD:
  assumes "rules_ok gen d" and "find_wallet i acc d = Some w"
  obtains cr where "creditor_of_wallet w d = Some cr" and "creditor_rules cr" and "wallet_rules cr w"
proof -
  have w: "w \<in> set (wallets d)" "wl_deletedAt w = None"
    using assms(2) unfolding find_wallet_def by (auto dest: find_SomeD)
  then have "case creditor_of_wallet w d of None \<Rightarrow> False | Some cr \<Rightarrow> wallet_rules cr w"
    using assms(1) by (auto simp: rules_ok_def list_all_iff)
  then obtain cr where cr: "creditor_of_wallet w d = Some cr" "wallet_rules cr w"
    by (auto split: option.splits)
  then have "cr \<in> set (creditors d)"
    unfolding creditor_of_wallet_def by (auto dest: find_SomeD)
  then have "creditor_rules cr" using assms(1) by (simp add: rules_ok_def list_all_iff)
  with cr that show thesis by blast
qed

lemma creditor_of_wallet_unique:
  assumes "distinct (map cr_id (creditors d))" and "cr \<in> set (creditors d)" and "cr_id cr = wl_creditorId w"
  shows "creditor_of_wallet w d = Some cr"
  using find_key_unique [OF assms(1,2)] assms(3) by (simp add: creditor_of_wallet_def)

text \<open>Each operation on wallets and creditors keeps the rules sound.\<close>

lemma fresh_key:
  assumes "inj gen" and "set ks \<subseteq> gen ` {..<n}"
  shows "gen (n :: nat) \<notin> set ks"
proof -
  have "gen n \<notin> gen ` {..<n}" using assms(1) by (auto simp: inj_eq)
  with assms(2) show ?thesis by blast
qed

lemma same_key:
  assumes "distinct (map k xs)" and "x \<in> set xs" and "y \<in> set xs" and "k x = k y"
  shows "x = y"
  using assms by (auto simp: distinct_map dest: inj_onD)

lemma keys_grow: "ks \<subseteq> gen ` {..<n :: nat} \<Longrightarrow> n \<le> m \<Longrightarrow> ks \<subseteq> gen ` {..<m}"
  by (meson image_mono lessThan_subset_iff order_trans)

lemma rules_ok_frame:
  assumes "rules_ok gen d" and "wallets d' = wallets d" and "creditors d' = creditors d" and "nextId d \<le> nextId d'"
  shows "rules_ok gen d'"
proof -
  have "creditor_of_wallet w d' = creditor_of_wallet w d" for w
    by (simp add: creditor_of_wallet_def assms(3))
  then show ?thesis
    using assms keys_grow [OF _ assms(4), of _ gen] unfolding rules_ok_def by simp
qed

lemma rules_ok_add_wallet:
  assumes "rules_ok gen d" and "inj gen" and "wl_id w = gen (nextId d)"
    and "creditor_of_wallet w d = Some cr" and "wallet_rules cr w"
  shows "rules_ok gen (add_wallet w d)"
proof -
  have "gen (nextId d) \<notin> set (map wl_id (wallets d))"
    using assms(1) by (intro fresh_key [OF assms(2)]) (simp add: rules_ok_def)
  moreover have "creditor_of_wallet x (add_wallet w d) = creditor_of_wallet x d" for x
    by (simp add: creditor_of_wallet_def add_wallet_def)
  ultimately show ?thesis
    using assms keys_grow [of _ gen "nextId d" "Suc (nextId d)"]
    unfolding rules_ok_def by (auto simp: add_wallet_def)
qed

lemma dto_percent_kept: "opt_ok x percent_ok \<Longrightarrow> percent_ok (dec2 (or_else x 0))"
  by (cases x) (auto simp: percent_ok_def dec2_hundred)

lemma wallet_rules_copied:
  assumes "creditor_rules cr" and "cr_id cr = wl_creditorId w"
    and "wl_discountBands w = map (copied_band p) (sort_key cb_minAgingDays (cr_discountBands cr))"
    and "wl_cobcomDiscountPercent w \<le> 100" and "0 < wl_offerMinInstallmentValue w"
  shows "wallet_rules cr w"
proof -
  have "under_ceiling (copied_band p c) c" if "c \<in> set (cr_discountBands cr)" for c
  proof -
    have "dec2 (min p (cb_cashDiscountPercent c)) \<le> cb_cashDiscountPercent c"
      "dec2 (min p (cb_installmentDiscountPercent c)) \<le> cb_installmentDiscountPercent c"
      using that assms(1) dec2_mono [of "min p (cb_cashDiscountPercent c)" "cb_cashDiscountPercent c"]
        dec2_mono [of "min p (cb_installmentDiscountPercent c)" "cb_installmentDiscountPercent c"]
      by (auto simp: creditor_rules_def list_all_iff)
    then show ?thesis by (simp add: under_ceiling_def copied_band_def same_band_def at_most_def)
  qed
  moreover have "disjoint_bands wb_minAgingDays wb_maxAgingDays (wl_discountBands w)"
    unfolding assms(3) using assms(1)
    by (subst disjoint_map [where mn' = cb_minAgingDays and mx' = cb_maxAgingDays])
      (simp_all add: copied_band_def creditor_rules_def)
  ultimately show ?thesis
    using assms(3-5) by (auto simp: wallet_rules_def list_all_iff list_ex_iff)
qed
text \<open>The ranges that the validation of the requests guarantees.\<close>

definition create_wallet_valid :: "create_wallet_dto \<Rightarrow> bool" where
  "create_wallet_valid dto \<longleftrightarrow>
     opt_ok (cw_cobcomDiscountPercent dto) percent_ok \<and>
     opt_ok (cw_offerMinInstallmentValue dto) (\<lambda>v. 1 / 100 \<le> v)"

definition update_wallet_valid :: "update_wallet_dto \<Rightarrow> bool" where
  "update_wallet_valid dto \<longleftrightarrow>
     opt_ok (uw_cobcomDiscountPercent dto) percent_ok \<and>
     opt_ok (uw_offerMinInstallmentValue dto) (\<lambda>v. 1 / 100 \<le> v)"

definition commercial_rules_valid :: "commercial_rules_dto \<Rightarrow> bool" where
  "commercial_rules_valid dto \<longleftrightarrow>
     percent_ok (cm_commissionPercent dto) \<and>
     list_all (\<lambda>b. percent_ok (bd_cashDiscountPercent b) \<and> percent_ok (bd_installmentDiscountPercent b))
       (cm_discountBands dto)"

lemma dec2_positive: "1 / 100 \<le> v \<Longrightarrow> 0 < dec2 v"
  using dec2_mono [of "1 / 100" v] dec2_cents [of 1] by simp

lemma createWallet_rules:
  assumes "rules_ok gen d" and "inj gen" and "create_wallet_valid dto"
  shows "rules_ok gen (snd (createWallet gen i dto acc d))"
proof (cases "find_creditor i acc d")
  case None
  then show ?thesis using assms(1) by (simp add: createWallet_def)
next
  case (Some cr)
  define w where "w = new_wallet gen cr dto acc d"
  have cr: "cr \<in> set (creditors d)"
    using Some unfolding find_creditor_def by (auto dest: find_SomeD)
  have "wl_cobcomDiscountPercent w \<le> 100"
    using assms(3) dto_percent_kept [of "cw_cobcomDiscountPercent dto"]
    by (simp add: w_def new_wallet_def Let_def create_wallet_valid_def percent_ok_def)
  moreover have "0 < wl_offerMinInstallmentValue w"
    using assms(3) dec2_positive
    by (cases "cw_offerMinInstallmentValue dto") (simp_all add: w_def new_wallet_def Let_def create_wallet_valid_def)
  ultimately have "wallet_rules cr w"
    using assms(1) cr
    by (intro wallet_rules_copied [where p = "or_else (cw_cobcomDiscountPercent dto) 0"]) (simp_all add: w_def new_wallet_def Let_def rules_ok_def list_all_iff)
  moreover have "creditor_of_wallet w d = Some cr"
    using assms(1) cr by (intro creditor_of_wallet_unique) (simp_all add: rules_ok_def w_def new_wallet_def Let_def)
  ultimately have "rules_ok gen (add_wallet w d)"
    using assms by (intro rules_ok_add_wallet) (simp_all add: w_def new_wallet_def Let_def)
  then show ?thesis by (simp add: createWallet_def Some w_def Let_def)
qed

lemma rules_ok_update_wallet:
  assumes "rules_ok gen d" and "\<And>w. wl_id (f w) = wl_id w" and "\<And>w. wl_creditorId (f w) = wl_creditorId w"
    and "\<And>w cr. w \<in> set (wallets d) \<Longrightarrow> P w \<Longrightarrow> wl_deletedAt (f w) = None \<Longrightarrow>
      wl_deletedAt w = None \<and> (creditor_of_wallet w d = Some cr \<longrightarrow> wallet_rules cr w \<longrightarrow> wallet_rules cr (f w))"
  shows "rules_ok gen (d\<lparr>wallets := update_where P f (wallets d)\<rparr>)"
proof -
  have ids: "map wl_id (update_where P f (wallets d)) = map wl_id (wallets d)"
    using assms(2) by (rule map_update_where)
  have cow: "creditor_of_wallet w (d\<lparr>wallets := ws\<rparr>) = creditor_of_wallet w d" for w ws
    by (simp add: creditor_of_wallet_def)
  have same: "creditor_of_wallet (f w) d = creditor_of_wallet w d" for w
    by (simp add: creditor_of_wallet_def assms(3))
  have live: "case creditor_of_wallet w d of None \<Rightarrow> False | Some cr \<Rightarrow> wallet_rules cr w"
    if "w \<in> set (wallets d)" "wl_deletedAt w = None" for w
    using assms(1) that by (auto simp: rules_ok_def list_all_iff)
  have "case creditor_of_wallet w d of None \<Rightarrow> False | Some cr \<Rightarrow> wallet_rules cr w"
    if w: "w \<in> set (update_where P f (wallets d))" "wl_deletedAt w = None" for w
  proof -
    from w(1) obtain x where x: "x \<in> set (wallets d)" "P x \<and> w = f x \<or> \<not> P x \<and> w = x"
      by (auto simp: in_update_where)
    show ?thesis
    proof (cases "P x")
      case True
      with x w(2) assms(4) [OF x(1)] live [OF x(1)] show ?thesis
        by (auto simp: same split: option.splits)
    next
      case False
      with x(2) have "w = x" by simp
      from live [OF x(1)] w(2) show ?thesis unfolding \<open>w = x\<close> by blast
    qed
  qed
  then show ?thesis
    using assms(1) unfolding rules_ok_def by (simp add: ids cow list_all_iff)
qed

lemma patched_wallet_rules:
  assumes "wallet_rules cr w" and "creditor_rules cr" and "update_wallet_valid dto"
    and "\<And>bs. uw_discountBands dto = Some bs \<Longrightarrow>
      validateWalletStrategyBands bs (sort_key cb_minAgingDays (cr_discountBands cr)) = None"
  shows "wallet_rules cr (patch_wallet (sort_key cb_minAgingDays (cr_discountBands cr)) dto w)"
proof -
  let ?cbs = "sort_key cb_minAgingDays (cr_discountBands cr)"
  let ?w = "patch_wallet ?cbs dto w"
  have "wl_cobcomDiscountPercent ?w \<le> 100"
    using assms(1,3) dec2_hundred
    by (auto simp: patch_wallet_def wallet_rules_def update_wallet_valid_def percent_ok_def split: option.split)
  moreover have "0 < wl_offerMinInstallmentValue ?w"
    using assms(1,3) dec2_positive
    by (auto simp: patch_wallet_def wallet_rules_def update_wallet_valid_def split: option.split)
  moreover have "disjoint_bands wb_minAgingDays wb_maxAgingDays (wl_discountBands ?w) \<and>
      list_all (\<lambda>b. list_ex (under_ceiling b) (cr_discountBands cr)) (wl_discountBands ?w)"
  proof (cases "uw_discountBands dto")
    case None
    then show ?thesis using assms(1) by (simp add: patch_wallet_def wallet_rules_def)
  next
    case (Some bs)
    note v = assms(4) [OF Some]
    have rows: "wl_discountBands ?w = map (\<lambda>b. strategy_row b
        (the (List.find (same_band (bd_minAgingDays b) (bd_maxAgingDays b)) ?cbs))) bs"
      using strategy_rows_map [OF v] by (simp add: patch_wallet_def Some)
    have "disjoint_bands wb_minAgingDays wb_maxAgingDays (wl_discountBands ?w)"
      unfolding rows using validateWalletStrategyBands_ok(1) [OF v]
      by (subst disjoint_map [where mn' = bd_minAgingDays and mx' = bd_maxAgingDays])
        (simp_all add: strategy_row_def)
    moreover have "list_ex (under_ceiling (strategy_row b
        (the (List.find (same_band (bd_minAgingDays b) (bd_maxAgingDays b)) ?cbs)))) (cr_discountBands cr)"
      if b: "b \<in> set bs" for b
    proof -
      obtain c where c: "List.find (same_band (bd_minAgingDays b) (bd_maxAgingDays b)) ?cbs = Some c"
        and le: "bd_cashDiscountPercent b \<le> cb_cashDiscountPercent c"
          "bd_installmentDiscountPercent b \<le> cb_installmentDiscountPercent c"
        using validateWalletStrategyBands_ok(2) [OF v b] by blast
      then have in_c: "c \<in> set (cr_discountBands cr)" "same_band (bd_minAgingDays b) (bd_maxAgingDays b) c"
        by (auto dest: find_SomeD)
      then have "dec2 (cb_cashDiscountPercent c) = cb_cashDiscountPercent c"
        "dec2 (cb_installmentDiscountPercent c) = cb_installmentDiscountPercent c"
        using assms(2) by (auto simp: creditor_rules_def list_all_iff)
      with le have "dec2 (bd_cashDiscountPercent b) \<le> cb_cashDiscountPercent c"
        "dec2 (bd_installmentDiscountPercent b) \<le> cb_installmentDiscountPercent c"
        using dec2_mono by metis+
      with in_c show ?thesis
        by (auto simp: c list_ex_iff under_ceiling_def strategy_row_def at_most_def)
    qed
    ultimately show ?thesis by (simp add: rows list_all_iff)
  qed
  ultimately show ?thesis by (simp add: wallet_rules_def)
qed

lemma updateWallet_rules:
  assumes "rules_ok gen d" and "update_wallet_valid dto"
  shows "rules_ok gen (snd (updateWallet i dto acc d))"
proof (cases "find_wallet i acc d")
  case None
  then show ?thesis using assms(1) by (simp add: updateWallet_def)
next
  case (Some w)
  obtain cr where cr: "creditor_of_wallet w d = Some cr" "creditor_rules cr"
    using rules_okD [OF assms(1) Some] by blast
  let ?cbs = "sort_key cb_minAgingDays (cr_discountBands cr)"
  have w: "w \<in> set (wallets d)" "wl_id w = i"
    using Some unfolding find_wallet_def by (auto dest: find_SomeD)
  show ?thesis
  proof (cases "case uw_discountBands dto of None \<Rightarrow> None | Some bs \<Rightarrow> validateWalletStrategyBands bs ?cbs")
    case None
    have v: "validateWalletStrategyBands bs ?cbs = None" if "uw_discountBands dto = Some bs" for bs
      using None that by simp
    have "rules_ok gen (update_wallet i (patch_wallet ?cbs dto) d)"
      unfolding update_wallet_def
    proof (rule rules_ok_update_wallet [OF assms(1)])
      fix x cr' assume x: "x \<in> set (wallets d)" "wl_id x = i"
        "wl_deletedAt (patch_wallet ?cbs dto x) = None"
      have "x = w"
        using assms(1) x(1,2) w by (intro same_key [of wl_id "wallets d"]) (simp_all add: rules_ok_def)
      show "wl_deletedAt x = None \<and> (creditor_of_wallet x d = Some cr' \<longrightarrow>
          wallet_rules cr' x \<longrightarrow> wallet_rules cr' (patch_wallet ?cbs dto x))"
      proof (intro conjI impI)
        show "wl_deletedAt x = None" using x(3) by (simp add: patch_wallet_def)
        assume "creditor_of_wallet x d = Some cr'" and r: "wallet_rules cr' x"
        then have "cr' = cr" using cr(1) \<open>x = w\<close> by simp
        with patched_wallet_rules [OF r [unfolded \<open>cr' = cr\<close>] cr(2) assms(2) v]
        show "wallet_rules cr' (patch_wallet ?cbs dto x)" by simp
      qed
    qed (simp_all add: patch_wallet_def)
    with None show ?thesis by (simp add: updateWallet_def Some cr Let_def)
  next
    case (Some err)
    then show ?thesis
      using assms(1) \<open>find_wallet i acc d = Some w\<close> by (simp add: updateWallet_def cr)
  qed
qed
lemma softDeleteWallet_rules:
  assumes "rules_ok gen d"
  shows "rules_ok gen (snd (softDeleteWallet now i acc d))"
proof -
  have "rules_ok gen (update_wallet i (\<lambda>r. r\<lparr>wl_deletedAt := Some now\<rparr>) (d\<lparr>contracts := cs\<rparr>))" for cs
    unfolding update_wallet_def
    by (rule rules_ok_update_wallet) (auto intro: rules_ok_frame [OF assms])
  then show ?thesis
    using assms by (auto simp: softDeleteWallet_def split: option.split)
qed

lemma update_creditor_frame [simp]:
  "wallets (update_creditor i f d) = wallets d" "contracts (update_creditor i f d) = contracts d"
  "nextId (update_creditor i f d) = nextId d"
  "creditors (update_creditor i f d) = update_where (\<lambda>c. cr_id c = i) f (creditors d)"
  by (simp_all add: update_creditor_def)

lemma creditor_of_wallet_update:
  assumes "\<And>c. cr_id (f c) = cr_id c"
  shows "creditor_of_wallet w (update_creditor i f d)
    = map_option (\<lambda>c. if cr_id c = i then f c else c) (creditor_of_wallet w d)"
  unfolding creditor_of_wallet_def by (simp add: find_update_where assms)

lemma rules_ok_update_creditor:
  assumes "rules_ok gen d" and "\<And>c. cr_id (f c) = cr_id c"
    and "\<And>c. creditor_rules c \<Longrightarrow> creditor_rules (f c)"
    and "\<And>c w. wallet_rules c w \<Longrightarrow> wallet_rules (f c) w"
  shows "rules_ok gen (update_creditor i f d)"
proof -
  have ids: "map cr_id (update_where P f (creditors d)) = map cr_id (creditors d)" for P
    using assms(2) by (rule map_update_where)
  have "list_all creditor_rules (update_where (\<lambda>c. cr_id c = i) f (creditors d))"
    using assms(1,3) by (auto simp: rules_ok_def list_all_iff in_update_where)
  moreover have "case creditor_of_wallet w (update_creditor i f d) of
      None \<Rightarrow> False | Some cr \<Rightarrow> wallet_rules cr w"
    if "w \<in> set (wallets d)" "wl_deletedAt w = None" for w
  proof -
    have "case creditor_of_wallet w d of None \<Rightarrow> False | Some cr \<Rightarrow> wallet_rules cr w"
      using assms(1) that by (auto simp: rules_ok_def list_all_iff)
    then show ?thesis
      using assms(4) by (auto simp: creditor_of_wallet_update [OF assms(2)] split: option.splits)
  qed
  ultimately show ?thesis
    using assms(1) unfolding rules_ok_def by (simp add: ids list_all_iff)
qed

lemma updateCreditor_rules:
  assumes "rules_ok gen d"
  shows "rules_ok gen (snd (updateCreditor i dto acc d))"
proof -
  have "rules_ok gen (update_creditor i (patch_creditor dto) d)"
    by (rule rules_ok_update_creditor [OF assms])
      (simp_all add: patch_creditor_def creditor_rules_def wallet_rules_def)
  then show ?thesis using assms by (auto simp: updateCreditor_def split: option.split)
qed

lemma softDeleteCreditor_rules:
  assumes "rules_ok gen d"
  shows "rules_ok gen (snd (softDeleteCreditor now i acc d))"
proof -
  let ?d = "update_creditor i (\<lambda>c. c\<lparr>cr_deletedAt := Some now\<rparr>) d"
  have ok: "rules_ok gen ?d"
    by (rule rules_ok_update_creditor [OF assms]) (simp_all add: creditor_rules_def wallet_rules_def)
  have "rules_ok gen (?d\<lparr>wallets := update_where (\<lambda>w. wl_creditorId w = i \<and> wl_deletedAt w = None)
      (\<lambda>w. w\<lparr>wl_deletedAt := Some now\<rparr>) (wallets ?d)\<rparr>)"
    by (rule rules_ok_update_wallet [OF ok]) simp_all
  then show ?thesis using assms by (auto simp: softDeleteCreditor_def split: option.split)
qed

lemma createCreditor_rules:
  assumes "rules_ok gen d" and "inj gen"
  shows "rules_ok gen (snd (createCreditor gen dto acc d))"
proof -
  define cr where "cr = new_creditor gen dto acc d"
  define d1 where "d1 = d\<lparr>creditors := creditors d @ [cr], nextId := Suc (nextId d)\<rparr>"
  have cr: "cr_id cr = gen (nextId d)" "creditor_rules cr"
    by (simp_all add: cr_def new_creditor_def creditor_rules_def disjoint_bands_def band_count_def
        count_where_def percent_ok_def)
  have fresh: "gen (nextId d) \<notin> set (map cr_id (creditors d))"
    using assms(1) by (intro fresh_key [OF assms(2)]) (simp add: rules_ok_def)
  have old: "creditor_of_wallet w d1 = Some c" if "creditor_of_wallet w d = Some c" for w c
    using that by (simp add: creditor_of_wallet_def d1_def find_append)
  have ok1: "rules_ok gen d1"
  proof -
    have "case creditor_of_wallet w d1 of None \<Rightarrow> False | Some c \<Rightarrow> wallet_rules c w"
      if "w \<in> set (wallets d)" "wl_deletedAt w = None" for w
    proof -
      have "case creditor_of_wallet w d of None \<Rightarrow> False | Some c \<Rightarrow> wallet_rules c w"
        using assms(1) that by (auto simp: rules_ok_def list_all_iff)
      then show ?thesis using old [of w] by (auto split: option.splits)
    qed
    then show ?thesis
      using assms(1) cr fresh keys_grow [of _ gen "nextId d" "Suc (nextId d)"]
      by (auto simp: rules_ok_def d1_def list_all_iff)
  qed
  have new: "creditor_of_wallet w d1 = Some cr" if "wl_creditorId w = cr_id cr" for w
    using ok1 that by (intro creditor_of_wallet_unique) (simp_all add: rules_ok_def d1_def)
  have "wallet_rules cr (default_wallet (gen (nextId d1)) acc (cr_id cr))"
    by (simp add: wallet_rules_def default_wallet_def disjoint_bands_def band_count_def count_where_def)
  then have "rules_ok gen (add_wallet (default_wallet (gen (nextId d1)) acc (cr_id cr)) d1)"
    using new by (intro rules_ok_add_wallet [OF ok1 assms(2)]) (simp_all add: default_wallet_def)
  with assms(1) show ?thesis by (auto simp: createCreditor_def Let_def cr_def d1_def)
qed

lemma carried_rules:
  assumes "validateBands (cm_discountBands dto) = None" and "wallet_rules cr w"
    and "cr_discountBands cr' = map ceiling_row (cm_discountBands dto)"
  shows "wallet_rules cr' (w\<lparr>wl_discountBands := map (carried_band w) (cm_discountBands dto)\<rparr>)"
proof -
  have "disjoint_bands wb_minAgingDays wb_maxAgingDays (map (carried_band w) (cm_discountBands dto))"
    using validateBands_disjoint [OF assms(1)]
    by (subst disjoint_map [where mn' = bd_minAgingDays and mx' = bd_maxAgingDays])
      (simp_all add: carried_band_def Let_def)
  moreover have "under_ceiling (carried_band w b) (ceiling_row b)" for b
    by (simp add: under_ceiling_def carried_band_def ceiling_row_def same_band_def at_most_def Let_def dec2_mono)
  ultimately show ?thesis
    using assms(2) by (auto simp: wallet_rules_def list_all_iff list_ex_iff assms(3))
qed

lemma upsertCommercialRules_rules:
  assumes "rules_ok gen d" and "commercial_rules_valid dto"
  shows "rules_ok gen (snd (upsertCommercialRules i dto acc d))"
proof (cases "find_creditor i acc d = None \<or> validateBands (cm_discountBands dto) \<noteq> None")
  case True
  then show ?thesis using assms(1) by (auto simp: upsertCommercialRules_def split: option.split)
next
  case False
  define f where "f = (\<lambda>c :: creditor. c\<lparr>cr_commissionPercent := dec2 (cm_commissionPercent dto),
    cr_discountBands := map ceiling_row (cm_discountBands dto)\<rparr>)"
  define g where "g = (\<lambda>w. w\<lparr>wl_discountBands := map (carried_band w) (cm_discountBands dto)\<rparr>)"
  define P where "P = (\<lambda>w :: wallet. wl_creditorId w = i \<and> wl_deletedAt w = None)"
  have v: "validateBands (cm_discountBands dto) = None" using False by simp
  have fr: "creditor_rules (f c)" for c
  proof -
    have "disjoint_bands cb_minAgingDays cb_maxAgingDays (map ceiling_row (cm_discountBands dto))"
      using validateBands_disjoint [OF v]
      by (subst disjoint_map [where mn' = bd_minAgingDays and mx' = bd_maxAgingDays])
        (simp_all add: ceiling_row_def)
    then show ?thesis
      using assms(2) dec2_hundred
      by (auto simp: f_def creditor_rules_def commercial_rules_valid_def percent_ok_def list_all_iff ceiling_row_def)
  qed
  define d' where "d' = (update_creditor i f d)\<lparr>wallets := update_where P g (wallets d)\<rparr>"
  have cow: "creditor_of_wallet w d' = map_option (\<lambda>c. if cr_id c = i then f c else c) (creditor_of_wallet w d)" for w
    using creditor_of_wallet_update [of f w i d] by (simp add: f_def d'_def creditor_of_wallet_def)
  have rules: "case creditor_of_wallet w d' of None \<Rightarrow> False | Some cr \<Rightarrow> wallet_rules cr w"
    if w: "w \<in> set (wallets d')" "wl_deletedAt w = None" for w
  proof -
    from w(1) obtain x where x: "x \<in> set (wallets d)" "P x \<and> w = g x \<or> \<not> P x \<and> w = x"
      by (auto simp: d'_def in_update_where)
    have xl: "wl_deletedAt x = None" using x(2) w(2) by (auto simp: g_def)
    then have "case creditor_of_wallet x d of None \<Rightarrow> False | Some cr \<Rightarrow> wallet_rules cr x"
      using assms(1) x(1) by (auto simp: rules_ok_def list_all_iff)
    then obtain cr where cr: "creditor_of_wallet x d = Some cr" "wallet_rules cr x"
      by (auto split: option.splits)
    have cid: "cr_id cr = wl_creditorId x"
      using cr(1) unfolding creditor_of_wallet_def by (auto dest: find_SomeD)
    show ?thesis
    proof (cases "P x")
      case True
      then have "w = g x" "cr_id cr = i" using x(2) cid by (auto simp: P_def)
      moreover have "creditor_of_wallet (g x) d = creditor_of_wallet x d"
        by (simp add: creditor_of_wallet_def g_def)
      moreover have "wallet_rules (f cr) (g x)"
        unfolding g_def using v cr(2) by (rule carried_rules) (simp add: f_def)
      ultimately show ?thesis by (simp add: cow cr)
    next
      case False
      then have "w = x" "cr_id cr \<noteq> i" using x(2) cid xl by (auto simp: P_def)
      then show ?thesis using cr by (simp add: cow)
    qed
  qed
  have ids: "map wl_id (update_where P g (wallets d)) = map wl_id (wallets d)"
    "map cr_id (update_where (\<lambda>c. cr_id c = i) f (creditors d)) = map cr_id (creditors d)"
    by (rule map_update_where; simp add: g_def f_def)+
  have "rules_ok gen d'"
    using assms(1) rules fr
    by (auto simp: rules_ok_def d'_def ids list_all_iff in_update_where)
  moreover have "snd (upsertCommercialRules i dto acc d) = d'"
    using False by (auto simp: upsertCommercialRules_def d'_def f_def g_def P_def)
  ultimately show ?thesis by simp
qed

section \<open>Repricing a wallet\<close>

lemma live_wallet_rules:
  assumes "rules_ok gen d" and "w \<in> set (wallets d)" and "wl_deletedAt w = None"
  shows "\<exists>cr. creditor_of_wallet w d = Some cr \<and> wallet_rules cr w"
proof -
  have "case creditor_of_wallet w d of None \<Rightarrow> False | Some cr \<Rightarrow> wallet_rules cr w"
    using assms by (auto simp: rules_ok_def list_all_iff)
  then show ?thesis by (auto split: option.splits)
qed

definition values_nonneg :: "database \<Rightarrow> bool" where
  "values_nonneg d \<longleftrightarrow> list_all (\<lambda>c. 0 \<le> ct_updatedValue c) (contracts d)"

definition reoffered :: "wallet \<Rightarrow> creditor \<Rightarrow> contract \<Rightarrow> contract" where
  \<comment> \<open>the offer the contract service computes for one contract, at its stored age\<close>
  "reoffered w cr c =
     c\<lparr>ct_offer := stored_offer (recalculated_offer (ct_updatedValue c) w cr (ct_agingDays c))\<rparr>"

lemma reoffered_keeps [simp]:
  "ct_id (reoffered w cr c) = ct_id c" "ct_walletId (reoffered w cr c) = ct_walletId c"
  "ct_updatedValue (reoffered w cr c) = ct_updatedValue c"
  "repriceable i (reoffered w cr c) = repriceable i c"
  by (simp_all add: reoffered_def repriceable_def)

lemma find_wallet_contracts [simp]: "find_wallet i acc (d\<lparr>contracts := cs\<rparr>) = find_wallet i acc d"
  by (simp add: find_wallet_def)

lemma creditor_of_wallet_contracts [simp]:
  "creditor_of_wallet w (d\<lparr>contracts := cs\<rparr>) = creditor_of_wallet w d"
  by (simp add: creditor_of_wallet_def)

lemma update_where_cong:
  "(\<And>x. x \<in> set xs \<Longrightarrow> P x \<Longrightarrow> f x = g x) \<Longrightarrow> update_where P f xs = update_where P g xs"
  by (induction xs) auto

definition offer_fits :: "wallet \<Rightarrow> creditor \<Rightarrow> contract \<Rightarrow> bool" where
  \<comment> \<open>the number of installments of the contract is an \<open>integer\<close> of the database\<close>
  "offer_fits w cr c \<longleftrightarrow> installments_fit (ct_updatedValue c) w cr (ct_agingDays c)"

lemma offer_fits_reoffered [simp]: "offer_fits w cr (reoffered v cr' c) = offer_fits w cr c"
  by (simp add: offer_fits_def reoffered_def)

lemma recalculateOffers_sound:
  assumes "find_wallet i acc d = Some w" and "creditor_of_wallet w d = Some cr"
    and "creditor_rules cr" and "wallet_rules cr w" and "values_nonneg d"
  shows "recalculateOffers i acc d =
    (if \<forall>c \<in> set (contracts d). repriceable i c \<longrightarrow> offer_fits w cr c
     then (Inr (count_where (repriceable i) (contracts d)),
           d\<lparr>contracts := update_where (repriceable i) (reoffered w cr) (contracts d)\<rparr>)
     else (Inl (Internal ''numeric value out of range''), d))"
proof -
  have sql: "sql_offer (ct_updatedValue c) w cr (ct_agingDays c) =
      (if offer_fits w cr c then Some (recalculated_offer (ct_updatedValue c) w cr (ct_agingDays c)) else None)"
    if "c \<in> set (contracts d)" for c
    using that assms(5) sql_offer_recalculated [OF sound_rulesI [OF assms(3,4)]]
    by (simp add: offer_fits_def values_nonneg_def list_all_iff)
  have ex: "list_ex (\<lambda>c. repriceable i c \<and> sql_offer (ct_updatedValue c) w cr (ct_agingDays c) = None) (contracts d)
      \<longleftrightarrow> \<not> (\<forall>c \<in> set (contracts d). repriceable i c \<longrightarrow> offer_fits w cr c)"
    using sql by (auto simp: list_ex_iff)
  have "update_where (repriceable i) (repriced w cr) (contracts d)
      = update_where (repriceable i) (reoffered w cr) (contracts d)"
    if "\<forall>c \<in> set (contracts d). repriceable i c \<longrightarrow> offer_fits w cr c"
    using that sql by (intro update_where_cong) (simp add: repriced_def reoffered_def)
  then show ?thesis by (simp add: recalculateOffers_def assms(1,2) Let_def ex)
qed


section \<open>The weekly job\<close>

definition reaged :: "(int \<Rightarrow> int) \<Rightarrow> int \<Rightarrow> contract \<Rightarrow> contract" where
  "reaged sql_day today c =
     (if ct_deletedAt c = None
      then c\<lparr>ct_agingDays := max 0 (today - sql_day (or_else (ct_dueDate c) (ct_occurrenceDate c)))\<rparr>
      else c)"

definition refreshed :: "database \<Rightarrow> contract \<Rightarrow> contract" where
  \<comment> \<open>the offer of an open contract of a live wallet, recomputed\<close>
  "refreshed d c =
     (case List.find (\<lambda>w. wl_id w = ct_walletId c \<and> wl_deletedAt w = None) (wallets d) of
        None \<Rightarrow> c
      | Some w \<Rightarrow>
          (case creditor_of_wallet w d of
             None \<Rightarrow> c
           | Some cr \<Rightarrow> if repriceable (wl_id w) c then reoffered w cr c else c))"

definition reoffer_in :: "database \<Rightarrow> wallet \<Rightarrow> contract \<Rightarrow> contract" where
  "reoffer_in d w c =
     (if repriceable (wl_id w) c then reoffered w (the (creditor_of_wallet w d)) c else c)"

lemma reoffer_in_keeps [simp]:
  "ct_walletId (reoffer_in d w c) = ct_walletId c" "ct_updatedValue (reoffer_in d w c) = ct_updatedValue c"
  "repriceable i (reoffer_in d w c) = repriceable i c"
  by (simp_all add: reoffer_in_def)

definition fits_in :: "database \<Rightarrow> wallet \<Rightarrow> contract \<Rightarrow> bool" where
  "fits_in d w c \<longleftrightarrow> (repriceable (wl_id w) c \<longrightarrow> offer_fits w (the (creditor_of_wallet w d)) c)"

lemma reoffer_in_fits [simp]: "fits_in d w (reoffer_in d v c) = fits_in d w c"
  by (simp add: fits_in_def reoffer_in_def)

lemma refresh_one:
  assumes "rules_ok gen d" and "w \<in> set (wallets d)" and "wl_deletedAt w = None"
    and "\<forall>c \<in> set cs. 0 \<le> ct_updatedValue c"
  shows "recalculateOffers (wl_id w) (wl_accountId w) (d\<lparr>contracts := cs\<rparr>) =
    (if \<forall>c \<in> set cs. fits_in d w c
     then (Inr (count_where (repriceable (wl_id w)) cs), d\<lparr>contracts := map (reoffer_in d w) cs\<rparr>)
     else (Inl (Internal ''numeric value out of range''), d\<lparr>contracts := cs\<rparr>))"
proof -
  have dw: "distinct (map wl_id (wallets d))" using assms(1) by (simp add: rules_ok_def)
  have fw: "find_wallet (wl_id w) (wl_accountId w) d = Some w"
    unfolding find_wallet_def using dw assms(2,3) by (intro find_by_key [where k = wl_id]) auto
  obtain cr where cr: "creditor_of_wallet w d = Some cr" "creditor_rules cr" "wallet_rules cr w"
    using rules_okD [OF assms(1) fw] by blast
  show ?thesis
    using recalculateOffers_sound [of "wl_id w" "wl_accountId w" "d\<lparr>contracts := cs\<rparr>" w cr] fw cr assms(4)
    by (simp add: values_nonneg_def list_all_iff reoffer_in_def [abs_def] update_where_def fits_in_def)
qed

lemma refresh_wallets_fold:
  assumes "rules_ok gen d" and "set ws \<subseteq> set (wallets d)" and "\<forall>w \<in> set ws. wl_deletedAt w = None"
    and "\<forall>c \<in> set cs. 0 \<le> ct_updatedValue c" and "\<forall>w \<in> set ws. \<forall>c \<in> set cs. fits_in d w c"
  shows "refresh_wallets ws (d\<lparr>contracts := cs\<rparr>) = (Inr (), d\<lparr>contracts := map (fold (reoffer_in d) ws) cs\<rparr>)"
  using assms(2-5)
proof (induction ws arbitrary: cs)
  case (Cons w ws)
  have "recalculateOffers (wl_id w) (wl_accountId w) (d\<lparr>contracts := cs\<rparr>) =
      (Inr (count_where (repriceable (wl_id w)) cs), d\<lparr>contracts := map (reoffer_in d w) cs\<rparr>)"
    using refresh_one [OF assms(1), of w cs] Cons.prems by simp
  then show ?case
    using Cons.IH [of "map (reoffer_in d w) cs"] Cons.prems by (simp add: comp_def)
qed simp

lemma refresh_wallets_fail:
  assumes "rules_ok gen d" and "set ws \<subseteq> set (wallets d)" and "\<forall>w \<in> set ws. wl_deletedAt w = None"
    and "\<forall>c \<in> set cs. 0 \<le> ct_updatedValue c" and "\<exists>w \<in> set ws. \<exists>c \<in> set cs. \<not> fits_in d w c"
  shows "\<exists>cs'. refresh_wallets ws (d\<lparr>contracts := cs\<rparr>) =
      (Inl (Internal ''numeric value out of range''), d\<lparr>contracts := cs'\<rparr>) \<and>
    map ct_agingDays cs' = map ct_agingDays cs"
  using assms(2-5)
proof (induction ws arbitrary: cs)
  case (Cons w ws)
  note one = refresh_one [OF assms(1), of w cs]
  show ?case
  proof (cases "\<forall>c \<in> set cs. fits_in d w c")
    case False
    with one Cons.prems show ?thesis by (intro exI [of _ cs]) auto
  next
    case True
    let ?cs = "map (reoffer_in d w) cs"
    have "\<exists>cs'. refresh_wallets ws (d\<lparr>contracts := ?cs\<rparr>) =
        (Inl (Internal ''numeric value out of range''), d\<lparr>contracts := cs'\<rparr>) \<and>
        map ct_agingDays cs' = map ct_agingDays ?cs"
      using Cons.prems True by (intro Cons.IH) auto
    moreover have "map ct_agingDays ?cs = map ct_agingDays cs"
      by (simp add: reoffer_in_def reoffered_def)
    ultimately obtain cs' where "refresh_wallets ws (d\<lparr>contracts := ?cs\<rparr>) =
        (Inl (Internal ''numeric value out of range''), d\<lparr>contracts := cs'\<rparr>)"
      "map ct_agingDays cs' = map ct_agingDays cs"
      by metis
    then show ?thesis using one True Cons.prems by (intro exI [of _ cs']) simp
  qed
qed simp

lemma fold_reoffer_none:
  "\<forall>w \<in> set ws. wl_id w \<noteq> ct_walletId c \<Longrightarrow> fold (reoffer_in d) ws c = c"
  by (induction ws) (auto simp: reoffer_in_def repriceable_def)

lemma fold_reoffer:
  assumes "distinct (map wl_id ws)"
  shows "fold (reoffer_in d) ws c =
    (case List.find (\<lambda>w. wl_id w = ct_walletId c) ws of None \<Rightarrow> c | Some w \<Rightarrow> reoffer_in d w c)"
  using assms
proof (induction ws)
  case (Cons w ws)
  show ?case
  proof (cases "wl_id w = ct_walletId c")
    case True
    then have "\<forall>v \<in> set ws. wl_id v \<noteq> ct_walletId (reoffer_in d w c)"
      using Cons.prems True by (auto simp: image_iff)
    then show ?thesis using True fold_reoffer_none by simp
  next
    case False
    then have "reoffer_in d w c = c" by (auto simp: reoffer_in_def repriceable_def)
    then show ?thesis using Cons False by simp
  qed
qed simp

lemma find_filter: "List.find P (filter Q xs) = List.find (\<lambda>x. P x \<and> Q x) xs"
  by (induction xs) auto

definition all_fit :: "database \<Rightarrow> contract list \<Rightarrow> bool" where
  \<comment> \<open>every open contract of a live wallet has a number of installments the database can hold\<close>
  "all_fit d cs \<longleftrightarrow>
     list_all (\<lambda>c. list_all (\<lambda>w. wl_deletedAt w = None \<longrightarrow> fits_in d w c) (wallets d)) cs"

lemma fold_reoffer_refreshed:
  assumes "rules_ok gen d"
  shows "fold (reoffer_in d) (filter (\<lambda>w. wl_deletedAt w = None) (wallets d)) c = refreshed d c"
proof -
  have dist: "distinct (map wl_id (filter (\<lambda>w. wl_deletedAt w = None) (wallets d)))"
    using assms by (simp add: rules_ok_def distinct_map_filter)
  have "creditor_of_wallet w d \<noteq> None" if "w \<in> set (wallets d)" "wl_deletedAt w = None" for w
    using live_wallet_rules [OF assms that] by auto
  then have "\<exists>cr. creditor_of_wallet w d = Some cr"
    if "List.find (\<lambda>w. wl_id w = ct_walletId c \<and> wl_deletedAt w = None) (wallets d) = Some w" for w
    using find_SomeD [OF that] by auto
  then show ?thesis
    unfolding fold_reoffer [OF dist] find_filter refreshed_def
    by (auto simp: reoffer_in_def split: option.split)
qed

text \<open>
  C25. The weekly job gives every live contract the age the database computes. When at that age the
  offer of every open contract of a live wallet has a number of installments the database can hold,
  it then gives each of them that offer, changes nothing else and reports both counts; when one has
  not, the job ends with the error of the statement, the ages written all the same.
\<close>

lemma weekly_refresh:
  assumes "rules_ok gen d" and "values_nonneg d" and "cs = map (reaged sql_day today) (contracts d)"
  shows "if all_fit d cs
    then refreshAgingAndOffers sql_day today d =
      (Inr (count_where (\<lambda>c. ct_deletedAt c = None) (contracts d),
            count_where (\<lambda>w. wl_deletedAt w = None) (wallets d)),
       d\<lparr>contracts := map (refreshed d) cs\<rparr>)
    else \<exists>cs'. refreshAgingAndOffers sql_day today d =
        (Inl (Internal ''numeric value out of range''), d\<lparr>contracts := cs'\<rparr>) \<and>
      map ct_agingDays cs' = map ct_agingDays cs"
proof -
  let ?ws = "filter (\<lambda>w. wl_deletedAt w = None) (wallets d)"
  have aging: "refresh_aging sql_day today d = d\<lparr>contracts := cs\<rparr>"
    by (simp add: refresh_aging_def update_where_def reaged_def [abs_def] assms(3))
  have nn: "\<forall>c \<in> set cs. 0 \<le> ct_updatedValue c"
    using assms(2) by (auto simp: values_nonneg_def list_all_iff reaged_def assms(3))
  have ws: "set ?ws \<subseteq> set (wallets d)" "\<forall>w \<in> set ?ws. wl_deletedAt w = None" by auto
  show ?thesis
  proof (cases "all_fit d cs")
    case True
    then have "\<forall>w \<in> set ?ws. \<forall>c \<in> set cs. fits_in d w c" by (auto simp: all_fit_def list_all_iff)
    from refresh_wallets_fold [OF assms(1) ws nn this] show ?thesis
      using True fold_reoffer_refreshed [OF assms(1)]
      by (simp add: refreshAgingAndOffers_def aging Let_def count_where_def)
  next
    case False
    then have "\<exists>w \<in> set ?ws. \<exists>c \<in> set cs. \<not> fits_in d w c" by (auto simp: all_fit_def list_all_iff)
    from refresh_wallets_fail [OF assms(1) ws nn this] show ?thesis
      using False by (auto simp: refreshAgingAndOffers_def aging Let_def)
  qed
qed

section \<open>Well-formed rows\<close>

text \<open>
  The type of a stored contract: the document is normalised, its hash belongs to it, the amounts and
  the offer have two decimals.
\<close>

definition contract_wf :: "(string \<Rightarrow> string) \<Rightarrow> contract \<Rightarrow> bool" where
  "contract_wf sha c \<longleftrightarrow>
     normalizeCnpj (ct_debtorDocument c) = ct_debtorDocument c \<and>
     ct_debtorDocumentHash c = sha (ct_debtorDocument c) \<and>
     dec2 (ct_originalValue c) = ct_originalValue c \<and> dec2 (ct_updatedValue c) = ct_updatedValue c \<and>
     stored_offer (ct_offer c) = ct_offer c"

definition book_ok :: "(nat \<Rightarrow> string) \<Rightarrow> (string \<Rightarrow> string) \<Rightarrow> database \<Rightarrow> bool" where
  \<comment> \<open>keys, well-formed contracts in existing wallets, and sound commercial rules\<close>
  "book_ok gen sha d \<longleftrightarrow>
     contracts_ok gen d \<and> rules_ok gen d \<and> list_all (contract_wf sha) (contracts d) \<and>
     list_all (\<lambda>c. ct_walletId c \<in> wl_id ` set (wallets d)) (contracts d)"

lemma stored_offer_idem [simp]: "stored_offer (stored_offer s) = stored_offer s"
  by (simp add: stored_offer_def option.map_comp comp_def)

lemma stored_with_calculated [simp]:
  "stored_offer s = s \<Longrightarrow> stored_offer (with_calculated c s) = with_calculated c s"
  by (cases s) (simp add: with_calculated_def stored_offer_def)

lemma find_wallet_in: "find_wallet i acc d = Some w \<Longrightarrow> i \<in> wl_id ` set (wallets d)"
  unfolding find_wallet_def by (auto dest!: find_SomeD)

lemma contract_wf_keep:
  assumes "contract_wf sha c" and "ct_debtorDocument c' = ct_debtorDocument c"
    and "ct_debtorDocumentHash c' = ct_debtorDocumentHash c"
    and "ct_originalValue c' = ct_originalValue c" and "ct_updatedValue c' = ct_updatedValue c"
    and "ct_offer c' = ct_offer c"
  shows "contract_wf sha c'"
  using assms by (simp add: contract_wf_def)

lemma book_ok_update:
  assumes "book_ok gen sha d"
    and "\<And>c. ct_id (f c) = ct_id c" and "\<And>c. ct_deduplicationKey (f c) = ct_deduplicationKey c"
    and "\<And>c. c \<in> set (contracts d) \<Longrightarrow> P c \<Longrightarrow> contract_wf sha c \<Longrightarrow> contract_wf sha (f c)"
    and "\<And>c. c \<in> set (contracts d) \<Longrightarrow> P c \<Longrightarrow> ct_walletId c \<in> wl_id ` set (wallets d) \<Longrightarrow>
      ct_walletId (f c) \<in> wl_id ` set (wallets d)"
  shows "book_ok gen sha (d\<lparr>contracts := update_where P f (contracts d)\<rparr>)"
proof -
  have keys: "map ct_id (update_where P f (contracts d)) = map ct_id (contracts d)"
    by (rule map_update_where) (rule assms(2))
  have keys2: "map ct_deduplicationKey (update_where P f (contracts d)) = map ct_deduplicationKey (contracts d)"
    by (rule map_update_where) (rule assms(3))
  have "rules_ok gen (d\<lparr>contracts := update_where P f (contracts d)\<rparr>)"
    by (rule rules_ok_frame [of gen d]) (use assms(1) in \<open>simp_all add: book_ok_def\<close>)
  moreover have "contracts_ok gen (d\<lparr>contracts := update_where P f (contracts d)\<rparr>)"
    using assms(1) unfolding book_ok_def contracts_ok_def by (simp add: keys keys2 del: list.set_map)
  moreover have "contract_wf sha c \<and> ct_walletId c \<in> wl_id ` set (wallets d)"
    if "c \<in> set (update_where P f (contracts d))" for c
    using that assms(1,4,5) by (auto simp: book_ok_def list_all_iff in_update_where)
  ultimately show ?thesis by (simp add: book_ok_def list_all_iff)
qed

lemma book_ok_wallets:
  assumes "book_ok gen sha d" and "rules_ok gen d'" and "contracts d' = contracts d"
    and "nextId d \<le> nextId d'" and "wl_id ` set (wallets d) \<subseteq> wl_id ` set (wallets d')"
  shows "book_ok gen sha d'"
proof -
  have "contracts_ok gen d'"
    using assms(1,2) keys_grow [OF _ assms(4), of _ gen] unfolding book_ok_def contracts_ok_def rules_ok_def
    by (simp add: assms(3))
  then show ?thesis
    using assms(1,2,5) by (auto simp: book_ok_def list_all_iff assms(3))
qed

lemma snd_stored_row [simp]: "snd (stored_row i d) = d"
  by (simp add: stored_row_def split: option.split)

lemma patch_offer_stored:
  assumes "patch_offer e dto c ow d = Inr p" and "stored_offer (ct_offer c) = ct_offer c"
  shows "stored_offer (snd p) = snd p"
  using assms
  by (auto simp: patch_offer_def patch_discount_def Let_def split: option.splits if_splits)

lemma updateContract_book:
  assumes "book_ok gen sha d"
  shows "book_ok gen sha (snd (updateContract e i dto acc d))"
proof -
  consider "snd (updateContract e i dto acc d) = d"
    | c p where "find_contract i acc d = Some c" "destination_error dto c acc d = None"
      "patch_offer e dto c (offer_wallet dto c acc d) d = Inr p" "uc_walletId dto \<noteq> Some ''''"
      "snd (updateContract e i dto acc d) = update_contract i (patched e dto p) d"
  proof (cases "find_contract i acc d")
    case None
    then show thesis using that(1) by (simp add: updateContract_def)
  next
    case (Some c)
    show thesis
    proof (cases "ct_serasaStatus c \<notin> set EDITABLE_PROVIDER_STATUSES \<or>
        or_opt (transition_error dto c) (destination_error dto c acc d) \<noteq> None \<or> uc_walletId dto = Some ''''")
      case True
      then have "snd (updateContract e i dto acc d) = d"
        by (auto simp: updateContract_def Some Let_def split: option.split sum.split prod.split)
      then show thesis using that(1) by blast
    next
      case False
      then have de: "destination_error dto c acc d = None" "uc_walletId dto \<noteq> Some ''''"
        by (cases "transition_error dto c"; simp)+
      show thesis
      proof (cases "patch_offer e dto c (offer_wallet dto c acc d) d")
        case (Inl err)
        then have "snd (updateContract e i dto acc d) = d"
          using False Some by (simp add: updateContract_def offer_wallet_def)
        then show thesis using that(1) by blast
      next
        case (Inr p)
        then have "snd (updateContract e i dto acc d) = update_contract i (patched e dto p) d"
          using False Some
          by (cases p) (simp add: updateContract_def offer_wallet_def patched_def [abs_def])
        with Some de Inr that(2) show thesis by blast
      qed
    qed
  qed
  then show ?thesis
  proof cases
    case 1
    then show ?thesis using assms by simp
  next
    case (2 c p)
    have c: "c \<in> set (contracts d)" "ct_id c = i" using find_contractD [OF 2(1)] by simp_all
    then have "contract_wf sha c" using assms by (simp add: book_ok_def list_all_iff)
    then have off: "stored_offer (snd p) = snd p"
      using patch_offer_stored [OF 2(3)] by (simp add: contract_wf_def)
    have ids: "distinct (map ct_id (contracts d))" using assms by (simp add: book_ok_def contracts_ok_def)
    have "book_ok gen sha (update_contract i (patched e dto p) d)"
      unfolding update_contract_def
    proof (rule book_ok_update [OF assms])
      fix x assume x: "x \<in> set (contracts d)" "ct_id x = i"
      show "contract_wf sha (patched e dto p x)" if "contract_wf sha x"
        using that off by (auto simp: contract_wf_def patched_def patch_row_def Let_def split: option.split)
      have "x = c" using ids x c by (intro same_key [of ct_id]) simp_all
      show "ct_walletId (patched e dto p x) \<in> wl_id ` set (wallets d)"
        if w: "ct_walletId x \<in> wl_id ` set (wallets d)"
      proof (cases "uc_walletId dto")
        case None
        then show ?thesis using w by (simp add: patched_def patch_row_def Let_def)
      next
        case (Some j)
        then have "ct_walletId (patched e dto p x) = j" by (simp add: patched_def patch_row_def Let_def)
        moreover have "j = ct_walletId x \<or> (\<exists>t. find_wallet j acc d = Some t)"
          using 2(2,4) Some \<open>x = c\<close> by (auto simp: destination_error_def split: option.splits if_splits)
        ultimately show ?thesis
          using w find_wallet_in by metis
      qed
    qed (simp_all add: patched_def patch_row_def Let_def)
    with 2(5) show ?thesis by simp
  qed
qed
lemma created_row_wf:
  "ce_sha e = sha \<Longrightarrow> contract_wf sha (new_contract_row g (upsert_create e dto acc w cr) d)"
  by (simp add: contract_wf_def new_contract_row_def upsert_create_def fresh_contract_def document_of_def)

lemma upsert_row_wf:
  "ce_sha e = sha \<Longrightarrow> contract_wf sha c \<Longrightarrow> contract_wf sha (upsert_update e dto w cr c)"
  by (simp add: contract_wf_def upsert_update_def upsert_row_def document_of_def)

lemma upsert_created_book:
  assumes "book_ok gen sha d" and "inj gen" and "ce_gen e = gen" and "ce_sha e = sha"
    and "upsert_ready e dto acc w cr d"
    and "create_contract (ce_gen e) (upsert_create e dto acc w cr) d = Some (c, d')"
  shows "book_ok gen sha d'"
proof -
  note fr = create_contract_frame [OF assms(6)]
  have ok: "contracts_ok gen d" using assms(1) by (simp add: book_ok_def)
  have wf: "contract_wf sha c" unfolding fr(1) using assms(4) by (rule created_row_wf)
  have "ct_walletId c = cc_walletId dto"
    by (simp add: fr(1) new_contract_row_def upsert_create_def fresh_contract_def)
  then have "ct_walletId c \<in> wl_id ` set (wallets d)"
    using assms(5) find_wallet_in by (auto simp: upsert_ready_def)
  moreover have "contracts_ok gen d'"
    using contracts_ok_create [OF ok assms(2)] assms(3,6) by simp
  moreover have "rules_ok gen d'"
    by (rule rules_ok_frame [of gen d]) (use assms(1) in \<open>simp_all add: book_ok_def fr(2)\<close>)
  ultimately show ?thesis
    using assms(1) wf by (simp add: book_ok_def fr(2))
qed

lemma createOrUpdate_book:
  assumes "book_ok gen sha d" and "inj gen" and "ce_gen e = gen" and "ce_sha e = sha"
  shows "book_ok gen sha (snd (createOrUpdate e dto acc d))"
proof (cases "\<exists>w cr. upsert_ready e dto acc w cr d")
  case False
  then have "snd (createOrUpdate e dto acc d) = d"
    by (auto simp: createOrUpdate_def upsert_ready_def Let_def split: option.split)
  then show ?thesis using assms(1) by simp
next
  case True
  then obtain w cr where ready: "upsert_ready e dto acc w cr d" by blast
  have upd: "book_ok gen sha (update_contract i (upsert_update e dto w cr) d)" for i
    unfolding update_contract_def
  proof (rule book_ok_update [OF assms(1)])
    show "contract_wf sha (upsert_update e dto w cr c)" if "contract_wf sha c" for c
      using assms(4) that by (rule upsert_row_wf)
  qed (simp_all add: upsert_update_def upsert_row_def)
  show ?thesis
    using assms(1) upd upsert_created_book [OF assms ready]
    by (auto simp: createOrUpdate_ready [OF ready] split: list.split option.split)
qed

lemma recalculateOffer_book:
  assumes "book_ok gen sha d"
  shows "book_ok gen sha (snd (recalculateOffer e i acc d))"
proof -
  have "book_ok gen sha (update_contract i (\<lambda>r. r\<lparr>ct_agingDays := a, ct_offer := stored_offer s\<rparr>) d)" for a s
    unfolding update_contract_def by (rule book_ok_update [OF assms]) (simp_all add: contract_wf_def)
  with assms show ?thesis
    by (simp add: recalculateOffer_def Let_def split: option.split)
qed

lemma softDeleteContract_book:
  assumes "book_ok gen sha d"
  shows "book_ok gen sha (snd (softDeleteContract e i acc d))"
proof -
  have "book_ok gen sha (update_contract i (\<lambda>r. r\<lparr>ct_deletedAt := Some (ce_now e)\<rparr>) d)"
    unfolding update_contract_def by (rule book_ok_update [OF assms]) (simp_all add: contract_wf_def)
  with assms show ?thesis by (simp add: softDeleteContract_def split: option.split)
qed

lemma bulkTransfer_book:
  assumes "book_ok gen sha d"
  shows "book_ok gen sha (snd (bulkTransfer dto acc d))"
proof (cases "fst (bulkTransfer dto acc d)")
  case (Inl err)
  then have "snd (bulkTransfer dto acc d) = d"
    by (auto simp: bulkTransfer_def Let_def split: option.splits if_splits)
  then show ?thesis using assms by simp
next
  case (Inr mn)
  then have run: "bulkTransfer dto acc d = (Inr (fst mn, snd mn), snd (bulkTransfer dto acc d))"
    by (simp add: prod_eq_iff)
  have "bt_destinationWalletId dto \<in> wl_id ` set (wallets d)"
    using bulkTransfer_moves [OF run] find_wallet_in by blast
  then have "book_ok gen sha (d\<lparr>contracts := update_where (transferable dto acc)
      (\<lambda>c. c\<lparr>ct_walletId := bt_destinationWalletId dto\<rparr>) (contracts d)\<rparr>)"
    by (intro book_ok_update [OF assms]) (simp_all add: contract_wf_def)
  moreover have "snd (bulkTransfer dto acc d) = d\<lparr>contracts := update_where (transferable dto acc)
      (\<lambda>c. c\<lparr>ct_walletId := bt_destinationWalletId dto\<rparr>) (contracts d)\<rparr>"
    using run by (auto simp: bulkTransfer_def Let_def split: option.splits if_splits)
  ultimately show ?thesis by simp
qed

lemma tags_book:
  assumes "book_ok gen sha d" and "contracts d' = contracts d" and "wallets d' = wallets d"
    and "creditors d' = creditors d" and "nextId d \<le> nextId d'"
  shows "book_ok gen sha d'"
  using rules_ok_frame [OF _ assms(3-5)] assms
  by (intro book_ok_wallets [OF assms(1)]) (simp_all add: book_ok_def)

lemma add_tag_rows_frame:
  "contracts (fold (add_tag_row gen i) ts d) = contracts d \<and> wallets (fold (add_tag_row gen i) ts d) = wallets d \<and>
   creditors (fold (add_tag_row gen i) ts d) = creditors d \<and> nextId d \<le> nextId (fold (add_tag_row gen i) ts d)"
proof (induction ts arbitrary: d)
  case (Cons t ts)
  show ?case using Cons [of "add_tag_row gen i t d"] by (auto simp: add_tag_row_def)
qed simp

lemma addTags_book:
  assumes "book_ok gen sha d"
  shows "book_ok gen sha (snd (addTags gen' i ts acc d))"
  using assms add_tag_rows_frame [of gen' i "normalizeTags ts" d]
  by (auto simp: addTags_def Let_def intro: tags_book split: option.split)

lemma removeTags_book:
  assumes "book_ok gen sha d"
  shows "book_ok gen sha (snd (removeTags i ts acc d))"
  using assms by (auto simp: removeTags_def intro: tags_book split: option.split)

lemma recalculateOffers_book:
  assumes "book_ok gen sha d"
  shows "book_ok gen sha (snd (recalculateOffers i acc d))"
proof -
  have "book_ok gen sha (d\<lparr>contracts := update_where (repriceable i) (repriced w cr) (contracts d)\<rparr>)" for w cr
    by (rule book_ok_update [OF assms]) (simp_all add: repriced_def contract_wf_def split: option.split)
  with assms show ?thesis by (simp add: recalculateOffers_def Let_def split: option.split)
qed

lemma refresh_wallets_book:
  "book_ok gen sha d \<Longrightarrow> book_ok gen sha (snd (refresh_wallets ws d))"
proof (induction ws arbitrary: d)
  case (Cons w ws)
  have "book_ok gen sha (snd (recalculateOffers (wl_id w) (wl_accountId w) d))"
    using Cons.prems by (rule recalculateOffers_book)
  with Cons.IH show ?case by (auto split: prod.split sum.split)
qed simp

lemma refreshAgingAndOffers_book:
  assumes "book_ok gen sha d"
  shows "book_ok gen sha (snd (refreshAgingAndOffers sql_day today d))"
proof -
  have "book_ok gen sha (refresh_aging sql_day today d)"
    unfolding refresh_aging_def by (rule book_ok_update [OF assms]) (simp_all add: contract_wf_def)
  from refresh_wallets_book [OF this, of "filter (\<lambda>w. wl_deletedAt w = None) (wallets d)"] show ?thesis
    by (auto simp: refreshAgingAndOffers_def Let_def split: prod.split sum.split)
qed

lemma softDeleteWallet_book:
  assumes "book_ok gen sha d"
  shows "book_ok gen sha (snd (softDeleteWallet now i acc d))"
proof -
  let ?d = "d\<lparr>contracts := update_where (\<lambda>c. ct_walletId c = i \<and> ct_accountId c = acc \<and> ct_deletedAt c = None)
      (\<lambda>c. c\<lparr>ct_deletedAt := Some now\<rparr>) (contracts d)\<rparr>"
  let ?d' = "update_wallet i (\<lambda>r. r\<lparr>wl_deletedAt := Some now\<rparr>) ?d"
  have book: "book_ok gen sha ?d"
    by (rule book_ok_update [OF assms]) (simp_all add: contract_wf_def)
  have ids: "map wl_id (wallets ?d') = map wl_id (wallets ?d)"
    unfolding update_wallet_def by simp (rule map_update_where, simp)
  have "rules_ok gen ?d'"
    unfolding update_wallet_def using book by (intro rules_ok_update_wallet) (simp_all add: book_ok_def)
  then have "book_ok gen sha ?d'"
    using arg_cong [OF ids, of set]
    by (intro book_ok_wallets [OF book]) (simp_all add: update_wallet_def)
  with assms show ?thesis by (simp add: softDeleteWallet_def split: option.split)
qed

lemma registers_book:
  \<comment> \<open>an operation that leaves the contracts alone and drops no wallet\<close>
  assumes "book_ok gen sha d" and "rules_ok gen d'" and "contracts d' = contracts d"
    and "nextId d \<le> nextId d'" and "\<exists>ws. map wl_id (wallets d') = map wl_id (wallets d) @ ws"
  shows "book_ok gen sha d'"
proof (rule book_ok_wallets [OF assms(1-4)])
  obtain ws where "map wl_id (wallets d') = map wl_id (wallets d) @ ws" using assms(5) by blast
  from arg_cong [OF this, of set] show "wl_id ` set (wallets d) \<subseteq> wl_id ` set (wallets d')" by auto
qed

lemma same_wallet_ids:
  "(\<And>w. wl_id (f w) = wl_id w) \<Longrightarrow> \<exists>ws. map wl_id (update_where P f xs) = map wl_id xs @ ws"
  by (simp add: map_update_where)

text \<open>One request or job on the commercial tables.\<close>

inductive commerce_step :: "(nat \<Rightarrow> string) \<Rightarrow> (string \<Rightarrow> string) \<Rightarrow> database \<Rightarrow> database \<Rightarrow> bool"
  for gen sha where
  upsert: "ce_gen e = gen \<Longrightarrow> ce_sha e = sha \<Longrightarrow>
    commerce_step gen sha d (snd (createOrUpdate e dto acc d))"
| edit: "commerce_step gen sha d (snd (updateContract e i patch acc d))"
| reprice: "commerce_step gen sha d (snd (recalculateOffer e i acc d))"
| remove: "commerce_step gen sha d (snd (softDeleteContract e i acc d))"
| transfer: "commerce_step gen sha d (snd (bulkTransfer move acc d))"
| tag: "commerce_step gen sha d (snd (addTags gen i ts acc d))"
| untag: "commerce_step gen sha d (snd (removeTags i ts acc d))"
| new_wallet: "create_wallet_valid w \<Longrightarrow> commerce_step gen sha d (snd (createWallet gen i w acc d))"
| edit_wallet: "update_wallet_valid u \<Longrightarrow> commerce_step gen sha d (snd (updateWallet i u acc d))"
| remove_wallet: "commerce_step gen sha d (snd (softDeleteWallet now i acc d))"
| reprice_wallet: "commerce_step gen sha d (snd (recalculateOffers i acc d))"
| weekly: "commerce_step gen sha d (snd (refreshAgingAndOffers sql_day today d))"
| new_creditor: "commerce_step gen sha d (snd (createCreditor gen n acc d))"
| edit_creditor: "commerce_step gen sha d (snd (updateCreditor i m acc d))"
| remove_creditor: "commerce_step gen sha d (snd (softDeleteCreditor now i acc d))"
| set_rules: "commercial_rules_valid r \<Longrightarrow> commerce_step gen sha d (snd (upsertCommercialRules i r acc d))"

lemma commerce_step_book:
  assumes "commerce_step gen sha d d'" and "book_ok gen sha d" and "inj gen"
  shows "book_ok gen sha d'"
proof -
  have rules: "rules_ok gen d" using assms(2) by (simp add: book_ok_def)
  from assms(1) show ?thesis
  proof cases
    case (new_wallet w i acc)
    have "rules_ok gen d'" unfolding new_wallet(1) using rules assms(3) new_wallet(2) by (rule createWallet_rules)
    then show ?thesis
      by (intro registers_book [OF assms(2)])
        (auto simp: new_wallet(1) createWallet_def add_wallet_def Let_def split: option.split)
  next
    case (edit_wallet u i acc)
    have "rules_ok gen d'" unfolding edit_wallet(1) using rules edit_wallet(2) by (rule updateWallet_rules)
    then show ?thesis
      by (intro registers_book [OF assms(2)])
        (auto simp: edit_wallet(1) updateWallet_def update_wallet_def patch_wallet_def Let_def
          intro: same_wallet_ids split: option.split)
  next
    case (new_creditor n acc)
    have "rules_ok gen d'" unfolding new_creditor using rules assms(3) by (rule createCreditor_rules)
    then show ?thesis
      by (intro registers_book [OF assms(2)])
        (auto simp: new_creditor createCreditor_def add_wallet_def Let_def split: option.split)
  next
    case (edit_creditor i m acc)
    have "rules_ok gen d'" unfolding edit_creditor using rules by (rule updateCreditor_rules)
    then show ?thesis
      by (intro registers_book [OF assms(2)]) (auto simp: edit_creditor updateCreditor_def split: option.split)
  next
    case (remove_creditor now i acc)
    have "rules_ok gen d'" unfolding remove_creditor using rules by (rule softDeleteCreditor_rules)
    then show ?thesis
      by (intro registers_book [OF assms(2)])
        (auto simp: remove_creditor softDeleteCreditor_def intro: same_wallet_ids split: option.split)
  next
    case (set_rules r i acc)
    have "rules_ok gen d'" unfolding set_rules(1) using rules set_rules(2) by (rule upsertCommercialRules_rules)
    then show ?thesis
      by (intro registers_book [OF assms(2)])
        (auto simp: set_rules(1) upsertCommercialRules_def intro: same_wallet_ids split: option.split)
  qed (simp_all add: assms(2,3) createOrUpdate_book updateContract_book recalculateOffer_book softDeleteContract_book
      bulkTransfer_book addTags_book removeTags_book softDeleteWallet_book recalculateOffers_book
      refreshAgingAndOffers_book)
qed

text \<open>
  C24. Whatever sequence of requests and weekly jobs runs, contracts stay well-formed rows of existing
  wallets with unique keys, and no live wallet offers more than its creditor allows.
\<close>

lemma commerce_invariant:
  assumes "(commerce_step gen sha)\<^sup>*\<^sup>* d d'" and "book_ok gen sha d" and "inj gen"
  shows "book_ok gen sha d'"
  using assms by (induction rule: rtranclp_induct) (auto intro: commerce_step_book)

text \<open>
  Under sound rules the strategy of a wallet never has to be cut back to the ceiling.
\<close>

lemma strategy_within_ceiling:
  assumes "creditor_rules cr" and "wallet_rules cr w" and "strategy_band w aging = Some b"
  shows "\<exists>c. ceiling_band cr aging = Some c \<and> under_ceiling b c \<and>
    strategy_discount w aging \<le> maximum_discount w cr aging"
proof -
  have b: "b \<in> set (wl_discountBands w)" "in_band (wb_minAgingDays b) (wb_maxAgingDays b) aging"
    using assms(3) unfolding strategy_band_def by (auto dest: find_SomeD)
  then obtain c where c: "c \<in> set (cr_discountBands cr)" "under_ceiling b c"
    using assms(2) by (auto simp: wallet_rules_def list_all_iff list_ex_iff)
  let ?P = "\<lambda>x. in_band (cb_minAgingDays x) (cb_maxAgingDays x) aging"
  have pc: "?P c" using c(2) b(2) by (simp add: under_ceiling_def same_band_def)
  have one: "length (filter ?P (cr_discountBands cr)) \<le> 1"
    using assms(1) by (simp add: creditor_rules_def disjoint_bands_def band_count_def count_where_def)
  moreover have "c \<in> set (filter ?P (cr_discountBands cr))" using c(1) pc by simp
  ultimately have "filter ?P (cr_discountBands cr) = [c]"
    by (cases "filter ?P (cr_discountBands cr)") (auto simp: le_Suc_eq)
  then have cb: "ceiling_band cr aging = Some c"
    unfolding ceiling_band_def find_hd_filter filter_sort_single [OF one] by simp
  have "strategy_discount w aging \<le> maximum_discount w cr aging"
    using c(2)
    by (auto simp: strategy_discount_def maximum_discount_def assms(3) cb strategy_percent_def ceiling_percent_def
        under_ceiling_def at_most_def split: option.splits)
  with cb c(2) show ?thesis by blast
qed

section \<open>Totals\<close>

lemma sum_groups:
  fixes g :: "'r \<Rightarrow> 'a :: comm_monoid_add"
  shows "sum_list (map (\<lambda>k. sum_list (map g (filter (\<lambda>r. f r = k) xs))) (remdups (map f xs)))
    = sum_list (map g xs)"
proof -
  have groups: "(\<Sum>k\<in>K. sum_list (map g (filter (\<lambda>r. f r = k) ys))) = sum_list (map g ys)"
    if "finite K" "f ` set ys \<subseteq> K" for K ys
    using that(2)
  proof (induction ys)
    case (Cons y ys)
    have "sum_list (map g (filter (\<lambda>r. f r = k) (y # ys)))
        = (if f y = k then g y else 0) + sum_list (map g (filter (\<lambda>r. f r = k) ys))" for k
      by simp
    then have "(\<Sum>k\<in>K. sum_list (map g (filter (\<lambda>r. f r = k) (y # ys))))
        = (\<Sum>k\<in>K. if f y = k then g y else 0) + (\<Sum>k\<in>K. sum_list (map g (filter (\<lambda>r. f r = k) ys)))"
      by (simp only: sum.distrib)
    also have "(\<Sum>k\<in>K. if f y = k then g y else 0) = g y"
      using that(1) Cons.prems by simp
    finally show ?case using Cons by simp
  qed simp
  have "sum_list (map h (remdups ks)) = (\<Sum>k\<in>set ks. h k)" for h :: "'b \<Rightarrow> 'a" and ks
    by (simp add: sum_list_distinct_conv_sum_set)
  then show ?thesis using groups [of "f ` set xs" xs] by simp
qed

lemma group_counts_total: "sum_list (map snd (group_counts f rows)) = length rows"
  using sum_groups [of "\<lambda>_. 1 :: nat" f rows]
  by (simp add: group_counts_def comp_def count_where_def sum_list_triv)

lemma sum_of_split: "sum_of f P rows + sum_of f (\<lambda>r. \<not> P r) rows = sum_of f (\<lambda>_. True) rows"
  unfolding sum_of_def by (induction rows) auto

text \<open>
  The figures of the summary fit together: the groups by payment status add up to the number of
  contracts and to the total value, those by provider status to the live contracts, and forecast and
  realised shares and commissions split the same total.
\<close>

lemma summary_totals:
  fixes d :: database and win_from win_to :: int and i :: string
  defines "s \<equiv> getWalletSummary win_from win_to i d"
    and "rows \<equiv> filter (\<lambda>c. ct_status c = CT_ACTIVE) (wallet_rows i d)"
  shows "sum_list (map (fst \<circ> snd) (sm_paymentStatusTotals s)) = sm_totalContracts s \<and>
    sum_list (map (snd \<circ> snd) (sm_paymentStatusTotals s)) = sm_totalValue s \<and>
    sum_list (map snd (sm_serasaStatusTotals s)) = length (wallet_rows i d) \<and>
    sm_repasseForecastValue s + sm_repasseRealizedValue s
      = sum_of (\<lambda>c. or_else (of_repasseValue (ct_offer c)) (ct_updatedValue c)) (\<lambda>_. True) rows \<and>
    sm_commissionForecastValue s + sm_commissionRealizedValue s
      = sum_of (\<lambda>c. or_else (of_commissionValue (ct_offer c)) 0) (\<lambda>_. True) rows"
proof -
  have swap: "sum_of f (\<lambda>c. ct_paymentStatus c \<noteq> PS_PAID) rows + sum_of f (\<lambda>c. ct_paymentStatus c = PS_PAID) rows
      = sum_of f (\<lambda>_. True) rows" for f
    using sum_of_split [of f "\<lambda>c. ct_paymentStatus c = PS_PAID" rows] by (simp add: add.commute)
  have counts: "map ((fst \<circ> snd) \<circ> (\<lambda>(s, n). (s, n, sum_of ct_updatedValue (\<lambda>c. ct_paymentStatus c = s) rows)))
      (group_counts ct_paymentStatus rows) = map snd (group_counts ct_paymentStatus rows)"
    by (intro map_cong) auto
  have amounts: "map ((snd \<circ> snd) \<circ> (\<lambda>(s, n). (s, n, sum_of ct_updatedValue (\<lambda>c. ct_paymentStatus c = s) rows)))
      (group_counts ct_paymentStatus rows)
      = map (\<lambda>k. sum_list (map ct_updatedValue (filter (\<lambda>r. ct_paymentStatus r = k) rows)))
          (remdups (map ct_paymentStatus rows))"
    by (simp add: group_counts_def sum_of_def)
  show ?thesis
    unfolding s_def getWalletSummary_def Let_def rows_def [symmetric]
    by (simp add: counts amounts group_counts_total sum_groups swap sum_of_def [of _ "\<lambda>_. True"])
qed

section \<open>Lists and the cache\<close>

text \<open>After an invalidation a list is computed from the database again, in every cache state.\<close>

lemma list_after_invalidation:
  assumes "\<And>q scopes. has_infix acc (key acc q scopes)"
  shows "fst (listWallets key order q scopes acc d (invalidateListCache acc cache))
    = wallets_page order q scopes acc d"
  using assms by (simp add: listWallets_def invalidateListCache_def Let_def)

section \<open>Creditors\<close>

text \<open>
  A deleted creditor keeps its CNPJ: the check of the service does not see it, the unique index does,
  and registering the company again ends in an internal error.
\<close>

lemma deleted_cnpj_blocks:
  assumes "rules_ok gen d" and "inj gen" and "cd_cnpj dto = Some cnpj"
    and "createCreditor gen dto acc d = (Inr cr, d1)"
    and "softDeleteCreditor now (cr_id cr) acc d1 = (Inr (), d2)"
  shows "createCreditor gen dto acc' d2 = (Inl (Internal ''P2002''), d2)"
proof -
  have ok1: "rules_ok gen d1"
    using createCreditor_rules [OF assms(1,2), of dto acc] assms(4) by simp
  have nt: "\<not> cnpj_taken (Some cnpj) None d"
    using assms(3,4) by (auto simp: createCreditor_def split: if_splits)
  have cr: "cr \<in> set (creditors d1)" "cr_cnpj cr = Some cnpj"
    using assms(3,4) by (auto simp: createCreditor_def add_wallet_def new_creditor_def Let_def split: if_splits)
  have others: "cr_cnpj c \<noteq> Some cnpj" if "c \<in> set (creditors d1)" "cr_id c \<noteq> cr_id cr" for c
    using that assms(3,4) nt
    by (auto simp: createCreditor_def add_wallet_def new_creditor_def Let_def cnpj_taken_def find_None_iff
        split: if_splits)
  have d2: "creditors d2 = update_where (\<lambda>c. cr_id c = cr_id cr) (\<lambda>c. c\<lparr>cr_deletedAt := Some now\<rparr>) (creditors d1)"
    using assms(5) by (auto simp: softDeleteCreditor_def split: option.splits if_splits)
  have "\<not> cnpj_in_use cnpj None d2"
    using others by (auto simp: cnpj_in_use_def d2 find_None_iff in_update_where)
  moreover have "cnpj_taken (Some cnpj) None d2"
    using cr by (force simp: cnpj_taken_def d2 find_None_iff in_update_where)
  ultimately show ?thesis by (simp add: createCreditor_def assms(3))
qed

section \<open>A sample\<close>

text \<open>A creditor registered from scratch, with its default wallet and one contract in it.\<close>

definition empty_db :: database where
  "empty_db = sample_db\<lparr>wallets := [], creditors := [], contracts := []\<rparr>"

definition sample_new_creditor :: create_creditor_dto where
  "sample_new_creditor = \<lparr>cd_name = ''Credor'', cd_tradeName = None, cd_cnpj = Some ''11222333000181''\<rparr>"

definition creditor_db :: database where
  "creditor_db = snd (createCreditor sample_gen sample_new_creditor ''a1'' empty_db)"

definition registry_db :: database where
  "registry_db = snd (createOrUpdate sample_contract_env (sample_create\<lparr>cc_walletId := ''id-1''\<rparr>) ''a1'' creditor_db)"

lemma sample_ids: "sample_gen 0 = ''id-0''" "sample_gen (Suc 0) = ''id-1''"
  by (simp_all add: sample_gen_def show_nat.simps js_simps)

lemma empty_book: "book_ok sample_gen (\<lambda>s. s) empty_db"
  by (simp add: book_ok_def contracts_ok_def rules_ok_def empty_db_def)

lemma creditor_step: "commerce_step sample_gen (\<lambda>s. s) empty_db creditor_db"
  unfolding creditor_db_def by (rule commerce_step.new_creditor)

lemma contract_step: "commerce_step sample_gen (\<lambda>s. s) creditor_db registry_db"
  unfolding registry_db_def by (rule commerce_step.upsert) (simp_all add: sample_contract_env_def)

lemma registry_book: "book_ok sample_gen (\<lambda>s. s) registry_db"
  using commerce_step_book [OF contract_step commerce_step_book [OF creditor_step empty_book inj_sample_gen]
    inj_sample_gen] .

lemma commerce_invariant_witness: "book_ok sample_gen (\<lambda>s. s) registry_db"
proof (rule commerce_invariant [OF _ empty_book inj_sample_gen])
  show "(commerce_step sample_gen (\<lambda>s. s))\<^sup>*\<^sup>* empty_db registry_db"
    using creditor_step contract_step by (meson converse_rtranclp_into_rtranclp r_into_rtranclp)
qed

lemma creditor_db_rows:
  "wallets creditor_db = [default_wallet ''id-1'' ''a1'' ''id-0'']"
  "creditors creditor_db = [new_creditor sample_gen sample_new_creditor ''a1'' empty_db]"
  "contracts creditor_db = []"
  by (simp_all add: creditor_db_def createCreditor_def sample_new_creditor_def cnpj_in_use_def cnpj_taken_def
      empty_db_def add_wallet_def new_creditor_def sample_db_def sample_ids Let_def)

lemma registry_rows:
  "wallets registry_db = wallets creditor_db" "creditors registry_db = creditors creditor_db"
  "\<exists>c. contracts registry_db = [c] \<and> ct_walletId c = ''id-1'' \<and> ct_updatedValue c = 120 \<and>
    ct_accountId c = ''a1'' \<and> repriceable ''id-1'' c \<and> ct_agingDays c = 0 \<and> ct_dueDate c = Some 0"
proof -
  have d: "dec2 120 = 120" by code_simp
  show "wallets registry_db = wallets creditor_db" "creditors registry_db = creditors creditor_db"
    "\<exists>c. contracts registry_db = [c] \<and> ct_walletId c = ''id-1'' \<and> ct_updatedValue c = 120 \<and>
      ct_accountId c = ''a1'' \<and> repriceable ''id-1'' c \<and> ct_agingDays c = 0 \<and> ct_dueDate c = Some 0"
    by (simp_all add: registry_db_def createOrUpdate_def find_wallet_def creditor_db_rows default_wallet_def
        creditor_of_wallet_def new_creditor_def empty_db_def sample_db_def sample_ids sample_create_def
        sample_contract_env_def create_contract_def new_contract_row_def fresh_contract_def repriceable_def
        calculateAgingDays_def day_ms_def Let_def d)
qed

lemma registry_values: "values_nonneg registry_db"
  using registry_rows(3) by (auto simp: values_nonneg_def)

text \<open>The debt of the registry is 120, and its smallest installment a cent.\<close>

lemma registry_fits:
  assumes "fits_in registry_db (default_wallet ''id-1'' ''a1'' ''id-0'') c \<or> \<not> repriceable ''id-1'' c"
  shows "all_fit registry_db [c]"
  using assms by (auto simp: all_fit_def registry_rows(1) creditor_db_rows default_wallet_def fits_in_def)

lemma default_offer_fits:
  assumes "ct_updatedValue c = 120"
  shows "fits_in registry_db (default_wallet ''id-1'' ''a1'' ''id-0'') c"
proof -
  let ?w = "default_wallet ''id-1'' ''a1'' ''id-0''"
  obtain cr where cr: "creditor_of_wallet ?w registry_db = Some cr" "cr_discountBands cr = []"
    by (simp add: creditor_of_wallet_def registry_rows(2) creditor_db_rows default_wallet_def new_creditor_def
        empty_db_def sample_db_def sample_ids)
  show ?thesis
    using assms cr by (auto simp: fits_in_def offer_fits_def installments_fit_def recalculated_offer_def
        priced_offer_def maximum_discount_def strategy_discount_def ceiling_band_def strategy_band_def
        default_wallet_def net_of_def js_round2_def js_round_def)
qed

lemma weekly_refresh_witness:
  "fst (refreshAgingAndOffers (\<lambda>t. t div day_ms) 30 registry_db) = Inr (1, 1) \<and>
   map ct_agingDays (contracts (snd (refreshAgingAndOffers (\<lambda>t. t div day_ms) 30 registry_db))) = [30]"
proof -
  have rules: "rules_ok sample_gen registry_db" using registry_book by (simp add: book_ok_def)
  obtain c where c: "contracts registry_db = [c]" "repriceable ''id-1'' c" "ct_dueDate c = Some 0"
    "ct_updatedValue c = 120"
    using registry_rows(3) by blast
  have live: "ct_deletedAt c = None" using c(2) by (simp add: repriceable_def)
  let ?c = "reaged (\<lambda>t. t div day_ms) 30 c"
  have "ct_updatedValue ?c = 120" using c(4) by (simp add: reaged_def)
  then have "all_fit registry_db [?c]" using registry_fits default_offer_fits by blast
  moreover have "ct_agingDays (refreshed registry_db x) = ct_agingDays x" for x
    by (auto simp: refreshed_def reoffered_def split: option.split)
  ultimately show ?thesis
    using weekly_refresh [OF rules registry_values refl, of "\<lambda>t. t div day_ms" 30]
    by (simp add: c live reaged_def registry_rows(1) creditor_db_rows default_wallet_def count_where_def)
qed


lemma deleted_cnpj_blocks_witness:
  "fst (createCreditor sample_gen sample_new_creditor ''a2'' (snd (softDeleteCreditor 5 ''id-0'' ''a1'' creditor_db)))
    = Inl (Internal ''P2002'')"
proof -
  have e: "rules_ok sample_gen empty_db" using empty_book by (simp add: book_ok_def)
  have n: "cd_cnpj sample_new_creditor = Some ''11222333000181''" by (simp add: sample_new_creditor_def)
  define cr where "cr = new_creditor sample_gen sample_new_creditor ''a1'' empty_db"
  have run: "createCreditor sample_gen sample_new_creditor ''a1'' empty_db = (Inr cr, creditor_db)"
    by (simp add: creditor_db_def createCreditor_def sample_new_creditor_def cnpj_in_use_def cnpj_taken_def
        empty_db_def cr_def Let_def)
  have i: "cr_id cr = ''id-0''" by (simp add: cr_def new_creditor_def empty_db_def sample_db_def sample_ids)
  have del: "softDeleteCreditor 5 (cr_id cr) ''a1'' creditor_db = (Inr (), snd (softDeleteCreditor 5 ''id-0'' ''a1'' creditor_db))"
    by (simp add: i softDeleteCreditor_def find_creditor_def creditor_db_rows count_where_def new_creditor_def
        empty_db_def sample_db_def sample_ids)
  show ?thesis
    using deleted_cnpj_blocks [OF e inj_sample_gen n run del, of "''a2''"] by simp
qed

lemma list_after_invalidation_witness:
  "fst (listWallets (\<lambda>acc _ _. acc) (\<lambda>_ ws. ws)
      \<lparr>wq_page = 1, wq_limit = 10, wq_search = None, wq_creditorId = None, wq_active = None, wq_sort = (''name'', True)\<rparr>
      None ''a1'' registry_db (invalidateListCache ''a1'' (\<lambda>_. Some \<lparr>wp_data = [], wp_total = 7, wp_totalPages = 1\<rparr>)))
    = wallets_page (\<lambda>_ ws. ws)
      \<lparr>wq_page = 1, wq_limit = 10, wq_search = None, wq_creditorId = None, wq_active = None, wq_sort = (''name'', True)\<rparr>
      None ''a1'' registry_db"
  by (rule list_after_invalidation) (simp add: starts_with_def has_infix.simps)

end
