(* ===== verification/Auth.thy ===== *)
theory Auth
  imports Wallets "HOL-Library.AList"
begin

text \<open>
  \<open>auth/auth.service.ts\<close>, the services under \<open>auth/services\<close> and the login handler of
  \<open>auth/auth.controller.ts\<close>: sessions with rotating refresh tokens, activation of invited users,
  change and reset of passwords, and the limit on login attempts. Users are rows of the database; their
  scopes, sessions and invites stand beside it, with the keys that Redis holds (a value and the instant
  its time to live ends) and the messages that were sent.

  Random tokens, SHA-256, Argon2, the signature of a JWT and the mail server come from the environment.
\<close>

record auth_session =
  se_id :: string
  se_userId :: string
  se_tokenFamily :: string
  se_refreshTokenHash :: string
  se_userAgent :: "string option"
  se_ipAddress :: "string option"
  se_isRevoked :: bool
  se_createdAt :: int
  se_expiresAt :: int
  se_lastUsedAt :: int

datatype invite_status = IN_PENDING | IN_ACCEPTED | IN_EXPIRED

record invite_row =
  in_id :: string
  in_userId :: string
  in_token :: string
  in_role :: role
  in_scopes :: "string list option"
  in_status :: invite_status
  in_expiresAt :: int

record auth_store =
  au_db :: database
  au_scopes :: "(string \<times> string) list"
  au_sessions :: "auth_session list"
  au_invites :: "invite_row list"
  au_resets :: "(string \<times> string \<times> int) list"
  au_attempts :: "(string \<times> nat \<times> int option) list"
  au_mail :: "(string \<times> string) list"

record claims =
  cl_sub :: string
  cl_accountId :: string
  cl_creditorId :: "string option"
  cl_role :: role
  cl_sessionId :: string
  cl_mustResetPassword :: bool

record auth_env =
  ae_now :: int
  ae_gen :: "nat \<Rightarrow> string"
  ae_token :: "nat \<Rightarrow> string"
  ae_sha :: "string \<Rightarrow> string"
  ae_hash :: "string \<Rightarrow> string"
  ae_verify :: "string \<Rightarrow> string \<Rightarrow> bool"
  ae_sign :: "claims \<Rightarrow> string"
  ae_mails :: "string \<Rightarrow> bool"
  ae_ttl :: "int \<Rightarrow> int"

section \<open>Rows\<close>

definition user_by_email :: "string \<Rightarrow> auth_store \<Rightarrow> user option" where
  "user_by_email m s = List.find (\<lambda>u. us_email u = m) (users (au_db s))"

definition user_by_id :: "string \<Rightarrow> auth_store \<Rightarrow> user option" where
  "user_by_id i s = List.find (\<lambda>u. us_id u = i) (users (au_db s))"

definition update_user :: "string \<Rightarrow> (user \<Rightarrow> user) \<Rightarrow> auth_store \<Rightarrow> auth_store" where
  "update_user i f s =
     s\<lparr>au_db := (au_db s)\<lparr>users := update_where (\<lambda>u. us_id u = i) f (users (au_db s))\<rparr>\<rparr>"

definition skip_ids :: "nat \<Rightarrow> auth_store \<Rightarrow> auth_store" where
  \<comment> \<open>identifiers and random tokens are drawn from the same counter\<close>
  "skip_ids n s = s\<lparr>au_db := (au_db s)\<lparr>nextId := nextId (au_db s) + n\<rparr>\<rparr>"

definition update_sessions :: "(auth_session \<Rightarrow> bool) \<Rightarrow> (auth_session \<Rightarrow> auth_session) \<Rightarrow> auth_store \<Rightarrow> auth_store" where
  "update_sessions P f s = s\<lparr>au_sessions := update_where P f (au_sessions s)\<rparr>"

definition has_password :: "user \<Rightarrow> bool" where
  "has_password u \<longleftrightarrow> text_or_null (us_passwordHash u) \<noteq> None"

section \<open>The session service\<close>

definition revoked :: "auth_session \<Rightarrow> auth_session" where
  "revoked x = x\<lparr>se_isRevoked := True\<rparr>"

definition findByRefreshTokenHash :: "string \<Rightarrow> auth_store \<Rightarrow> auth_session option" where
  "findByRefreshTokenHash h s = List.find (\<lambda>x. se_refreshTokenHash x = h) (au_sessions s)"

definition session_by_id :: "string \<Rightarrow> auth_store \<Rightarrow> auth_session option" where
  "session_by_id i s = List.find (\<lambda>x. se_id x = i) (au_sessions s)"

definition rotateToken :: "auth_env \<Rightarrow> string \<Rightarrow> string \<Rightarrow> auth_store \<Rightarrow> auth_store" where
  "rotateToken e i h =
     update_sessions (\<lambda>x. se_id x = i) (\<lambda>x. x\<lparr>se_refreshTokenHash := h, se_lastUsedAt := ae_now e\<rparr>)"

definition listActive :: "auth_env \<Rightarrow> (auth_session list \<Rightarrow> auth_session list) \<Rightarrow> string \<Rightarrow> auth_store \<Rightarrow> auth_session list" where
  "listActive e order uid s =
     order (filter (\<lambda>x. se_userId x = uid \<and> \<not> se_isRevoked x \<and> ae_now e < se_expiresAt x) (au_sessions s))"

definition revoke :: "string \<Rightarrow> auth_store \<Rightarrow> auth_store" where
  "revoke i = update_sessions (\<lambda>x. se_id x = i) revoked"

definition revokeAllExcept :: "string \<Rightarrow> string \<Rightarrow> auth_store \<Rightarrow> auth_store" where
  "revokeAllExcept uid i =
     update_sessions (\<lambda>x. se_userId x = uid \<and> se_id x \<noteq> i \<and> \<not> se_isRevoked x) revoked"

definition revokeByTokenFamily :: "string \<Rightarrow> auth_store \<Rightarrow> auth_store" where
  "revokeByTokenFamily fam = update_sessions (\<lambda>x. se_tokenFamily x = fam \<and> \<not> se_isRevoked x) revoked"

definition revokeAll :: "string \<Rightarrow> auth_store \<Rightarrow> auth_store" where
  "revokeAll uid = update_sessions (\<lambda>x. se_userId x = uid \<and> \<not> se_isRevoked x) revoked"

definition create_session ::
  "auth_env \<Rightarrow> string \<Rightarrow> string \<Rightarrow> string option \<Rightarrow> string option \<Rightarrow> int \<Rightarrow> auth_store \<Rightarrow> auth_session \<times> auth_store" where
  "create_session e uid h agent ip expires s =
     (let n = nextId (au_db s);
          x = \<lparr>se_id = ae_gen e n, se_userId = uid, se_tokenFamily = ae_gen e (Suc n), se_refreshTokenHash = h,
               se_userAgent = agent, se_ipAddress = ip, se_isRevoked = False, se_createdAt = ae_now e,
               se_expiresAt = expires, se_lastUsedAt = ae_now e\<rparr>
      in (x, skip_ids 2 (s\<lparr>au_sessions := au_sessions s @ [x]\<rparr>)))"

section \<open>Passwords and tokens\<close>

definition validateComplexity :: "string \<Rightarrow> string option" where
  "validateComplexity p =
     (if length p < 8 then Some ''Password must be at least 8 characters long''
      else if \<not> list_ex is_upper p then Some ''Password must contain at least one uppercase letter''
      else if \<not> list_ex is_lower p then Some ''Password must contain at least one lowercase letter''
      else if \<not> list_ex is_digit p then Some ''Password must contain at least one digit''
      else None)"

definition access_claims :: "user \<Rightarrow> string \<Rightarrow> claims" where
  "access_claims u i =
     \<lparr>cl_sub = us_id u, cl_accountId = us_accountId u, cl_creditorId = text_or_null (us_creditorId u),
      cl_role = us_role u, cl_sessionId = i, cl_mustResetPassword = us_mustResetPassword u\<rparr>"

definition generateRefreshToken :: "auth_env \<Rightarrow> auth_store \<Rightarrow> string \<times> auth_store" where
  "generateRefreshToken e s = (ae_token e (nextId (au_db s)), skip_ids 1 s)"

section \<open>Login, refresh, logout\<close>

definition INVALID_CREDENTIALS :: http_error where
  "INVALID_CREDENTIALS = Unauthorized ''Invalid email or password''"

definition INVALID_REFRESH_TOKEN :: http_error where
  "INVALID_REFRESH_TOKEN = Unauthorized ''Invalid or expired refresh token''"

definition can_login :: "auth_env \<Rightarrow> string \<Rightarrow> user \<Rightarrow> bool" where
  "can_login e password u \<longleftrightarrow>
     us_isActive u \<and> has_password u \<and> ae_verify e (or_else (us_passwordHash u) '''') password"

definition login ::
  "auth_env \<Rightarrow> string \<Rightarrow> string \<Rightarrow> string option \<Rightarrow> string option \<Rightarrow> auth_store \<Rightarrow>
    (auth_store, string \<times> string) outcome" where
  "login e email password agent ip s =
     (case user_by_email (to_lower email) s of
        None \<Rightarrow> (Inl INVALID_CREDENTIALS, s)
      | Some u \<Rightarrow>
          if \<not> us_isActive u then (Inl INVALID_CREDENTIALS, s)
          else if \<not> has_password u then (Inl INVALID_CREDENTIALS, s)
          else if \<not> ae_verify e (or_else (us_passwordHash u) '''') password then (Inl INVALID_CREDENTIALS, s)
          else let (tok, s1) = generateRefreshToken e s;
                   (x, s2) = create_session e (us_id u) (ae_sha e tok) agent ip (ae_now e + 7 * day_ms) s1
               in (Inr (ae_sign e (access_claims u (se_id x)), tok), s2))"

definition refresh :: "auth_env \<Rightarrow> string \<Rightarrow> auth_store \<Rightarrow> (auth_store, string \<times> string) outcome" where
  "refresh e tok s =
     (case findByRefreshTokenHash (ae_sha e tok) s of
        None \<Rightarrow> (Inl INVALID_REFRESH_TOKEN, s)
      | Some x \<Rightarrow>
          if se_isRevoked x then (Inl INVALID_REFRESH_TOKEN, revokeByTokenFamily (se_tokenFamily x) s)
          else if se_expiresAt x < ae_now e then (Inl INVALID_REFRESH_TOKEN, s)
          else case user_by_id (se_userId x) s of
                 None \<Rightarrow> (Inl INVALID_REFRESH_TOKEN, revoke (se_id x) s)
               | Some u \<Rightarrow>
                   if \<not> us_isActive u then (Inl INVALID_REFRESH_TOKEN, revoke (se_id x) s)
                   else let (new, s1) = generateRefreshToken e s
                        in (Inr (ae_sign e (access_claims u (se_id x)), new),
                            rotateToken e (se_id x) (ae_sha e new) s1))"

definition logout :: "auth_env \<Rightarrow> string \<Rightarrow> auth_store \<Rightarrow> auth_store" where
  "logout e tok s =
     (case findByRefreshTokenHash (ae_sha e tok) s of
        None \<Rightarrow> s
      | Some x \<Rightarrow> if se_isRevoked x then s else revoke (se_id x) s)"

section \<open>Activation and passwords\<close>

definition invite_by_token :: "string \<Rightarrow> auth_store \<Rightarrow> invite_row option" where
  "invite_by_token t s = List.find (\<lambda>v. in_token v = t) (au_invites s)"

definition set_invite :: "(invite_row \<Rightarrow> bool) \<Rightarrow> invite_status \<Rightarrow> auth_store \<Rightarrow> auth_store" where
  "set_invite P st s = s\<lparr>au_invites := update_where P (\<lambda>v. v\<lparr>in_status := st\<rparr>) (au_invites s)\<rparr>"

definition activate :: "auth_env \<Rightarrow> string \<Rightarrow> string \<Rightarrow> auth_store \<Rightarrow> (auth_store, unit) outcome" where
  "activate e t password s =
     (case invite_by_token t s of
        None \<Rightarrow> (Inl (Gone ''Invite link is no longer valid''), s)
      | Some v \<Rightarrow>
          if in_status v \<noteq> IN_PENDING \<or> in_expiresAt v < ae_now e
          then (Inl (Gone ''Invite link is no longer valid''), s)
          else case validateComplexity password of
                 Some err \<Rightarrow> (Inl (Unprocessable err), s)
               | None \<Rightarrow>
                   (Inr (), set_invite (\<lambda>x. in_id x = in_id v) IN_ACCEPTED
                     (update_user (in_userId v)
                       (\<lambda>u. u\<lparr>us_passwordHash := Some (ae_hash e password), us_isActive := True\<rparr>) s)))"

definition new_password :: "string \<Rightarrow> user \<Rightarrow> user" where
  "new_password h u = u\<lparr>us_passwordHash := Some h, us_mustResetPassword := False\<rparr>"

definition changePassword ::
  "auth_env \<Rightarrow> string \<Rightarrow> string \<Rightarrow> string \<Rightarrow> string \<Rightarrow> auth_store \<Rightarrow> (auth_store, unit) outcome" where
  "changePassword e uid sid current password s =
     (case user_by_id uid s of
        None \<Rightarrow> (Inl (Unauthorized ''Invalid credentials''), s)
      | Some u \<Rightarrow>
          if \<not> has_password u \<or> \<not> ae_verify e (or_else (us_passwordHash u) '''') current
          then (Inl (Unauthorized ''Invalid credentials''), s)
          else case validateComplexity password of
                 Some err \<Rightarrow> (Inl (Unprocessable err), s)
               | None \<Rightarrow>
                   (Inr (), revokeAllExcept uid sid (update_user uid (new_password (ae_hash e password)) s)))"

definition reset_user :: "auth_env \<Rightarrow> string \<Rightarrow> auth_store \<Rightarrow> string option" where
  \<comment> \<open>a key is gone when its time to live is over\<close>
  "reset_user e h s =
     (case map_of (au_resets s) h of
        None \<Rightarrow> None
      | Some (uid, till) \<Rightarrow> if till \<le> ae_now e then None else text_or_null (Some uid))"

definition forgotPassword :: "auth_env \<Rightarrow> string \<Rightarrow> auth_store \<Rightarrow> auth_store" where
  "forgotPassword e email s =
     (case user_by_email (to_lower email) s of
        None \<Rightarrow> s
      | Some u \<Rightarrow>
          if us_isActive u
          then let (tok, s1) = generateRefreshToken e s;
                   s2 = s1\<lparr>au_resets := AList.update (ae_sha e tok) (us_id u, ae_now e + 3600 * 1000) (au_resets s1)\<rparr>
               in if ae_mails e (us_email u) then s2\<lparr>au_mail := au_mail s2 @ [(us_email u, tok)]\<rparr> else s2
          else s)"

definition resetPassword :: "auth_env \<Rightarrow> string \<Rightarrow> string \<Rightarrow> auth_store \<Rightarrow> (auth_store, unit) outcome" where
  "resetPassword e tok password s =
     (case reset_user e (ae_sha e tok) s of
        None \<Rightarrow> (Inl (Gone ''Reset link is no longer valid''), s)
      | Some uid \<Rightarrow>
          (case validateComplexity password of
             Some err \<Rightarrow> (Inl (Unprocessable err), s)
           | None \<Rightarrow>
               let s1 = update_user uid (new_password (ae_hash e password)) s;
                   s2 = s1\<lparr>au_resets := AList.delete (ae_sha e tok) (au_resets s1)\<rparr>
               in (Inr (), revokeAll uid s2)))"

section \<open>Own profile and sessions\<close>

record me_response =
  me_id :: string
  me_email :: string
  me_name :: "string option"
  me_role :: role
  me_creditorId :: "string option"
  me_creditorName :: "string option"
  me_scopes :: "string list"

definition getMe :: "string \<Rightarrow> auth_store \<Rightarrow> http_error + me_response" where
  "getMe uid s =
     (case user_by_id uid s of
        None \<Rightarrow> Inl (Unauthorized ''Unauthorized'')
      | Some u \<Rightarrow>
          let cr = (case us_creditorId u of None \<Rightarrow> None
                    | Some c \<Rightarrow> List.find (\<lambda>r. cr_id r = c) (creditors (au_db s)));
              trimmed = (\<lambda>x. text_or_null (map_option trim x))
          in Inr \<lparr>me_id = us_id u, me_email = us_email u, me_name = us_name u, me_role = us_role u,
               me_creditorId = us_creditorId u,
               me_creditorName = (case cr of None \<Rightarrow> None
                 | Some r \<Rightarrow> or_opt (trimmed (cr_tradeName r)) (trimmed (Some (cr_name r)))),
               me_scopes = (if us_role u = VIEWER then map snd (filter (\<lambda>p. fst p = uid) (au_scopes s)) else [])\<rparr>)"

definition getSessions ::
  "auth_env \<Rightarrow> (auth_session list \<Rightarrow> auth_session list) \<Rightarrow> string \<Rightarrow> string \<Rightarrow> auth_store \<Rightarrow>
    (string \<times> string option \<times> string option \<times> int \<times> bool) list" where
  "getSessions e order uid sid s =
     map (\<lambda>x. (se_id x, se_userAgent x, se_ipAddress x, se_createdAt x, se_id x = sid)) (listActive e order uid s)"

definition revokeSession :: "string \<Rightarrow> string \<Rightarrow> string \<Rightarrow> auth_store \<Rightarrow> (auth_store, unit) outcome" where
  "revokeSession uid sid current s =
     (if sid = current then (Inl (Conflict ''Cannot revoke current session''), s)
      else case session_by_id sid s of
             None \<Rightarrow> (Inl (NotFound ''Session not found''), s)
           | Some x \<Rightarrow>
               if se_userId x \<noteq> uid then (Inl (NotFound ''Session not found''), s)
               else (Inr (), revoke sid s))"

section \<open>The limit on login attempts\<close>

definition MAX_ATTEMPTS :: nat where "MAX_ATTEMPTS = 5"

definition WINDOW_SECONDS :: int where "WINDOW_SECONDS = 900"

definition attempt_key :: "auth_env \<Rightarrow> string \<Rightarrow> auth_store \<Rightarrow> (nat \<times> int option) option" where
  \<comment> \<open>the counter, unless its time to live is over\<close>
  "attempt_key e email s =
     (case map_of (au_attempts s) (to_lower email) of
        None \<Rightarrow> None
      | Some (n, till) \<Rightarrow>
          (case till of Some t \<Rightarrow> if t \<le> ae_now e then None else Some (n, till) | None \<Rightarrow> Some (n, till)))"

definition attempts_of :: "auth_env \<Rightarrow> string \<Rightarrow> auth_store \<Rightarrow> nat" where
  "attempts_of e email s = (case attempt_key e email s of None \<Rightarrow> 0 | Some (n, _) \<Rightarrow> n)"

definition retry_after :: "auth_env \<Rightarrow> (nat \<times> int option) option \<Rightarrow> int" where
  "retry_after e k =
     (case k of
        Some (_, Some t) \<Rightarrow> if 0 < ae_ttl e (t - ae_now e) then ae_ttl e (t - ae_now e) else WINDOW_SECONDS
      | _ \<Rightarrow> WINDOW_SECONDS)"

definition isBlocked :: "auth_env \<Rightarrow> string \<Rightarrow> auth_store \<Rightarrow> int option" where
  \<comment> \<open>the seconds to wait, \<open>None\<close> when not blocked\<close>
  "isBlocked e email s =
     (if MAX_ATTEMPTS \<le> attempts_of e email s then Some (retry_after e (attempt_key e email s)) else None)"

definition checkAndIncrement :: "auth_env \<Rightarrow> string \<Rightarrow> auth_store \<Rightarrow> int option \<times> auth_store" where
  "checkAndIncrement e email s =
     (if MAX_ATTEMPTS \<le> attempts_of e email s then (Some (retry_after e (attempt_key e email s)), s)
      else let n = Suc (attempts_of e email s);
               till = (case attempt_key e email s of Some (_, t) \<Rightarrow> t | None \<Rightarrow> None);
               till' = (if n = 1 then Some (ae_now e + WINDOW_SECONDS * 1000) else till);
               s' = s\<lparr>au_attempts := AList.update (to_lower email) (n, till') (au_attempts s)\<rparr>
           in if MAX_ATTEMPTS \<le> n then (Some (retry_after e (Some (n, till'))), s') else (None, s'))"

definition reset_attempts :: "string \<Rightarrow> auth_store \<Rightarrow> auth_store" where
  "reset_attempts email s = s\<lparr>au_attempts := AList.delete (to_lower email) (au_attempts s)\<rparr>"

text \<open>
  The handler of \<open>POST /auth/login\<close> asks for the counter first and compares the password afterwards.
  Requests that run at once may all have passed the question before the first of them is counted, so
  the second half is a step of its own.
\<close>

definition login_attempt ::
  "auth_env \<Rightarrow> string \<Rightarrow> string \<Rightarrow> string option \<Rightarrow> string option \<Rightarrow> auth_store \<Rightarrow>
    (auth_store, string \<times> string) outcome" where
  \<comment> \<open>the \<open>try\<close> block and its handler\<close>
  "login_attempt e email password agent ip s =
     (let m = to_lower email
      in case login e email password agent ip s of
           (Inr tokens, s') \<Rightarrow> (Inr tokens, reset_attempts m s')
         | (Inl (Unauthorized msg), s') \<Rightarrow>
             (case checkAndIncrement e m s' of
                (Some t, s2) \<Rightarrow> (Inl (TooManyRequests ''Too many login attempts''), s2)
              | (None, s2) \<Rightarrow> (Inl INVALID_CREDENTIALS, s2))
         | (Inl err, s') \<Rightarrow> (Inl err, s'))"

definition login_request ::
  "auth_env \<Rightarrow> string \<Rightarrow> string \<Rightarrow> string option \<Rightarrow> string option \<Rightarrow> auth_store \<Rightarrow>
    (auth_store, string \<times> string) outcome" where
  \<comment> \<open>a request that runs alone\<close>
  "login_request e email password agent ip s =
     (case isBlocked e (to_lower email) s of
        Some t \<Rightarrow> (Inl (TooManyRequests ''Too many login attempts''), s)
      | None \<Rightarrow> login_attempt e email password agent ip s)"

section \<open>What is stored\<close>

text \<open>
  Identifiers and random tokens are fresh, and no two sessions share an identifier, a token family or a
  token.
\<close>

definition drawn :: "(nat \<Rightarrow> string) \<Rightarrow> nat \<Rightarrow> string list \<Rightarrow> bool" where
  \<comment> \<open>distinct values of a generator, all drawn before the \<open>n\<close>-th\<close>
  "drawn gen n ks \<longleftrightarrow> distinct ks \<and> set ks \<subseteq> gen ` {..<n}"

lemma drawn_Nil [simp]: "drawn gen n []"
  by (simp add: drawn_def)

lemma drawn_later: "drawn gen n ks \<Longrightarrow> n \<le> m \<Longrightarrow> drawn gen m ks"
  unfolding drawn_def by (blast intro: less_le_trans)

lemma drawn_snoc:
  assumes "drawn gen n ks" and "inj gen" and "n \<le> i" and "i < m"
  shows "drawn gen m (ks @ [gen i])"
proof -
  have "gen i \<notin> set ks"
    using assms(1-3) by (auto simp: drawn_def inj_eq)
  moreover have "set ks \<subseteq> gen ` {..<m}"
    using drawn_later [OF assms(1), of m] assms(3,4) by (simp add: drawn_def)
  ultimately show ?thesis using assms(1,4) by (simp add: drawn_def)
qed

lemma drawn_not_in:
  assumes "drawn gen n ks" and "inj gen" and "n \<le> i"
  shows "gen i \<notin> set ks"
  using assms by (auto simp: drawn_def inj_eq)

definition token_hash :: "auth_env \<Rightarrow> nat \<Rightarrow> string" where
  "token_hash e n = ae_sha e (ae_token e n)"

definition sessions_ok :: "auth_env \<Rightarrow> auth_store \<Rightarrow> bool" where
  "sessions_ok e s \<longleftrightarrow>
     drawn (ae_gen e) (nextId (au_db s)) (map se_id (au_sessions s)) \<and>
     drawn (ae_gen e) (nextId (au_db s)) (map se_tokenFamily (au_sessions s)) \<and>
     drawn (token_hash e) (nextId (au_db s)) (map se_refreshTokenHash (au_sessions s))"

definition sources_ok :: "auth_env \<Rightarrow> bool" where
  \<comment> \<open>identifiers, random tokens and the hash do not collide\<close>
  "sources_ok e \<longleftrightarrow> inj (ae_gen e) \<and> inj (ae_token e) \<and> inj (ae_sha e)"

lemma sources_okD:
  assumes "sources_ok e"
  shows "inj (ae_gen e)" and "inj (token_hash e)" and "ae_sha e x = ae_sha e y \<longleftrightarrow> x = y"
  using assms by (auto simp: sources_ok_def inj_eq token_hash_def intro!: injI)

lemma store_simps [simp]:
  "au_sessions (update_sessions P f s) = update_where P f (au_sessions s)"
  "au_db (update_sessions P f s) = au_db s" "au_invites (update_sessions P f s) = au_invites s"
  "au_resets (update_sessions P f s) = au_resets s" "au_attempts (update_sessions P f s) = au_attempts s"
  "au_scopes (update_sessions P f s) = au_scopes s"
  "au_sessions (update_user i g s) = au_sessions s" "au_invites (update_user i g s) = au_invites s"
  "au_resets (update_user i g s) = au_resets s" "au_attempts (update_user i g s) = au_attempts s"
  "au_scopes (update_user i g s) = au_scopes s"
  "users (au_db (update_user i g s)) = update_where (\<lambda>u. us_id u = i) g (users (au_db s))"
  "nextId (au_db (update_user i g s)) = nextId (au_db s)" "wallets (au_db (update_user i g s)) = wallets (au_db s)"
  "au_sessions (skip_ids n s) = au_sessions s" "au_invites (skip_ids n s) = au_invites s"
  "au_resets (skip_ids n s) = au_resets s" "au_attempts (skip_ids n s) = au_attempts s"
  "au_scopes (skip_ids n s) = au_scopes s"
  "users (au_db (skip_ids n s)) = users (au_db s)" "nextId (au_db (skip_ids n s)) = nextId (au_db s) + n"
  "wallets (au_db (skip_ids n s)) = wallets (au_db s)"
  "au_sessions (set_invite Q st s) = au_sessions s" "au_db (set_invite Q st s) = au_db s"
  "au_resets (set_invite Q st s) = au_resets s" "au_scopes (set_invite Q st s) = au_scopes s"
  "au_attempts (set_invite Q st s) = au_attempts s"
  "au_invites (set_invite Q st s) = update_where Q (\<lambda>v. v\<lparr>in_status := st\<rparr>) (au_invites s)"
  by (simp_all add: update_sessions_def update_user_def skip_ids_def set_invite_def)

lemma user_by_id_update:
  assumes "\<And>u. us_id (f u) = us_id u"
  shows "user_by_id j (update_user i f s) = map_option (\<lambda>u. if us_id u = i then f u else u) (user_by_id j s)"
  unfolding user_by_id_def by (simp add: find_update_where assms)

lemma user_by_id_eq: "user_by_id i s = Some u \<Longrightarrow> us_id u = i \<and> u \<in> set (users (au_db s))"
  unfolding user_by_id_def by (auto dest: find_SomeD)

lemma user_by_id_frame [simp]:
  "user_by_id i (update_sessions P f s) = user_by_id i s" "user_by_id i (skip_ids n s) = user_by_id i s"
  "user_by_id i (set_invite Q st s) = user_by_id i s"
  by (simp_all add: user_by_id_def)

lemma revoked_keys [simp]:
  "se_id (revoked x) = se_id x" "se_userId (revoked x) = se_userId x" "se_tokenFamily (revoked x) = se_tokenFamily x"
  "se_refreshTokenHash (revoked x) = se_refreshTokenHash x" "se_isRevoked (revoked x)"
  by (simp_all add: revoked_def)

lemma sessions_ok_revoke: "sessions_ok e s \<Longrightarrow> sessions_ok e (update_sessions P revoked s)"
  by (simp add: sessions_ok_def map_update_where)

lemma sessions_ok_frame:
  assumes "sessions_ok e s" and "au_sessions s' = au_sessions s" and "nextId (au_db s) \<le> nextId (au_db s')"
  shows "sessions_ok e s'"
  using assms drawn_later [OF _ assms(3)] by (simp add: sessions_ok_def)

lemma sessions_ok_create:
  assumes "sessions_ok e s" and "sources_ok e" and "generateRefreshToken e s = (tok, s1)"
    and "create_session e uid (ae_sha e tok) agent ip till s1 = (x, s2)"
  shows "sessions_ok e s2"
proof -
  let ?n = "nextId (au_db s)"
  have x: "se_id x = ae_gen e (Suc ?n)" "se_tokenFamily x = ae_gen e (Suc (Suc ?n))"
      "se_refreshTokenHash x = token_hash e ?n" "au_sessions s2 = au_sessions s @ [x]"
      "nextId (au_db s2) = ?n + 3"
    using assms(3,4) by (auto simp: generateRefreshToken_def create_session_def token_hash_def Let_def)
  show ?thesis
    using assms(1) sources_okD(1,2) [OF assms(2)]
    unfolding sessions_ok_def x(4,5) map_append list.map x(1-3)
    by (auto intro!: drawn_snoc)
qed

lemma fresh_hash:
  assumes "sessions_ok e s" and "sources_ok e"
  shows "token_hash e (nextId (au_db s)) \<notin> se_refreshTokenHash ` set (au_sessions s)"
proof -
  have "drawn (token_hash e) (nextId (au_db s)) (map se_refreshTokenHash (au_sessions s))"
    using assms(1) by (simp add: sessions_ok_def)
  from drawn_not_in [OF this sources_okD(2) [OF assms(2)] order.refl] show ?thesis by simp
qed

lemma rotated_hashes:
  assumes "distinct (map se_id xs)" and "x \<in> set xs"
  shows "map se_refreshTokenHash (update_where (\<lambda>y. se_id y = se_id x) (\<lambda>y. y\<lparr>se_refreshTokenHash := h, se_lastUsedAt := t\<rparr>) xs)
    = map (\<lambda>y. if y = x then h else se_refreshTokenHash y) xs"
  using assms same_key [OF assms(1) _ assms(2)] by (auto simp: update_where_def)

lemma sessions_ok_rotate:
  assumes "sessions_ok e s" and "sources_ok e" and "x \<in> set (au_sessions s)" and "generateRefreshToken e s = (tok, s1)"
  shows "sessions_ok e (rotateToken e (se_id x) (ae_sha e tok) s1)"
proof -
  let ?n = "nextId (au_db s)" and ?f = "token_hash e"
  have s1: "au_sessions s1 = au_sessions s" "nextId (au_db s1) = Suc ?n" "ae_sha e tok = ?f ?n"
    using assms(4) by (auto simp: generateRefreshToken_def token_hash_def)
  note ok = assms(1) [unfolded sessions_ok_def drawn_def]
  have new: "?f ?n \<notin> se_refreshTokenHash ` set (au_sessions s)" by (rule fresh_hash [OF assms(1,2)])
  have "distinct (map (\<lambda>y. if y = x then ?f ?n else se_refreshTokenHash y) (au_sessions s))"
    using ok new unfolding distinct_map inj_on_def by (metis (full_types) imageI)
  moreover have "set (map (\<lambda>y. if y = x then ?f ?n else se_refreshTokenHash y) (au_sessions s)) \<subseteq> ?f ` {..<Suc ?n}"
    using ok by (auto simp: less_Suc_eq)
  ultimately have hashes: "drawn ?f (Suc ?n) (map se_refreshTokenHash (au_sessions (rotateToken e (se_id x) (ae_sha e tok) s1)))"
    using rotated_hashes [where xs = "au_sessions s" and x = x and h = "?f ?n" and t = "ae_now e"] ok assms(3)
    unfolding drawn_def rotateToken_def by (simp only: store_simps s1)
  moreover have "drawn (ae_gen e) (Suc ?n) (map se_id (au_sessions s))" "drawn (ae_gen e) (Suc ?n) (map se_tokenFamily (au_sessions s))"
    using assms(1) drawn_later [of _ ?n _ "Suc ?n"] by (simp_all add: sessions_ok_def)
  ultimately show ?thesis
    by (simp add: sessions_ok_def rotateToken_def s1 map_update_where)
qed
section \<open>Sessions\<close>

text \<open>
  A failed login says nothing of its reason and changes nothing; it succeeds exactly for an active user
  with a password that verifies.
\<close>

lemma login_fails:
  assumes "\<And>u. user_by_email (to_lower email) s = Some u \<Longrightarrow> \<not> can_login e password u"
  shows "login e email password agent ip s = (Inl INVALID_CREDENTIALS, s)"
  using assms by (auto simp: login_def can_login_def split: option.split)

lemma login_succeeds:
  assumes "user_by_email (to_lower email) s = Some u" and "can_login e password u"
  shows "\<exists>tok x s'. generateRefreshToken e s = (tok, skip_ids 1 s) \<and>
    create_session e (us_id u) (ae_sha e tok) agent ip (ae_now e + 7 * day_ms) (skip_ids 1 s) = (x, s') \<and>
    login e email password agent ip s = (Inr (ae_sign e (access_claims u (se_id x)), tok), s')"
  using assms by (simp add: login_def can_login_def generateRefreshToken_def create_session_def Let_def)

lemma login_iff:
  "is_ok (login e email password agent ip s) \<longleftrightarrow>
     (\<exists>u. user_by_email (to_lower email) s = Some u \<and> can_login e password u)"
  "\<not> is_ok (login e email password agent ip s) \<Longrightarrow> login e email password agent ip s = (Inl INVALID_CREDENTIALS, s)"
proof -
  have "\<exists>tok x s'. login e email password agent ip s = (Inr (tok, x), s')"
    if "user_by_email (to_lower email) s = Some u" "can_login e password u" for u
    using login_succeeds [OF that] by blast
  then show "is_ok (login e email password agent ip s) \<longleftrightarrow>
      (\<exists>u. user_by_email (to_lower email) s = Some u \<and> can_login e password u)"
    and "\<not> is_ok (login e email password agent ip s) \<Longrightarrow> login e email password agent ip s = (Inl INVALID_CREDENTIALS, s)"
    using login_fails [of email s e password agent ip] by (force simp: is_ok_def)+
qed

lemma find_hash:
  assumes "sessions_ok e s" and "x \<in> set (au_sessions s)"
  shows "findByRefreshTokenHash (se_refreshTokenHash x) s = Some x"
  unfolding findByRefreshTokenHash_def
  using assms by (intro find_key_unique) (simp_all add: sessions_ok_def drawn_def)

lemma find_hash_in: "findByRefreshTokenHash h s = Some x \<Longrightarrow> x \<in> set (au_sessions s) \<and> se_refreshTokenHash x = h"
  unfolding findByRefreshTokenHash_def by (auto dest: find_SomeD)

lemma refresh_ok:
  assumes "refresh e tok s = (Inr (acc, new), s')"
  obtains x u where "findByRefreshTokenHash (ae_sha e tok) s = Some x" and "\<not> se_isRevoked x"
    and "ae_now e \<le> se_expiresAt x" and "user_by_id (se_userId x) s = Some u" and "us_isActive u"
    and "acc = ae_sign e (access_claims u (se_id x))" and "generateRefreshToken e s = (new, skip_ids 1 s)"
    and "s' = rotateToken e (se_id x) (ae_sha e new) (skip_ids 1 s)"
  using assms
  by (auto simp: refresh_def generateRefreshToken_def not_less Let_def split: option.splits if_splits)

text \<open>
  Revoking a family revokes the one session that carries it, and a revoked session is already revoked:
  the answer to a reused token changes nothing.
\<close>

lemma reuse_changes_nothing:
  assumes "sessions_ok e s" and "findByRefreshTokenHash (ae_sha e tok) s = Some x" and "se_isRevoked x"
  shows "refresh e tok s = (Inl INVALID_REFRESH_TOKEN, s)"
proof -
  have x: "x \<in> set (au_sessions s)" using find_hash_in [OF assms(2)] by simp
  have "y = x" if "y \<in> set (au_sessions s)" "se_tokenFamily y = se_tokenFamily x" for y
    using that x same_key [of se_tokenFamily "au_sessions s" y x] assms(1) by (simp add: sessions_ok_def drawn_def)
  then have "update_where (\<lambda>y. se_tokenFamily y = se_tokenFamily x \<and> \<not> se_isRevoked y) revoked (au_sessions s) = au_sessions s"
    using assms(3) by (intro update_where_none) blast
  then show ?thesis
    using assms(2,3) by (simp add: refresh_def revokeByTokenFamily_def update_sessions_def)
qed

text \<open>
  C31. A refresh token works once. Whoever presents it again is refused, but nothing else happens: the stored
  hash has been overwritten, so the reuse is not recognised, no session is revoked, and the token that was
  issued in exchange stays good.
\<close>

lemma replay_not_detected:
  assumes "sessions_ok e s" and "sources_ok e" and "refresh e tok s = (Inr (acc, new), s')"
  shows "refresh e tok s' = (Inl INVALID_REFRESH_TOKEN, s') \<and> is_ok (refresh e new s')"
proof -
  obtain x u where x: "findByRefreshTokenHash (ae_sha e tok) s = Some x" "\<not> se_isRevoked x"
      "ae_now e \<le> se_expiresAt x" "user_by_id (se_userId x) s = Some u" "us_isActive u"
    and gen: "generateRefreshToken e s = (new, skip_ids 1 s)"
    and s': "s' = rotateToken e (se_id x) (ae_sha e new) (skip_ids 1 s)"
    using assms(3) by (rule refresh_ok)
  note found = find_hash_in [OF x(1)]
  have hash: "ae_sha e new = token_hash e (nextId (au_db s))"
    using gen by (auto simp: generateRefreshToken_def token_hash_def)
  have ok: "sessions_ok e s'"
    unfolding s' using assms(1,2) found gen by (intro sessions_ok_rotate) simp_all
  have ids: "distinct (map se_id (au_sessions s))" using assms(1) by (simp add: sessions_ok_def drawn_def)
  have sess: "au_sessions s' = update_where (\<lambda>y. se_id y = se_id x)
      (\<lambda>y. y\<lparr>se_refreshTokenHash := ae_sha e new, se_lastUsedAt := ae_now e\<rparr>) (au_sessions s)"
    by (simp add: s' rotateToken_def)
  have "ae_sha e new \<notin> se_refreshTokenHash ` set (au_sessions s)"
    unfolding hash by (rule fresh_hash [OF assms(1,2)])
  then have "ae_sha e new \<noteq> ae_sha e tok" using found by (metis imageI)
  moreover have "se_refreshTokenHash y \<noteq> ae_sha e tok" if "y \<in> set (au_sessions s)" "y \<noteq> x" for y
  proof
    assume h: "se_refreshTokenHash y = ae_sha e tok"
    have "distinct (map se_refreshTokenHash (au_sessions s))" using assms(1) by (simp add: sessions_ok_def drawn_def)
    from same_key [OF this that(1), of x] found h that(2) show False by simp
  qed
  ultimately have "se_refreshTokenHash y \<noteq> ae_sha e tok" if "y \<in> set (au_sessions s')" for y
    using that
    unfolding sess in_update_where by (elim bexE disjE conjE) auto
  then have "findByRefreshTokenHash (ae_sha e tok) s' = None"
    by (auto simp: findByRefreshTokenHash_def find_None_iff)
  then have "refresh e tok s' = (Inl INVALID_REFRESH_TOKEN, s')" by (simp add: refresh_def)
  moreover define y where "y = x\<lparr>se_refreshTokenHash := ae_sha e new, se_lastUsedAt := ae_now e\<rparr>"
  have "y \<in> set (au_sessions s')" using found unfolding sess y_def by (auto simp: in_update_where)
  then have "findByRefreshTokenHash (ae_sha e new) s' = Some y"
    using find_hash [OF ok, of y] by (simp add: y_def)
  moreover have "user_by_id (se_userId y) s' = Some u"
    using x(4) by (simp add: s' rotateToken_def y_def)
  ultimately show ?thesis
    using x(2,3,5) by (simp add: refresh_def is_ok_def y_def generateRefreshToken_def)
qed

text \<open>A session that is revoked is no longer good for a refresh, whatever the time and the token.\<close>

definition usable :: "auth_session \<Rightarrow> bool" where
  "usable x \<longleftrightarrow> \<not> se_isRevoked x"

lemma refresh_uses_live:
  assumes "refresh e tok s = (Inr p, s')"
  shows "\<exists>x \<in> set (au_sessions s). usable x \<and> se_refreshTokenHash x = ae_sha e tok"
  using refresh_ok [of e tok s "fst p" "snd p" s'] assms find_hash_in unfolding usable_def by (metis prod.collapse)

section \<open>Passwords\<close>

definition live_sessions :: "string \<Rightarrow> auth_store \<Rightarrow> string list" where
  \<comment> \<open>the sessions of a user a refresh token can still be used for\<close>
  "live_sessions uid s = map se_id (filter (\<lambda>x. se_userId x = uid \<and> \<not> se_isRevoked x) (au_sessions s))"

lemma live_revoke_where:
  "live_sessions uid (update_sessions (\<lambda>x. se_userId x = v \<and> P x \<and> \<not> se_isRevoked x) revoked s)
    = (if v = uid then map se_id (filter (\<lambda>x. se_userId x = uid \<and> \<not> se_isRevoked x \<and> \<not> P x) (au_sessions s))
       else live_sessions uid s)"
proof -
  have "map se_id (filter (\<lambda>x. se_userId x = uid \<and> \<not> se_isRevoked x)
      (update_where (\<lambda>x. se_userId x = v \<and> P x \<and> \<not> se_isRevoked x) revoked xs))
    = (if v = uid then map se_id (filter (\<lambda>x. se_userId x = uid \<and> \<not> se_isRevoked x \<and> \<not> P x) xs)
       else map se_id (filter (\<lambda>x. se_userId x = uid \<and> \<not> se_isRevoked x) xs))" for xs
    by (induction xs) auto
  then show ?thesis by (simp add: live_sessions_def)
qed

lemma live_revokeAll: "live_sessions uid (revokeAll v s) = (if v = uid then [] else live_sessions uid s)"
  using live_revoke_where [of uid v "\<lambda>_. True" s] by (simp add: revokeAll_def)

lemma live_revokeAllExcept:
  "live_sessions uid (revokeAllExcept v i s)
    = (if v = uid then filter (\<lambda>j. j = i) (live_sessions uid s) else live_sessions uid s)"
  using live_revoke_where [of uid v "\<lambda>x. se_id x \<noteq> i" s]
  by (simp add: revokeAllExcept_def live_sessions_def filter_map comp_def conj_ac)

lemma live_frame [simp]:
  "live_sessions uid (update_user i f s) = live_sessions uid s"
  "live_sessions uid (s\<lparr>au_resets := r\<rparr>) = live_sessions uid s"
  by (simp_all add: live_sessions_def)

definition strong :: "string \<Rightarrow> bool" where
  "strong p \<longleftrightarrow> 8 \<le> length p \<and> list_ex is_upper p \<and> list_ex is_lower p \<and> list_ex is_digit p"

lemma complexity_iff: "validateComplexity p = None \<longleftrightarrow> strong p"
  by (auto simp: validateComplexity_def strong_def)

lemma user_by_id_updated:
  assumes "user_by_id i s = Some u" and "\<And>u. us_id (f u) = us_id u"
  shows "user_by_id i (update_user i f s) = Some (f u)"
  using assms user_by_id_eq [OF assms(1)] by (simp add: user_by_id_update)

text \<open>
  C33. A reset ends every session of its user and nobody else's, stores a strong password, and uses its token
  up: the same link is gone, whenever it is tried again.
\<close>

lemma resetPassword_effect:
  assumes "resetPassword e tok password s = (Inr (), s')" and "reset_user e (ae_sha e tok) s = Some uid"
    and "user_by_id uid s = Some u"
  shows "strong password \<and> live_sessions uid s' = [] \<and>
    (\<forall>v. v \<noteq> uid \<longrightarrow> live_sessions v s' = live_sessions v s \<and> user_by_id v s' = user_by_id v s) \<and>
    user_by_id uid s' = Some (new_password (ae_hash e password) u) \<and>
    (\<forall>e' p'. ae_sha e' = ae_sha e \<longrightarrow>
      resetPassword e' tok p' s' = (Inl (Gone ''Reset link is no longer valid''), s'))"
proof -
  define s2 where "s2 = (update_user uid (new_password (ae_hash e password)) s)
    \<lparr>au_resets := AList.delete (ae_sha e tok) (au_resets s)\<rparr>"
  have np: "us_id (new_password h x) = us_id x" for h x by (simp add: new_password_def)
  have strong: "strong password" and s': "s' = revokeAll uid s2"
    using assms(1,2) complexity_iff [of password]
    by (auto simp: resetPassword_def Let_def s2_def split: option.splits)
  have db: "au_db s' = au_db (update_user uid (new_password (ae_hash e password)) s)"
    by (simp add: s' s2_def revokeAll_def)
  have look: "user_by_id v s' = user_by_id v (update_user uid (new_password (ae_hash e password)) s)" for v
    by (simp add: user_by_id_def db)
  have other: "user_by_id v s' = user_by_id v s" if "v \<noteq> uid" for v
    using that user_by_id_eq [of v s] by (cases "user_by_id v s") (auto simp: look user_by_id_update np)
  have gone: "map_of (au_resets s') (ae_sha e tok) = None"
    by (simp add: s' s2_def revokeAll_def delete_conv')
  then have "resetPassword e' tok p' s' = (Inl (Gone ''Reset link is no longer valid''), s')"
    if "ae_sha e' = ae_sha e" for e' p'
    using that by (simp add: resetPassword_def reset_user_def)
  moreover have "user_by_id uid s' = Some (new_password (ae_hash e password) u)"
    unfolding look by (rule user_by_id_updated [OF assms(3) np])
  ultimately show ?thesis
    using strong other by (simp add: s' live_revokeAll s2_def)
qed

text \<open>A change of the password leaves at most the session it came from.\<close>

lemma changePassword_effect:
  assumes "changePassword e uid sid current password s = (Inr (), s')"
  shows "strong password \<and> live_sessions uid s' = filter (\<lambda>i. i = sid) (live_sessions uid s) \<and>
    (\<forall>v. v \<noteq> uid \<longrightarrow> live_sessions v s' = live_sessions v s) \<and>
    (\<exists>u. user_by_id uid s = Some u \<and> ae_verify e (or_else (us_passwordHash u) '''') current \<and>
       user_by_id uid s' = Some (new_password (ae_hash e password) u))"
proof -
  have np: "us_id (new_password h x) = us_id x" for h x by (simp add: new_password_def)
  obtain u where u: "user_by_id uid s = Some u" "ae_verify e (or_else (us_passwordHash u) '''') current"
    and c: "validateComplexity password = None"
    and s': "s' = revokeAllExcept uid sid (update_user uid (new_password (ae_hash e password)) s)"
    using assms by (auto simp: changePassword_def split: option.splits if_splits)
  have "user_by_id uid s' = Some (new_password (ae_hash e password) u)"
    using user_by_id_updated [OF u(1) np] by (simp add: s' revokeAllExcept_def)
  then show ?thesis
    using u c complexity_iff [of password] by (auto simp: s' live_revokeAllExcept)
qed

section \<open>The limit on login attempts\<close>

fun login_requests ::
  "(auth_env \<times> string) list \<Rightarrow> string \<Rightarrow> auth_store \<Rightarrow> (http_error + (string \<times> string)) list \<times> auth_store" where
  "login_requests [] email s = ([], s)"
| "login_requests ((e, password) # rs) email s =
     (let (r, s1) = login_request e email password None None s; (out, s2) = login_requests rs email s1
      in (r # out, s2))"

lemma lower_twice [simp]: "to_lower (to_lower s) = to_lower s"
  by (induction s) (auto simp: to_lower_def lower_char_def is_upper_def code_def)

lemma blocked_refuses:
  assumes "MAX_ATTEMPTS \<le> attempts_of e email s"
  shows "login_request e email password agent ip s = (Inl (TooManyRequests ''Too many login attempts''), s)"
  using assms by (simp add: login_request_def isBlocked_def attempts_of_def attempt_key_def Let_def)

definition count_at :: "string \<Rightarrow> nat \<Rightarrow> int \<Rightarrow> auth_store \<Rightarrow> bool" where
  \<comment> \<open>the counter of an address, with the end of its window\<close>
  "count_at email n till s \<longleftrightarrow>
     (if n = 0 then map_of (au_attempts s) (to_lower email) = None
      else map_of (au_attempts s) (to_lower email) = Some (n, Some till))"

lemma attempts_at:
  assumes "count_at email n till s" and "ae_now e < till"
  shows "attempts_of e email s = n" and "0 < n \<Longrightarrow> attempt_key e email s = Some (n, Some till)"
    and "n = 0 \<Longrightarrow> attempt_key e email s = None"
  using assms by (auto simp: count_at_def attempts_of_def attempt_key_def split: if_splits)

lemma failed_request:
  assumes "count_at email n till s" and "ae_now e < till" and "n = 0 \<Longrightarrow> till = ae_now e + 900000"
    and "n < 5" and "\<not> is_ok (login e email password agent ip s)"
  shows "\<exists>s'. login_request e email password agent ip s =
      (Inl (if n = 4 then TooManyRequests ''Too many login attempts'' else INVALID_CREDENTIALS), s') \<and>
    count_at email (Suc n) till s' \<and> au_db s' = au_db s \<and> au_sessions s' = au_sessions s"
proof -
  note at = attempts_at [OF assms(1,2)]
  have key: "attempt_key e (to_lower email) s = attempt_key e email s"
    "attempts_of e (to_lower email) s = attempts_of e email s"
    by (simp_all add: attempt_key_def attempts_of_def)
  have free: "isBlocked e (to_lower email) s = None"
    using at(1) assms(4) by (simp add: isBlocked_def key MAX_ATTEMPTS_def)
  define s' where "s' = s\<lparr>au_attempts := AList.update (to_lower email) (Suc n, Some till) (au_attempts s)\<rparr>"
  have "snd (checkAndIncrement e (to_lower email) s) = s'"
    using at assms(3,4)
    by (cases "n = 0") (auto simp: checkAndIncrement_def key MAX_ATTEMPTS_def WINDOW_SECONDS_def s'_def Let_def)
  moreover have "fst (checkAndIncrement e (to_lower email) s) = None \<longleftrightarrow> n \<noteq> 4"
    using at(1) assms(4) by (auto simp: checkAndIncrement_def key MAX_ATTEMPTS_def Let_def)
  ultimately obtain t where inc: "checkAndIncrement e (to_lower email) s = (t, s')" "t = None \<longleftrightarrow> n \<noteq> 4"
    by (metis prod.collapse)
  have fail: "login e email password agent ip s = (Inl INVALID_CREDENTIALS, s)"
    using login_iff(2) [OF assms(5)] .
  have "login_request e email password agent ip s =
      (Inl (if n = 4 then TooManyRequests ''Too many login attempts'' else INVALID_CREDENTIALS), s')"
    using inc(2) by (cases t) (simp_all add: login_request_def login_attempt_def free fail inc(1) INVALID_CREDENTIALS_def Let_def)
  moreover have "count_at email (Suc n) till s'"
    by (simp add: count_at_def s'_def update_conv)
  ultimately show ?thesis by (auto simp: s'_def)
qed

lemma refused_requests:
  assumes "count_at email n till s" and "5 \<le> n" and "\<forall>r \<in> set rs. ae_now (fst r) < till"
  shows "login_requests rs email s = (replicate (length rs) (Inl (TooManyRequests ''Too many login attempts'')), s)"
  using assms(3)
proof (induction rs)
  case (Cons r rs)
  obtain e p where r: "r = (e, p)" by force
  have "MAX_ATTEMPTS \<le> attempts_of e email s"
    using attempts_at(1) [OF assms(1), of e] Cons.prems assms(2) by (simp add: r MAX_ATTEMPTS_def)
  then show ?case using Cons by (simp add: r blocked_refuses)
qed simp

definition no_hit :: "string \<Rightarrow> database \<Rightarrow> auth_env \<times> string \<Rightarrow> bool" where
  \<comment> \<open>the password of this request is wrong\<close>
  "no_hit email d r \<longleftrightarrow>
     (\<forall>u. List.find (\<lambda>u. us_email u = to_lower email) (users d) = Some u \<longrightarrow> \<not> can_login (fst r) (snd r) u)"

lemma wrong_requests:
  assumes "count_at email n till s" and "0 < n" and "n + length rs \<le> 5" and "\<forall>r \<in> set rs. ae_now (fst r) < till"
    and "\<forall>r \<in> set rs. no_hit email (au_db s) r"
  shows "\<exists>s'. login_requests rs email s =
      (replicate (min (4 - n) (length rs)) (Inl INVALID_CREDENTIALS) @
       replicate (length rs - (4 - n)) (Inl (TooManyRequests ''Too many login attempts'')), s') \<and>
    count_at email (n + length rs) till s' \<and> au_db s' = au_db s \<and> au_sessions s' = au_sessions s"
  using assms
proof (induction rs arbitrary: n s)
  case (Cons r rs)
  obtain e p where r: "r = (e, p)" by force
  have "\<not> is_ok (login e email p None None s)"
    using Cons.prems(5) by (auto simp: login_iff(1) r no_hit_def user_by_email_def)
  then obtain s1 where one: "login_request e email p None None s =
      (Inl (if n = 4 then TooManyRequests ''Too many login attempts'' else INVALID_CREDENTIALS), s1)"
      "count_at email (Suc n) till s1" "au_db s1 = au_db s" "au_sessions s1 = au_sessions s"
    using failed_request [OF Cons.prems(1), of e p None None] Cons.prems(2-4) by (auto simp: r)
  obtain s' where rest: "login_requests rs email s1 =
      (replicate (min (4 - Suc n) (length rs)) (Inl INVALID_CREDENTIALS) @
       replicate (length rs - (4 - Suc n)) (Inl (TooManyRequests ''Too many login attempts'')), s')"
    "count_at email (Suc n + length rs) till s'" "au_db s' = au_db s1" "au_sessions s' = au_sessions s1"
    using Cons.IH [OF one(2)] Cons.prems(3-5) one(3) by auto
  have "n = 4 \<or> 4 - n = Suc (4 - Suc n)" using Cons.prems(3) by auto
  with rest one show ?case by (auto simp: r)
qed simp

lemma login_requests_append:
  "login_requests (rs @ rs') email s =
    (case login_requests rs email s of (out, s1) \<Rightarrow>
     case login_requests rs' email s1 of (out', s2) \<Rightarrow> (out @ out', s2))"
  by (induction rs email s rule: login_requests.induct) (auto split: prod.splits)

text \<open>
  C32. Of the passwords tried for an address one after another within a window of fifteen minutes at most
  five are looked at. When the first five are wrong, four answers are 401 and the fifth is 429; from
  then on every request is answered 429, the one with the right password too, and no session begins.
\<close>

lemma attempts_bounded:
  assumes "map_of (au_attempts s) (to_lower email) = None" and "length wrong = 4"
    and "\<forall>r \<in> set (wrong @ later). ae_now (fst r) < ae_now e0 + 900000"
    and "\<forall>r \<in> set ((e0, p0) # wrong). no_hit email (au_db s) r"
  shows "\<exists>s'. login_requests ((e0, p0) # wrong @ later) email s =
      (replicate 4 (Inl INVALID_CREDENTIALS) @
       replicate (Suc (length later)) (Inl (TooManyRequests ''Too many login attempts'')), s') \<and>
    au_db s' = au_db s \<and> au_sessions s' = au_sessions s"
proof -
  have "\<not> is_ok (login e0 email p0 None None s)"
    using assms(4) by (auto simp: login_iff(1) no_hit_def user_by_email_def)
  then obtain s1 where one: "login_request e0 email p0 None None s = (Inl INVALID_CREDENTIALS, s1)"
      "count_at email 1 (ae_now e0 + 900000) s1" "au_db s1 = au_db s" "au_sessions s1 = au_sessions s"
    using failed_request [of email 0 "ae_now e0 + 900000" s e0 p0 None None] assms(1) by (auto simp: count_at_def)
  obtain s2 where four: "login_requests wrong email s1 =
      (replicate 3 (Inl INVALID_CREDENTIALS) @ [Inl (TooManyRequests ''Too many login attempts'')], s2)"
      "count_at email 5 (ae_now e0 + 900000) s2" "au_db s2 = au_db s1" "au_sessions s2 = au_sessions s1"
    using wrong_requests [OF one(2), of wrong] assms(2-4) one(3) by auto
  have "login_requests later email s2 =
      (replicate (length later) (Inl (TooManyRequests ''Too many login attempts'')), s2)"
    using refused_requests [OF four(2)] assms(3) by simp
  with one four show ?thesis
    by (simp add: login_requests_append numeral_eq_Suc)
qed

text \<open>
  The limit holds for one request after another only. Requests that have all passed the question while
  the counter was low are all compared, however many they are: the right password after any number of
  wrong ones still opens a session.
\<close>

fun attempts_at_once :: "(auth_env \<times> string) list \<Rightarrow> string \<Rightarrow> auth_store \<Rightarrow> auth_store" where
  \<comment> \<open>requests that have passed the question, finishing one by one\<close>
  "attempts_at_once [] email s = s"
| "attempts_at_once ((e, password) # rs) email s =
     attempts_at_once rs email (snd (login_attempt e email password None None s))"

lemma wrong_attempt_keeps:
  assumes "no_hit email (au_db s) (e, p)"
  shows "au_db (snd (login_attempt e email p None None s)) = au_db s"
proof -
  have "\<not> is_ok (login e email p None None s)"
    using assms by (auto simp: login_iff(1) no_hit_def user_by_email_def)
  then have "login e email p None None s = (Inl INVALID_CREDENTIALS, s)" by (rule login_iff(2))
  then show ?thesis
    by (simp add: login_attempt_def INVALID_CREDENTIALS_def checkAndIncrement_def Let_def)
qed

lemma race_unlimited:
  assumes "\<forall>r \<in> set rs. no_hit email (au_db s) r" and "\<not> no_hit email (au_db s) (e, p)"
  shows "is_ok (login_attempt e email p None None (attempts_at_once rs email s))"
proof -
  have db: "au_db (attempts_at_once rs email s) = au_db s"
    using assms(1)
  proof (induction rs arbitrary: s)
    case (Cons r rs)
    obtain e p where r: "r = (e, p)" by force
    have "no_hit email (au_db s) (e, p)" using Cons.prems by (simp add: r)
    from wrong_attempt_keeps [OF this] show ?case using Cons by (simp add: r)
  qed simp
  have "is_ok (login e email p None None (attempts_at_once rs email s))"
    using assms(2) by (auto simp: login_iff(1) no_hit_def user_by_email_def db)
  then obtain tokens s' where "login e email p None None (attempts_at_once rs email s) = (Inr tokens, s')"
    using ok_outcome by blast
  then show ?thesis by (simp add: login_attempt_def is_ok_def Let_def)
qed

section \<open>A sample\<close>

text \<open>An administrator with a session, an operator who was invited twice, and a pending reset.\<close>

definition sample_auth_env :: auth_env where
  "sample_auth_env =
     \<lparr>ae_now = 0, ae_gen = sample_gen, ae_token = sample_gen, ae_sha = (\<lambda>s. s), ae_hash = (\<lambda>p. p),
      ae_verify = (\<lambda>h p. h = p), ae_sign = cl_sub, ae_mails = (\<lambda>_. True), ae_ttl = (\<lambda>t. t div 1000)\<rparr>"

definition sample_user :: "nat \<Rightarrow> string \<Rightarrow> role \<Rightarrow> string option \<Rightarrow> user" where
  "sample_user n email r h =
     \<lparr>us_id = sample_gen n, us_accountId = ''a1'', us_creditorId = None, us_email = email, us_name = None,
      us_passwordHash = h, us_role = r, us_isActive = (h \<noteq> None), us_mustResetPassword = False, us_createdAt = 0\<rparr>"

definition sample_invite :: "nat \<Rightarrow> invite_row" where
  "sample_invite n =
     \<lparr>in_id = sample_gen n, in_userId = sample_gen 1, in_token = sample_gen n, in_role = OPERATIONAL,
      in_scopes = None, in_status = IN_PENDING, in_expiresAt = 1000\<rparr>"

definition sample_session :: auth_session where
  "sample_session =
     \<lparr>se_id = sample_gen 4, se_userId = sample_gen 0, se_tokenFamily = sample_gen 5, se_refreshTokenHash = sample_gen 6,
      se_userAgent = None, se_ipAddress = None, se_isRevoked = False, se_createdAt = 0, se_expiresAt = 1000,
      se_lastUsedAt = 0\<rparr>"

definition sample_accounts :: auth_store where
  "sample_accounts =
     \<lparr>au_db = empty_db\<lparr>users := [sample_user 0 ''ana@x'' ADMIN (Some ''Senha123''),
        sample_user 1 ''bia@x'' OPERATIONAL None], nextId := 8\<rparr>,
      au_scopes = [], au_sessions = [sample_session], au_invites = [sample_invite 2, sample_invite 3],
      au_resets = [(sample_gen 7, (sample_gen 0, 1000))], au_attempts = [], au_mail = []\<rparr>"

lemma sample_gen_eq [simp]: "sample_gen i = sample_gen j \<longleftrightarrow> i = j"
  using inj_sample_gen by (simp add: inj_eq)

lemmas account_defs = sample_auth_env_def sample_user_def sample_invite_def sample_session_def sample_accounts_def

lemma sample_sources: "sources_ok sample_auth_env"
  using inj_sample_gen by (simp add: sources_ok_def sample_auth_env_def)

lemma sample_strong: "strong ''Senha123''" "strong ''Nova4567''"
  by code_simp+

lemma replay_not_detected_witness:
  "\<exists>acc new s'. refresh sample_auth_env (sample_gen 6) sample_accounts = (Inr (acc, new), s') \<and>
    refresh sample_auth_env (sample_gen 6) s' = (Inl INVALID_REFRESH_TOKEN, s') \<and>
    is_ok (refresh sample_auth_env new s')"
proof -
  have "is_ok (refresh sample_auth_env (sample_gen 6) sample_accounts)"
    by (simp add: refresh_def findByRefreshTokenHash_def user_by_id_def account_defs is_ok_def generateRefreshToken_def)
  then obtain acc new s' where run: "refresh sample_auth_env (sample_gen 6) sample_accounts = (Inr (acc, new), s')"
    by (cases "refresh sample_auth_env (sample_gen 6) sample_accounts") (auto simp: is_ok_def split: sum.splits)
  have "sessions_ok sample_auth_env sample_accounts"
    by (simp add: sessions_ok_def drawn_def token_hash_def account_defs)
  from replay_not_detected [OF this sample_sources run] run show ?thesis by blast
qed

lemma resetPassword_effect_witness:
  "\<exists>s'. resetPassword sample_auth_env (sample_gen 7) ''Nova4567'' sample_accounts = (Inr (), s') \<and>
    live_sessions (sample_gen 0) s' = [] \<and>
    resetPassword sample_auth_env (sample_gen 7) ''Senha123'' s' = (Inl (Gone ''Reset link is no longer valid''), s')"
proof -
  have key: "text_or_null (Some (sample_gen 0)) = Some (sample_gen 0)"
    by (simp add: text_or_null_def sample_gen_def)
  have uid: "reset_user sample_auth_env (ae_sha sample_auth_env (sample_gen 7)) sample_accounts = Some (sample_gen 0)"
    by (simp add: reset_user_def account_defs key)
  moreover have user: "user_by_id (sample_gen 0) sample_accounts = Some (sample_user 0 ''ana@x'' ADMIN (Some ''Senha123''))"
    by (simp add: user_by_id_def account_defs)
  moreover obtain s' where run: "resetPassword sample_auth_env (sample_gen 7) ''Nova4567'' sample_accounts = (Inr (), s')"
    using uid sample_strong(2) by (simp add: resetPassword_def complexity_iff [symmetric] Let_def)
  ultimately show ?thesis using resetPassword_effect [OF run uid user] run by auto
qed

lemma sample_guesses:
  "no_hit ''ana@x'' (au_db sample_accounts) (sample_auth_env, ''errada'')"
  "\<not> no_hit ''ana@x'' (au_db sample_accounts) (sample_auth_env, ''Senha123'')"
proof -
  have lower: "to_lower ''ana@x'' = ''ana@x''" by code_simp
  show "no_hit ''ana@x'' (au_db sample_accounts) (sample_auth_env, ''errada'')"
    "\<not> no_hit ''ana@x'' (au_db sample_accounts) (sample_auth_env, ''Senha123'')"
    by (simp_all add: no_hit_def lower can_login_def has_password_def text_or_null_def account_defs)
qed

lemma attempts_bounded_witness:
  "\<exists>s'. login_requests ((sample_auth_env, ''errada'') # replicate 4 (sample_auth_env, ''errada'') @
      [(sample_auth_env, ''Senha123'')]) ''ana@x'' sample_accounts =
    (replicate 4 (Inl INVALID_CREDENTIALS) @
     replicate (Suc (length [(sample_auth_env, ''Senha123'')])) (Inl (TooManyRequests ''Too many login attempts'')), s') \<and>
    au_db s' = au_db sample_accounts \<and> au_sessions s' = au_sessions sample_accounts"
  by (rule attempts_bounded) (use sample_guesses(1) in \<open>auto simp: sample_accounts_def\<close>)

lemma race_unlimited_witness:
  "is_ok (login_attempt sample_auth_env ''ana@x'' ''Senha123'' None None
     (attempts_at_once (replicate 100 (sample_auth_env, ''errada'')) ''ana@x'' sample_accounts))"
  by (rule race_unlimited) (use sample_guesses in auto)

end
