(* ===== verification/Users.thy ===== *)
theory Users
  imports Auth
begin

text \<open>
  \<open>users/users.service.ts\<close>: invitation, listing, edits, blocking and forced resets of users, and the
  guards under \<open>common/guards\<close> that every request passes, in the order \<open>app.module.ts\<close> registers
  them. The administration of users and the requests of \<open>Auth\<close> together are one step relation.
\<close>

datatype user_status = US_PENDING | US_ACTIVE | US_INACTIVE

definition computeUserStatus :: "bool \<Rightarrow> string option \<Rightarrow> user_status" where
  "computeUserStatus active h =
     (if active then US_ACTIVE else if text_or_null h = None then US_PENDING else US_INACTIVE)"

definition status_of_user :: "user \<Rightarrow> user_status" where
  "status_of_user u = computeUserStatus (us_isActive u) (us_passwordHash u)"

section \<open>Invitations\<close>

record invite_dto =
  iv_email :: string
  iv_role :: role
  iv_scopes :: "string list option"

definition INVITE_HOURS :: int where "INVITE_HOURS = 72"

definition new_user :: "auth_env \<Rightarrow> string \<Rightarrow> string option \<Rightarrow> string \<Rightarrow> string option \<Rightarrow> role \<Rightarrow> auth_store \<Rightarrow> user" where
  "new_user e acc creditorId email name r s =
     \<lparr>us_id = ae_gen e (nextId (au_db s)), us_accountId = acc, us_creditorId = creditorId, us_email = email,
      us_name = name, us_passwordHash = None, us_role = r, us_isActive = False, us_mustResetPassword = False,
      us_createdAt = ae_now e\<rparr>"

definition add_user :: "user \<Rightarrow> auth_store \<Rightarrow> auth_store" where
  "add_user u s = skip_ids 1 (s\<lparr>au_db := (au_db s)\<lparr>users := users (au_db s) @ [u]\<rparr>\<rparr>)"

definition add_invite :: "auth_env \<Rightarrow> string \<Rightarrow> role \<Rightarrow> string list option \<Rightarrow> auth_store \<Rightarrow> string \<times> auth_store" where
  \<comment> \<open>a random token and the row, which ends after 72 hours\<close>
  "add_invite e uid r sc s =
     (let n = nextId (au_db s); tok = ae_token e n;
          v = \<lparr>in_id = ae_gen e (Suc n), in_userId = uid, in_token = tok, in_role = r, in_scopes = sc,
               in_status = IN_PENDING, in_expiresAt = ae_now e + INVITE_HOURS * 3600 * 1000\<rparr>
      in (tok, skip_ids 2 (s\<lparr>au_invites := au_invites s @ [v]\<rparr>)))"

definition expire_invites :: "string \<Rightarrow> auth_store \<Rightarrow> auth_store" where
  "expire_invites uid = set_invite (\<lambda>v. in_userId v = uid \<and> in_status v = IN_PENDING) IN_EXPIRED"

definition send_invitation :: "auth_env \<Rightarrow> string \<Rightarrow> string \<Rightarrow> 'a \<Rightarrow> auth_store \<Rightarrow> (auth_store, 'a) outcome" where
  \<comment> \<open>the mail client throws when the mail is not accepted\<close>
  "send_invitation e email tok r s =
     (if ae_mails e email then (Inr r, s\<lparr>au_mail := au_mail s @ [(email, tok)]\<rparr>)
      else (Inl (Internal ''email''), s))"

definition known_wallet :: "auth_store \<Rightarrow> string \<Rightarrow> bool" where
  "known_wallet s i \<longleftrightarrow> list_ex (\<lambda>w. wl_id w = i) (wallets (au_db s))"

definition invite :: "auth_env \<Rightarrow> invite_dto \<Rightarrow> string \<Rightarrow> auth_store \<Rightarrow> (auth_store, string) outcome" where
  \<comment> \<open>the identifier of the user; a scope on an unknown wallet violates its foreign key\<close>
  "invite e dto acc s =
     (let email = trim (to_lower (iv_email dto)); old = user_by_email email s
      in if (case old of None \<Rightarrow> False | Some u \<Rightarrow> us_isActive u) then (Inl (Conflict ''Email already in use''), s)
         else let (uid, s1) = (case old of
                    None \<Rightarrow> (let u = new_user e acc None email None (iv_role dto) s in (us_id u, add_user u s))
                  | Some u \<Rightarrow> (us_id u, update_user (us_id u) (\<lambda>r. r\<lparr>us_role := iv_role dto\<rparr>) s));
                  (tok, s2) = add_invite e uid (iv_role dto) (iv_scopes dto) s1;
                  ws = (if iv_role dto = VIEWER then or_else (iv_scopes dto) [] else [])
              in if \<not> list_all (known_wallet s2) ws then (Inl (Internal ''P2003''), s2)
                 else send_invitation e email tok uid
                        (s2\<lparr>au_scopes := fold (\<lambda>w ss. if (uid, w) \<in> set ss then ss else ss @ [(uid, w)]) ws (au_scopes s2)\<rparr>))"

definition inviteCreditorUser ::
  "auth_env \<Rightarrow> string \<Rightarrow> string \<Rightarrow> string option \<Rightarrow> string \<Rightarrow> auth_store \<Rightarrow> (auth_store, string) outcome" where
  "inviteCreditorUser e creditorId mail name acc s =
     (if find_creditor creditorId acc (au_db s) = None then (Inl (NotFound ''Creditor not found''), s)
      else let email = trim (to_lower mail); old = user_by_email email s
           in if (case old of None \<Rightarrow> False | Some u \<Rightarrow> us_isActive u) then (Inl (Conflict ''Email already in use''), s)
              else let (uid, s1) = (case old of
                         None \<Rightarrow> (let u = new_user e acc (Some creditorId) email name VIEWER s in (us_id u, add_user u s))
                       | Some u \<Rightarrow> (us_id u, update_user (us_id u) (\<lambda>r. r\<lparr>us_accountId := acc,
                           us_creditorId := Some creditorId, us_role := VIEWER, us_name := or_opt name (us_name r),
                           us_isActive := False\<rparr>) s));
                       (tok, s2) = add_invite e uid VIEWER None (expire_invites uid s1)
                   in send_invitation e email tok uid s2)"

definition resendInvite :: "auth_env \<Rightarrow> string \<Rightarrow> auth_store \<Rightarrow> (auth_store, string) outcome" where
  "resendInvite e uid s =
     (case user_by_id uid s of
        None \<Rightarrow> (Inl (NotFound ''User not found''), s)
      | Some u \<Rightarrow>
          if status_of_user u \<noteq> US_PENDING then (Inl (Conflict ''Invite can only be resent''), s)
          else let (tok, s1) = add_invite e uid (us_role u) None (expire_invites uid s)
               in send_invitation e (us_email u) tok uid s1)"

section \<open>Administration\<close>

record user_entry =
  ue_user :: "string \<times> string \<times> string option"
  ue_role :: role
  ue_isActive :: bool
  ue_status :: user_status
  ue_scopes :: "string list"

definition scopes_of :: "string \<Rightarrow> auth_store \<Rightarrow> string list" where
  "scopes_of uid s = map snd (filter (\<lambda>p. fst p = uid) (au_scopes s))"

definition user_entry_of :: "auth_store \<Rightarrow> user \<Rightarrow> user_entry" where
  \<comment> \<open>the password hash is left out\<close>
  "user_entry_of s u =
     \<lparr>ue_user = (us_id u, us_email u, us_name u), ue_role = us_role u, ue_isActive = us_isActive u,
      ue_status = status_of_user u, ue_scopes = scopes_of (us_id u) s\<rparr>"

definition status_filter :: "user_status option \<Rightarrow> user \<Rightarrow> bool" where
  \<comment> \<open>\<open>buildStatusFilter\<close>\<close>
  "status_filter st u \<longleftrightarrow>
     (case st of
        None \<Rightarrow> True
      | Some US_ACTIVE \<Rightarrow> us_isActive u
      | Some US_PENDING \<Rightarrow> \<not> us_isActive u \<and> us_passwordHash u = None
      | Some US_INACTIVE \<Rightarrow> \<not> us_isActive u \<and> us_passwordHash u \<noteq> None)"

definition listUsers ::
  "(user list \<Rightarrow> user list) \<Rightarrow> nat \<Rightarrow> nat \<Rightarrow> user_status option \<Rightarrow> auth_store \<Rightarrow> user_entry list \<times> nat" where
  "listUsers order page limit st s =
     (let rows = filter (status_filter st) (users (au_db s))
      in (map (user_entry_of s) (take limit (drop ((page - 1) * limit) (order rows))), length rows))"

definition listCreditorUsers :: "(user list \<Rightarrow> user list) \<Rightarrow> string \<Rightarrow> string \<Rightarrow> auth_store \<Rightarrow>
    (string \<times> string \<times> string option \<times> bool \<times> int \<times> user_status) list" where
  "listCreditorUsers order creditorId acc s =
     map (\<lambda>u. (us_id u, us_email u, us_name u, us_isActive u, us_createdAt u, status_of_user u))
       (order (filter (\<lambda>u. us_accountId u = acc \<and> us_creditorId u = Some creditorId) (users (au_db s))))"

definition portal_user :: "string \<Rightarrow> string \<Rightarrow> string \<Rightarrow> auth_store \<Rightarrow> user option" where
  "portal_user creditorId uid acc s =
     List.find (\<lambda>u. us_id u = uid \<and> us_creditorId u = Some creditorId \<and> us_accountId u = acc \<and> us_role u = VIEWER)
       (users (au_db s))"

definition setCreditorUserBlocked ::
  "string \<Rightarrow> string \<Rightarrow> string \<Rightarrow> bool \<Rightarrow> auth_store \<Rightarrow> (auth_store, user_status) outcome" where
  "setCreditorUserBlocked creditorId uid acc blocked s =
     (case portal_user creditorId uid acc s of
        None \<Rightarrow> (Inl (NotFound ''Creditor portal user not found''), s)
      | Some u \<Rightarrow>
          if \<not> blocked \<and> \<not> has_password u then (Inl (Conflict ''O convite precisa ser aceito''), s)
          else let s1 = update_user (us_id u) (\<lambda>r. r\<lparr>us_isActive := \<not> blocked\<rparr>) s
               in (Inr (computeUserStatus (\<not> blocked) (us_passwordHash u)),
                   if blocked then revokeAll (us_id u) s1 else s1))"

record update_user_dto =
  uu_role :: "role option"
  uu_isActive :: "bool option"
  uu_scopes :: "string list option"

definition is_admin :: "user \<Rightarrow> bool" where
  "is_admin u \<longleftrightarrow> us_role u = ADMIN \<and> us_isActive u"

definition patch_user :: "update_user_dto \<Rightarrow> user \<Rightarrow> user" where
  "patch_user dto u = u\<lparr>us_role := or_else (uu_role dto) (us_role u), us_isActive := or_else (uu_isActive dto) (us_isActive u)\<rparr>"

definition loses_admin :: "update_user_dto \<Rightarrow> bool" where
  "loses_admin dto \<longleftrightarrow> uu_isActive dto = Some False \<or> (uu_role dto \<noteq> None \<and> uu_role dto \<noteq> Some ADMIN)"

definition updateUser :: "string \<Rightarrow> update_user_dto \<Rightarrow> auth_store \<Rightarrow> (auth_store, user_entry) outcome" where
  "updateUser uid dto s =
     (case user_by_id uid s of
        None \<Rightarrow> (Inl (NotFound ''User not found''), s)
      | Some u \<Rightarrow>
          if is_admin u \<and> loses_admin dto \<and> count_where (\<lambda>x. is_admin x \<and> us_id x \<noteq> uid) (users (au_db s)) = 0
          then (Inl (Conflict ''The system must maintain at least one active ADMIN''), s)
          else let s1 = update_user uid (patch_user dto) s
               in case uu_scopes dto of
                    None \<Rightarrow> (Inr (user_entry_of s1 (patch_user dto u)), s1)
                  | Some ws \<Rightarrow>
                      if \<not> list_all (known_wallet s) ws then (Inl (Internal ''P2003''), s)
                      else if \<not> distinct ws then (Inl (Internal ''P2002''), s)
                      else let s2 = s1\<lparr>au_scopes := filter (\<lambda>p. fst p \<noteq> uid) (au_scopes s1) @ map (Pair uid) ws\<rparr>
                           in (Inr (user_entry_of s2 (patch_user dto u)), s2))"

definition forceReset :: "string \<Rightarrow> auth_store \<Rightarrow> (auth_store, unit) outcome" where
  "forceReset uid s =
     (case user_by_id uid s of
        None \<Rightarrow> (Inl (NotFound ''User not found''), s)
      | Some u \<Rightarrow>
          if \<not> us_isActive u then (Inl (Conflict ''Force reset can only be applied to active users''), s)
          else (Inr (), revokeAll uid (update_user uid (\<lambda>r. r\<lparr>us_mustResetPassword := True\<rparr>) s)))"

section \<open>The guards of a request\<close>

record route =
  rt_public :: bool
  rt_roles :: "role list"
  rt_portal :: bool
  rt_allowMustReset :: bool
  rt_wallets :: bool

record guarded_request =
  rq_token :: "claims option"
  rq_param_walletId :: "string option"
  rq_param_id :: "string option"
  rq_query_walletId :: "string option"
  rq_body_walletId :: "string option"

definition roles_guard :: "route \<Rightarrow> claims option \<Rightarrow> bool" where
  "roles_guard rt c \<longleftrightarrow>
     (if (case c of None \<Rightarrow> False | Some x \<Rightarrow> text_or_null (cl_creditorId x) \<noteq> None) then rt_portal rt
      else if rt_roles rt = [] then True
      else (case c of None \<Rightarrow> False | Some x \<Rightarrow> cl_role x \<in> set (rt_roles rt)))"

definition extractWalletId :: "route \<Rightarrow> guarded_request \<Rightarrow> string option" where
  "extractWalletId rt rq =
     or_opt (text_or_null (rq_param_walletId rq))
       (or_opt (if rt_wallets rt then text_or_null (rq_param_id rq) else None)
         (or_opt (text_or_null (rq_query_walletId rq)) (text_or_null (rq_body_walletId rq))))"

definition scope_guard :: "route \<Rightarrow> guarded_request \<Rightarrow> auth_store \<Rightarrow> bool" where
  "scope_guard rt rq s \<longleftrightarrow>
     rt_public rt \<or>
     (case rq_token rq of
        None \<Rightarrow> True
      | Some c \<Rightarrow>
          cl_role c \<noteq> VIEWER \<or>
          (case extractWalletId rt rq of None \<Rightarrow> True | Some w \<Rightarrow> w \<in> set (scopes_of (cl_sub c) s)))"

definition must_reset_guard :: "route \<Rightarrow> claims option \<Rightarrow> bool" where
  "must_reset_guard rt c \<longleftrightarrow>
     rt_public rt \<or> rt_allowMustReset rt \<or> (case c of None \<Rightarrow> True | Some x \<Rightarrow> \<not> cl_mustResetPassword x)"

definition admitted :: "route \<Rightarrow> guarded_request \<Rightarrow> auth_store \<Rightarrow> http_error option" where
  \<comment> \<open>\<open>rq_token\<close> is the payload of a valid access token; the strategy of passport refuses any other\<close>
  "admitted rt rq s =
     (let c = (if rt_public rt then None else rq_token rq)
      in if \<not> rt_public rt \<and> c = None then Some (Unauthorized ''Unauthorized'')
         else if \<not> roles_guard rt c then Some (Forbidden ''Forbidden resource'')
         else if \<not> scope_guard rt rq s then Some (Forbidden ''Forbidden resource'')
         else if \<not> must_reset_guard rt c then Some (Forbidden ''Password reset required'')
         else None)"

section \<open>The guards\<close>

text \<open>
  What the guards admit: a public route, or a valid token that meets the role, the portal, the scope and
  the reset conditions of the route.
\<close>

lemma admitted_iff:
  "admitted rt rq s = None \<longleftrightarrow>
     (if rt_public rt then roles_guard rt None
      else \<exists>c. rq_token rq = Some c \<and> roles_guard rt (Some c) \<and> scope_guard rt rq s \<and> must_reset_guard rt (Some c))"
  by (auto simp: admitted_def must_reset_guard_def scope_guard_def Let_def split: option.splits)

lemma admitted_requests:
  assumes "admitted rt rq s = None" and "\<not> rt_public rt"
  obtains c where "rq_token rq = Some c"
    and "text_or_null (cl_creditorId c) \<noteq> None \<Longrightarrow> rt_portal rt"
    and "text_or_null (cl_creditorId c) = None \<Longrightarrow> rt_roles rt = [] \<or> cl_role c \<in> set (rt_roles rt)"
    and "\<And>w. cl_role c = VIEWER \<Longrightarrow> extractWalletId rt rq = Some w \<Longrightarrow> w \<in> set (scopes_of (cl_sub c) s)"
    and "cl_mustResetPassword c \<Longrightarrow> rt_allowMustReset rt"
proof -
  obtain c where c: "rq_token rq = Some c" "roles_guard rt (Some c)" "scope_guard rt rq s" "must_reset_guard rt (Some c)"
    using assms by (auto simp: admitted_iff)
  show thesis
    by (rule that [OF c(1)])
      (use c assms(2) in \<open>auto simp: roles_guard_def scope_guard_def must_reset_guard_def split: if_splits option.splits\<close>)
qed

section \<open>Well-formed accounts\<close>

definition accounts_ok :: "auth_env \<Rightarrow> auth_store \<Rightarrow> bool" where
  \<comment> \<open>identifiers and addresses of users and the tokens of invites are unique; sessions, invites and
    scopes belong to users\<close>
  "accounts_ok e s \<longleftrightarrow>
     sessions_ok e s \<and>
     drawn (ae_gen e) (nextId (au_db s)) (map us_id (users (au_db s))) \<and>
     distinct (map us_email (users (au_db s))) \<and>
     drawn (ae_gen e) (nextId (au_db s)) (map in_id (au_invites s)) \<and>
     drawn (ae_token e) (nextId (au_db s)) (map in_token (au_invites s)) \<and>
     se_userId ` set (au_sessions s) \<union> in_userId ` set (au_invites s) \<union> fst ` set (au_scopes s)
       \<subseteq> us_id ` set (users (au_db s)) \<and>
     distinct (au_scopes s)"

definition administered :: "auth_store \<Rightarrow> bool" where
  "administered s \<longleftrightarrow> list_ex is_admin (users (au_db s))"

definition keeps_keys :: "(user \<Rightarrow> user) \<Rightarrow> bool" where
  "keeps_keys f \<longleftrightarrow> (\<forall>u. us_id (f u) = us_id u \<and> us_email (f u) = us_email u)"

lemma accounts_ok_user:
  assumes "accounts_ok e s" and "keeps_keys f"
  shows "accounts_ok e (update_user i f s)"
proof -
  have keys: "map us_id (update_where P f xs) = map us_id xs" "map us_email (update_where P f xs) = map us_email xs" for P xs
    using assms(2) by (auto simp: keeps_keys_def intro!: map_update_where)
  have "us_id ` set (update_where P f xs) = us_id ` set xs" for P xs
    using keys(1) by (metis list.set_map)
  then show ?thesis
    using assms(1) sessions_ok_frame [of e s "update_user i f s"] by (simp add: accounts_ok_def keys del: list.set_map)
qed

lemma accounts_ok_sessions:
  assumes "accounts_ok e s"
  shows "accounts_ok e (update_sessions P revoked s)"
proof -
  have "se_userId ` set (update_where P revoked xs) = se_userId ` set xs" for xs
    by (metis list.set_map map_update_where revoked_keys(2))
  then show ?thesis using assms sessions_ok_revoke [of e s P] by (simp add: accounts_ok_def)
qed

lemma accounts_ok_invites:
  assumes "accounts_ok e s"
  shows "accounts_ok e (set_invite P st s)"
proof -
  have keys: "map in_id (update_where P (\<lambda>v. v\<lparr>in_status := st\<rparr>) xs) = map in_id xs"
    "map in_token (update_where P (\<lambda>v. v\<lparr>in_status := st\<rparr>) xs) = map in_token xs"
    "map in_userId (update_where P (\<lambda>v. v\<lparr>in_status := st\<rparr>) xs) = map in_userId xs" for xs
    by (rule map_update_where; simp)+
  have "in_userId ` set (update_where P (\<lambda>v. v\<lparr>in_status := st\<rparr>) xs) = in_userId ` set xs" for xs
    using keys(3) by (metis list.set_map)
  then show ?thesis
    using assms sessions_ok_frame [of e s "set_invite P st s"] by (simp add: accounts_ok_def keys del: list.set_map)
qed

lemma accounts_ok_skip:
  assumes "accounts_ok e s"
  shows "accounts_ok e (skip_ids n s)"
  using assms drawn_later [OF _ le_add1, of _ "nextId (au_db s)" _ n] sessions_ok_frame [of e s "skip_ids n s"]
  by (simp add: accounts_ok_def)

lemma accounts_ok_other:
  "accounts_ok e (s\<lparr>au_resets := r\<rparr>) = accounts_ok e s" "accounts_ok e (s\<lparr>au_mail := m\<rparr>) = accounts_ok e s"
  "accounts_ok e (s\<lparr>au_attempts := a\<rparr>) = accounts_ok e s"
  by (simp_all add: accounts_ok_def sessions_ok_def)

lemma accounts_ok_add_user:
  assumes "accounts_ok e s" and "sources_ok e" and "us_id u = ae_gen e (nextId (au_db s))"
    and "user_by_email (us_email u) s = None"
  shows "accounts_ok e (add_user u s)"
proof -
  have mail: "us_email u \<notin> us_email ` set (users (au_db s))"
    using assms(4) by (auto simp: user_by_email_def find_None_iff)
  have "drawn (ae_gen e) (Suc (nextId (au_db s))) (map us_id (users (au_db s)) @ [us_id u])"
    using assms(1) sources_okD(1) [OF assms(2)] unfolding assms(3) by (intro drawn_snoc) (auto simp: accounts_ok_def)
  moreover have "sessions_ok e (add_user u s)"
    by (rule sessions_ok_frame [of e s]) (use assms(1) in \<open>simp_all add: accounts_ok_def add_user_def\<close>)
  moreover have "drawn g (Suc (nextId (au_db s))) ks" if "drawn g (nextId (au_db s)) ks" for g ks
    using drawn_later [OF that] by simp
  ultimately show ?thesis
    using assms(1) mail unfolding accounts_ok_def by (auto simp: add_user_def)
qed

lemma accounts_ok_add_invite:
  assumes "accounts_ok e s" and "sources_ok e" and "uid \<in> us_id ` set (users (au_db s))"
    and "add_invite e uid r sc s = (tok, s')"
  shows "accounts_ok e s'"
proof -
  let ?n = "nextId (au_db s)"
  obtain v where v: "au_invites s' = au_invites s @ [v]" "in_id v = ae_gen e (Suc ?n)" "in_token v = ae_token e ?n"
      "in_userId v = uid" "users (au_db s') = users (au_db s)" "nextId (au_db s') = ?n + 2"
      "au_sessions s' = au_sessions s" "au_scopes s' = au_scopes s"
    using assms(4) by (auto simp: add_invite_def Let_def)
  have g: "inj (ae_gen e)" "inj (ae_token e)" using assms(2) by (simp_all add: sources_ok_def)
  have "drawn (ae_gen e) (?n + 2) (map in_id (au_invites s) @ [in_id v])"
    using assms(1) g(1) unfolding v(2) by (intro drawn_snoc [of _ ?n]) (auto simp: accounts_ok_def)
  moreover have "drawn (ae_token e) (?n + 2) (map in_token (au_invites s) @ [in_token v])"
    using assms(1) g(2) unfolding v(3) by (intro drawn_snoc [of _ ?n]) (auto simp: accounts_ok_def)
  moreover have "sessions_ok e s'"
    by (rule sessions_ok_frame [of e s]) (use assms(1) v in \<open>simp_all add: accounts_ok_def\<close>)
  moreover have "drawn k (?n + 2) ks" if "drawn k ?n ks" for k ks
    using drawn_later [OF that] by simp
  ultimately show ?thesis
    using assms(1,3) unfolding accounts_ok_def by (simp add: v(1,4-8))
qed

section \<open>Every request keeps the accounts well formed\<close>

definition identity_ok :: "auth_env \<Rightarrow> auth_store \<Rightarrow> bool" where
  "identity_ok e s \<longleftrightarrow> accounts_ok e s \<and> administered s"

lemma administered_users: "users (au_db s') = users (au_db s) \<Longrightarrow> administered s' = administered s"
  by (simp add: administered_def)

lemma identity_user:
  assumes "identity_ok e s" and "keeps_keys f" and "\<And>u. is_admin u \<Longrightarrow> u \<in> set (users (au_db s)) \<Longrightarrow> us_id u = i \<Longrightarrow> is_admin (f u)"
  shows "identity_ok e (update_user i f s)"
proof -
  obtain u where u: "u \<in> set (users (au_db s))" "is_admin u"
    using assms(1) by (auto simp: identity_ok_def administered_def list_ex_iff)
  have "(if us_id u = i then f u else u) \<in> set (users (au_db (update_user i f s)))"
    using u(1) by (auto simp: in_update_where)
  moreover have "is_admin (if us_id u = i then f u else u)" using u assms(3) by simp
  ultimately have "administered (update_user i f s)" by (auto simp: administered_def list_ex_iff)
  with assms(1,2) show ?thesis by (simp add: identity_ok_def accounts_ok_user)
qed

lemma identity_frame:
  "identity_ok e s \<Longrightarrow> identity_ok e (update_sessions P revoked s)"
  "identity_ok e s \<Longrightarrow> identity_ok e (set_invite Q st s)"
  "identity_ok e s \<Longrightarrow> identity_ok e (skip_ids n s)"
  "identity_ok e (s\<lparr>au_resets := r\<rparr>) = identity_ok e s"
  "identity_ok e (s\<lparr>au_mail := m\<rparr>) = identity_ok e s"
  "identity_ok e (s\<lparr>au_attempts := a\<rparr>) = identity_ok e s"
  by (simp_all add: identity_ok_def accounts_ok_sessions accounts_ok_invites accounts_ok_skip accounts_ok_other
      administered_def)

lemma identity_add_user:
  assumes "identity_ok e s" and "sources_ok e" and "us_id u = ae_gen e (nextId (au_db s))"
    and "user_by_email (us_email u) s = None"
  shows "identity_ok e (add_user u s)"
  using assms accounts_ok_add_user [OF _ assms(2-4)]
  by (auto simp: identity_ok_def administered_def add_user_def)

lemma identity_add_invite:
  assumes "identity_ok e s" and "sources_ok e" and "uid \<in> us_id ` set (users (au_db s))"
    and "add_invite e uid r sc s = (tok, s')"
  shows "identity_ok e s'"
  using assms accounts_ok_add_invite [OF _ assms(2-4)]
  by (auto simp: identity_ok_def administered_def add_invite_def Let_def)

lemma identity_send:
  assumes "identity_ok e s"
  shows "identity_ok e (snd (send_invitation e' email tok r s))"
  using assms by (simp add: send_invitation_def identity_frame)

lemma revokes [simp]:
  "identity_ok e s \<Longrightarrow> identity_ok e (revoke i s)" "identity_ok e s \<Longrightarrow> identity_ok e (revokeAll i s)"
  "identity_ok e s \<Longrightarrow> identity_ok e (revokeAllExcept i j s)" "identity_ok e s \<Longrightarrow> identity_ok e (revokeByTokenFamily f s)"
  "identity_ok e s \<Longrightarrow> identity_ok e (expire_invites i s)"
  by (simp_all add: revoke_def revokeAll_def revokeAllExcept_def revokeByTokenFamily_def expire_invites_def identity_frame)

lemma user_id_in: "user_by_id i s = Some u \<Longrightarrow> i \<in> us_id ` set (users (au_db s))"
  using user_by_id_eq by force

lemma user_email_in: "user_by_email m s = Some u \<Longrightarrow> u \<in> set (users (au_db s)) \<and> us_email u = m"
  unfolding user_by_email_def by (auto dest: find_SomeD)

lemma login_identity:
  assumes "identity_ok e s" and "sources_ok e"
  shows "identity_ok e (snd (login e email password agent ip s))"
proof (cases "\<exists>u. user_by_email (to_lower email) s = Some u \<and> can_login e password u")
  case False
  then have "login e email password agent ip s = (Inl INVALID_CREDENTIALS, s)" by (intro login_fails) blast
  with assms(1) show ?thesis by simp
next
  case True
  then obtain u tok x s' where u: "user_by_email (to_lower email) s = Some u"
    and gen: "generateRefreshToken e s = (tok, skip_ids 1 s)"
    and new: "create_session e (us_id u) (ae_sha e tok) agent ip (ae_now e + 7 * day_ms) (skip_ids 1 s) = (x, s')"
    and run: "login e email password agent ip s = (Inr (ae_sign e (access_claims u (se_id x)), tok), s')"
    using login_succeeds by blast
  have ok: "sessions_ok e s'"
    using sessions_ok_create [OF _ assms(2) gen new] assms(1) by (simp add: identity_ok_def accounts_ok_def)
  have fr: "users (au_db s') = users (au_db s)" "au_invites s' = au_invites s" "au_scopes s' = au_scopes s"
    "nextId (au_db s') = nextId (au_db s) + 3" "au_sessions s' = au_sessions s @ [x]" "se_userId x = us_id u"
    using new by (auto simp: create_session_def Let_def)
  have "drawn g (nextId (au_db s) + 3) ks" if "drawn g (nextId (au_db s)) ks" for g ks
    using drawn_later [OF that] by simp
  then have "accounts_ok e s'"
    using assms(1) ok user_email_in [OF u] by (simp add: identity_ok_def accounts_ok_def fr)
  with assms(1) show ?thesis by (simp add: run identity_ok_def administered_users [OF fr(1)])
qed

lemma login_attempt_identity:
  assumes "identity_ok e s" and "sources_ok e"
  shows "identity_ok e (snd (login_attempt e email password agent ip s))"
proof -
  have inc: "identity_ok e s' \<Longrightarrow> identity_ok e (snd (checkAndIncrement e' m s'))" for s' e' m
    by (simp add: checkAndIncrement_def identity_frame Let_def)
  obtain r s1 where run: "login e email password agent ip s = (r, s1)" by force
  then have s1: "identity_ok e s1" using login_identity [OF assms, of email password agent ip] by simp
  obtain t s2 where chk: "checkAndIncrement e (to_lower email) s1 = (t, s2)" by force
  then have s2: "identity_ok e s2" using inc [OF s1, of e "to_lower email"] by simp
  show ?thesis
    using assms(1) s1 s2
    by (simp add: login_attempt_def run chk reset_attempts_def identity_frame Let_def
        split: option.split sum.split http_error.split prod.split)
qed

lemma login_request_identity:
  assumes "identity_ok e s" and "sources_ok e"
  shows "identity_ok e (snd (login_request e email password agent ip s))"
  using assms login_attempt_identity [OF assms, of email password agent ip]
  by (simp add: login_request_def split: option.split)

lemma refresh_identity:
  assumes "identity_ok e s" and "sources_ok e"
  shows "identity_ok e (snd (refresh e tok s))"
proof (cases "is_ok (refresh e tok s)")
  case False
  then show ?thesis
    using assms(1) by (auto simp: refresh_def is_ok_def generateRefreshToken_def Let_def split: option.splits if_splits)
next
  case True
  then obtain acc new s' where run: "refresh e tok s = (Inr (acc, new), s')"
    by (cases "refresh e tok s") (auto simp: is_ok_def split: sum.splits)
  obtain x u where x: "findByRefreshTokenHash (ae_sha e tok) s = Some x"
    and gen: "generateRefreshToken e s = (new, skip_ids 1 s)"
    and s': "s' = rotateToken e (se_id x) (ae_sha e new) (skip_ids 1 s)"
    using run by (rule refresh_ok)
  have ok: "sessions_ok e s'"
    unfolding s' using assms find_hash_in [OF x] gen
    by (intro sessions_ok_rotate) (simp_all add: identity_ok_def accounts_ok_def)
  have "se_userId ` set (au_sessions s') = se_userId ` set (au_sessions s)"
  proof -
    have "map se_userId (au_sessions s') = map se_userId (au_sessions s)"
      unfolding s' rotateToken_def store_simps by (rule map_update_where) simp
    then show ?thesis by (metis list.set_map)
  qed
  moreover have "drawn g (Suc (nextId (au_db s))) ks" if "drawn g (nextId (au_db s)) ks" for g ks
    using drawn_later [OF that] by simp
  ultimately have "accounts_ok e s'"
    using assms(1) ok unfolding identity_ok_def accounts_ok_def by (simp add: s' rotateToken_def)
  with assms(1) show ?thesis
    by (simp add: run identity_ok_def administered_def s' rotateToken_def)
qed

lemma logout_identity: "identity_ok e s \<Longrightarrow> identity_ok e (logout e' tok s)"
  by (simp add: logout_def split: option.split)

lemma activate_identity:
  assumes "identity_ok e s"
  shows "identity_ok e (snd (activate e' t password s))"
  using identity_user [OF assms, of "\<lambda>u. u\<lparr>us_passwordHash := Some (ae_hash e' password), us_isActive := True\<rparr>"] assms
  by (simp add: activate_def identity_frame keeps_keys_def is_admin_def split: option.split)

lemma new_password_identity: "identity_ok e s \<Longrightarrow> identity_ok e (update_user i (new_password h) s)"
  by (rule identity_user) (simp_all add: keeps_keys_def new_password_def is_admin_def)

lemma password_identity:
  assumes "identity_ok e s"
  shows "identity_ok e (snd (changePassword e' uid sid old new s))"
    and "identity_ok e (snd (resetPassword e' tok new s))"
    and "identity_ok e (forgotPassword e' email s)"
  using assms new_password_identity [OF assms]
  by (simp_all add: changePassword_def resetPassword_def forgotPassword_def generateRefreshToken_def identity_frame
      Let_def split: option.split)

lemma revokeSession_identity: "identity_ok e s \<Longrightarrow> identity_ok e (snd (revokeSession uid sid cur s))"
  by (simp add: revokeSession_def split: option.split)

lemma scopes_identity:
  assumes "identity_ok e s" and "distinct ss" and "fst ` set ss \<subseteq> us_id ` set (users (au_db s))"
  shows "identity_ok e (s\<lparr>au_scopes := ss\<rparr>)"
  using assms sessions_ok_frame [of e s "s\<lparr>au_scopes := ss\<rparr>"]
  by (simp add: identity_ok_def accounts_ok_def administered_def)

lemma add_scopes:
  assumes "distinct ss" and "\<forall>p \<in> set ss. fst p \<in> U" and "uid \<in> U"
  shows "distinct (fold (\<lambda>w ss. if (uid, w) \<in> set ss then ss else ss @ [(uid, w)]) ws ss) \<and>
    (\<forall>p \<in> set (fold (\<lambda>w ss. if (uid, w) \<in> set ss then ss else ss @ [(uid, w)]) ws ss). fst p \<in> U)"
  using assms(1,2)
proof (induction ws arbitrary: ss)
  case (Cons w ws)
  define ss' where "ss' = (if (uid, w) \<in> set ss then ss else ss @ [(uid, w)])"
  have "distinct ss'" "\<forall>p \<in> set ss'. fst p \<in> U" using Cons.prems assms(3) by (auto simp: ss'_def)
  from Cons.IH [OF this] show ?case by (simp add: ss'_def)
qed simp

lemma updated_ids:
  assumes "keeps_keys f"
  shows "us_id ` set (users (au_db (update_user i f s))) = us_id ` set (users (au_db s))"
proof -
  have "map us_id (users (au_db (update_user i f s))) = map us_id (users (au_db s))"
    unfolding store_simps by (rule map_update_where) (use assms in \<open>simp add: keeps_keys_def\<close>)
  then show ?thesis by (metis list.set_map)
qed

lemma is_admin_unique:
  assumes "accounts_ok e s" and "user_by_email m s = Some u" and "v \<in> set (users (au_db s))" and "us_id v = us_id u"
  shows "v = u"
  using assms user_email_in [OF assms(2)] same_key [of us_id "users (au_db s)" v u]
  by (simp add: accounts_ok_def drawn_def)

lemma old_user_identity:
  assumes "identity_ok e s" and "user_by_email m s = Some u" and "\<not> us_isActive u" and "keeps_keys f"
  shows "identity_ok e (update_user (us_id u) f s)"
  using assms(1,4)
proof (rule identity_user)
  fix v assume "is_admin v" "v \<in> set (users (au_db s))" "us_id v = us_id u"
  then have "v = u" using assms(1) by (intro is_admin_unique [OF _ assms(2), of e]) (simp_all add: identity_ok_def)
  with \<open>is_admin v\<close> assms(3) show "is_admin (f v)" by (simp add: is_admin_def)
qed

lemma new_user_identity:
  assumes "identity_ok e s" and "sources_ok e" and "user_by_email m s = None"
  shows "identity_ok e (add_user (new_user e acc c m name r s) s)"
  using assms by (intro identity_add_user) (simp_all add: new_user_def)

lemma invite_identity:
  assumes "identity_ok e s" and "sources_ok e"
  shows "identity_ok e (snd (invite e dto acc s))"
proof -
  define m where "m = trim (to_lower (iv_email dto))"
  define old where "old = user_by_email m s"
  define uid where "uid = (case old of None \<Rightarrow> us_id (new_user e acc None m None (iv_role dto) s) | Some u \<Rightarrow> us_id u)"
  define s1 where "s1 = (case old of None \<Rightarrow> add_user (new_user e acc None m None (iv_role dto) s) s
    | Some u \<Rightarrow> update_user (us_id u) (\<lambda>r. r\<lparr>us_role := iv_role dto\<rparr>) s)"
  show ?thesis
  proof (cases "\<exists>u. old = Some u \<and> us_isActive u")
    case True
    then show ?thesis using assms(1) by (auto simp: invite_def m_def old_def Let_def)
  next
    case False
    have s1: "identity_ok e s1"
    proof (cases old)
      case None
      then show ?thesis using new_user_identity [OF assms] by (simp add: s1_def old_def)
    next
      case (Some u)
      then show ?thesis
        using False old_user_identity [OF assms(1), of m u] by (simp add: s1_def old_def keeps_keys_def)
    qed
    have uid: "uid \<in> us_id ` set (users (au_db s1))"
    proof (cases old)
      case (Some u)
      have "u \<in> set (users (au_db s))" using Some user_email_in by (auto simp: old_def)
      then show ?thesis by (simp add: uid_def s1_def Some updated_ids keeps_keys_def del: store_simps)
    qed (simp add: uid_def s1_def add_user_def)
    obtain tok s2 where inv: "add_invite e uid (iv_role dto) (iv_scopes dto) s1 = (tok, s2)" by force
    have s2: "identity_ok e s2" by (rule identity_add_invite [OF s1 assms(2) uid inv])
    have uid2: "uid \<in> us_id ` set (users (au_db s2))"
      using uid inv by (auto simp: add_invite_def Let_def)
    define ws where "ws = (if iv_role dto = VIEWER then or_else (iv_scopes dto) [] else [])"
    define s3 where "s3 = s2\<lparr>au_scopes := fold (\<lambda>w ss. if (uid, w) \<in> set ss then ss else ss @ [(uid, w)]) ws (au_scopes s2)\<rparr>"
    have "distinct (au_scopes s2)" "\<forall>p \<in> set (au_scopes s2). fst p \<in> us_id ` set (users (au_db s2))"
      using s2 by (auto simp: identity_ok_def accounts_ok_def)
    from add_scopes [OF this uid2, of ws] have s3: "identity_ok e s3"
      unfolding s3_def using s2 by (intro scopes_identity) auto
    have pair: "(case old of None \<Rightarrow> (let u = new_user e acc None m None (iv_role dto) s in (us_id u, add_user u s))
        | Some u \<Rightarrow> (us_id u, update_user (us_id u) (\<lambda>r. r\<lparr>us_role := iv_role dto\<rparr>) s)) = (uid, s1)"
      by (simp add: uid_def s1_def Let_def split: option.split)
    have "invite e dto acc s = (if \<not> list_all (known_wallet s2) ws then (Inl (Internal ''P2003''), s2)
        else send_invitation e m tok uid s3)"
      using False unfolding invite_def Let_def m_def [symmetric] old_def [symmetric]
      by (simp add: pair [unfolded Let_def] inv ws_def [symmetric] s3_def split: option.split)
    then show ?thesis using s2 by (simp add: identity_send [OF s3])
  qed
qed

lemma inviteCreditorUser_identity:
  assumes "identity_ok e s" and "sources_ok e"
  shows "identity_ok e (snd (inviteCreditorUser e creditorId mail name acc s))"
proof -
  define m where "m = trim (to_lower mail)"
  define old where "old = user_by_email m s"
  define f :: "user \<Rightarrow> user" where "f = (\<lambda>r. r\<lparr>us_accountId := acc, us_creditorId := Some creditorId, us_role := VIEWER,
    us_name := or_opt name (us_name r), us_isActive := False\<rparr>)"
  define uid where "uid = (case old of None \<Rightarrow> us_id (new_user e acc (Some creditorId) m name VIEWER s) | Some u \<Rightarrow> us_id u)"
  define s1 where "s1 = (case old of None \<Rightarrow> add_user (new_user e acc (Some creditorId) m name VIEWER s) s
    | Some u \<Rightarrow> update_user (us_id u) f s)"
  show ?thesis
  proof (cases "find_creditor creditorId acc (au_db s) = None \<or> (\<exists>u. old = Some u \<and> us_isActive u)")
    case True
    then show ?thesis using assms(1) by (auto simp: inviteCreditorUser_def m_def old_def Let_def)
  next
    case False
    have s1: "identity_ok e s1"
    proof (cases old)
      case None
      then show ?thesis using new_user_identity [OF assms] by (simp add: s1_def old_def)
    next
      case (Some u)
      then show ?thesis
        using False old_user_identity [OF assms(1), of m u f] by (simp add: s1_def old_def keeps_keys_def f_def)
    qed
    have "uid \<in> us_id ` set (users (au_db s1))"
    proof (cases old)
      case (Some u)
      have "u \<in> set (users (au_db s))" using Some user_email_in by (auto simp: old_def)
      then show ?thesis by (simp add: uid_def s1_def Some updated_ids keeps_keys_def f_def del: store_simps)
    qed (simp add: uid_def s1_def add_user_def)
    then have uid: "uid \<in> us_id ` set (users (au_db (expire_invites uid s1)))" by (simp add: expire_invites_def)
    obtain tok s2 where inv: "add_invite e uid VIEWER None (expire_invites uid s1) = (tok, s2)" by force
    have s2: "identity_ok e s2"
      using s1 by (intro identity_add_invite [OF _ assms(2) uid inv]) simp
    have pair: "(case old of None \<Rightarrow> (let u = new_user e acc (Some creditorId) m name VIEWER s in (us_id u, add_user u s))
        | Some u \<Rightarrow> (us_id u, update_user (us_id u) f s)) = (uid, s1)"
      by (simp add: uid_def s1_def Let_def split: option.split)
    have "inviteCreditorUser e creditorId mail name acc s = send_invitation e m tok uid s2"
      using False unfolding inviteCreditorUser_def Let_def m_def [symmetric] old_def [symmetric] f_def [symmetric]
      by (auto simp: pair [unfolded Let_def] inv split: option.split)
    then show ?thesis by (simp add: identity_send [OF s2])
  qed
qed

lemma resendInvite_identity:
  assumes "identity_ok e s" and "sources_ok e"
  shows "identity_ok e (snd (resendInvite e uid s))"
proof (cases "user_by_id uid s")
  case None
  then show ?thesis using assms(1) by (simp add: resendInvite_def)
next
  case (Some u)
  have "uid \<in> us_id ` set (users (au_db (expire_invites uid s)))"
    using user_id_in [OF Some] by (simp add: expire_invites_def)
  moreover obtain tok s1 where inv: "add_invite e uid (us_role u) None (expire_invites uid s) = (tok, s1)" by force
  ultimately have "identity_ok e s1" using assms by (intro identity_add_invite [OF _ assms(2) _ inv]) simp_all
  then show ?thesis
    using assms(1) by (simp add: resendInvite_def Some inv identity_send)
qed

lemma setCreditorUserBlocked_identity:
  assumes "identity_ok e s"
  shows "identity_ok e (snd (setCreditorUserBlocked creditorId uid acc blocked s))"
proof (cases "portal_user creditorId uid acc s")
  case None
  then show ?thesis using assms by (simp add: setCreditorUserBlocked_def)
next
  case (Some u)
  then have u: "u \<in> set (users (au_db s))" "us_role u = VIEWER"
    unfolding portal_user_def by (auto dest: find_SomeD)
  have "identity_ok e (update_user (us_id u) (\<lambda>r. r\<lparr>us_isActive := \<not> blocked\<rparr>) s)"
    using assms
  proof (rule identity_user)
    fix v assume v: "is_admin v" "v \<in> set (users (au_db s))" "us_id v = us_id u"
    then have "v = u" using u(1) assms same_key [of us_id "users (au_db s)" v u]
      by (simp add: identity_ok_def accounts_ok_def drawn_def)
    with v(1) u(2) show "is_admin (v\<lparr>us_isActive := \<not> blocked\<rparr>)" by (simp add: is_admin_def)
  qed (simp add: keeps_keys_def)
  then show ?thesis using assms by (cases blocked) (simp_all add: setCreditorUserBlocked_def Some Let_def)
qed

lemma updateUser_identity:
  assumes "identity_ok e s"
  shows "identity_ok e (snd (updateUser uid dto s))"
proof (cases "user_by_id uid s")
  case None
  then show ?thesis using assms by (simp add: updateUser_def)
next
  case (Some u)
  have kk: "keeps_keys (patch_user dto)" by (simp add: keeps_keys_def patch_user_def)
  have ids: "distinct (map us_id (users (au_db s)))" using assms by (simp add: identity_ok_def accounts_ok_def drawn_def)
  have step: "identity_ok e (update_user uid (patch_user dto) s)"
    if g: "\<not> (is_admin u \<and> loses_admin dto \<and> count_where (\<lambda>x. is_admin x \<and> us_id x \<noteq> uid) (users (au_db s)) = 0)"
  proof (cases "is_admin u \<and> loses_admin dto")
    case True
    then obtain v where v: "v \<in> set (users (au_db s))" "is_admin v" "us_id v \<noteq> uid"
      using g by (auto simp: count_where_def filter_empty_conv)
    then have "v \<in> set (users (au_db (update_user uid (patch_user dto) s)))" by (auto simp: in_update_where)
    with v(2) have "administered (update_user uid (patch_user dto) s)" by (auto simp: administered_def list_ex_iff)
    then show ?thesis using assms kk by (simp add: identity_ok_def accounts_ok_user)
  next
    case False
    show ?thesis
      using assms kk
    proof (rule identity_user)
      fix v assume v: "is_admin v" "v \<in> set (users (au_db s))" "us_id v = uid"
      then have "v = u" using user_by_id_eq [OF Some] same_key [OF ids, of v u] by simp
      then have "\<not> loses_admin dto" using False v(1) by simp
      with v(1) show "is_admin (patch_user dto v)"
        by (cases "uu_role dto"; cases "uu_isActive dto") (auto simp: is_admin_def patch_user_def loses_admin_def)
    qed
  qed
  show ?thesis
  proof (cases "is_admin u \<and> loses_admin dto \<and> count_where (\<lambda>x. is_admin x \<and> us_id x \<noteq> uid) (users (au_db s)) = 0")
    case True
    then show ?thesis using assms by (simp add: updateUser_def Some)
  next
    case False
    note ok = step [OF False]
    have scopes: "identity_ok e ((update_user uid (patch_user dto) s)
        \<lparr>au_scopes := filter (\<lambda>p. fst p \<noteq> uid) (au_scopes s) @ map (Pair uid) ws\<rparr>)" if "distinct ws" for ws
    proof (rule scopes_identity [OF ok])
      have d: "distinct (au_scopes s)" "fst ` set (au_scopes s) \<subseteq> us_id ` set (users (au_db (update_user uid (patch_user dto) s)))"
        using ok by (simp_all add: identity_ok_def accounts_ok_def)
      then show "distinct (filter (\<lambda>p. fst p \<noteq> uid) (au_scopes s) @ map (Pair uid) ws)"
        using that by (auto simp: distinct_map inj_on_def)
      have "uid \<in> us_id ` set (users (au_db (update_user uid (patch_user dto) s)))"
        using user_id_in [OF Some] by (simp only: updated_ids [OF kk])
      then show "fst ` set (filter (\<lambda>p. fst p \<noteq> uid) (au_scopes s) @ map (Pair uid) ws)
          \<subseteq> us_id ` set (users (au_db (update_user uid (patch_user dto) s)))"
        using d(2) by auto
    qed
    show ?thesis
      using False assms ok scopes unfolding updateUser_def Let_def by (auto simp: Some split: option.split)
  qed
qed

lemma forceReset_identity:
  assumes "identity_ok e s"
  shows "identity_ok e (snd (forceReset uid s))"
  using identity_user [OF assms, of "\<lambda>r. r\<lparr>us_mustResetPassword := True\<rparr>" uid] assms
  by (simp add: forceReset_def keeps_keys_def is_admin_def split: option.split)

section \<open>All requests on accounts\<close>

definition same_sources :: "auth_env \<Rightarrow> auth_env \<Rightarrow> bool" where
  \<comment> \<open>two instants of one system\<close>
  "same_sources e e' \<longleftrightarrow> ae_gen e' = ae_gen e \<and> ae_token e' = ae_token e \<and> ae_sha e' = ae_sha e"

lemma identity_same:
  assumes "same_sources e e'"
  shows "identity_ok e' s = identity_ok e s"
proof -
  have "token_hash e' = token_hash e" using assms by (auto simp: same_sources_def token_hash_def)
  then show ?thesis using assms by (simp add: same_sources_def identity_ok_def accounts_ok_def sessions_ok_def)
qed

inductive account_step :: "auth_env \<Rightarrow> auth_store \<Rightarrow> auth_store \<Rightarrow> bool" for e where
  login: "same_sources e e' \<Longrightarrow> account_step e s (snd (login_request e' email password agent ip s))"
| attempt: "same_sources e e' \<Longrightarrow> account_step e s (snd (login_attempt e' email password agent ip s))"
| refresh: "same_sources e e' \<Longrightarrow> account_step e s (snd (refresh e' tok s))"
| logout: "account_step e s (logout e' tok s)"
| activate: "account_step e s (snd (activate e' t password s))"
| change: "account_step e s (snd (changePassword e' uid sid old new s))"
| forgot: "account_step e s (forgotPassword e' email s)"
| reset: "account_step e s (snd (resetPassword e' tok new s))"
| end_session: "account_step e s (snd (revokeSession uid sid cur s))"
| end_sessions: "account_step e s (revokeAllExcept uid sid s)"
| invite: "same_sources e e' \<Longrightarrow> account_step e s (snd (invite e' dto acc s))"
| invite_portal: "same_sources e e' \<Longrightarrow> account_step e s (snd (inviteCreditorUser e' c mail name acc s))"
| resend: "same_sources e e' \<Longrightarrow> account_step e s (snd (resendInvite e' uid s))"
| block: "account_step e s (snd (setCreditorUserBlocked c uid acc blocked s))"
| edit: "account_step e s (snd (updateUser uid patch s))"
| force: "account_step e s (snd (forceReset uid s))"

lemma account_step_identity:
  assumes "account_step e s s'" and "identity_ok e s" and "sources_ok e"
  shows "identity_ok e s'"
proof -
  have src: "sources_ok e'" if "same_sources e e'" for e'
    using that assms(3) by (simp add: same_sources_def sources_ok_def)
  show ?thesis
    using assms(1)
  proof cases
    case (login e' email password agent ip)
    then show ?thesis
      using login_request_identity [OF _ src, of e' s email password agent ip] assms(2) identity_same by blast
  next
    case (attempt e' email password agent ip)
    then show ?thesis
      using login_attempt_identity [OF _ src, of e' s email password agent ip] assms(2) identity_same by blast
  next
    case (refresh e' tok)
    then show ?thesis using refresh_identity [OF _ src, of e' s tok] assms(2) identity_same by blast
  next
    case (invite e' dto acc)
    then show ?thesis using invite_identity [OF _ src, of e' s dto acc] assms(2) identity_same by blast
  next
    case (invite_portal e' c mail name acc)
    then show ?thesis
      using inviteCreditorUser_identity [OF _ src, of e' s c mail name acc] assms(2) identity_same by blast
  next
    case (resend e' uid)
    then show ?thesis using resendInvite_identity [OF _ src, of e' s uid] assms(2) identity_same by blast
  qed (use assms(2) in \<open>simp_all add: logout_identity activate_identity password_identity revokeSession_identity
      setCreditorUserBlocked_identity updateUser_identity forceReset_identity\<close>)
qed

text \<open>
  C30. However the requests on accounts are interleaved, users, addresses, sessions, refresh tokens and invites
  stay unique, sessions, invites and scopes belong to users, and an active administrator is left.
\<close>

lemma accounts_invariant:
  assumes "(account_step e)\<^sup>*\<^sup>* s s'" and "identity_ok e s" and "sources_ok e"
  shows "identity_ok e s'"
  using assms by (induction rule: rtranclp_induct) (auto intro: account_step_identity)

section \<open>What deactivation does not stop\<close>

lemma activate_by:
  assumes "accounts_ok e s" and "v \<in> set (au_invites s)" and "in_status v = IN_PENDING"
    and "ae_now e' \<le> in_expiresAt v" and "strong password"
  shows "activate e' (in_token v) password s =
    (Inr (), set_invite (\<lambda>x. in_id x = in_id v) IN_ACCEPTED
      (update_user (in_userId v) (\<lambda>u. u\<lparr>us_passwordHash := Some (ae_hash e' password), us_isActive := True\<rparr>) s))"
proof -
  have "invite_by_token (in_token v) s = Some v"
    unfolding invite_by_token_def
    by (rule find_key_unique [OF _ assms(2)]) (use assms(1) in \<open>simp add: accounts_ok_def drawn_def\<close>)
  then show ?thesis using assms(3-5) by (simp add: activate_def complexity_iff [symmetric])
qed

lemma updateUser_invites: "au_invites (snd (updateUser uid dto s)) = au_invites s"
  by (simp add: updateUser_def Let_def split: option.split)

text \<open>
  A second invitation leaves the first one open, and activation does not ask whether the user is new: who
  was invited twice, accepted once and was deactivated lets himself in again with the other link.
\<close>

lemma deactivated_user_returns:
  assumes "identity_ok e s" and "v1 \<in> set (au_invites s)" and "v2 \<in> set (au_invites s)" and "v1 \<noteq> v2"
    and "in_userId v1 = uid" and "in_userId v2 = uid"
    and "in_status v1 = IN_PENDING" and "in_status v2 = IN_PENDING"
    and "ae_now e1 \<le> in_expiresAt v1" and "ae_now e2 \<le> in_expiresAt v2" and "strong p1" and "strong p2"
    and "updateUser uid \<lparr>uu_role = None, uu_isActive = Some False, uu_scopes = None\<rparr>
      (snd (activate e1 (in_token v1) p1 s)) = (Inr entry, s2)"
  shows "ue_isActive entry = False \<and>
    fst (activate e2 (in_token v2) p2 s2) = Inr () \<and>
    (\<exists>u. user_by_id uid (snd (activate e2 (in_token v2) p2 s2)) = Some u \<and> us_isActive u \<and>
       us_passwordHash u = Some (ae_hash e2 p2))"
proof -
  have acc: "accounts_ok e s" using assms(1) by (simp add: identity_ok_def)
  define s1 where "s1 = snd (activate e1 (in_token v1) p1 s)"
  have s1: "au_invites s1 = update_where (\<lambda>x. in_id x = in_id v1) (\<lambda>x. x\<lparr>in_status := IN_ACCEPTED\<rparr>) (au_invites s)"
    using activate_by [OF acc assms(2,7,9,11)] by (simp add: s1_def)
  have ok1: "identity_ok e s1" using activate_identity [OF assms(1)] by (simp add: s1_def)
  have ok2: "identity_ok e s2"
    using updateUser_identity [OF ok1, of uid "\<lparr>uu_role = None, uu_isActive = Some False, uu_scopes = None\<rparr>"]
      assms(13) by (simp add: s1_def)
  have "distinct (map in_id (au_invites s))" using acc by (simp add: accounts_ok_def drawn_def)
  then have "in_id v2 \<noteq> in_id v1" using same_key assms(2-4) by metis
  moreover have "au_invites s2 = au_invites s1"
    using updateUser_invites [of uid "\<lparr>uu_role = None, uu_isActive = Some False, uu_scopes = None\<rparr>" s1]
      assms(13) by (simp add: s1_def)
  ultimately have v2: "v2 \<in> set (au_invites s2)" using assms(3) by (auto simp: s1 in_update_where)
  have acc2: "accounts_ok e s2" using ok2 by (simp add: identity_ok_def)
  note again = activate_by [OF acc2 v2 assms(8,10,12)]
  obtain u1 where u1: "user_by_id uid s1 = Some u1"
    and s2: "s2 = update_user uid (patch_user \<lparr>uu_role = None, uu_isActive = Some False, uu_scopes = None\<rparr>) s1"
    and entry: "entry = user_entry_of s2 (patch_user \<lparr>uu_role = None, uu_isActive = Some False, uu_scopes = None\<rparr> u1)"
    using assms(13) by (auto simp: updateUser_def s1_def [symmetric] Let_def split: option.splits if_splits)
  obtain u2 where "user_by_id uid s2 = Some u2"
    using user_by_id_updated [OF u1] by (simp add: s2 patch_user_def)
  from user_by_id_updated [OF this, of "\<lambda>u. u\<lparr>us_passwordHash := Some (ae_hash e2 p2), us_isActive := True\<rparr>"]
  show ?thesis
    using again by (simp add: assms(6) entry user_entry_of_def patch_user_def)
qed

text \<open>
  The protection of the last administrator counts administrators of every account: while another account
  has one, an account can lose its only one.
\<close>

lemma last_admin_of_account:
  assumes "accounts_ok e s" and "user_by_id uid s = Some u" and "is_admin u"
    and "v \<in> set (users (au_db s))" and "is_admin v" and "us_accountId v \<noteq> us_accountId u"
    and "\<forall>x \<in> set (users (au_db s)). us_accountId x = us_accountId u \<and> is_admin x \<longrightarrow> us_id x = uid"
  shows "is_ok (updateUser uid \<lparr>uu_role = None, uu_isActive = Some False, uu_scopes = None\<rparr> s) \<and>
    (\<forall>x \<in> set (users (au_db (snd (updateUser uid \<lparr>uu_role = None, uu_isActive = Some False, uu_scopes = None\<rparr> s)))).
       us_accountId x = us_accountId u \<longrightarrow> \<not> is_admin x)"
proof -
  let ?dto = "\<lparr>uu_role = None, uu_isActive = Some False, uu_scopes = None\<rparr>"
  have "us_id v \<noteq> uid"
    using user_by_id_eq [OF assms(2)] same_key [of us_id "users (au_db s)" v u] assms(1,4,6)
    by (auto simp: accounts_ok_def drawn_def)
  then have "count_where (\<lambda>x. is_admin x \<and> us_id x \<noteq> uid) (users (au_db s)) \<noteq> 0"
    using assms(4,5) by (auto simp: count_where_def filter_empty_conv)
  then have run: "updateUser uid ?dto s = (Inr (user_entry_of (update_user uid (patch_user ?dto) s) (patch_user ?dto u)),
      update_user uid (patch_user ?dto) s)"
    by (simp add: updateUser_def assms(2) Let_def)
  show ?thesis
    using assms(7) by (auto simp: run is_ok_def in_update_where patch_user_def is_admin_def)
qed

section \<open>Witnesses\<close>

lemma sample_identity: "identity_ok sample_auth_env sample_accounts"
  by (simp add: identity_ok_def accounts_ok_def sessions_ok_def drawn_def token_hash_def administered_def is_admin_def
      account_defs image_iff)

lemma accounts_invariant_witness:
  "identity_ok sample_auth_env
     (snd (login_request sample_auth_env ''BIA@x'' ''Nova4567'' None None
       (snd (activate sample_auth_env (sample_gen 2) ''Nova4567'' sample_accounts))))"
proof (rule accounts_invariant [OF _ sample_identity sample_sources])
  have "same_sources sample_auth_env sample_auth_env" by (simp add: same_sources_def)
  then show "(account_step sample_auth_env)\<^sup>*\<^sup>* sample_accounts
     (snd (login_request sample_auth_env ''BIA@x'' ''Nova4567'' None None
       (snd (activate sample_auth_env (sample_gen 2) ''Nova4567'' sample_accounts))))"
    by (meson account_step.activate account_step.login converse_rtranclp_into_rtranclp r_into_rtranclp)
qed

lemma deactivated_user_returns_witness:
  "\<exists>entry s2. updateUser (sample_gen 1) \<lparr>uu_role = None, uu_isActive = Some False, uu_scopes = None\<rparr>
      (snd (activate sample_auth_env (sample_gen 2) ''Senha123'' sample_accounts)) = (Inr entry, s2) \<and>
    fst (activate sample_auth_env (sample_gen 3) ''Nova4567'' s2) = Inr ()"
proof -
  have vs: "sample_invite 2 \<in> set (au_invites sample_accounts)" "sample_invite 3 \<in> set (au_invites sample_accounts)"
    by (simp_all add: sample_accounts_def)
  have col: "in_userId (sample_invite n) = sample_gen 1" "in_status (sample_invite n) = IN_PENDING"
      "in_token (sample_invite n) = sample_gen n" "in_expiresAt (sample_invite n) = 1000"
      "in_id (sample_invite n) = sample_gen n" for n
    by (simp_all add: sample_invite_def)
  have ne: "sample_invite 2 \<noteq> sample_invite 3" by (simp add: sample_invite_def)
  have now: "ae_now sample_auth_env \<le> in_expiresAt (sample_invite n)" for n by (simp add: col sample_auth_env_def)
  have acc: "accounts_ok sample_auth_env sample_accounts" using sample_identity by (simp add: identity_ok_def)
  have "is_ok (updateUser (sample_gen 1) \<lparr>uu_role = None, uu_isActive = Some False, uu_scopes = None\<rparr>
      (snd (activate sample_auth_env (in_token (sample_invite 2)) ''Senha123'' sample_accounts)))"
    using activate_by [OF acc vs(1) col(2) now sample_strong(1)]
    by (simp add: updateUser_def col user_by_id_def account_defs is_ok_def is_admin_def Let_def set_invite_def)
  then obtain entry s2 where run: "updateUser (sample_gen 1) \<lparr>uu_role = None, uu_isActive = Some False, uu_scopes = None\<rparr>
      (snd (activate sample_auth_env (in_token (sample_invite 2)) ''Senha123'' sample_accounts)) = (Inr entry, s2)"
    by (metis is_ok_def old.sum.simps(5) prod.collapse sum.exhaust)
  show ?thesis
    using deactivated_user_returns [OF sample_identity vs ne col(1,1,2,2) now now sample_strong run] run
    by (auto simp: col)
qed

end
