(* ===== verification/ImportLines.thy ===== *)
theory ImportLines
  imports Documents "HOL-Library.AList"
begin

text \<open>
  The text side of the imports: rows of a CSV file (\<open>parseCsvLines\<close>, \<open>parseCsvRow\<close>,
  \<open>detectCsvDelimiter\<close>, the same code in \<open>imports/processors/validation.processor.ts\<close> and
  \<open>application.processor.ts\<close>), the mapping of columns to fields and the normalisation of a line
  (\<open>imports/utils/import-line.util.ts\<close>).

  An object with string values is an association list in insertion order; \<open>AList.update\<close> is an
  assignment to a property. Texts are ASCII, so \<open>normalize('NFD')\<close> and the byte order mark
  have no counterpart here. The cells of a spreadsheet, which the library \<open>xlsx\<close> reads, come in as
  a list of rows of texts.
\<close>

type_synonym line_data = "(string \<times> string) list"

definition line_get :: "line_data \<Rightarrow> string \<Rightarrow> string" where
  \<comment> \<open>\<open>line[field] || ''\<close>\<close>
  "line_get l k = or_else (map_of l k) ''''"

section \<open>Headers\<close>

fun squash :: "bool \<Rightarrow> string \<Rightarrow> string" where
  \<comment> \<open>\<open>replace(/[^a-z0-9]+/g, '_')\<close>; the flag says that the run has its underscore\<close>
  "squash _ [] = []"
| "squash sep (c # cs) =
     (if is_lower c \<or> is_digit c then c # squash False cs
      else if sep then squash True cs
      else CHR ''_'' # squash True cs)"

definition strip_edges :: "string \<Rightarrow> string" where
  \<comment> \<open>\<open>replace(/^_|_$/g, '')\<close>\<close>
  "strip_edges s =
     (let t = (case s of [] \<Rightarrow> [] | c # cs \<Rightarrow> if c = CHR ''_'' then cs else s)
      in if t \<noteq> [] \<and> last t = CHR ''_'' then butlast t else t)"

definition normalizeHeader :: "string \<Rightarrow> string" where
  "normalizeHeader s = strip_edges (squash False (to_lower (trim s)))"

definition HEADER_FIELD_MAP :: "(string \<times> string) list" where
  "HEADER_FIELD_MAP =
    [(''contrato'', ''contractNumber''), (''num_adm'', ''contractNumber''),
     (''cliente'', ''debtorName''), (''nome_cliente'', ''debtorName''),
     (''data_nascimento'', ''debtorBirthDate''), (''dt_nascimento'', ''debtorBirthDate''),
     (''nascimento'', ''debtorBirthDate''), (''data_cadastro'', ''productAdhesionDate''),
     (''data_adesao'', ''productAdhesionDate''), (''data_adesao_produto'', ''productAdhesionDate''),
     (''documento'', ''debtorDocument''), (''mes_contrato'', ''occurrenceDate''),
     (''m_contrato'', ''occurrenceDate''), (''vlr'', ''originalValue''),
     (''valor_divida'', ''originalValue''), (''valor_atualizado'', ''originalValue''),
     (''valor_boleto'', ''originalValue''), (''vencimento_original'', ''dueDate''),
     (''dt_vencimento'', ''dueDate''), (''data_vencimento'', ''dueDate''),
     (''origem'', ''debtOrigin''), (''telefone'', ''debtorPhone''),
     (''telefone_cliente'', ''debtorPhone''), (''email'', ''debtorEmail''),
     (''rua'', ''debtorStreet''), (''endereco'', ''debtorStreet''), (''cidade'', ''debtorCity''),
     (''cep'', ''debtorZipCode''), (''uf'', ''debtorState''), (''estado'', ''debtorState''),
     (''bairro'', ''debtorNeighborhood'')]"

definition DUPLICATE_HEADER_FIELD_MAP :: "(string \<times> string) list" where
  "DUPLICATE_HEADER_FIELD_MAP =
    [(''valor_divida'', ''updatedValue''), (''valor_atualizado'', ''updatedValue'')]"

definition same_header :: "string \<Rightarrow> string \<Rightarrow> bool" where
  "same_header a b = (to_lower (trim a) = to_lower (trim b))"

definition map_pair :: "string list \<Rightarrow> string \<times> string \<Rightarrow> line_data \<Rightarrow> line_data" where
  \<comment> \<open>one entry of the mapping the user sent, in either direction\<close>
  "map_pair headers kv m =
     (let (k, v) = kv;
          keyIsHeader = list_ex (\<lambda>h. same_header h k) headers;
          valueIsHeader = list_ex (\<lambda>h. same_header h v) headers
      in if keyIsHeader \<and> \<not> valueIsHeader then AList.update v k m else AList.update k v m)"

definition fill_field :: "string option \<Rightarrow> string \<Rightarrow> line_data \<Rightarrow> line_data" where
  "fill_field target header m =
     (case target of
        None \<Rightarrow> m
      | Some t \<Rightarrow> if line_get m t = '''' then AList.update t header m else m)"

definition map_header :: "string \<Rightarrow> line_data \<Rightarrow> line_data" where
  "map_header header m =
     (let n = normalizeHeader header
      in fill_field (map_of DUPLICATE_HEADER_FIELD_MAP n) header
           (fill_field (map_of HEADER_FIELD_MAP n) header m))"

definition normalizeColumnMapping :: "line_data \<Rightarrow> string list \<Rightarrow> line_data" where
  "normalizeColumnMapping columnMapping headers =
     fold map_header headers (fold (map_pair headers) columnMapping [])"

section \<open>Values\<close>

definition is_sep :: "char \<Rightarrow> bool" where
  "is_sep c \<longleftrightarrow> c = CHR '','' \<or> c = CHR ''.''"

definition last_index :: "char \<Rightarrow> string \<Rightarrow> int" where
  \<comment> \<open>\<open>lastIndexOf\<close>\<close>
  "last_index c s = int (length s) - 1 - int (length (takeWhile (\<lambda>x. x \<noteq> c) (rev s)))"

definition normalizeCurrencyValue :: "string \<Rightarrow> string" where
  "normalizeCurrencyValue value =
     (let numeric = filter (\<lambda>c. is_digit c \<or> is_sep c \<or> c = CHR ''-'') value;
          decimalIndex = max (last_index (CHR '','') numeric) (last_index (CHR ''.'') numeric)
      in if numeric = '''' then value
         else if 0 \<le> decimalIndex \<and> int (length numeric) - decimalIndex - 1 \<le> 2
         then filter (\<lambda>c. \<not> is_sep c) (take (nat decimalIndex) numeric) @ ''.'' @
              filter (\<lambda>c. \<not> is_sep c) (drop (nat decimalIndex + 1) numeric)
         else filter (\<lambda>c. \<not> is_sep c) numeric)"

definition all_digits :: "string \<Rightarrow> bool" where
  "all_digits s = list_all is_digit s"

definition excelSerialDateToIso :: "string \<Rightarrow> string option" where
  "excelSerialDateToIso value =
     (if 1 \<le> length value \<and> length value \<le> 5 \<and> all_digits value
      then (let serial = int (read_digits 0 value)
            in if serial < 20000 \<or> 70000 < serial then None
               else Some (iso_date ((serial - 25569) * day_ms)))
      else None)"

definition slash_date :: "string \<Rightarrow> bool" where
  \<comment> \<open>the pattern \<open>^\d{2}\/\d{2}\/\d{4}$\<close>\<close>
  "slash_date s =
     (length s = 10 \<and> all_digits (take 2 s) \<and> s ! 2 = CHR ''/'' \<and> all_digits (take 2 (drop 3 s)) \<and>
      s ! 5 = CHR ''/'' \<and> all_digits (drop 6 s))"

definition normalize_date_text :: "string \<Rightarrow> string option" where
  \<comment> \<open>the new text of a date field, \<open>None\<close> to leave it\<close>
  "normalize_date_text value =
     (if value = '''' then None
      else if length value = 8 \<and> all_digits value
      then Some (take 4 value @ ''-'' @ take 2 (drop 4 value) @ ''-'' @ drop 6 value)
      else if slash_date value
      then Some (drop 6 value @ ''-'' @ take 2 (drop 3 value) @ ''-'' @ take 2 value)
      else case excelSerialDateToIso value of
             Some t \<Rightarrow> Some t
           | None \<Rightarrow> if length value \<le> 5 \<and> all_digits value then Some '''' else None)"

definition debtTypeMap :: "(string \<times> string) list" where
  "debtTypeMap =
    [(''INTERNET'', ''TELECOM''), (''TELEFONIA'', ''TELECOM''), (''TELECOMUNICACOES'', ''TELECOM''),
     (''ENERGIA'', ''UTILITIES''), (''AGUA'', ''UTILITIES''), (''CONDOMINIO'', ''CONDOMINIAL'')]"

definition normalize_document :: "line_data \<Rightarrow> line_data" where
  "normalize_document l =
     (let t = trim (line_get l ''debtorDocument'')
      in if t = '''' then l
         else let document = normalizeCnpj t
              in AList.update ''debtorDocument''
                   (if length document = 15 \<and> all_digits document \<and> hd document = CHR ''0''
                    then drop 1 document else document) l)"

definition normalize_date :: "string \<Rightarrow> line_data \<Rightarrow> line_data" where
  "normalize_date field l =
     (case normalize_date_text (trim (line_get l field)) of
        None \<Rightarrow> l
      | Some s \<Rightarrow> AList.update field s l)"

definition normalize_value :: "string \<Rightarrow> line_data \<Rightarrow> line_data" where
  "normalize_value field l =
     (let value = trim (line_get l field)
      in if value = '''' then l else AList.update field (normalizeCurrencyValue value) l)"

definition blank :: "line_data \<Rightarrow> string \<Rightarrow> bool" where
  "blank l k \<longleftrightarrow> trim (line_get l k) = ''''"

definition fill_updated :: "line_data \<Rightarrow> line_data" where
  "fill_updated l =
     (if blank l ''updatedValue'' \<and> \<not> blank l ''originalValue''
      then AList.update ''updatedValue'' (line_get l ''originalValue'') l else l)"

definition sync_dates :: "line_data \<Rightarrow> line_data" where
  "sync_dates l =
     (if \<not> blank l ''dueDate'' then AList.update ''occurrenceDate'' (line_get l ''dueDate'') l
      else if \<not> blank l ''occurrenceDate'' then AList.update ''dueDate'' (line_get l ''occurrenceDate'') l
      else l)"

definition normalize_debt_type :: "line_data \<Rightarrow> line_data" where
  "normalize_debt_type l =
     (let t = to_upper (trim (line_get l ''debtType''))
      in if t = '''' then l
         else AList.update ''debtType'' (or_else (map_of debtTypeMap t) t) l)"

definition DATE_FIELDS :: "string list" where
  "DATE_FIELDS = [''occurrenceDate'', ''dueDate'', ''productAdhesionDate'', ''cancelledAt'']"

definition normalizeImportLine :: "line_data \<Rightarrow> line_data" where
  "normalizeImportLine line =
     normalize_debt_type (sync_dates (fill_updated
       (fold normalize_value [''originalValue'', ''updatedValue'']
         (fold normalize_date DATE_FIELDS (normalize_document line)))))"

datatype js_float = FNaN | FInf bool | Fin rat

definition float_exponent :: "string \<Rightarrow> rat" where
  \<comment> \<open>the exponent a decimal prefix ends with, if it is complete\<close>
  "float_exponent s =
     (case s of
        [] \<Rightarrow> 1
      | c # cs \<Rightarrow>
          let u = split_sign cs; ds = takeWhile is_digit (snd u)
          in if (c = CHR ''e'' \<or> c = CHR ''E'') \<and> ds \<noteq> [] then power_of_ten (fst u) (read_digits 0 ds) else 1)"

definition parse_float :: "string \<Rightarrow> js_float" where
  \<comment> \<open>\<open>parseFloat\<close>: the longest prefix that is a number\<close>
  "parse_float s =
     (let u = split_sign (dropWhile is_space s);
          t = snd u;
          sign = (if fst u then - 1 else 1);
          whole = takeWhile is_digit t;
          rest = dropWhile is_digit t;
          dot = (case rest of [] \<Rightarrow> False | c # _ \<Rightarrow> c = CHR ''.'');
          frac = (if dot then takeWhile is_digit (tl rest) else []);
          tail = (if dot then dropWhile is_digit (tl rest) else rest)
      in if starts_with ''Infinity'' t then FInf (fst u)
         else if whole = [] \<and> frac = [] then FNaN
         else Fin (sign * (of_nat (read_digits 0 (whole @ frac)) / 10 ^ length frac) * float_exponent tail))"

section \<open>CSV\<close>

abbreviation LF :: char where "LF \<equiv> CHR 0x0A"
abbreviation CR :: char where "CR \<equiv> CHR 0x0D"
abbreviation TAB :: char where "TAB \<equiv> CHR 0x09"
abbreviation QUOTE :: char where "QUOTE \<equiv> CHR 0x22"

fun split_rows :: "string \<Rightarrow> string \<Rightarrow> string list" where
  \<comment> \<open>\<open>content.split(/\r?\n/)\<close>\<close>
  "split_rows cur [] = [cur]"
| "split_rows cur (c # cs) =
     (if c = LF then cur # split_rows [] cs
      else case cs of
             [] \<Rightarrow> split_rows (cur @ [c]) cs
           | e # es \<Rightarrow> if c = CR \<and> e = LF then cur # split_rows [] es else split_rows (cur @ [c]) cs)"

definition csv_rows :: "string \<Rightarrow> string list" where
  "csv_rows content = filter (\<lambda>r. trim r \<noteq> '''') (split_rows [] content)"

definition detectCsvDelimiter :: "string \<Rightarrow> char" where
  "detectCsvDelimiter header =
     foldl (\<lambda>best d. if count_list header best < count_list header d then d else best)
       (CHR '','') [CHR '';'', CHR '','', TAB, CHR ''|'']"

fun csv_loop :: "char \<Rightarrow> string \<Rightarrow> bool \<Rightarrow> string \<Rightarrow> string list" where
  "csv_loop d cur q [] = [cur]"
| "csv_loop d cur q (c # cs) =
     (if c = QUOTE
      then case cs of
             [] \<Rightarrow> csv_loop d cur (\<not> q) cs
           | e # es \<Rightarrow>
               if q \<and> e = QUOTE then csv_loop d (cur @ [QUOTE]) q es else csv_loop d cur (\<not> q) cs
      else if c = d \<and> \<not> q then cur # csv_loop d [] q cs
      else csv_loop d (cur @ [c]) q cs)"

definition parseCsvRow :: "string \<Rightarrow> char \<Rightarrow> string list" where
  "parseCsvRow row delimiter = csv_loop delimiter [] False row"

fun index_where :: "('a \<Rightarrow> bool) \<Rightarrow> 'a list \<Rightarrow> nat option" where
  \<comment> \<open>\<open>findIndex\<close>\<close>
  "index_where P [] = None"
| "index_where P (x # xs) = (if P x then Some 0 else map_option Suc (index_where P xs))"

definition csv_cell :: "string list \<Rightarrow> string list \<Rightarrow> string \<Rightarrow> string" where
  "csv_cell headers values source =
     (case index_where (\<lambda>h. same_header h source) headers of
        Some i \<Rightarrow> if i < length values then trim (values ! i) else ''''
      | None \<Rightarrow> '''')"

definition csv_line :: "string list \<Rightarrow> line_data \<Rightarrow> string list \<Rightarrow> line_data" where
  "csv_line headers mapping values =
     fold (\<lambda>kv l. AList.update (fst kv) (csv_cell headers values (snd kv)) l) mapping []"

definition parseCsvLines :: "string \<Rightarrow> line_data \<Rightarrow> line_data list" where
  "parseCsvLines content columnMapping =
     (let rows = csv_rows content
      in if length rows < 2 then []
         else let delimiter = detectCsvDelimiter (hd rows);
                  headers = map trim (parseCsvRow (hd rows) delimiter);
                  mapping = normalizeColumnMapping columnMapping headers
              in map (\<lambda>row. normalizeImportLine (csv_line headers mapping (parseCsvRow row delimiter)))
                   (tl rows))"

definition sheet_cell :: "string list \<Rightarrow> string list \<Rightarrow> string \<Rightarrow> string" where
  "sheet_cell headers values source =
     (case index_where (\<lambda>h. to_lower h = to_lower (trim source)) headers of
        Some i \<Rightarrow> if i < length values then values ! i else ''''
      | None \<Rightarrow> '''')"

definition parseXlsxLines :: "string list list \<Rightarrow> line_data \<Rightarrow> line_data list" where
  \<comment> \<open>\<open>rows\<close> is what the library reads from the first sheet, blank rows left out\<close>
  "parseXlsxLines rows columnMapping =
     (if length rows < 2 then []
      else let headers = map trim (hd rows);
               mapping = normalizeColumnMapping columnMapping headers;
               body = filter (\<lambda>vs. \<not> list_all (\<lambda>v. v = '''') vs) (map (map trim) (tl rows))
           in map (\<lambda>values.
                normalizeImportLine
                  (fold (\<lambda>kv l. AList.update (fst kv) (sheet_cell headers values (snd kv)) l) mapping []))
                body)"

section \<open>Writing and reading a row\<close>

text \<open>A row as a spreadsheet program writes it: every cell quoted, inner quotes doubled.\<close>

definition csv_escape :: "string \<Rightarrow> string" where
  "csv_escape f = concat (map (\<lambda>c. if c = QUOTE then [QUOTE, QUOTE] else [c]) f)"

fun csv_write :: "char \<Rightarrow> string list \<Rightarrow> string" where
  "csv_write d [] = ''''"
| "csv_write d [f] = QUOTE # csv_escape f @ [QUOTE]"
| "csv_write d (f # fs) = QUOTE # csv_escape f @ QUOTE # d # csv_write d fs"

lemma csv_loop_quoted:
  assumes "rest = [] \<or> hd rest \<noteq> QUOTE"
  shows "csv_loop d cur True (csv_escape f @ QUOTE # rest) = csv_loop d (cur @ f) False rest"
proof (induction f arbitrary: cur)
  case Nil
  with assms show ?case by (cases rest) (simp_all add: csv_escape_def)
next
  case (Cons c f)
  then show ?case by (simp add: csv_escape_def)
qed

lemma csv_loop_open: "csv_loop d cur False (QUOTE # s) = csv_loop d cur True s"
  by (cases s) simp_all

lemma csv_loop_write:
  assumes "d \<noteq> QUOTE" and "fs \<noteq> []"
  shows "csv_loop d [] False (csv_write d fs) = fs"
  using assms(2)
proof (induction fs)
  case (Cons f fs)
  show ?case
  proof (cases fs)
    case Nil
    then show ?thesis
      using csv_loop_quoted [of "[]" d "[]" f] by (simp add: csv_loop_open del: csv_loop.simps(2))
  next
    case (Cons g gs)
    have "csv_loop d [] False (csv_write d (f # fs))
        = csv_loop d f False (d # csv_write d fs)"
      using csv_loop_quoted [of "d # csv_write d fs" d "[]" f] assms(1)
      by (simp add: Cons csv_loop_open del: csv_loop.simps(2))
    also have "\<dots> = f # csv_loop d [] False (csv_write d fs)"
      using assms(1) by simp
    finally show ?thesis using Cons.IH Cons by simp
  qed
qed simp

text \<open>Every row a spreadsheet program writes is read back cell by cell, whatever the cells contain.\<close>

lemma csv_roundtrip:
  assumes "d \<noteq> QUOTE" and "fs \<noteq> []"
  shows "parseCsvRow (csv_write d fs) d = fs"
  unfolding parseCsvRow_def by (rule csv_loop_write [OF assms])

section \<open>Amounts\<close>

text \<open>An amount of centavos as Brazilian files print it: \<open>R$ 1.234,56\<close>.\<close>

fun group_rev :: "string \<Rightarrow> string" where
  "group_rev (a # b # c # d # s) = a # b # c # CHR ''.'' # group_rev (d # s)"
| "group_rev s = s"

definition brl_text :: "nat \<Rightarrow> string" where
  "brl_text cents =
     ''R$ '' @ rev (group_rev (rev (show_nat (cents div 100)))) @
     [CHR '','', digit_char (cents mod 100 div 10), digit_char (cents mod 10)]"

lemma sep_values [simp]: "is_sep (CHR ''.'')" "is_sep (CHR '','')"
  by (simp_all add: is_sep_def)

lemma digit_not_sep [simp]: "is_digit c \<Longrightarrow> \<not> is_sep c"
  by (auto simp: is_digit_def is_sep_def code_def)

lemma sep_not_digit [simp]: "\<not> is_digit (CHR ''.'')" "\<not> is_digit (CHR '','')"
  by (simp_all add: is_digit_def code_def)

lemma group_rev_strip: "filter (\<lambda>c. \<not> is_sep c) (group_rev s) = filter (\<lambda>c. \<not> is_sep c) s"
  by (induction s rule: group_rev.induct) simp_all

lemma group_rev_chars:
  "\<forall>c \<in> set s. is_digit c \<Longrightarrow> c \<in> set (group_rev s) \<Longrightarrow> is_digit c \<or> is_sep c"
  by (induction s rule: group_rev.induct) auto

lemma last_index_snoc3:
  assumes "is_digit a" and "is_digit b" and "x \<noteq> y" and "is_sep x" and "is_sep y"
  shows "last_index x (s @ [x, a, b]) = int (length s)"
    and "last_index y (s @ [x, a, b]) < int (length s)"
  using assms by (auto simp: last_index_def)

lemma normalizeCurrency_decimals:
  assumes "\<forall>c \<in> set s. is_digit c \<or> is_sep c" and "is_digit a" and "is_digit b" and "is_sep x"
  shows "normalizeCurrencyValue (''R$ '' @ s @ [x, a, b]) = filter (\<lambda>c. \<not> is_sep c) s @ ''.'' @ [a, b]"
proof -
  let ?n = "s @ [x, a, b]"
  have junk: "\<not> is_digit (CHR ''R'')" "\<not> is_digit (CHR ''$'')" "\<not> is_digit (CHR '' '')"
    "\<not> is_sep (CHR ''R'')" "\<not> is_sep (CHR ''$'')" "\<not> is_sep (CHR '' '')"
    by (simp_all add: is_digit_def is_sep_def code_def)
  have numeric: "filter (\<lambda>c. is_digit c \<or> is_sep c \<or> c = CHR ''-'') (''R$ '' @ ?n) = ?n"
    using assms junk by (auto simp: filter_id_conv)
  obtain y where y: "is_sep y" "x \<noteq> y" and xy: "{x, y} = {CHR '','', CHR ''.''}"
    using assms(4) by (auto simp: is_sep_def)
  note li = last_index_snoc3 [OF assms(2,3) y(2) assms(4) y(1), of s]
  have m: "max (last_index (CHR '','') ?n) (last_index (CHR ''.'') ?n) = int (length s)"
    using xy li by (auto simp: doubleton_eq_iff)
  show ?thesis
    unfolding normalizeCurrencyValue_def Let_def numeric m using assms by simp
qed

lemma parse_float_decimal:
  assumes "list_all is_digit s" and "s \<noteq> []" and "list_all is_digit t" and "t \<noteq> []"
  shows "parse_float (s @ ''.'' @ t) = Fin (of_nat (read_digits 0 (s @ t)) / 10 ^ length t)"
proof -
  obtain c cs where s: "s = c # cs" using assms(2) by (cases s) auto
  with assms(1) have c: "is_digit c" "\<not> is_space c" "c \<noteq> CHR ''-''" "c \<noteq> CHR ''+''"
    using digit_not_space digit_not_sign by auto
  then have ni: "\<not> starts_with ''Infinity'' (s @ u)" for u
    by (auto simp: s starts_with_def is_digit_def code_def)
  have sp: "dropWhile is_space (s @ u) = s @ u" "split_sign (s @ u) = (False, s @ u)" for u
    using c by (simp_all add: s split_sign_def)
  have tw: "takeWhile is_digit (s @ ''.'' @ t) = s" "dropWhile is_digit (s @ ''.'' @ t) = ''.'' @ t"
    using assms(1) by (simp_all add: takeWhile_append dropWhile_append list_all_iff)
  show ?thesis
    unfolding parse_float_def Let_def sp snd_conv fst_conv tw using assms ni
    by (simp add: takeWhile_all_id dropWhile_all_nil float_exponent_def)
qed

text \<open>C23. An amount printed in the Brazilian layout is imported at its value.\<close>

lemma brl_roundtrip: "parse_float (normalizeCurrencyValue (brl_text cents)) = Fin (of_nat cents / 100)"
proof -
  let ?s = "show_nat (cents div 100)" and ?a = "digit_char (cents mod 100 div 10)" and ?b = "digit_char (cents mod 10)"
  have ab: "is_digit ?a" "is_digit ?b"
    by (simp_all add: digit_char_digit)
  have s: "list_all is_digit ?s"
    using show_nat_digits by (simp add: list_all_iff)
  have g: "filter (\<lambda>c. \<not> is_sep c) (rev (group_rev (rev ?s))) = ?s"
    using s by (simp add: group_rev_strip rev_filter [symmetric] list_all_iff filter_id_conv)
  have "normalizeCurrencyValue (brl_text cents) = ?s @ ''.'' @ [?a, ?b]"
    unfolding brl_text_def
    using normalizeCurrency_decimals [of "rev (group_rev (rev ?s))" ?a ?b "CHR '',''"] ab s
      group_rev_chars [of "rev ?s"] g
    by (simp add: list_all_iff)
  moreover have "read_digits 0 (?s @ [?a, ?b]) = cents"
  proof -
    have v: "digit_val ?a = cents mod 100 div 10" "digit_val ?b = cents mod 10"
      by (simp_all add: digit_val_char)
    have "(cents div 100 * 10 + cents mod 100 div 10) * 10 + cents mod 10 = cents"
    proof -
      have "cents mod 100 mod 10 = cents mod 10"
        by (rule mod_mod_cancel) simp
      then show ?thesis
        using div_mult_mod_eq [of cents 100] div_mult_mod_eq [of "cents mod 100" 10]
        by (simp only: algebra_simps)
    qed
    then show ?thesis
      unfolding read_digits_append read_show_nat read_digits.simps v .
  qed
  ultimately show ?thesis
    using parse_float_decimal [OF s show_nat_nonempty, of "[?a, ?b]"] ab by simp
qed

lemma csv_roundtrip_witness:
  "parseCsvRow (csv_write (CHR '';'') [''Ana'', '''', ''a;b'', [QUOTE, CHR ''x'']]) (CHR '';'')
     = [''Ana'', '''', ''a;b'', [QUOTE, CHR ''x'']]"
  by (rule csv_roundtrip) simp_all

end
