(* ===== verification/Imports.thy ===== *)
theory Imports
  imports Wallets ImportLines
begin

text \<open>
  \<open>imports/imports.service.ts\<close>, \<open>imports/processors/validation.processor.ts\<close> and
  \<open>imports/processors/application.processor.ts\<close>: a portfolio file is uploaded, validated by one
  worker, confirmed by a user and applied by another worker in transactions of 250 lines. The batches,
  their errors, the two queues and the stored files stand beside the database. \<open>new Date\<close> on a text
  (\<open>None\<close> is an invalid date) and the rows that the library \<open>xlsx\<close> reads from the first sheet come from
  the environment.
\<close>

record import_env =
  ie_now :: int
  ie_gen :: "nat \<Rightarrow> string"
  ie_sha :: "string \<Rightarrow> string"
  ie_day :: "int \<Rightarrow> int"
  ie_parseDate :: "string \<Rightarrow> int option"
  ie_sheet :: "string \<Rightarrow> string list list"

datatype batch_status =
    BA_PENDING_VALIDATION | BA_VALIDATING | BA_VALIDATED | BA_VALIDATED_WITH_ERRORS
  | BA_VALIDATION_FAILED | BA_APPLYING | BA_APPLIED | BA_FAILED | BA_CANCELLED

record import_batch =
  ba_id :: string
  ba_accountId :: string
  ba_walletId :: string
  ba_userId :: string
  ba_fileName :: string
  ba_fileUrl :: string
  ba_columnMapping :: line_data
  ba_totalLines :: nat
  ba_validLines :: nat
  ba_invalidLines :: nat
  ba_createdCount :: nat
  ba_updatedCount :: nat
  ba_ignoredCount :: nat
  ba_status :: batch_status

record line_error =
  le_lineNumber :: nat
  le_errorCode :: string
  le_fieldName :: string
  le_fieldValue :: "string option"

record import_store =
  im_db :: database
  im_batches :: "import_batch list"
  im_errors :: "(string \<times> line_error) list"
  im_validationQueue :: "string list"
  im_applicationQueue :: "string list"
  im_files :: "(string \<times> string) list"

section \<open>Uploading a file\<close>

definition REQUIRED_FIELDS :: "string list" where
  \<comment> \<open>also \<open>REQUIRED_MAPPING_FIELDS\<close>\<close>
  "REQUIRED_FIELDS = [''debtorDocument'', ''contractNumber'', ''dueDate'', ''originalValue'']"

definition IMPORT_TARGET_FIELDS :: "string list" where
  "IMPORT_TARGET_FIELDS =
     [''debtorDocument'', ''contractNumber'', ''debtType'', ''occurrenceDate'', ''originalValue'',
      ''updatedValue'', ''debtorName'', ''debtorBirthDate'', ''dueDate'', ''productAdhesionDate'',
      ''debtOrigin'', ''productName'', ''debtorStreet'', ''debtorAddressNumber'',
      ''debtorAddressComplement'', ''debtorNeighborhood'', ''debtorCity'', ''debtorState'',
      ''debtorZipCode'', ''debtorPhone'', ''debtorEmail'', ''cancelledAt'']"

definition sanitize_entry :: "string list \<Rightarrow> string \<times> json \<Rightarrow> line_data \<Rightarrow> line_data" where
  "sanitize_entry headers kv m =
     (case snd kv of
        JStr h \<Rightarrow>
          if fst kv \<in> set IMPORT_TARGET_FIELDS \<and> h \<in> set headers \<and> h \<notin> set (map snd m)
          then AList.update (fst kv) h m else m
      | _ \<Rightarrow> m)"

definition sanitizeSuggestedMapping :: "json \<Rightarrow> string list \<Rightarrow> line_data" where
  "sanitizeSuggestedMapping raw headers =
     (case raw of JObj kvs \<Rightarrow> fold (sanitize_entry headers) kvs [] | _ \<Rightarrow> [])"

definition suggestMapping :: "(string list \<Rightarrow> json option) \<Rightarrow> string list \<Rightarrow> line_data" where
  \<comment> \<open>\<open>ask\<close> is the language model; no answer, or one that is not JSON, is \<open>None\<close>\<close>
  "suggestMapping ask headers =
     (let safe = take 100 (filter (\<lambda>h. h \<noteq> '''') (map trim headers))
      in if safe = [] then []
         else case ask safe of None \<Rightarrow> [] | Some raw \<Rightarrow> sanitizeSuggestedMapping raw safe)"

record upload_file =
  fi_name :: string
  fi_size :: nat
  fi_buffer :: string

definition getFileExtension :: "string \<Rightarrow> string" where
  "getFileExtension name =
     (let i = last_index (CHR ''.'') name in if i < 0 then '''' else to_lower (drop (nat i) name))"

definition countLines :: "import_env \<Rightarrow> string \<Rightarrow> string \<Rightarrow> nat" where
  "countLines e buffer ext =
     (if ext = ''.csv'' then length (csv_rows buffer) - 1 else length (ie_sheet e buffer) - 1)"

definition upload ::
  "import_env \<Rightarrow> upload_file option \<Rightarrow> string \<Rightarrow> line_data \<Rightarrow> string \<Rightarrow> string \<Rightarrow> import_store \<Rightarrow>
    (import_store, import_batch) outcome" where
  "upload e file walletId mapping userId acc s =
     (case file of
        None \<Rightarrow> (Inl (Unprocessable ''Arquivo e obrigatorio''), s)
      | Some f \<Rightarrow>
          let ext = getFileExtension (fi_name f);
              mapped = map fst mapping @ map snd mapping;
              missing = filter (\<lambda>k. k \<notin> set mapped) REQUIRED_FIELDS
          in if 100 * 1024 * 1024 < fi_size f then (Inl (PayloadTooLarge ''100MB''), s)
             else if ext \<noteq> ''.csv'' \<and> ext \<noteq> ''.xlsx'' then (Inl (Unprocessable ''Formato de arquivo''), s)
             else if missing \<noteq> [] then (Inl (Unprocessable ''Mapeie os campos obrigatorios''), s)
             else case find_wallet walletId acc (im_db s) of
               None \<Rightarrow> (Inl (Unprocessable ''Wallet invalida''), s)
             | Some w \<Rightarrow>
                 let total = countLines e (fi_buffer f) ext;
                     d = im_db s;
                     url = ''imports/'' @ acc @ ''/'' @ ie_gen e (nextId d) @ ext;
                     b = \<lparr>ba_id = ie_gen e (Suc (nextId d)), ba_accountId = acc, ba_walletId = walletId,
                          ba_userId = userId, ba_fileName = fi_name f, ba_fileUrl = url,
                          ba_columnMapping = mapping, ba_totalLines = total, ba_validLines = 0,
                          ba_invalidLines = 0, ba_createdCount = 0, ba_updatedCount = 0,
                          ba_ignoredCount = 0, ba_status = BA_PENDING_VALIDATION\<rparr>
                 in if \<not> wl_active w then (Inl (Unprocessable ''Wallet invalida''), s)
                    else if total = 0 then (Inl (Unprocessable ''nao contem registros''), s)
                    else (Inr b,
                          s\<lparr>im_db := d\<lparr>nextId := nextId d + 2\<rparr>,
                            im_files := (url, fi_buffer f) # im_files s,
                            im_batches := im_batches s @ [b],
                            im_validationQueue := im_validationQueue s @ [ba_id b]\<rparr>))"

section \<open>Batches\<close>

definition find_batch :: "string \<Rightarrow> string \<Rightarrow> import_store \<Rightarrow> import_batch option" where
  "find_batch i acc s = List.find (\<lambda>b. ba_id b = i \<and> ba_accountId b = acc) (im_batches s)"

definition batch_of :: "string \<Rightarrow> import_store \<Rightarrow> import_batch option" where
  \<comment> \<open>\<open>findUnique({ where: { id } })\<close>\<close>
  "batch_of i s = List.find (\<lambda>b. ba_id b = i) (im_batches s)"

definition update_batch :: "string \<Rightarrow> (import_batch \<Rightarrow> import_batch) \<Rightarrow> import_store \<Rightarrow> import_store" where
  "update_batch i f s = s\<lparr>im_batches := update_where (\<lambda>b. ba_id b = i) f (im_batches s)\<rparr>"

definition set_status :: "batch_status \<Rightarrow> import_batch \<Rightarrow> import_batch" where
  "set_status st b = b\<lparr>ba_status := st\<rparr>"

definition CANCELLABLE :: "batch_status list" where
  "CANCELLABLE = [BA_PENDING_VALIDATION, BA_VALIDATING, BA_VALIDATED, BA_VALIDATED_WITH_ERRORS]"

definition cancelImport :: "string \<Rightarrow> string \<Rightarrow> import_store \<Rightarrow> (import_store, batch_status) outcome" where
  "cancelImport i acc s =
     (case find_batch i acc s of
        None \<Rightarrow> (Inl (NotFound ''Lote de importacao nao encontrado''), s)
      | Some b \<Rightarrow>
          if ba_status b \<notin> set CANCELLABLE then (Inl (Conflict ''Nao e possivel cancelar''), s)
          else (Inr BA_CANCELLED, update_batch i (set_status BA_CANCELLED) s))"

definition confirmImport :: "string \<Rightarrow> string \<Rightarrow> import_store \<Rightarrow> (import_store, batch_status) outcome" where
  "confirmImport i acc s =
     (case find_batch i acc s of
        None \<Rightarrow> (Inl (NotFound ''Lote de importacao nao encontrado''), s)
      | Some b \<Rightarrow>
          if ba_status b \<in> {BA_APPLYING, BA_APPLIED} then (Inr (ba_status b), s)
          else if ba_status b \<notin> {BA_VALIDATED, BA_VALIDATED_WITH_ERRORS}
          then (Inl (Conflict ''Nao e possivel confirmar''), s)
          else (Inr BA_APPLYING,
                (update_batch i (set_status BA_APPLYING) s)
                  \<lparr>im_applicationQueue := im_applicationQueue s @ [i]\<rparr>))"

definition listImports ::
  "(import_batch list \<Rightarrow> import_batch list) \<Rightarrow> nat \<Rightarrow> nat \<Rightarrow> string option \<Rightarrow> batch_status option \<Rightarrow>
    string list option \<Rightarrow> string \<Rightarrow> import_store \<Rightarrow> import_batch list \<times> nat" where
  \<comment> \<open>newest first; a wallet outside the scopes gives an empty page\<close>
  "listImports order page limit walletId status scopes acc s =
     (let wanted = text_or_null walletId;
          rows = filter (\<lambda>b. ba_accountId b = acc \<and> opt_ok status (\<lambda>x. ba_status b = x) \<and>
            (case wanted of
               Some w \<Rightarrow> ba_walletId b = w
             | None \<Rightarrow> opt_ok scopes (\<lambda>ws. ba_walletId b \<in> set ws))) (im_batches s)
      in case (scopes, wanted) of
           (Some ws, Some w) \<Rightarrow>
             if w \<notin> set ws then ([], 0)
             else (take limit (drop ((page - 1) * limit) (order rows)), length rows)
         | _ \<Rightarrow> (take limit (drop ((page - 1) * limit) (order rows)), length rows))"

definition findErrors ::
  "string \<Rightarrow> nat \<Rightarrow> nat \<Rightarrow> string \<Rightarrow> import_store \<Rightarrow> http_error + (line_error list \<times> nat)" where
  "findErrors i page limit acc s =
     (case find_batch i acc s of
        None \<Rightarrow> Inl (NotFound ''Lote de importacao nao encontrado'')
      | Some _ \<Rightarrow>
          let rows = map snd (filter (\<lambda>r. fst r = i) (im_errors s))
          in Inr (take limit (drop ((page - 1) * limit) (sort_key le_lineNumber rows)), length rows))"

section \<open>Validating a line\<close>

fun debt_type_text :: "debt_type \<Rightarrow> string" where
  "debt_type_text COMMERCIAL = ''COMMERCIAL''"
| "debt_type_text BANKING = ''BANKING''"
| "debt_type_text SERVICES = ''SERVICES''"
| "debt_type_text UTILITIES = ''UTILITIES''"
| "debt_type_text TELECOM = ''TELECOM''"
| "debt_type_text EDUCATION = ''EDUCATION''"
| "debt_type_text HEALTH = ''HEALTH''"
| "debt_type_text CONDOMINIAL = ''CONDOMINIAL''"
| "debt_type_text OTHER = ''OTHER''"

definition DEBT_TYPES :: "debt_type list" where
  "DEBT_TYPES =
     [COMMERCIAL, BANKING, SERVICES, UTILITIES, TELECOM, EDUCATION, HEALTH, CONDOMINIAL, OTHER]"

definition debt_type_of :: "string \<Rightarrow> debt_type option" where
  \<comment> \<open>the member of \<open>VALID_DEBT_TYPES\<close> with this name\<close>
  "debt_type_of s = List.find (\<lambda>t. debt_type_text t = s) DEBT_TYPES"

definition line_type :: "debt_type \<Rightarrow> line_data \<Rightarrow> string" where
  \<comment> \<open>\<open>(line.debtType || defaultDebtType).toUpperCase()\<close>\<close>
  "line_type dflt l =
     (let t = line_get l ''debtType'' in to_upper (if t = '''' then debt_type_text dflt else t))"

definition line_error :: "nat \<Rightarrow> string \<Rightarrow> string \<Rightarrow> line_data \<Rightarrow> line_error" where
  "line_error n kind field l =
     \<lparr>le_lineNumber = n, le_errorCode = kind, le_fieldName = field,
      le_fieldValue = text_or_null (map_of l field)\<rparr>"

definition document_errors :: "string \<Rightarrow> string list" where
  \<comment> \<open>a CPF of 11 digits or a CNPJ of 14 positions, with their check digits\<close>
  "document_errors doc =
     (if \<not> cpf_shape doc \<and> \<not> cnpj_shape doc then [''INVALID_FORMAT'']
      else if length doc = 11 \<and> \<not> isValidCpf doc then [''INVALID_FORMAT'']
      else if length doc = 14 \<and> \<not> isValidCnpj doc then [''INVALID_FORMAT'']
      else [])"

fun value_in_range :: "js_float \<Rightarrow> bool" where
  \<comment> \<open>the negation of \<open>isNaN(v) || v < 0.01 || v > 999999999.99\<close>\<close>
  "value_in_range FNaN = False"
| "value_in_range (FInf neg) = False"
| "value_in_range (Fin v) = (1 / 100 \<le> v \<and> v \<le> 99999999999 / 100)"

definition validateLine :: "import_env \<Rightarrow> debt_type \<Rightarrow> nat \<Rightarrow> line_data \<Rightarrow> line_error list" where
  "validateLine e dflt n l =
     (let missing = filter (blank l) REQUIRED_FIELDS;
          doc = normalizeCnpj (line_get l ''debtorDocument'')
      in if missing \<noteq> [] then map (\<lambda>f. line_error n ''REQUIRED_FIELD'' f l) missing
         else map (\<lambda>c. line_error n c ''debtorDocument'' l) (document_errors doc) @
           (if 100 < length (line_get l ''contractNumber'')
            then [line_error n ''INVALID_FORMAT'' ''contractNumber'' l] else []) @
           (if debt_type_of (line_type dflt l) = None
            then [line_error n ''INVALID_FORMAT'' ''debtType'' l] else []) @
           (if ie_parseDate e (line_get l ''dueDate'') = None
            then [line_error n ''INVALID_FORMAT'' ''dueDate'' l] else []) @
           (if value_in_range (parse_float (line_get l ''originalValue'')) then []
            else [line_error n ''INVALID_RANGE'' ''originalValue'' l]) @
           (if value_in_range (parse_float (line_get l ''updatedValue'')) then []
            else [line_error n ''INVALID_RANGE'' ''updatedValue'' l]))"

section \<open>The validation worker\<close>

definition file_lines :: "import_env \<Rightarrow> import_batch \<Rightarrow> import_store \<Rightarrow> line_data list option" where
  \<comment> \<open>download and parse; a missing object makes the download fail\<close>
  "file_lines e b s =
     (case map_of (im_files s) (ba_fileUrl b) of
        None \<Rightarrow> None
      | Some content \<Rightarrow>
          Some (if drop (length (ba_fileName b) - 5) (to_lower (ba_fileName b)) = ''.xlsx''
                then parseXlsxLines (ie_sheet e content) (ba_columnMapping b)
                else parseCsvLines content (ba_columnMapping b)))"

definition wallet_of_batch :: "import_batch \<Rightarrow> import_store \<Rightarrow> wallet option" where
  "wallet_of_batch b s = List.find (\<lambda>w. wl_id w = ba_walletId b) (wallets (im_db s))"

definition is_cancelled :: "string \<Rightarrow> import_store \<Rightarrow> bool" where
  "is_cancelled i s \<longleftrightarrow> (case batch_of i s of None \<Rightarrow> False | Some b \<Rightarrow> ba_status b = BA_CANCELLED)"

record tally =
  ta_valid :: nat
  ta_invalid :: nat
  ta_errors :: "line_error list"

definition no_tally :: tally where
  "no_tally = \<lparr>ta_valid = 0, ta_invalid = 0, ta_errors = []\<rparr>"

definition count_line :: "line_error list \<Rightarrow> tally \<Rightarrow> tally" where
  "count_line errs t =
     (if errs = [] then t\<lparr>ta_valid := Suc (ta_valid t)\<rparr>
      else t\<lparr>ta_invalid := Suc (ta_invalid t), ta_errors := ta_errors t @ errs\<rparr>)"

fun validate_loop ::
  "import_env \<Rightarrow> debt_type \<Rightarrow> (nat \<Rightarrow> import_store \<Rightarrow> import_store) \<Rightarrow> string \<Rightarrow> nat \<Rightarrow> line_data list \<Rightarrow>
    tally \<Rightarrow> import_store \<Rightarrow> tally \<times> import_store" where
  \<comment> \<open>\<open>others i\<close> is what other requests commit before line \<open>i\<close> is looked at\<close>
  "validate_loop e dflt others b i [] t s = (t, s)"
| "validate_loop e dflt others b i (l # ls) t s =
     (let s' = others i s
      in if 0 < i \<and> i mod 500 = 0 \<and> is_cancelled b s' then (t, s')
         else validate_loop e dflt others b (Suc i) ls
                (count_line (validateLine e dflt (i + 2) l) t) s')"

definition store_tally :: "tally \<Rightarrow> import_batch \<Rightarrow> import_batch" where
  "store_tally t b = b\<lparr>ba_validLines := ta_valid t, ba_invalidLines := ta_invalid t\<rparr>"

definition processValidation ::
  "import_env \<Rightarrow> (nat \<Rightarrow> import_store \<Rightarrow> import_store) \<Rightarrow> string \<Rightarrow> import_store \<Rightarrow>
    (import_store, unit) outcome" where
  \<comment> \<open>an update of a batch that does not exist throws, and so does the one in the handler\<close>
  "processValidation e others i s =
     (if batch_of i s = None then (Inl (Internal ''P2025''), s)
      else let s1 = update_batch i (set_status BA_VALIDATING) s;
               failed = (\<lambda>s. (Inr (), update_batch i (set_status BA_VALIDATION_FAILED) s))
           in case batch_of i s1 of
                None \<Rightarrow> (Inr (), s1)
              | Some b \<Rightarrow>
                  (case (file_lines e b s1, wallet_of_batch b s1) of
                     (Some lines, Some w) \<Rightarrow>
                       (case validate_loop e (wl_defaultDebtType w) others i 0 lines no_tally s1 of
                          (t, s2) \<Rightarrow>
                            let s3 = others (length lines)
                                  (s2\<lparr>im_errors := im_errors s2 @ map (Pair i) (ta_errors t)\<rparr>)
                            in if is_cancelled i s3 then (Inr (), update_batch i (store_tally t) s3)
                               else (Inr (), update_batch i
                                      (\<lambda>b. set_status (if 0 < ta_invalid t then BA_VALIDATED_WITH_ERRORS
                                             else BA_VALIDATED) (store_tally t b)) s3))
                   | _ \<Rightarrow> failed s1))"

section \<open>Applying a line\<close>

definition isLineValid :: "import_env \<Rightarrow> debt_type \<Rightarrow> line_data \<Rightarrow> bool" where
  "isLineValid e dflt l \<longleftrightarrow>
     (let doc = normalizeCnpj (line_get l ''debtorDocument'');
          positive = (\<lambda>v. case v of FNaN \<Rightarrow> False | FInf neg \<Rightarrow> \<not> neg | Fin x \<Rightarrow> 1 / 100 \<le> x)
      in (cpf_shape doc \<or> cnpj_shape doc) \<and> \<not> blank l ''contractNumber'' \<and>
         debt_type_of (line_type dflt l) \<noteq> None \<and>
         ie_parseDate e (line_get l ''dueDate'') \<noteq> None \<and>
         positive (parse_float (line_get l ''originalValue'')) \<and>
         positive (parse_float (line_get l ''updatedValue'')))"

definition toValidDate :: "import_env \<Rightarrow> string \<Rightarrow> int option" where
  "toValidDate e v = (let raw = trim v in if raw = '''' then None else ie_parseDate e raw)"

definition trimmed_or_null :: "line_data \<Rightarrow> string \<Rightarrow> string option" where
  \<comment> \<open>\<open>line[k]?.trim() || null\<close>\<close>
  "trimmed_or_null l k = text_or_null (Some (trim (line_get l k)))"

record line_row =
  lr_document :: string
  lr_debtorName :: string
  lr_contractNumber :: string
  lr_debtType :: string
  lr_dueDate :: "int option"
  lr_originalValue :: js_float
  lr_updatedValue :: js_float
  lr_debtOrigin :: "string option"
  lr_productName :: "string option"
  lr_contact :: debtor_contact
  lr_cancelledAt :: "int option"

definition read_line :: "import_env \<Rightarrow> debt_type \<Rightarrow> line_data \<Rightarrow> line_row" where
  \<comment> \<open>a birth date in the future is dropped\<close>
  "read_line e dflt l =
     (let birth = toValidDate e (line_get l ''debtorBirthDate'')
      in \<lparr>lr_document = normalizeCnpj (line_get l ''debtorDocument''),
          lr_debtorName = trim (line_get l ''debtorName''),
          lr_contractNumber = line_get l ''contractNumber'',
          lr_debtType = line_type dflt l,
          lr_dueDate = toValidDate e (line_get l ''dueDate''),
          lr_originalValue =
            parse_float (let v = line_get l ''originalValue'' in if v = '''' then ''0'' else v),
          lr_updatedValue = parse_float (line_get l ''updatedValue''),
          lr_debtOrigin = text_or_null (map_of l ''debtOrigin''),
          lr_productName = trimmed_or_null l ''productName'',
          lr_contact =
            \<lparr>db_birthDate =
               (case birth of None \<Rightarrow> None | Some t \<Rightarrow> if t \<le> ie_now e then Some t else None),
             db_email = trimmed_or_null l ''debtorEmail'', db_phone = trimmed_or_null l ''debtorPhone'',
             db_street = trimmed_or_null l ''debtorStreet'',
             db_addressNumber = trimmed_or_null l ''debtorAddressNumber'',
             db_addressComplement = trimmed_or_null l ''debtorAddressComplement'',
             db_neighborhood = trimmed_or_null l ''debtorNeighborhood'',
             db_city = trimmed_or_null l ''debtorCity'', db_state = trimmed_or_null l ''debtorState'',
             db_zipCode = trimmed_or_null l ''debtorZipCode''\<rparr>,
          lr_cancelledAt = toValidDate e (line_get l ''cancelledAt'')\<rparr>)"

fun amount_differs :: "rat \<Rightarrow> js_float \<Rightarrow> bool" where
  "amount_differs x (Fin v) = (x \<noteq> v)"
| "amount_differs x v = True"

definition same_day :: "int option \<Rightarrow> int option \<Rightarrow> bool" where
  \<comment> \<open>equal dates of the ISO text\<close>
  "same_day x y \<longleftrightarrow> map_option (\<lambda>t. t div day_ms) x = map_option (\<lambda>t. t div day_ms) y"

definition contact_differs :: "debtor_contact \<Rightarrow> debtor_contact \<Rightarrow> bool" where
  "contact_differs a b \<longleftrightarrow>
     \<not> same_day (db_birthDate a) (db_birthDate b) \<or>
     list_ex (\<lambda>f. text_or_null (f a) \<noteq> text_or_null (f b))
       [db_street, db_addressNumber, db_addressComplement, db_neighborhood, db_city, db_state, db_zipCode,
        db_phone, db_email]"

definition valuesAreDifferent :: "contract \<Rightarrow> line_row \<Rightarrow> int \<Rightarrow> bool" where
  "valuesAreDifferent c r due \<longleftrightarrow>
     debt_type_text (ct_debtType c) \<noteq> lr_debtType r \<or>
     \<not> same_day (Some (ct_occurrenceDate c)) (Some due) \<or>
     amount_differs (ct_originalValue c) (lr_originalValue r) \<or>
     amount_differs (ct_updatedValue c) (lr_updatedValue r) \<or>
     text_or_null (pr_debtOrigin (ct_product c)) \<noteq> text_or_null (lr_debtOrigin r) \<or>
     \<not> same_day (ct_dueDate c) (lr_dueDate r) \<or> \<not> same_day (ct_cancelledAt c) (lr_cancelledAt r) \<or>
     text_or_null (Some (ct_debtorName c)) \<noteq> text_or_null (Some (lr_debtorName r)) \<or>
     text_or_null (pr_name (ct_product c)) \<noteq> text_or_null (lr_productName r) \<or>
     contact_differs (ct_debtor c) (lr_contact r)"

definition storable :: "line_row \<Rightarrow> (debt_type \<times> rat \<times> rat) option" where
  \<comment> \<open>what the columns accept: a member of the enumeration and finite amounts\<close>
  "storable r =
     (case (debt_type_of (lr_debtType r), lr_originalValue r, lr_updatedValue r) of
        (Some t, Fin a, Fin b) \<Rightarrow> Some (t, a, b)
      | _ \<Rightarrow> None)"

definition import_aging :: "import_env \<Rightarrow> int \<Rightarrow> int" where
  "import_aging e due = max 0 (ie_day e (ie_now e) - ie_day e due)"

definition import_product :: "(string \<Rightarrow> string) \<Rightarrow> line_row \<Rightarrow> product_info \<Rightarrow> product_info" where
  "import_product sha r p =
     p\<lparr>pr_name := lr_productName r, pr_debtOrigin := lr_debtOrigin r,
       pr_debtOriginDocHash := sha_text sha (lr_debtOrigin r)\<rparr>"

definition no_offer :: offer_snapshot where
  "no_offer =
     \<lparr>of_value = None, of_discountPercent = None, of_firstInstallmentDays = None,
      of_maxInstallments = None, of_maximumDiscountPercent = None, of_repasseValue = None,
      of_commissionPercent = None, of_commissionValue = None\<rparr>"

definition import_update ::
  "import_env \<Rightarrow> wallet \<Rightarrow> string \<Rightarrow> line_row \<Rightarrow> int \<Rightarrow> debt_type \<times> rat \<times> rat \<Rightarrow> contract \<Rightarrow> contract" where
  \<comment> \<open>the columns both update branches write; the contract found is never paid\<close>
  "import_update e w key r due v c =
     (case v of (t, a, b) \<Rightarrow>
        c\<lparr>ct_walletId := wl_id w, ct_debtorDocument := lr_document r,
          ct_debtorDocumentHash := ie_sha e (lr_document r), ct_debtorName := lr_debtorName r,
          ct_debtor := lr_contact r, ct_contractNumber := lr_contractNumber r, ct_debtType := t,
          ct_occurrenceDate := due, ct_agingDays := import_aging e due, ct_dueDate := lr_dueDate r,
          ct_originalValue := dec2 a, ct_updatedValue := dec2 b,
          ct_offer := with_calculated (calculateOffer b w) (ct_offer c),
          ct_product := import_product (ie_sha e) r (ct_product c),
          ct_cancelledAt := lr_cancelledAt r, ct_deduplicationKey := key\<rparr>)"

definition import_create ::
  "import_env \<Rightarrow> string \<Rightarrow> wallet \<Rightarrow> string \<Rightarrow> line_row \<Rightarrow> int \<Rightarrow> debt_type \<times> rat \<times> rat \<Rightarrow> contract" where
  "import_create e acc w key r due v =
     (case v of (t, a, b) \<Rightarrow>
        \<lparr>ct_id = '''', ct_accountId = acc, ct_walletId = wl_id w, ct_debtorDocument = lr_document r,
         ct_debtorDocumentHash = ie_sha e (lr_document r), ct_debtorName = lr_debtorName r,
         ct_debtor = lr_contact r, ct_contractNumber = lr_contractNumber r, ct_debtType = t,
         ct_occurrenceDate = due, ct_agingDays = import_aging e due, ct_dueDate = lr_dueDate r,
         ct_originalValue = a, ct_updatedValue = b,
         ct_product = import_product (ie_sha e) r
           \<lparr>pr_name = None, pr_adhesionDate = None, pr_debtOrigin = None, pr_debtOriginDocHash = None,
            pr_offer = JNull\<rparr>,
         ct_isNegativated = False, ct_cancelledAt = lr_cancelledAt r, ct_cancellationReason = None,
         ct_offer = with_calculated (calculateOffer b w) no_offer, ct_deduplicationKey = key,
         ct_serasaStatus = SE_NOT_ENABLED, ct_paymentStatus = PS_OPEN, ct_status = CT_ACTIVE,
         ct_debtId = None, ct_agreement = blank_agreement, ct_totalPaidAmount = 0,
         ct_lastPaymentAt = None, ct_acceptedDiscountPercent = None, ct_agreedPaymentAmount = None,
         ct_deletedAt = None, ct_createdAt = ie_now e\<rparr>)"

definition reactivate :: "contract \<Rightarrow> contract" where
  "reactivate c =
     (if ct_status c \<in> {CT_SUSPENDED, CT_CANCELLED}
      then c\<lparr>ct_status := CT_ACTIVE, ct_cancellationReason := None, ct_cancelledAt := None\<rparr> else c)"

datatype line_result = Created | Updated | Ignored

definition rewrite_contract ::
  "string \<Rightarrow> string \<Rightarrow> (contract \<Rightarrow> contract) \<Rightarrow> database \<Rightarrow> http_error + (database \<times> line_result)" where
  \<comment> \<open>an update that writes the unique key\<close>
  "rewrite_contract i key f d =
     (if list_ex (\<lambda>c. ct_id c \<noteq> i \<and> ct_deduplicationKey c = key) (contracts d)
      then Inl (Internal ''P2002'')
      else Inr (update_contract i f d, Updated))"

definition apply_existing ::
  "import_env \<Rightarrow> wallet \<Rightarrow> string \<Rightarrow> line_row \<Rightarrow> int \<Rightarrow> contract \<Rightarrow> database \<Rightarrow>
    http_error + (database \<times> line_result)" where
  "apply_existing e w key r due c d =
     (if ct_paymentStatus c = PS_PAID \<or> ct_status c = CT_CANCELLED then Inr (d, Ignored)
      else if ct_walletId c = wl_id w \<and> \<not> valuesAreDifferent c r due
      then if ct_status c \<in> {CT_SUSPENDED, CT_CANCELLED}
           then Inr (update_contract (ct_id c) reactivate d, Updated) else Inr (d, Ignored)
      else case storable r of
        None \<Rightarrow> Inl (Internal ''PrismaClientValidationError'')
      | Some v \<Rightarrow>
          rewrite_contract (ct_id c) key
            (if ct_walletId c = wl_id w
             then (\<lambda>x. let y = import_update e w key r due v x
                        in if ct_status x \<in> {CT_SUSPENDED, CT_CANCELLED} then reactivate y else y)
             else import_update e w key r due v) d)"

definition apply_line ::
  "import_env \<Rightarrow> string \<Rightarrow> wallet \<Rightarrow> line_data \<Rightarrow> database \<Rightarrow> http_error + (database \<times> line_result)" where
  "apply_line e acc w l d =
     (let r = read_line e (wl_defaultDebtType w) l
      in case lr_dueDate r of
           None \<Rightarrow> Inr (d, Ignored)
         | Some due \<Rightarrow>
             let key = computeDeduplicationKey (ie_sha e) (wl_creditorId w) (lr_document r)
                         (lr_contractNumber r) (Some due)
             in case filter (identity_match d acc (wl_creditorId w) (ie_sha e (lr_document r))
                       (lr_contractNumber r) (Some due)) (contracts d) of
                  [] \<Rightarrow>
                    (case storable r of
                       None \<Rightarrow> Inl (Internal ''PrismaClientValidationError'')
                     | Some v \<Rightarrow>
                         (case create_contract (ie_gen e) (import_create e acc w key r due v) d of
                            None \<Rightarrow> Inl (Internal ''P2002'')
                          | Some (_, d') \<Rightarrow> Inr (d', Created)))
                | [c] \<Rightarrow> apply_existing e w key r due c d
                | _ \<Rightarrow> Inr (d, Ignored))"

section \<open>The application worker\<close>

function chunks_of :: "nat \<Rightarrow> 'a list \<Rightarrow> 'a list list" where
  \<comment> \<open>the loop over \<open>offset\<close>\<close>
  "chunks_of n xs = (if xs = [] \<or> n = 0 then [] else take n xs # chunks_of n (drop n xs))"
  by pat_completeness auto
termination
  by (relation "measure (length \<circ> snd)") auto

declare chunks_of.simps [simp del]

definition TRANSACTION_BATCH_SIZE :: nat where
  "TRANSACTION_BATCH_SIZE = 250"

fun apply_lines ::
  "import_env \<Rightarrow> string \<Rightarrow> wallet \<Rightarrow> line_data list \<Rightarrow> database \<Rightarrow>
    http_error + (database \<times> line_result list)" where
  \<comment> \<open>one transaction: an exception undoes the whole chunk\<close>
  "apply_lines e acc w [] d = Inr (d, [])"
| "apply_lines e acc w (l # ls) d =
     (case apply_line e acc w l d of
        Inl err \<Rightarrow> Inl err
      | Inr (d1, r) \<Rightarrow>
          (case apply_lines e acc w ls d1 of
             Inl err \<Rightarrow> Inl err
           | Inr (d2, rs) \<Rightarrow> Inr (d2, r # rs)))"

definition store_counts :: "line_result list \<Rightarrow> import_batch \<Rightarrow> import_batch" where
  "store_counts rs b =
     b\<lparr>ba_createdCount := count_list rs Created, ba_updatedCount := count_list rs Updated,
       ba_ignoredCount := count_list rs Ignored\<rparr>"

fun apply_chunks ::
  "import_env \<Rightarrow> import_batch \<Rightarrow> wallet \<Rightarrow> line_data list list \<Rightarrow> line_result list \<Rightarrow> import_store \<Rightarrow>
    (import_store, line_result list) outcome" where
  "apply_chunks e b w [] rs s = (Inr rs, s)"
| "apply_chunks e b w (ls # chunks) rs s =
     (case apply_lines e (ba_accountId b) w ls (im_db s) of
        Inl err \<Rightarrow> (Inl err, s)
      | Inr (d, new) \<Rightarrow>
          apply_chunks e b w chunks (rs @ new)
            (update_batch (ba_id b) (store_counts (rs @ new)) (s\<lparr>im_db := d\<rparr>)))"

definition applicable :: "import_env \<Rightarrow> wallet \<Rightarrow> line_data list \<Rightarrow> line_data list" where
  "applicable e w lines = filter (isLineValid e (wl_defaultDebtType w)) lines"

definition processApplication ::
  "import_env \<Rightarrow> nat \<Rightarrow> nat option \<Rightarrow> string \<Rightarrow> import_store \<Rightarrow> (import_store, unit) outcome" where
  \<comment> \<open>\<open>attemptsMade\<close> and \<open>attempts\<close> are \<open>job.attemptsMade\<close> and \<open>job.opts?.attempts\<close>\<close>
  "processApplication e attemptsMade attempts i s =
     (case batch_of i s of
        None \<Rightarrow> (Inr (), s)
      | Some b \<Rightarrow>
          let fail = (\<lambda>err s'.
                (Inl err, if int (or_else attempts 3) - 1 \<le> int attemptsMade
                          then update_batch i (set_status BA_FAILED) s' else s'))
          in case (file_lines e b s, wallet_of_batch b s) of
               (Some lines, Some w) \<Rightarrow>
                 (case apply_chunks e b w (chunks_of TRANSACTION_BATCH_SIZE (applicable e w lines)) [] s of
                    (Inl err, s1) \<Rightarrow> fail err s1
                  | (Inr rs, s1) \<Rightarrow>
                      let s2 = update_batch i (\<lambda>x. set_status BA_APPLIED (store_counts rs x)) s1
                      in case recalculateOffers (ba_walletId b) (ba_accountId b) (im_db s2) of
                           (Inl err, d) \<Rightarrow> fail err (s2\<lparr>im_db := d\<rparr>)
                         | (Inr _, d) \<Rightarrow> (Inr (), s2\<lparr>im_db := d\<rparr>))
             | _ \<Rightarrow> fail (Internal ''NoSuchKey'') s)"

text \<open>
  The queue: a job that fails is run again, with the number of attempts made before, until it has had
  the attempts it was added with. Nobody else touches the batch or the contracts in between.
\<close>

function apply_attempts :: "import_env \<Rightarrow> nat \<Rightarrow> nat \<Rightarrow> string \<Rightarrow> import_store \<Rightarrow> import_store" where
  "apply_attempts e attempts attemptsMade i s =
     (if attempts \<le> attemptsMade then s
      else case processApplication e attemptsMade (Some attempts) i s of
             (Inr _, s') \<Rightarrow> s'
           | (Inl _, s') \<Rightarrow> apply_attempts e attempts (Suc attemptsMade) i s')"
  by pat_completeness auto
termination
  by (relation "measure (\<lambda>(_, attempts, made, _). attempts - made)") auto

declare apply_attempts.simps [simp del]

definition APPLICATION_ATTEMPTS :: nat where
  "APPLICATION_ATTEMPTS = 3"

definition run_application :: "import_env \<Rightarrow> string \<Rightarrow> import_store \<Rightarrow> import_store" where
  \<comment> \<open>the job \<open>confirmImport\<close> adds, from its first attempt to its last\<close>
  "run_application e i s = apply_attempts e APPLICATION_ATTEMPTS 0 i s"

section \<open>Facts about lines\<close>

lemma concat_chunks: "0 < n \<Longrightarrow> concat (chunks_of n xs) = xs"
proof (induction n xs rule: chunks_of.induct)
  case (1 n xs)
  then show ?case by (cases "xs = []") (simp_all add: chunks_of.simps [of n xs] chunks_of.simps [of n "[]"])
qed

text \<open>
  A line without errors is applied: the check of the second worker is weaker than the one of the
  first.
\<close>

lemma validated_is_applied:
  assumes "validateLine e dflt n l = []"
  shows "isLineValid e dflt l"
proof -
  have fields: "filter (blank l) REQUIRED_FIELDS = []"
    using assms by (auto simp: validateLine_def Let_def split: if_splits)
  note v = assms [unfolded validateLine_def Let_def fields, simplified]
  have "\<not> blank l ''contractNumber''"
    using fields by (auto simp: REQUIRED_FIELDS_def split: if_splits)
  moreover have "cpf_shape (normalizeCnpj (line_get l ''debtorDocument'')) \<or>
      cnpj_shape (normalizeCnpj (line_get l ''debtorDocument''))"
    using v by (auto simp: document_errors_def split: if_splits)
  moreover have "value_in_range (parse_float (line_get l ''originalValue''))"
    "value_in_range (parse_float (line_get l ''updatedValue''))"
    using v by (auto split: if_splits)
  ultimately show ?thesis
    using v
    by (cases "parse_float (line_get l ''originalValue'')"; cases "parse_float (line_get l ''updatedValue'')")
      (auto simp: isLineValid_def Let_def split: if_splits)
qed

text \<open>
  The converse fails, although the worker says that lines marked invalid are excluded: a wrong check
  digit, a contract number that is too long and a value above the limit are reported and applied
  nevertheless.
\<close>

lemma rejected_line_applied:
  assumes "isLineValid e dflt l" and "filter (blank l) REQUIRED_FIELDS = []"
  shows "validateLine e dflt n l = [] \<longleftrightarrow>
    document_errors (normalizeCnpj (line_get l ''debtorDocument'')) = [] \<and>
    length (line_get l ''contractNumber'') \<le> 100 \<and>
    value_in_range (parse_float (line_get l ''originalValue'')) \<and> value_in_range (parse_float (line_get l ''updatedValue''))"
  using assms by (auto simp: validateLine_def isLineValid_def Let_def)

lemma apply_line_cases:
  assumes "apply_line e acc w l d = Inr (d', r)"
  obtains
    (ignored) "d' = d" and "r = Ignored"
  | (created) key lr due v c where "create_contract (ie_gen e) (import_create e acc w key lr due v) d = Some (c, d')"
      and "lr_document lr = normalizeCnpj (lr_document lr)" and "r = Created"
  | (reactivated) c where "c \<in> set (contracts d)" and "ct_paymentStatus c \<noteq> PS_PAID"
      and "ct_status c \<noteq> CT_CANCELLED" and "d' = update_contract (ct_id c) reactivate d" and "r = Updated"
  | (rewritten) c f key lr due v where "c \<in> set (contracts d)" and "ct_paymentStatus c \<noteq> PS_PAID"
      and "ct_status c \<noteq> CT_CANCELLED" and "d' = update_contract (ct_id c) f d" and "r = Updated"
      and "\<And>x. f x = import_update e w key lr due v x \<or> f x = reactivate (import_update e w key lr due v x)"
      and "lr_document lr = normalizeCnpj (lr_document lr)"
      and "\<not> list_ex (\<lambda>x. ct_id x \<noteq> ct_id c \<and> ct_deduplicationKey x = key) (contracts d)"
proof -
  define lr where "lr = read_line e (wl_defaultDebtType w) l"
  have doc: "lr_document lr = normalizeCnpj (lr_document lr)"
    by (simp add: lr_def read_line_def Let_def)
  show thesis
  proof (cases "lr_dueDate lr")
    case None
    then show thesis using assms by (intro ignored) (simp_all add: apply_line_def lr_def Let_def)
  next
    case (Some due)
    define key where "key = computeDeduplicationKey (ie_sha e) (wl_creditorId w) (lr_document lr)
      (lr_contractNumber lr) (Some due)"
    define P where "P = identity_match d acc (wl_creditorId w) (ie_sha e (lr_document lr)) (lr_contractNumber lr) (Some due)"
    have run: "(case filter P (contracts d) of
        [] \<Rightarrow> (case storable lr of None \<Rightarrow> Inl (Internal ''PrismaClientValidationError'')
              | Some v \<Rightarrow> (case create_contract (ie_gen e) (import_create e acc w key lr due v) d of
                   None \<Rightarrow> Inl (Internal ''P2002'') | Some (_, d') \<Rightarrow> Inr (d', Created)))
      | [c] \<Rightarrow> apply_existing e w key lr due c d | _ \<Rightarrow> Inr (d, Ignored)) = Inr (d', r)"
      using assms unfolding apply_line_def Let_def lr_def [symmetric] key_def P_def by (simp add: Some)
    consider "filter P (contracts d) = []" | c where "filter P (contracts d) = [c]"
      | x y ys where "filter P (contracts d) = x # y # ys"
      by (cases "filter P (contracts d)" rule: list.exhaust; metis list.exhaust)
    then show thesis
    proof cases
      case 1
      with run obtain v c where "create_contract (ie_gen e) (import_create e acc w key lr due v) d = Some (c, d')"
        and "r = Created"
        by (auto split: option.splits)
      with doc show thesis by (intro created)
    next
      case (2 c)
      have c: "c \<in> set (contracts d)" using 2 by (metis filter_is_subset list.set_intros(1) subsetD)
      have ex: "apply_existing e w key lr due c d = Inr (d', r)" using run 2 by simp
      show thesis
      proof (cases "ct_paymentStatus c = PS_PAID \<or> ct_status c = CT_CANCELLED")
        case True
        then show thesis using ex by (intro ignored) (simp_all add: apply_existing_def)
      next
        case unsettled: False
        show thesis
        proof (cases "ct_walletId c = wl_id w \<and> \<not> valuesAreDifferent c lr due")
          case True
          show thesis
          proof (cases "ct_status c \<in> {CT_SUSPENDED, CT_CANCELLED}")
            case s: True
            then show thesis using ex unsettled True c by (intro reactivated) (auto simp: apply_existing_def)
          next
            case False
            then show thesis using ex unsettled True by (intro ignored) (auto simp: apply_existing_def)
          qed
        next
          case False
          define g where "g v = (if ct_walletId c = wl_id w
             then (\<lambda>x. let y = import_update e w key lr due v x
                        in if ct_status x \<in> {CT_SUSPENDED, CT_CANCELLED} then reactivate y else y)
             else import_update e w key lr due v)" for v
          have "(case storable lr of None \<Rightarrow> Inl (Internal ''PrismaClientValidationError'')
              | Some v \<Rightarrow> rewrite_contract (ct_id c) key (g v) d) = Inr (d', r)"
            using ex unsettled False unfolding apply_existing_def g_def by simp
          then obtain v where v: "rewrite_contract (ct_id c) key (g v) d = Inr (d', r)"
            by (auto split: option.splits)
          have "g v x = import_update e w key lr due v x \<or> g v x = reactivate (import_update e w key lr due v x)" for x
            by (simp add: g_def Let_def)
          with v unsettled c doc show thesis
            by (intro rewritten [of c "g v" key lr due v]) (auto simp: rewrite_contract_def split: if_splits)
        qed
      qed
    next
      case 3
      then show thesis using run by (intro ignored) simp_all
    qed
  qed
qed

lemma import_update_keeps [simp]:
  "ct_id (import_update e w key r due v c) = ct_id c"
  "ct_accountId (import_update e w key r due v c) = ct_accountId c"
  "ct_paymentStatus (import_update e w key r due v c) = ct_paymentStatus c"
  "ct_deletedAt (import_update e w key r due v c) = ct_deletedAt c"
  "ct_walletId (import_update e w key r due v c) = wl_id w"
  "ct_deduplicationKey (import_update e w key r due v c) = key"
  by (simp_all add: import_update_def split: prod.split)

lemma reactivate_keeps [simp]:
  "ct_id (reactivate c) = ct_id c" "ct_walletId (reactivate c) = ct_walletId c"
  "ct_deduplicationKey (reactivate c) = ct_deduplicationKey c" "ct_paymentStatus (reactivate c) = ct_paymentStatus c"
  "ct_accountId (reactivate c) = ct_accountId c" "ct_deletedAt (reactivate c) = ct_deletedAt c"
  by (simp_all add: reactivate_def)

section \<open>Terminal contracts\<close>

definition terminal :: "contract \<Rightarrow> bool" where
  "terminal c \<longleftrightarrow> ct_paymentStatus c = PS_PAID \<or> ct_status c = CT_CANCELLED"

definition ids_ok :: "(nat \<Rightarrow> string) \<Rightarrow> database \<Rightarrow> bool" where
  "ids_ok gen d \<longleftrightarrow> distinct (map ct_id (contracts d)) \<and> set (map ct_id (contracts d)) \<subseteq> gen ` {..<nextId d}"

lemma ids_ok_update:
  assumes "ids_ok gen d" and "\<And>x. ct_id (f x) = ct_id x"
  shows "ids_ok gen (update_contract i f d)"
proof -
  have "map ct_id (update_where P f (contracts d)) = map ct_id (contracts d)" for P
    by (rule map_update_where) (rule assms(2))
  then show ?thesis using assms(1) by (simp add: ids_ok_def del: list.set_map)
qed

lemma ids_ok_create:
  assumes "ids_ok gen d" and "inj gen" and "create_contract gen c d = Some (c', d')"
  shows "ids_ok gen d'"
proof -
  note fr = create_contract_frame [OF assms(3)]
  have "gen (nextId d) \<notin> set (map ct_id (contracts d))"
    using assms(1) by (intro fresh_key [OF assms(2)]) (simp add: ids_ok_def)
  with assms(1) show ?thesis
    by (auto simp: ids_ok_def fr(1,2) new_contract_row_def lessThan_Suc)
qed

text \<open>What a line may do to the contracts that were there before it.\<close>

lemma apply_line_terminal:
  assumes "apply_line e acc w l d = Inr (d', r)" and "ids_ok (ie_gen e) d" and "inj (ie_gen e)"
  shows "ids_ok (ie_gen e) d' \<and> (\<forall>c \<in> set (contracts d). terminal c \<longrightarrow> c \<in> set (contracts d'))"
  using assms(1)
proof (cases rule: apply_line_cases)
  case ignored
  then show ?thesis using assms(2) by simp
next
  case (created key lr due v c)
  then show ?thesis
    using ids_ok_create [OF assms(2,3) created(1)] create_contract_frame(2) [OF created(1)] by simp
next
  case (reactivated c)
  have "x \<in> set (contracts d')" if "x \<in> set (contracts d)" "terminal x" for x
  proof -
    have "ct_id x \<noteq> ct_id c"
      using that reactivated(1-3) assms(2) same_key [of ct_id "contracts d" x c]
      by (auto simp: ids_ok_def terminal_def)
    then show ?thesis using that(1) by (auto simp: reactivated(4) in_update_where)
  qed
  then show ?thesis using ids_ok_update [OF assms(2)] by (simp add: reactivated(4))
next
  case (rewritten c f key lr due v)
  have fid: "ct_id (f x) = ct_id x" for x using rewritten(6) [of x] by auto
  have "x \<in> set (contracts d')" if "x \<in> set (contracts d)" "terminal x" for x
  proof -
    have "ct_id x \<noteq> ct_id c"
      using that rewritten(1-3) assms(2) same_key [of ct_id "contracts d" x c]
      by (auto simp: ids_ok_def terminal_def)
    then show ?thesis using that(1) by (auto simp: rewritten(4) in_update_where)
  qed
  then show ?thesis using ids_ok_update [OF assms(2)] fid by (simp add: rewritten(4))
qed

definition keeps_terminal :: "(nat \<Rightarrow> string) \<Rightarrow> database \<Rightarrow> database \<Rightarrow> bool" where
  "keeps_terminal gen d d' \<longleftrightarrow>
     (ids_ok gen d \<longrightarrow> ids_ok gen d' \<and> (\<forall>c \<in> set (contracts d). terminal c \<longrightarrow> c \<in> set (contracts d')))"

lemma keeps_terminal_refl [simp]: "keeps_terminal gen d d"
  by (simp add: keeps_terminal_def)

lemma keeps_terminal_trans: "keeps_terminal gen d d1 \<Longrightarrow> keeps_terminal gen d1 d2 \<Longrightarrow> keeps_terminal gen d d2"
  by (auto simp: keeps_terminal_def)

lemma apply_lines_terminal:
  assumes "apply_lines e acc w ls d = Inr (d', rs)" and "inj (ie_gen e)"
  shows "keeps_terminal (ie_gen e) d d' \<and> length rs = length ls"
  using assms(1)
proof (induction ls arbitrary: d rs)
  case (Cons l ls)
  then obtain d1 r rs1 where run: "apply_line e acc w l d = Inr (d1, r)"
    "apply_lines e acc w ls d1 = Inr (d', rs1)" "rs = r # rs1"
    by (auto split: sum.splits)
  have "keeps_terminal (ie_gen e) d d1"
    using apply_line_terminal [OF run(1) _ assms(2)] by (simp add: keeps_terminal_def)
  with Cons.IH [OF run(2)] run(3) show ?case by (auto intro: keeps_terminal_trans)
qed simp

lemma update_batch_frame [simp]:
  "im_db (update_batch i f s) = im_db s" "im_files (update_batch i f s) = im_files s"
  "im_errors (update_batch i f s) = im_errors s"
  "im_batches (update_batch i f s) = update_where (\<lambda>b. ba_id b = i) f (im_batches s)"
  by (simp_all add: update_batch_def)

lemma apply_chunks_terminal:
  assumes "apply_chunks e b w cs rs s = (r, s')" and "inj (ie_gen e)"
  shows "keeps_terminal (ie_gen e) (im_db s) (im_db s') \<and>
    (\<forall>rs'. r = Inr rs' \<longrightarrow> length rs' = length rs + length (concat cs))"
  using assms(1)
proof (induction cs arbitrary: rs s)
  case (Cons ls cs)
  show ?case
  proof (cases "apply_lines e (ba_accountId b) w ls (im_db s)")
    case (Inl err)
    then show ?thesis using Cons.prems by auto
  next
    case (Inr p)
    obtain d new where p: "p = (d, new)" by force
    note step = apply_lines_terminal [OF Inr [unfolded p] assms(2)]
    have "apply_chunks e b w cs (rs @ new) (update_batch (ba_id b) (store_counts (rs @ new)) (s\<lparr>im_db := d\<rparr>)) = (r, s')"
      using Cons.prems by (simp add: Inr p)
    from Cons.IH [OF this] step show ?thesis by (auto intro: keeps_terminal_trans)
  qed
qed auto

lemma recalculateOffers_terminal: "keeps_terminal gen d (snd (recalculateOffers i acc d))"
proof -
  have "keeps_terminal gen d (d\<lparr>contracts := update_where (repriceable i) (repriced w cr) (contracts d)\<rparr>)" for w cr
  proof -
    have "map ct_id (update_where (repriceable i) (repriced w cr) (contracts d)) = map ct_id (contracts d)"
      by (rule map_update_where) (simp add: repriced_def split: option.split)
    moreover have "c \<in> set (update_where (repriceable i) (repriced w cr) (contracts d))"
      if "c \<in> set (contracts d)" "terminal c" for c
    proof -
      have "\<not> repriceable i c" using that(2) by (auto simp: repriceable_def terminal_def)
      with that(1) show ?thesis by (auto simp: in_update_where)
    qed
    ultimately show ?thesis by (simp add: keeps_terminal_def ids_ok_def del: list.set_map)
  qed
  then show ?thesis by (simp add: recalculateOffers_def Let_def split: option.split)
qed

lemma processApplication_terminal:
  assumes "inj (ie_gen e)"
  shows "keeps_terminal (ie_gen e) (im_db s) (im_db (snd (processApplication e made attempts i s)))"
proof (cases "batch_of i s")
  case None
  then show ?thesis by (simp add: processApplication_def)
next
  case (Some b)
  show ?thesis
  proof (cases "file_lines e b s = None \<or> wallet_of_batch b s = None")
    case True
    then show ?thesis by (auto simp: processApplication_def Some Let_def split: option.split)
  next
    case False
    then obtain lines w where lw: "file_lines e b s = Some lines" "wallet_of_batch b s = Some w" by auto
    obtain r s1 where run: "apply_chunks e b w (chunks_of TRANSACTION_BATCH_SIZE (applicable e w lines)) [] s = (r, s1)"
      by force
    have k: "keeps_terminal (ie_gen e) (im_db s) (im_db s1)"
      using apply_chunks_terminal [OF run assms] by blast
    show ?thesis
    proof (cases r)
      case (Inl err)
      then show ?thesis using k by (simp add: processApplication_def Some lw run Let_def)
    next
      case (Inr rs)
      obtain q d where rq: "recalculateOffers (ba_walletId b) (ba_accountId b) (im_db s1) = (q, d)" by force
      have "keeps_terminal (ie_gen e) (im_db s1) d"
        using recalculateOffers_terminal [of "ie_gen e" "im_db s1" "ba_walletId b" "ba_accountId b"] by (simp add: rq)
      with k have "keeps_terminal (ie_gen e) (im_db s) d" by (rule keeps_terminal_trans)
      then show ?thesis
        by (simp add: processApplication_def Some lw run Inr rq Let_def split: sum.split)
    qed
  qed
qed

lemma apply_attempts_terminal:
  assumes "inj (ie_gen e)"
  shows "keeps_terminal (ie_gen e) (im_db s) (im_db (apply_attempts e n k i s))"
  using assms
proof (induction e n k i s rule: apply_attempts.induct)
  case (1 e n k i s)
  obtain q s1 where run: "processApplication e k (Some n) i s = (q, s1)" by force
  have step: "keeps_terminal (ie_gen e) (im_db s) (im_db s1)"
    using processApplication_terminal [OF 1(2), of s k "Some n" i] run by simp
  show ?case
  proof (cases "n \<le> k \<or> (\<exists>u. q = Inr u)")
    case True
    then show ?thesis using run step by (auto simp: apply_attempts.simps [of e n k i s])
  next
    case False
    then obtain err where q: "q = Inl err" by (cases q) auto
    have "keeps_terminal (ie_gen e) (im_db s1) (im_db (apply_attempts e n (Suc k) i s1))"
      using 1 False run q by simp
    with step show ?thesis
      using False run q by (simp add: apply_attempts.simps [of e n k i s]) (rule keeps_terminal_trans)
  qed
qed

text \<open>
  C27. No file brings a terminal contract back: whatever the file holds and however often the job is
  repeated, a paid or cancelled contract keeps every column. (The requirements, the tests of the job
  and a comment in it still have an import reactivate a cancelled contract; the lookup of the code
  skips it before.)
\<close>

lemma import_keeps_terminal:
  assumes "inj (ie_gen e)" and "ids_ok (ie_gen e) (im_db s)"
    and "c \<in> set (contracts (im_db s))" and "terminal c"
  shows "c \<in> set (contracts (im_db (apply_attempts e n k i s)))"
  using apply_attempts_terminal [OF assms(1), of s n k i] assms(2-4) by (simp add: keeps_terminal_def)

section \<open>The end of a job\<close>

definition status_of :: "string \<Rightarrow> import_store \<Rightarrow> batch_status option" where
  "status_of i s = map_option ba_status (batch_of i s)"

lemma batch_of_update:
  assumes "\<And>b. ba_id (f b) = ba_id b"
  shows "batch_of j (update_batch i f s) = map_option (\<lambda>b. if ba_id b = i then f b else b) (batch_of j s)"
  unfolding batch_of_def by (simp add: find_update_where assms)

lemma batch_of_id: "batch_of i s = Some b \<Longrightarrow> ba_id b = i"
  unfolding batch_of_def by (auto dest: find_SomeD)

lemma batch_of_other [simp]:
  "batch_of i (s\<lparr>im_db := d\<rparr>) = batch_of i s" "batch_of i (s\<lparr>im_errors := es\<rparr>) = batch_of i s"
  "batch_of i (s\<lparr>im_applicationQueue := q\<rparr>) = batch_of i s"
  by (simp_all add: batch_of_def)

lemma batch_keys [simp]:
  "ba_id (set_status st b) = ba_id b" "ba_id (store_counts rs b) = ba_id b" "ba_id (store_tally t b) = ba_id b"
  "ba_status (set_status st b) = st"
  by (simp_all add: set_status_def store_counts_def store_tally_def)

lemma status_of_set:
  assumes "batch_of i s \<noteq> None" and "\<And>b. ba_id (f b) = ba_id b"
  shows "status_of i (update_batch i (\<lambda>b. set_status st (f b)) s) = Some st"
proof -
  obtain b where b: "batch_of i s = Some b" using assms(1) by auto
  then show ?thesis
    using assms(2) batch_of_id [OF b] by (simp add: status_of_def batch_of_update)
qed

lemma apply_chunks_batch:
  assumes "apply_chunks e b w cs rs s = (r, s')" and "batch_of i s \<noteq> None"
  shows "batch_of i s' \<noteq> None"
  using assms
proof (induction cs arbitrary: rs s)
  case (Cons ls cs)
  show ?case
  proof (cases "apply_lines e (ba_accountId b) w ls (im_db s)")
    case (Inl err)
    then show ?thesis using Cons.prems by auto
  next
    case (Inr p)
    obtain d new where p: "p = (d, new)" by force
    show ?thesis
      using Cons.IH [of "rs @ new" "update_batch (ba_id b) (store_counts (rs @ new)) (s\<lparr>im_db := d\<rparr>)"]
        Cons.prems by (auto simp: Inr p batch_of_update)
  qed
qed auto

lemma processApplication_status:
  assumes "batch_of i s \<noteq> None"
  shows "batch_of i (snd (processApplication e made attempts i s)) \<noteq> None \<and>
    (case fst (processApplication e made attempts i s) of
       Inr _ \<Rightarrow> status_of i (snd (processApplication e made attempts i s)) = Some BA_APPLIED
     | Inl _ \<Rightarrow> int (or_else attempts 3) - 1 \<le> int made \<longrightarrow> status_of i (snd (processApplication e made attempts i s)) = Some BA_FAILED)"
proof -
  obtain b where b: "batch_of i s = Some b" using assms by auto
  have failed: "status_of i (update_batch i (set_status BA_FAILED) s') = Some BA_FAILED"
    and kept: "batch_of i (update_batch i (set_status BA_FAILED) s') \<noteq> None" if "batch_of i s' \<noteq> None" for s'
    using status_of_set [OF that, of "\<lambda>b. b" BA_FAILED] that by (simp_all add: batch_of_update)
  show ?thesis
  proof (cases "file_lines e b s = None \<or> wallet_of_batch b s = None")
    case True
    then show ?thesis
      using failed [OF assms] kept [OF assms] b
      by (auto simp: processApplication_def Let_def split: option.split)
  next
    case False
    then obtain lines w where lw: "file_lines e b s = Some lines" "wallet_of_batch b s = Some w" by auto
    obtain r s1 where run: "apply_chunks e b w (chunks_of TRANSACTION_BATCH_SIZE (applicable e w lines)) [] s = (r, s1)"
      by force
    have s1: "batch_of i s1 \<noteq> None" using apply_chunks_batch [OF run assms] .
    show ?thesis
    proof (cases r)
      case (Inl err)
      then show ?thesis
        using failed [OF s1] kept [OF s1] s1 by (auto simp: processApplication_def b lw run Let_def)
    next
      case (Inr rs)
      define s2 where "s2 = update_batch i (\<lambda>x. set_status BA_APPLIED (store_counts rs x)) s1"
      have s2: "batch_of i s2 \<noteq> None" "status_of i s2 = Some BA_APPLIED"
        using s1 status_of_set [OF s1, of "store_counts rs" BA_APPLIED] by (simp_all add: s2_def batch_of_update)
      obtain q d where rq: "recalculateOffers (ba_walletId b) (ba_accountId b) (im_db s1) = (q, d)" by force
      have s3: "batch_of i (s2\<lparr>im_db := d\<rparr>) \<noteq> None" "status_of i (s2\<lparr>im_db := d\<rparr>) = Some BA_APPLIED"
        using s2 by (simp_all add: status_of_def)
      have "processApplication e made attempts i s = (case q of
          Inl err \<Rightarrow> (Inl err, if int (or_else attempts 3) - 1 \<le> int made then update_batch i (set_status BA_FAILED) (s2\<lparr>im_db := d\<rparr>) else s2\<lparr>im_db := d\<rparr>)
        | Inr _ \<Rightarrow> (Inr (), s2\<lparr>im_db := d\<rparr>))"
        using rq unfolding s2_def by (simp add: processApplication_def b lw run Inr Let_def)
      then show ?thesis
        using s3 failed [OF s3(1)] kept [OF s3(1)] by (auto split: sum.split)
    qed
  qed
qed

lemma attempts_settle:
  assumes "batch_of i s \<noteq> None" and "k < n"
  shows "status_of i (apply_attempts e n k i s) \<in> {Some BA_APPLIED, Some BA_FAILED}"
  using assms
proof (induction e n k i s rule: apply_attempts.induct)
  case (1 e n k i s)
  obtain q s1 where run: "processApplication e k (Some n) i s = (q, s1)" by force
  note st = processApplication_status [OF 1(2), of e k "Some n", unfolded run]
  show ?case
  proof (cases q)
    case (Inr u)
    then show ?thesis using st run 1(3) by (simp add: apply_attempts.simps [of e n k i s])
  next
    case (Inl err)
    show ?thesis
    proof (cases "Suc k < n")
      case True
      then show ?thesis using 1 run Inl st by (simp add: apply_attempts.simps [of e n k i s])
    next
      case False
      then have "apply_attempts e n k i s = s1"
        using run Inl 1(3) by (simp add: apply_attempts.simps [of e n k i s] apply_attempts.simps [of e n "Suc k" i s1])
      then show ?thesis using st run Inl False by simp
    qed
  qed
qed

text \<open>
  C28. A confirmed batch comes to an end: when its job has had the three attempts it was added with, or
  fewer because one of them succeeded, the batch is applied or failed.
\<close>

lemma application_settles:
  assumes "batch_of i s \<noteq> None"
  shows "status_of i (run_application e i s) \<in> {Some BA_APPLIED, Some BA_FAILED}"
  unfolding run_application_def by (rule attempts_settle [OF assms]) (simp add: APPLICATION_ATTEMPTS_def)

section \<open>What a validation finds\<close>

definition quiet :: "string \<Rightarrow> (nat \<Rightarrow> import_store \<Rightarrow> import_store) \<Rightarrow> bool" where
  \<comment> \<open>nobody touches this batch while it is validated\<close>
  "quiet i others \<longleftrightarrow> (\<forall>n s. batch_of i (others n s) = batch_of i s)"

definition line_faults :: "import_env \<Rightarrow> debt_type \<Rightarrow> nat \<Rightarrow> line_data list \<Rightarrow> line_error list list" where
  "line_faults e dflt n ls = map (\<lambda>p. validateLine e dflt (fst p) (snd p)) (enumerate n ls)"

lemma read_batch [simp]:
  "file_lines e (set_status st b) (update_batch i f s) = file_lines e b s"
  "wallet_of_batch (set_status st b) (update_batch i f s) = wallet_of_batch b s"
  by (simp_all add: file_lines_def wallet_of_batch_def set_status_def split: option.split)

lemma find_batch_of:
  assumes "batch_of i s = Some b" and "ba_accountId b = acc"
  shows "find_batch i acc s = Some b"
proof -
  have "List.find (\<lambda>b. ba_id b = i \<and> ba_accountId b = acc) bs = Some b"
    if "List.find (\<lambda>b. ba_id b = i) bs = Some b" for bs
    using that assms(2) by (induction bs) (auto split: if_splits)
  then show ?thesis using assms(1) by (simp add: find_batch_def batch_of_def)
qed

lemma validate_loop_quiet:
  assumes "quiet b others" and "\<not> is_cancelled b s"
  shows "\<exists>s'. validate_loop e dflt others b i ls t s = (fold count_line (line_faults e dflt (i + 2) ls) t, s') \<and>
    batch_of b s' = batch_of b s"
  using assms(2)
proof (induction ls arbitrary: i t s)
  case (Cons l ls)
  have same: "batch_of b (others i s) = batch_of b s" using assms(1) by (simp add: quiet_def)
  then have nc: "\<not> is_cancelled b (others i s)" using Cons.prems by (simp add: is_cancelled_def)
  show ?case
    using Cons.IH [OF nc, of "Suc i" "count_line (validateLine e dflt (i + 2) l) t"] same nc
    by (auto simp: line_faults_def Let_def)
qed (simp add: line_faults_def)

lemma fold_count_line:
  "fold count_line fs t = t\<lparr>ta_valid := ta_valid t + count_list fs [],
     ta_invalid := ta_invalid t + count_where (\<lambda>f. f \<noteq> []) fs, ta_errors := ta_errors t @ concat fs\<rparr>"
  by (induction fs arbitrary: t) (simp_all add: count_line_def count_where_def)

lemma count_tally: "count_list fs [] + count_where (\<lambda>f. f \<noteq> []) fs = length fs"
  by (induction fs) (simp_all add: count_where_def)

text \<open>
  A validation that is left alone reads every line: the two counters add up to the lines of the file,
  and the batch is valid exactly when no line has an error. The status it had before plays no part.
\<close>

definition validated :: "import_env \<Rightarrow> wallet \<Rightarrow> line_data list \<Rightarrow> import_batch \<Rightarrow> import_batch" where
  "validated e w lines b =
     (let fs = line_faults e (wl_defaultDebtType w) 2 lines
      in b\<lparr>ba_validLines := count_list fs [], ba_invalidLines := count_where (\<lambda>f. f \<noteq> []) fs,
           ba_status := (if list_all (\<lambda>f. f = []) fs then BA_VALIDATED else BA_VALIDATED_WITH_ERRORS)\<rparr>)"

lemma count_where_0: "0 < count_where P xs \<longleftrightarrow> \<not> list_all (\<lambda>x. \<not> P x) xs"
  by (induction xs) (auto simp: count_where_def)

lemma validation_result:
  assumes "quiet i others" and "batch_of i s = Some b"
    and "file_lines e b s = Some lines" and "wallet_of_batch b s = Some w"
  shows "fst (processValidation e others i s) = Inr () \<and>
    batch_of i (snd (processValidation e others i s)) = Some (validated e w lines b)"
proof -
  define s1 where "s1 = update_batch i (set_status BA_VALIDATING) s"
  have id: "ba_id b = i" using assms(2) by (rule batch_of_id)
  have b1: "batch_of i s1 = Some (set_status BA_VALIDATING b)"
    unfolding s1_def using assms(2) id by (simp add: batch_of_update)
  have lw: "file_lines e (set_status BA_VALIDATING b) s1 = Some lines"
    "wallet_of_batch (set_status BA_VALIDATING b) s1 = Some w"
    using assms(3,4) by (simp_all add: s1_def)
  have nc: "\<not> is_cancelled i s1" by (simp add: is_cancelled_def b1)
  define fs where "fs = line_faults e (wl_defaultDebtType w) 2 lines"
  define t where "t = fold count_line fs no_tally"
  have t: "ta_valid t = count_list fs []" "ta_invalid t = count_where (\<lambda>f. f \<noteq> []) fs"
    by (simp_all add: t_def fold_count_line no_tally_def)
  obtain s2 where loop: "validate_loop e (wl_defaultDebtType w) others i 0 lines no_tally s1 = (t, s2)"
    and b2: "batch_of i s2 = Some (set_status BA_VALIDATING b)"
    using validate_loop_quiet [OF assms(1) nc, of e "wl_defaultDebtType w" 0 lines no_tally] b1
    by (auto simp: t_def fs_def numeral_2_eq_2)
  define s3 where "s3 = others (length lines) (s2\<lparr>im_errors := im_errors s2 @ map (Pair i) (ta_errors t)\<rparr>)"
  have b3: "batch_of i s3 = Some (set_status BA_VALIDATING b)"
    using assms(1) b2 by (simp add: s3_def quiet_def)
  have nc3: "\<not> is_cancelled i s3" by (simp add: is_cancelled_def b3)
  have "processValidation e others i s = (Inr (), update_batch i
      (\<lambda>b. set_status (if 0 < ta_invalid t then BA_VALIDATED_WITH_ERRORS else BA_VALIDATED) (store_tally t b)) s3)"
    using nc3 by (simp add: processValidation_def assms(2) s1_def [symmetric] b1 lw loop s3_def [symmetric] Let_def)
  moreover have "set_status (if 0 < ta_invalid t then BA_VALIDATED_WITH_ERRORS else BA_VALIDATED)
      (store_tally t (set_status BA_VALIDATING b)) = validated e w lines b"
    by (simp add: validated_def set_status_def store_tally_def t fs_def [symmetric] count_where_0 Let_def)
  ultimately show ?thesis
    using b3 id by (simp add: batch_of_update)
qed

text \<open>
  A batch that its user cancelled before the worker took it is validated all the same, and can then be
  confirmed: the worker writes its own status over the cancellation.
\<close>

lemma cancelled_batch_revived:
  assumes "batch_of i s = Some b" and "ba_accountId b = acc" and "ba_status b = BA_PENDING_VALIDATION"
    and "file_lines e b s = Some lines" and "wallet_of_batch b s = Some w" and "quiet i others"
  shows "case cancelImport i acc s of (r, s1) \<Rightarrow>
    r = Inr BA_CANCELLED \<and> status_of i s1 = Some BA_CANCELLED \<and>
    (case processValidation e others i s1 of (_, s2) \<Rightarrow>
       status_of i s2 \<in> {Some BA_VALIDATED, Some BA_VALIDATED_WITH_ERRORS} \<and>
       fst (confirmImport i acc s2) = Inr BA_APPLYING)"
proof -
  define s1 where "s1 = update_batch i (set_status BA_CANCELLED) s"
  have cancel: "cancelImport i acc s = (Inr BA_CANCELLED, s1)"
    by (simp add: cancelImport_def find_batch_of [OF assms(1,2)] assms(3) CANCELLABLE_def s1_def)
  have b1: "batch_of i s1 = Some (set_status BA_CANCELLED b)"
    using assms(1) batch_of_id [OF assms(1)] by (simp add: s1_def batch_of_update)
  have lw: "file_lines e (set_status BA_CANCELLED b) s1 = Some lines"
    "wallet_of_batch (set_status BA_CANCELLED b) s1 = Some w"
    using assms(4,5) by (simp_all add: s1_def)
  obtain q s2 where run: "processValidation e others i s1 = (q, s2)" by force
  then have b2: "batch_of i s2 = Some (validated e w lines (set_status BA_CANCELLED b))"
    using validation_result [OF assms(6) b1 lw] by simp
  have "find_batch i acc s2 = Some (validated e w lines (set_status BA_CANCELLED b))"
    using b2 assms(2) by (intro find_batch_of) (simp_all add: validated_def set_status_def Let_def)
  then show ?thesis
    using b1 b2 by (simp add: cancel run status_of_def confirmImport_def validated_def Let_def)
qed

section \<open>The counters of an application\<close>

lemma count_results: "count_list rs Created + count_list rs Updated + count_list rs Ignored = length rs"
proof (induction rs)
  case (Cons r rs)
  then show ?case by (cases r) auto
qed simp

lemma apply_line_count:
  assumes "apply_line e acc w l d = Inr (d', r)"
  shows "length (contracts d') = length (contracts d) + count_list [r] Created"
  using assms
  by (cases rule: apply_line_cases) (auto dest: create_contract_frame(2))

lemma apply_lines_count:
  assumes "apply_lines e acc w ls d = Inr (d', rs)"
  shows "length rs = length ls \<and> length (contracts d') = length (contracts d) + count_list rs Created"
  using assms
proof (induction ls arbitrary: d rs)
  case (Cons l ls)
  then obtain d1 r rs1 where run: "apply_line e acc w l d = Inr (d1, r)"
    "apply_lines e acc w ls d1 = Inr (d', rs1)" "rs = r # rs1"
    by (auto split: sum.splits)
  show ?case using apply_line_count [OF run(1)] Cons.IH [OF run(2)] run(3) by simp
qed simp

text \<open>Applying chunk after chunk is applying the lines one after another.\<close>

lemma apply_lines_append:
  assumes "apply_lines e acc w xs d = Inr (d1, rs1)" and "apply_lines e acc w ys d1 = Inr (d2, rs2)"
  shows "apply_lines e acc w (xs @ ys) d = Inr (d2, rs1 @ rs2)"
  using assms
proof (induction xs arbitrary: d rs1)
  case (Cons x xs)
  then obtain d' r rs where run: "apply_line e acc w x d = Inr (d', r)"
    "apply_lines e acc w xs d' = Inr (d1, rs)" "rs1 = r # rs"
    by (auto split: sum.splits)
  from Cons.IH [OF run(2) Cons.prems(2)] show ?case by (simp add: run(1,3))
qed simp

lemma apply_chunks_lines:
  assumes "apply_chunks e b w cs rs s = (Inr rs', s')"
  shows "\<exists>new. rs' = rs @ new \<and>
    apply_lines e (ba_accountId b) w (concat cs) (im_db s) = Inr (im_db s', new)"
  using assms
proof (induction cs arbitrary: rs s)
  case (Cons ls cs)
  obtain p where Inr: "apply_lines e (ba_accountId b) w ls (im_db s) = Inr p"
    using Cons.prems by (auto split: sum.splits)
  obtain d new where p: "p = (d, new)" by force
  have "apply_chunks e b w cs (rs @ new) (update_batch (ba_id b) (store_counts (rs @ new)) (s\<lparr>im_db := d\<rparr>)) = (Inr rs', s')"
    using Cons.prems by (simp add: Inr p)
  from Cons.IH [OF this] obtain new' where "rs' = (rs @ new) @ new'"
    "apply_lines e (ba_accountId b) w (concat cs) d = Inr (im_db s', new')" by auto
  then show ?case
    using apply_lines_append [OF Inr [unfolded p]] by simp
qed simp

lemma recalculateOffers_count: "length (contracts (snd (recalculateOffers i acc d))) = length (contracts d)"
  by (simp add: recalculateOffers_def Let_def split: option.split)

text \<open>
  C29. An attempt that succeeds has done, chunk by chunk, what applying one after another every line
  that passes the check would do, and then repriced the wallet. The batch is applied, and its counters
  are those of the results of these lines in this attempt: the created ones are the contracts the
  table has gained since the attempt began. What an earlier, failed attempt created is not counted.
\<close>

lemma application_counts:
  assumes "batch_of i s = Some b" and "file_lines e b s = Some lines" and "wallet_of_batch b s = Some w"
    and "processApplication e made attempts i s = (Inr (), s')"
  shows "\<exists>rs d b'. apply_lines e (ba_accountId b) w (applicable e w lines) (im_db s) = Inr (d, rs) \<and>
    length rs = length (applicable e w lines) \<and>
    im_db s' = snd (recalculateOffers (ba_walletId b) (ba_accountId b) d) \<and>
    batch_of i s' = Some b' \<and> ba_status b' = BA_APPLIED \<and> ba_createdCount b' = count_list rs Created \<and>
    ba_updatedCount b' = count_list rs Updated \<and> ba_ignoredCount b' = count_list rs Ignored \<and>
    length (contracts (im_db s')) = length (contracts (im_db s)) + ba_createdCount b'"
proof -
  obtain r s1 where run: "apply_chunks e b w (chunks_of TRANSACTION_BATCH_SIZE (applicable e w lines)) [] s = (r, s1)"
    by force
  obtain rs where r: "r = Inr rs"
    using assms(4) by (cases r) (simp_all add: processApplication_def assms(1-3) run Let_def)
  have lines: "apply_lines e (ba_accountId b) w (applicable e w lines) (im_db s) = Inr (im_db s1, rs)"
    using apply_chunks_lines [OF run [unfolded r]] by (simp add: concat_chunks TRANSACTION_BATCH_SIZE_def)
  obtain b1 where b1: "batch_of i s1 = Some b1"
    using apply_chunks_batch [OF run, of i] assms(1) by auto
  obtain q d where rq: "recalculateOffers (ba_walletId b) (ba_accountId b) (im_db s1) = (q, d)" by force
  have s': "s' = (update_batch i (\<lambda>x. set_status BA_APPLIED (store_counts rs x)) s1)\<lparr>im_db := d\<rparr>"
    using assms(4) rq
    by (cases q) (simp_all add: processApplication_def assms(1-3) run r Let_def)
  have "length (contracts d) = length (contracts (im_db s1))"
    using recalculateOffers_count [of "ba_walletId b" "ba_accountId b" "im_db s1"] rq by simp
  moreover have "batch_of i s' = Some (set_status BA_APPLIED (store_counts rs b1))"
    using b1 batch_of_id [OF b1] by (simp add: s' batch_of_update)
  ultimately show ?thesis
    using lines apply_lines_count [OF lines]
    by (intro exI [of _ rs] exI [of _ "im_db s1"] exI [of _ "set_status BA_APPLIED (store_counts rs b1)"])
      (simp add: s' set_status_def store_counts_def rq)
qed

section \<open>A key that is taken\<close>

text \<open>
  The lookup of a line skips deleted contracts, but the unique key covers them: a file with a contract
  that was deleted cannot be applied, and neither can the other lines of its transaction.
\<close>

lemma apply_line_taken:
  assumes "lr_dueDate (read_line e (wl_defaultDebtType w) l) = Some due"
    and "c \<in> set (contracts d)"
    and "ct_deduplicationKey c = computeDeduplicationKey (ie_sha e) (wl_creditorId w)
      (lr_document (read_line e (wl_defaultDebtType w) l))
      (lr_contractNumber (read_line e (wl_defaultDebtType w) l)) (Some due)"
    and "filter (identity_match d acc (wl_creditorId w) (ie_sha e (lr_document (read_line e (wl_defaultDebtType w) l)))
      (lr_contractNumber (read_line e (wl_defaultDebtType w) l)) (Some due)) (contracts d) = []"
  shows "\<exists>err. apply_line e acc w l d = Inl (Internal err)"
proof -
  have "create_contract (ie_gen e) (import_create e acc w (ct_deduplicationKey c) r due v) d = None" for r v
    using assms(2) by (auto simp: create_contract_def import_create_def Let_def list_ex_iff split: prod.split)
  with assms show ?thesis
    by (auto simp: apply_line_def Let_def split: option.split)
qed

section \<open>Suggested mappings\<close>

definition mapping_ok :: "string list \<Rightarrow> line_data \<Rightarrow> bool" where
  "mapping_ok headers m \<longleftrightarrow>
     distinct (map fst m) \<and> distinct (map snd m) \<and>
     set (map fst m) \<subseteq> set IMPORT_TARGET_FIELDS \<and> set (map snd m) \<subseteq> set headers"

lemma update_values: "set (map snd (AList.update k v m)) \<subseteq> insert v (set (map snd m))"
  by (induction m) auto

lemma update_distinct_values:
  "distinct (map snd m) \<Longrightarrow> v \<notin> set (map snd m) \<Longrightarrow> distinct (map snd (AList.update k v m))"
proof (induction m)
  case (Cons kv m)
  then show ?case using update_values [of k v m] by (cases kv) (auto simp del: set_map)
qed simp

lemma sanitize_entry_ok:
  assumes "mapping_ok headers m"
  shows "mapping_ok headers (sanitize_entry headers kv m)"
proof -
  have "mapping_ok headers (AList.update k h m)"
    if "k \<in> set IMPORT_TARGET_FIELDS" "h \<in> set headers" "h \<notin> set (map snd m)" for k h
    using assms that update_values [of k h m] dom_update [of k h m]
    by (auto simp: mapping_ok_def update_distinct_values distinct_update simp del: set_map simp: set_map [of fst])
  with assms show ?thesis by (simp add: sanitize_entry_def split: json.split)
qed

text \<open>
  Whatever the language model answers, what the user is offered maps known fields to headers of the
  file, no field and no header twice.
\<close>

lemma suggestMapping_ok: "mapping_ok (take 100 (filter (\<lambda>h. h \<noteq> []) (map trim headers))) (suggestMapping ask headers)"
proof -
  have "mapping_ok hs m \<Longrightarrow> mapping_ok hs (fold (sanitize_entry hs) kvs m)" for hs kvs m
    by (induction kvs arbitrary: m) (auto intro: sanitize_entry_ok)
  moreover have "mapping_ok hs []" for hs by (simp add: mapping_ok_def)
  ultimately show ?thesis
    by (simp add: suggestMapping_def sanitizeSuggestedMapping_def Let_def split: option.split json.split)
qed

section \<open>Imports keep the book\<close>

lemma rekeyed_distinct:
  assumes "distinct (map ident xs)" and "distinct (map k xs)"
    and "\<And>x. ident x = i \<Longrightarrow> k (f x) = key" and "\<And>x. x \<in> set xs \<Longrightarrow> ident x \<noteq> i \<Longrightarrow> k x \<noteq> key"
  shows "distinct (map k (update_where (\<lambda>x. ident x = i) f xs))"
  using assms
proof (induction xs)
  case (Cons x xs)
  then have IH: "distinct (map k (update_where (\<lambda>x. ident x = i) f xs))" by simp
  show ?case
  proof (cases "ident x = i")
    case True
    have other: "ident y \<noteq> i" if "y \<in> set xs" for y
      using imageI [OF that, of ident] Cons.prems(1) True by auto
    then have "update_where (\<lambda>x. ident x = i) f xs = xs" by (rule update_where_none [of xs])
    moreover have "k y \<noteq> key" if "y \<in> set xs" for y
      using Cons.prems(4) [of y] other [OF that] that by simp
    ultimately show ?thesis using True Cons.prems(2,3) by auto
  next
    case False
    then have "k x \<noteq> key" using Cons.prems(4) by simp
    with False IH Cons.prems(2,3) show ?thesis by (auto simp: in_update_where)
  qed
qed simp

lemma book_ok_rekey:
  assumes "book_ok gen sha d" and "\<And>c. ct_id (f c) = ct_id c" and "\<And>c. ct_deduplicationKey (f c) = key"
    and "\<not> list_ex (\<lambda>x. ct_id x \<noteq> i \<and> ct_deduplicationKey x = key) (contracts d)"
    and "\<And>c. contract_wf sha c \<Longrightarrow> contract_wf sha (f c)" and "\<And>c. ct_walletId (f c) \<in> wl_id ` set (wallets d)"
  shows "book_ok gen sha (update_contract i f d)"
proof -
  let ?cs = "update_where (\<lambda>c. ct_id c = i) f (contracts d)"
  have ids: "map ct_id ?cs = map ct_id (contracts d)" by (rule map_update_where) (rule assms(2))
  have keys: "distinct (map ct_deduplicationKey ?cs)"
    using assms(1,3,4)
    by (intro rekeyed_distinct) (auto simp: book_ok_def contracts_ok_def list_ex_iff)
  have "rules_ok gen (update_contract i f d)"
    by (rule rules_ok_frame [of gen d]) (use assms(1) in \<open>simp_all add: book_ok_def\<close>)
  moreover have "contracts_ok gen (update_contract i f d)"
    using assms(1) keys ids unfolding book_ok_def contracts_ok_def update_contract_def by (simp del: list.set_map)
  moreover have "contract_wf sha c \<and> ct_walletId c \<in> wl_id ` set (wallets d)" if "c \<in> set ?cs" for c
    using that assms(1,5,6) by (auto simp: book_ok_def list_all_iff in_update_where)
  ultimately show ?thesis by (simp add: book_ok_def list_all_iff update_contract_def)
qed

lemma import_update_wf:
  assumes "lr_document r = normalizeCnpj (lr_document r)" and "contract_wf (ie_sha e) c"
  shows "contract_wf (ie_sha e) (import_update e w key r due v c)"
  using assms by (cases v) (simp add: contract_wf_def import_update_def)

lemma reactivate_wf: "contract_wf sha c \<Longrightarrow> contract_wf sha (reactivate c)"
  by (simp add: contract_wf_def reactivate_def)

lemma import_create_wf:
  assumes "lr_document r = normalizeCnpj (lr_document r)"
  shows "contract_wf (ie_sha e) (new_contract_row g (import_create e acc w key r due v) d)"
  using assms by (cases v) (simp add: contract_wf_def new_contract_row_def import_create_def no_offer_def)

lemma apply_line_book:
  assumes "apply_line e acc w l d = Inr (d', r)" and "book_ok (ie_gen e) (ie_sha e) d" and "inj (ie_gen e)"
    and "wl_id w \<in> wl_id ` set (wallets d)"
  shows "book_ok (ie_gen e) (ie_sha e) d' \<and> wallets d' = wallets d"
  using assms(1)
proof (cases rule: apply_line_cases)
  case ignored
  then show ?thesis using assms(2) by simp
next
  case (created key lr due v c)
  note fr = create_contract_frame [OF created(1)]
  have "contracts_ok (ie_gen e) d'"
    using contracts_ok_create [OF _ assms(3) created(1)] assms(2) by (simp add: book_ok_def)
  moreover have "rules_ok (ie_gen e) d'"
    by (rule rules_ok_frame [of "ie_gen e" d]) (use assms(2) in \<open>simp_all add: book_ok_def fr(2)\<close>)
  moreover have "contract_wf (ie_sha e) c" unfolding fr(1) using created(2) by (rule import_create_wf)
  moreover have "ct_walletId c = wl_id w"
    by (cases v) (simp add: fr(1) new_contract_row_def import_create_def)
  ultimately show ?thesis using assms(2,4) by (simp add: book_ok_def fr(2))
next
  case (reactivated c)
  have "book_ok (ie_gen e) (ie_sha e) (update_contract (ct_id c) reactivate d)"
    unfolding update_contract_def by (rule book_ok_update [OF assms(2)]) (simp_all add: reactivate_wf)
  then show ?thesis by (simp add: reactivated(4))
next
  case (rewritten c f key lr due v)
  have "book_ok (ie_gen e) (ie_sha e) (update_contract (ct_id c) f d)"
  proof (rule book_ok_rekey [OF assms(2)])
    show "ct_id (f x) = ct_id x" "ct_deduplicationKey (f x) = key" for x using rewritten(6) [of x] by auto
    show "ct_walletId (f x) \<in> wl_id ` set (wallets d)" for x using rewritten(6) [of x] assms(4) by auto
    show "contract_wf (ie_sha e) (f x)" if "contract_wf (ie_sha e) x" for x
      using rewritten(6) [of x] import_update_wf [OF rewritten(7) that, of w key due v]
      by (elim disjE) (simp_all only: reactivate_wf)
  qed (rule rewritten(8))
  then show ?thesis by (simp add: rewritten(4))
qed

lemma apply_lines_book:
  assumes "apply_lines e acc w ls d = Inr (d', rs)" and "book_ok (ie_gen e) (ie_sha e) d" and "inj (ie_gen e)"
    and "wl_id w \<in> wl_id ` set (wallets d)"
  shows "book_ok (ie_gen e) (ie_sha e) d' \<and> wallets d' = wallets d"
  using assms(1,2,4)
proof (induction ls arbitrary: d rs)
  case (Cons l ls)
  then obtain d1 r rs1 where run: "apply_line e acc w l d = Inr (d1, r)"
    "apply_lines e acc w ls d1 = Inr (d', rs1)"
    by (auto split: sum.splits)
  note step = apply_line_book [OF run(1) Cons.prems(2) assms(3) Cons.prems(3)]
  show ?case using Cons.IH [OF run(2)] step Cons.prems(3) by simp
qed simp

lemma apply_chunks_book:
  assumes "apply_chunks e b w cs rs s = (r, s')" and "book_ok (ie_gen e) (ie_sha e) (im_db s)" and "inj (ie_gen e)"
    and "wl_id w \<in> wl_id ` set (wallets (im_db s))"
  shows "book_ok (ie_gen e) (ie_sha e) (im_db s')"
  using assms(1,2,4)
proof (induction cs arbitrary: rs s)
  case (Cons ls cs)
  show ?case
  proof (cases "apply_lines e (ba_accountId b) w ls (im_db s)")
    case (Inl err)
    then show ?thesis using Cons.prems by simp
  next
    case (Inr p)
    obtain d new where p: "p = (d, new)" by force
    note step = apply_lines_book [OF Inr [unfolded p] Cons.prems(2) assms(3) Cons.prems(3)]
    have "apply_chunks e b w cs (rs @ new) (update_batch (ba_id b) (store_counts (rs @ new)) (s\<lparr>im_db := d\<rparr>)) = (r, s')"
      using Cons.prems by (simp add: Inr p)
    from Cons.IH [OF this] step Cons.prems(3) show ?thesis by simp
  qed
qed simp

text \<open>
  An import leaves the contracts well formed, their keys unique and their wallets in place, whether its
  job succeeds, fails half-way or is repeated.
\<close>

lemma processApplication_book:
  assumes "book_ok (ie_gen e) (ie_sha e) (im_db s)" and "inj (ie_gen e)"
  shows "book_ok (ie_gen e) (ie_sha e) (im_db (snd (processApplication e made attempts i s)))"
proof (cases "batch_of i s")
  case None
  then show ?thesis using assms(1) by (simp add: processApplication_def)
next
  case (Some b)
  show ?thesis
  proof (cases "file_lines e b s = None \<or> wallet_of_batch b s = None")
    case True
    then show ?thesis using assms(1) by (auto simp: processApplication_def Some Let_def split: option.split)
  next
    case False
    then obtain lines w where lw: "file_lines e b s = Some lines" "wallet_of_batch b s = Some w" by auto
    obtain r s1 where run: "apply_chunks e b w (chunks_of TRANSACTION_BATCH_SIZE (applicable e w lines)) [] s = (r, s1)"
      by force
    have "wl_id w \<in> wl_id ` set (wallets (im_db s))"
      using lw(2) unfolding wallet_of_batch_def by (auto dest!: find_SomeD)
    then have book: "book_ok (ie_gen e) (ie_sha e) (im_db s1)"
      by (rule apply_chunks_book [OF run assms])
    then have "book_ok (ie_gen e) (ie_sha e) (snd (recalculateOffers (ba_walletId b) (ba_accountId b) (im_db s1)))"
      by (rule recalculateOffers_book)
    with book show ?thesis
      by (cases r) (auto simp: processApplication_def Some lw run Let_def split: prod.split sum.split)
  qed
qed

lemma import_attempts_book:
  assumes "book_ok (ie_gen e) (ie_sha e) (im_db s)" and "inj (ie_gen e)"
  shows "book_ok (ie_gen e) (ie_sha e) (im_db (apply_attempts e n k i s))"
  using assms
proof (induction e n k i s rule: apply_attempts.induct)
  case (1 e n k i s)
  obtain q s1 where run: "processApplication e k (Some n) i s = (q, s1)" by force
  have "book_ok (ie_gen e) (ie_sha e) (im_db s1)"
    using processApplication_book [OF 1(2,3), of k "Some n" i] run by simp
  then show ?case
    using 1 run by (cases q) (auto simp: apply_attempts.simps [of e n k i s])
qed

section \<open>A sample import\<close>

definition sample_import_env :: import_env where
  "sample_import_env =
     \<lparr>ie_now = 0, ie_gen = sample_gen, ie_sha = (\<lambda>s. s), ie_day = (\<lambda>t. t div day_ms),
      ie_parseDate = (\<lambda>s. if s = ''2024-01-31'' then Some 1706659200000 else None), ie_sheet = (\<lambda>_. [])\<rparr>"

definition sample_csv :: string where
  "sample_csv = ''documento;contrato;vencimento_original;vlr'' @ [CHR 10] @
     ''52998224725;77;31/01/2024;12,50'' @ [CHR 10] @ ''11111111111;78;31/01/2024;10''"

definition sample_batch :: import_batch where
  "sample_batch =
     \<lparr>ba_id = ''b1'', ba_accountId = ''a1'', ba_walletId = ''id-1'', ba_userId = ''u1'', ba_fileName = ''f.csv'',
      ba_fileUrl = ''imports/f.csv'', ba_columnMapping = [], ba_totalLines = 2, ba_validLines = 0,
      ba_invalidLines = 0, ba_createdCount = 0, ba_updatedCount = 0, ba_ignoredCount = 0,
      ba_status = BA_PENDING_VALIDATION\<rparr>"

definition sample_imports :: "database \<Rightarrow> import_store" where
  "sample_imports d =
     \<lparr>im_db = d, im_batches = [sample_batch], im_errors = [], im_validationQueue = [''b1''],
      im_applicationQueue = [], im_files = [(''imports/f.csv'', sample_csv)]\<rparr>"

lemma sample_rows: "csv_rows sample_csv =
    [''documento;contrato;vencimento_original;vlr'', ''52998224725;77;31/01/2024;12,50'', ''11111111111;78;31/01/2024;10'']"
  by code_simp

lemma sample_cells:
  "detectCsvDelimiter ''documento;contrato;vencimento_original;vlr'' = CHR '';''"
  "parseCsvRow ''documento;contrato;vencimento_original;vlr'' CHR '';'' = [''documento'', ''contrato'', ''vencimento_original'', ''vlr'']"
  "parseCsvRow ''52998224725;77;31/01/2024;12,50'' CHR '';'' = [''52998224725'', ''77'', ''31/01/2024'', ''12,50'']"
  "parseCsvRow ''11111111111;78;31/01/2024;10'' CHR '';'' = [''11111111111'', ''78'', ''31/01/2024'', ''10'']"
  "map trim [''documento'', ''contrato'', ''vencimento_original'', ''vlr''] = [''documento'', ''contrato'', ''vencimento_original'', ''vlr'']"
  by code_simp+

lemma sample_mapping: "normalizeColumnMapping [] [''documento'', ''contrato'', ''vencimento_original'', ''vlr''] =
   [(''debtorDocument'', ''documento''), (''contractNumber'', ''contrato''), (''dueDate'', ''vencimento_original''), (''originalValue'', ''vlr'')]"
  by code_simp

definition sample_line :: "string \<Rightarrow> string \<Rightarrow> string \<Rightarrow> line_data" where
  "sample_line doc num v =
    [(''debtorDocument'', doc), (''contractNumber'', num), (''dueDate'', ''2024-01-31''), (''originalValue'', v),
     (''updatedValue'', v), (''occurrenceDate'', ''2024-01-31'')]"

lemma sample_normal:
  "normalizeImportLine (csv_line [''documento'', ''contrato'', ''vencimento_original'', ''vlr'']
    [(''debtorDocument'', ''documento''), (''contractNumber'', ''contrato''), (''dueDate'', ''vencimento_original''), (''originalValue'', ''vlr'')]
    [''52998224725'', ''77'', ''31/01/2024'', ''12,50'']) = sample_line ''52998224725'' ''77'' ''12.50''"
  by code_simp

lemma sample_normal2:
  "normalizeImportLine (csv_line [''documento'', ''contrato'', ''vencimento_original'', ''vlr'']
    [(''debtorDocument'', ''documento''), (''contractNumber'', ''contrato''), (''dueDate'', ''vencimento_original''), (''originalValue'', ''vlr'')]
    [''11111111111'', ''78'', ''31/01/2024'', ''10'']) = sample_line ''11111111111'' ''78'' ''10''"
  by code_simp
lemma sample_lines: "parseCsvLines sample_csv [] =
    [sample_line ''52998224725'' ''77'' ''12.50'', sample_line ''11111111111'' ''78'' ''10'']"
  unfolding parseCsvLines_def Let_def sample_rows list.sel sample_cells sample_mapping
  by (simp add: sample_cells sample_normal sample_normal2)

lemma sample_line_get [simp]:
  "line_get (sample_line doc num v) ''debtorDocument'' = doc"
  "line_get (sample_line doc num v) ''contractNumber'' = num"
  "line_get (sample_line doc num v) ''dueDate'' = ''2024-01-31''"
  "line_get (sample_line doc num v) ''originalValue'' = v"
  "line_get (sample_line doc num v) ''updatedValue'' = v"
  "line_get (sample_line doc num v) ''debtType'' = []"
  by (simp_all add: sample_line_def line_get_def)

lemma sample_digits: "list_all is_digit ''12''" "list_all is_digit ''50''" "read_digits 0 ''1250'' = 1250"
  by code_simp+

lemma sample_line_amount: "parse_float ''12.50'' = Fin (25 / 2)"
  using parse_float_decimal [OF sample_digits(1) _ sample_digits(2)] sample_digits(3) by simp

lemma sample_texts [simp]:
  "normalizeCnpj ''52998224725'' = ''52998224725''" "normalizeCnpj ''11111111111'' = ''11111111111''"
  "cpf_shape ''52998224725''" "cpf_shape ''11111111111''"
  "isValidCpf ''52998224725''" "\<not> isValidCpf ''11111111111''"
  "parse_float ''10'' = Fin 10" "to_upper ''OTHER'' = ''OTHER''" "debt_type_of ''OTHER'' = Some OTHER"
  "trim ''2024-01-31'' = ''2024-01-31''" "trim ''52998224725'' = ''52998224725''"
  "trim ''11111111111'' = ''11111111111''" "trim ''12.50'' = ''12.50''" "trim ''10'' = ''10''"
  "trim ''77'' = ''77''" "trim ''78'' = ''78''" "trim [] = []"
  by code_simp+

lemma sample_valid:
  "isLineValid sample_import_env OTHER (sample_line ''52998224725'' ''77'' ''12.50'')"
  "isLineValid sample_import_env OTHER (sample_line ''11111111111'' ''78'' ''10'')"
  by (simp_all add: isLineValid_def Let_def blank_def line_type_def sample_import_env_def sample_line_amount)

lemma sample_validation:
  "validateLine sample_import_env OTHER n (sample_line ''52998224725'' ''77'' ''12.50'') = []"
  "validateLine sample_import_env OTHER n (sample_line ''11111111111'' ''78'' ''10'')
    = [line_error n ''INVALID_FORMAT'' ''debtorDocument'' (sample_line ''11111111111'' ''78'' ''10'')]"
  by (simp_all add: validateLine_def Let_def blank_def line_type_def sample_import_env_def sample_line_amount
      REQUIRED_FIELDS_def document_errors_def)

lemma sample_file: "file_lines sample_import_env sample_batch (sample_imports d) =
    Some [sample_line ''52998224725'' ''77'' ''12.50'', sample_line ''11111111111'' ''78'' ''10'']"
proof -
  have "to_lower ''f.csv'' = ''f.csv''" by code_simp
  then show ?thesis by (simp add: file_lines_def sample_batch_def sample_imports_def sample_lines)
qed

lemma sample_wallet: "wallet_of_batch sample_batch (sample_imports creditor_db) = Some (default_wallet ''id-1'' ''a1'' ''id-0'')"
  by (simp add: wallet_of_batch_def sample_batch_def sample_imports_def creditor_db_rows default_wallet_def)

lemma sample_batch_of: "batch_of ''b1'' (sample_imports d) = Some sample_batch"
  by (simp add: batch_of_def sample_imports_def sample_batch_def)

lemma cancelled_batch_revived_witness:
  "case cancelImport ''b1'' ''a1'' (sample_imports creditor_db) of (r, s1) \<Rightarrow>
    r = Inr BA_CANCELLED \<and> status_of ''b1'' s1 = Some BA_CANCELLED \<and>
    (case processValidation sample_import_env (\<lambda>_ s. s) ''b1'' s1 of (_, s2) \<Rightarrow>
       status_of ''b1'' s2 \<in> {Some BA_VALIDATED, Some BA_VALIDATED_WITH_ERRORS} \<and>
       fst (confirmImport ''b1'' ''a1'' s2) = Inr BA_APPLYING)"
  by (rule cancelled_batch_revived [OF sample_batch_of _ _ sample_file sample_wallet])
    (simp_all add: sample_batch_def quiet_def)

lemma validation_result_witness:
  "map_option ba_status (batch_of ''b1'' (snd (processValidation sample_import_env (\<lambda>_ s. s) ''b1'' (sample_imports creditor_db))))
     = Some BA_VALIDATED_WITH_ERRORS"
proof -
  have "quiet ''b1'' (\<lambda>_ s. s)" by (simp add: quiet_def)
  from validation_result [OF this sample_batch_of sample_file sample_wallet] show ?thesis
    by (simp add: validated_def line_faults_def default_wallet_def sample_validation Let_def)
qed

lemmas apply_eval = apply_line_def read_line_def toValidDate_def default_wallet_def sample_import_env_def Let_def
  creditor_db_rows storable_def line_type_def sample_line_amount create_contract_def import_create_def
  identity_match_def new_contract_row_def computeDeduplicationKey_def key_text_def

lemma sample_apply:
  "\<exists>d. apply_lines sample_import_env ''a1'' (default_wallet ''id-1'' ''a1'' ''id-0'')
      [sample_line ''52998224725'' ''77'' ''12.50'', sample_line ''11111111111'' ''78'' ''10''] creditor_db
    = Inr (d, [Created, Created]) \<and> wallets d = wallets creditor_db \<and> creditors d = creditors creditor_db \<and>
      (\<forall>c \<in> set (contracts d). ct_updatedValue c \<in> {25 / 2, 10})"
proof -
  have "dec2 (25 / 2) = 25 / 2" "dec2 10 = 10" by code_simp+
  then show ?thesis by (simp add: apply_eval)
qed

lemma sample_priced:
  assumes "cr_discountBands cr = []" and "v \<in> {25 / 2, 10}"
  shows "sql_offer v (default_wallet i acc c) cr aging \<noteq> None"
proof -
  have "dec2 (25 / 2) = 25 / 2" "dec2 10 = 10" by code_simp+
  then consider "dec2 v = 25 / 2" | "dec2 v = 10" using assms(2) by blast
  then show ?thesis
    using assms(1)
    by cases (auto simp: sql_offer_def sql_ceiling_band_def sql_strategy_band_def first_desc_def default_wallet_def
        sql_floor_div_def sql_integer_def Let_def)
qed

lemma sample_applied: "\<exists>s'. processApplication sample_import_env 0 (Some 3) ''b1'' (sample_imports creditor_db) = (Inr (), s')"
proof -
  let ?w = "default_wallet ''id-1'' ''a1'' ''id-0''"
  define ls where "ls = [sample_line ''52998224725'' ''77'' ''12.50'', sample_line ''11111111111'' ''78'' ''10'']"
  have dflt: "wl_defaultDebtType ?w = OTHER" by (simp add: default_wallet_def)
  have app: "applicable sample_import_env ?w ls = ls"
    by (simp add: applicable_def dflt sample_valid ls_def)
  have one: "chunks_of TRANSACTION_BATCH_SIZE ls = [ls]"
    by (simp add: chunks_of.simps TRANSACTION_BATCH_SIZE_def ls_def)
  have acc: "ba_accountId sample_batch = ''a1''" "ba_walletId sample_batch = ''id-1''"
    by (simp_all add: sample_batch_def)
  have db: "im_db (sample_imports creditor_db) = creditor_db" by (simp add: sample_imports_def)
  obtain d where d: "apply_lines sample_import_env (ba_accountId sample_batch) ?w ls (im_db (sample_imports creditor_db))
      = Inr (d, [Created, Created])"
    "wallets d = wallets creditor_db" "creditors d = creditors creditor_db"
    "\<forall>c \<in> set (contracts d). ct_updatedValue c \<in> {25 / 2, 10}"
    using sample_apply unfolding acc db ls_def by blast
  obtain cr where cr: "find_wallet ''id-1'' ''a1'' d = Some ?w" "creditor_of_wallet ?w d = Some cr" "cr_discountBands cr = []"
    by (simp add: find_wallet_def creditor_of_wallet_def d(2,3) creditor_db_rows default_wallet_def
        new_creditor_def empty_db_def sample_db_def sample_ids)
  have "\<exists>n d'. recalculateOffers ''id-1'' ''a1'' d = (Inr n, d')"
    using sample_priced [OF cr(3)] d(4) by (auto simp: recalculateOffers_def cr(1,2) Let_def list_ex_iff)
  then obtain n d' where rec: "recalculateOffers ''id-1'' ''a1'' d = (Inr n, d')" by blast
  show ?thesis
    using sample_file [of creditor_db, folded ls_def]
    by (simp add: processApplication_def sample_batch_of sample_wallet app one d(1) [unfolded acc] acc rec Let_def)
qed

lemma application_counts_witness:
  "\<exists>s' b. processApplication sample_import_env 0 (Some 3) ''b1'' (sample_imports creditor_db) = (Inr (), s') \<and>
    batch_of ''b1'' s' = Some b \<and> ba_status b = BA_APPLIED \<and> ba_createdCount b = 2 \<and>
    length (contracts (im_db s')) = 2"
proof -
  obtain s' where run: "processApplication sample_import_env 0 (Some 3) ''b1'' (sample_imports creditor_db) = (Inr (), s')"
    using sample_applied by blast
  let ?w = "default_wallet ''id-1'' ''a1'' ''id-0''"
  have "wl_defaultDebtType ?w = OTHER" by (simp add: default_wallet_def)
  then have lines: "applicable sample_import_env ?w
      [sample_line ''52998224725'' ''77'' ''12.50'', sample_line ''11111111111'' ''78'' ''10''] =
      [sample_line ''52998224725'' ''77'' ''12.50'', sample_line ''11111111111'' ''78'' ''10'']"
    by (simp add: applicable_def sample_valid)
  have sample: "ba_accountId sample_batch = ''a1''" "im_db (sample_imports creditor_db) = creditor_db"
    by (simp_all add: sample_batch_def sample_imports_def)
  show ?thesis
    using application_counts [OF sample_batch_of sample_file sample_wallet run] sample_apply run
    unfolding lines sample by (auto simp: creditor_db_rows)
qed

lemma application_settles_witness:
  "status_of ''b1'' (run_application sample_import_env ''b1'' (sample_imports creditor_db)) \<in> {Some BA_APPLIED, Some BA_FAILED}"
  by (rule application_settles) (simp add: sample_batch_of)

definition settled_db :: database where
  \<comment> \<open>the contract of \<open>registry_db\<close>, paid\<close>
  "settled_db = registry_db\<lparr>contracts := map (\<lambda>c. c\<lparr>ct_paymentStatus := PS_PAID\<rparr>) (contracts registry_db)\<rparr>"

lemma import_attempts_book_witness:
  "book_ok sample_gen (\<lambda>s. s) (im_db (run_application sample_import_env ''b1'' (sample_imports registry_db)))"
proof -
  have e: "ie_gen sample_import_env = sample_gen" "ie_sha sample_import_env = (\<lambda>s. s)"
    by (simp_all add: sample_import_env_def)
  have "book_ok (ie_gen sample_import_env) (ie_sha sample_import_env) (im_db (sample_imports registry_db))"
    using registry_book by (simp add: e sample_imports_def)
  from import_attempts_book [OF this, of APPLICATION_ATTEMPTS 0 "''b1''"] show ?thesis
    using inj_sample_gen by (simp add: e run_application_def)
qed

lemma import_keeps_terminal_witness:
  "\<exists>c. contracts (im_db (sample_imports settled_db)) = [c] \<and> ct_paymentStatus c = PS_PAID \<and>
     c \<in> set (contracts (im_db (run_application sample_import_env ''b1'' (sample_imports settled_db))))"
proof -
  have g: "ie_gen sample_import_env = sample_gen" by (simp add: sample_import_env_def)
  obtain c where c: "contracts settled_db = [c]" "ct_paymentStatus c = PS_PAID"
    using registry_rows(3) by (auto simp: settled_db_def)
  have ids: "ids_ok sample_gen settled_db"
    using registry_book by (simp add: ids_ok_def book_ok_def contracts_ok_def settled_db_def comp_def image_image)
  have "c \<in> set (contracts (im_db (run_application sample_import_env ''b1'' (sample_imports settled_db))))"
    unfolding run_application_def by (rule import_keeps_terminal)
      (use ids c inj_sample_gen in \<open>simp_all add: g sample_imports_def terminal_def\<close>)
  with c show ?thesis by (simp add: sample_imports_def)
qed

end
