(* ===== verification/Removal.thy ===== *)
theory Removal
  imports Operations Imports
begin

text \<open>
  \<open>providers/creditor-removal.service.ts\<close>: a user of a creditor's portal uploads a list of contracts,
  a worker matches it against the portfolio, the user confirms, and a worker cancels the matched contracts
  one by one through \<open>cancelContract\<close>, noting its progress every 25 contracts. What the spreadsheet
  library reads from a file is a parameter: the index of the first row and the cells as texts.
\<close>

record removal_env =
  re_now :: int
  re_gen :: "nat \<Rightarrow> string"
  re_json :: "string \<Rightarrow> json option"
  re_sheet :: "string \<Rightarrow> (nat \<times> string list list) option"
  re_order :: "contract list \<Rightarrow> contract list"

datatype removal_status = RB_PENDING_VALIDATION | RB_VALIDATING | RB_READY | RB_APPLYING | RB_COMPLETED | RB_FAILED

record removal_row =
  rr_line :: nat
  rr_contractNumber :: string
  rr_debtorDocument :: string

record removal_batch =
  rb_id :: string
  rb_accountId :: string
  rb_creditorId :: string
  rb_userId :: string
  rb_fileName :: string
  rb_fileUrl :: string
  rb_columnMapping :: "string \<times> string"
  rb_contractIds :: "string list"
  rb_status :: removal_status
  rb_totalLines :: nat
  rb_validLines :: nat
  rb_invalidLines :: nat
  rb_matchedCount :: nat
  rb_unmatchedCount :: nat
  rb_blockedCount :: nat
  rb_duplicateLines :: nat
  rb_cancelledCount :: nat
  rb_queuedForSerasaRemoval :: nat
  rb_errorMessage :: "http_error option"

record removal_store =
  rm_db :: database
  rm_batches :: "removal_batch list"
  rm_files :: "(string \<times> string) list"
  rm_queue :: "(bool \<times> string) list"

section \<open>Reading the list\<close>

definition mapped_header :: "string \<Rightarrow> json \<Rightarrow> string option" where
  "mapped_header f m = (case jget f m of Some (JStr s) \<Rightarrow> if trim s = '''' then None else Some s | _ \<Rightarrow> None)"

definition parseMapping :: "removal_env \<Rightarrow> string option \<Rightarrow> http_error + (string \<times> string)" where
  "parseMapping e raw =
     (case re_json e (or_else raw ''{}'') of
        None \<Rightarrow> Inl (Unprocessable ''Mapeie numero do contrato e CPF/CNPJ.'')
      | Some m \<Rightarrow>
          (case (mapped_header ''contractNumber'' m, mapped_header ''debtorDocument'' m) of
             (Some a, Some b) \<Rightarrow> Inr (a, b)
           | _ \<Rightarrow> Inl (Unprocessable ''Mapeie numero do contrato e CPF/CNPJ.'')))"

definition ends_with :: "string \<Rightarrow> string \<Rightarrow> bool" where
  "ends_with t s \<longleftrightarrow> length t \<le> length s \<and> drop (length s - length t) s = t"

definition spreadsheet_name :: "string \<Rightarrow> bool" where
  \<comment> \<open>\<open>/\.(csv|xlsx)$/i\<close>\<close>
  "spreadsheet_name s \<longleftrightarrow> ends_with ''.csv'' (to_lower s) \<or> ends_with ''.xlsx'' (to_lower s)"

definition cell_at :: "string list \<Rightarrow> nat \<Rightarrow> string" where
  "cell_at r i = (if i < length r then r ! i else '''')"

fun removal_rows :: "nat \<Rightarrow> nat \<Rightarrow> nat \<Rightarrow> string list list \<Rightarrow> removal_row list \<times> nat" where
  \<comment> \<open>the rows from index \<open>n\<close> on, and the number of invalid ones\<close>
  "removal_rows i j n [] = ([], 0)"
| "removal_rows i j n (r # rs) =
     (let number = trim (cell_at r i); doc = digits_only (cell_at r j);
          (ok, bad) = removal_rows i j (Suc n) rs
      in if number = '''' \<or> length doc \<notin> {11, 14} then (ok, Suc bad)
         else (\<lparr>rr_line = Suc n, rr_contractNumber = number, rr_debtorDocument = doc\<rparr> # ok, bad))"

definition read_rows ::
  "removal_env \<Rightarrow> string \<Rightarrow> string \<Rightarrow> string \<times> string \<Rightarrow> http_error + (removal_row list \<times> nat)" where
  \<comment> \<open>\<open>rows\<close>\<close>
  "read_rows e buffer name m =
     (if buffer = '''' then Inl (Unprocessable ''Selecione um arquivo CSV ou XLSX.'')
      else if \<not> spreadsheet_name name then Inl (Unprocessable ''Use um arquivo CSV ou XLSX.'')
      else case re_sheet e buffer of
             None \<Rightarrow> Inl (Unprocessable ''Nao foi possivel ler o arquivo.'')
           | Some (start, []) \<Rightarrow> Inl (Unprocessable ''O arquivo nao possui dados.'')
           | Some (start, header # body) \<Rightarrow>
               (case (index_where (\<lambda>h. trim h = trim (fst m)) header, index_where (\<lambda>h. trim h = trim (snd m)) header) of
                  (Some i, Some j) \<Rightarrow> Inr (removal_rows i j (Suc start) body)
                | _ \<Rightarrow> Inl (Unprocessable ''O mapeamento nao corresponde ao cabecalho do arquivo.'')))"

section \<open>Matching the list\<close>

definition row_key :: "removal_row \<Rightarrow> string \<times> string" where
  "row_key r = (rr_contractNumber r, rr_debtorDocument r)"

definition contract_key :: "contract \<Rightarrow> string \<times> string" where
  "contract_key c = (ct_contractNumber c, ct_debtorDocument c)"

definition distinct_keys :: "removal_row list \<Rightarrow> (string \<times> string) list" where
  "distinct_keys rs = fold (\<lambda>r ks. if row_key r \<in> set ks then ks else ks @ [row_key r]) rs []"

definition candidates ::
  "removal_env \<Rightarrow> string \<Rightarrow> string \<Rightarrow> database \<Rightarrow> (string \<times> string) list \<Rightarrow> contract list" where
  \<comment> \<open>one query for up to 2000 pairs\<close>
  "candidates e acc creditorId d ks =
     re_order e (filter (\<lambda>c. ct_accountId c = acc \<and> ct_deletedAt c = None \<and> of_creditor d creditorId c \<and>
       ct_contractNumber c \<in> fst ` set ks \<and> ct_debtorDocument c \<in> snd ` set ks) (contracts d))"

definition by_key :: "contract list \<Rightarrow> string \<times> string \<Rightarrow> contract option" where
  \<comment> \<open>\<open>new Map(entries).get(key)\<close>: the last entry wins\<close>
  "by_key cs k = List.find (\<lambda>c. contract_key c = k) (rev cs)"

record resolution =
  rs_matched :: "contract list"
  rs_unmatched :: nat
  rs_blocked :: nat
  rs_duplicates :: nat

definition resolve_row :: "contract list \<Rightarrow> removal_row \<Rightarrow> resolution \<Rightarrow> resolution" where
  "resolve_row cs r t =
     (case by_key cs (row_key r) of
        None \<Rightarrow> t\<lparr>rs_unmatched := Suc (rs_unmatched t)\<rparr>
      | Some c \<Rightarrow>
          if ct_status c = CT_CANCELLED \<or> ct_paymentStatus c = PS_PAID then t\<lparr>rs_blocked := Suc (rs_blocked t)\<rparr>
          else if ct_id c \<in> ct_id ` set (rs_matched t) then t\<lparr>rs_duplicates := Suc (rs_duplicates t)\<rparr>
          else t\<lparr>rs_matched := rs_matched t @ [c]\<rparr>)"

definition resolve_rows :: "removal_env \<Rightarrow> string \<Rightarrow> string \<Rightarrow> removal_row list \<Rightarrow> database \<Rightarrow> resolution" where
  "resolve_rows e acc creditorId rs d =
     fold (resolve_row (concat (map (candidates e acc creditorId d) (chunks_of 2000 (distinct_keys rs))))) rs
       \<lparr>rs_matched = [], rs_unmatched = 0, rs_blocked = 0, rs_duplicates = 0\<rparr>"

section \<open>Requests\<close>

definition update_removal :: "string \<Rightarrow> (removal_batch \<Rightarrow> removal_batch) \<Rightarrow> removal_store \<Rightarrow> removal_store" where
  "update_removal i f s = s\<lparr>rm_batches := update_where (\<lambda>b. rb_id b = i) f (rm_batches s)\<rparr>"

definition removal_of :: "string \<Rightarrow> removal_store \<Rightarrow> removal_batch option" where
  "removal_of i s = List.find (\<lambda>b. rb_id b = i) (rm_batches s)"

definition portal_only :: "string option \<Rightarrow> http_error option" where
  "portal_only creditorId =
     (if text_or_null creditorId = None then Some (Unprocessable ''somente para usuarios de credor'') else None)"

definition safe_name :: "string \<Rightarrow> string" where
  "safe_name s = map (\<lambda>c. if is_upper c \<or> is_lower c \<or> is_digit c \<or> c \<in> set ''._-'' then c else CHR ''_'') s"

definition createPreview ::
  "removal_env \<Rightarrow> upload_file option \<Rightarrow> string option \<Rightarrow> string \<Rightarrow> string \<Rightarrow> string option \<Rightarrow> removal_store \<Rightarrow>
    (removal_store, removal_batch) outcome" where
  "createPreview e file raw acc uid creditorId s =
     (case (portal_only creditorId, file) of
        (Some err, _) \<Rightarrow> (Inl err, s)
      | (None, None) \<Rightarrow> (Inl (Unprocessable ''Selecione um arquivo de ate 100 MB.''), s)
      | (None, Some f) \<Rightarrow>
          if fi_buffer f = '''' \<or> 100 * 1024 * 1024 < fi_size f
          then (Inl (Unprocessable ''Selecione um arquivo de ate 100 MB.''), s)
          else case parseMapping e raw of
            Inl err \<Rightarrow> (Inl err, s)
          | Inr m \<Rightarrow>
              if \<not> spreadsheet_name (fi_name f) then (Inl (Unprocessable ''Use um arquivo CSV ou XLSX.''), s)
              else let d = rm_db s;
                       url = ''creditor-removals/'' @ acc @ ''/'' @ re_gen e (nextId d) @ ''-'' @ safe_name (fi_name f);
                       b = \<lparr>rb_id = re_gen e (Suc (nextId d)), rb_accountId = acc, rb_creditorId = or_else creditorId '''',
                            rb_userId = uid, rb_fileName = fi_name f, rb_fileUrl = url, rb_columnMapping = m,
                            rb_contractIds = [], rb_status = RB_PENDING_VALIDATION, rb_totalLines = 0,
                            rb_validLines = 0, rb_invalidLines = 0, rb_matchedCount = 0, rb_unmatchedCount = 0,
                            rb_blockedCount = 0, rb_duplicateLines = 0, rb_cancelledCount = 0,
                            rb_queuedForSerasaRemoval = 0, rb_errorMessage = None\<rparr>
                   in (Inr b, s\<lparr>rm_db := d\<lparr>nextId := nextId d + 2\<rparr>, rm_files := (url, fi_buffer f) # rm_files s,
                                rm_batches := rm_batches s @ [b], rm_queue := rm_queue s @ [(False, rb_id b)]\<rparr>))"

definition listRemovals ::
  "(removal_batch list \<Rightarrow> removal_batch list) \<Rightarrow> string \<Rightarrow> string option \<Rightarrow> removal_store \<Rightarrow>
    http_error + removal_batch list" where
  "listRemovals order acc creditorId s =
     (case portal_only creditorId of
        Some err \<Rightarrow> Inl err
      | None \<Rightarrow>
          Inr (take 30 (order (filter (\<lambda>b. rb_accountId b = acc \<and> Some (rb_creditorId b) = creditorId) (rm_batches s)))))"

definition confirmRemoval ::
  "string \<Rightarrow> string \<Rightarrow> string option \<Rightarrow> removal_store \<Rightarrow> (removal_store, removal_status) outcome" where
  "confirmRemoval i acc creditorId s =
     (case portal_only creditorId of
        Some err \<Rightarrow> (Inl err, s)
      | None \<Rightarrow>
          (case List.find (\<lambda>b. rb_id b = i \<and> rb_accountId b = acc \<and> Some (rb_creditorId b) = creditorId) (rm_batches s) of
             None \<Rightarrow> (Inl (NotFound ''Lote nao encontrado.''), s)
           | Some b \<Rightarrow>
               if rb_status b \<in> {RB_APPLYING, RB_COMPLETED} then (Inr (rb_status b), s)
               else if rb_status b \<noteq> RB_READY then (Inl (Conflict ''Aguarde a conferencia do arquivo''), s)
               else (Inr RB_APPLYING,
                     (update_removal i (\<lambda>b. b\<lparr>rb_status := RB_APPLYING, rb_errorMessage := None\<rparr>) s)
                       \<lparr>rm_queue := rm_queue s @ [(True, i)]\<rparr>)))"

section \<open>Workers\<close>

definition store_resolution :: "removal_row list \<Rightarrow> nat \<Rightarrow> resolution \<Rightarrow> removal_batch \<Rightarrow> removal_batch" where
  "store_resolution rows bad t b =
     b\<lparr>rb_status := RB_READY, rb_totalLines := length rows + bad, rb_validLines := length rows, rb_invalidLines := bad,
       rb_matchedCount := length (rs_matched t), rb_unmatchedCount := rs_unmatched t, rb_blockedCount := rs_blocked t,
       rb_duplicateLines := rs_duplicates t, rb_contractIds := map ct_id (rs_matched t)\<rparr>"

definition fail_removal :: "string \<Rightarrow> http_error \<Rightarrow> removal_store \<Rightarrow> removal_store" where
  "fail_removal i err = update_removal i (\<lambda>b. b\<lparr>rb_status := RB_FAILED, rb_errorMessage := Some err\<rparr>)"

definition validateInBackground :: "removal_env \<Rightarrow> string \<Rightarrow> removal_store \<Rightarrow> (removal_store, unit) outcome" where
  "validateInBackground e i s =
     (case removal_of i s of
        None \<Rightarrow> (Inl (Internal ''P2025''), s)
      | Some b \<Rightarrow>
          let s1 = update_removal i (\<lambda>b. b\<lparr>rb_status := RB_VALIDATING, rb_errorMessage := None\<rparr>) s
          in case map_of (rm_files s) (rb_fileUrl b) of
               None \<Rightarrow> (Inl (Internal ''NoSuchKey''), fail_removal i (Internal ''NoSuchKey'') s1)
             | Some buffer \<Rightarrow>
                 (case read_rows e buffer (rb_fileName b) (rb_columnMapping b) of
                    Inl err \<Rightarrow> (Inl err, fail_removal i err s1)
                  | Inr (rows, bad) \<Rightarrow>
                      (Inr (), update_removal i
                        (store_resolution rows bad (resolve_rows e (rb_accountId b) (rb_creditorId b) rows (rm_db s1))) s1)))"

definition set_progress :: "nat \<Rightarrow> nat \<Rightarrow> removal_batch \<Rightarrow> removal_batch" where
  "set_progress n q b = b\<lparr>rb_cancelledCount := n, rb_queuedForSerasaRemoval := q\<rparr>"

fun remove_loop ::
  "removal_env \<Rightarrow> (nat \<Rightarrow> database \<Rightarrow> database) \<Rightarrow> removal_batch \<Rightarrow> string list \<Rightarrow> nat \<Rightarrow> nat \<Rightarrow> removal_store \<Rightarrow>
    http_error option \<times> nat \<times> nat \<times> removal_store" where
  \<comment> \<open>\<open>others n\<close> is what other requests commit before the next contract is cancelled\<close>
  "remove_loop e others b [] n q s = (None, n, q, s)"
| "remove_loop e others b (i # is) n q s =
     (if i = '''' then remove_loop e others b is n q s
      else let d0 = others n (rm_db s)
           in case cancelContract (re_gen e) (re_now e) i (rb_userId b) (rb_accountId b) (Some (rb_creditorId b))
                     plain_cancellation d0 of
                (Inl err, d) \<Rightarrow> (Some err, n, q, s\<lparr>rm_db := d\<rparr>)
              | (Inr queued, d) \<Rightarrow>
                  let n' = Suc n; q' = (if queued then Suc q else q); s1 = s\<lparr>rm_db := d\<rparr>;
                      s2 = (if n' mod 25 = 0 \<or> n' = length (rb_contractIds b)
                            then update_removal (rb_id b) (set_progress n' q') s1 else s1)
                  in remove_loop e others b is n' q' s2)"

definition applyInBackground ::
  "removal_env \<Rightarrow> (nat \<Rightarrow> database \<Rightarrow> database) \<Rightarrow> string \<Rightarrow> removal_store \<Rightarrow> (removal_store, unit) outcome" where
  "applyInBackground e others i s =
     (case removal_of i s of
        None \<Rightarrow> (Inl (Internal ''P2025''), s)
      | Some b \<Rightarrow>
          (case remove_loop e others b (drop (rb_cancelledCount b) (rb_contractIds b)) (rb_cancelledCount b)
                  (rb_queuedForSerasaRemoval b) s of
             (None, n, q, s1) \<Rightarrow>
               (Inr (), update_removal i (\<lambda>b. (set_progress n q b)\<lparr>rb_status := RB_COMPLETED\<rparr>) s1)
           | (Some err, n, q, s1) \<Rightarrow>
               (Inl err, update_removal i
                 (\<lambda>b. (set_progress n q b)\<lparr>rb_status := RB_FAILED, rb_errorMessage := Some err\<rparr>) s1)))"

fun removal_attempts ::
  "removal_env \<Rightarrow> (nat \<Rightarrow> database \<Rightarrow> database) \<Rightarrow> nat \<Rightarrow> string \<Rightarrow> removal_store \<Rightarrow> removal_store" where
  \<comment> \<open>the queue repeats a failed job, three attempts in all\<close>
  "removal_attempts e others 0 i s = s"
| "removal_attempts e others (Suc n) i s =
     (case applyInBackground e others i s of
        (Inr _, s') \<Rightarrow> s'
      | (Inl _, s') \<Rightarrow> removal_attempts e others n i s')"


section \<open>What the check of the list finds\<close>

definition removable :: "removal_batch \<Rightarrow> database \<Rightarrow> string \<Rightarrow> bool" where
  \<comment> \<open>the contract that \<open>cancelContract\<close> would find for the creditor is not cancelled\<close>
  "removable b d i \<longleftrightarrow>
     (case List.find (\<lambda>c. ct_id c = i \<and> ct_accountId c = rb_accountId b \<and> ct_deletedAt c = None \<and>
                         (rb_creditorId b = '''' \<or> map_option wl_creditorId (wallet_of d c) = Some (rb_creditorId b)))
             (contracts d) of
        None \<Rightarrow> False
      | Some c \<Rightarrow> ct_status c \<noteq> CT_CANCELLED)"

definition removed :: "removal_batch \<Rightarrow> database \<Rightarrow> string \<Rightarrow> bool" where
  \<comment> \<open>that contract is cancelled\<close>
  "removed b d i \<longleftrightarrow>
     (case List.find (\<lambda>c. ct_id c = i \<and> ct_accountId c = rb_accountId b \<and> ct_deletedAt c = None \<and>
                         (rb_creditorId b = '''' \<or> map_option wl_creditorId (wallet_of d c) = Some (rb_creditorId b)))
             (contracts d) of
        None \<Rightarrow> False
      | Some c \<Rightarrow> ct_status c = CT_CANCELLED)"

lemma cancelContract_rows:
  assumes "cancelContract gen now i u acc cr cn d = (Inr q, d')"
  obtains h where "contracts d' = map h (contracts d)" and "\<And>c. ct_id c \<noteq> i \<Longrightarrow> h c = c"
    and "\<And>c. ct_id (h c) = ct_id c" and "\<And>c. ct_id c = i \<Longrightarrow> ct_status (h c) = CT_CANCELLED"
    and "\<And>c. ct_accountId (h c) = ct_accountId c \<and> ct_deletedAt (h c) = ct_deletedAt c \<and> ct_walletId (h c) = ct_walletId c"
    and "wallets d' = wallets d"
proof (cases rule: cancelContract_cases [OF assms])
  case (2 ct ia)
  then show ?thesis
    by (intro that [of "\<lambda>c. if ct_id c = i then c\<lparr>ct_status := CT_CANCELLED, ct_cancelledAt := Some now,
          ct_cancellationReason := Some (or_else (cn_reason cn) CREDITOR_REQUEST)\<rparr> else c"])
      (auto simp: update_where_def pay_frame_def)
next
  case (3 ct ia op d1)
  then have "operation_created gen now [i] True op d d1"
    by (cases rule: createForContract_cases [OF 3(5)]) auto
  with 3 show ?thesis
    by (intro that [of "(\<lambda>c. if ct_id c = i then c\<lparr>ct_status := CT_CANCELLED, ct_cancelledAt := Some now,
          ct_cancellationReason := Some (or_else (cn_reason cn) CREDITOR_REQUEST)\<rparr> else c) \<circ>
        (\<lambda>c. if ct_id c = i then c\<lparr>ct_serasaStatus := submitted_status (op_action op)\<rparr> else c)"])
      (auto simp: update_where_def pay_frame_def operation_created_def)
qed simp

lemma cancels_removable:
  assumes "removable b d i"
  obtains q d' where "cancelContract gen now i u (rb_accountId b) (Some (rb_creditorId b)) cn d = (Inr q, d')"
proof -
  have "\<exists>q d'. cancelContract gen now i u (rb_accountId b) (Some (rb_creditorId b)) cn d = (Inr q, d')"
    using assms by (auto simp: removable_def cancelContract_def Let_def split_beta split: option.splits)
  then show ?thesis using that by blast
qed

lemma refuses_unremovable:
  assumes "\<not> removable b d i"
  obtains err where "cancelContract gen now i u (rb_accountId b) (Some (rb_creditorId b)) cn d = (Inl err, d)"
proof -
  have "\<exists>err. cancelContract gen now i u (rb_accountId b) (Some (rb_creditorId b)) cn d = (Inl err, d)"
    using assms by (auto simp: removable_def cancelContract_def split: option.splits)
  then show ?thesis using that by blast
qed

lemma find_map: "List.find P (map h xs) = map_option h (List.find (P \<circ> h) xs)"
  by (induction xs) auto

lemma cancel_step:
  assumes "removable b d i"
  obtains q d' where "cancelContract gen now i u (rb_accountId b) (Some (rb_creditorId b)) cn d = (Inr q, d')"
    and "removed b d' i" and "\<And>j. j \<noteq> i \<Longrightarrow> removable b d' j = removable b d j"
    and "\<And>j. j \<noteq> i \<Longrightarrow> removed b d' j = removed b d j"
proof (rule cancels_removable [OF assms])
  fix q d'
  assume run: "cancelContract gen now i u (rb_accountId b) (Some (rb_creditorId b)) cn d = (Inr q, d')"
  show ?thesis
  proof (rule cancelContract_rows [OF run])
    fix h
    assume h: "contracts d' = map h (contracts d)" "\<And>c. ct_id c \<noteq> i \<Longrightarrow> h c = c"
      "\<And>c. ct_id (h c) = ct_id c" "\<And>c. ct_id c = i \<Longrightarrow> ct_status (h c) = CT_CANCELLED"
      "\<And>c. ct_accountId (h c) = ct_accountId c \<and> ct_deletedAt (h c) = ct_deletedAt c \<and> ct_walletId (h c) = ct_walletId c"
      "wallets d' = wallets d"
    have w: "wallet_of d' = wallet_of d" "wallet_of d (h c) = wallet_of d c" for c
      by (simp_all add: wallet_of_def h(5,6) fun_eq_iff)
    let ?P = "\<lambda>j c. ct_id c = j \<and> ct_accountId c = rb_accountId b \<and> ct_deletedAt c = None \<and>
        (rb_creditorId b = '''' \<or> map_option wl_creditorId (wallet_of d c) = Some (rb_creditorId b))"
    have "?P j \<circ> h = ?P j" for j
      using h(3,5) w(2) by (simp add: fun_eq_iff)
    then have row: "List.find (?P j) (contracts d') = map_option h (List.find (?P j) (contracts d))" for j
      by (simp only: h(1) find_map)
    have same: "List.find (?P j) (contracts d') = List.find (?P j) (contracts d)" if "j \<noteq> i" for j
      unfolding row using that h(2) by (cases "List.find (?P j) (contracts d)") (auto dest: find_SomeD)
    have "removed b d' i"
    proof -
      obtain c where c: "List.find (?P i) (contracts d) = Some c"
        using assms by (auto simp: removable_def split: option.splits)
      then have "ct_status (h c) = CT_CANCELLED" using find_SomeD [OF c] h(4) by simp
      then show ?thesis using row [of i] c by (simp only: removed_def w option.map option.case)
    qed
    moreover have "removable b d' j = removable b d j" "removed b d' j = removed b d j" if "j \<noteq> i" for j
      unfolding removable_def removed_def w same [OF that] by (rule refl)+
    ultimately show ?thesis by (intro that [OF run])
  qed
qed


definition quiet :: "removal_batch \<Rightarrow> (nat \<Rightarrow> database \<Rightarrow> database) \<Rightarrow> bool" where
  \<comment> \<open>the other requests neither cancel, reopen, move nor delete a contract of the list\<close>
  "quiet b others \<longleftrightarrow>
     (\<forall>n d. \<forall>j \<in> set (rb_contractIds b).
        (removable b d j \<longrightarrow> removable b (others n d) j) \<and> (removed b d j \<longrightarrow> removed b (others n d) j))"

lemma removal_of_update:
  assumes "\<And>b. rb_id (f b) = rb_id b"
  shows "removal_of x (update_removal y f s) = map_option (\<lambda>b. if rb_id b = y then f b else b) (removal_of x s)"
proof -
  have "(\<lambda>b. rb_id b = x) \<circ> (\<lambda>b. if rb_id b = y then f b else b) = (\<lambda>b. rb_id b = x)"
    using assms by (auto simp: fun_eq_iff)
  then show ?thesis by (simp add: removal_of_def update_removal_def update_where_def find_map)
qed

lemma update_removal_frame [simp]:
  "rm_db (update_removal i f s) = rm_db s" "rm_files (update_removal i f s) = rm_files s"
  "rm_queue (update_removal i f s) = rm_queue s"
  by (simp_all add: update_removal_def)

lemma set_progress_frame [simp]:
  "rb_id (set_progress n q b) = rb_id b" "rb_contractIds (set_progress n q b) = rb_contractIds b"
  "rb_accountId (set_progress n q b) = rb_accountId b" "rb_creditorId (set_progress n q b) = rb_creditorId b"
  "rb_status (set_progress n q b) = rb_status b" "rb_userId (set_progress n q b) = rb_userId b"
  "rb_cancelledCount (set_progress n q b) = n"
  by (simp_all add: set_progress_def)

lemma removal_of_db [simp]: "removal_of x (s\<lparr>rm_db := d\<rparr>) = removal_of x s"
  by (simp add: removal_of_def)

definition same_job :: "removal_batch \<Rightarrow> removal_batch \<Rightarrow> bool" where
  \<comment> \<open>the columns the worker never writes\<close>
  "same_job b b' \<longleftrightarrow> rb_id b' = rb_id b \<and> rb_contractIds b' = rb_contractIds b \<and> rb_accountId b' = rb_accountId b \<and>
     rb_creditorId b' = rb_creditorId b \<and> rb_userId b' = rb_userId b"

lemma loop_batch:
  assumes "remove_loop e others b is n q s = (r, n', q', s')" and "removal_of x s = Some b0"
  shows "\<exists>b1. removal_of x s' = Some b1 \<and> same_job b0 b1"
  using assms
proof (induction e others b "is" n q s arbitrary: b0 rule: remove_loop.induct)
  case (2 e others b i "is" n q s)
  show ?case
  proof (cases "i = ''''")
    case False
    obtain o1 d where run: "cancelContract (re_gen e) (re_now e) i (rb_userId b) (rb_accountId b)
        (Some (rb_creditorId b)) plain_cancellation (others n (rm_db s)) = (o1, d)"
      by (cases "cancelContract (re_gen e) (re_now e) i (rb_userId b) (rb_accountId b)
        (Some (rb_creditorId b)) plain_cancellation (others n (rm_db s))")
    show ?thesis
    proof (cases o1)
      case (Inl err)
      then show ?thesis
        using 2(3-) False run by (auto simp: same_job_def)
    next
      case (Inr queued)
      let ?s1 = "s\<lparr>rm_db := d\<rparr>" and ?q = "if queued then Suc q else q"
      let ?s2 = "if Suc n mod 25 = 0 \<or> Suc n = length (rb_contractIds b)
        then update_removal (rb_id b) (set_progress (Suc n) ?q) ?s1 else ?s1"
      obtain b1 where b1: "removal_of x ?s2 = Some b1" "same_job b0 b1"
        using 2(4) by (cases "Suc n mod 25 = 0 \<or> Suc n = length (rb_contractIds b)")
          (simp_all add: removal_of_update same_job_def)
      have "remove_loop e others b is (Suc n) ?q ?s2 = (r, n', q', s')"
        using 2(3) False run Inr by (simp add: Let_def)
      then obtain b2 where "removal_of x s' = Some b2" "same_job b1 b2"
        using 2(2) [OF False refl run [symmetric] Inr refl refl refl refl _ b1(1)] by blast
      then show ?thesis
        using b1(2) by (auto simp: same_job_def)
    qed
  qed (use 2 in auto)
qed (auto simp: same_job_def)


lemma quietD:
  assumes "quiet b others" and "j \<in> set (rb_contractIds b)"
  shows "removable b d j \<Longrightarrow> removable b (others n d) j" and "removed b d j \<Longrightarrow> removed b (others n d) j"
  using assms by (simp_all add: quiet_def)

lemma loop_completes:
  assumes "quiet b others" and "distinct is" and "'''' \<notin> set is" and "set is \<subseteq> set (rb_contractIds b)"
    and "\<And>j. j \<in> set is \<Longrightarrow> removable b (rm_db s) j"
  shows "\<exists>q' s'. remove_loop e others b is n q s = (None, n + length is, q', s') \<and>
    (\<forall>j \<in> set (rb_contractIds b). j \<in> set is \<or> removed b (rm_db s) j \<longrightarrow> removed b (rm_db s') j)"
  using assms(2-)
proof (induction "is" arbitrary: n q s)
  case (Cons i "is")
  note keep = quietD [OF assms(1)]
  have "removable b (others n (rm_db s)) i"
    using Cons.prems keep(1) by simp
  then obtain queued d where run: "cancelContract (re_gen e) (re_now e) i (rb_userId b) (rb_accountId b)
        (Some (rb_creditorId b)) plain_cancellation (others n (rm_db s)) = (Inr queued, d)"
    and gone: "removed b d i"
    and kept: "\<And>j. j \<noteq> i \<Longrightarrow> removable b d j = removable b (others n (rm_db s)) j"
    and other: "\<And>j. j \<noteq> i \<Longrightarrow> removed b d j = removed b (others n (rm_db s)) j"
    by (rule cancel_step [where gen = "re_gen e" and now = "re_now e" and u = "rb_userId b" and cn = plain_cancellation]) blast
  let ?q = "if queued then Suc q else q"
  let ?s2 = "if Suc n mod 25 = 0 \<or> Suc n = length (rb_contractIds b)
        then update_removal (rb_id b) (set_progress (Suc n) ?q) (s\<lparr>rm_db := d\<rparr>) else s\<lparr>rm_db := d\<rparr>"
  have db: "rm_db ?s2 = d" by simp
  have "removable b (rm_db ?s2) j" if "j \<in> set is" for j
  proof -
    have "j \<noteq> i" "j \<in> set (rb_contractIds b)" "removable b (rm_db s) j" using that Cons.prems by auto
    then show ?thesis using kept keep(1) unfolding db by simp
  qed
  then obtain q' s' where rest: "remove_loop e others b is (Suc n) ?q ?s2 = (None, Suc n + length is, q', s')"
    and all: "\<forall>j \<in> set (rb_contractIds b). j \<in> set is \<or> removed b (rm_db ?s2) j \<longrightarrow> removed b (rm_db s') j"
    using Cons.IH [where n = "Suc n" and q = ?q and s = ?s2] Cons.prems(1-3) by auto
  have "removed b (rm_db s') j"
    if "j \<in> set (rb_contractIds b)" "j \<in> set (i # is) \<or> removed b (rm_db s) j" for j
    using all that gone other keep(2) [OF that(1)] unfolding db by (cases "j = i") auto
  moreover have "remove_loop e others b (i # is) n q s = (None, n + length (i # is), q', s')"
  proof -
    have "i \<noteq> ''''" using Cons.prems(2) by auto
    then show ?thesis using rest run by (simp add: Let_def)
  qed
  ultimately show ?case by blast
qed simp

text \<open>
  C34. Once a batch is being applied, and as long as the other requests neither cancel, reopen, move nor
  delete a contract of its list, whatever they do to others, one run of the worker is enough: the job ends
  without an error, the batch is completed with all of its contracts counted, and each contract that was
  still to be removed is cancelled, whether it is paid by then or not.
\<close>

theorem removal_completes:
  assumes "removal_of i s = Some b" and "quiet b others"
    and "distinct (rb_contractIds b)" and "'''' \<notin> set (rb_contractIds b)"
    and "rb_cancelledCount b \<le> length (rb_contractIds b)"
    and "\<forall>j \<in> set (drop (rb_cancelledCount b) (rb_contractIds b)). removable b (rm_db s) j"
  shows "\<exists>s' b'. applyInBackground e others i s = (Inr (), s') \<and> removal_of i s' = Some b' \<and>
    rb_status b' = RB_COMPLETED \<and> rb_contractIds b' = rb_contractIds b \<and>
    rb_cancelledCount b' = length (rb_contractIds b) \<and>
    (\<forall>j \<in> set (drop (rb_cancelledCount b) (rb_contractIds b)). removed b (rm_db s') j)"
proof -
  let ?n = "rb_cancelledCount b" and ?ids = "rb_contractIds b"
  have nonempty: "'''' \<notin> set (drop ?n ?ids)" using assms(4) by (blast dest: in_set_dropD)
  obtain q' s1 where run: "remove_loop e others b (drop ?n ?ids) ?n (rb_queuedForSerasaRemoval b) s =
      (None, length ?ids, q', s1)" and all: "\<forall>j \<in> set (drop ?n ?ids). removed b (rm_db s1) j"
    using loop_completes [where s = s and e = e and n = ?n and q = "rb_queuedForSerasaRemoval b",
        OF assms(2) distinct_drop [OF assms(3), of ?n] nonempty set_drop_subset] assms(5,6)
    by auto (metis in_set_dropD)
  obtain b1 where b1: "removal_of i s1 = Some b1" "same_job b b1"
    using loop_batch [OF run assms(1)] by blast
  have "rb_id b1 = i" using find_SomeD [OF b1(1) [unfolded removal_of_def]] by simp
  with run all b1 assms(1) show ?thesis
    by (simp add: applyInBackground_def removal_of_update same_job_def)
qed

lemma removable_same_job: "same_job b b' \<Longrightarrow> removable b' d j = removable b d j"
  by (simp add: removable_def same_job_def)

lemma blocked_attempt:
  assumes "removal_of i s = Some b" and "rb_cancelledCount b < length (rb_contractIds b)"
    and "rb_contractIds b ! rb_cancelledCount b = j" and "j \<noteq> ''''"
    and "\<not> removable b (others (rb_cancelledCount b) (rm_db s)) j"
  obtains err s1 b1 where "applyInBackground e others i s = (Inl err, s1)"
    and "rm_db s1 = others (rb_cancelledCount b) (rm_db s)" and "removal_of i s1 = Some b1"
    and "rb_status b1 = RB_FAILED" and "rb_cancelledCount b1 = rb_cancelledCount b" and "same_job b b1"
proof -
  let ?n = "rb_cancelledCount b"
  obtain err where refused: "cancelContract (re_gen e) (re_now e) j (rb_userId b) (rb_accountId b)
      (Some (rb_creditorId b)) plain_cancellation (others ?n (rm_db s)) = (Inl err, others ?n (rm_db s))"
    by (rule refuses_unremovable [OF assms(5)])
  have rest: "drop ?n (rb_contractIds b) = j # drop (Suc ?n) (rb_contractIds b)"
    using assms(2,3) Cons_nth_drop_Suc [of ?n "rb_contractIds b"] by simp
  have "rb_id b = i" using find_SomeD [OF assms(1) [unfolded removal_of_def]] by simp
  then show ?thesis
    using assms(1,4) refused rest
    by (intro that [of err "update_removal i (\<lambda>x. (set_progress ?n (rb_queuedForSerasaRemoval b) x)
          \<lparr>rb_status := RB_FAILED, rb_errorMessage := Some err\<rparr>) (s\<lparr>rm_db := others ?n (rm_db s)\<rparr>)"
          "(set_progress ?n (rb_queuedForSerasaRemoval b) b)\<lparr>rb_status := RB_FAILED, rb_errorMessage := Some err\<rparr>"])
      (auto simp: applyInBackground_def removal_of_update same_job_def)
qed

lemma failed_not_confirmed:
  assumes "removal_of i s = Some b" and "rb_status b = RB_FAILED"
  shows "\<not> is_ok (confirmRemoval i (rb_accountId b) (Some (rb_creditorId b)) s)"
proof -
  have "List.find (\<lambda>x. rb_id x = i \<and> rb_accountId x = rb_accountId b \<and> rb_creditorId x = rb_creditorId b) bs = Some b"
    if "List.find (\<lambda>x. rb_id x = i) bs = Some b" for bs
    using that by (induction bs) (auto split: if_splits)
  with assms show ?thesis
    by (auto simp: confirmRemoval_def removal_of_def is_ok_def split: option.splits)
qed

text \<open>
  C35. A list is stuck for good behind a contract that cannot be cancelled (because someone has cancelled
  or deleted it since the check): every attempt stops there at once, none of the contracts after it is
  touched, the count of the batch does not move, and the user can no longer confirm the batch.
\<close>

theorem removal_blocked:
  assumes "removal_of i s = Some b" and "rb_cancelledCount b < length (rb_contractIds b)"
    and "rb_contractIds b ! rb_cancelledCount b = j" and "j \<noteq> ''''"
    and "\<not> removable b (rm_db s) j" and "\<forall>n d. \<not> removable b d j \<longrightarrow> \<not> removable b (others n d) j"
    and "0 < k" and "s' = removal_attempts e others k i s"
  shows "rm_db s' = (others (rb_cancelledCount b) ^^ k) (rm_db s) \<and>
    (\<exists>b'. removal_of i s' = Some b' \<and> rb_status b' = RB_FAILED \<and> rb_cancelledCount b' = rb_cancelledCount b) \<and>
    \<not> is_ok (confirmRemoval i (rb_accountId b) (Some (rb_creditorId b)) s')"
  using assms(1-3,5-8)
proof (induction k arbitrary: s b)
  case (Suc k)
  have stuck: "\<not> removable b (others (rb_cancelledCount b) (rm_db s)) j"
    using Suc.prems(4,5) by blast
  obtain err s1 b1 where step: "applyInBackground e others i s = (Inl err, s1)"
      "rm_db s1 = others (rb_cancelledCount b) (rm_db s)" "removal_of i s1 = Some b1" "rb_status b1 = RB_FAILED"
      "rb_cancelledCount b1 = rb_cancelledCount b" "same_job b b1"
    by (rule blocked_attempt [where others = others, OF Suc.prems(1,2,3) assms(4) stuck])
  show ?case
  proof (cases "k = 0")
    case True
    then show ?thesis
      using step Suc.prems(7) failed_not_confirmed [OF step(3,4)] by (simp add: same_job_def)
  next
    case False
    have "\<not> removable b1 (rm_db s1) j"
      using step(2) Suc.prems(4,5) removable_same_job [OF step(6)] by simp
    then show ?thesis
      using Suc.IH [OF step(3)] step Suc.prems(2,3,5,7) False removable_same_job [OF step(6)]
      by (simp add: same_job_def funpow_swap1)
  qed
qed simp


section \<open>Matching\<close>

lemma find_rev_in: "List.find P (rev xs) = Some x \<Longrightarrow> x \<in> set xs \<and> P x"
  by (auto dest: find_SomeD)

definition resolved :: "contract list \<Rightarrow> (contract \<Rightarrow> bool) \<Rightarrow> nat \<Rightarrow> resolution \<Rightarrow> bool" where
  \<comment> \<open>after \<open>n\<close> rows\<close>
  "resolved cs P n t \<longleftrightarrow>
     n = length (rs_matched t) + rs_unmatched t + rs_blocked t + rs_duplicates t \<and>
     distinct (map ct_id (rs_matched t)) \<and>
     (\<forall>c \<in> set (rs_matched t). c \<in> set cs \<and> P c \<and> ct_status c \<noteq> CT_CANCELLED \<and> ct_paymentStatus c \<noteq> PS_PAID)"

lemma resolved_row:
  assumes "resolved cs P n t" and "\<And>c. c \<in> set cs \<Longrightarrow> contract_key c = row_key r \<Longrightarrow> P c"
  shows "resolved cs P (Suc n) (resolve_row cs r t)"
  using assms by (auto simp: resolved_def resolve_row_def by_key_def split: option.splits dest!: find_rev_in)

lemma resolved_rows:
  assumes "resolved cs P n t" and "\<And>c r. c \<in> set cs \<Longrightarrow> r \<in> set rs \<Longrightarrow> contract_key c = row_key r \<Longrightarrow> P c"
  shows "resolved cs P (n + length rs) (fold (resolve_row cs) rs t)"
  using assms
proof (induction rs arbitrary: n t)
  case (Cons r rs)
  have "resolved cs P (Suc n) (resolve_row cs r t)" using Cons.prems by (intro resolved_row) auto
  then have "resolved cs P (Suc n + length rs) (fold (resolve_row cs) rs (resolve_row cs r t))"
    by (rule Cons.IH) (rule Cons.prems(2), simp_all)
  then show ?case by simp
qed simp

lemma candidates_in:
  assumes "\<And>cs. set (re_order e cs) = set cs"
  shows "c \<in> set (concat (map (candidates e acc creditorId d) kss)) \<Longrightarrow>
    c \<in> set (contracts d) \<and> ct_accountId c = acc \<and> ct_deletedAt c = None \<and> of_creditor d creditorId c"
  by (auto simp: candidates_def assms)

lemma resolve_rows_spec:
  assumes "\<And>cs. set (re_order e cs) = set cs" and "resolve_rows e acc creditorId rs d = t"
  shows "length rs = length (rs_matched t) + rs_unmatched t + rs_blocked t + rs_duplicates t"
    and "distinct (map ct_id (rs_matched t))"
    and "\<And>c. c \<in> set (rs_matched t) \<Longrightarrow> c \<in> set (contracts d) \<and> ct_accountId c = acc \<and> ct_deletedAt c = None \<and>
      of_creditor d creditorId c \<and> ct_status c \<noteq> CT_CANCELLED \<and> ct_paymentStatus c \<noteq> PS_PAID \<and>
      (\<exists>r \<in> set rs. contract_key c = row_key r)"
proof -
  let ?cs = "concat (map (candidates e acc creditorId d) (chunks_of 2000 (distinct_keys rs)))"
  have "resolved ?cs (\<lambda>c. \<exists>r \<in> set rs. contract_key c = row_key r) (0 + length rs) t"
    unfolding assms(2) [symmetric] resolve_rows_def
    by (rule resolved_rows) (auto simp: resolved_def)
  note all = this [unfolded resolved_def]
  show "length rs = length (rs_matched t) + rs_unmatched t + rs_blocked t + rs_duplicates t"
    and "distinct (map ct_id (rs_matched t))"
    using all by simp_all
  fix c assume "c \<in> set (rs_matched t)"
  then show "c \<in> set (contracts d) \<and> ct_accountId c = acc \<and> ct_deletedAt c = None \<and>
      of_creditor d creditorId c \<and> ct_status c \<noteq> CT_CANCELLED \<and> ct_paymentStatus c \<noteq> PS_PAID \<and>
      (\<exists>r \<in> set rs. contract_key c = row_key r)"
    using all candidates_in [OF assms(1)] by blast
qed

lemma find_unique_row:
  assumes "distinct (map ct_id cs)" and "c \<in> set cs" and "P c" and "\<And>x. P x \<Longrightarrow> ct_id x = ct_id c"
  shows "List.find P cs = Some c"
proof -
  obtain y where y: "List.find P cs = Some y" using find_ex [of c cs P] assms(2,3) by auto
  then have "y = c" using find_SomeD [OF y] assms(4) by (intro same_key [OF assms(1) _ assms(2)]) auto
  with y show ?thesis by simp
qed

lemma matched_removable:
  assumes "distinct (map ct_id (contracts d))" and "c \<in> set (contracts d)" and "ct_accountId c = rb_accountId b"
    and "ct_deletedAt c = None" and "of_creditor d (rb_creditorId b) c" and "ct_status c \<noteq> CT_CANCELLED"
  shows "removable b d (ct_id c)"
proof -
  have "map_option wl_creditorId (wallet_of d c) = Some (rb_creditorId b)"
    using assms(5) by (auto simp: of_creditor_def split: option.splits)
  with assms(3,4) have "List.find (\<lambda>x. ct_id x = ct_id c \<and> ct_accountId x = rb_accountId b \<and> ct_deletedAt x = None \<and>
        (rb_creditorId b = '''' \<or> map_option wl_creditorId (wallet_of d x) = Some (rb_creditorId b))) (contracts d) = Some c"
    by (intro find_unique_row [OF assms(1,2)]) auto
  with assms(6) show ?thesis by (simp add: removable_def)
qed

text \<open>
  A list that has been checked accounts for each of its lines exactly once, and the contracts it keeps
  for the confirmation are distinct, are live contracts of that account and creditor, are neither cancelled
  nor paid, and can all be removed as things stand.
\<close>

theorem checked_list:
  assumes "validateInBackground e i s = (Inr (), s')" and "removal_of i s = Some b"
    and "\<forall>cs. set (re_order e cs) = set cs" and "distinct (map ct_id (contracts (rm_db s)))"
  shows "\<exists>b'. removal_of i s' = Some b' \<and> rb_status b' = RB_READY \<and> rm_db s' = rm_db s \<and>
    rb_totalLines b' = rb_validLines b' + rb_invalidLines b' \<and>
    rb_validLines b' = rb_matchedCount b' + rb_unmatchedCount b' + rb_blockedCount b' + rb_duplicateLines b' \<and>
    length (rb_contractIds b') = rb_matchedCount b' \<and> distinct (rb_contractIds b') \<and>
    (\<forall>j \<in> set (rb_contractIds b'). removable b' (rm_db s') j \<and>
       (\<exists>c \<in> set (contracts (rm_db s)). ct_id c = j \<and> ct_accountId c = rb_accountId b \<and> ct_deletedAt c = None \<and>
          of_creditor (rm_db s) (rb_creditorId b) c \<and> ct_paymentStatus c \<noteq> PS_PAID))"
proof -
  let ?d = "rm_db s"
  let ?s1 = "update_removal i (\<lambda>b. b\<lparr>rb_status := RB_VALIDATING, rb_errorMessage := None\<rparr>) s"
  obtain buffer rows bad where rows: "read_rows e buffer (rb_fileName b) (rb_columnMapping b) = Inr (rows, bad)"
    and s': "s' = update_removal i
      (store_resolution rows bad (resolve_rows e (rb_accountId b) (rb_creditorId b) rows ?d)) ?s1"
    using assms(1,2) by (auto simp: validateInBackground_def Let_def split: option.splits sum.splits)
  define t where "t = resolve_rows e (rb_accountId b) (rb_creditorId b) rows ?d"
  have order: "\<And>cs. set (re_order e cs) = set cs" using assms(3) by blast
  note spec = resolve_rows_spec [OF order t_def [symmetric]]
  have "rb_id b = i" using find_SomeD [OF assms(2) [unfolded removal_of_def]] by simp
  then have b': "removal_of i s' = Some (store_resolution rows bad t
      (b\<lparr>rb_status := RB_VALIDATING, rb_errorMessage := None\<rparr>))" (is "_ = Some ?b'")
    using assms(2) by (simp add: s' t_def removal_of_update store_resolution_def)
  have acc: "rb_accountId ?b' = rb_accountId b" "rb_creditorId ?b' = rb_creditorId b"
    by (simp_all add: store_resolution_def)
  have "removable ?b' ?d (ct_id c)" if "c \<in> set (rs_matched t)" for c
    using spec(3) [OF that] by (intro matched_removable [OF assms(4)]) (simp_all add: acc)
  then show ?thesis
    unfolding b' using spec by (auto simp: s' store_resolution_def)
qed


section \<open>Sample lists\<close>

definition sample_removal :: "string list \<Rightarrow> removal_batch" where
  "sample_removal ids =
     \<lparr>rb_id = ''b1'', rb_accountId = ''a1'', rb_creditorId = ''cr1'', rb_userId = ''u1'', rb_fileName = ''l.csv'',
      rb_fileUrl = ''f1'', rb_columnMapping = (''n'', ''d''), rb_contractIds = ids, rb_status = RB_APPLYING,
      rb_totalLines = 0, rb_validLines = 0, rb_invalidLines = 0, rb_matchedCount = 0, rb_unmatchedCount = 0,
      rb_blockedCount = 0, rb_duplicateLines = 0, rb_cancelledCount = 0, rb_queuedForSerasaRemoval = 0,
      rb_errorMessage = None\<rparr>"

definition sample_removals :: "string list \<Rightarrow> removal_store" where
  "sample_removals ids =
     \<lparr>rm_db = sample_db, rm_batches = [sample_removal ids], rm_files = [(''f1'', ''x'')], rm_queue = []\<rparr>"

definition sample_removal_env :: removal_env where
  "sample_removal_env =
     \<lparr>re_now = 1000, re_gen = sample_gen, re_json = (\<lambda>_. None),
      re_sheet = (\<lambda>_. Some (0, [[''n'', ''d''], [''n1'', ''529.982.247-25''], ['''', ''1'']])), re_order = id\<rparr>"

lemma sample_removal_rows:
  "removal_of ''b1'' (sample_removals ids) = Some (sample_removal ids)"
  "rb_contractIds (sample_removal ids) = ids" "rb_cancelledCount (sample_removal ids) = 0"
  "rm_db (sample_removals ids) = sample_db"
  "removable (sample_removal ids) sample_db ''c1''" "\<not> removable (sample_removal ids) sample_db ''c2''"
  by (simp_all add: removal_of_def sample_removals_def sample_removal_def removable_def sample_db_def
      sample_contract_def wallet_of_def)

text \<open>Meanwhile others register a contract and cancel one of another account.\<close>

definition busy_others :: "nat \<Rightarrow> database \<Rightarrow> database" where
  "busy_others n d =
     d\<lparr>contracts := update_where (\<lambda>c. ct_accountId c = ''a2'') (\<lambda>c. c\<lparr>ct_status := CT_CANCELLED\<rparr>) (contracts d)
         @ [sample_contract\<lparr>ct_id := ''c9''\<rparr>]\<rparr>"

lemma find_appended:
  assumes "\<And>c. P c \<Longrightarrow> \<not> Q c" and "\<And>c. P (f c) = P c" and "List.find P xs = Some c"
  shows "List.find P (update_where Q f xs @ ys) = Some c"
  using assms(3) by (induction xs) (auto simp: assms(1,2) split: if_splits)

lemma busy_quiet: "quiet (sample_removal [''c1'']) busy_others"
proof -
  let ?P = "\<lambda>d j c. ct_id c = j \<and> ct_accountId c = rb_accountId (sample_removal [''c1'']) \<and> ct_deletedAt c = None \<and>
      (rb_creditorId (sample_removal [''c1'']) = '''' \<or>
       map_option wl_creditorId (wallet_of d c) = Some (rb_creditorId (sample_removal [''c1''])))"
  have w: "wallet_of (busy_others n d) = wallet_of d" for n d
    by (simp add: wallet_of_def busy_others_def fun_eq_iff)
  have "List.find (?P d j) (contracts (busy_others n d)) = Some c" if "List.find (?P d j) (contracts d) = Some c" for n d j c
  proof -
    have "\<not> ct_accountId c = ''a2''" if "?P d j c" for c
      using that by (simp add: sample_removal_def)
    moreover have "?P d j (c\<lparr>ct_status := CT_CANCELLED\<rparr>) = ?P d j c" for c
      by (simp add: wallet_of_def)
    ultimately have "List.find (?P d j) (update_where (\<lambda>c. ct_accountId c = ''a2'') (\<lambda>c. c\<lparr>ct_status := CT_CANCELLED\<rparr>)
        (contracts d) @ [sample_contract\<lparr>ct_id := ''c9''\<rparr>]) = Some c"
      using that by (rule find_appended)
    then show ?thesis by (simp add: busy_others_def)
  qed
  then show ?thesis
    unfolding quiet_def removable_def removed_def w by (auto split: option.splits)
qed

lemma removal_completes_witness:
  "\<exists>s' b'. applyInBackground sample_removal_env busy_others ''b1'' (sample_removals [''c1'']) = (Inr (), s') \<and>
     removal_of ''b1'' s' = Some b' \<and> rb_status b' = RB_COMPLETED \<and> rb_cancelledCount b' = 1 \<and>
     removed (sample_removal [''c1'']) (rm_db s') ''c1''"
  using removal_completes [where e = sample_removal_env and others = busy_others,
      OF sample_removal_rows(1) [where ids = "[''c1'']"]] busy_quiet
  by (simp add: sample_removal_rows) blast

lemma removal_blocked_witness:
  "let s' = removal_attempts sample_removal_env (\<lambda>_ d. d) 3 ''b1'' (sample_removals [''c2'', ''c1''])
   in rm_db s' = sample_db \<and>
     (\<exists>b'. removal_of ''b1'' s' = Some b' \<and> rb_status b' = RB_FAILED \<and> rb_cancelledCount b' = 0)"
  using removal_blocked [where e = sample_removal_env and others = "\<lambda>_ d. d" and k = 3 and j = "''c2''",
      OF sample_removal_rows(1) [where ids = "[''c2'', ''c1'']"] _ _ _ _ _ _ refl]
  by (simp add: sample_removal_rows Let_def eval_nat_numeral)

lemma sample_removal_name: "spreadsheet_name ''l.csv''" by code_simp

lemma sample_checked:
  "\<exists>s'. validateInBackground sample_removal_env ''b1'' (sample_removals []) = (Inr (), s')"
  by (simp add: validateInBackground_def sample_removal_rows Let_def sample_removals_def sample_removal_def removal_of_def
      read_rows_def sample_removal_env_def sample_removal_name split_beta)

lemma checked_list_witness:
  "\<exists>s' b'. validateInBackground sample_removal_env ''b1'' (sample_removals []) = (Inr (), s') \<and>
     removal_of ''b1'' s' = Some b' \<and> rb_status b' = RB_READY"
proof -
  obtain s' where s': "validateInBackground sample_removal_env ''b1'' (sample_removals []) = (Inr (), s')"
    using sample_checked by blast
  from checked_list [OF s' sample_removal_rows(1)] s' show ?thesis
    by (auto simp: sample_removal_rows sample_removal_env_def sample_db_def)
qed

end
