(* ===== verification/PublicDebt.thy ===== *)
theory PublicDebt
  imports Wallets "HOL-Library.AList"
begin

text \<open>
  \<open>payments/public-debt.service.ts\<close> and \<open>payments/public-debt-rate-limit.service.ts\<close>: the pages on which a
  debtor looks up debts by document or opens the temporary link of a message, and asks for a Pix. Nobody is
  signed in here: what protects the data are the document, the token of the link and the counters in Redis.
  The text \<open>summary\<close> of an interaction is not modelled.
\<close>

section \<open>The limit\<close>

type_synonym counters = "(string \<times> nat \<times> int option) list"

datatype public_action = LOOKUP | PIX_REQUEST

definition action_name :: "public_action \<Rightarrow> string" where
  "action_name a = (case a of LOOKUP \<Rightarrow> ''lookup'' | PIX_REQUEST \<Rightarrow> ''pix'')"

definition maxLookups :: nat where
  "maxLookups = 3"

definition maxPixRequests :: nat where
  "maxPixRequests = 3"

definition max_requests :: "public_action \<Rightarrow> nat" where
  "max_requests a = (case a of LOOKUP \<Rightarrow> maxLookups | PIX_REQUEST \<Rightarrow> maxPixRequests)"

definition counter_key :: "(string \<Rightarrow> string) \<Rightarrow> public_action \<Rightarrow> string \<Rightarrow> string \<Rightarrow> string" where
  "counter_key sha a ip document =
     ''public-debts:v2:'' @ action_name a @ '':'' @ sha (ip @ '':'' @ digits_only document)"

definition live_counter :: "int \<Rightarrow> string \<Rightarrow> counters \<Rightarrow> nat \<times> int option" where
  \<comment> \<open>Redis drops a key when its time is over\<close>
  "live_counter now k cs =
     (case map_of cs k of
        None \<Rightarrow> (0, None)
      | Some (n, t) \<Rightarrow> (case t of None \<Rightarrow> (n, t) | Some x \<Rightarrow> if now < x then (n, t) else (0, None)))"

definition consume ::
  "(string \<Rightarrow> string) \<Rightarrow> int \<Rightarrow> public_action \<Rightarrow> string \<Rightarrow> string \<Rightarrow> counters \<Rightarrow> (counters, unit) outcome" where
  \<comment> \<open>\<open>INCR\<close>, \<open>EXPIRE\<close> on the first one, and the comparison\<close>
  "consume sha now a ip document cs =
     (let k = counter_key sha a ip document;
          n = Suc (fst (live_counter now k cs));
          t = (if n = 1 then Some (now + 60 * 1000) else snd (live_counter now k cs));
          cs' = AList.update k (n, t) cs
      in if max_requests a < n then (Inl (TooManyRequests ''Muitas tentativas''), cs') else (Inr (), cs'))"

section \<open>Debts and links\<close>

record access_link =
  pl_id :: string
  pl_token :: string
  pl_accountId :: string
  pl_walletId :: string
  pl_contractId :: string
  pl_interactionId :: "string option"
  pl_expiresAt :: int
  pl_openedAt :: "int option"

record public_store =
  pb_db :: database
  pb_links :: "access_link list"

record public_contract =
  pu_id :: string
  pu_contractNumber :: string
  pu_debtorName :: string
  pu_productName :: "string option"
  pu_dueDate :: "int option"
  pu_amount :: rat
  pu_updatedAmount :: rat
  pu_cobcomDiscountPercent :: rat
  pu_creditor :: "string \<times> string option"

definition normalizeDocument :: "string \<Rightarrow> http_error + string" where
  "normalizeDocument document =
     (let n = digits_only document
      in if length n \<noteq> 11 \<and> length n \<noteq> 14 then Inl (BadRequest ''Informe um CPF ou CNPJ valido.'') else Inr n)"

definition toPublicContract :: "database \<Rightarrow> contract \<Rightarrow> public_contract option" where
  \<comment> \<open>\<open>None\<close>: the required relations do not exist\<close>
  "toPublicContract d c =
     (case (wallet_of d c, creditor_of d c) of
        (Some w, Some cr) \<Rightarrow>
          Some \<lparr>pu_id = ct_id c, pu_contractNumber = ct_contractNumber c, pu_debtorName = ct_debtorName c,
                pu_productName = pr_name (ct_product c), pu_dueDate = ct_dueDate c,
                pu_amount = (case of_value (ct_offer c) of
                   Some v \<Rightarrow> v
                 | None \<Rightarrow> dec2 (ct_updatedValue c * (100 - wl_cobcomDiscountPercent w) / 100)),
                pu_updatedAmount = ct_updatedValue c, pu_cobcomDiscountPercent = wl_cobcomDiscountPercent w,
                pu_creditor = (cr_name cr, cr_cnpj cr)\<rparr>
      | _ \<Rightarrow> None)"

definition live_debt :: "database \<Rightarrow> contract \<Rightarrow> bool" where
  "live_debt d c \<longleftrightarrow> ct_status c = CT_ACTIVE \<and> ct_paymentStatus c \<noteq> PS_PAID \<and> ct_deletedAt c = None \<and>
     0 < ct_updatedValue c \<and>
     (case wallet_of d c of None \<Rightarrow> False | Some w \<Rightarrow> wl_active w \<and> wl_deletedAt w = None)"

definition lookup ::
  "(contract list \<Rightarrow> contract list) \<Rightarrow> string \<Rightarrow> string option \<Rightarrow> string option \<Rightarrow> string option \<Rightarrow> database \<Rightarrow>
    http_error + public_contract list" where
  \<comment> \<open>\<open>order\<close> is the \<open>ORDER BY dueDate\<close>\<close>
  "lookup order document acc contractNumber creditorId d =
     (case normalizeDocument document of
        Inl err \<Rightarrow> Inl err
      | Inr doc \<Rightarrow>
          Inr (List.map_filter (toPublicContract d) (order (filter (\<lambda>c.
            (text_or_null acc = None \<or> Some (ct_accountId c) = acc) \<and>
            (text_or_null contractNumber = None \<or> Some (ct_contractNumber c) = contractNumber) \<and>
            ct_debtorDocument c = doc \<and> live_debt d c \<and>
            (text_or_null creditorId = None \<or> map_option wl_creditorId (wallet_of d c) = creditorId)) (contracts d)))))"

definition linked_contract :: "database \<Rightarrow> access_link \<Rightarrow> contract option" where
  "linked_contract d l = List.find (\<lambda>c. ct_id c = pl_contractId l) (contracts d)"

definition activeAccessLink :: "int \<Rightarrow> string \<Rightarrow> public_store \<Rightarrow> http_error + (access_link \<times> contract)" where
  "activeAccessLink now token s =
     (case List.find (\<lambda>l. pl_token l = token \<and> now < pl_expiresAt l \<and>
              (case linked_contract (pb_db s) l of None \<Rightarrow> False | Some c \<Rightarrow> live_debt (pb_db s) c)) (pb_links s) of
        None \<Rightarrow> Inl (NotFound ''Este link nao e mais valido. Faca uma nova consulta.'')
      | Some l \<Rightarrow>
          (case linked_contract (pb_db s) l of
             None \<Rightarrow> Inl (Internal ''link without contract'')
           | Some c \<Rightarrow> Inr (l, c)))"

definition read_interaction :: "string \<Rightarrow> int \<Rightarrow> database \<Rightarrow> database" where
  "read_interaction i now d =
     d\<lparr>interactions := update_where (\<lambda>x. ia_id x = i) (\<lambda>x. x\<lparr>ia_status := IA_READ, ia_occurredAt := now\<rparr>)
         (interactions d)\<rparr>"

definition openAccessLink ::
  "int \<Rightarrow> string \<Rightarrow> public_store \<Rightarrow> (public_store, public_contract option \<times> int) outcome" where
  "openAccessLink now token s =
     (case activeAccessLink now token s of
        Inl err \<Rightarrow> (Inl err, s)
      | Inr (l, c) \<Rightarrow>
          let fresh = (\<lambda>x. pl_id x = pl_id l \<and> pl_openedAt x = None);
              opened = list_ex fresh (pb_links s);
              d = (case (opened, text_or_null (pl_interactionId l)) of
                     (True, Some i) \<Rightarrow> read_interaction i now (pb_db s)
                   | _ \<Rightarrow> pb_db s)
          in (Inr (toPublicContract (pb_db s) c, pl_expiresAt l),
              s\<lparr>pb_db := d, pb_links := update_where fresh (\<lambda>x. x\<lparr>pl_openedAt := Some now\<rparr>) (pb_links s)\<rparr>))"

definition generatePixFromAccessLink :: "env \<Rightarrow> string \<Rightarrow> public_store \<Rightarrow> (public_store, payment_charge) outcome" where
  "generatePixFromAccessLink e token s =
     (case activeAccessLink (e_now e) token s of
        Inl err \<Rightarrow> (Inl err, s)
      | Inr (l, c) \<Rightarrow>
          (case createPixForContract e (pl_contractId l) (ct_accountId c) plain_pix (pb_db s) of
             (r, d) \<Rightarrow> (r, s\<lparr>pb_db := d\<rparr>)))"

definition getChargeStatusFromAccessLink ::
  "int \<Rightarrow> string \<Rightarrow> string \<Rightarrow> public_store \<Rightarrow> http_error + (charge_status \<times> int option)" where
  "getChargeStatusFromAccessLink now token chargeId s =
     (case activeAccessLink now token s of
        Inl err \<Rightarrow> Inl err
      | Inr (l, c) \<Rightarrow>
          (case List.find (\<lambda>x. ch_id x = chargeId \<and> ch_contractId x = pl_contractId l) (charges (pb_db s)) of
             None \<Rightarrow> Inl (NotFound ''Cobranca nao encontrada.'')
           | Some x \<Rightarrow> Inr (ch_status x, ch_paidAt x)))"

definition generatePix :: "env \<Rightarrow> string \<Rightarrow> string \<Rightarrow> database \<Rightarrow> (database, payment_charge) outcome" where
  "generatePix e contractId document d =
     (case normalizeDocument document of
        Inl err \<Rightarrow> (Inl err, d)
      | Inr doc \<Rightarrow>
          (case List.find (\<lambda>c. ct_id c = contractId \<and> ct_debtorDocument c = doc \<and> live_debt d c) (contracts d) of
             None \<Rightarrow> (Inl (NotFound ''Cobranca nao encontrada. Faca uma nova consulta.''), d)
           | Some c \<Rightarrow> createPixForContract e (ct_id c) (ct_accountId c) plain_pix d))"

definition getChargeStatus :: "string \<Rightarrow> string \<Rightarrow> database \<Rightarrow> http_error + (charge_status \<times> int option)" where
  "getChargeStatus chargeId document d =
     (case normalizeDocument document of
        Inl err \<Rightarrow> Inl err
      | Inr doc \<Rightarrow>
          (case List.find (\<lambda>x. ch_id x = chargeId \<and>
                  list_ex (\<lambda>c. ct_id c = ch_contractId x \<and> ct_debtorDocument c = doc) (contracts d)) (charges d) of
             None \<Rightarrow> Inl (NotFound ''Cobranca nao encontrada.'')
           | Some x \<Rightarrow> Inr (ch_status x, ch_paidAt x)))"

section \<open>What the limit limits\<close>

fun consume_all :: "(string \<Rightarrow> string) \<Rightarrow> public_action \<Rightarrow> (int \<times> string \<times> string) list \<Rightarrow> counters \<Rightarrow> bool list" where
  \<comment> \<open>requests as time, address and document: which of them are admitted\<close>
  "consume_all sha a [] cs = []"
| "consume_all sha a ((now, ip, document) # rs) cs =
     is_ok (consume sha now a ip document cs) # consume_all sha a rs (snd (consume sha now a ip document cs))"

lemma consume_counted:
  assumes "live_counter now (counter_key sha a ip document) cs = (n, t)" and "n = 0 \<or> t = Some x"
    and "n = 0 \<Longrightarrow> x = now + 60000"
  shows "is_ok (consume sha now a ip document cs) = (n < max_requests a)"
    and "map_of (snd (consume sha now a ip document cs)) (counter_key sha a ip document) = Some (Suc n, Some x)"
  using assms by (auto simp: consume_def Let_def is_ok_def update_conv)

lemma consume_other:
  assumes "k \<noteq> counter_key sha a ip document"
  shows "live_counter t k (snd (consume sha now a ip document cs)) = live_counter t k cs"
  using assms by (auto simp: consume_def Let_def live_counter_def update_conv)

lemma consume_run:
  assumes "\<And>r. r \<in> set rs \<Longrightarrow> fst r < x \<and> counter_key sha a (fst (snd r)) (snd (snd r)) = k"
    and "map_of cs k = Some (n, Some x)" and "0 < n"
  shows "consume_all sha a rs cs = map (\<lambda>i. i < max_requests a) [n..<n + length rs]"
  using assms
proof (induction rs arbitrary: cs n)
  case (Cons r rs)
  obtain now ip document where r: "r = (now, ip, document)" by (cases r)
  have at: "now < x" "counter_key sha a ip document = k"
    using Cons.prems(1) [of r] by (simp_all add: r)
  have live: "live_counter now (counter_key sha a ip document) cs = (n, Some x)"
    using Cons.prems(2) at by (simp add: live_counter_def)
  have one: "is_ok (consume sha now a ip document cs) = (n < max_requests a)"
    "map_of (snd (consume sha now a ip document cs)) k = Some (Suc n, Some x)"
    using consume_counted [OF live, where x = x] at(2) Cons.prems(3) by auto
  have "consume_all sha a rs (snd (consume sha now a ip document cs)) =
      map (\<lambda>i. i < max_requests a) [Suc n..<Suc n + length rs]"
    by (rule Cons.IH) (use Cons.prems(1) one(2) in auto)
  with one(1) show ?case by (simp add: r upt_conv_Cons del: upt_Suc)
qed simp

text \<open>
  Within a minute from the first of them, exactly three lookups (and three requests for a Pix) of one
  address for one document are admitted, however the document is punctuated.
\<close>

theorem lookups_bounded:
  assumes "fst (live_counter now (counter_key sha a ip document) cs) = 0"
    and "\<forall>r \<in> set rs. now \<le> fst r \<and> fst r < now + 60000 \<and> fst (snd r) = ip \<and>
      digits_only (snd (snd r)) = digits_only document"
  shows "consume_all sha a ((now, ip, document) # rs) cs = map (\<lambda>i. i < 3) [0..<Suc (length rs)]"
proof -
  let ?k = "counter_key sha a ip document"
  obtain t where "live_counter now ?k cs = (0, t)"
    using assms(1) by (metis prod.collapse)
  from consume_counted [OF this, where x = "now + 60000"]
  have one: "is_ok (consume sha now a ip document cs)"
    "map_of (snd (consume sha now a ip document cs)) ?k = Some (1, Some (now + 60000))"
    by (auto simp: max_requests_def maxLookups_def maxPixRequests_def split: public_action.splits)
  have "consume_all sha a rs (snd (consume sha now a ip document cs)) =
      map (\<lambda>i. i < max_requests a) [1..<1 + length rs]"
    by (rule consume_run [OF _ one(2)]) (use assms(2) in \<open>auto simp: counter_key_def\<close>)
  moreover have "max_requests a = 3"
    by (simp add: max_requests_def maxLookups_def maxPixRequests_def split: public_action.splits)
  ultimately show ?thesis
    using one(1) by (simp add: upt_conv_Cons del: upt_Suc)
qed

text \<open>
  The limit counts per document: whoever tries one document after the other from one address, at
  whatever speed, is never held up.
\<close>

theorem enumeration_unlimited:
  assumes "inj sha" and "distinct (map (\<lambda>r. digits_only (snd (snd r))) rs)" and "\<forall>r \<in> set rs. fst (snd r) = ip"
    and "\<forall>r \<in> set rs. fst (live_counter (fst r) (counter_key sha a ip (snd (snd r))) cs) = 0"
  shows "consume_all sha a rs cs = replicate (length rs) True"
  using assms(2-)
proof (induction rs arbitrary: cs)
  case (Cons r rs)
  obtain now ip' document where r: "r = (now, ip', document)" by (cases r)
  have ip: "ip' = ip" using Cons.prems(2) by (simp add: r)
  have "fst (live_counter now (counter_key sha a ip document) cs) = 0"
    using Cons.prems(3) by (simp add: r)
  then obtain t where "live_counter now (counter_key sha a ip document) cs = (0, t)"
    by (metis prod.collapse)
  from consume_counted(1) [OF this, where x = "now + 60000"]
  have one: "is_ok (consume sha now a ip document cs)"
    by (auto simp: max_requests_def maxLookups_def maxPixRequests_def split: public_action.splits)
  have other: "counter_key sha a ip (snd (snd x)) \<noteq> counter_key sha a ip document" if "x \<in> set rs" for x
    using that Cons.prems(1) assms(1) by (auto simp: r counter_key_def inj_eq image_iff)
  have "consume_all sha a rs (snd (consume sha now a ip document cs)) = replicate (length rs) True"
    by (rule Cons.IH) (use Cons.prems other in \<open>auto simp: consume_other\<close>)
  with one show ?case by (simp add: r ip)
qed simp


section \<open>Debts and their price\<close>

lemma plain_pix_simps [simp]: "po_agreementAmountOnly plain_pix = False" "po_creditorId plain_pix = ''''"
  by (simp_all add: plain_pix_def)

lemma plain_pix_issue:
  assumes "createPixForContract e i acc plain_pix d = (Inr c, d')"
  shows "\<exists>ct w cr g base discount. pix_contract i acc plain_pix d = Some ct \<and> wallet_of d ct = Some w \<and>
    issue_pix e ct w cr acc g base (fst (snd (resolvePixPricing ct w))) discount COBCOM None d = (Inr c, d')"
  using assms unfolding createPixForContract_def pix_contract_def
  by (auto simp: Let_def split: option.splits sum.splits if_splits prod.splits)

lemma existing_pix_amount: "findExistingValidPix e i g amount d = Some c \<Longrightarrow> ch_amount c = amount \<and> ch_contractId c = i"
  unfolding findExistingValidPix_def by (auto dest!: first_desc_SomeD)

lemma plain_pix_amount:
  assumes "createPixForContract e i acc plain_pix d = (Inr c, d')"
  obtains ct w where "pix_contract i acc plain_pix d = Some ct" and "wallet_of d ct = Some w"
    and "ch_contractId c = i" and "ch_amount c \<in> {fst (snd (resolvePixPricing ct w)), dec2 (fst (snd (resolvePixPricing ct w)))}"
    and "charges d' = charges d \<or> charges d' = charges d @ [c]"
proof -
  obtain ct w cr g base discount where ct: "pix_contract i acc plain_pix d = Some ct" "wallet_of d ct = Some w"
    and issue: "issue_pix e ct w cr acc g base (fst (snd (resolvePixPricing ct w))) discount COBCOM None d = (Inr c, d')"
    using plain_pix_issue [OF assms] by blast
  have "ct_id ct = i" using pix_contract_SomeD [OF ct(1)] by simp
  with issue_pix_cases [OF issue] ct show ?thesis
    by (intro that [of ct w]) (auto simp: refused_def charge_outcome_def dest!: existing_pix_amount)
qed

lemma lookup_row:
  assumes "lookup order document acc contractNumber creditorId d = Inr xs" and "x \<in> set xs"
    and "\<And>cs. set (order cs) = set cs"
  obtains c where "c \<in> set (contracts d)" and "ct_debtorDocument c = digits_only document" and "live_debt d c"
    and "toPublicContract d c = Some x"
  using assms
  by (auto simp: lookup_def normalizeDocument_def Let_def List.map_filter_def split: sum.splits if_splits)

lemma public_amount:
  assumes "toPublicContract d c = Some x" and "wallet_of d c = Some w"
  shows "pu_id x = ct_id c" and "pu_amount x = fst (snd (resolvePixPricing c w))"
  using assms by (auto simp: toPublicContract_def resolvePixPricing_def Let_def split: option.splits)

text \<open>
  C36. Whatever the lookup shows is a live, unpaid debt of that document, and the Pix that the page then asks
  for is charged at exactly the amount that was shown.
\<close>

theorem public_price:
  assumes "lookup order document acc contractNumber creditorId d = Inr xs" and "x \<in> set xs"
    and "\<forall>cs. set (order cs) = set cs" and "distinct (map ct_id (contracts d))"
    and "\<forall>c \<in> set (contracts d). \<forall>v. of_value (ct_offer c) = Some v \<longrightarrow> dec2 v = v"
    and "generatePix e (pu_id x) document d = (Inr ch, d')"
  shows "ch_amount ch = pu_amount x \<and> ch_contractId ch = pu_id x \<and>
    (\<exists>c \<in> set (contracts d). ct_id c = pu_id x \<and> ct_debtorDocument c = digits_only document \<and> live_debt d c)"
proof -
  have order: "\<And>cs. set (order cs) = set cs" using assms(3) by blast
  obtain c where c: "c \<in> set (contracts d)" "ct_debtorDocument c = digits_only document" "live_debt d c"
      "toPublicContract d c = Some x"
    by (rule lookup_row [OF assms(1,2) order])
  have id: "ct_id c = pu_id x" using c(4) by (auto simp: toPublicContract_def split: option.splits)
  obtain c' where run: "createPixForContract e (ct_id c') (ct_accountId c') plain_pix d = (Inr ch, d')"
    and c': "c' \<in> set (contracts d)" "ct_id c' = pu_id x"
    using assms(6) by (auto simp: generatePix_def split: sum.splits option.splits dest!: find_SomeD)
  obtain ct w where ct: "pix_contract (ct_id c') (ct_accountId c') plain_pix d = Some ct" "wallet_of d ct = Some w"
      "ch_contractId ch = ct_id c'"
      "ch_amount ch \<in> {fst (snd (resolvePixPricing ct w)), dec2 (fst (snd (resolvePixPricing ct w)))}"
    by (rule plain_pix_amount [OF run])
  have "ct \<in> set (contracts d)" "ct_id ct = pu_id x"
    using pix_contract_SomeD [OF ct(1)] c'(2) by (auto simp: pix_contract_def)
  then have "ct = c" using same_key [OF assms(4) _ c(1)] id by simp
  moreover have "dec2 (fst (snd (resolvePixPricing c w))) = fst (snd (resolvePixPricing c w))"
    using assms(5) c(1) by (auto simp: resolvePixPricing_def Let_def split: option.splits)
  ultimately show ?thesis
    using ct c id c'(2) public_amount(2) [OF c(4)] by auto
qed

section \<open>Links\<close>

lemma active_linkD:
  assumes "activeAccessLink now token s = Inr (l, c)"
  shows "l \<in> set (pb_links s)" and "pl_token l = token" and "now < pl_expiresAt l"
    and "linked_contract (pb_db s) l = Some c" and "live_debt (pb_db s) c"
  using assms by (auto simp: activeAccessLink_def split: option.splits dest!: find_SomeD)

text \<open>
  The debtor's page asks for the state of its charge through the link. As soon as the payment has
  made the contract paid the link counts as expired: the page is never told that the charge was paid.
\<close>

theorem paid_link_hides_status:
  assumes "\<forall>l \<in> set (pb_links s). pl_token l = token \<longrightarrow>
      (\<forall>c. linked_contract (pb_db s) l = Some c \<longrightarrow> ct_paymentStatus c = PS_PAID)"
  shows "getChargeStatusFromAccessLink now token chargeId s =
    Inl (NotFound ''Este link nao e mais valido. Faca uma nova consulta.'')"
proof -
  have "List.find (\<lambda>l. pl_token l = token \<and> now < pl_expiresAt l \<and>
      (case linked_contract (pb_db s) l of None \<Rightarrow> False | Some c \<Rightarrow> live_debt (pb_db s) c)) (pb_links s) = None"
    using assms by (auto simp: find_None_iff live_debt_def split: option.splits)
  then show ?thesis by (simp add: getChargeStatusFromAccessLink_def activeAccessLink_def)
qed

lemma link_pix_confined:
  assumes "generatePixFromAccessLink e token s = (Inr ch, s')"
  obtains l c where "l \<in> set (pb_links s)" and "pl_token l = token" and "e_now e < pl_expiresAt l"
    and "linked_contract (pb_db s) l = Some c" and "live_debt (pb_db s) c" and "ch_contractId ch = pl_contractId l"
    and "pb_links s' = pb_links s"
proof -
  obtain l c where active: "activeAccessLink (e_now e) token s = Inr (l, c)"
    using assms by (auto simp: generatePixFromAccessLink_def split: sum.splits)
  obtain d where run: "createPixForContract e (pl_contractId l) (ct_accountId c) plain_pix (pb_db s) = (Inr ch, d)"
    and s': "s' = s\<lparr>pb_db := d\<rparr>"
    using assms active by (auto simp: generatePixFromAccessLink_def split: prod.splits)
  have "ch_contractId ch = pl_contractId l" by (rule plain_pix_amount [OF run])
  with active_linkD [OF active] s' show ?thesis by (intro that) auto
qed

lemma opened_once:
  assumes "openAccessLink now token s = (Inr r, s1)" and "distinct (map pl_token (pb_links s))"
  shows "snd (openAccessLink now2 token s1) = s1"
proof -
  obtain l c where active: "activeAccessLink now token s = Inr (l, c)"
    using assms(1) by (auto simp: openAccessLink_def split: sum.splits)
  let ?f = "\<lambda>x. x\<lparr>pl_openedAt := Some now\<rparr>" and ?P = "\<lambda>x. pl_id x = pl_id l \<and> pl_openedAt x = None"
  have links: "pb_links s1 = update_where ?P ?f (pb_links s)"
    using assms(1) active by (auto simp: openAccessLink_def Let_def)
  show ?thesis
  proof (cases "activeAccessLink now2 token s1")
    case (Inr a)
    obtain l2 c2 where a: "a = (l2, c2)" by (cases a)
    from active_linkD(1,2) [OF Inr [unfolded a]] obtain l0 where l0: "l0 \<in> set (pb_links s)" "pl_token l0 = token"
        "pl_id l2 = pl_id l0"
      by (auto simp: links in_update_where)
    have "l0 = l" using same_key [OF assms(2) l0(1) active_linkD(1) [OF active]] l0(2) active_linkD(2) [OF active] by simp
    then have none: "\<not> (pl_id x = pl_id l2 \<and> pl_openedAt x = None)" if "x \<in> set (pb_links s1)" for x
      using that l0(3) by (auto simp: links in_update_where)
    then have "\<not> list_ex (\<lambda>x. pl_id x = pl_id l2 \<and> pl_openedAt x = None) (pb_links s1)"
      by (auto simp: list_ex_iff)
    moreover have "update_where (\<lambda>x. pl_id x = pl_id l2 \<and> pl_openedAt x = None) (\<lambda>x. x\<lparr>pl_openedAt := Some now2\<rparr>)
        (pb_links s1) = pb_links s1"
      by (rule update_where_none) (rule none)
    ultimately show ?thesis using Inr by (simp add: openAccessLink_def a Let_def)
  qed (simp add: openAccessLink_def)
qed

section \<open>Sample requests\<close>

lemma lookups_bounded_witness:
  "consume_all id LOOKUP [(0, ''ip'', ''1.1''), (10, ''ip'', ''11''), (20, ''ip'', ''1-1''), (30, ''ip'', ''11'')] [] =
    [True, True, True, False]"
  using lookups_bounded [where now = 0 and sha = id and a = LOOKUP and ip = "''ip''" and document = "''1.1''"
      and cs = "[]" and rs = "[(10, ''ip'', ''11''), (20, ''ip'', ''1-1''), (30, ''ip'', ''11'')]"]
  by (simp add: live_counter_def digits_only_def is_digit_def code_def upt_rec)

lemma enumeration_unlimited_witness:
  "consume_all id LOOKUP [(0, ''ip'', ''1''), (0, ''ip'', ''2''), (0, ''ip'', ''3''), (0, ''ip'', ''4'')] [] =
    [True, True, True, True]"
  using enumeration_unlimited [where sha = id and a = LOOKUP and ip = "''ip''" and cs = "[]"
      and rs = "[(0, ''ip'', ''1''), (0, ''ip'', ''2''), (0, ''ip'', ''3''), (0, ''ip'', ''4'')]"]
  by (simp add: live_counter_def digits_only_def is_digit_def code_def)

definition sample_public :: "int option \<Rightarrow> contract \<Rightarrow> public_store" where
  "sample_public opened c =
     \<lparr>pb_db = sample_db\<lparr>contracts := [c]\<rparr>,
      pb_links = [\<lparr>pl_id = ''l1'', pl_token = ''t1'', pl_accountId = ''a1'', pl_walletId = ''w1'',
        pl_contractId = ''c1'', pl_interactionId = None, pl_expiresAt = 9000, pl_openedAt = opened\<rparr>]\<rparr>"

lemma paid_link_hides_status_witness:
  "getChargeStatusFromAccessLink 0 ''t1'' ''ch1'' (sample_public None (sample_contract\<lparr>ct_paymentStatus := PS_PAID\<rparr>)) =
    Inl (NotFound ''Este link nao e mais valido. Faca uma nova consulta.'')"
  using paid_link_hides_status [where s = "sample_public None (sample_contract\<lparr>ct_paymentStatus := PS_PAID\<rparr>)"
      and token = "''t1''" and now = 0 and chargeId = "''ch1''"]
  by (simp add: sample_public_def linked_contract_def sample_contract_def)

lemma sample_cpf_digits: "digits_only ''529.982.247-25'' = ''52998224725''" by code_simp

definition sample_shown :: public_contract where
  "sample_shown =
     \<lparr>pu_id = ''c1'', pu_contractNumber = ''n1'', pu_debtorName = ''Ana'', pu_productName = None, pu_dueDate = None,
      pu_amount = 108, pu_updatedAmount = 120, pu_cobcomDiscountPercent = 10, pu_creditor = (''Credor'', None)\<rparr>"

lemma sample_lookup: "lookup id ''529.982.247-25'' None None None sample_db = Inr [sample_shown]"
  by (simp add: lookup_def normalizeDocument_def sample_cpf_digits Let_def live_debt_def text_or_null_def
      wallet_of_def sample_db_def sample_contract_def List.map_filter_def toPublicContract_def creditor_of_def
      sample_shown_def dec2_108)

lemma sample_public_pix: "is_ok (generatePix sample_ok ''c1'' ''529.982.247-25'' sample_db)"
proof -
  have "generatePix sample_ok ''c1'' ''529.982.247-25'' sample_db =
      createPixForContract sample_ok ''c1'' ''a1'' plain_pix sample_db"
    by (simp add: generatePix_def normalizeDocument_def sample_cpf_digits Let_def live_debt_def
        wallet_of_def sample_db_def sample_contract_def)
  then show ?thesis using sample_pix_ok by simp
qed

lemma public_price_witness:
  "\<exists>ch d'. generatePix sample_ok ''c1'' ''529.982.247-25'' sample_db = (Inr ch, d') \<and> ch_amount ch = 108"
proof -
  have id: "''c1'' = pu_id sample_shown" by (simp add: sample_shown_def)
  obtain ch d' where run: "generatePix sample_ok ''c1'' ''529.982.247-25'' sample_db = (Inr ch, d')"
    using sample_public_pix by (auto simp: is_ok_def split: sum.splits)
      (metis prod.collapse)
  from public_price [OF sample_lookup _ _ _ _ run [unfolded id]] have "ch_amount ch = pu_amount sample_shown"
    by (simp add: sample_db_def sample_contract_def)
  with run show ?thesis by (simp add: sample_shown_def)
qed

end
