(* ===== verification/Speech.thy ===== *)
theory Speech
  imports Wallets ImportLines JsValues
begin

text \<open>
  What the voice agent of LigueLead is given to say (\<open>liguelead/liguelead.service.ts\<close>): numbers and amounts in
  words, and the private context of a call. Texts are written in ASCII, one character for each of the
  original, so that lengths agree. Amounts are not negative.
\<close>

section \<open>Numbers in words\<close>

definition units :: "string list" where
  "units = [''zero'', ''um'', ''dois'', ''tres'', ''quatro'', ''cinco'', ''seis'', ''sete'', ''oito'', ''nove'']"

definition teens :: "string list" where
  "teens = [''dez'', ''onze'', ''doze'', ''treze'', ''quatorze'', ''quinze'', ''dezesseis'', ''dezessete'', ''dezoito'',
     ''dezenove'']"

definition tens :: "string list" where
  "tens = ['''', '''', ''vinte'', ''trinta'', ''quarenta'', ''cinquenta'', ''sessenta'', ''setenta'', ''oitenta'', ''noventa'']"

definition hundreds :: "string list" where
  "hundreds = ['''', ''cento'', ''duzentos'', ''trezentos'', ''quatrocentos'', ''quinhentos'', ''seiscentos'', ''setecentos'',
     ''oitocentos'', ''novecentos'']"

fun join_with :: "string \<Rightarrow> string list \<Rightarrow> string" where
  "join_with sep [] = ''''"
| "join_with sep [x] = x"
| "join_with sep (x # y # zs) = x @ sep @ join_with sep (y # zs)"

definition below_hundred :: "nat \<Rightarrow> string list" where
  "below_hundred r =
     (if 20 \<le> r then tens ! (r div 10) # (if r mod 10 \<noteq> 0 then [units ! (r mod 10)] else [])
      else if 10 \<le> r then [teens ! (r - 10)]
      else if r \<noteq> 0 then [units ! r] else [])"

definition below_thousand_parts :: "nat \<Rightarrow> string list" where
  "below_thousand_parts n = (if 100 \<le> n then [hundreds ! (n div 100)] else []) @ below_hundred (n mod 100)"

definition belowThousand :: "nat \<Rightarrow> string" where
  "belowThousand n = (if n = 100 then ''cem'' else join_with '' e '' (below_thousand_parts n))"

definition format_number :: "nat \<Rightarrow> string" where
  \<comment> \<open>\<open>Intl.NumberFormat('pt-BR')\<close> on a whole number\<close>
  "format_number n = rev (group_rev (rev (show_nat n)))"

definition numberInWords :: "nat \<Rightarrow> string" where
  "numberInWords value =
     (if value = 0 then ''zero''
      else if value < 1000 then belowThousand value
      else if value < 1000000 then
        (let thousands = value div 1000; remainder = value mod 1000;
             prefix = (if thousands = 1 then ''mil'' else belowThousand thousands @ '' mil'')
         in if remainder \<noteq> 0 then prefix @ '' e '' @ belowThousand remainder else prefix)
      else format_number value)"

definition currencyInWords :: "rat \<Rightarrow> string" where
  "currencyInWords value =
     (let totalCents = nat (js_round (value * 100)); reais = totalCents div 100; centavos = totalCents mod 100;
          result = numberInWords reais @ '' '' @ (if reais = 1 then ''real'' else ''reais'')
      in if centavos \<noteq> 0
         then result @ '' e '' @ numberInWords centavos @ '' '' @ (if centavos = 1 then ''centavo'' else ''centavos'')
         else result)"

definition digitsInWords :: "string \<Rightarrow> string" where
  "digitsInWords value = join_with '' '' (map (\<lambda>c. units ! digit_val c) (digits_only value))"

definition spellDigits :: "string \<Rightarrow> string" where
  "spellDigits value = join_with '' '' (map (\<lambda>c. [c]) (digits_only value))"

section \<open>The context of a call\<close>

fun collapse_spaces :: "bool \<Rightarrow> string \<Rightarrow> string" where
  \<comment> \<open>\<open>replace(/\s+/g, ' ')\<close>; the flag: the character before was white space\<close>
  "collapse_spaces b [] = []"
| "collapse_spaces b (c # cs) =
     (if is_space c then (if b then collapse_spaces True cs else CHR '' '' # collapse_spaces True cs)
      else c # collapse_spaces False cs)"

definition format_percent :: "rat \<Rightarrow> string" where
  \<comment> \<open>\<open>maximumFractionDigits: 2\<close>\<close>
  "format_percent x =
     (let k = nat (js_round (x * 100)); f = k mod 100
      in format_number (k div 100) @
         (if f = 0 then '''' else '','' @ [digit_char (f div 10)] @ (if f mod 10 = 0 then '''' else [digit_char (f mod 10)])))"

definition named_or :: "string option \<Rightarrow> string \<Rightarrow> string" where
  \<comment> \<open>\<open>x?.trim() || y\<close>\<close>
  "named_or x y = (case x of None \<Rightarrow> y | Some s \<Rightarrow> if trim s = '''' then y else trim s)"

definition discountSpeech :: "contract \<Rightarrow> string" where
  "discountSpeech c =
     (let p = or_else (of_discountPercent (ct_offer c)) 0
      in (if p = of_int \<lfloor>p\<rfloor> then numberInWords (nat \<lfloor>p\<rfloor>) else format_percent p) @ '' por cento'')"

definition offer_phrase :: "contract \<Rightarrow> string" where
  "offer_phrase c =
     ''FRASE PRONTA DA OFERTA - leia integralmente, sem pausar nem alterar: `A pendencia e referente ao contrato '' @
     digitsInWords (ct_contractNumber c) @ ''. O valor total da divida e '' @ currencyInWords (ct_updatedValue c) @
     ''. Com desconto de '' @ discountSpeech c @ '', sua oferta a vista e '' @
     currencyInWords (or_else (of_value (ct_offer c)) (ct_updatedValue c)) @
     ''. Voce tem interesse em receber por SMS um link para pagamento?`''"

definition identity_rule :: "string \<Rightarrow> string" where
  "identity_rule document =
     ''Confirmacao de identidade: peca somente os quatro primeiros digitos do CPF. Valor esperado internamente: '' @
     spellDigits (take 4 document) @
     ''. Nunca peca, informe ou repita o CPF completo. So revele detalhes apos a coincidencia; apos duas tentativas incorretas, encerre sem revelar informacoes.''"

definition optional_detail :: "string \<Rightarrow> string option \<Rightarrow> string list" where
  \<comment> \<open>\<open>x?.trim() ? label + x.trim() : null\<close>, after \<open>filter(Boolean)\<close>\<close>
  "optional_detail label x = (case x of None \<Rightarrow> [] | Some s \<Rightarrow> if trim s = '''' then [] else [label @ trim s])"

definition call_details :: "(int \<Rightarrow> string) \<Rightarrow> contract \<Rightarrow> string option \<Rightarrow> string option \<Rightarrow> string list" where
  \<comment> \<open>all but the last; \<open>day\<close> formats a date\<close>
  "call_details day c creditorName instruction =
     [''CONTEXTO PRIVADO DO CONTRATO. Use os dados abaixo somente nesta ligacao.'',
      ''Credor: '' @ named_or creditorName ''nao informado'',
      ''Titular: '' @ named_or (Some (ct_debtorName c)) ''nao informado'',
      ''NUMERO DO CONTRATO POR EXTENSO: '' @ digitsInWords (ct_contractNumber c),
      ''VALOR TOTAL DA DIVIDA POR EXTENSO: '' @ currencyInWords (ct_updatedValue c),
      ''PERCENTUAL DE DESCONTO POR EXTENSO: '' @ discountSpeech c,
      ''OFERTA A VISTA POR EXTENSO: '' @ currencyInWords (or_else (of_value (ct_offer c)) (ct_updatedValue c)),
      offer_phrase c,
      ''Vencimento: '' @ (case ct_dueDate c of None \<Rightarrow> ''nao informada'' | Some t \<Rightarrow> day t)] @
     optional_detail ''Origem: '' (pr_debtOrigin (ct_product c)) @
     optional_detail ''Produto ou servico: '' (pr_name (ct_product c)) @
     optional_detail ''INSTRUCAO DESTA CAMPANHA: '' instruction"

definition callContext :: "(int \<Rightarrow> string) \<Rightarrow> contract \<Rightarrow> string option \<Rightarrow> string option \<Rightarrow> string" where
  "callContext day c creditorName instruction =
     take 1500 (trim (collapse_spaces False (join_with ''; ''
       (call_details day c creditorName instruction @ [identity_rule (ct_debtorDocument c)]))))"

section \<open>What is heard\<close>

fun split_words :: "string \<Rightarrow> string \<Rightarrow> string list" where
  \<comment> \<open>the words of a text; the first argument is the word begun, reversed\<close>
  "split_words w [] = [rev w]"
| "split_words w (c # cs) = (if c = CHR '' '' then rev w # split_words [] cs else split_words (c # w) cs)"

definition number_words :: "(string \<times> nat) list" where
  "number_words = zip units [0..<10] @ zip teens [10..<20] @ zip (drop 2 tens) (map (\<lambda>k. 10 * k) [2..<10]) @
     [(''cem'', 100)] @ zip (tl hundreds) (map (\<lambda>k. 100 * k) [1..<10])"

definition word_value :: "string \<Rightarrow> nat" where
  \<comment> \<open>a word that holds digits is a numeral with points between its groups\<close>
  "word_value w =
     (if list_ex is_digit w then read_digits 0 (digits_only w) else or_else (map_of number_words w) 0)"

definition hear_word :: "nat \<Rightarrow> string \<Rightarrow> nat" where
  "hear_word n w = (if w = ''mil'' then (if n = 0 then 1000 else n * 1000) else n + word_value w)"

definition heard_number :: "string \<Rightarrow> nat" where
  \<comment> \<open>the number a listener makes of the words\<close>
  "heard_number s = foldl hear_word 0 (split_words [] s)"

definition money_word :: "string \<Rightarrow> bool" where
  "money_word w \<longleftrightarrow> w = ''real'' \<or> w = ''reais''"

definition heard_cents :: "string \<Rightarrow> nat" where
  "heard_cents s =
     (let ws = split_words [] s
      in 100 * foldl hear_word 0 (takeWhile (\<lambda>w. \<not> money_word w) ws) +
         foldl hear_word 0 (tl (dropWhile (\<lambda>w. \<not> money_word w) ws)))"

lemma split_append:
  "list_all (\<lambda>c. c \<noteq> CHR '' '') x \<Longrightarrow> split_words w (x @ CHR '' '' # s) = (rev w @ x) # split_words [] s"
  by (induction x arbitrary: w) auto

lemma split_plain: "list_all (\<lambda>c. c \<noteq> CHR '' '') x \<Longrightarrow> split_words w x = [rev w @ x]"
  by (induction x arbitrary: w) auto

definition plain_word :: "string \<Rightarrow> bool" where
  "plain_word w \<longleftrightarrow> list_all (\<lambda>c. c \<noteq> CHR '' '') w \<and> w \<noteq> ''mil'' \<and> \<not> money_word w"

fun e_between :: "string list \<Rightarrow> string list" where
  "e_between [] = []"
| "e_between [x] = [x]"
| "e_between (x # y # zs) = x # ''e'' # e_between (y # zs)"

lemma split_join_then:
  "list_all plain_word ws \<Longrightarrow> ws \<noteq> [] \<Longrightarrow>
    split_words [] (join_with '' e '' ws @ CHR '' '' # s) = e_between ws @ split_words [] s"
  by (induction ws rule: e_between.induct) (auto simp: plain_word_def split_append)

lemma split_join: "list_all plain_word ws \<Longrightarrow> ws \<noteq> [] \<Longrightarrow> split_words [] (join_with '' e '' ws) = e_between ws"
  by (induction ws rule: e_between.induct) (auto simp: plain_word_def split_append split_plain)


section \<open>Facts\<close>

definition below_words :: "nat \<Rightarrow> string list" where
  "below_words n = (if n = 100 then [''cem''] else below_thousand_parts n)"

lemma word_units:
  "list_all (\<lambda>k. plain_word (units ! k) \<and> word_value (units ! k) = k) [0, 1, 2, 3, 4, 5, 6, 7, 8, 9]"
  by code_simp

lemma word_teens:
  "list_all (\<lambda>k. plain_word (teens ! k) \<and> word_value (teens ! k) = 10 + k) [0, 1, 2, 3, 4, 5, 6, 7, 8, 9]"
  by code_simp

lemma word_tens:
  "list_all (\<lambda>k. plain_word (tens ! k) \<and> word_value (tens ! k) = 10 * k) [2, 3, 4, 5, 6, 7, 8, 9]"
  by code_simp

lemma word_hundreds:
  "list_all (\<lambda>k. plain_word (hundreds ! k) \<and> word_value (hundreds ! k) = 100 * k) [1, 2, 3, 4, 5, 6, 7, 8, 9]"
  by code_simp

lemma digit_in: "(k :: nat) < 10 \<Longrightarrow> k \<in> set [0, 1, 2, 3, 4, 5, 6, 7, 8, 9]"
  by (auto simp: eval_nat_numeral less_Suc_eq)

lemma words_below_hundred:
  assumes "r < 100"
  shows "list_all plain_word (below_hundred r) \<and> sum_list (map word_value (below_hundred r)) = r \<and>
    (below_hundred r = []) = (r = 0)"
proof -
  have u: "plain_word (units ! k) \<and> word_value (units ! k) = k" if "k < 10" for k
    using word_units digit_in [OF that] unfolding list_all_iff by blast
  have t: "plain_word (teens ! k) \<and> word_value (teens ! k) = 10 + k" if "k < 10" for k
    using word_teens digit_in [OF that] unfolding list_all_iff by blast
  have d: "plain_word (tens ! (r div 10)) \<and> word_value (tens ! (r div 10)) = 10 * (r div 10)" if "20 \<le> r"
  proof -
    have "2 \<le> r div 10 \<and> r div 10 < 10" using that assms by presburger
    then have "r div 10 \<in> set [2, 3, 4, 5, 6, 7, 8, 9]" using digit_in [of "r div 10"] by auto
    then show ?thesis using word_tens unfolding list_all_iff by blast
  qed
  consider "20 \<le> r" | "10 \<le> r" "r < 20" | "r < 10" by linarith
  then show ?thesis
  proof cases
    case 1
    have "r div 10 * 10 + r mod 10 = r" by (rule div_mult_mod_eq)
    then have sum: "10 * (r div 10) + r mod 10 = r" by (simp only: mult.commute)
    show ?thesis
    proof (cases "r mod 10 = 0")
      case True
      then show ?thesis using 1 d sum by (simp add: below_hundred_def)
    next
      case False
      have "r mod 10 < 10" by simp
      from u [OF this] False show ?thesis using 1 d sum by (simp add: below_hundred_def)
    qed
  next
    case 2
    then show ?thesis using t [of "r - 10"] by (simp add: below_hundred_def)
  next
    case 3
    then show ?thesis using u [of r] by (simp add: below_hundred_def)
  qed
qed

lemma words_hundreds:
  assumes "0 < k" and "k < 10"
  shows "plain_word (hundreds ! k) \<and> word_value (hundreds ! k) = 100 * k"
proof -
  have "k \<in> set [1, 2, 3, 4, 5, 6, 7, 8, 9]" using assms digit_in [of k] by auto
  then show ?thesis using word_hundreds unfolding list_all_iff by blast
qed

lemma word_zero: "word_value ''e'' = 0" "word_value ''mil'' = 0" "word_value ''centavo'' = 0" "word_value ''centavos'' = 0"
    "word_value ''cem'' = 100" "word_value ''zero'' = 0" "plain_word ''cem''" "plain_word ''zero''"
  by code_simp+

lemma below_words_facts:
  assumes "0 < n" and "n < 1000"
  shows "list_all plain_word (below_words n)" and "sum_list (map word_value (below_words n)) = n" and "below_words n \<noteq> []"
proof -
  have r: "list_all plain_word (below_hundred (n mod 100)) \<and> sum_list (map word_value (below_hundred (n mod 100))) = n mod 100 \<and>
      (below_hundred (n mod 100) = []) = (n mod 100 = 0)"
    by (rule words_below_hundred) simp
  have h: "plain_word (hundreds ! (n div 100)) \<and> word_value (hundreds ! (n div 100)) = 100 * (n div 100)" if "100 \<le> n"
    using that assms(2) by (intro words_hundreds) (simp_all add: div_greater_zero_iff less_mult_imp_div_less)
  have "list_all plain_word (below_words n) \<and> sum_list (map word_value (below_words n)) = n \<and> below_words n \<noteq> []"
  proof (cases "n < 100 \<or> n = 100")
    case True
    then show ?thesis
      using words_below_hundred [of n] assms(1) by (auto simp: below_words_def below_thousand_parts_def word_zero)
  next
    case False
    then have words: "below_words n = hundreds ! (n div 100) # below_hundred (n mod 100)"
      by (simp add: below_words_def below_thousand_parts_def)
    have "n div 100 * 100 + n mod 100 = n" by (rule div_mult_mod_eq)
    then have "100 * (n div 100) + n mod 100 = n" by (simp only: mult.commute)
    then show ?thesis using r h False unfolding words by simp
  qed
  then show "list_all plain_word (below_words n)" and "sum_list (map word_value (below_words n)) = n" and "below_words n \<noteq> []"
    by blast+
qed

lemma belowThousand_words:
  assumes "0 < n" and "n < 1000"
  shows "split_words [] (belowThousand n @ CHR '' '' # s) = e_between (below_words n) @ split_words [] s"
    and "split_words [] (belowThousand n) = e_between (below_words n)"
proof -
  have "belowThousand n = join_with '' e '' (below_words n)"
    by (simp add: belowThousand_def below_words_def)
  then show "split_words [] (belowThousand n @ CHR '' '' # s) = e_between (below_words n) @ split_words [] s"
    and "split_words [] (belowThousand n) = e_between (below_words n)"
    using below_words_facts [OF assms] by (simp_all add: split_join_then split_join)
qed

lemma hear_plain: "list_all plain_word ws \<Longrightarrow> foldl hear_word a (e_between ws) = a + sum_list (map word_value ws)"
  by (induction ws arbitrary: a rule: e_between.induct) (simp_all add: hear_word_def plain_word_def word_zero)

lemma hear_below: "0 < n \<Longrightarrow> n < 1000 \<Longrightarrow> foldl hear_word a (e_between (below_words n)) = a + n"
  by (simp add: hear_plain below_words_facts)

definition spoken_words :: "nat \<Rightarrow> string list" where
  "spoken_words n =
     (if n = 0 then [''zero'']
      else if n < 1000 then e_between (below_words n)
      else if 1000000 \<le> n then [format_number n]
      else (if n div 1000 = 1 then [''mil''] else e_between (below_words (n div 1000)) @ [''mil'']) @
           (if n mod 1000 \<noteq> 0 then ''e'' # e_between (below_words (n mod 1000)) else []))"

lemma split_mil: "split_words [] (''mil'' @ CHR '' '' # s) = ''mil'' # split_words [] s" "split_words [] ''mil'' = [''mil'']"
    "split_words [] (''e'' @ CHR '' '' # s) = ''e'' # split_words [] s"
  by simp_all

lemma format_number_text:
  shows "list_all (\<lambda>c. is_digit c \<or> is_sep c) (format_number n)" and "digits_only (format_number n) = show_nat n"
    and "list_ex is_digit (format_number n)"
proof -
  have all: "is_digit c \<or> is_sep c" if "c \<in> set (format_number n)" for c
    using that group_rev_chars [of "rev (show_nat n)" c] show_nat_digits by (auto simp: format_number_def)
  then show "list_all (\<lambda>c. is_digit c \<or> is_sep c) (format_number n)" by (simp add: list_all_iff)
  have "digits_only (format_number n) = filter (\<lambda>c. \<not> is_sep c) (format_number n)"
    unfolding digits_only_def using all by (intro filter_cong refl) auto
  also have "\<dots> = show_nat n"
    using show_nat_digits by (simp add: format_number_def group_rev_strip rev_filter [symmetric] filter_id_conv)
  finally show digits: "digits_only (format_number n) = show_nat n" .
  have "filter is_digit (format_number n) \<noteq> []" using digits by (simp add: digits_only_def)
  then show "list_ex is_digit (format_number n)" by (auto simp: list_ex_iff filter_empty_conv)
qed

lemma numeral_word: "word_value (format_number n) = n" "plain_word (format_number n)"
proof -
  show "word_value (format_number n) = n" by (simp add: word_value_def format_number_text)
  have ns: "c \<noteq> CHR '' ''" if "is_digit c \<or> is_sep c" for c
    using that by (auto simp: is_digit_def is_sep_def code_def)
  have letters: "\<not> is_digit (CHR ''m'')" "\<not> is_digit (CHR ''r'')" "\<not> is_sep (CHR ''m'')" "\<not> is_sep (CHR ''r'')"
    by (simp_all add: is_digit_def is_sep_def code_def)
  have "format_number n \<noteq> CHR ''m'' # u" "format_number n \<noteq> CHR ''r'' # u" for u
    using format_number_text(1) [of n] letters by auto
  moreover have "list_all (\<lambda>c. c \<noteq> CHR '' '') (format_number n)"
    using format_number_text(1) [of n] by (rule list.pred_mono_strong) (use ns in blast)
  ultimately show "plain_word (format_number n)" by (simp add: plain_word_def money_word_def)
qed

lemma split_number:
  "split_words [] (numberInWords n @ CHR '' '' # s) = spoken_words n @ split_words [] s"
  "split_words [] (numberInWords n) = spoken_words n"
proof -
  have t: "0 < n div 1000 \<and> n div 1000 < 1000" if "1000 \<le> n" "n < 1000000"
    using that by (simp add: div_greater_zero_iff less_mult_imp_div_less)
  have r: "n mod 1000 < 1000" by simp
  have f: "list_all (\<lambda>c. c \<noteq> CHR '' '') (format_number n)" using numeral_word(2) by (simp add: plain_word_def)
  show "split_words [] (numberInWords n @ CHR '' '' # s) = spoken_words n @ split_words [] s"
    using t r split_append [OF f, of "[]"] by (auto simp: numberInWords_def spoken_words_def Let_def belowThousand_words)
  show "split_words [] (numberInWords n) = spoken_words n"
    using t r split_plain [OF f, of "[]"] by (auto simp: numberInWords_def spoken_words_def Let_def belowThousand_words)
qed

lemma hear_number: "foldl hear_word 0 (spoken_words n) = n"
proof -
  have t: "0 < n div 1000 \<and> n div 1000 < 1000" if "1000 \<le> n" "n < 1000000"
    using that by (simp add: div_greater_zero_iff less_mult_imp_div_less)
  have one: "1000 + n mod 1000 = n" if "n div 1000 = Suc 0"
    using div_mult_mod_eq [of n 1000] by (simp add: that)
  have mil: "hear_word m ''mil'' = (if m = 0 then 1000 else m * 1000)" for m
    by (simp add: hear_word_def)
  have e: "hear_word m ''e'' = m" for m by (simp add: hear_word_def word_zero)
  have zero: "hear_word 0 ''zero'' = 0" by (simp add: hear_word_def word_zero)
  have "format_number n \<noteq> ''mil''" using numeral_word(2) [of n] by (simp add: plain_word_def)
  then have big: "hear_word 0 (format_number n) = n" by (simp add: hear_word_def numeral_word)
  show ?thesis
    using t one by (auto simp: spoken_words_def hear_below mil e zero big)
qed

text \<open>
  The words the agent speaks determine the number: no two amounts sound the same.
\<close>

theorem number_roundtrip: "heard_number (numberInWords n) = n"
  by (simp add: heard_number_def split_number hear_number)

lemma no_money: "list_all plain_word ws \<Longrightarrow> list_all (\<lambda>w. \<not> money_word w) (e_between ws)"
  by (induction ws rule: e_between.induct) (simp_all add: plain_word_def money_word_def)

lemma no_money_spoken: "list_all (\<lambda>w. \<not> money_word w) (spoken_words n)"
proof -
  have t: "0 < n div 1000 \<and> n div 1000 < 1000" if "1000 \<le> n" "n < 1000000"
    using that by (simp add: div_greater_zero_iff less_mult_imp_div_less)
  have "\<not> money_word (format_number n)" using numeral_word(2) [of n] by (simp add: plain_word_def)
  moreover
  have "\<not> money_word ''mil''" "\<not> money_word ''e''" "\<not> money_word ''zero''" by (simp_all add: money_word_def)
  ultimately show ?thesis
    using t by (auto simp: spoken_words_def intro!: no_money below_words_facts)
qed

lemma takeWhile_list_all: "list_all P xs \<Longrightarrow> \<not> P y \<Longrightarrow> takeWhile P (xs @ y # ys) = xs \<and> dropWhile P (xs @ y # ys) = y # ys"
  by (induction xs) auto

text \<open>
  C40. The amount of money the agent speaks determines the amount to the cent, however large it is. (From a million
  reais on the code gives the agent a numeral, \<open>1.500.000 reais\<close>, in place of words; who listens reads
  it, points and all.)
\<close>

theorem currency_roundtrip:
  assumes "0 \<le> value"
  shows "heard_cents (currencyInWords value) = nat (js_round (value * 100))"
proof -
  define n where "n = nat (js_round (value * 100))"
  define m where "m = (if n div 100 = 1 then ''real'' else ''reais'')"
  define k where "k = (if n mod 100 = 1 then ''centavo'' else ''centavos'')"
  have m: "money_word m" "list_all (\<lambda>c. c \<noteq> CHR '' '') m" by (simp_all add: m_def money_word_def)
  have k: "word_value k = 0" "k \<noteq> ''mil''" "list_all (\<lambda>c. c \<noteq> CHR '' '') k"
    by (simp_all add: k_def word_zero)
  have sum: "100 * (n div 100) + n mod 100 = n"
    using div_mult_mod_eq [of n 100] by (simp only: mult.commute)
  have said: "currencyInWords value =
      (if n mod 100 \<noteq> 0 then numberInWords (n div 100) @ CHR '' '' # m @ CHR '' '' # ''e'' @ CHR '' '' #
         (numberInWords (n mod 100) @ CHR '' '' # k)
       else numberInWords (n div 100) @ CHR '' '' # m)"
    by (simp add: currencyInWords_def Let_def n_def [symmetric] m_def k_def)
  have words: "split_words [] (currencyInWords value) = spoken_words (n div 100) @ m #
      (if n mod 100 \<noteq> 0 then ''e'' # spoken_words (n mod 100) @ [k] else [])"
    unfolding said using split_append [OF m(2), of "[]"] split_plain [OF m(2), of "[]"] split_plain [OF k(3), of "[]"]
    by (simp add: split_number)
  note parts = takeWhile_list_all [OF no_money_spoken, where y = m]
  have e: "hear_word 0 ''e'' = 0" "hear_word x k = x" for x
    using k by (simp_all add: hear_word_def word_zero)
  have "heard_cents (currencyInWords value) = 100 * (n div 100) +
      foldl hear_word 0 (if n mod 100 \<noteq> 0 then ''e'' # spoken_words (n mod 100) @ [k] else [])"
    using parts m(1) by (simp add: heard_cents_def words hear_number)
  also have "\<dots> = 100 * (n div 100) + n mod 100"
    using sum by (cases "n mod 100 = 0") (simp_all add: e hear_number)
  finally show ?thesis using sum by (simp add: n_def)
qed

section \<open>What the context tells\<close>

lemma collapse_append:
  "collapse_spaces b (x @ y) = collapse_spaces b x @ collapse_spaces (if x = [] then b else is_space (last x)) y"
  by (induction x arbitrary: b) auto

lemma collapse_begin: "collapse_spaces b (c # cs) = c # collapse_spaces False cs" if "\<not> is_space c"
  using that by simp

lemma collapse_nonspace_last: "xs \<noteq> [] \<Longrightarrow> \<not> is_space (last xs) \<Longrightarrow> last (collapse_spaces b xs) = last xs \<and> collapse_spaces b xs \<noteq> []"
  by (induction xs arbitrary: b) (auto split: if_splits)

lemma trim_id:
  assumes "s \<noteq> []" and "\<not> is_space (hd s)" and "\<not> is_space (last s)"
  shows "trim s = s"
proof -
  have "dropWhile is_space s = s" using assms(1,2) by (cases s) auto
  moreover have "dropWhile is_space (rev s) = rev s" using assms(1,3) by (cases s rule: rev_cases) auto
  ultimately show ?thesis by (simp add: trim_def)
qed

lemma join_snoc: "xs \<noteq> [] \<Longrightarrow> join_with sep (xs @ [y]) = join_with sep xs @ sep @ y"
  by (induction sep xs rule: join_with.induct) auto

text \<open>
  The context never exceeds what LigueLead accepts, and of the document it depends on the first four
  digits only.
\<close>

lemma context_bound: "length (callContext day c creditorName instruction) \<le> 1500"
  by (simp add: callContext_def)

lemma details_document:
  "call_details day (c\<lparr>ct_debtorDocument := document\<rparr>) creditorName instruction =
    call_details day c creditorName instruction"
proof -
  have fields: "ct_debtorName (c\<lparr>ct_debtorDocument := document\<rparr>) = ct_debtorName c"
    "ct_contractNumber (c\<lparr>ct_debtorDocument := document\<rparr>) = ct_contractNumber c"
    "ct_updatedValue (c\<lparr>ct_debtorDocument := document\<rparr>) = ct_updatedValue c"
    "ct_offer (c\<lparr>ct_debtorDocument := document\<rparr>) = ct_offer c"
    "ct_dueDate (c\<lparr>ct_debtorDocument := document\<rparr>) = ct_dueDate c"
    "ct_product (c\<lparr>ct_debtorDocument := document\<rparr>) = ct_product c" by simp_all
  show ?thesis by (simp only: call_details_def offer_phrase_def discountSpeech_def fields)
qed

lemma context_document:
  assumes "take 4 document = take 4 (ct_debtorDocument c)"
  shows "callContext day (c\<lparr>ct_debtorDocument := document\<rparr>) creditorName instruction =
    callContext day c creditorName instruction"
proof -
  have field: "ct_debtorDocument (c\<lparr>ct_debtorDocument := document\<rparr>) = document" by simp
  have "identity_rule document = identity_rule (ct_debtorDocument c)"
    by (simp only: identity_rule_def spellDigits_def assms)
  then show ?thesis by (simp only: callContext_def details_document field)
qed

text \<open>
  The rule that the agent has to check the identity of the debtor comes last: when the details before it
  fill the context it is cut off, and the context is the same for every document.
\<close>

theorem identity_rule_cut:
  assumes "1500 \<le> length (collapse_spaces False (join_with ''; '' (call_details day c creditorName instruction)))"
  shows "callContext day c creditorName instruction =
    take 1500 (collapse_spaces False (join_with ''; '' (call_details day c creditorName instruction)))"
proof -
  let ?A = "join_with ''; '' (call_details day c creditorName instruction)"
  let ?B = "''; '' @ identity_rule (ct_debtorDocument c)"
  let ?t = "collapse_spaces False (?A @ ?B)"
  have A: "hd ?A = CHR ''C''" "?A \<noteq> []" by (simp_all add: call_details_def)
  have full: "join_with ''; '' (call_details day c creditorName instruction @ [identity_rule (ct_debtorDocument c)]) = ?A @ ?B"
    by (rule join_snoc) (simp add: call_details_def)
  have C: "\<not> is_space (CHR ''C'')" "\<not> is_space (CHR ''.'')" by (simp_all add: is_space_def code_def)
  obtain rest where rest: "?A = CHR ''C'' # rest" using A by (cases ?A) auto
  have "hd ?t = CHR ''C''" using C unfolding rest by simp
  moreover have "last ?B = CHR ''.''" by (simp add: identity_rule_def)
  then have "last ?t = CHR ''.'' \<and> ?t \<noteq> []"
    using collapse_nonspace_last [of "?A @ ?B" False] C by simp
  ultimately have "trim ?t = ?t" using C by (intro trim_id) simp_all
  moreover have "take 1500 ?t = take 1500 (collapse_spaces False ?A)"
    unfolding collapse_append using assms by simp
  ultimately show ?thesis unfolding callContext_def full by simp
qed

lemma collapse_keeps: "length (filter (\<lambda>c. \<not> is_space c) s) \<le> length (collapse_spaces b s)"
  by (induction s arbitrary: b) (auto intro: le_SucI)

lemma join_contains: "x \<in> set xs \<Longrightarrow> length (filter P x) \<le> length (filter P (join_with sep xs))"
  by (induction sep xs rule: join_with.induct) auto

lemma long_instruction:
  assumes "1500 \<le> n"
  shows "1500 \<le> length (collapse_spaces False (join_with ''; ''
    (call_details day c creditorName (Some (replicate n (CHR ''x''))))))"
proof -
  let ?x = "''INSTRUCAO DESTA CAMPANHA: '' @ replicate n (CHR ''x'')"
  let ?D = "call_details day c creditorName (Some (replicate n (CHR ''x'')))"
  have sp: "\<not> is_space (CHR ''x'')" by (simp add: is_space_def code_def)
  have "trim (replicate n (CHR ''x'')) = replicate n (CHR ''x'')"
    using assms sp by (intro trim_id) simp_all
  then have "?x \<in> set ?D" using assms by (simp add: call_details_def optional_detail_def)
  then have "length (filter (\<lambda>c. \<not> is_space c) ?x) \<le> length (filter (\<lambda>c. \<not> is_space c) (join_with ''; '' ?D))"
    by (rule join_contains)
  also have "\<dots> \<le> length (collapse_spaces False (join_with ''; '' ?D))" by (rule collapse_keeps)
  finally have "length (filter (\<lambda>c. \<not> is_space c) ?x) \<le> length (collapse_spaces False (join_with ''; '' ?D))" .
  moreover have "n \<le> length (filter (\<lambda>c. \<not> is_space c) ?x)"
    unfolding filter_append length_append using sp by simp
  ultimately show ?thesis using assms by linarith
qed

lemma identity_rule_cut_witness:
  "callContext show_int (sample_contract\<lparr>ct_debtorDocument := ''52998224725''\<rparr>) None (Some (replicate 1500 (CHR ''x''))) =
   callContext show_int (sample_contract\<lparr>ct_debtorDocument := ''11144477735''\<rparr>) None (Some (replicate 1500 (CHR ''x'')))"
  by (simp only: identity_rule_cut [OF long_instruction [OF order_refl]] details_document)

lemma currency_roundtrip_witness: "heard_cents (currencyInWords (150000012 / 100)) = nat (js_round (150000012 / 100 * 100))"
  by (rule currency_roundtrip) simp

end
