(* ===== verification/LigueLead.thy ===== *)
theory LigueLead
  imports PublicDebt Speech JsValues
begin

text \<open>
  \<open>liguelead/liguelead.service.ts\<close> and its queue worker: messages and calls to debtors through LigueLead.
  A message carries a link of \<open>PublicDebt\<close>; each dispatch leaves items and interactions, which the webhooks of
  the provider move. The provider's answers, SHA-256, the URL of a link and the texts of JSON values that are
  neither texts nor booleans are parameters; every request is logged. The \<open>contact\<close>, \<open>summary\<close>, \<open>recordingUrl\<close>
  and \<open>conversation\<close> of an interaction are not modelled.
\<close>

section \<open>Data\<close>

datatype ll_reply = Replied nat json | No_reply

datatype dispatch_type = D_SMS | D_AI_CALL

datatype dispatch_status = DI_PENDING | DI_IN_PROGRESS | DI_COMPLETED | DI_FAILED | DI_UNKNOWN

record ll_env =
  lv_now :: int
  lv_gen :: "nat \<Rightarrow> string"
  lv_sha :: "string \<Rightarrow> string"
  lv_text :: "json \<Rightarrow> string"
  lv_date :: "json \<Rightarrow> int option"
  lv_day :: "int \<Rightarrow> string"
  lv_link :: "string \<Rightarrow> string"
  lv_apiToken :: "string option"
  lv_appId :: "string option"
  lv_webhookToken :: "string option"
  lv_reply :: "nat \<Rightarrow> string \<Rightarrow> string \<Rightarrow> json \<Rightarrow> ll_reply" \<comment> \<open>requests so far, method, path, body\<close>

record ll_agent =
  la_accountId :: string
  la_walletId :: string
  la_externalId :: string
  la_name :: string
  la_prompt :: string
  la_greetings :: "string option"
  la_modelVersion :: string
  la_voiceId :: string
  la_actionId :: "string option"
  la_active :: bool

record ll_dispatch =
  ld_id :: string
  ld_accountId :: string
  ld_walletId :: string
  ld_userId :: string
  ld_type :: dispatch_type
  ld_title :: string
  ld_externalId :: "string option"
  ld_totalItems :: nat

record ll_item =
  li_id :: string
  li_dispatchId :: string
  li_contractId :: string
  li_externalCampaignId :: "string option"
  li_phone :: string
  li_status :: dispatch_status
  li_durationSeconds :: "int option"
  li_recordingUrl :: "string option"
  li_transcript :: "json option"
  li_actionExecuted :: "string option"
  li_rawPayload :: "json option"
  li_startedAt :: "int option"
  li_completedAt :: "int option"

record ll_event =
  le_accountId :: string
  le_eventKey :: string
  le_event :: string
  le_payload :: json

record sms_job =
  sj_walletId :: string
  sj_accountId :: string
  sj_userId :: string
  sj_title :: string
  sj_message :: string
  sj_query :: list_query
  sj_scopes :: "string list option"

record ll_store = public_store +
  ls_agents :: "ll_agent list"
  ls_dispatches :: "ll_dispatch list"
  ls_items :: "ll_item list"
  ls_receipts :: "(string option \<times> json) list"
  ls_events :: "ll_event list"
  ls_requests :: "(string \<times> json) list"
  ls_jobs :: "sms_job list"

section \<open>The HTTP client\<close>

definition unset :: "string option \<Rightarrow> bool" where
  "unset x \<longleftrightarrow> text_or_null x = None"

definition text_of :: "ll_env \<Rightarrow> json \<Rightarrow> string" where
  \<comment> \<open>\<open>String(v)\<close>\<close>
  "text_of e v =
     (case v of
        JStr s \<Rightarrow> s
      | JNull \<Rightarrow> ''null''
      | JBool b \<Rightarrow> if b then ''true'' else ''false''
      | _ \<Rightarrow> lv_text e v)"

definition provider_message :: "ll_env \<Rightarrow> json \<Rightarrow> string" where
  "provider_message e body =
     (if truthy (jget ''message'' body) then text_of e (the (jget ''message'' body))
      else if truthy (jget ''error'' body) then text_of e (the (jget ''error'' body))
      else ''Falha na comunicacao com a LigueLead'')"

definition log_request :: "string \<Rightarrow> json \<Rightarrow> ll_store \<Rightarrow> ll_store" where
  "log_request p b s = s\<lparr>ls_requests := ls_requests s @ [(p, b)]\<rparr>"

fun ll_attempts ::
  "ll_env \<Rightarrow> string \<Rightarrow> string \<Rightarrow> json \<Rightarrow> nat \<Rightarrow> ll_store \<Rightarrow> (ll_store, json) outcome" where
  \<comment> \<open>the attempts left\<close>
  "ll_attempts e m p b 0 s = (Inl (BadGateway ''Nao foi possivel comunicar com a LigueLead''), s)"
| "ll_attempts e m p b (Suc k) s =
     (let s1 = log_request p b s
      in case lv_reply e (length (ls_requests s)) m p b of
           Replied status body \<Rightarrow>
             if 200 \<le> status \<and> status < 300 then (Inr body, s1)
             else if status \<notin> {502, 503, 504} \<or> k = 0 then (Inl (BadGateway (provider_message e body)), s1)
             else ll_attempts e m p b k s1
         | No_reply \<Rightarrow>
             if k = 0 then (Inl (BadGateway ''Nao foi possivel comunicar com a LigueLead''), s1)
             else ll_attempts e m p b k s1)"

definition maxAttempts :: nat where
  "maxAttempts = 3"

definition ll_request :: "ll_env \<Rightarrow> string \<Rightarrow> string \<Rightarrow> json \<Rightarrow> ll_store \<Rightarrow> (ll_store, json) outcome" where
  "ll_request e m p b s =
     (if unset (lv_apiToken e) \<or> unset (lv_appId e)
      then (Inl (ServiceUnavailable ''Integracao LigueLead nao configurada''), s)
      else ll_attempts e m p b maxAttempts s)"

section \<open>Wallets and agents\<close>

definition ll_wallet :: "string \<Rightarrow> string \<Rightarrow> string list option \<Rightarrow> ll_store \<Rightarrow> http_error + wallet" where
  "ll_wallet w acc scopes s =
     (case List.find (\<lambda>x. wl_id x = w \<and> wl_accountId x = acc \<and> wl_deletedAt x = None) (wallets (pb_db s)) of
        None \<Rightarrow> Inl (NotFound ''Carteira nao encontrada'')
      | Some x \<Rightarrow>
          (case scopes of
             None \<Rightarrow> Inr x
           | Some ws \<Rightarrow> if w \<in> set ws then Inr x else Inl (Forbidden ''Sem permissao para esta carteira'')))"

definition agent_of :: "string \<Rightarrow> ll_store \<Rightarrow> ll_agent option" where
  "agent_of w s = List.find (\<lambda>a. la_walletId a = w) (ls_agents s)"

definition getAgent :: "string \<Rightarrow> string \<Rightarrow> string list option \<Rightarrow> ll_store \<Rightarrow> http_error + ll_agent option" where
  "getAgent w acc scopes s = (case ll_wallet w acc scopes s of Inl err \<Rightarrow> Inl err | Inr _ \<Rightarrow> Inr (agent_of w s))"

definition listVoices :: "ll_env \<Rightarrow> ll_store \<Rightarrow> (ll_store, json) outcome" where
  "listVoices e s = ll_request e ''GET'' ''/v1/voice-agent/voices'' JNull s"

record agent_dto =
  ad_name :: string
  ad_prompt :: string
  ad_greetings :: "string option"
  ad_modelVersion :: string
  ad_voiceId :: string
  ad_active :: "bool option"

definition jpath :: "string list \<Rightarrow> json option \<Rightarrow> json option" where
  \<comment> \<open>\<open>v?.a?.b\<close>\<close>
  "jpath ks v = foldl (\<lambda>x k. case x of None \<Rightarrow> None | Some j \<Rightarrow> jget k j) v ks"

definition json_text :: "json option \<Rightarrow> string option" where
  \<comment> \<open>a value stored in a column of texts\<close>
  "json_text x = (case x of Some (JStr s) \<Rightarrow> Some s | _ \<Rightarrow> None)"

definition text_or_nothing :: "json option \<Rightarrow> bool" where
  \<comment> \<open>what a nullable column of texts takes\<close>
  "text_or_nothing x \<longleftrightarrow> nullish x \<or> json_text x \<noteq> None"

definition agent_payload :: "agent_dto \<Rightarrow> ll_agent option \<Rightarrow> json" where
  "agent_payload dto old =
     JObj ([(''name'', JStr (ad_name dto)), (''prompt'', JStr (ad_prompt dto))] @
       (case ad_greetings dto of None \<Rightarrow> [] | Some g \<Rightarrow> [(''greetings'', JStr g)]) @
       [(''engine'', JObj [(''version'', JStr (ad_modelVersion dto)), (''voice_id'', JStr (ad_voiceId dto))])] @
       (case old of
          None \<Rightarrow> []
        | Some a \<Rightarrow> (case text_or_null (la_actionId a) of None \<Rightarrow> [] | Some x \<Rightarrow> [(''action_id'', JStr x)])))"

definition patch_agent :: "agent_dto \<Rightarrow> string \<Rightarrow> ll_agent \<Rightarrow> ll_agent" where
  "patch_agent dto i a =
     a\<lparr>la_externalId := i, la_name := ad_name dto, la_prompt := ad_prompt dto,
       la_greetings := (case ad_greetings dto of None \<Rightarrow> la_greetings a | Some g \<Rightarrow> Some g),
       la_modelVersion := ad_modelVersion dto, la_voiceId := ad_voiceId dto, la_active := or_else (ad_active dto) True\<rparr>"

definition upsertAgent ::
  "ll_env \<Rightarrow> string \<Rightarrow> string \<Rightarrow> agent_dto \<Rightarrow> string list option \<Rightarrow> ll_store \<Rightarrow> (ll_store, ll_agent) outcome" where
  "upsertAgent e w acc dto scopes s =
     (case ll_wallet w acc scopes s of
        Inl err \<Rightarrow> (Inl err, s)
      | Inr _ \<Rightarrow>
          let old = agent_of w s;
              m = (if old = None then ''POST'' else ''PUT'');
              p = ''/v1/voice-agent'' @ (case old of None \<Rightarrow> '''' | Some a \<Rightarrow> ''/'' @ la_externalId a)
          in (case ll_request e m p (agent_payload dto old) s of
                (Inl err, s1) \<Rightarrow> (Inl err, s1)
              | (Inr remote, s1) \<Rightarrow>
                  let externalId = coalesce (jpath [''data'', ''id''] (Some remote))
                        (coalesce (jget ''id'' remote) (map_option (JStr \<circ> la_externalId) old))
                  in if \<not> truthy externalId
                     then (Inl (BadGateway ''A LigueLead nao retornou o identificador do agente''), s1)
                     else (case json_text externalId of
                       None \<Rightarrow> (Inl (Internal ''invalid value''), s1)
                     | Some i \<Rightarrow>
                       (case old of
                          None \<Rightarrow>
                            let a = \<lparr>la_accountId = acc, la_walletId = w, la_externalId = i, la_name = ad_name dto,
                                     la_prompt = ad_prompt dto, la_greetings = ad_greetings dto,
                                     la_modelVersion = ad_modelVersion dto, la_voiceId = ad_voiceId dto,
                                     la_actionId = None, la_active = or_else (ad_active dto) True\<rparr>
                            in (Inr a, s1\<lparr>ls_agents := ls_agents s1 @ [a]\<rparr>)
                        | Some a \<Rightarrow>
                            (Inr (patch_agent dto i a),
                             s1\<lparr>ls_agents := update_where (\<lambda>x. la_walletId x = w) (patch_agent dto i) (ls_agents s1)\<rparr>)))))"

section \<open>Messages\<close>

definition normalizePhone :: "string \<Rightarrow> string" where
  \<comment> \<open>\<open>replace(/\D/g, '').replace(/^55(?=\d{11}$)/, '')\<close>\<close>
  "normalizePhone phone =
     (let d = digits_only phone in if length d = 13 \<and> take 2 d = ''55'' then drop 2 d else d)"

definition lower_latin :: "char \<Rightarrow> char" where
  "lower_latin c =
     (if is_upper c \<or> (192 \<le> code c \<and> code c \<le> 222 \<and> code c \<noteq> 215) then char_of (code c + 32) else c)"

definition is_word :: "char \<Rightarrow> bool" where
  \<comment> \<open>\<open>\w\<close>, which knows no accents\<close>
  "is_word c \<longleftrightarrow> is_digit c \<or> is_upper c \<or> is_lower c \<or> c = CHR ''_''"

definition at_boundary :: "string \<Rightarrow> bool" where
  \<comment> \<open>\<open>\b\<close> after a character of a word\<close>
  "at_boundary s = (case s of [] \<Rightarrow> True | c # _ \<Rightarrow> \<not> is_word c)"

definition word_match :: "string \<Rightarrow> bool \<Rightarrow> string \<Rightarrow> nat option" where
  \<comment> \<open>\<open>/word(s)?\b/i\<close> at the beginning of a text: the length of the match\<close>
  "word_match w plural s =
     (if map lower_latin (take (length w) s) \<noteq> w then None
      else let rest = drop (length w) s
           in if plural \<and> (case rest of c # cs \<Rightarrow> lower_latin c = CHR ''s'' \<and> at_boundary cs | [] \<Rightarrow> False)
              then Some (Suc (length w))
              else if at_boundary rest then Some (length w) else None)"

fun replace_word :: "string \<Rightarrow> bool \<Rightarrow> string \<Rightarrow> nat \<Rightarrow> bool \<Rightarrow> string \<Rightarrow> string" where
  \<comment> \<open>the number of characters still to skip; whether the character before belongs to a word\<close>
  "replace_word w plural r k b [] = []"
| "replace_word w plural r k b (c # cs) =
     (if k \<noteq> 0 then replace_word w plural r (k - 1) (is_word c) cs
      else case (if b then None else word_match w plural (c # cs)) of
             Some n \<Rightarrow> r @ replace_word w plural r (n - 1) (is_word c) cs
           | None \<Rightarrow> c # replace_word w plural r 0 (is_word c) cs)"

definition normalizeSmsText :: "string \<Rightarrow> string" where
  "normalizeSmsText message =
     replace_word (''pend'' @ [CHR 0xEA] @ ''ncia'') True (''situa'' @ [CHR 0xE7, CHR 0xE3] @ ''o'') 0 False
       (replace_word ''acordo'' True ''oferta'' 0 False
         (replace_word ''pix'' False ''pagamento'' 0 False
           (replace_word (''cobran'' @ [CHR 0xE7] @ ''a'') True (''regulariza'' @ [CHR 0xE7, CHR 0xE3] @ ''o'') 0 False
             (trim message))))"

definition smsMessageWithPaymentLink :: "ll_env \<Rightarrow> string \<Rightarrow> string \<Rightarrow> string option \<Rightarrow> string" where
  "smsMessageWithPaymentLink e message token creditorName =
     collapse_spaces False (trim (
       ''Ol'' @ [CHR 0xE1] @ ''! A oferta de regulariza'' @ [CHR 0xE7, CHR 0xE3] @ ''o com '' @
       named_or creditorName ''seu credor'' @ '' continua v'' @ [CHR 0xE1] @ ''lida. '' @ normalizeSmsText message @
       '' Acesse para consultar e regularizar: '' @ lv_link e token))"

section \<open>Dispatches\<close>

definition phone_of :: "contract \<Rightarrow> string" where
  "phone_of c = or_else (db_phone (ct_debtor c)) ''''"

definition sms_eligible :: "string \<Rightarrow> string \<Rightarrow> string list \<Rightarrow> contract \<Rightarrow> bool" where
  "sms_eligible w acc ids c \<longleftrightarrow>
     ct_id c \<in> set ids \<and> ct_walletId c = w \<and> ct_accountId c = acc \<and> ct_deletedAt c = None \<and>
     ct_paymentStatus c \<noteq> PS_PAID \<and> ct_status c = CT_ACTIVE \<and> phone_of c \<noteq> ''''"

definition eligibleContracts :: "string \<Rightarrow> string \<Rightarrow> string list \<Rightarrow> database \<Rightarrow> http_error + contract list" where
  "eligibleContracts w acc ids d =
     (let cs = filter (sms_eligible w acc ids) (contracts d)
      in if length cs \<noteq> length ids
         then Inl (BadRequest ''Selecione apenas contratos ativos, nao pagos e com telefone informado'') else Inr cs)"

definition new_link :: "ll_env \<Rightarrow> string \<Rightarrow> string \<Rightarrow> contract \<Rightarrow> ll_store \<Rightarrow> access_link \<times> ll_store" where
  "new_link e w acc c s =
     (let n = nextId (pb_db s);
          l = \<lparr>pl_id = lv_gen e n, pl_token = lv_gen e (Suc n), pl_accountId = acc, pl_walletId = w,
               pl_contractId = ct_id c, pl_interactionId = None,
               pl_expiresAt = lv_now e + 7 * 24 * 60 * 60 * 1000, pl_openedAt = None\<rparr>
      in (l, s\<lparr>pb_links := pb_links s @ [l], pb_db := (pb_db s)\<lparr>nextId := n + 2\<rparr>\<rparr>))"

fun create_links ::
  "ll_env \<Rightarrow> string \<Rightarrow> string \<Rightarrow> contract list \<Rightarrow> ll_store \<Rightarrow> (contract \<times> access_link) list \<times> ll_store" where
  "create_links e w acc [] s = ([], s)"
| "create_links e w acc (c # cs) s =
     (let (l, s1) = new_link e w acc c s; (ps, s2) = create_links e w acc cs s1 in ((c, l) # ps, s2))"

record dispatched =
  dc_contract :: contract
  dc_campaign :: "json option"
  dc_message :: "string option"
  dc_link :: "string option"

definition campaign_of :: "json \<Rightarrow> json option" where
  "campaign_of remote = coalesce (jpath [''data'', ''campaign_id''] (Some remote)) (jget ''campaign_id'' remote)"

definition sms_body :: "string \<Rightarrow> string \<Rightarrow> contract \<Rightarrow> json" where
  "sms_body title message c =
     JObj [(''title'', JStr title), (''message'', JStr message), (''phones'', JArr [JStr (normalizePhone (phone_of c))])]"

definition send_one ::
  "ll_env \<Rightarrow> string \<Rightarrow> string \<Rightarrow> string option \<Rightarrow> contract \<times> access_link \<Rightarrow> ll_store \<Rightarrow>
    (ll_store, dispatched) outcome" where
  "send_one e title text creditorName p s =
     (case p of (c, l) \<Rightarrow>
        let message = smsMessageWithPaymentLink e text (pl_token l) creditorName
        in if 1600 < length message
           then (Inl (BadRequest ''A mensagem de SMS, incluindo o link de pagamento, excede 1600 caracteres''), s)
           else (case ll_request e ''POST'' ''/v1/sms'' (sms_body title message c) s of
                   (Inr remote, s1) \<Rightarrow>
                     (Inr \<lparr>dc_contract = c, dc_campaign = campaign_of remote, dc_message = Some message,
                           dc_link = Some (pl_id l)\<rparr>, s1)
                 | (Inl err, s1) \<Rightarrow> (Inl err, s1\<lparr>pb_links := filter (\<lambda>x. pl_id x \<noteq> pl_id l) (pb_links s1)\<rparr>)))"

fun send_all ::
  "ll_env \<Rightarrow> string \<Rightarrow> string \<Rightarrow> string option \<Rightarrow> (contract \<times> access_link) list \<Rightarrow> ll_store \<Rightarrow>
    (ll_store, dispatched list) outcome" where
  \<comment> \<open>\<open>Promise.all\<close>: the others go on when one fails, and the first failure is the answer\<close>
  "send_all e title text cr [] s = (Inr [], s)"
| "send_all e title text cr (p # ps) s =
     (case send_one e title text cr p s of
        (r, s1) \<Rightarrow>
          (case send_all e title text cr ps s1 of
             (rs, s2) \<Rightarrow>
               ((case (r, rs) of
                   (Inl err, _) \<Rightarrow> Inl err
                 | (Inr x, Inl err) \<Rightarrow> Inl err
                 | (Inr x, Inr xs) \<Rightarrow> Inr (x # xs)), s2)))"

definition channel_name :: "dispatch_type \<Rightarrow> string" where
  "channel_name t = (case t of D_SMS \<Rightarrow> ''SMS'' | D_AI_CALL \<Rightarrow> ''AI_VOICE_CALL'')"

definition new_dispatch_item :: "(nat \<Rightarrow> string) \<Rightarrow> ll_dispatch \<Rightarrow> dispatched \<Rightarrow> nat \<Rightarrow> ll_item" where
  "new_dispatch_item gen dp x n =
     \<lparr>li_id = gen n, li_dispatchId = ld_id dp, li_contractId = ct_id (dc_contract x),
      li_externalCampaignId = or_opt (json_text (dc_campaign x)) (ld_externalId dp),
      li_phone = normalizePhone (phone_of (dc_contract x)), li_status = DI_PENDING, li_durationSeconds = None,
      li_recordingUrl = None, li_transcript = None, li_actionExecuted = None, li_rawPayload = None,
      li_startedAt = None, li_completedAt = None\<rparr>"

definition dispatch_interaction :: "ll_env \<Rightarrow> ll_dispatch \<Rightarrow> dispatched \<Rightarrow> nat \<Rightarrow> interaction" where
  "dispatch_interaction e dp x n =
     \<lparr>ia_id = lv_gen e n, ia_contractId = ct_id (dc_contract x), ia_accountId = ld_accountId dp,
      ia_walletId = ld_walletId dp, ia_channel = channel_name (ld_type dp), ia_status = IA_QUEUED,
      ia_provider = Some ''LIGUELEAD'', ia_externalId = or_opt (json_text (dc_campaign x)) (ld_externalId dp),
      ia_payload = (case ld_type dp of
         D_SMS \<Rightarrow> JObj [(''title'', JStr (ld_title dp)), (''message'', jopt JStr (dc_message x))]
       | D_AI_CALL \<Rightarrow> JNull),
      ia_occurredAt = lv_now e\<rparr>"

definition createDispatchWithInteractions ::
  "ll_env \<Rightarrow> string \<Rightarrow> string \<Rightarrow> string \<Rightarrow> dispatch_type \<Rightarrow> string \<Rightarrow> json option \<Rightarrow> dispatched list \<Rightarrow> ll_store \<Rightarrow>
    (ll_store, ll_dispatch) outcome" where
  \<comment> \<open>one transaction: the dispatch, an item and an interaction per contract, the links tied to them; an
      identifier of the provider that is not a text is refused by the columns, and nothing is stored\<close>
  "createDispatchWithInteractions e acc w u type title externalId xs s =
     (let d = pb_db s; n = nextId d; k = length xs;
          dp = \<lparr>ld_id = lv_gen e n, ld_accountId = acc, ld_walletId = w, ld_userId = u, ld_type = type,
                ld_title = title, ld_externalId = json_text externalId, ld_totalItems = k\<rparr>;
          ias = map2 (dispatch_interaction e dp) xs [Suc n + k..<Suc n + k + k];
          tie = (\<lambda>l. case List.find (\<lambda>p. dc_link (fst p) = Some (pl_id l)) (zip xs ias) of
                       None \<Rightarrow> l
                     | Some p \<Rightarrow> l\<lparr>pl_interactionId := Some (ia_id (snd p))\<rparr>)
      in if \<not> (text_or_nothing externalId \<and> list_all (\<lambda>x. text_or_nothing (dc_campaign x)) xs)
         then (Inl (Internal ''invalid value''), s)
         else
         (Inr dp, s\<lparr>ls_dispatches := ls_dispatches s @ [dp],
                ls_items := ls_items s @ map2 (new_dispatch_item (lv_gen e) dp) xs [Suc n..<Suc n + k],
                pb_links := map tie (pb_links s),
                pb_db := d\<lparr>interactions := interactions d @ ias, nextId := Suc n + k + k\<rparr>\<rparr>))"

definition creditor_name :: "wallet \<Rightarrow> database \<Rightarrow> string option" where
  "creditor_name w d = map_option cr_name (creditor_of_wallet w d)"

definition sendSms ::
  "ll_env \<Rightarrow> string \<Rightarrow> string \<Rightarrow> string \<Rightarrow> string \<Rightarrow> string \<Rightarrow> string list \<Rightarrow> string list option \<Rightarrow> ll_store \<Rightarrow>
    (ll_store, ll_dispatch) outcome" where
  "sendSms e w acc u title text ids scopes s =
     (case ll_wallet w acc scopes s of
        Inl err \<Rightarrow> (Inl err, s)
      | Inr wl \<Rightarrow>
          (case eligibleContracts w acc ids (pb_db s) of
             Inl err \<Rightarrow> (Inl err, s)
           | Inr cs \<Rightarrow>
               (case create_links e w acc cs s of
                  (ps, s1) \<Rightarrow>
                    (case send_all e title text (creditor_name wl (pb_db s)) ps s1 of
                       (Inl err, s2) \<Rightarrow> (Inl err, s2)
                     | (Inr xs, s2) \<Rightarrow> createDispatchWithInteractions e acc w u D_SMS title None xs s2))))"

definition enqueueFilteredSms :: "sms_job \<Rightarrow> ll_store \<Rightarrow> (ll_store, unit) outcome" where
  "enqueueFilteredSms j s =
     (case ll_wallet (sj_walletId j) (sj_accountId j) (sj_scopes j) s of
        Inl err \<Rightarrow> (Inl err, s)
      | Inr _ \<Rightarrow> (Inr (), s\<lparr>ls_jobs := ls_jobs s @ [j]\<rparr>))"

definition filtered_page ::
  "(row_order \<Rightarrow> contract list \<Rightarrow> contract list) \<Rightarrow> ll_env \<Rightarrow> sms_job \<Rightarrow> nat \<Rightarrow> ll_store \<Rightarrow> contract list" where
  "filtered_page order e j page s =
     map fst (cp_data (listContracts order (lv_sha e)
       ((sj_query j)\<lparr>lq_walletId := Some (sj_walletId j), lq_page := page, lq_limit := 100\<rparr>)
       \<lparr>vw_accountId = sj_accountId j, vw_role = ADMIN, vw_scopes = sj_scopes j, vw_portalCreditorId = None\<rparr> False
       (pb_db s)))"

definition sms_reachable :: "contract \<Rightarrow> bool" where
  "sms_reachable c \<longleftrightarrow> ct_status c = CT_ACTIVE \<and> ct_paymentStatus c \<noteq> PS_PAID \<and> trim (phone_of c) \<noteq> ''''"

fun filtered_loop ::
  "(row_order \<Rightarrow> contract list \<Rightarrow> contract list) \<Rightarrow> ll_env \<Rightarrow> sms_job \<Rightarrow> nat \<Rightarrow> nat \<Rightarrow> nat \<Rightarrow> nat \<Rightarrow> ll_store \<Rightarrow>
    (ll_store, nat \<times> nat) outcome option" where
  \<comment> \<open>\<open>while (true)\<close> over the pages; \<open>None\<close>: the fuel did not suffice\<close>
  "filtered_loop order e j 0 page processed skipped s = None"
| "filtered_loop order e j (Suc k) page processed skipped s =
     (let rows = filtered_page order e j page s; ids = map ct_id (filter sms_reachable rows);
          skipped' = skipped + (length rows - length ids)
      in if rows = [] then Some (Inr (processed, skipped), s)
         else if ids = []
         then (if length rows < 100 then Some (Inr (processed, skipped'), s)
               else filtered_loop order e j k (Suc page) processed skipped' s)
         else (case sendSms e (sj_walletId j) (sj_accountId j) (sj_userId j) (sj_title j) (sj_message j) ids (sj_scopes j) s of
                 (Inl err, s1) \<Rightarrow> Some (Inl err, s1)
               | (Inr _, s1) \<Rightarrow>
                   if length rows < 100 then Some (Inr (processed + length ids, skipped'), s1)
                   else filtered_loop order e j k (Suc page) (processed + length ids) skipped' s1))"

definition sendFilteredSms ::
  "(row_order \<Rightarrow> contract list \<Rightarrow> contract list) \<Rightarrow> ll_env \<Rightarrow> sms_job \<Rightarrow> ll_store \<Rightarrow>
    (ll_store, nat \<times> nat) outcome option" where
  "sendFilteredSms order e j s = filtered_loop order e j (Suc (length (contracts (pb_db s)))) 1 0 0 s"

definition call_phone :: "ll_env \<Rightarrow> string option \<Rightarrow> string option \<Rightarrow> contract \<Rightarrow> json" where
  "call_phone e creditorName instruction c =
     JObj [(''phone'', JStr (normalizePhone (phone_of c))),
           (''call_context'', JStr (callContext (lv_day e) c creditorName instruction))]"

definition sendCalls ::
  "ll_env \<Rightarrow> string \<Rightarrow> string \<Rightarrow> string \<Rightarrow> string \<Rightarrow> string list \<Rightarrow> (nat \<times> nat option) option \<Rightarrow> string list option \<Rightarrow>
    string option \<Rightarrow> ll_store \<Rightarrow> (ll_store, ll_dispatch) outcome" where
  \<comment> \<open>\<open>retry\<close>: the attempts and the minutes between them\<close>
  "sendCalls e w acc u title ids retry scopes instruction s =
     (case ll_wallet w acc scopes s of
        Inl err \<Rightarrow> (Inl err, s)
      | Inr wl \<Rightarrow>
          (case agent_of w s of
             None \<Rightarrow> (Inl (BadRequest ''Configure e ative o agente de IA desta carteira antes de disparar ligacoes''), s)
           | Some a \<Rightarrow>
               if \<not> la_active a
               then (Inl (BadRequest ''Configure e ative o agente de IA desta carteira antes de disparar ligacoes''), s)
               else (case eligibleContracts w acc ids (pb_db s) of
                  Inl err \<Rightarrow> (Inl err, s)
                | Inr cs \<Rightarrow>
                    let body = JObj ([(''title'', JStr title), (''voice_agent_id'', JStr (la_externalId a)),
                          (''phones'', JArr (map (call_phone e (creditor_name wl (pb_db s)) instruction) cs))] @
                          (case retry of
                             None \<Rightarrow> []
                           | Some (k, m) \<Rightarrow> if k = 0 then []
                               else [(''retry_attempts'', JNum (of_nat k)), (''retry_interval_min'', JNum (of_nat (or_else m 30)))]))
                    in (case ll_request e ''POST'' ''/v1/voice-agent/call'' body s of
                          (Inl err, s1) \<Rightarrow> (Inl err, s1)
                        | (Inr remote, s1) \<Rightarrow>
                            createDispatchWithInteractions e acc w u D_AI_CALL title (campaign_of remote)
                              (map (\<lambda>c. \<lparr>dc_contract = c, dc_campaign = None, dc_message = None, dc_link = None\<rparr>) cs) s1))))"

section \<open>Webhooks\<close>

definition authorizeWebhook :: "ll_env \<Rightarrow> string option list \<Rightarrow> json option \<Rightarrow> http_error option" where
  "authorizeWebhook e tokens payload =
     (if unset (lv_webhookToken e) \<or> \<not> list_ex (\<lambda>t. t \<noteq> Some '''' \<and> t \<noteq> None \<and> t = lv_webhookToken e) tokens
      then Some (Unauthorized ''Webhook nao autorizado'')
      else if \<not> unset (lv_appId e) \<and> truthy (jpath [''app_id''] payload) \<and>
              jpath [''app_id''] payload \<noteq> map_option JStr (lv_appId e)
      then Some (Unauthorized ''Aplicacao LigueLead invalida'') else None)"

definition store_receipt :: "string option \<Rightarrow> json option \<Rightarrow> ll_store \<Rightarrow> ll_store" where
  "store_receipt event payload s = s\<lparr>ls_receipts := ls_receipts s @ [(event, or_else payload (JObj []))]\<rparr>"

definition store_event :: "string \<Rightarrow> string \<Rightarrow> string \<Rightarrow> json \<Rightarrow> ll_store \<Rightarrow> ll_store option" where
  \<comment> \<open>\<open>None\<close>: the key exists (P2002)\<close>
  "store_event acc k event payload s =
     (if k \<in> le_eventKey ` set (ls_events s) then None
      else Some (s\<lparr>ls_events := ls_events s @
             [\<lparr>le_accountId = acc, le_eventKey = k, le_event = event, le_payload = payload\<rparr>]\<rparr>))"

definition first_of :: "json option list \<Rightarrow> json option" where
  \<comment> \<open>\<open>a ?? b ?? c\<close>\<close>
  "first_of xs = foldr coalesce (butlast xs) (last xs)"

definition item_of :: "string \<Rightarrow> string \<Rightarrow> ll_store \<Rightarrow> ll_item option" where
  "item_of campaign phone s =
     List.find (\<lambda>i. li_externalCampaignId i = Some campaign \<and> li_phone i = phone) (ls_items s)"

definition dispatch_of :: "ll_item \<Rightarrow> ll_store \<Rightarrow> ll_dispatch option" where
  "dispatch_of i s = List.find (\<lambda>x. ld_id x = li_dispatchId i) (ls_dispatches s)"

fun word_in :: "bool \<Rightarrow> string \<Rightarrow> string \<Rightarrow> bool" where
  \<comment> \<open>\<open>/\bword\b/\<close>; the flag: the character before belongs to a word\<close>
  "word_in b w [] = False"
| "word_in b w (c # cs) =
     ((\<not> b \<and> starts_with w (c # cs) \<and> at_boundary (drop (length w) (c # cs))) \<or> word_in (is_word c) w cs)"

definition refusal_words :: "string list" where
  "refusal_words = (let nao = ''n'' @ [CHR 0xE3] @ ''o'' in
     [nao, ''nao'', nao @ '' quero'', ''nao quero'', nao @ '' precisa'', ''nao precisa''])"

definition request_words :: "string list" where
  "request_words = [''sim'', ''quero'', ''pode'', ''manda'', ''mandar'', ''envia'', ''enviar'', ''receber'', ''link'']"

definition user_messages :: "ll_env \<Rightarrow> json list \<Rightarrow> string list" where
  "user_messages e transcript =
     filter (\<lambda>m. m \<noteq> '''')
       (map (\<lambda>x. map lower_latin (trim (text_of e (or_else (coalesce (jget ''content'' x) (Some (JStr ''''))) JNull))))
         (filter (\<lambda>x. map lower_latin (case jget ''role'' x of None \<Rightarrow> ''undefined'' | Some r \<Rightarrow> text_of e r) = ''user'')
           transcript))"

definition paymentLinkWasRequested :: "ll_env \<Rightarrow> json option \<Rightarrow> bool" where
  "paymentLinkWasRequested e payload =
     (if jpath [''payment_link_requested''] payload = Some (JBool True) \<or>
         jpath [''data'', ''payment_link_requested''] payload = Some (JBool True) then True
      else let campaign = first_of [jpath [''campaign''] payload, jpath [''data'', ''campaign''] payload, Some (JObj [])]
           in if truthy (jpath [''action_executed''] campaign) \<and>
                 jpath [''action_executed''] campaign \<noteq> Some (JStr ''http_webhook'') then False
              else (case jpath [''transcript''] campaign of
                      Some (JArr xs) \<Rightarrow>
                        let lastReply = (case rev (user_messages e xs) of [] \<Rightarrow> '''' | m # _ \<Rightarrow> m)
                        in lastReply \<noteq> '''' \<and> \<not> list_ex (\<lambda>w. word_in False w lastReply) refusal_words \<and>
                           list_ex (\<lambda>w. word_in False w lastReply) request_words
                    | _ \<Rightarrow> False))"

definition link_event_key :: "ll_env \<Rightarrow> string \<Rightarrow> string \<Rightarrow> string" where
  "link_event_key e campaign phone = lv_sha e (campaign @ ''|'' @ phone @ ''|voice.payment_link.requested'')"

definition named_call :: "ll_env \<Rightarrow> json option \<Rightarrow> (string \<times> string) option" where
  \<comment> \<open>the campaign and the telephone of the call a payload is about\<close>
  "named_call e payload =
     (let campaignId = first_of [jpath [''campaign_id''] payload, jpath [''campaignId''] payload,
            jpath [''campaign'', ''id''] payload, jpath [''data'', ''campaign_id''] payload,
            jpath [''data'', ''campaignId''] payload, jpath [''data'', ''campaign'', ''id''] payload];
          rawPhone = first_of [jpath [''phone''] payload, jpath [''campaign'', ''phone''] payload,
            jpath [''data'', ''phone''] payload, jpath [''data'', ''campaign'', ''phone''] payload]
      in if truthy campaignId \<and> truthy rawPhone
         then Some (text_of e (the campaignId), normalizePhone (text_of e (the rawPhone))) else None)"

datatype link_answer = Link_not_requested | Link_duplicate | Link_sent string

definition sendPaymentLinkFromVoiceAction ::
  "ll_env \<Rightarrow> string option list \<Rightarrow> json option \<Rightarrow> ll_store \<Rightarrow> (ll_store, link_answer) outcome" where
  "sendPaymentLinkFromVoiceAction e tokens payload s =
     (case authorizeWebhook e tokens payload of
        Some err \<Rightarrow> (Inl err, s)
      | None \<Rightarrow>
          let s1 = store_receipt (Some ''voice.payment_link.requested'') payload s
          in (case named_call e payload of
                None \<Rightarrow> (Inl (BadRequest ''A acao de link deve informar campaign_id e phone''), s1)
              | Some (campaign, phone) \<Rightarrow>
                  if \<not> paymentLinkWasRequested e payload then (Inr Link_not_requested, s1)
                  else
                  (case item_of campaign phone s1 of
                    None \<Rightarrow> (Inl (NotFound ''Ligacao nao encontrada para o campaign_id e telefone informados''), s1)
                  | Some i \<Rightarrow>
                  (case dispatch_of i s1 of
                    None \<Rightarrow> (Inl (Internal ''item without dispatch''), s1)
                  | Some dp \<Rightarrow>
                      let k = link_event_key e campaign phone
                      in (case store_event (ld_accountId dp) k ''voice.payment_link.requested''
                                 (or_else payload (JObj [])) s1 of
                            None \<Rightarrow> (Inr Link_duplicate, s1)
                          | Some s2 \<Rightarrow>
                              (case sendSms e (ld_walletId dp) (ld_accountId dp) (ld_userId dp)
                                      ''Link solicitado em ligacao''
                                      ''Conforme solicitado, consulte sua oferta no link seguro.'' [li_contractId i] None s2 of
                                 (Inr x, s3) \<Rightarrow> (Inr (Link_sent (ld_id x)), s3)
                               | (Inl err, s3) \<Rightarrow>
                                   (Inl err, s3\<lparr>ls_events := filter (\<lambda>v. le_eventKey v \<noteq> k) (ls_events s3)\<rparr>)))))))"

definition campaign_json :: "json option \<Rightarrow> json option" where
  \<comment> \<open>the campaign a callback is about\<close>
  "campaign_json payload =
     (if jpath [''event''] payload = Some (JStr ''call.unanswered'')
      then Some (JObj (concat (map (\<lambda>(k, f). case jpath [''data'', f] payload of None \<Rightarrow> [] | Some v \<Rightarrow> [(k, v)])
             [(''id'', ''campaign_id''), (''phone'', ''phone''), (''status'', ''status''), (''duration_sec'', ''duration_seconds'')])))
      else jpath [''campaign''] payload)"

definition dash_once :: "string \<Rightarrow> string" where
  \<comment> \<open>\<open>replace('-', '_')\<close>\<close>
  "dash_once s =
     takeWhile (\<lambda>c. c \<noteq> CHR ''-'') s @
     (case dropWhile (\<lambda>c. c \<noteq> CHR ''-'') s of [] \<Rightarrow> [] | _ # cs \<Rightarrow> CHR ''_'' # cs)"

definition mapped_status :: "string \<Rightarrow> dispatch_status" where
  "mapped_status st =
     (if st = ''sent'' then DI_IN_PROGRESS else if st = ''answer'' then DI_COMPLETED
      else if st \<in> set [''no_answer'', ''busy'', ''failed''] then DI_FAILED else DI_UNKNOWN)"

definition interactionStatus :: "string \<Rightarrow> interaction_status" where
  "interactionStatus st =
     (if st = ''sent'' then IA_SENT
      else if st = ''delivered'' then IA_DELIVERED
      else if st \<in> set [''read'', ''opened''] then IA_READ
      else if st \<in> set [''answer'', ''answered''] then IA_ANSWERED
      else if st \<in> set [''completed'', ''complete''] then IA_COMPLETED
      else if st \<in> set [''no_answer'', ''busy''] then IA_NO_ANSWER
      else if st = ''rejected'' then IA_REJECTED
      else IA_FAILED)"

definition whole :: "rat option \<Rightarrow> int option" where
  "whole x = (case x of Some r \<Rightarrow> if r = of_int \<lfloor>r\<rfloor> then Some \<lfloor>r\<rfloor> else None | None \<Rightarrow> None)"

definition call_ended :: "int \<Rightarrow> json \<Rightarrow> ll_item \<Rightarrow> ll_item option" where
  \<comment> \<open>\<open>None\<close>: a value the columns do not take\<close>
  "call_ended now campaign i =
     (case whole (js_number (coalesce (jget ''duration_sec'' campaign) (Some (JNum 0)))) of
        None \<Rightarrow> None
      | Some n \<Rightarrow>
          if text_or_nothing (jget ''recording_url'' campaign) \<and> text_or_nothing (jget ''action_executed'' campaign)
          then Some (i\<lparr>li_completedAt := Some now, li_durationSeconds := Some n,
            li_recordingUrl := json_text (jget ''recording_url'' campaign),
            li_transcript := (if truthy (jget ''transcript'' campaign)
              then Some (JObj [(''messages'', the (jget ''transcript'' campaign))]) else li_transcript i),
            li_actionExecuted := json_text (jget ''action_executed'' campaign)\<rparr>)
          else None)"

definition moved_item :: "int \<Rightarrow> dispatch_status \<Rightarrow> json \<Rightarrow> json \<Rightarrow> ll_item \<Rightarrow> ll_item option" where
  "moved_item now mapped payload campaign i =
     (let i1 = i\<lparr>li_status := mapped, li_rawPayload := Some payload\<rparr>
      in if mapped = DI_IN_PROGRESS then Some (i1\<lparr>li_startedAt := Some now\<rparr>)
         else if mapped = DI_COMPLETED \<or> mapped = DI_FAILED then call_ended now campaign i1
         else Some i1)"

definition callback_time :: "ll_env \<Rightarrow> json \<Rightarrow> int" where
  "callback_time e payload =
     (let t = coalesce (jget ''occurred_at'' payload) (jget ''timestamp'' payload)
      in if truthy t then or_else (lv_date e (the t)) (lv_now e) else lv_now e)"

datatype ll_answer = Not_accepted | Accepted_duplicate | Accepted dispatch_status

definition callback_key :: "ll_env \<Rightarrow> json \<Rightarrow> json \<Rightarrow> string \<Rightarrow> string" where
  "callback_key e payload campaign phone =
     lv_sha e (text_of e (the (jget ''id'' campaign)) @ ''|'' @ phone @ ''|'' @
       (case jget ''event'' payload of None \<Rightarrow> ''undefined'' | Some v \<Rightarrow> text_of e v) @ ''|'' @
       text_of e (the (jget ''status'' campaign)) @ ''|'' @
       text_of e (the (first_of [jget ''occurred_at'' payload, jget ''timestamp'' payload, Some (JStr '''')])))"

definition move_interactions :: "ll_env \<Rightarrow> ll_item \<Rightarrow> ll_dispatch \<Rightarrow> string \<Rightarrow> string \<Rightarrow> json \<Rightarrow> database \<Rightarrow> database" where
  "move_interactions e i dp campaignId st payload d =
     d\<lparr>interactions := update_where
         (\<lambda>x. ia_accountId x = ld_accountId dp \<and> ia_contractId x = li_contractId i \<and> ia_provider x = Some ''LIGUELEAD'' \<and>
              ia_externalId x = Some campaignId \<and> ia_channel x = channel_name (ld_type dp))
         (\<lambda>x. x\<lparr>ia_status := interactionStatus st, ia_payload := payload, ia_occurredAt := callback_time e payload\<rparr>)
         (interactions d)\<rparr>"

definition process_callback ::
  "ll_env \<Rightarrow> json \<Rightarrow> json \<Rightarrow> ll_store \<Rightarrow> (ll_store, ll_answer) outcome" where
  \<comment> \<open>\<open>processWebhook\<close> once the campaign is known to have an identifier, a phone and a status\<close>
  "process_callback e payload campaign s =
     (let phone = normalizePhone (text_of e (the (jget ''phone'' campaign)));
          campaignId = text_of e (the (jget ''id'' campaign));
          st = dash_once (map lower_latin (text_of e (the (jget ''status'' campaign))));
          mapped = mapped_status st
      in case item_of campaignId phone s of
           None \<Rightarrow> (Inr Not_accepted, s)
         | Some i \<Rightarrow>
         (case dispatch_of i s of
           None \<Rightarrow> (Inl (Internal ''item without dispatch''), s)
         | Some dp \<Rightarrow>
         (case json_text (jget ''event'' payload) of
           None \<Rightarrow> (Inl (Internal ''event is required''), s)
         | Some event \<Rightarrow>
         (case store_event (ld_accountId dp) (callback_key e payload campaign phone) event payload s of
           None \<Rightarrow> (Inr Accepted_duplicate, s)
         | Some s1 \<Rightarrow>
         (case moved_item (lv_now e) mapped payload campaign i of
           None \<Rightarrow> (Inl (Internal ''invalid value''), s1)
         | Some i' \<Rightarrow>
             let s2 = s1\<lparr>ls_items := update_where (\<lambda>x. li_id x = li_id i)
                        (\<lambda>x. or_else (moved_item (lv_now e) mapped payload campaign x) x) (ls_items s1)\<rparr>
             in if \<not> text_or_nothing (jget ''recording_url'' campaign) then (Inl (Internal ''invalid value''), s2)
                else (Inr (Accepted mapped), s2\<lparr>pb_db := move_interactions e i dp campaignId st payload (pb_db s2)\<rparr>))))))"

definition processWebhook :: "ll_env \<Rightarrow> string option list \<Rightarrow> json option \<Rightarrow> ll_store \<Rightarrow> (ll_store, ll_answer) outcome" where
  "processWebhook e tokens payload s =
     (case authorizeWebhook e tokens payload of
        Some err \<Rightarrow> (Inl err, s)
      | None \<Rightarrow>
          let s1 = store_receipt (json_text (jpath [''event''] payload)) payload s; campaign = campaign_json payload
          in if \<not> truthy payload \<or> \<not> truthy (jpath [''id''] campaign) \<or> \<not> truthy (jpath [''phone''] campaign) \<or>
                \<not> truthy (jpath [''status''] campaign) then (Inr Not_accepted, s1)
             else process_callback e (the payload) (the campaign) s1)"

section \<open>Frames\<close>

lemma ll_attempts_log:
  "\<exists>k. k \<le> n \<and> (0 < n \<longrightarrow> 0 < k) \<and> snd (ll_attempts e m p b n s) = s\<lparr>ls_requests := ls_requests s @ replicate k (p, b)\<rparr>"
proof (induction n arbitrary: s)
  case (Suc n)
  let ?s1 = "log_request p b s"
  have one: "?s1 = s\<lparr>ls_requests := ls_requests s @ replicate 1 (p, b)\<rparr>" by (simp add: log_request_def)
  obtain k where k: "k \<le> n" "snd (ll_attempts e m p b n ?s1) = ?s1\<lparr>ls_requests := ls_requests ?s1 @ replicate k (p, b)\<rparr>"
    using Suc by blast
  have "snd (ll_attempts e m p b (Suc n) s) \<in> {?s1, snd (ll_attempts e m p b n ?s1)}"
    by (auto simp: Let_def split: ll_reply.splits)
  then show ?case
  proof
    assume "snd (ll_attempts e m p b (Suc n) s) = ?s1"
    then show ?thesis using one by (intro exI [of _ 1]) simp
  next
    assume "snd (ll_attempts e m p b (Suc n) s) \<in> {snd (ll_attempts e m p b n ?s1)}"
    then show ?thesis using k by (intro exI [of _ "Suc k"]) (simp add: log_request_def)
  qed
qed simp

lemma ll_request_log:
  assumes "ll_request e m p b s = (r, s')"
  obtains k where "k \<le> 3" and "s' = s\<lparr>ls_requests := ls_requests s @ replicate k (p, b)\<rparr>"
    and "\<not> unset (lv_apiToken e) \<and> \<not> unset (lv_appId e) \<longrightarrow> 0 < k"
proof (cases "unset (lv_apiToken e) \<or> unset (lv_appId e)")
  case True
  then show ?thesis using assms that [of 0] by (auto simp: ll_request_def)
next
  case False
  then have run: "snd (ll_attempts e m p b 3 s) = s'"
    using assms by (simp add: ll_request_def maxAttempts_def)
  obtain k where "k \<le> 3" "0 < k" "snd (ll_attempts e m p b 3 s) = s\<lparr>ls_requests := ls_requests s @ replicate k (p, b)\<rparr>"
    using ll_attempts_log [of 3 e m p b s] by auto
  with run show ?thesis by (intro that [of k]) simp_all
qed

definition only_links :: "ll_store \<Rightarrow> ll_store \<Rightarrow> bool" where
  \<comment> \<open>only links and the log of requests may differ, and the log grows\<close>
  "only_links s s' \<longleftrightarrow>
     (\<exists>ls rs. s' = s\<lparr>pb_links := ls, ls_requests := ls_requests s @ rs\<rparr>)"

lemma only_links_refl: "only_links s s"
  unfolding only_links_def by (rule exI [of _ "pb_links s"], rule exI [of _ "[]"]) simp

lemma only_links_trans: "only_links s s1 \<Longrightarrow> only_links s1 s2 \<Longrightarrow> only_links s s2"
proof -
  assume "only_links s s1" "only_links s1 s2"
  then obtain ls rs ls' rs' where "s1 = s\<lparr>pb_links := ls, ls_requests := ls_requests s @ rs\<rparr>"
    "s2 = s1\<lparr>pb_links := ls', ls_requests := ls_requests s1 @ rs'\<rparr>"
    by (auto simp: only_links_def)
  then have "s2 = s\<lparr>pb_links := ls', ls_requests := ls_requests s @ (rs @ rs')\<rparr>" by simp
  then show "only_links s s2" unfolding only_links_def by blast
qed

lemma only_linksD:
  assumes "only_links s s'"
  shows "pb_db s' = pb_db s" and "ls_dispatches s' = ls_dispatches s" and "ls_items s' = ls_items s"
    and "ls_events s' = ls_events s" and "ls_receipts s' = ls_receipts s" and "ls_agents s' = ls_agents s"
    and "ls_jobs s' = ls_jobs s" and "set (ls_requests s) \<subseteq> set (ls_requests s')"
  using assms by (auto simp: only_links_def)

lemma send_one_frame:
  assumes "send_one e title text cr (c, l) s = (r, s')"
  shows "only_links s s'" and "set (pb_links s') \<subseteq> set (pb_links s)"
    and "\<not> unset (lv_apiToken e) \<Longrightarrow> \<not> unset (lv_appId e) \<Longrightarrow>
      length (smsMessageWithPaymentLink e text (pl_token l) cr) \<le> 1600 \<Longrightarrow>
      \<exists>n. ls_requests s' = ls_requests s @
        replicate (Suc n) (''/v1/sms'', sms_body title (smsMessageWithPaymentLink e text (pl_token l) cr) c)"
    and "\<And>x. r = Inr x \<Longrightarrow> pb_links s' = pb_links s \<and> dc_contract x = c \<and> dc_link x = Some (pl_id l)"
proof -
  let ?m = "smsMessageWithPaymentLink e text (pl_token l) cr"
  obtain r1 s1 where run: "ll_request e ''POST'' ''/v1/sms'' (sms_body title ?m c) s = (r1, s1)"
    by (cases "ll_request e ''POST'' ''/v1/sms'' (sms_body title ?m c) s")
  obtain k where k: "s1 = s\<lparr>ls_requests := ls_requests s @ replicate k (''/v1/sms'', sms_body title ?m c)\<rparr>"
      "\<not> unset (lv_apiToken e) \<and> \<not> unset (lv_appId e) \<longrightarrow> 0 < k"
    by (rule ll_request_log [OF run])
  have out: "(r, s') = (if 1600 < length ?m
       then (Inl (BadRequest ''A mensagem de SMS, incluindo o link de pagamento, excede 1600 caracteres''), s)
       else case (r1, s1) of
         (Inr remote, s1) \<Rightarrow> (Inr \<lparr>dc_contract = c, dc_campaign = campaign_of remote, dc_message = Some ?m,
             dc_link = Some (pl_id l)\<rparr>, s1)
       | (Inl err, s1) \<Rightarrow> (Inl err, s1\<lparr>pb_links := filter (\<lambda>x. pl_id x \<noteq> pl_id l) (pb_links s1)\<rparr>))"
    using assms [symmetric] unfolding send_one_def Let_def prod.case run .
  have log: "only_links s s1" unfolding only_links_def k(1)
    by (rule exI [of _ "pb_links s"], rule exI) simp
  have cut: "only_links s1 (s1\<lparr>pb_links := ls\<rparr>)" for ls
    unfolding only_links_def by (rule exI [of _ ls], rule exI [of _ "[]"]) simp
  show "only_links s s'"
    using out log only_links_trans [OF log cut] only_links_refl by (auto split: if_splits sum.splits)
  show "set (pb_links s') \<subseteq> set (pb_links s)"
    using out by (auto simp: k(1) split: if_splits sum.splits)
  show "\<exists>n. ls_requests s' = ls_requests s @ replicate (Suc n) (''/v1/sms'', sms_body title ?m c)"
    if "\<not> unset (lv_apiToken e)" "\<not> unset (lv_appId e)" "length ?m \<le> 1600"
    using out k(2) that by (intro exI [of _ "k - 1"]) (auto simp: k(1) split: if_splits sum.splits)
  show "pb_links s' = pb_links s \<and> dc_contract x = c \<and> dc_link x = Some (pl_id l)" if "r = Inr x" for x
    using out that by (auto simp: k(1) split: if_splits sum.splits)
qed

definition sms_logged :: "ll_env \<Rightarrow> string \<Rightarrow> string \<Rightarrow> string option \<Rightarrow> contract \<times> access_link \<Rightarrow> (string \<times> json) set \<Rightarrow> bool" where
  \<comment> \<open>if the message of the pair can be sent at all, it is among the requests\<close>
  "sms_logged e title text cr p R \<longleftrightarrow>
     (let m = smsMessageWithPaymentLink e text (pl_token (snd p)) cr
      in \<not> unset (lv_apiToken e) \<and> \<not> unset (lv_appId e) \<and> length m \<le> 1600 \<longrightarrow>
         (''/v1/sms'', sms_body title m (fst p)) \<in> R)"

lemma sms_logged_mono: "sms_logged e title text cr p R \<Longrightarrow> R \<subseteq> R' \<Longrightarrow> sms_logged e title text cr p R'"
  unfolding sms_logged_def Let_def by blast

lemma send_all_frame:
  assumes "send_all e title text cr ps s = (r, s')"
  shows "only_links s s'" 
    and "\<exists>rs. ls_requests s' = ls_requests s @ rs \<and> (\<forall>p \<in> set ps. sms_logged e title text cr p (set rs))"
    and "\<forall>xs. r = Inr xs \<longrightarrow> pb_links s' = pb_links s \<and> map dc_contract xs = map fst ps \<and>
      map dc_link xs = map (\<lambda>p. Some (pl_id (snd p))) ps"
  using assms
proof (atomize (full), induction ps arbitrary: r s s')
  case (Cons p ps)
  obtain c l where p: "p = (c, l)" by (cases p)
  obtain r1 s1 where one: "send_one e title text cr (c, l) s = (r1, s1)"
    by (cases "send_one e title text cr (c, l) s")
  obtain rs s2 where rest: "send_all e title text cr ps s1 = (rs, s2)"
    by (cases "send_all e title text cr ps s1")
  have s': "s' = s2" and r: "r = (case (r1, rs) of (Inl err, _) \<Rightarrow> Inl err | (Inr x, Inl err) \<Rightarrow> Inl err
      | (Inr x, Inr xs) \<Rightarrow> Inr (x # xs))"
    using Cons.prems one rest by (auto simp: p)
  note f1 = send_one_frame [OF one]
  have f2: "only_links s1 s2"
      "\<exists>rs. ls_requests s2 = ls_requests s1 @ rs \<and> (\<forall>p \<in> set ps. sms_logged e title text cr p (set rs))"
      "\<forall>xs. rs = Inr xs \<longrightarrow> pb_links s2 = pb_links s1 \<and> map dc_contract xs = map fst ps \<and>
        map dc_link xs = map (\<lambda>p. Some (pl_id (snd p))) ps"
    using Cons.IH [OF rest] by blast+
  obtain ys where ys: "ls_requests s2 = ls_requests s1 @ ys" "\<forall>p \<in> set ps. sms_logged e title text cr p (set ys)"
    using f2(2) by blast
  obtain qs where qs: "ls_requests s1 = ls_requests s @ qs" using f1(1) by (auto simp: only_links_def)
  have "sms_logged e title text cr p (set qs)" using f1(3) qs by (auto simp: sms_logged_def p Let_def)
  then have "\<forall>q \<in> set (p # ps). sms_logged e title text cr q (set (qs @ ys))"
    using ys(2) by (auto intro: sms_logged_mono)
  then have "\<exists>rs. ls_requests s' = ls_requests s @ rs \<and> (\<forall>q \<in> set (p # ps). sms_logged e title text cr q (set rs))"
    using ys(1) qs by (intro exI [of _ "qs @ ys"]) (simp add: s')
  moreover have "only_links s s'" unfolding s' by (rule only_links_trans [OF f1(1) f2(1)])
  moreover have "pb_links s' = pb_links s \<and> map dc_contract xs = map fst (p # ps) \<and>
      map dc_link xs = map (\<lambda>p. Some (pl_id (snd p))) (p # ps)" if "r = Inr xs" for xs
  proof -
    obtain x ys where "r1 = Inr x" "rs = Inr ys" "xs = x # ys"
      using \<open>r = Inr xs\<close> r by (cases r1; cases rs) auto
    then show ?thesis using f1(4) f2(3) by (simp add: s' p)
  qed
  ultimately show ?case by blast
qed (simp add: only_links_refl)


lemma create_links_spec:
  assumes "create_links e w acc cs s = (ps, s1)"
  shows "map fst ps = cs" and "pb_links s1 = pb_links s @ map snd ps" and "map (pl_contractId \<circ> snd) ps = map ct_id cs"
    and "map (pl_id \<circ> snd) ps = map (\<lambda>i. lv_gen e (nextId (pb_db s) + 2 * i)) [0..<length cs]"
    and "\<forall>p \<in> set ps. pl_expiresAt (snd p) = lv_now e + 7 * 24 * 60 * 60 * 1000 \<and> pl_openedAt (snd p) = None"
    and "\<exists>n. pb_db s1 = (pb_db s)\<lparr>nextId := n\<rparr>" and "nextId (pb_db s1) = nextId (pb_db s) + 2 * length cs"
    and "ls_dispatches s1 = ls_dispatches s" and "ls_items s1 = ls_items s" and "ls_events s1 = ls_events s"
    and "ls_requests s1 = ls_requests s" and "ls_receipts s1 = ls_receipts s"
    and "map (pl_token \<circ> snd) ps = map (\<lambda>i. lv_gen e (nextId (pb_db s) + 2 * i + 1)) [0..<length cs]"
  using assms
proof (atomize (full), induction cs arbitrary: s ps)
  case Nil
  then show ?case by (auto intro: exI [of _ "nextId (pb_db s)"])
next
  case (Cons c cs)
  obtain l s0 where l: "new_link e w acc c s = (l, s0)" by (cases "new_link e w acc c s")
  obtain qs s2 where rest: "create_links e w acc cs s0 = (qs, s2)" by (cases "create_links e w acc cs s0")
  have s: "ps = (c, l) # qs" "s1 = s2" using Cons.prems l rest by simp_all
  have ids: "[0..<length (c # cs)] = 0 # map Suc [0..<length cs]"
    by (simp add: upt_conv_Cons map_Suc_upt del: upt_Suc)
  have l': "l = \<lparr>pl_id = lv_gen e (nextId (pb_db s)), pl_token = lv_gen e (Suc (nextId (pb_db s))), pl_accountId = acc,
      pl_walletId = w, pl_contractId = ct_id c, pl_interactionId = None,
      pl_expiresAt = lv_now e + 7 * 24 * 60 * 60 * 1000, pl_openedAt = None\<rparr>"
    and s0: "s0 = s\<lparr>pb_links := pb_links s @ [l], pb_db := (pb_db s)\<lparr>nextId := nextId (pb_db s) + 2\<rparr>\<rparr>"
    using l by (auto simp: new_link_def Let_def)
  have IH: "map fst qs = cs" "pb_links s2 = pb_links s0 @ map snd qs" "map (pl_contractId \<circ> snd) qs = map ct_id cs"
    "map (pl_id \<circ> snd) qs = map (\<lambda>i. lv_gen e (nextId (pb_db s0) + 2 * i)) [0..<length cs]"
    "\<forall>p \<in> set qs. pl_expiresAt (snd p) = lv_now e + 7 * 24 * 60 * 60 * 1000 \<and> pl_openedAt (snd p) = None"
    "\<exists>n. pb_db s2 = (pb_db s0)\<lparr>nextId := n\<rparr>" "nextId (pb_db s2) = nextId (pb_db s0) + 2 * length cs"
    "ls_dispatches s2 = ls_dispatches s0" "ls_items s2 = ls_items s0" "ls_events s2 = ls_events s0"
    "ls_requests s2 = ls_requests s0" "ls_receipts s2 = ls_receipts s0"
    "map (pl_token \<circ> snd) qs = map (\<lambda>i. lv_gen e (nextId (pb_db s0) + 2 * i + 1)) [0..<length cs]"
    using Cons.IH [OF rest [folded s(2)]] unfolding s(2) by blast+
  have "map (pl_id \<circ> snd) ps = map (\<lambda>i. lv_gen e (nextId (pb_db s) + 2 * i)) [0..<length (c # cs)]"
    unfolding ids using IH(4) by (simp add: s(1) l' s0 comp_def)
  moreover have "map (pl_token \<circ> snd) ps = map (\<lambda>i. lv_gen e (nextId (pb_db s) + 2 * i + 1)) [0..<length (c # cs)]"
    unfolding ids using IH(13) by (simp add: s(1) l' s0 comp_def)
  moreover have "\<exists>n. pb_db s2 = (pb_db s)\<lparr>nextId := n\<rparr>" using IH(6) by (auto simp: s0)
  ultimately show ?case
    using IH(1-3,5,7-) by (simp add: s l' s0 comp_def)
qed

lemma tie_links:
  assumes "map f xs = map (\<lambda>l. Some (g l)) ls" and "length xs = length ys" and "distinct (map g ls)"
  shows "map (\<lambda>l. case List.find (\<lambda>p. f (fst p) = Some (g l)) (zip xs ys) of None \<Rightarrow> l | Some p \<Rightarrow> h l (snd p)) ls = map2 h ls ys"
proof -
  have len: "length ls = length xs" using assms(1) by (metis length_map)
  show ?thesis
    using len assms(2,1,3)
  proof (induction ls xs ys rule: list_induct3)
    case (Cons l ls x xs y ys)
    have "(case List.find (\<lambda>p. f (fst p) = Some (g z)) (zip (x # xs) (y # ys)) of None \<Rightarrow> z | Some p \<Rightarrow> h z (snd p)) =
        (case List.find (\<lambda>p. f (fst p) = Some (g z)) (zip xs ys) of None \<Rightarrow> z | Some p \<Rightarrow> h z (snd p))" if "z \<in> set ls" for z
      using that Cons.prems by auto
    then have "map (\<lambda>l. case List.find (\<lambda>p. f (fst p) = Some (g l)) (zip (x # xs) (y # ys)) of None \<Rightarrow> l | Some p \<Rightarrow> h l (snd p)) ls
        = map (\<lambda>l. case List.find (\<lambda>p. f (fst p) = Some (g l)) (zip xs ys) of None \<Rightarrow> l | Some p \<Rightarrow> h l (snd p)) ls"
      by (intro map_cong refl)
    also have "\<dots> = map2 h ls ys" using Cons.IH Cons.prems by simp
    finally have "map (\<lambda>l. case List.find (\<lambda>p. f (fst p) = Some (g l)) (zip (x # xs) (y # ys)) of None \<Rightarrow> l | Some p \<Rightarrow> h l (snd p)) ls
        = map2 h ls ys" .
    then show ?case using Cons.prems by simp
  qed simp
qed

definition links_ok :: "(nat \<Rightarrow> string) \<Rightarrow> ll_store \<Rightarrow> bool" where
  \<comment> \<open>the identifiers of links were drawn before\<close>
  "links_ok gen s \<longleftrightarrow> inj gen \<and> pl_id ` set (pb_links s) \<subseteq> gen ` {..<nextId (pb_db s)}"

lemma map2_map [simp]: "map f (map2 h xs ys) = map2 (\<lambda>x y. f (h x y)) xs ys"
  by (induction xs arbitrary: ys) (auto simp: zip_Cons1 split: list.splits)

lemma map2_fst: "length xs = length ys \<Longrightarrow> map2 (\<lambda>x y. f x) xs ys = map f xs"
  by (induction xs ys rule: list_induct2) auto

lemma map2_snd: "length xs = length ys \<Longrightarrow> map2 (\<lambda>x y. f y) xs ys = map f ys"
  by (induction xs ys rule: list_induct2) auto

lemma sendSms_cases:
  assumes "sendSms e w acc u title text ids scopes s = (r, s')"
  obtains (refused) err where "r = Inl err" and "s' = s"
      and "ll_wallet w acc scopes s = Inl err \<or> eligibleContracts w acc ids (pb_db s) = Inl err"
  | (failed) err wl cs ps s1 where "r = Inl err" and "ll_wallet w acc scopes s = Inr wl"
      and "eligibleContracts w acc ids (pb_db s) = Inr cs" and "create_links e w acc cs s = (ps, s1)"
      and "send_all e title text (creditor_name wl (pb_db s)) ps s1 = (Inl err, s')"
  | (unrecorded) err wl cs ps s1 xs where "r = Inl err" and "ll_wallet w acc scopes s = Inr wl"
      and "eligibleContracts w acc ids (pb_db s) = Inr cs" and "create_links e w acc cs s = (ps, s1)"
      and "send_all e title text (creditor_name wl (pb_db s)) ps s1 = (Inr xs, s')"
      and "createDispatchWithInteractions e acc w u D_SMS title None xs s' = (Inl err, s')"
  | (sent) dp wl cs ps s1 xs s2 where "r = Inr dp" and "ll_wallet w acc scopes s = Inr wl"
      and "eligibleContracts w acc ids (pb_db s) = Inr cs" and "create_links e w acc cs s = (ps, s1)"
      and "send_all e title text (creditor_name wl (pb_db s)) ps s1 = (Inr xs, s2)"
      and "createDispatchWithInteractions e acc w u D_SMS title None xs s2 = (Inr dp, s')"
proof (cases "ll_wallet w acc scopes s")
  case (Inl err)
  then show ?thesis using refused assms by (auto simp: sendSms_def)
next
  case wl: (Inr wl)
  show ?thesis
  proof (cases "eligibleContracts w acc ids (pb_db s)")
    case (Inl err)
    then show ?thesis using refused assms wl by (auto simp: sendSms_def)
  next
    case cs: (Inr cs)
    obtain ps s1 where ps: "create_links e w acc cs s = (ps, s1)" by (cases "create_links e w acc cs s")
    obtain r2 s2 where r2: "send_all e title text (creditor_name wl (pb_db s)) ps s1 = (r2, s2)"
      by (cases "send_all e title text (creditor_name wl (pb_db s)) ps s1")
    show ?thesis
    proof (cases r2)
      case (Inl err)
      then show ?thesis using failed assms wl cs ps r2 by (auto simp: sendSms_def)
    next
      case xs: (Inr xs)
      have run: "createDispatchWithInteractions e acc w u D_SMS title None xs s2 = (r, s')"
        using assms wl cs ps r2 xs by (simp add: sendSms_def)
      show ?thesis
      proof (cases r)
        case (Inl err)
        then have "s' = s2" using run by (auto simp: createDispatchWithInteractions_def Let_def split: if_splits)
        then show ?thesis using unrecorded [of err] run wl cs ps r2 xs Inl by simp
      next
        case (Inr dp)
        then show ?thesis using sent run wl cs ps r2 xs by simp
      qed
    qed
  qed
qed


lemma dispatch_spec:
  assumes "createDispatchWithInteractions e acc w u type title ext xs s = (Inr dp, s')"
    and "pb_links s = old @ ls" and "map dc_link xs = map (\<lambda>l. Some (pl_id l)) ls" and "distinct (map pl_id ls)"
    and "pl_id ` set old \<inter> pl_id ` set ls = {}"
  obtains ias its where "ls_dispatches s' = ls_dispatches s @ [dp]" and "ld_totalItems dp = length xs"
    and "ls_items s' = ls_items s @ its" and "map li_contractId its = map (ct_id \<circ> dc_contract) xs"
    and "\<forall>i \<in> set its. li_status i = DI_PENDING \<and> li_dispatchId i = ld_id dp"
    and "interactions (pb_db s') = interactions (pb_db s) @ ias" and "map ia_contractId ias = map (ct_id \<circ> dc_contract) xs"
    and "\<forall>i \<in> set ias. ia_status i = IA_QUEUED" and "length ias = length xs"
    and "pb_links s' = old @ map2 (\<lambda>l i. l\<lparr>pl_interactionId := Some (ia_id i)\<rparr>) ls ias"
    and "contracts (pb_db s') = contracts (pb_db s)" and "ls_requests s' = ls_requests s"
proof -
  let ?n = "nextId (pb_db s)" and ?k = "length xs"
  define dp' where "dp' = \<lparr>ld_id = lv_gen e ?n, ld_accountId = acc, ld_walletId = w, ld_userId = u, ld_type = type,
      ld_title = title, ld_externalId = json_text ext, ld_totalItems = ?k\<rparr>"
  define ias where "ias = map2 (dispatch_interaction e dp') xs [Suc ?n + ?k..<Suc ?n + ?k + ?k]"
  define its where "its = map2 (new_dispatch_item (lv_gen e) dp') xs [Suc ?n..<Suc ?n + ?k]"
  define tie where "tie = (\<lambda>l :: access_link. case List.find (\<lambda>p. dc_link (fst p) = Some (pl_id l)) (zip xs ias) of
                       None \<Rightarrow> l | Some p \<Rightarrow> l\<lparr>pl_interactionId := Some (ia_id (snd p))\<rparr>)"
  have dp: "dp = dp'" and s': "s' = s\<lparr>ls_dispatches := ls_dispatches s @ [dp'], ls_items := ls_items s @ its,
      pb_links := map tie (pb_links s),
      pb_db := (pb_db s)\<lparr>interactions := interactions (pb_db s) @ ias, nextId := Suc ?n + ?k + ?k\<rparr>\<rparr>"
    using assms(1) unfolding createDispatchWithInteractions_def Let_def
    by (auto simp: dp'_def ias_def its_def tie_def split: if_splits)
  have len: "length ias = ?k" by (simp add: ias_def del: upt_Suc)
  have none: "List.find (\<lambda>p. dc_link (fst p) = Some (pl_id l)) (zip xs ias) = None" if "l \<in> set old" for l
  proof -
    have "dc_link x \<noteq> Some (pl_id l)" if x: "x \<in> set xs" for x
    proof -
      have "dc_link x \<in> (\<lambda>l. Some (pl_id l)) ` set ls" using x assms(3) by (metis image_eqI list.set_map)
      then obtain l' where "l' \<in> set ls" "dc_link x = Some (pl_id l')" by blast
      then show ?thesis using \<open>l \<in> set old\<close> assms(5) by auto
    qed
    then show ?thesis by (auto simp: find_None_iff dest!: set_zip_leftD)
  qed
  have "map tie old = old" by (rule map_idI) (simp add: tie_def none)
  moreover have "map tie ls = map2 (\<lambda>l i. l\<lparr>pl_interactionId := Some (ia_id i)\<rparr>) ls ias"
    unfolding tie_def by (rule tie_links [OF assms(3) _ assms(4)]) (simp add: len)
  moreover have "map ia_contractId ias = map (ct_id \<circ> dc_contract) xs"
    unfolding ias_def map2_map by (simp add: dispatch_interaction_def map2_fst comp_def del: upt_Suc)
  moreover have "map li_contractId its = map (ct_id \<circ> dc_contract) xs"
    unfolding its_def map2_map by (simp add: new_dispatch_item_def map2_fst comp_def del: upt_Suc)
  moreover have "\<forall>i \<in> set ias. ia_status i = IA_QUEUED" by (auto simp: ias_def dispatch_interaction_def)
  moreover have "\<forall>i \<in> set its. li_status i = DI_PENDING \<and> li_dispatchId i = ld_id dp"
    by (auto simp: its_def new_dispatch_item_def dp)
  ultimately show ?thesis
    using assms(2) len by (intro that [of its ias]) (simp_all add: s' dp, simp add: dp'_def)
qed

text \<open>
  C37. When the messages of a selection have all been accepted, every selected contract (active, unpaid, with
  a telephone, of the wallet) has one item, one queued interaction and one link of its own that is good
  for seven days and tied to that interaction; older links and the contracts stay as they were.
\<close>

theorem sendSms_effect:
  assumes "sendSms e w acc u title text ids scopes s = (Inr dp, s')" and "links_ok (lv_gen e) s"
  shows "\<exists>cs its ias ls. cs = filter (sms_eligible w acc ids) (contracts (pb_db s)) \<and> length cs = length ids \<and>
    ls_dispatches s' = ls_dispatches s @ [dp] \<and> ld_totalItems dp = length cs \<and>
    ls_items s' = ls_items s @ its \<and> map li_contractId its = map ct_id cs \<and>
    (\<forall>i \<in> set its. li_status i = DI_PENDING \<and> li_dispatchId i = ld_id dp) \<and>
    interactions (pb_db s') = interactions (pb_db s) @ ias \<and> map ia_contractId ias = map ct_id cs \<and>
    (\<forall>i \<in> set ias. ia_status i = IA_QUEUED) \<and>
    pb_links s' = pb_links s @ ls \<and> map pl_contractId ls = map ct_id cs \<and>
    map pl_interactionId ls = map (Some \<circ> ia_id) ias \<and>
    (\<forall>l \<in> set ls. pl_expiresAt l = lv_now e + 7 * 24 * 60 * 60 * 1000 \<and> pl_openedAt l = None) \<and>
    contracts (pb_db s') = contracts (pb_db s)"
proof (cases rule: sendSms_cases [OF assms(1)])
  case (4 dp' wl cs ps s1 xs s2)
  note made = create_links_spec [OF 4(4)]
  note sent = send_all_frame [OF 4(5)]
  have cs: "cs = filter (sms_eligible w acc ids) (contracts (pb_db s))" "length cs = length ids"
    using 4(3) by (auto simp: eligibleContracts_def Let_def split: if_splits)
  have xs: "map dc_contract xs = cs" "map dc_link xs = map (\<lambda>l. Some (pl_id l)) (map snd ps)" "pb_links s2 = pb_links s1"
    using sent(3) made(1) by (simp_all add: comp_def)
  have len: "length ps = length cs" using made(1) by (metis length_map)
  have inj: "inj (lv_gen e)" using assms(2) by (simp add: links_ok_def)
  have ids: "map pl_id (map snd ps) = map (\<lambda>i. lv_gen e (nextId (pb_db s) + 2 * i)) [0..<length cs]"
    using made(4) by simp
  then have new: "pl_id ` set (map snd ps) = (\<lambda>i. lv_gen e (nextId (pb_db s) + 2 * i)) ` {0..<length cs}"
    by (metis (no_types, lifting) list.set_map set_upt)
  have dist: "distinct (map pl_id (map snd ps))"
    unfolding ids distinct_map by (intro conjI inj_onI distinct_upt) (drule injD [OF inj], simp)
  have disj: "pl_id ` set (pb_links s) \<inter> pl_id ` set (map snd ps) = {}"
  proof -
    have "(\<lambda>i. lv_gen e (nextId (pb_db s) + 2 * i)) ` {0..<length cs} \<inter> lv_gen e ` {..<nextId (pb_db s)} = {}"
    proof (rule equals0I)
      fix x
      assume "x \<in> (\<lambda>i. lv_gen e (nextId (pb_db s) + 2 * i)) ` {0..<length cs} \<inter> lv_gen e ` {..<nextId (pb_db s)}"
      then obtain i k where "lv_gen e (nextId (pb_db s) + 2 * i) = lv_gen e k" "k < nextId (pb_db s)"
        by blast
      then show False using injD [OF inj] by fastforce
    qed
    then show ?thesis using assms(2) unfolding new links_ok_def by blast
  qed
  have links: "pb_links s2 = pb_links s @ map snd ps" using xs(3) made(2) by simp
  obtain ias its where out: "ls_dispatches s' = ls_dispatches s2 @ [dp']" "ld_totalItems dp' = length xs"
    "ls_items s' = ls_items s2 @ its" "map li_contractId its = map (ct_id \<circ> dc_contract) xs"
    "\<forall>i \<in> set its. li_status i = DI_PENDING \<and> li_dispatchId i = ld_id dp'"
    "interactions (pb_db s') = interactions (pb_db s2) @ ias" "map ia_contractId ias = map (ct_id \<circ> dc_contract) xs"
    "\<forall>i \<in> set ias. ia_status i = IA_QUEUED" "length ias = length xs"
    "pb_links s' = pb_links s @ map2 (\<lambda>l i. l\<lparr>pl_interactionId := Some (ia_id i)\<rparr>) (map snd ps) ias"
    "contracts (pb_db s') = contracts (pb_db s2)"
    by (rule dispatch_spec [OF 4(6) links xs(2) dist disj])
  have lx: "length xs = length cs" using xs(1) by (metis length_map)
  let ?ls = "map2 (\<lambda>l i. l\<lparr>pl_interactionId := Some (ia_id i)\<rparr>) (map snd ps) ias"
  have contr: "map (ct_id \<circ> dc_contract) xs = map ct_id cs" using xs(1) by (metis map_map)
  have frame: "ls_dispatches s2 = ls_dispatches s" "ls_items s2 = ls_items s"
      "interactions (pb_db s2) = interactions (pb_db s)" "contracts (pb_db s2) = contracts (pb_db s)"
    using only_linksD [OF sent(1)] made(6,8,9) by auto
  have "map pl_contractId ?ls = map ct_id cs"
    unfolding map2_map using made(3) len lx out(9) by (simp add: map2_fst comp_def)
  moreover have "map pl_interactionId ?ls = map (Some \<circ> ia_id) ias"
    unfolding map2_map using len lx out(9) by (simp add: map2_snd comp_def)
  moreover have "\<forall>l \<in> set ?ls. pl_expiresAt l = lv_now e + 7 * 24 * 60 * 60 * 1000 \<and> pl_openedAt l = None"
    using made(5) by (auto dest!: set_zip_leftD)
  ultimately show ?thesis
    using out cs 4(1) lx contr unfolding frame by (intro exI [of _ cs] exI [of _ its] exI [of _ ias] exI [of _ ?ls]) simp
qed simp_all

definition planned_message :: "ll_env \<Rightarrow> string \<Rightarrow> string option \<Rightarrow> ll_store \<Rightarrow> nat \<Rightarrow> string" where
  \<comment> \<open>the message for the \<open>i\<close>-th contract of a selection, with the token its link will draw\<close>
  "planned_message e text cr s i =
     smsMessageWithPaymentLink e text (lv_gen e (nextId (pb_db s) + 2 * i + 1)) cr"

lemma all_handed_over:
  assumes "create_links e w acc cs s = (ps, s1)" and "send_all e title text cr ps s1 = (r, s2)"
    and "\<not> unset (lv_apiToken e)" and "\<not> unset (lv_appId e)"
    and "\<forall>i < length cs. length (planned_message e text cr s i) \<le> 1600"
  shows "\<exists>rs. ls_requests s2 = ls_requests s @ rs \<and>
    (\<forall>i < length cs. (''/v1/sms'', sms_body title (planned_message e text cr s i) (cs ! i)) \<in> set rs)"
proof -
  note made = create_links_spec [OF assms(1)]
  obtain rs where rs: "ls_requests s2 = ls_requests s1 @ rs" "\<forall>p \<in> set ps. sms_logged e title text cr p (set rs)"
    using send_all_frame(2) [OF assms(2)] by blast
  have len: "length ps = length cs" using made(1) by (metis length_map)
  have "(''/v1/sms'', sms_body title (planned_message e text cr s i) (cs ! i)) \<in> set rs" if i: "i < length cs" for i
  proof -
    have "fst (ps ! i) = cs ! i" using made(1) i len by (metis nth_map)
    moreover have "pl_token (snd (ps ! i)) = lv_gen e (nextId (pb_db s) + 2 * i + 1)"
      using arg_cong [OF made(13), of "\<lambda>xs. xs ! i"] i len by simp
    moreover have "sms_logged e title text cr (ps ! i) (set rs)" using rs(2) i len by simp
    ultimately show ?thesis
      using assms(3-5) i by (simp add: sms_logged_def Let_def planned_message_def)
  qed
  then show ?thesis using rs(1) made(11) by auto
qed

text \<open>
  C38. When one message of a selection fails, or the provider's answers cannot be stored, the answer is an
  error and neither a dispatch nor an item nor an interaction is stored, although the message of every
  selected contract, with the link drawn for it, has been handed to the provider all the same.
\<close>

theorem failed_batch_unrecorded:
  assumes "sendSms e w acc u title text ids scopes s = (Inl err, s')"
    and "ll_wallet w acc scopes s = Inr wl" and "eligibleContracts w acc ids (pb_db s) = Inr cs"
    and "\<not> unset (lv_apiToken e)" and "\<not> unset (lv_appId e)"
    and "\<forall>i < length cs. length (planned_message e text (creditor_name wl (pb_db s)) s i) \<le> 1600"
  shows "ls_dispatches s' = ls_dispatches s \<and> ls_items s' = ls_items s \<and>
    interactions (pb_db s') = interactions (pb_db s) \<and>
    (\<exists>rs. ls_requests s' = ls_requests s @ rs \<and>
      (\<forall>i < length cs. (''/v1/sms'', sms_body title (planned_message e text (creditor_name wl (pb_db s)) s i) (cs ! i)) \<in> set rs))"
proof -
  have run: ?thesis if "create_links e w acc cs s = (ps, s1)"
      "send_all e title text (creditor_name wl (pb_db s)) ps s1 = (r, s')" for ps s1 r
    using all_handed_over [OF that assms(4-6)] only_linksD [OF send_all_frame(1) [OF that(2)]]
      create_links_spec(6,8,9) [OF that(1)] by auto
  show ?thesis
    by (cases rule: sendSms_cases [OF assms(1)]) (use assms(2,3) run in simp_all)
qed


section \<open>Filtered dispatches\<close>

lemma sendSms_db:
  assumes "sendSms e w acc u title text ids scopes s = (r, s')"
  shows "\<exists>ias n. pb_db s' = (pb_db s)\<lparr>interactions := ias, nextId := n\<rparr>"
proof (cases rule: sendSms_cases [OF assms])
  case (1 err)
  then show ?thesis by (intro exI [of _ "interactions (pb_db s)"] exI [of _ "nextId (pb_db s)"]) simp
next
  case (2 err wl cs ps s1)
  obtain n where "pb_db s1 = (pb_db s)\<lparr>nextId := n\<rparr>" using create_links_spec(6) [OF 2(4)] by blast
  then show ?thesis
    using only_linksD(1) [OF send_all_frame(1) [OF 2(5)]]
    by (intro exI [of _ "interactions (pb_db s)"] exI [of _ n]) simp
next
  case (3 err wl cs ps s1 xs)
  obtain n where "pb_db s1 = (pb_db s)\<lparr>nextId := n\<rparr>" using create_links_spec(6) [OF 3(4)] by blast
  then show ?thesis
    using only_linksD(1) [OF send_all_frame(1) [OF 3(5)]]
    by (intro exI [of _ "interactions (pb_db s)"] exI [of _ n]) simp
next
  case (4 dp wl cs ps s1 xs s2)
  obtain n where "pb_db s1 = (pb_db s)\<lparr>nextId := n\<rparr>" using create_links_spec(6) [OF 4(4)] by blast
  then have "pb_db s2 = (pb_db s)\<lparr>nextId := n\<rparr>"
    using only_linksD(1) [OF send_all_frame(1) [OF 4(5)]] by simp
  then show ?thesis
    using 4(6) by (intro exI [of _ "interactions (pb_db s')"] exI [of _ "nextId (pb_db s')"])
      (auto simp: createDispatchWithInteractions_def Let_def split: if_splits simp del: upt_Suc)
qed

lemma list_frame:
  "listContracts order sha q v b (d\<lparr>interactions := x, nextId := n\<rparr>) = listContracts order sha q v b d"
proof -
  let ?d = "d\<lparr>interactions := x, nextId := n\<rparr>"
  have w: "wallet_of ?d = wallet_of d" and t: "tags_of ?d = tags_of d"
    by (simp_all add: fun_eq_iff wallet_of_def tags_of_def)
  have c: "of_creditor ?d = of_creditor d" by (simp add: fun_eq_iff of_creditor_def w)
  have "listed sha q v ?d = listed sha q v d" by (rule ext) (simp only: listed_def creditor_ok_def c t)
  moreover have "shown v ?d = shown v d" by (rule ext) (simp only: shown_def t)
  ultimately show ?thesis by (simp add: listContracts_def)
qed

definition filtered_rows ::
  "(row_order \<Rightarrow> contract list \<Rightarrow> contract list) \<Rightarrow> ll_env \<Rightarrow> sms_job \<Rightarrow> database \<Rightarrow> contract list" where
  \<comment> \<open>all rows of the query of a job\<close>
  "filtered_rows order e j d =
     (let q = (sj_query j)\<lparr>lq_walletId := Some (sj_walletId j)\<rparr>;
          v = \<lparr>vw_accountId = sj_accountId j, vw_role = ADMIN, vw_scopes = sj_scopes j, vw_portalCreditorId = None\<rparr>
      in order (list_order q v) (filter (listed (lv_sha e) q v d) (contracts d)))"

lemma query_page:
  "listed sha (q\<lparr>lq_page := p, lq_limit := l\<rparr>) v d = listed sha q v d"
  "list_order (q\<lparr>lq_page := p, lq_limit := l\<rparr>) v = list_order q v"
proof -
  show "listed sha (q\<lparr>lq_page := p, lq_limit := l\<rparr>) v d = listed sha q v d"
    by (simp add: fun_eq_iff listed_def creditor_ok_def wallet_filter_def status_ok_def serasa_ok_def document_ok_def
        text_search_ok_def search_term_def)
  show "list_order (q\<lparr>lq_page := p, lq_limit := l\<rparr>) v = list_order q v"
    by (simp add: list_order_def)
qed

lemma filtered_page_rows:
  "filtered_page order e j p s = take 100 (drop ((p - 1) * 100) (filtered_rows order e j (pb_db s)))"
proof -
  let ?v = "\<lparr>vw_accountId = sj_accountId j, vw_role = ADMIN, vw_scopes = sj_scopes j, vw_portalCreditorId = None\<rparr>"
  let ?q = "(sj_query j)\<lparr>lq_walletId := Some (sj_walletId j)\<rparr>"
  have "\<not> portal_refused (?q\<lparr>lq_page := p, lq_limit := 100\<rparr>) ?v" "\<not> scope_refused (?q\<lparr>lq_page := p, lq_limit := 100\<rparr>) ?v"
    by (simp_all add: portal_refused_def portal_def scope_refused_def)
  moreover have "map fst (map (shown ?v d) xs) = xs" for d xs
    by (simp add: shown_def comp_def)
  ultimately show ?thesis
    by (simp add: filtered_page_def listContracts_def query_page filtered_rows_def Let_def)
qed

lemma filtered_rows_frame:
  assumes "sendSms e w acc u title text ids scopes s = (r, s')"
  shows "filtered_rows order e j (pb_db s') = filtered_rows order e j (pb_db s)"
proof -
  obtain x n where d: "pb_db s' = (pb_db s)\<lparr>interactions := x, nextId := n\<rparr>" using sendSms_db [OF assms] by blast
  let ?d = "(pb_db s)\<lparr>interactions := x, nextId := n\<rparr>"
  have w: "wallet_of ?d = wallet_of (pb_db s)" and t: "tags_of ?d = tags_of (pb_db s)"
    by (simp_all add: fun_eq_iff wallet_of_def tags_of_def)
  have c: "of_creditor ?d = of_creditor (pb_db s)" by (simp add: fun_eq_iff of_creditor_def w)
  have "listed sha q v ?d = listed sha q v (pb_db s)" for sha q v
    by (rule ext) (simp only: listed_def creditor_ok_def c t)
  then show ?thesis by (simp add: filtered_rows_def d Let_def)
qed

lemma filtered_loop_result:
  assumes "length (filtered_rows order e j (pb_db s)) < (p - 1 + k) * 100" and "1 \<le> p"
    and "(p - 1) * 100 \<le> length (filtered_rows order e j (pb_db s))"
  shows "\<exists>r s'. filtered_loop order e j k p a b s = Some (r, s') \<and>
    (\<forall>x y. r = Inr (x, y) \<longrightarrow> x + y + (p - 1) * 100 = a + b + length (filtered_rows order e j (pb_db s)))"
  using assms
proof (induction k arbitrary: p a b s)
  case 0
  then show ?case by simp
next
  case (Suc k)
  let ?R = "filtered_rows order e j (pb_db s)"
  define rows where "rows = filtered_page order e j p s"
  define ids where "ids = map ct_id (filter sms_reachable rows)"
  have rows: "rows = take 100 (drop ((p - 1) * 100) ?R)" by (simp add: rows_def filtered_page_rows)
  have len: "length rows = min 100 (length ?R - (p - 1) * 100)" by (simp add: rows)
  have ids: "length ids \<le> length rows" by (simp add: ids_def)
  have next_page: "Suc p - 1 = Suc (p - 1)" using Suc.prems(2) by simp
  have step: "\<exists>r s'. filtered_loop order e j k (Suc p) a' b' s0 = Some (r, s') \<and>
      (\<forall>x y. r = Inr (x, y) \<longrightarrow> x + y + (p - 1) * 100 = a + b + length ?R)"
    if "\<not> length rows < 100" "filtered_rows order e j (pb_db s0) = ?R" "a' + b' = a + b + length rows" for a' b' s0
  proof -
    have full: "length rows = 100" "(Suc p - 1) * 100 \<le> length ?R"
      using that(1) len Suc.prems(3) unfolding next_page by simp_all
    have "length (filtered_rows order e j (pb_db s0)) < (Suc p - 1 + k) * 100"
      using Suc.prems(1) that(2) unfolding next_page by simp
    from Suc.IH [OF this, of a' b', unfolded that(2)] full(2)
    obtain r s' where "filtered_loop order e j k (Suc p) a' b' s0 = Some (r, s')"
      "\<forall>x y. r = Inr (x, y) \<longrightarrow> x + y + (Suc p - 1) * 100 = a' + b' + length ?R"
      by auto
    then show ?thesis using that(3) full(1) unfolding next_page by auto
  qed
  have stop: "a + b + length rows + (p - 1) * 100 = a + b + length ?R" if "length rows < 100"
    using that len Suc.prems(3) by simp
  have unfold: "filtered_loop order e j (Suc k) p a b s =
     (if rows = [] then Some (Inr (a, b), s)
         else if ids = []
         then (if length rows < 100 then Some (Inr (a, b + (length rows - length ids)), s)
               else filtered_loop order e j k (Suc p) a (b + (length rows - length ids)) s)
         else (case sendSms e (sj_walletId j) (sj_accountId j) (sj_userId j) (sj_title j) (sj_message j) ids (sj_scopes j) s of
                 (Inl err, s1) \<Rightarrow> Some (Inl err, s1)
               | (Inr _, s1) \<Rightarrow>
                   if length rows < 100 then Some (Inr (a + length ids, b + (length rows - length ids)), s1)
                   else filtered_loop order e j k (Suc p) (a + length ids) (b + (length rows - length ids)) s1))"
    by (simp only: filtered_loop.simps Let_def rows_def ids_def)
  obtain r1 s1 where run: "sendSms e (sj_walletId j) (sj_accountId j) (sj_userId j) (sj_title j) (sj_message j) ids
      (sj_scopes j) s = (r1, s1)"
    by (cases "sendSms e (sj_walletId j) (sj_accountId j) (sj_userId j) (sj_title j) (sj_message j) ids (sj_scopes j) s")
  have same: "filtered_rows order e j (pb_db s1) = ?R" by (rule filtered_rows_frame [OF run])
  consider "rows = []" | "rows \<noteq> []" "ids = []" | err where "rows \<noteq> []" "ids \<noteq> []" "r1 = Inl err"
    | dp where "rows \<noteq> []" "ids \<noteq> []" "r1 = Inr dp" by (cases r1) auto
  then show ?case
  proof cases
    case 1
    then show ?thesis using stop unfolding unfold by simp
  next
    case 2
    then show ?thesis
      using stop step [of s a "b + length rows"] unfolding unfold by (cases "length rows < 100") auto
  next
    case 3
    then show ?thesis unfolding unfold run by simp
  next
    case 4
    then show ?thesis
      using stop step [OF _ same, of "a + length ids" "b + (length rows - length ids)"] ids unfolding unfold run
      by (cases "length rows < 100") auto
  qed
qed

text \<open>
  A filtered dispatch ends, and when it ends without an error every contract the query lists has been
  counted once, as processed or as skipped.
\<close>

theorem sendFilteredSms_ends:
  assumes "permutes_rows order"
  shows "\<exists>r s'. sendFilteredSms order e j s = Some (r, s') \<and>
    (\<forall>x y. r = Inr (x, y) \<longrightarrow> x + y = length (filtered_rows order e j (pb_db s)))"
proof -
  have "length (filtered_rows order e j (pb_db s)) \<le> length (contracts (pb_db s))"
    using assms by (simp add: filtered_rows_def Let_def permutes_rows_def)
  then show ?thesis
    using filtered_loop_result [of order e j s 1 "Suc (length (contracts (pb_db s)))" 0 0]
    by (simp add: sendFilteredSms_def del: filtered_loop.simps)
qed


section \<open>Callbacks\<close>

lemma find_updated:
  "(\<And>x. P (f x) = P x) \<Longrightarrow>
    List.find P (update_where Q f xs) = map_option (\<lambda>x. if Q x then f x else x) (List.find P xs)"
  by (induction xs) auto

lemma moved_item_fields:
  assumes "moved_item now mapped payload campaign i = Some i'"
  shows "li_id i' = li_id i" and "li_externalCampaignId i' = li_externalCampaignId i" and "li_phone i' = li_phone i"
    and "li_dispatchId i' = li_dispatchId i" and "li_contractId i' = li_contractId i" and "li_status i' = mapped"
    and "mapped \<notin> {DI_COMPLETED, DI_FAILED} \<Longrightarrow> li_completedAt i' = li_completedAt i"
  using assms by (auto simp: moved_item_def call_ended_def Let_def split: if_splits option.splits)

lemma item_of_items: "ls_items s = ls_items s' \<Longrightarrow> item_of c p s = item_of c p s'"
  by (simp add: item_of_def)

lemma dispatch_of_rows: "ls_dispatches s = ls_dispatches s' \<Longrightarrow> dispatch_of i s = dispatch_of i s'"
  by (simp add: dispatch_of_def)

lemma item_moved:
  "item_of c p (s\<lparr>ls_items := update_where Q (\<lambda>x. or_else (moved_item now mapped payload campaign x) x) (ls_items s)\<rparr>) =
    map_option (\<lambda>x. if Q x then or_else (moved_item now mapped payload campaign x) x else x) (item_of c p s)"
proof -
  let ?f = "\<lambda>x. or_else (moved_item now mapped payload campaign x) x"
  have "li_externalCampaignId (?f x) = li_externalCampaignId x \<and> li_phone (?f x) = li_phone x" for x
    by (cases "moved_item now mapped payload campaign x") (simp_all add: moved_item_fields)
  then show ?thesis by (simp add: item_of_def find_updated)
qed

definition callback_item :: "ll_env \<Rightarrow> json \<Rightarrow> ll_store \<Rightarrow> ll_item option" where
  \<comment> \<open>the item a campaign is about\<close>
  "callback_item e campaign s =
     item_of (text_of e (the (jget ''id'' campaign))) (normalizePhone (text_of e (the (jget ''phone'' campaign)))) s"

definition callback_status :: "ll_env \<Rightarrow> json \<Rightarrow> dispatch_status" where
  "callback_status e campaign = mapped_status (dash_once (map lower_latin (text_of e (the (jget ''status'' campaign)))))"

lemma store_event_Some:
  assumes "store_event acc k event payload s = Some s'"
  shows "k \<in> le_eventKey ` set (ls_events s')" and "ls_items s' = ls_items s" and "ls_dispatches s' = ls_dispatches s"
    and "pb_db s' = pb_db s" and "pb_links s' = pb_links s" and "ls_requests s' = ls_requests s"
  using assms by (auto simp: store_event_def split: if_splits)

lemma accepted_callback:
  assumes "process_callback e payload campaign s = (Inr (Accepted m), s')"
  obtains i i' dp event where "callback_item e campaign s = Some i" and "dispatch_of i s = Some dp"
    and "json_text (jget ''event'' payload) = Some event" and "m = callback_status e campaign"
    and "moved_item (lv_now e) m payload campaign i = Some i'"
    and "callback_item e campaign s' = Some i'" and "dispatch_of i' s' = Some dp"
    and "callback_key e payload campaign (normalizePhone (text_of e (the (jget ''phone'' campaign)))) \<in> le_eventKey ` set (ls_events s')"
    and "ls_dispatches s' = ls_dispatches s" and "contracts (pb_db s') = contracts (pb_db s)"
proof -
  let ?phone = "normalizePhone (text_of e (the (jget ''phone'' campaign)))" and ?c = "text_of e (the (jget ''id'' campaign))"
  let ?st = "dash_once (map lower_latin (text_of e (the (jget ''status'' campaign))))"
  obtain i where i: "item_of ?c ?phone s = Some i"
    using assms by (cases "item_of ?c ?phone s") (simp_all add: process_callback_def Let_def)
  obtain dp where dp: "dispatch_of i s = Some dp"
    using assms i by (cases "dispatch_of i s") (simp_all add: process_callback_def Let_def)
  obtain event where ev: "json_text (jget ''event'' payload) = Some event"
    using assms i dp by (cases "json_text (jget ''event'' payload)") (simp_all add: process_callback_def Let_def)
  obtain s1 where st: "store_event (ld_accountId dp) (callback_key e payload campaign ?phone) event payload s = Some s1"
    using assms i dp ev by (cases "store_event (ld_accountId dp) (callback_key e payload campaign ?phone) event payload s")
      (simp_all add: process_callback_def Let_def)
  obtain i' where mv: "moved_item (lv_now e) (mapped_status ?st) payload campaign i = Some i'"
    using assms i dp ev st by (cases "moved_item (lv_now e) (mapped_status ?st) payload campaign i")
      (simp_all add: process_callback_def Let_def)
  have m: "m = mapped_status ?st" and s': "s' = s1\<lparr>ls_items := update_where (\<lambda>x. li_id x = li_id i)
          (\<lambda>x. or_else (moved_item (lv_now e) (mapped_status ?st) payload campaign x) x) (ls_items s1),
        pb_db := move_interactions e i dp ?c ?st payload (pb_db s1)\<rparr>"
    using assms i dp ev st mv by (auto simp: process_callback_def Let_def split: if_splits)
  note f = moved_item_fields [OF mv] and ev2 = store_event_Some [OF st]
  have "item_of ?c ?phone s' = item_of ?c ?phone (s1\<lparr>ls_items := ls_items s'\<rparr>)" by (simp add: item_of_def)
  also have "\<dots> = Some i'"
    using i mv unfolding s' by (simp add: item_moved item_of_items [OF ev2(2)])
  finally have "item_of ?c ?phone s' = Some i'" .
  moreover have "dispatch_of i' s' = Some dp" using dp f by (simp add: dispatch_of_def s' ev2)
  ultimately show ?thesis
    using i dp ev mv m ev2 by (intro that [of i dp event i']) (simp_all add: callback_item_def callback_status_def s' move_interactions_def)
qed

text \<open>
  A callback that is accepted puts its item into the status it reports, whatever status the item had: a
  late \<open>sent\<close> takes a call that has ended back to being in progress, and only the time of its end is kept.
\<close>

theorem callback_overwrites:
  assumes "process_callback e payload campaign s = (Inr (Accepted m), s')"
  shows "\<exists>i i'. callback_item e campaign s = Some i \<and> callback_item e campaign s' = Some i' \<and> li_id i' = li_id i \<and>
    li_status i' = m \<and> m = callback_status e campaign \<and>
    (m \<notin> {DI_COMPLETED, DI_FAILED} \<longrightarrow> li_completedAt i' = li_completedAt i)"
  by (rule accepted_callback [OF assms]) (metis moved_item_fields(1,6,7))

lemma callback_env [simp]:
  "authorizeWebhook (e\<lparr>lv_now := t\<rparr>) tokens payload = authorizeWebhook e tokens payload"
  "text_of (e\<lparr>lv_now := t\<rparr>) = text_of e" "callback_key (e\<lparr>lv_now := t\<rparr>) body campaign phone = callback_key e body campaign phone"
  "paymentLinkWasRequested (e\<lparr>lv_now := t\<rparr>) payload = paymentLinkWasRequested e payload"
  "link_event_key (e\<lparr>lv_now := t\<rparr>) c phone = link_event_key e c phone"
proof -
  show same: "text_of (e\<lparr>lv_now := t\<rparr>) = text_of e" by (simp add: fun_eq_iff text_of_def split: json.splits)
  have sha: "lv_sha (e\<lparr>lv_now := t\<rparr>) = lv_sha e" by simp
  show "authorizeWebhook (e\<lparr>lv_now := t\<rparr>) tokens payload = authorizeWebhook e tokens payload"
    by (simp add: authorizeWebhook_def)
  show "callback_key (e\<lparr>lv_now := t\<rparr>) body campaign phone = callback_key e body campaign phone"
    by (simp only: callback_key_def same sha)
  have "user_messages (e\<lparr>lv_now := t\<rparr>) = user_messages e" by (rule ext) (simp only: user_messages_def same)
  then show "paymentLinkWasRequested (e\<lparr>lv_now := t\<rparr>) payload = paymentLinkWasRequested e payload"
    by (simp only: paymentLinkWasRequested_def)
  show "link_event_key (e\<lparr>lv_now := t\<rparr>) c phone = link_event_key e c phone" by (simp add: link_event_key_def same)
qed

lemma named_call_env: "named_call (e\<lparr>lv_now := t\<rparr>) payload = named_call e payload"
  by (simp only: named_call_def callback_env)

lemma receipt_simps [simp]:
  "ls_items (store_receipt ev p s) = ls_items s" "ls_dispatches (store_receipt ev p s) = ls_dispatches s"
  "ls_events (store_receipt ev p s) = ls_events s" "pb_db (store_receipt ev p s) = pb_db s"
  "ls_requests (store_receipt ev p s) = ls_requests s" "pb_links (store_receipt ev p s) = pb_links s"
  by (simp_all add: store_receipt_def)

lemma callback_again:
  assumes "process_callback e payload campaign s = (Inr (Accepted m), s')"
    and "ls_items s2 = ls_items s'" and "ls_dispatches s2 = ls_dispatches s'" and "ls_events s2 = ls_events s'"
  shows "process_callback (e\<lparr>lv_now := t\<rparr>) payload campaign s2 = (Inr Accepted_duplicate, s2)"
proof (rule accepted_callback [OF assms(1)])
  fix i i' dp event
  assume a: "json_text (jget ''event'' payload) = Some event" "callback_item e campaign s' = Some i'"
    "dispatch_of i' s' = Some dp"
    "callback_key e payload campaign (normalizePhone (text_of e (the (jget ''phone'' campaign)))) \<in> le_eventKey ` set (ls_events s')"
  show ?thesis
    using a item_of_items [OF assms(2)] dispatch_of_rows [OF assms(3)]
    by (simp add: process_callback_def Let_def callback_item_def store_event_def assms(4))
qed

text \<open>
  The second delivery of a callback that was accepted is recognised: nothing but its receipt is stored.
\<close>

theorem callback_repeated:
  assumes "processWebhook e tokens payload s = (Inr (Accepted m), s1)"
  shows "processWebhook (e\<lparr>lv_now := t\<rparr>) tokens payload s1 =
    (Inr Accepted_duplicate, store_receipt (json_text (jpath [''event''] payload)) payload s1)"
proof -
  let ?s0 = "store_receipt (json_text (jpath [''event''] payload)) payload s"
  let ?s2 = "store_receipt (json_text (jpath [''event''] payload)) payload s1"
  have ok: "authorizeWebhook e tokens payload = None"
    and given: "truthy payload" "truthy (jpath [''id''] (campaign_json payload))"
      "truthy (jpath [''phone''] (campaign_json payload))" "truthy (jpath [''status''] (campaign_json payload))"
    and run: "process_callback e (the payload) (the (campaign_json payload)) ?s0 = (Inr (Accepted m), s1)"
    using assms by (auto simp: processWebhook_def Let_def split: option.splits if_splits)
  have "process_callback (e\<lparr>lv_now := t\<rparr>) (the payload) (the (campaign_json payload)) ?s2 = (Inr Accepted_duplicate, ?s2)"
    by (rule callback_again [OF run]) simp_all
  with ok given show ?thesis by (simp add: processWebhook_def Let_def)
qed


section \<open>What other requests leave\<close>

definition appended :: "ll_store \<Rightarrow> ll_store \<Rightarrow> bool" where
  "appended s s' \<longleftrightarrow>
     (\<exists>is. ls_items s' = ls_items s @ is) \<and> (\<exists>ds. ls_dispatches s' = ls_dispatches s @ ds) \<and> ls_events s' = ls_events s"

lemma appended_same:
  "ls_items s' = ls_items s \<Longrightarrow> ls_dispatches s' = ls_dispatches s \<Longrightarrow> ls_events s' = ls_events s \<Longrightarrow> appended s s'"
  by (simp add: appended_def)

lemma appended_trans: "appended s s1 \<Longrightarrow> appended s1 s2 \<Longrightarrow> appended s s2"
  by (auto simp: appended_def)

lemma dispatch_appended:
  "createDispatchWithInteractions e acc w u type title ext xs s = (r, s') \<Longrightarrow> appended s s'"
  by (auto simp: appended_def createDispatchWithInteractions_def Let_def split: if_splits simp del: upt_Suc)

lemma request_appended: "ll_request e m p b s = (r, s') \<Longrightarrow> appended s s'"
  by (erule ll_request_log) (simp add: appended_same)

lemma sendSms_appended:
  assumes "sendSms e w acc u title text ids scopes s = (r, s')"
  shows "appended s s'"
proof -
  have links: "appended s s2" if "create_links e w acc cs s = (ps, s1)" "send_all e title text cr ps s1 = (r2, s2)"
    for cs ps s1 cr r2 s2
    using only_linksD [OF send_all_frame(1) [OF that(2)]] create_links_spec(8-10) [OF that(1)]
    by (simp add: appended_same)
  show ?thesis
    by (cases rule: sendSms_cases [OF assms])
      (use links dispatch_appended appended_trans in \<open>blast intro: appended_same\<close>)+
qed

lemma sendCalls_appended:
  assumes "sendCalls e w acc u title ids retry scopes instruction s = (r, s')"
  shows "appended s s'"
  using assms unfolding sendCalls_def Let_def
  by (auto split: sum.splits option.splits if_splits prod.splits
      intro: appended_same appended_trans [OF request_appended dispatch_appended] request_appended)

lemma upsertAgent_appended:
  assumes "upsertAgent e w acc dto scopes s = (r, s')"
  shows "appended s s'"
proof -
  have agents: "appended s (s1\<lparr>ls_agents := x\<rparr>)" if "appended s s1" for s1 x
    using that by (simp add: appended_def)
  show ?thesis
    using assms unfolding upsertAgent_def Let_def
    by (auto split: sum.splits option.splits if_splits prod.splits intro: appended_same agents request_appended)
qed

lemma filtered_loop_appended:
  "filtered_loop order e j k page a b s = Some (r, s') \<Longrightarrow> appended s s'"
proof (induction order e j k page a b s arbitrary: r s' rule: filtered_loop.induct)
  case (2 order e j k page a b s)
  then show ?case
    by (fastforce simp: Let_def split: if_splits sum.splits prod.splits
        intro: appended_same appended_trans [OF sendSms_appended] sendSms_appended)
qed simp

definition keeps :: "ll_store \<Rightarrow> ll_store \<Rightarrow> bool" where
  \<comment> \<open>the events stay known, a call stays with its dispatch, and the dispatches stay as they are\<close>
  "keeps s s' \<longleftrightarrow>
     le_eventKey ` set (ls_events s) \<subseteq> le_eventKey ` set (ls_events s') \<and>
     (\<forall>c p i. item_of c p s = Some i \<longrightarrow> (\<exists>i'. item_of c p s' = Some i' \<and> li_dispatchId i' = li_dispatchId i)) \<and>
     (\<forall>i dp. dispatch_of i s = Some dp \<longrightarrow> dispatch_of i s' = Some dp)"

lemma keeps_refl: "keeps s s"
  by (simp add: keeps_def)

lemma keeps_trans: "keeps s s1 \<Longrightarrow> keeps s1 s2 \<Longrightarrow> keeps s s2"
  unfolding keeps_def by (metis order_trans)

lemma find_kept: "List.find P xs = Some x \<Longrightarrow> List.find P (xs @ ys) = Some x"
  by (induction xs) (auto split: if_splits)

lemma keeps_appended: "appended s s' \<Longrightarrow> keeps s s'"
  by (auto simp: appended_def keeps_def item_of_def dispatch_of_def find_kept)

lemma keeps_same:
  "ls_items s' = ls_items s \<Longrightarrow> ls_dispatches s' = ls_dispatches s \<Longrightarrow> ls_events s' = ls_events s \<Longrightarrow> keeps s s'"
  by (rule keeps_appended, rule appended_same)

lemma keeps_event: "store_event acc k event payload s = Some s' \<Longrightarrow> keeps s s'"
  by (auto simp: store_event_def keeps_def item_of_def dispatch_of_def split: if_splits)

lemma keeps_moved:
  "keeps s (s\<lparr>ls_items := update_where Q (\<lambda>x. or_else (moved_item now mapped payload campaign x) x) (ls_items s)\<rparr>)"
proof -
  have "li_dispatchId (or_else (moved_item now mapped payload campaign x) x) = li_dispatchId x" for x
    by (cases "moved_item now mapped payload campaign x") (simp_all add: moved_item_fields)
  then show ?thesis by (auto simp: keeps_def item_moved dispatch_of_def)
qed

lemma callback_keeps:
  assumes "process_callback e payload campaign s = (r, s')"
  shows "keeps s s'"
proof -
  have db: "keeps s (s1\<lparr>pb_db := d\<rparr>)" if "keeps s s1" for s1 d
    using that by (auto simp: keeps_def item_of_def dispatch_of_def)
  show ?thesis
    using assms unfolding process_callback_def Let_def
    by (auto split: option.splits if_splits
        intro: keeps_refl keeps_event db keeps_trans [OF keeps_event keeps_moved])
qed

lemma webhook_keeps:
  assumes "processWebhook e tokens payload s = (r, s')"
  shows "keeps s s'"
proof -
  have "keeps s (store_receipt ev p s)" for ev p by (rule keeps_same) simp_all
  then show ?thesis
    using assms unfolding processWebhook_def Let_def
    by (auto split: option.splits if_splits intro: keeps_refl keeps_trans [OF _ callback_keeps])
qed

text \<open>The course of a request for the link, when the call it names is known.\<close>

lemma link_cases:
  assumes "sendPaymentLinkFromVoiceAction e tokens payload s = (r, s')"
  obtains (refused) "keeps s s'" and "\<And>x. r \<noteq> Inr (Link_sent x)"
  | (sent) c p i dp s2 x where "authorizeWebhook e tokens payload = None" and "named_call e payload = Some (c, p)"
      and "item_of c p s = Some i" and "dispatch_of i s = Some dp"
      and "store_event (ld_accountId dp) (link_event_key e c p) ''voice.payment_link.requested'' (or_else payload (JObj []))
        (store_receipt (Some ''voice.payment_link.requested'') payload s) = Some s2"
      and "appended s2 s'" and "r = Inr (Link_sent x)"
proof -
  let ?s1 = "store_receipt (Some ''voice.payment_link.requested'') payload s"
  let ?ev = "\<lambda>dp c p. store_event (ld_accountId dp) (link_event_key e c p) ''voice.payment_link.requested''
        (or_else payload (JObj [])) ?s1"
  let ?sms = "\<lambda>dp i s2. sendSms e (ld_walletId dp) (ld_accountId dp) (ld_userId dp) ''Link solicitado em ligacao''
        ''Conforme solicitado, consulte sua oferta no link seguro.'' [li_contractId i] None s2"
  have rec: "keeps s ?s1" by (rule keeps_same) simp_all
  note unfold = sendPaymentLinkFromVoiceAction_def Let_def
  consider (no) "r = Inr Link_not_requested \<or> r = Inr Link_duplicate \<or> (\<exists>err. r = Inl err)" "s' = s \<or> s' = ?s1"
    | (go) c p i dp s2 where "authorizeWebhook e tokens payload = None" "named_call e payload = Some (c, p)"
      "paymentLinkWasRequested e payload" "item_of c p ?s1 = Some i" "dispatch_of i ?s1 = Some dp" "?ev dp c p = Some s2"
    using assms unfolding unfold by (fastforce split: option.splits if_splits)
  then show ?thesis
  proof cases
    case no
    then show ?thesis using refused rec keeps_refl by auto
  next
    case go
    obtain r1 s3 where run: "?sms dp i s2 = (r1, s3)" by (cases "?sms dp i s2")
    note app = sendSms_appended [OF run]
    have at_s: "item_of c p s = Some i" "dispatch_of i s = Some dp"
      using go(4,5) by (simp_all add: item_of_def dispatch_of_def)
    have out: "(r, s') = (case r1 of Inr x \<Rightarrow> (Inr (Link_sent (ld_id x)), s3)
        | Inl err \<Rightarrow> (Inl err, s3\<lparr>ls_events := filter (\<lambda>v. le_eventKey v \<noteq> link_event_key e c p) (ls_events s3)\<rparr>))"
      using assms go run unfolding unfold by (cases r1) simp_all
    show ?thesis
    proof (cases r1)
      case (Inr x)
      then show ?thesis using sent [OF go(1,2) at_s go(6)] app out by simp
    next
      case (Inl err)
      have "filter (\<lambda>v. le_eventKey v \<noteq> link_event_key e c p) (ls_events s3) = ls_events s"
        using go(6) app by (auto simp: appended_def store_event_def image_iff filter_id_conv split: if_splits) metis
      moreover have "keeps s (s3\<lparr>ls_events := ls_events s\<rparr>)"
        using app store_event_Some [OF go(6)] by (intro keeps_appended) (simp add: appended_def)
      ultimately show ?thesis using Inl out refused by simp
    qed
  qed
qed

lemma link_keeps:
  assumes "sendPaymentLinkFromVoiceAction e tokens payload s = (r, s')"
  shows "keeps s s'"
proof (cases rule: link_cases [OF assms])
  case (2 c p i dp s2 x)
  have "keeps s (store_receipt (Some ''voice.payment_link.requested'') payload s)" by (rule keeps_same) simp_all
  then show ?thesis using keeps_trans keeps_event [OF 2(5)] keeps_appended [OF 2(6)] by blast
qed

text \<open>
  One request to this component, by anybody and at any time, or anything else that leaves the calls and the
  events of LigueLead alone, as the rest of the program does.
\<close>

inductive ll_step :: "ll_store \<Rightarrow> ll_store \<Rightarrow> bool" where
  by_sms: "sendSms e w acc u title body ids scopes s = (r, s') \<Longrightarrow> ll_step s s'"
| by_calls: "sendCalls e w acc u title ids retry scopes instruction s = (r, s') \<Longrightarrow> ll_step s s'"
| by_filtered: "sendFilteredSms order e j s = Some (r, s') \<Longrightarrow> ll_step s s'"
| by_agent: "upsertAgent e w acc dto scopes s = (r, s') \<Longrightarrow> ll_step s s'"
| by_callback: "processWebhook e tokens payload s = (r, s') \<Longrightarrow> ll_step s s'"
| by_link: "sendPaymentLinkFromVoiceAction e tokens payload s = (r, s') \<Longrightarrow> ll_step s s'"
| elsewhere: "ls_items s' = ls_items s \<Longrightarrow> ls_dispatches s' = ls_dispatches s \<Longrightarrow> ls_events s' = ls_events s \<Longrightarrow> ll_step s s'"

lemma step_keeps: "ll_step s s' \<Longrightarrow> keeps s s'"
proof (induction rule: ll_step.induct)
  case (by_filtered order e j s r s')
  then show ?case unfolding sendFilteredSms_def by (intro keeps_appended filtered_loop_appended)
qed (auto intro: keeps_appended sendSms_appended sendCalls_appended upsertAgent_appended webhook_keeps link_keeps keeps_same)

lemma steps_keep: "ll_step\<^sup>*\<^sup>* s s' \<Longrightarrow> keeps s s'"
  by (induction rule: rtranclp_induct) (auto intro: keeps_refl keeps_trans step_keeps)

text \<open>
  C39. For one call the debtor gets one message. Once the link has been sent, every later request that names the
  same campaign and telephone, in whatever words, with whatever transcript and whatever has happened in
  between, is recognised: it stores a receipt and sends nothing.
\<close>

theorem link_sent_once:
  assumes "sendPaymentLinkFromVoiceAction e tokens payload s = (Inr (Link_sent x), s1)"
    and "ll_step\<^sup>*\<^sup>* s1 s2"
    and "lv_sha e2 = lv_sha e" and "named_call e2 again = named_call e payload"
    and "authorizeWebhook e2 tokens2 again = None" and "paymentLinkWasRequested e2 again"
  shows "sendPaymentLinkFromVoiceAction e2 tokens2 again s2 =
    (Inr Link_duplicate, store_receipt (Some ''voice.payment_link.requested'') again s2)"
proof (cases rule: link_cases [OF assms(1)])
  case (2 c p i dp s0 y)
  let ?k = "link_event_key e c p"
  have "keeps (store_receipt (Some ''voice.payment_link.requested'') payload s) s1"
    using keeps_trans keeps_event [OF 2(5)] keeps_appended [OF 2(6)] by blast
  then have calls: "keeps s s1" by (rule keeps_trans [rotated]) (rule keeps_same, simp_all)
  have k: "?k \<in> le_eventKey ` set (ls_events s1)"
    using store_event_Some(1) [OF 2(5)] 2(6) by (simp add: appended_def)
  have later: "keeps s s2" "keeps s1 s2"
    using calls steps_keep [OF assms(2)] keeps_trans by blast+
  obtain i' where i': "item_of c p s2 = Some i'" "li_dispatchId i' = li_dispatchId i"
    using later(1) 2(3) unfolding keeps_def by blast
  have "dispatch_of i s2 = Some dp" using later(1) 2(4) unfolding keeps_def by blast
  then have dp: "dispatch_of i' s2 = Some dp" using i'(2) by (simp add: dispatch_of_def)
  let ?s3 = "store_receipt (Some ''voice.payment_link.requested'') again s2"
  have at: "item_of c p ?s3 = Some i'" "dispatch_of i' ?s3 = Some dp"
    using i'(1) dp by (simp_all add: item_of_def dispatch_of_def)
  have "link_event_key e2 c p = ?k" by (simp add: link_event_key_def assms(3))
  then have "store_event (ld_accountId dp) (link_event_key e2 c p) ''voice.payment_link.requested''
      (or_else again (JObj [])) ?s3 = None"
    using k later(2) unfolding keeps_def store_event_def by auto
  then show ?thesis
    using assms(4-6) 2(2) at by (simp add: sendPaymentLinkFromVoiceAction_def Let_def)
qed blast

lemma webhook_guarded:
  assumes "\<forall>t \<in> set tokens. t \<noteq> lv_webhookToken e"
  shows "processWebhook e tokens payload s = (Inl (Unauthorized ''Webhook nao autorizado''), s)"
    and "sendPaymentLinkFromVoiceAction e tokens payload s = (Inl (Unauthorized ''Webhook nao autorizado''), s)"
proof -
  have "authorizeWebhook e tokens payload = Some (Unauthorized ''Webhook nao autorizado'')"
    using assms by (auto simp: authorizeWebhook_def list_ex_iff)
  then show "processWebhook e tokens payload s = (Inl (Unauthorized ''Webhook nao autorizado''), s)"
    and "sendPaymentLinkFromVoiceAction e tokens payload s = (Inl (Unauthorized ''Webhook nao autorizado''), s)"
    by (simp_all add: processWebhook_def sendPaymentLinkFromVoiceAction_def)
qed


section \<open>Sample dispatches\<close>

definition sample_ll :: "(json \<Rightarrow> ll_reply) \<Rightarrow> ll_env" where
  \<comment> \<open>a provider that answers by what it is sent\<close>
  "sample_ll reply =
     \<lparr>lv_now = 1000, lv_gen = sample_gen, lv_sha = id, lv_text = (\<lambda>_. ''''), lv_date = (\<lambda>_. None), lv_day = show_int,
      lv_link = (\<lambda>token. ''https://pay?access='' @ token), lv_apiToken = Some ''t'', lv_appId = Some ''a'',
      lv_webhookToken = Some ''w'', lv_reply = (\<lambda>_ _ _ b. reply b)\<rparr>"

abbreviation sample_accepted :: ll_reply where
  "sample_accepted \<equiv> Replied 200 (JObj [(''campaign_id'', JStr ''k9'')])"

abbreviation sample_ll_ok :: ll_env where
  "sample_ll_ok \<equiv> sample_ll (\<lambda>_. sample_accepted)"

definition sample_debtor :: contract where
  "sample_debtor = sample_contract\<lparr>ct_debtor := (ct_debtor sample_contract)\<lparr>db_phone := Some ''85999990000''\<rparr>\<rparr>"

definition sample_ll_store :: ll_store where
  "sample_ll_store =
     \<lparr>pb_db = sample_db\<lparr>contracts := [sample_debtor]\<rparr>, pb_links = [], ls_agents = [],
      ls_dispatches = [\<lparr>ld_id = ''d1'', ld_accountId = ''a1'', ld_walletId = ''w1'', ld_userId = ''u1'',
        ld_type = D_AI_CALL, ld_title = ''T'', ld_externalId = Some ''k1'', ld_totalItems = 1\<rparr>],
      ls_items = [\<lparr>li_id = ''i1'', li_dispatchId = ''d1'', li_contractId = ''c1'', li_externalCampaignId = Some ''k1'',
        li_phone = ''85999990000'', li_status = DI_COMPLETED, li_durationSeconds = None, li_recordingUrl = None,
        li_transcript = None, li_actionExecuted = None, li_rawPayload = None, li_startedAt = None,
        li_completedAt = Some 900\<rparr>],
      ls_receipts = [], ls_events = [], ls_requests = [], ls_jobs = []\<rparr>"

lemma collapse_length: "length (collapse_spaces b s) \<le> length s"
  by (induction s arbitrary: b) (auto intro: le_SucI)

lemma trim_length: "length (trim s) \<le> length s"
proof -
  have "length (dropWhile is_space xs) \<le> length xs" for xs by (induction xs) auto
  from this [of "rev (dropWhile is_space s)"] this [of s] show ?thesis by (simp add: trim_def)
qed

definition link_text :: string where
  "link_text = ''Conforme solicitado, consulte sua oferta no link seguro.''"

lemma sample_link_text: "length (normalizeSmsText link_text) = 56"
  by code_simp

lemma message_length:
  "length (smsMessageWithPaymentLink e message token (Some ''Credor'')) \<le>
    200 + length (normalizeSmsText message) + length (lv_link e token)"
proof -
  have credor: "named_or (Some ''Credor'') ''seu credor'' = ''Credor''"
    by (simp add: named_or_def trim_def is_space_def code_def)
  show ?thesis
    unfolding smsMessageWithPaymentLink_def credor
    by (rule order_trans [OF collapse_length], rule order_trans [OF trim_length]) simp
qed

lemma sample_wallet_ll: "\<exists>w. ll_wallet ''w1'' ''a1'' None sample_ll_store = Inr w \<and>
    creditor_name w (pb_db sample_ll_store) = Some ''Credor''"
  by (simp add: ll_wallet_def sample_ll_store_def sample_db_def creditor_name_def creditor_of_wallet_def)

lemma sample_eligible: "eligibleContracts ''w1'' ''a1'' [''c1''] (pb_db sample_ll_store) = Inr [sample_debtor]"
  by (simp add: eligibleContracts_def sms_eligible_def sample_ll_store_def sample_debtor_def sample_contract_def
      phone_of_def Let_def)

lemma sample_message:
  assumes "length (normalizeSmsText message) \<le> 60" and "length token \<le> 100"
  shows "length (smsMessageWithPaymentLink (sample_ll reply) message token (Some ''Credor'')) \<le> 1600"
  using message_length [of "sample_ll reply" message token] assms by (simp add: sample_ll_def)

lemma sample_tokens: "length (lv_gen (sample_ll reply) n) \<le> 100" if "n < 10"
  using that by (simp add: sample_ll_def sample_gen_def show_nat.simps [of n])

lemma sample_next: "nextId (pb_db sample_ll_store) = 0"
  by (simp add: sample_ll_store_def sample_db_def)

lemma sample_request:
  "reply b = Replied 200 x \<Longrightarrow> ll_request (sample_ll reply) m p b s = (Inr x, log_request p b s)"
  "reply b = Replied 400 x \<Longrightarrow> ll_request (sample_ll reply) m p b s =
    (Inl (BadGateway (provider_message (sample_ll reply) x)), log_request p b s)"
  by (simp_all add: ll_request_def sample_ll_def unset_def text_or_null_def maxAttempts_def numeral_3_eq_3 Let_def)

lemmas sample_campaign = campaign_of_def jpath_def coalesce_def nullish_def text_or_nothing_def json_text_def

lemma sample_sms:
  assumes "length (normalizeSmsText text) \<le> 60" and "pb_db s = pb_db sample_ll_store"
  shows "is_ok (sendSms sample_ll_ok ''w1'' ''a1'' ''u1'' title text [''c1''] None s)"
proof -
  obtain w where w: "ll_wallet ''w1'' ''a1'' None s = Inr w" "creditor_name w (pb_db s) = Some ''Credor''"
    using sample_wallet_ll assms(2) by (auto simp: ll_wallet_def)
  have cs: "eligibleContracts ''w1'' ''a1'' [''c1''] (pb_db s) = Inr [sample_debtor]"
    using sample_eligible assms(2) by simp
  have short: "\<not> 1600 < length (smsMessageWithPaymentLink sample_ll_ok text (lv_gen sample_ll_ok (Suc 0)) (Some ''Credor''))"
    using sample_message [OF assms(1) sample_tokens [of "Suc 0" "\<lambda>_. sample_accepted"], of "\<lambda>_. sample_accepted"] by simp
  show ?thesis
    using w cs short
    by (simp add: sendSms_def new_link_def send_one_def sample_request Let_def is_ok_def split_beta assms(2) sample_next
        createDispatchWithInteractions_def sample_campaign)
qed

lemma sample_links_ok: "links_ok sample_gen sample_ll_store"
  by (simp add: links_ok_def inj_sample_gen sample_ll_store_def)

lemma sendSms_effect_witness:
  "\<exists>dp s'. sendSms sample_ll_ok ''w1'' ''a1'' ''u1'' ''T'' '''' [''c1''] None sample_ll_store = (Inr dp, s') \<and>
     ld_totalItems dp = 1 \<and> length (pb_links s') = 1"
proof -
  obtain dp s' where run: "sendSms sample_ll_ok ''w1'' ''a1'' ''u1'' ''T'' '''' [''c1''] None sample_ll_store = (Inr dp, s')"
    using sample_sms [of "''''" sample_ll_store "''T''"]
    by (auto simp: normalizeSmsText_def trim_def is_ok_def split: sum.splits) (metis prod.collapse)
  have "lv_gen sample_ll_ok = sample_gen" by (simp add: sample_ll_def)
  then have ok: "links_ok (lv_gen sample_ll_ok) sample_ll_store" using sample_links_ok by simp
  have "length (filter (sms_eligible ''w1'' ''a1'' [''c1'']) (contracts (pb_db sample_ll_store))) = 1"
    using sample_eligible by (simp add: eligibleContracts_def Let_def split: if_splits)
  then have "ld_totalItems dp = 1 \<and> length (pb_links s') = 1"
    using sendSms_effect [OF run ok] by (auto simp: sample_ll_store_def dest: arg_cong [where f = length])
  with run show ?thesis by blast
qed

text \<open>Two debtors; the provider refuses the telephone of the second.\<close>

definition sample_second :: contract where
  "sample_second = sample_debtor\<lparr>ct_id := ''c2'', ct_debtor := (ct_debtor sample_debtor)\<lparr>db_phone := Some ''85999990001''\<rparr>\<rparr>"

definition sample_ll_pair :: ll_store where
  "sample_ll_pair = sample_ll_store\<lparr>pb_db := sample_db\<lparr>contracts := [sample_debtor, sample_second]\<rparr>\<rparr>"

definition sample_refusing :: "json \<Rightarrow> ll_reply" where
  "sample_refusing b =
     (if jget ''phones'' b = Some (JArr [JStr ''85999990001'']) then Replied 400 JNull else sample_accepted)"

lemma sample_phones:
  "sample_refusing (sms_body title m sample_debtor) = sample_accepted"
  "sample_refusing (sms_body title m sample_second) = Replied 400 JNull"
proof -
  have "normalizePhone ''85999990000'' = ''85999990000''" "normalizePhone ''85999990001'' = ''85999990001''"
    by code_simp+
  then show "sample_refusing (sms_body title m sample_debtor) = sample_accepted"
    "sample_refusing (sms_body title m sample_second) = Replied 400 JNull"
    by (simp_all add: sample_refusing_def sms_body_def phone_of_def sample_debtor_def sample_second_def)
qed

lemma failed_batch_unrecorded_witness:
  "\<exists>err s' rs. sendSms (sample_ll sample_refusing) ''w1'' ''a1'' ''u1'' ''T'' '''' [''c1'', ''c2''] None sample_ll_pair = (Inl err, s') \<and>
     ls_dispatches s' = ls_dispatches sample_ll_pair \<and> ls_requests s' = ls_requests sample_ll_pair @ rs \<and>
     (''/v1/sms'', sms_body ''T'' (smsMessageWithPaymentLink (sample_ll sample_refusing) '''' ''id-1'' (Some ''Credor'')) sample_debtor) \<in> set rs \<and>
     (''/v1/sms'', sms_body ''T'' (smsMessageWithPaymentLink (sample_ll sample_refusing) '''' ''id-3'' (Some ''Credor'')) sample_second) \<in> set rs"
proof -
  let ?e = "sample_ll sample_refusing"
  obtain w where w: "ll_wallet ''w1'' ''a1'' None sample_ll_pair = Inr w"
      "creditor_name w (pb_db sample_ll_pair) = Some ''Credor''"
    using sample_wallet_ll
    by (auto simp: ll_wallet_def sample_ll_pair_def sample_ll_store_def creditor_name_def creditor_of_wallet_def)
  have cs: "eligibleContracts ''w1'' ''a1'' [''c1'', ''c2''] (pb_db sample_ll_pair) = Inr [sample_debtor, sample_second]"
    by (simp add: eligibleContracts_def sms_eligible_def sample_ll_pair_def sample_debtor_def sample_second_def
        sample_contract_def phone_of_def Let_def)
  have next_id: "nextId (pb_db sample_ll_pair) = 0" by (simp add: sample_ll_pair_def sample_db_def)
  have token: "lv_gen ?e (Suc 0) = ''id-1''" "lv_gen ?e 3 = ''id-3''"
    unfolding sample_ll_def ll_env.simps by code_simp+
  have short: "length (normalizeSmsText '''') \<le> 60" by (simp add: normalizeSmsText_def trim_def)
  have fits: "length (smsMessageWithPaymentLink ?e '''' t (Some ''Credor'')) \<le> 1600" if "length t \<le> 100" for t
    by (rule sample_message [OF short that])
  have planned: "planned_message ?e '''' (Some ''Credor'') sample_ll_pair 0 = smsMessageWithPaymentLink ?e '''' ''id-1'' (Some ''Credor'')"
    "planned_message ?e '''' (Some ''Credor'') sample_ll_pair (Suc 0) = smsMessageWithPaymentLink ?e '''' ''id-3'' (Some ''Credor'')"
    using token by (simp_all add: planned_message_def next_id eval_nat_numeral)
  have "\<not> is_ok (sendSms ?e ''w1'' ''a1'' ''u1'' ''T'' '''' [''c1'', ''c2''] None sample_ll_pair)"
    using w cs fits [of "''id-1''"] fits [of "''id-3''"] token
    by (simp add: sendSms_def new_link_def send_one_def sample_request sample_phones Let_def is_ok_def split_beta not_less
        next_id eval_nat_numeral)
  then obtain err s' where run: "sendSms ?e ''w1'' ''a1'' ''u1'' ''T'' '''' [''c1'', ''c2''] None sample_ll_pair = (Inl err, s')"
    by (auto simp: is_ok_def split: sum.splits) (metis prod.collapse)
  have set: "\<not> unset (lv_apiToken ?e)" "\<not> unset (lv_appId ?e)"
    by (simp_all add: sample_ll_def unset_def text_or_null_def)
  have each: "(\<forall>i < length [sample_debtor, sample_second]. P i) \<longleftrightarrow> P 0 \<and> P (Suc 0)" for P
    by (auto simp: less_Suc_eq)
  have "\<forall>i < length [sample_debtor, sample_second].
      length (planned_message ?e '''' (creditor_name w (pb_db sample_ll_pair)) sample_ll_pair i) \<le> 1600"
    unfolding each w(2) planned by (intro conjI fits) simp_all
  from failed_batch_unrecorded [OF run w(1) cs set this]
  show ?thesis using run unfolding each w(2) planned by auto
qed

lemma sendFilteredSms_ends_witness:
  "\<exists>r s'. sendFilteredSms (\<lambda>_ rows. rows) sample_ll_ok \<lparr>sj_walletId = ''w1'', sj_accountId = ''a1'', sj_userId = ''u1'',
     sj_title = ''T'', sj_message = '''', sj_query = sample_query, sj_scopes = None\<rparr> sample_ll_store = Some (r, s')"
  using sendFilteredSms_ends [OF keeps_order] by blast

text \<open>The same call, once by the flag and a plain number, once by the words of the debtor and a formatted one.\<close>

definition sample_flagged :: "json option" where
  "sample_flagged = Some (JObj [(''campaign_id'', JStr ''k1''), (''phone'', JStr ''85999990000''),
     (''payment_link_requested'', JBool True)])"

definition sample_worded :: "json option" where
  "sample_worded = Some (JObj [(''data'', JObj [(''campaignId'', JStr ''k1''), (''phone'', JStr ''+55 (85) 99999-0000''),
     (''campaign'', JObj [(''transcript'', JArr [JObj [(''role'', JStr ''user''), (''content'', JStr ''Quero sim'')]])])])])"

lemma sample_named:
  "named_call (sample_ll reply) sample_flagged = Some (''k1'', ''85999990000'')"
  "named_call (sample_ll reply) sample_worded = Some (''k1'', ''85999990000'')"
proof -
  have "normalizePhone ''85999990000'' = ''85999990000''" "normalizePhone ''+55 (85) 99999-0000'' = ''85999990000''"
    by code_simp+
  then show "named_call (sample_ll reply) sample_flagged = Some (''k1'', ''85999990000'')"
    "named_call (sample_ll reply) sample_worded = Some (''k1'', ''85999990000'')"
    by (simp_all add: named_call_def sample_flagged_def sample_worded_def first_of_def jpath_def coalesce_def nullish_def
        truthy_def text_of_def)
qed

lemma sample_asked: "paymentLinkWasRequested (sample_ll reply) sample_flagged"
    "paymentLinkWasRequested (sample_ll reply) sample_worded"
proof -
  show "paymentLinkWasRequested (sample_ll reply) sample_flagged"
    by (simp add: paymentLinkWasRequested_def sample_flagged_def jpath_def)
  have "text_of (sample_ll reply) (JStr x) = x" for x by (simp add: text_of_def)
  moreover have "map lower_latin ''user'' = ''user''" "map lower_latin (trim ''Quero sim'') = ''quero sim''"
    "\<not> list_ex (\<lambda>w. word_in False w ''quero sim'') refusal_words" "list_ex (\<lambda>w. word_in False w ''quero sim'') request_words"
    by code_simp+
  ultimately show "paymentLinkWasRequested (sample_ll reply) sample_worded"
    by (simp add: paymentLinkWasRequested_def sample_worded_def jpath_def first_of_def coalesce_def nullish_def truthy_def
        user_messages_def Let_def)
qed

lemma sample_authorized: "authorizeWebhook (sample_ll reply) [Some ''w''] sample_flagged = None"
    "authorizeWebhook (sample_ll reply) [None, Some ''w''] sample_worded = None"
  by (simp_all add: authorizeWebhook_def sample_ll_def sample_flagged_def sample_worded_def unset_def text_or_null_def
      jpath_def truthy_def)

lemma link_sent_once_witness:
  "\<exists>x s1. sendPaymentLinkFromVoiceAction sample_ll_ok [Some ''w''] sample_flagged sample_ll_store = (Inr (Link_sent x), s1) \<and>
     (\<forall>s2 e tokens p. s2 = snd (processWebhook e tokens p s1) \<longrightarrow>
       sendPaymentLinkFromVoiceAction ((sample_ll (\<lambda>_. No_reply))\<lparr>lv_now := 5000\<rparr>) [None, Some ''w''] sample_worded s2 =
         (Inr Link_duplicate, store_receipt (Some ''voice.payment_link.requested'') sample_worded s2))"
proof -
  define s3 where "s3 = (store_receipt (Some ''voice.payment_link.requested'') sample_flagged sample_ll_store)
      \<lparr>ls_events := [\<lparr>le_accountId = ''a1'', le_eventKey = link_event_key sample_ll_ok ''k1'' ''85999990000'',
         le_event = ''voice.payment_link.requested'', le_payload = the sample_flagged\<rparr>]\<rparr>"
  have "is_ok (sendSms sample_ll_ok ''w1'' ''a1'' ''u1'' ''Link solicitado em ligacao'' link_text [''c1''] None s3)"
    using sample_link_text by (intro sample_sms) (simp_all add: s3_def)
  then obtain dp s1 where sms: "sendSms sample_ll_ok ''w1'' ''a1'' ''u1'' ''Link solicitado em ligacao'' link_text [''c1''] None s3
      = (Inr dp, s1)"
    by (auto simp: is_ok_def split: sum.splits) (metis prod.collapse)
  have payload: "or_else sample_flagged (JObj []) = the sample_flagged" by (simp add: sample_flagged_def)
  have sent: "sendPaymentLinkFromVoiceAction sample_ll_ok [Some ''w''] sample_flagged sample_ll_store = (Inr (Link_sent (ld_id dp)), s1)"
    using sms unfolding link_text_def s3_def
    by (simp add: sendPaymentLinkFromVoiceAction_def sample_authorized sample_named sample_asked payload
        item_of_def dispatch_of_def sample_ll_store_def store_receipt_def store_event_def Let_def)
  let ?e2 = "(sample_ll (\<lambda>_. No_reply))\<lparr>lv_now := 5000\<rparr>"
  have later: "lv_sha ?e2 = lv_sha sample_ll_ok" "named_call ?e2 sample_worded = named_call sample_ll_ok sample_flagged"
    "authorizeWebhook ?e2 [None, Some ''w''] sample_worded = None" "paymentLinkWasRequested ?e2 sample_worded"
    by (simp_all only: named_call_env callback_env sample_named sample_authorized sample_asked)
      (simp_all add: sample_ll_def)
  have "ll_step\<^sup>*\<^sup>* s1 (snd (processWebhook e tokens p s1))" for e tokens p
    by (rule r_into_rtranclp, rule by_callback) (rule prod.collapse [symmetric])
  from link_sent_once [OF sent this later] sent show ?thesis by blast
qed

end
