(* ===== verification/Spec2Isabelle.thy ===== *)
theory Spec2Isabelle
  imports System Users Removal LigueLead
begin

text \<open>
  A verification development for the CobData backend, a debt collection service in TypeScript over
  NestJS, Prisma and PostgreSQL. Every path below is under \<open>src/src/\<close>.

  \<^bold>\<open>The program.\<close> Creditors hand over portfolios of overdue contracts, grouped in wallets. The service
  keeps the contracts and their offers (\<open>contracts\<close>, \<open>wallets\<close>, \<open>creditors\<close>), reads portfolios from
  files (\<open>imports\<close>), registers debts at Serasa and follows its callbacks (\<open>providers\<close>), and issues Pix
  charges and boletos at Banco do Brasil, whose payments it settles (\<open>payments\<close>). All parts share one
  database and talk to each other through its rows, through a job queue and by direct calls: a charge
  registers an agreement on its contract; a payment appends a settlement, refreshes the paid total of the
  contract and, when it is paid, asks the operations for the removal of the debt from Serasa; a
  cancellation of a contract does so, too; callbacks of Serasa move agreements and settle instalments.

  \<^bold>\<open>The theories\<close>, in the order of their imports.

  \<^item> \<open>Prelude\<close>: exceptions as values (\<open>http_error\<close>, \<open>outcome\<close>), row operations, exact decimals with the
    rounding of the code, ASCII strings and the JavaScript operations on them.
  \<^item> \<open>Store\<close>: the enumerations and one record per table row (\<open>payments/enums.ts\<close>, the entities, the
    Prisma schema), the record \<open>database\<close>, the creation of rows under unique indexes (locale
    \<open>unique_table\<close>, interpreted for charges and settlements here and for contracts in \<open>Contracts\<close>) and the
    frame and freshness facts every later proof uses.
  \<^item> \<open>Provider\<close>: the payment adapter interface, its factory, the decryption of a gateway and the retrying
    HTTP client (\<open>payments/adapters\<close>); the retry loop equals a search for the first final answer.
  \<^item> \<open>BancoDoBrasil\<close>: the adapter of the bank and its token cache as a step relation; no key ever has two
    token requests in flight. Locale \<open>status_source\<close>, interpreted on the adapter.
  \<^item> \<open>Charges\<close>: \<open>payments/payment-charges.service.ts\<close>: issuing (generic, Pix by contract, Pix by document),
    listing, synchronising; outcomes on every branch, idempotency, price bounds, the agreement.
  \<^item> \<open>Settlement\<close>: \<open>payments/settlement\<close>: the ledger, its processor and the mapping of Serasa events. The
    processor refines an abstract register in which the first entry under a key stays.
    Locale \<open>ledger\<close>: operations that only append under a unique index, interpreted on each writer.
  \<^item> \<open>Lifecycle\<close>: \<open>payments/charge-lifecycle.job.ts\<close>, \<open>payments/agreement-lifecycle.job.ts\<close>: what one charge
    step may do, the batch of a cycle, and what a whole cycle keeps.
  \<^item> \<open>Operations\<close>: \<open>providers/operations.service.ts\<close>: inclusion and removal of debts, their items and jobs,
    cancellation and contest of contracts, stale removals, queries.
  \<^item> \<open>SerasaWorker\<close>: \<open>providers/processors/operation.processor.ts\<close> with
    \<open>providers/adapters/serasa-lnop.adapter.ts\<close>; the well-formedness of operations, items and queue
    (\<open>items_ok\<close>), redelivery and the draining of the queue.
  \<^item> \<open>PixWebhook\<close>: \<open>payments/webhooks/bb-pix-webhook.service.ts\<close> and \<open>bb-webhook-auth.guard.ts\<close>; what other
    processes commit between a read and the conditional update is an arbitrary function. Locale
    \<open>removal_service\<close>, interpreted on the operations.
  \<^item> \<open>JsValues\<close>: reading unstructured JSON as JavaScript does. \<open>SerasaWebhooks\<close>:
    \<open>providers/webhooks.service.ts\<close>, with one frame for every callback.
  \<^item> \<open>System\<close>: all handlers, jobs and webhooks of payments and Serasa as one inductive step relation;
    the invariants of every reachable state.
  \<^item> \<open>Documents\<close>: \<open>common/utils/cpf.util.ts\<close>, \<open>common/utils/cnpj.util.ts\<close>,
    \<open>contracts/deduplication.service.ts\<close>: check digits and the identity of a debt.
  \<^item> \<open>ImportLines\<close>: \<open>imports/utils/import-line.util.ts\<close> and the CSV reader of the import processors;
    round trips of rows and amounts.
  \<^item> \<open>Offers\<close>: \<open>contracts/offer-calculator.ts\<close>, discount bands, the snapshots of the contract service and
    the SQL of the wallet service, which agree under sound rules as long as the number of instalments fits an
    \<open>integer\<close> of PostgreSQL; where it does not, the statement fails.
  \<^item> \<open>Contracts\<close>: \<open>contracts/contracts.service.ts\<close> and \<open>contracts/tags.service.ts\<close>: upsert, edits, bulk
    transfer, deletion, repricing, tags, and the queries with the scopes of viewers and of the portal.
  \<^item> \<open>Wallets\<close>: \<open>wallets/wallets.service.ts\<close>, \<open>wallets/aging-offer.job.ts\<close> and
    \<open>creditors/creditors.service.ts\<close>: commercial rules, repricing of a wallet and the weekly job, lists
    with their cache, the summary; what the weekly job does when a number overflows; all requests on contracts, wallets and creditors as one step relation
    whose invariant types the rows and bounds every strategy by its ceiling.
  \<^item> \<open>Imports\<close>: \<open>imports/imports.service.ts\<close> and its two processors: a file is uploaded, validated line by
    line while other requests may cancel it, confirmed and applied in transactions of 250 lines. Terminal
    contracts survive every import, the counters are those of the attempt that succeeds, after the three
    attempts of its job a batch is applied or failed, and the invariant of \<open>Wallets\<close> is kept.
  \<^item> \<open>Auth\<close>: \<open>auth/auth.service.ts\<close>, \<open>auth/services\<close> and the login handler: sessions and refresh tokens,
    activation, passwords, the limit on login attempts, which holds for attempts one after another
    (\<open>attempts_bounded\<close>) and not for simultaneous ones (\<open>race_unlimited\<close>).
  \<^item> \<open>Users\<close>: \<open>users/users.service.ts\<close> and \<open>common/guards\<close>: invitations, administration, what the guards
    admit; all requests on accounts as one step relation with its invariant.
  \<^item> \<open>Removal\<close>: \<open>providers/creditor-removal.service.ts\<close>: a list of contracts is read, matched, confirmed and
    cancelled by a worker; what the check promises, that a run completes, and what blocks it for good.
  \<^item> \<open>PublicDebt\<close>: \<open>payments/public-debt.service.ts\<close> and its limit: lookups, links, Pix and state without a
    login; the price shown is the price charged, and what the limit does and does not limit.
  \<^item> \<open>Speech\<close> and \<open>LigueLead\<close>: \<open>liguelead/liguelead.service.ts\<close>: numbers and amounts in words (heard back
    exactly, the numerals from a million on included), the context of a call, messages, calls, filtered dispatches (fuel: one page more than there are
    contracts, which always suffices), callbacks, and the link a debtor asks the agent for, which is sent once
    whatever steps (\<open>ll_step\<close>) come between.

  \<^bold>\<open>State and operations.\<close> A table is the list of its rows; \<open>List.find\<close> is \<open>findFirst\<close>, \<open>update_where\<close> is
  \<open>update\<close> and \<open>updateMany\<close>, \<open>first_desc\<close> is \<open>findFirst\<close> with a descending order. A handler is a function
  from its environment, its arguments and the database to its result or exception and the database it
  leaves, so what was written before an exception stays written unless the code has a transaction. The
  names of the definitions are those of the methods; columns carry the prefix of their table. Periodic
  jobs and webhooks are such functions, too, and concurrency is the interleaving of their steps.

  \<^bold>\<open>Numbers, dates, texts.\<close> Amounts and percentages are rationals; \<open>dec2\<close> and \<open>js_round2\<close> are the roundings of
  the columns and of the code, so binary rounding errors of JavaScript numbers are not seen. Timestamps are
  milliseconds; the calendar day of the business time zone, \<open>Date.parse\<close> and the end of the server's day
  are parameters. Texts are ASCII (Latin-1 where an accented letter is compared).

  \<^bold>\<open>Loops.\<close> All loops are structural recursions or folds over rows, lines or pages, or recursions with a
  measure (the retry loops count attempts up to a bound of the configuration), so every function is total;
  only the paging of a filtered dispatch has fuel (theory \<open>LigueLead\<close>).

  \<^bold>\<open>Parameters\<close> stand for code outside the repository: the generator of identifiers (injective where a
  theorem says so), the HTTP transport, decryption, SHA-256, signature checks, \<open>ORDER BY\<close>, the spreadsheet
  reader. Locales state what one component relies on of another, and each is interpreted on the model of
  its provider.

  \<^bold>\<open>Not modelled\<close>: the HTTP layer (controllers other than the login handler, DTO validation beyond the facts used), audit records, e-mail, storage and cache, the WhatsApp channel, reports, search
  and dashboards, which only read and format rows or call external services; API keys and the
  administration of gateways and providers are left for later.
\<close>

end
